(* ===== verification/Prelude.thy ===== *)
theory Prelude
  imports Main "HOL-Library.Char_ord" "HOL-Library.List_Lexorder"
begin

text \<open>
  Shared vocabulary of the development: the SQL statements of the store as operations on
  lists of rows, the keyed-table interface that several tables provide, the error plumbing of
  Rust's \<open>?\<close> operator, and decimal formatting.

  A table is the list of its rows in rowid order. \<open>INSERT\<close> appends, \<open>INSERT OR REPLACE\<close>
  deletes the row with the same primary key and appends (a fresh rowid), \<open>UPDATE ... WHERE\<close>
  maps over the rows, \<open>SELECT ... WHERE\<close> filters them and \<open>ORDER BY\<close> is a stable sort.
\<close>

named_theorems table_simps \<open>equations of the SQL row operations\<close>
named_theorems res_simps \<open>equations of the error plumbing\<close>

section \<open>Rows\<close>

definition update_rows :: "('r \<Rightarrow> bool) \<Rightarrow> ('r \<Rightarrow> 'r) \<Rightarrow> 'r list \<Rightarrow> 'r list" where
  "update_rows p f rs = map (\<lambda>r. if p r then f r else r) rs"

definition count_rows :: "('r \<Rightarrow> bool) \<Rightarrow> 'r list \<Rightarrow> nat" where
  "count_rows p rs = length (filter p rs)"

definition replace_row :: "('r \<Rightarrow> 'k) \<Rightarrow> 'r \<Rightarrow> 'r list \<Rightarrow> 'r list" where
  "replace_row key r rs = filter (\<lambda>x. key x \<noteq> key r) rs @ [r]"

lemma update_rows_Nil [simp]: "update_rows p f [] = []"
  by (simp add: update_rows_def)

lemma update_rows_Cons [simp]:
  "update_rows p f (r # rs) = (if p r then f r else r) # update_rows p f rs"
  by (simp add: update_rows_def)

lemma update_rows_append [simp]:
  "update_rows p f (xs @ ys) = update_rows p f xs @ update_rows p f ys"
  by (simp add: update_rows_def)

lemma list_all2_update_rows:
  "(\<And>x. x \<in> set xs \<Longrightarrow> R x x) \<Longrightarrow> (\<And>x. x \<in> set xs \<Longrightarrow> P x \<Longrightarrow> R x (f x)) \<Longrightarrow> list_all2 R xs (update_rows P f xs)"
  by (induction xs) auto

lemma list_all2_same: "(\<And>x. R x x) \<Longrightarrow> list_all2 R xs xs"
  by (rule list_all2_refl)

lemma length_update_rows [simp]: "length (update_rows p f rs) = length rs"
  by (simp add: update_rows_def)

lemma set_update_rows:
  "set (update_rows p f rs) = {if p r then f r else r | r. r \<in> set rs}"
  by (auto simp: update_rows_def)

lemma update_rows_id: "(\<And>r. r \<in> set rs \<Longrightarrow> \<not> p r) \<Longrightarrow> update_rows p f rs = rs"
  by (induction rs) auto

lemma in_update_rowsE:
  assumes "x \<in> set (update_rows p f rs)"
  obtains r where "r \<in> set rs" "p r" "x = f r" | "x \<in> set rs" "\<not> p x"
  using assms by (auto simp: set_update_rows split: if_splits)

lemma map_update_rows_inv [table_simps]:
  "(\<And>r. p r \<Longrightarrow> key (f r) = key r) \<Longrightarrow> map key (update_rows p f rs) = map key rs"
  by (induction rs) auto

lemma filter_update_rows_keep:
  "(\<And>r. p r \<Longrightarrow> q (f r) = q r) \<Longrightarrow>
   filter q (update_rows p f rs) = update_rows p f (filter q rs)"
  by (induction rs) auto

lemma update_rows_map: "update_rows p f rs = map (\<lambda>r. if p r then f r else r) rs"
  by (simp add: update_rows_def)

lemma update_rows_twice:
  assumes "\<And>r. key (f r) = key r" "\<And>r. f (f r) = f r"
  shows "update_rows (\<lambda>r. P (key r)) f (update_rows (\<lambda>r. Q (key r)) f rs) =
    update_rows (\<lambda>r. P (key r) \<or> Q (key r)) f rs"
  using assms by (induction rs) auto

text \<open>Updating row after row, by key, is one update of all of them.\<close>

lemma fold_update_rows:
  assumes "\<And>r. key (f r) = key r" "\<And>r. f (f r) = f r"
  shows "fold (\<lambda>k. update_rows (\<lambda>r. key r = k) f) ks rs = update_rows (\<lambda>r. key r \<in> set ks) f rs"
proof (induction ks arbitrary: rs)
  case Nil
  show ?case by (simp add: update_rows_id)
next
  case (Cons k ks)
  then show ?case
    using update_rows_twice [of key f "\<lambda>x. x \<in> set ks" "\<lambda>x. x = k" rs, OF assms]
    by (simp add: disj_commute)
qed

lemma count_rows_Nil [simp]: "count_rows p [] = 0"
  by (simp add: count_rows_def)

lemma count_rows_Cons [simp]: "count_rows p (r # rs) = (if p r then Suc else id) (count_rows p rs)"
  by (simp add: count_rows_def)

lemma count_rows_append [simp]: "count_rows p (xs @ ys) = count_rows p xs + count_rows p ys"
  by (simp add: count_rows_def)

lemma count_rows_zero_iff: "count_rows p rs = 0 \<longleftrightarrow> (\<forall>r \<in> set rs. \<not> p r)"
  by (auto simp: count_rows_def filter_empty_conv)

lemma count_rows_pos_iff: "0 < count_rows p rs \<longleftrightarrow> (\<exists>r \<in> set rs. p r)"
  using count_rows_zero_iff [of p rs] by auto

lemma count_rows_mono:
  "(\<And>r. r \<in> set rs \<Longrightarrow> p r \<Longrightarrow> q r) \<Longrightarrow> count_rows p rs \<le> count_rows q rs"
  by (induction rs) (auto intro: le_SucI)

lemma count_rows_update_le:
  "(\<And>r. r \<in> set rs \<Longrightarrow> p r \<Longrightarrow> q (f r) \<Longrightarrow> q r) \<Longrightarrow> count_rows q (update_rows p f rs) \<le> count_rows q rs"
  by (induction rs) (auto intro: le_SucI)

lemma count_rows_update_eq:
  "(\<And>r. r \<in> set rs \<Longrightarrow> p r \<Longrightarrow> q (f r) = q r) \<Longrightarrow> count_rows q (update_rows p f rs) = count_rows q rs"
  by (induction rs) auto

lemma find_Some_in: "List.find p rs = Some r \<Longrightarrow> r \<in> set rs \<and> p r"
  by (induction rs) (auto split: if_splits)

lemma find_append:
  "List.find p (xs @ ys) = (case List.find p xs of None \<Rightarrow> List.find p ys | Some r \<Rightarrow> Some r)"
  by (induction xs) auto

lemma find_update_rows_key:
  assumes "\<And>r. key (f r) = key r"
  shows "List.find (\<lambda>r. key r = k) (update_rows p f rs) =
    map_option (\<lambda>r. if p r then f r else r) (List.find (\<lambda>r. key r = k) rs)"
  using assms by (induction rs) auto

lemma find_filter_other:
  "(\<And>r. p r \<Longrightarrow> q r) \<Longrightarrow> List.find p (filter q rs) = List.find p rs"
  by (induction rs) auto

lemma find_filter_none: "(\<And>r. p r \<Longrightarrow> \<not> q r) \<Longrightarrow> List.find p (filter q rs) = None"
  by (auto simp: find_None_iff)

lemma distinct_find_unique:
  "distinct (map key rs) \<Longrightarrow> r \<in> set rs \<Longrightarrow> List.find (\<lambda>x. key x = key r) rs = Some r"
  by (induction rs) (auto simp: rev_image_eqI)

lemma find_replace_row_same [table_simps]:
  "List.find (\<lambda>x. key x = key r) (replace_row key r rs) = Some r"
  by (simp add: replace_row_def find_append find_filter_none)

lemma find_replace_row_other [table_simps]:
  "k \<noteq> key r \<Longrightarrow> List.find (\<lambda>x. key x = k) (replace_row key r rs) = List.find (\<lambda>x. key x = k) rs"
  by (subst replace_row_def, subst find_append, subst find_filter_other)
    (auto split: option.splits)

lemma set_replace_row:
  "set (replace_row key r rs) = insert r {x \<in> set rs. key x \<noteq> key r}"
  by (auto simp: replace_row_def)

lemma distinct_keys_replace_row:
  "distinct (map key rs) \<Longrightarrow> distinct (map key (replace_row key r rs))"
  by (auto simp: replace_row_def distinct_map_filter)

lemma length_filter_mono:
  "(\<And>x. x \<in> set xs \<Longrightarrow> p x \<Longrightarrow> q x) \<Longrightarrow> length (filter p xs) \<le> length (filter q xs)"
  by (induction xs) (auto intro: le_SucI)

section \<open>The keyed-table interface\<close>

text \<open>
  What a client of a table with \<open>INSERT OR REPLACE\<close> and a lookup by primary key relies on.
  The providers are the dedupe, asks and envelopes tables of the bus store.
\<close>

locale keyed_table =
  fixes get :: "'s \<Rightarrow> 'k \<Rightarrow> 'v option"
    and put :: "'k \<Rightarrow> 'v \<Rightarrow> 's \<Rightarrow> 's"
  assumes get_put_same: "get (put k v s) k = Some v"
    and get_put_other: "k' \<noteq> k \<Longrightarrow> get (put k v s) k' = get s k'"
begin

lemma get_put: "get (put k v s) k' = (if k' = k then Some v else get s k')"
  by (simp add: get_put_same get_put_other)

lemma get_puts:
  "get (fold (\<lambda>(k, v). put k v) kvs s) k =
    (case map_of (rev kvs) k of None \<Rightarrow> get s k | Some v \<Rightarrow> Some v)"
  by (induction kvs arbitrary: s)
    (auto simp: get_put map_add_def split: option.splits)

lemma put_put_commute_get:
  "k \<noteq> k' \<Longrightarrow> get (put k v (put k' v' s)) = get (put k' v' (put k v s))"
  by (rule ext) (simp add: get_put)

end

section \<open>Decimal formatting\<close>

definition digit_char :: "nat \<Rightarrow> char" where
  "digit_char d = char_of (48 + d)"

fun dec :: "nat \<Rightarrow> string" where
  "dec n = (if n < 10 then [digit_char n] else dec (n div 10) @ [digit_char (n mod 10)])"

declare dec.simps [simp del]

text \<open>Rust's \<open>{:0w}\<close>: pad with zeros on the left to at least \<open>w\<close> characters.\<close>

definition pad0 :: "nat \<Rightarrow> string \<Rightarrow> string" where
  "pad0 w s = replicate (w - length s) (CHR ''0'') @ s"

lemma digit_char_0: "digit_char 0 = CHR ''0''"
  by (simp add: digit_char_def char_of_def bit_numeral_rec bit_0)

lemma digit_char_less_iff: "a < 10 \<Longrightarrow> b < 10 \<Longrightarrow> digit_char a < digit_char b \<longleftrightarrow> a < b"
  by (simp add: digit_char_def less_char_def)

lemma digit_char_eq_iff: "a < 10 \<Longrightarrow> b < 10 \<Longrightarrow> digit_char a = digit_char b \<longleftrightarrow> a = b"
  using digit_char_less_iff [of a b] digit_char_less_iff [of b a]
  by (cases a b rule: linorder_cases) auto

lemma less_by_last_digit:
  "(a::nat) div 10 < b div 10 \<or> (a div 10 = b div 10 \<and> a mod 10 < b mod 10) \<longleftrightarrow> a < b"
proof -
  have "a = 10 * (a div 10) + a mod 10" "b = 10 * (b div 10) + b mod 10"
    "a mod 10 < 10" "b mod 10 < 10" by simp_all
  then show ?thesis by linarith
qed

lemma eq_by_last_digit: "(a::nat) div 10 = b div 10 \<and> a mod 10 = b mod 10 \<longleftrightarrow> a = b"
  by (metis div_mult_mod_eq)

lemma dec_small: "n < 10 \<Longrightarrow> dec n = [digit_char n]"
  by (subst dec.simps) simp

lemma dec_step: "10 \<le> n \<Longrightarrow> dec n = dec (n div 10) @ [digit_char (n mod 10)]"
  by (subst dec.simps) simp

lemma length_dec_le: "n < 10 ^ w \<Longrightarrow> 0 < w \<Longrightarrow> length (dec n) \<le> w"
proof (induction w arbitrary: n)
  case (Suc w)
  show ?case
  proof (cases "n < 10")
    case False
    with Suc.prems have "n div 10 < 10 ^ w" "0 < w"
      by (auto simp: less_mult_imp_div_less mult.commute intro: Nat.gr0I)
    then show ?thesis using Suc.IH False by (simp add: dec_step)
  qed (simp add: dec_small)
qed simp

lemma pad0_dec_Suc:
  assumes "n < 10 ^ Suc w" "0 < w"
  shows "pad0 (Suc w) (dec n) = pad0 w (dec (n div 10)) @ [digit_char (n mod 10)]"
proof (cases "n < 10")
  case True
  then have "replicate w CHR ''0'' = replicate (w - 1) CHR ''0'' @ [CHR ''0'']"
    using assms(2) by (metis Suc_diff_1 replicate_Suc replicate_append_same)
  then show ?thesis using True by (simp add: pad0_def dec_small digit_char_0)
next
  case False
  then have "length (dec (n div 10)) \<le> w"
    using assms by (intro length_dec_le) (auto simp: less_mult_imp_div_less mult.commute)
  then show ?thesis using False by (simp add: pad0_def dec_step)
qed

lemma length_pad0_dec: "n < 10 ^ w \<Longrightarrow> 0 < w \<Longrightarrow> length (pad0 w (dec n)) = w"
  using length_dec_le [of n w] by (simp add: pad0_def)

lemma lex_append_same_length:
  fixes xs ys us vs :: "'a::linorder list"
  assumes "length xs = length ys"
  shows "xs @ us < ys @ vs \<longleftrightarrow> xs < ys \<or> (xs = ys \<and> us < vs)"
  using assms by (induction xs ys rule: list_induct2) auto

lemma pad0_dec_less_iff:
  "a < 10 ^ w \<Longrightarrow> b < 10 ^ w \<Longrightarrow> 0 < w \<Longrightarrow> pad0 w (dec a) < pad0 w (dec b) \<longleftrightarrow> a < b"
  and pad0_dec_eq_iff:
  "a < 10 ^ w \<Longrightarrow> b < 10 ^ w \<Longrightarrow> 0 < w \<Longrightarrow> pad0 w (dec a) = pad0 w (dec b) \<longleftrightarrow> a = b"
proof (induction w arbitrary: a b)
  case (Suc w)
  {
    case 1
    show ?case
    proof (cases "w = 0")
      case True
      with 1 show ?thesis by (simp add: pad0_def dec_small digit_char_less_iff)
    next
      case False
      let ?a = "a div 10" and ?b = "b div 10"
      have q: "?a < 10 ^ w" "?b < 10 ^ w" "0 < w"
        using 1 False by (auto simp: less_mult_imp_div_less mult.commute)
      have "pad0 (Suc w) (dec a) < pad0 (Suc w) (dec b) \<longleftrightarrow>
          ?a < ?b \<or> (?a = ?b \<and> a mod 10 < b mod 10)"
        using 1 q Suc.IH [of ?a ?b]
        by (simp add: pad0_dec_Suc lex_append_same_length length_pad0_dec digit_char_less_iff)
      also have "\<dots> \<longleftrightarrow> a < b" by (rule less_by_last_digit)
      finally show ?thesis .
    qed
  next
    case 2
    show ?case
    proof (cases "w = 0")
      case True
      with 2 show ?thesis by (simp add: pad0_def dec_small digit_char_eq_iff)
    next
      case False
      let ?a = "a div 10" and ?b = "b div 10"
      have q: "?a < 10 ^ w" "?b < 10 ^ w" "0 < w"
        using 2 False by (auto simp: less_mult_imp_div_less mult.commute)
      have "pad0 (Suc w) (dec a) = pad0 (Suc w) (dec b) \<longleftrightarrow>
          ?a = ?b \<and> a mod 10 = b mod 10"
        using 2 q Suc.IH [of ?a ?b] by (simp add: pad0_dec_Suc digit_char_eq_iff)
      also have "\<dots> \<longleftrightarrow> a = b" by (rule eq_by_last_digit)
      finally show ?thesis .
    qed
  }
qed simp_all

section \<open>Early returns\<close>

text \<open>
  A stateful operation returns its result beside the state it leaves. \<open>bind_res\<close> is the
  \<open>?\<close> operator: an error ends the operation and keeps the state reached so far, which is
  what the code does, because outside the explicit transactions nothing is rolled back.
\<close>

type_synonym ('e, 'a, 's) step = "'s \<Rightarrow> ('e + 'a) \<times> 's"

definition bind_res ::
  "('e + 'a) \<times> 's \<Rightarrow> ('a \<Rightarrow> 's \<Rightarrow> ('e + 'b) \<times> 's) \<Rightarrow> ('e + 'b) \<times> 's" where
  "bind_res r k = (case r of (Inl e, s) \<Rightarrow> (Inl e, s) | (Inr a, s) \<Rightarrow> k a s)"

definition is_ok :: "'e + 'a \<Rightarrow> bool" where
  "is_ok r = (case r of Inl _ \<Rightarrow> False | Inr _ \<Rightarrow> True)"

lemma bind_res_simps [simp, res_simps]:
  "bind_res (Inl e, s) k = (Inl e, s)"
  "bind_res (Inr a, s) k = k a s"
  by (simp_all add: bind_res_def)

lemma is_ok_simps [simp]: "is_ok (Inr a)" "\<not> is_ok (Inl e)"
  by (simp_all add: is_ok_def)

lemma bind_res_Inr:
  "bind_res r k = (Inr b, t) \<longleftrightarrow> (\<exists>a s. r = (Inr a, s) \<and> k a s = (Inr b, t))"
  by (auto simp: bind_res_def split: prod.splits sum.splits)

lemma bind_res_Inl:
  "bind_res r k = (Inl e, t) \<longleftrightarrow> r = (Inl e, t) \<or> (\<exists>a s. r = (Inr a, s) \<and> k a s = (Inl e, t))"
  by (auto simp: bind_res_def split: prod.splits sum.splits)

text \<open>A sequence of operations is a sequence of steps when each of them is.\<close>

lemma after_bind:
  assumes "R\<^sup>*\<^sup>* d0 (snd r)" "\<And>a d. r = (Inr a, d) \<Longrightarrow> R\<^sup>*\<^sup>* d0 d \<Longrightarrow> R\<^sup>*\<^sup>* d0 (snd (k a d))"
  shows "R\<^sup>*\<^sup>* d0 (snd (bind_res r k))"
  using assms by (cases r; cases "fst r") auto

section \<open>Reachable states\<close>

text \<open>
  The states a component can be in after any sequence of its operations.  A component gives its
  initial states and its steps; \<open>invariant_of\<close> is the interface under which an invariant is
  used, and each component interprets it on its own steps.
\<close>

inductive reachable :: "('s \<Rightarrow> bool) \<Rightarrow> ('s \<Rightarrow> 's \<Rightarrow> bool) \<Rightarrow> 's \<Rightarrow> bool" for init step where
  reachable_init: "init s \<Longrightarrow> reachable init step s"
| reachable_step: "reachable init step s \<Longrightarrow> step s t \<Longrightarrow> reachable init step t"

locale invariant_of =
  fixes init :: "'s \<Rightarrow> bool"
    and step :: "'s \<Rightarrow> 's \<Rightarrow> bool"
    and inv :: "'s \<Rightarrow> bool"
  assumes inv_init: "init s \<Longrightarrow> inv s"
    and inv_step: "inv s \<Longrightarrow> step s t \<Longrightarrow> inv t"
begin

lemma inv_reachable: "reachable init step s \<Longrightarrow> inv s"
  by (induction rule: reachable.induct) (auto intro: inv_init inv_step)

lemma inv_steps: "step\<^sup>*\<^sup>* s t \<Longrightarrow> inv s \<Longrightarrow> inv t"
  by (induction rule: rtranclp_induct) (auto intro: inv_step)

end

end
