(* ===== verification/Types.thy ===== *)
theory Types
  imports Prelude
begin

text \<open>
  The protocol vocabulary of \<open>crewd-core\<close>: the error codes (\<open>error.rs\<close>), message kinds,
  the envelope and its invariants, TTL clamping and RFC 3339 time (\<open>types.rs\<close>), the delivery
  state machine (\<open>state.rs\<close>) with the adapter outcome mapping (\<open>adapter.rs\<close>).

  Error messages are free text and are not modelled: an error is its variant. The clock is an
  argument: every function that reads \<open>SystemTime::now()\<close> takes the unix seconds as a \<open>nat\<close>
  below \<open>2 ^ 64\<close>.
\<close>

section \<open>Errors\<close>

datatype bus_error =
    AclDenied | AuthRejected | UnknownCell | TtlExpired | WouldDeadlock | Quota
  | BodyTooLarge | Dup | AskNotFound | ReplyExists | UnsupportedSpecVersion
  | CellBusy | QueueFull | EngineDown | ThreadNotResumable | PolicyDenied | Timeout_err
  | Cancelled_err | Internal

type_synonym 'a res = "bus_error + 'a"
type_synonym ('a, 's) op = "(bus_error, 'a, 's) step"

fun code :: "bus_error \<Rightarrow> string" where
  "code AclDenied = ''E_ACL_DENIED''"
| "code AuthRejected = ''E_AUTH_REJECTED''"
| "code UnknownCell = ''E_UNKNOWN_CELL''"
| "code TtlExpired = ''E_TTL_EXPIRED''"
| "code WouldDeadlock = ''E_WOULD_DEADLOCK''"
| "code Quota = ''E_QUOTA''"
| "code BodyTooLarge = ''E_BODY_TOO_LARGE''"
| "code Dup = ''E_DUP''"
| "code AskNotFound = ''E_ASK_NOT_FOUND''"
| "code ReplyExists = ''E_REPLY_EXISTS''"
| "code UnsupportedSpecVersion = ''E_UNSUPPORTED_SPEC_VERSION''"
| "code CellBusy = ''E_CELL_BUSY''"
| "code QueueFull = ''E_QUEUE_FULL''"
| "code EngineDown = ''E_ENGINE_DOWN''"
| "code ThreadNotResumable = ''E_THREAD_NOT_RESUMABLE''"
| "code PolicyDenied = ''E_POLICY_DENIED''"
| "code Timeout_err = ''E_TIMEOUT''"
| "code Cancelled_err = ''E_CANCELLED''"
| "code Internal = ''E_INTERNAL''"

lemma code_inj: "code a = code b \<Longrightarrow> a = b"
  by (cases a; cases b) simp_all

section \<open>Kinds and the envelope\<close>

datatype kind = Send | Ask | Reply | Broadcast | Notice

datatype msg_type = MNote | MTask | MAsk | MReply | MEvidence | MAdminRequest

fun kind_as_str :: "kind \<Rightarrow> string" where
  "kind_as_str Send = ''send''"
| "kind_as_str Ask = ''ask''"
| "kind_as_str Reply = ''reply''"
| "kind_as_str Broadcast = ''broadcast''"
| "kind_as_str Notice = ''notice''"

fun msg_type_as_str :: "msg_type \<Rightarrow> string" where
  "msg_type_as_str MNote = ''note''"
| "msg_type_as_str MTask = ''task''"
| "msg_type_as_str MAsk = ''ask''"
| "msg_type_as_str MReply = ''reply''"
| "msg_type_as_str MEvidence = ''evidence''"
| "msg_type_as_str MAdminRequest = ''admin_request''"

text \<open>The readers of the two TEXT columns (\<open>store.rs\<close>), with their fall-through defaults.\<close>

definition parse_kind :: "string \<Rightarrow> kind" where
  "parse_kind s =
    (if s = ''ask'' then Ask else if s = ''reply'' then Reply
     else if s = ''broadcast'' then Broadcast else if s = ''notice'' then Notice else Send)"

definition parse_msg_type :: "string \<Rightarrow> msg_type" where
  "parse_msg_type s =
    (if s = ''note'' then MNote else if s = ''task'' then MTask else if s = ''ask'' then MAsk
     else if s = ''reply'' then MReply else if s = ''evidence'' then MEvidence
     else if s = ''admin_request'' then MAdminRequest else MTask)"

lemma parse_kind_as_str [simp]: "parse_kind (kind_as_str k) = k"
  by (cases k) (simp_all add: parse_kind_def)

lemma parse_msg_type_as_str [simp]: "parse_msg_type (msg_type_as_str m) = m"
  by (cases m) (simp_all add: parse_msg_type_def)

definition SPEC_VERSION :: string where "SPEC_VERSION = ''0.1''"
definition MAX_BODY_BYTES :: nat where "MAX_BODY_BYTES = 65536"
definition MAX_IDEMPOTENCY_KEY_BYTES :: nat where "MAX_IDEMPOTENCY_KEY_BYTES = 128"
definition TTL_CEILING_ASK_SECS :: nat where "TTL_CEILING_ASK_SECS = 900"
definition TTL_CEILING_SEND_SECS :: nat where "TTL_CEILING_SEND_SECS = 86400"
definition TTL_CEILING_BROADCAST_SECS :: nat where "TTL_CEILING_BROADCAST_SECS = 3600"
definition TAINT :: string where "TAINT = ''peer_untrusted''"

record envelope =
  e_spec_version :: string
  e_message_id :: string
  e_ask_id :: "string option"
  e_from_cell :: string
  e_to_cell :: "string option"
  e_kind :: kind
  e_msg_type :: msg_type
  e_principal_capabilities :: "string list"
  e_created_at :: string
  e_expires_at :: string
  e_seq :: nat
  e_idempotency_key :: string
  e_body :: string
  e_file_refs :: "string list"
  e_taint :: string
  e_reply_to :: "string option"

definition validate_invariants :: "envelope \<Rightarrow> unit res" where
  "validate_invariants e =
    (if e_taint e \<noteq> TAINT then Inl Internal
     else if (case e_kind e of Broadcast \<Rightarrow> e_to_cell e \<noteq> None | _ \<Rightarrow> e_to_cell e = None)
       then Inl Internal
     else if e_kind e = Reply \<and> (e_reply_to e = None \<or> e_ask_id e = None) then Inl AskNotFound
     else if MAX_BODY_BYTES < length (e_body e) then Inl BodyTooLarge
     else Inr ())"

definition clamp_ttl :: "kind \<Rightarrow> nat option \<Rightarrow> nat" where
  "clamp_ttl k requested =
    (let ceiling = (case k of Ask \<Rightarrow> TTL_CEILING_ASK_SECS
                            | Broadcast \<Rightarrow> TTL_CEILING_BROADCAST_SECS
                            | _ \<Rightarrow> TTL_CEILING_SEND_SECS)
     in case requested of None \<Rightarrow> ceiling | Some s \<Rightarrow> min s ceiling)"

section \<open>Delivery states\<close>

datatype delivery_state = DQueued | DClaimed | DDelivered | DAcked | DFailed | DExpired

fun delivery_as_str :: "delivery_state \<Rightarrow> string" where
  "delivery_as_str DQueued = ''queued''"
| "delivery_as_str DClaimed = ''claimed''"
| "delivery_as_str DDelivered = ''delivered''"
| "delivery_as_str DAcked = ''acked''"
| "delivery_as_str DFailed = ''failed''"
| "delivery_as_str DExpired = ''expired''"

definition delivery_parse :: "string \<Rightarrow> delivery_state option" where
  "delivery_parse s =
    (if s = ''queued'' then Some DQueued else if s = ''claimed'' then Some DClaimed
     else if s = ''delivered'' then Some DDelivered else if s = ''acked'' then Some DAcked
     else if s = ''failed'' then Some DFailed else if s = ''expired'' then Some DExpired
     else None)"

lemma delivery_parse_as_str [simp]: "delivery_parse (delivery_as_str s) = Some s"
  by (cases s) (simp_all add: delivery_parse_def)

fun delivery_transition_allowed :: "delivery_state \<Rightarrow> delivery_state \<Rightarrow> bool" where
  "delivery_transition_allowed DQueued DClaimed = True"
| "delivery_transition_allowed DClaimed DDelivered = True"
| "delivery_transition_allowed DClaimed DQueued = True"
| "delivery_transition_allowed DClaimed DFailed = True"
| "delivery_transition_allowed DDelivered DAcked = True"
| "delivery_transition_allowed DQueued DFailed = True"
| "delivery_transition_allowed DQueued DExpired = True"
| "delivery_transition_allowed DClaimed DExpired = True"
| "delivery_transition_allowed _ _ = False"

datatype delivery_outcome = ODelivered | OAcked | OTransientFailure | OPermanentFailure | ONotReady

fun outcome_to_state :: "delivery_outcome \<Rightarrow> delivery_state" where
  "outcome_to_state ODelivered = DDelivered"
| "outcome_to_state OAcked = DAcked"
| "outcome_to_state OTransientFailure = DQueued"
| "outcome_to_state ONotReady = DQueued"
| "outcome_to_state OPermanentFailure = DFailed"

section \<open>RFC 3339 time\<close>

text \<open>
  \<open>civil_from_days\<close> on \<open>int\<close>: the code's \<open>i64\<close> arithmetic stays far below \<open>2 ^ 63\<close>, because
  the argument is an unsigned 64-bit count of seconds divided by 86400.  Rust's \<open>/\<close> truncates;
  the code only divides non-negative numbers, once \<open>era\<close> has corrected the sign of \<open>z\<close>, where
  truncation and flooring agree on \<open>z - 146096\<close> being rounded towards minus infinity.
\<close>

definition trunc_div :: "int \<Rightarrow> int \<Rightarrow> int" where
  "trunc_div a b = sgn a * sgn b * (\<bar>a\<bar> div \<bar>b\<bar>)"

definition civil_from_days :: "int \<Rightarrow> int \<times> nat \<times> nat" where
  "civil_from_days z0 =
    (let z = z0 + 719468;
         era = trunc_div (if 0 \<le> z then z else z - 146096) 146097;
         doe = nat (z - era * 146097);
         yoe = (doe - doe div 1460 + doe div 36524 - doe div 146096) div 365;
         y = int yoe + era * 400;
         doy = doe - (365 * yoe + yoe div 4 - yoe div 100);
         mp = (5 * doy + 2) div 153;
         d = doy - (153 * mp + 2) div 5 + 1;
         m = (if mp < 10 then mp + 3 else mp - 9)
     in (if m \<le> 2 then y + 1 else y, m, d))"

text \<open>\<open>{:04}\<close> of a signed year: the sign counts towards the width.\<close>

definition fmt_year :: "int \<Rightarrow> string" where
  "fmt_year y = (if 0 \<le> y then pad0 4 (dec (nat y)) else CHR ''-'' # pad0 3 (dec (nat (- y))))"

definition rfc3339_from_unix_secs :: "nat \<Rightarrow> string" where
  "rfc3339_from_unix_secs secs =
    (let days = secs div 86400; r = secs mod 86400;
         h = r div 3600; mi = (r mod 3600) div 60; s = r mod 60;
         (y, mo, d) = civil_from_days (int days)
     in fmt_year y @ ''-'' @ pad0 2 (dec mo) @ ''-'' @ pad0 2 (dec d) @ ''T''
        @ pad0 2 (dec h) @ '':'' @ pad0 2 (dec mi) @ '':'' @ pad0 2 (dec s) @ ''Z'')"

definition U64_MAX :: nat where "U64_MAX = 2 ^ 64 - 1"

definition now_rfc3339 :: "nat \<Rightarrow> string" where
  "now_rfc3339 now = rfc3339_from_unix_secs now"

definition rfc3339_after :: "nat \<Rightarrow> nat \<Rightarrow> string" where
  "rfc3339_after now secs = rfc3339_from_unix_secs (min (now + secs) U64_MAX)"

end
