(* ===== verification/Calendar.thy ===== *)
theory Calendar
  imports Types
begin

text \<open>
  The proof behind the daemon's time comparisons.  Lease expiry, ask expiry, envelope TTL and
  token expiry all compare RFC 3339 strings lexicographically; \<open>rfc3339_order\<close> shows that this
  is the order of the instants, for every time before the year 10000.  The steps: the day count
  of the 400-year era is monotone and splits into years at \<open>year_start\<close>; within a year the
  month formula is monotone; the string fields have fixed widths.
\<close>


definition day_count :: "nat \<Rightarrow> nat" where
  "day_count doe = doe - doe div 1460 + doe div 36524 - doe div 146096"

definition year_start :: "nat \<Rightarrow> nat" where
  "year_start y = 365 * y + y div 4 - y div 100"

lemma day_count_Suc:
  assumes "Suc n \<le> 146096"
  shows "day_count n \<le> day_count (Suc n)"
proof (cases "Suc n = 146096")
  case True
  then have "n = 146095" by simp
  then show ?thesis by (simp add: day_count_def)
next
  case False
  then have z: "n div 146096 = 0" "Suc n div 146096 = 0" using assms by simp_all
  have "Suc n div 1460 \<le> Suc (n div 1460)" by (simp add: div_Suc)
  moreover have "n div 36524 \<le> Suc n div 36524" by (simp add: div_le_mono)
  moreover have "n div 1460 \<le> n" "Suc n div 1460 \<le> Suc n" by simp_all
  moreover have "n - a + b - 0 \<le> Suc n - a' + b' - 0"
    if "a' \<le> Suc a" "b \<le> b'" "a \<le> n" "a' \<le> Suc n" for a a' b b' :: nat
    using that by arith
  ultimately show ?thesis unfolding day_count_def z by blast
qed

lemma day_count_mono: "a \<le> b \<Longrightarrow> b \<le> 146096 \<Longrightarrow> day_count a \<le> day_count b"
proof (induction b)
  case (Suc b)
  then show ?case
    using day_count_Suc [of b] by (cases "a = Suc b") (auto intro: order_trans)
qed simp

lemma year_split:
  assumes "y < 400"
  obtains c q s :: nat where "y = 100 * c + 4 * q + s" "c \<le> 3" "q \<le> 24" "s \<le> 3"
    "year_start y = 36524 * c + 1461 * q + 365 * s"
proof -
  define c q s where "c = y div 100" and "q = (y mod 100) div 4" and "s = (y mod 100) mod 4"
  have y: "y = 100 * c + 4 * q + s" by (simp add: c_def q_def s_def)
  have b: "c \<le> 3" "q \<le> 24" "s \<le> 3" using assms by (simp_all add: c_def q_def s_def)
  have "y div 4 = 25 * c + q" "y div 100 = c" using b unfolding y by simp_all
  then have "year_start y = 36524 * c + 1461 * q + 365 * s"
    unfolding year_start_def y by simp
  with y b show ?thesis by (rule that)
qed

lemma day_count_year_start:
  assumes "y < 400"
  shows "day_count (year_start y) = 365 * y"
proof -
  obtain c q s where y: "y = 100 * c + 4 * q + s" and b: "c \<le> 3" "q \<le> 24" "s \<le> 3"
    and F: "year_start y = 36524 * c + 1461 * q + 365 * s" using year_split [OF assms] .
  have "year_start y div 36524 = c" "year_start y div 1460 = 25 * c + q"
    "year_start y div 146096 = 0" using b unfolding F by linarith+
  then have "day_count (year_start y) = year_start y - (25 * c + q) + c"
    unfolding day_count_def by simp
  then show ?thesis using F y by simp
qed

lemma day_count_before_year:
  assumes "y < 400" "0 < y"
  shows "day_count (year_start y - 1) < 365 * y"
proof -
  obtain c q s where y: "y = 100 * c + 4 * q + s" and b: "c \<le> 3" "q \<le> 24" "s \<le> 3"
    and F: "year_start y = 36524 * c + 1461 * q + 365 * s" using year_split [OF assms(1)] .
  define x where "x = year_start y - 1"
  have nz: "0 < c \<or> 0 < q \<or> 0 < s" using assms(2) y by auto
  have x: "Suc x = 36524 * c + 1461 * q + 365 * s" using nz F by (auto simp: x_def)
  have "x div 36524 \<le> c" "25 * c + q \<le> x div 1460" "x div 146096 = 0"
    using b nz x by linarith+
  then have "day_count x \<le> x - (25 * c + q) + c" unfolding day_count_def by linarith
  then show ?thesis using x y nz unfolding x_def [symmetric] by linarith
qed

lemma yoe_bounds:
  assumes "doe \<le> 146096" and y: "y = day_count doe div 365"
  shows "year_start y \<le> doe" and "doe - year_start y \<le> 365" and "y \<le> 399"
proof -
  have "day_count doe \<le> day_count 146096" using assms(1) by (intro day_count_mono) simp_all
  then have "day_count doe \<le> 145999" by (simp add: day_count_def)
  then show y399: "y \<le> 399" unfolding y by linarith
  have lo: "365 * y \<le> day_count doe" and hi: "day_count doe < 365 * (y + 1)"
    unfolding y by simp_all
  show le: "year_start y \<le> doe"
  proof (rule ccontr)
    assume "\<not> year_start y \<le> doe"
    then have d: "doe \<le> year_start y - 1" "0 < year_start y" by simp_all
    then have "0 < y" by (intro Nat.gr0I) (simp add: year_start_def)
    moreover have "year_start y \<le> 146096" using y399 by (simp add: year_start_def)
    ultimately have "day_count doe < 365 * y"
      using day_count_mono [OF d(1)] day_count_before_year [of y] y399 by linarith
    with lo show False by simp
  qed
  show "doe - year_start y \<le> 365"
  proof (cases "y = 399")
    case True
    then show ?thesis using assms(1) by (simp add: year_start_def)
  next
    case False
    then have y1: "Suc y < 400" using y399 by simp
    have "doe < year_start (Suc y)"
    proof (rule ccontr)
      assume "\<not> doe < year_start (Suc y)"
      then have "365 * Suc y \<le> day_count doe"
        using day_count_mono [of "year_start (Suc y)" doe] day_count_year_start [OF y1] assms(1)
        by simp
      with hi show False by simp
    qed
    moreover have "year_start (Suc y) \<le> year_start y + 366"
    proof -
      have "365 * Suc y + u' - v' \<le> 365 * y + u - v + 366"
        if "u' \<le> Suc u" "v \<le> v'" "v \<le> y" for u u' v v' :: nat
      proof -
        have "365 * Suc y + u' - v' \<le> 365 * Suc y + Suc u - v"
          using that by (intro order_trans [OF diff_le_mono2 diff_le_mono]) simp_all
        also have "\<dots> = 365 * y + u - v + 366" using that(3) by simp
        finally show ?thesis .
      qed
      moreover have "Suc y div 4 \<le> Suc (y div 4)" "y div 100 \<le> Suc y div 100" "y div 100 \<le> y"
        by (simp_all add: div_Suc div_le_mono)
      ultimately show ?thesis unfolding year_start_def by blast
    qed
    ultimately show ?thesis by linarith
  qed
qed

lemma month_bounds:
  fixes doy mp :: nat
  assumes "doy \<le> 365" and mp: "mp = (5 * doy + 2) div 153"
  shows "mp \<le> 11" and "(153 * mp + 2) div 5 \<le> doy" and "doy - (153 * mp + 2) div 5 \<le> 30"
  using assms(1) unfolding mp by linarith+

text \<open>The date as the code computes it from the day of the 400-year era.\<close>

definition march_date :: "nat \<Rightarrow> nat \<times> nat \<times> nat" where
  "march_date doe =
    (let yoe = day_count doe div 365; doy = doe - year_start yoe; mp = (5 * doy + 2) div 153
     in (yoe, mp, doy - (153 * mp + 2) div 5 + 1))"

lemma march_dateE:
  assumes "march_date doe = (y, mp, d)" "doe \<le> 146096"
  obtains doy where "y = day_count doe div 365" "doy = doe - year_start y"
    "mp = (5 * doy + 2) div 153" "d = doy - (153 * mp + 2) div 5 + 1"
    "year_start y \<le> doe" "doy \<le> 365" "y \<le> 399" "mp \<le> 11" "(153 * mp + 2) div 5 \<le> doy"
    "1 \<le> d" "d \<le> 31"
proof -
  define doy where "doy = doe - year_start (day_count doe div 365)"
  have e: "y = day_count doe div 365" "mp = (5 * doy + 2) div 153"
    "d = doy - (153 * mp + 2) div 5 + 1"
    using assms(1) unfolding march_date_def Let_def doy_def by blast+
  note yb = yoe_bounds [OF assms(2) e(1)]
  have dy: "doy = doe - year_start y" unfolding doy_def e(1) by (rule refl)
  have dl: "doy \<le> 365" using yb(2) unfolding dy .
  note mb = month_bounds [OF dl e(2)]
  have "1 \<le> d" unfolding e(3) by (rule le_add2)
  moreover have "d \<le> 30 + 1" unfolding e(3) using mb(3) by (rule add_le_mono1)
  ultimately have d: "1 \<le> d" "d \<le> 31" by simp_all
  from e(1) dy e(2,3) yb(1) dl yb(3) mb(1,2) d show ?thesis by (rule that)
qed

lemma march_date_bounds:
  assumes "doe \<le> 146096" "march_date doe = (y, mp, d)"
  shows "y \<le> 399" "mp \<le> 11" "1 \<le> d" "d \<le> 31"
  by (rule march_dateE [OF assms(2,1)], assumption)+

lemma march_date_strict:
  assumes "a < b" "b \<le> 146096" "march_date a = (y, mp, d)" "march_date b = (y', mp', d')"
  shows "y < y' \<or> (y = y' \<and> (mp < mp' \<or> (mp = mp' \<and> d < d')))"
proof -
  have ab: "a \<le> 146096" using assms by simp
  obtain u where u: "y = day_count a div 365" "u = a - year_start y"
    "mp = (5 * u + 2) div 153" "d = u - (153 * mp + 2) div 5 + 1" "year_start y \<le> a"
    "(153 * mp + 2) div 5 \<le> u"
    using march_dateE [OF assms(3) ab] by metis
  obtain v where v: "y' = day_count b div 365" "v = b - year_start y'"
    "mp' = (5 * v + 2) div 153" "d' = v - (153 * mp' + 2) div 5 + 1"
    using march_dateE [OF assms(4,2)] by metis
  have "day_count a \<le> day_count b" using assms by (intro day_count_mono) simp_all
  then have le: "y \<le> y'" unfolding u(1) v(1) by (rule div_le_mono)
  show ?thesis
  proof (cases "y = y'")
    case True
    then have uv: "u < v" using assms(1) u(2,5) v(2) by simp
    then have "mp \<le> mp'" unfolding u(3) v(3) by (intro div_le_mono) simp
    moreover have "d < d'" if "mp = mp'"
      unfolding u(4) v(4) that [symmetric] using uv u(6) by (intro add_strict_right_mono diff_less_mono)
    ultimately show ?thesis using True le_neq_implies_less by blast
  next
    case False
    then show ?thesis using le by simp
  qed
qed

lemma civil_from_days_march:
  assumes "0 \<le> z"
  shows "civil_from_days z =
    (case march_date (nat ((z + 719468) mod 146097)) of (yoe, mp, d) \<Rightarrow>
      (let y = int yoe + (z + 719468) div 146097 * 400;
           m = (if mp < 10 then mp + 3 else mp - 9)
       in (if m \<le> 2 then y + 1 else y, m, d)))"
proof -
  have "trunc_div (z + 719468) 146097 = (z + 719468) div 146097"
    using assms by (simp add: trunc_div_def)
  moreover have "z + 719468 - (z + 719468) div 146097 * 146097 = (z + 719468) mod 146097"
    by (simp add: minus_div_mult_eq_mod)
  moreover have "0 \<le> z + 719468" using assms by simp
  ultimately show ?thesis
    by (simp only: civil_from_days_def march_date_def Let_def day_count_def year_start_def
        if_True prod.case)
qed

lemma civilE:
  assumes "0 \<le> z" "civil_from_days z = (y, m, d)"
  obtains e yoe mp a where "e = (z + 719468) div 146097" "a = nat ((z + 719468) mod 146097)"
    "a \<le> 146096" "march_date a = (yoe, mp, d)" "z + 719468 = e * 146097 + int a" "0 \<le> e"
    "m = (if mp < 10 then mp + 3 else mp - 9)"
    "y = (if m \<le> 2 then int yoe + e * 400 + 1 else int yoe + e * 400)"
    "yoe \<le> 399" "mp \<le> 11" "1 \<le> d" "d \<le> 31"
proof -
  define e a where "e = (z + 719468) div 146097" and "a = nat ((z + 719468) mod 146097)"
  obtain yoe mp d0 where M: "march_date a = (yoe, mp, d0)" by (metis prod.exhaust)
  have a: "a \<le> 146096" using pos_mod_bound [of 146097 "z + 719468"] by (simp add: a_def)
  have e0: "0 \<le> e" unfolding e_def using assms(1) by (intro pos_imp_zdiv_nonneg_iff [THEN iffD2]) simp_all
  have dm: "z + 719468 = e * 146097 + int a" by (simp add: e_def a_def)
  have Y: "m = (if mp < 10 then mp + 3 else mp - 9)"
    "y = (if m \<le> 2 then int yoe + e * 400 + 1 else int yoe + e * 400)" "d = d0"
    using assms(2) M
    unfolding civil_from_days_march [OF assms(1)] a_def [symmetric] e_def [symmetric]
    by (auto simp: Let_def)
  note b = march_date_bounds [OF a M]
  show ?thesis
    using that [OF e_def a_def a _ dm e0 Y(1,2) b(1,2)] M Y(3) b(3,4) by simp
qed

lemma civil_bounds:
  assumes "0 \<le> z" "civil_from_days z = (y, m, d)"
  shows "0 \<le> y" "1 \<le> m" "m \<le> 12" "1 \<le> d" "d \<le> 31"
proof -
  obtain e :: int and yoe mp :: nat where c: "0 \<le> e"
    "m = (if mp < 10 then mp + 3 else mp - 9)"
    "y = (if m \<le> 2 then int yoe + e * 400 + 1 else int yoe + e * 400)" "mp \<le> 11"
    "1 \<le> d" "d \<le> 31"
    using civilE [OF assms] by metis
  show "0 \<le> y" using c(1) unfolding c(3) by simp
  have "mp < 10 \<or> mp = 10 \<or> mp = 11" using c(4) by linarith
  then show "1 \<le> m" "m \<le> 12" unfolding c(2) by auto
  show "1 \<le> d" "d \<le> 31" by (fact c)+
qed

lemma civil_strict:
  assumes "0 \<le> z" "z < z'"
    and "civil_from_days z = (y, m, d)" "civil_from_days z' = (y', m', d')"
  shows "y < y' \<or> (y = y' \<and> (m < m' \<or> (m = m' \<and> d < d')))"
proof -
  obtain e a yoe mp where A: "e = (z + 719468) div 146097" "a \<le> 146096"
    "march_date a = (yoe, mp, d)" "z + 719468 = e * 146097 + int a"
    "m = (if mp < 10 then mp + 3 else mp - 9)"
    "y = (if m \<le> 2 then int yoe + e * 400 + 1 else int yoe + e * 400)" "yoe \<le> 399" "mp \<le> 11"
    using civilE [OF assms(1,3)] by metis
  obtain e' b yoe' mp' where B: "e' = (z' + 719468) div 146097" "b \<le> 146096"
    "march_date b = (yoe', mp', d')" "z' + 719468 = e' * 146097 + int b"
    "m' = (if mp' < 10 then mp' + 3 else mp' - 9)"
    "y' = (if m' \<le> 2 then int yoe' + e' * 400 + 1 else int yoe' + e' * 400)" "yoe' \<le> 399" "mp' \<le> 11"
    using civilE [OF order_trans [OF assms(1) less_imp_le [OF assms(2)]] assms(4)] by metis
  have ee: "e \<le> e'" unfolding A(1) B(1) using assms(2) by (intro zdiv_mono1) simp_all
  have key: "int yoe + e * 400 < int yoe' + e' * 400 \<or>
      (int yoe + e * 400 = int yoe' + e' * 400 \<and> (mp < mp' \<or> (mp = mp' \<and> d < d')))"
  proof (cases "e = e'")
    case True
    then have "a < b" using assms(2) A(4) B(4) by simp
    from march_date_strict [OF this B(2) A(3) B(3)] True show ?thesis by auto
  next
    case False
    then show ?thesis using ee A(7) B(7) by linarith
  qed
  have month: "m = mp + 3 \<and> y = int yoe + e * 400 \<and> mp < 10 \<or>
      m = mp - 9 \<and> y = int yoe + e * 400 + 1 \<and> 10 \<le> mp"
    using A(5,6,8) by (cases "mp < 10") simp_all
  have month': "m' = mp' + 3 \<and> y' = int yoe' + e' * 400 \<and> mp' < 10 \<or>
      m' = mp' - 9 \<and> y' = int yoe' + e' * 400 + 1 \<and> 10 \<le> mp'"
    using B(5,6,8) by (cases "mp' < 10") simp_all
  from key consider "int yoe + e * 400 < int yoe' + e' * 400"
    | "int yoe + e * 400 = int yoe' + e' * 400" "mp < mp'"
    | "int yoe + e * 400 = int yoe' + e' * 400" "mp = mp'" "d < d'" by blast
  then show ?thesis
  proof cases
    case 1
    then show ?thesis using month month' A(8) B(8) by linarith
  next
    case 2
    then show ?thesis using month month' A(8) B(8) by linarith
  next
    case 3
    then show ?thesis using month month' by auto
  qed
qed

lemma civil_year_bound:
  assumes "0 \<le> z" "z \<le> 2932896" "civil_from_days z = (y, m, d)"
  shows "y \<le> 9999"
proof -
  have last: "civil_from_days 2932896 = (9999, 12, 31)"
  proof -
    have "day_count 146036 = 145939" by (simp add: day_count_def)
    then have "march_date 146036 = (399, 9, 31)" by (simp add: march_date_def year_start_def)
    then show ?thesis by (simp add: civil_from_days_march)
  qed
  show ?thesis
  proof (cases "z = 2932896")
    case True
    then show ?thesis using last assms(3) by simp
  next
    case False
    then show ?thesis using civil_strict [OF assms(1) _ assms(3) last] assms(2) by auto
  qed
qed

text \<open>One fixed-width field of a formatted time: equal lengths make the string order lexicographic.\<close>

lemma field_less:
  assumes "a < 10 ^ w" "b < 10 ^ w" "0 < w"
  shows "pad0 w (dec a) @ us < pad0 w (dec b) @ vs \<longleftrightarrow> a < b \<or> (a = b \<and> us < vs)"
  using assms by (simp add: lex_append_same_length length_pad0_dec pad0_dec_less_iff pad0_dec_eq_iff)

lemma hms_split: "(n::nat) = 3600 * (n div 3600) + (60 * (n mod 3600 div 60) + n mod 60)"
proof -
  have "n mod 3600 mod 60 = n mod 60" by (simp add: mod_mod_cancel)
  then have "n mod 3600 = 60 * (n mod 3600 div 60) + n mod 60"
    using mult_div_mod_eq [of 60 "n mod 3600"] by simp
  then show ?thesis using mult_div_mod_eq [of 3600 n] by simp
qed

lemma sep_less: "(s::string) @ us < s @ vs \<longleftrightarrow> us < vs"
  by (simp add: lex_append_same_length)

definition YEAR_10000 :: nat where "YEAR_10000 = 253402300800"

lemma rfc3339_strict:
  assumes "a < b" "b < YEAR_10000"
  shows "rfc3339_from_unix_secs a < rfc3339_from_unix_secs b"
proof -
  define da db ra rb where "da = a div 86400" and "db = b div 86400"
    and "ra = a mod 86400" and "rb = b mod 86400"
  obtain y mo d where A: "civil_from_days (int da) = (y, mo, d)" by (metis prod.exhaust)
  obtain y' mo' d' where B: "civil_from_days (int db) = (y', mo', d')" by (metis prod.exhaust)
  have bd: "int db \<le> 2932896" "int da \<le> 2932896"
    using assms by (simp_all add: YEAR_10000_def da_def db_def)
  have da: "0 \<le> int da" and db: "0 \<le> int db" by simp_all
  note ca = civil_bounds [OF da A] civil_year_bound [OF da bd(2) A]
  note cb = civil_bounds [OF db B] civil_year_bound [OF db bd(1) B]
  define h m s h' m' s' where "h = ra div 3600" and "m = (ra mod 3600) div 60" and "s = ra mod 60"
    and "h' = rb div 3600" and "m' = (rb mod 3600) div 60" and "s' = rb mod 60"
  have FA: "rfc3339_from_unix_secs a = pad0 4 (dec (nat y)) @ ''-'' @ pad0 2 (dec mo) @ ''-''
      @ pad0 2 (dec d) @ ''T'' @ pad0 2 (dec h) @ '':'' @ pad0 2 (dec m) @ '':'' @ pad0 2 (dec s) @ ''Z''"
    using ca(1) A unfolding rfc3339_from_unix_secs_def da_def [symmetric] ra_def [symmetric]
    by (simp only: Let_def prod.case fmt_year_def if_True h_def m_def s_def)
  have FB: "rfc3339_from_unix_secs b = pad0 4 (dec (nat y')) @ ''-'' @ pad0 2 (dec mo') @ ''-''
      @ pad0 2 (dec d') @ ''T'' @ pad0 2 (dec h') @ '':'' @ pad0 2 (dec m') @ '':'' @ pad0 2 (dec s') @ ''Z''"
    using cb(1) B unfolding rfc3339_from_unix_secs_def db_def [symmetric] rb_def [symmetric]
    by (simp only: Let_def prod.case fmt_year_def if_True h'_def m'_def s'_def)
  have rr: "ra < 86400" "rb < 86400" by (simp_all add: ra_def rb_def)
  have hb: "h < 10 ^ 2" "m < 10 ^ 2" "s < 10 ^ 2" "h' < 10 ^ 2" "m' < 10 ^ 2" "s' < 10 ^ 2"
    using rr by (simp_all add: h_def m_def s_def h'_def m'_def s'_def)
  have yb: "nat y < 10 ^ 4" "nat y' < 10 ^ 4" "mo < 10 ^ 2" "mo' < 10 ^ 2" "d < 10 ^ 2" "d' < 10 ^ 2"
    using ca cb by simp_all
  have key: "da < db \<or> (da = db \<and> ra < rb)"
    using assms(1) div_le_mono [of a b 86400] div_mult_mod_eq [of a 86400] div_mult_mod_eq [of b 86400]
    unfolding da_def db_def ra_def rb_def by linarith
  have date: "nat y < nat y' \<or> (nat y = nat y' \<and> (mo < mo' \<or> (mo = mo' \<and> d < d')))" if "da < db"
    using civil_strict [OF da _ A B] that ca(1) cb(1) by auto
  have same: "y = y'" "mo = mo'" "d = d'" if "da = db" using A B that by simp_all
  have time: "h < h' \<or> (h = h' \<and> (m < m' \<or> (m = m' \<and> s < s')))" if "ra < rb"
  proof -
    have "ra = 3600 * h + (60 * m + s)" "rb = 3600 * h' + (60 * m' + s')"
      unfolding h_def m_def s_def h'_def m'_def s'_def by (rule hms_split)+
    moreover have "s < 60" "s' < 60" "m < 60" "m' < 60"
      by (simp_all add: s_def s'_def m_def m'_def less_mult_imp_div_less)
    ultimately show ?thesis using that by linarith
  qed
  show ?thesis
    unfolding FA FB using hb yb key date same time by (auto simp: field_less sep_less)
qed

text \<open>C32: Before the year 10000 the RFC 3339 strings the daemon writes are ordered
  lexicographically exactly as the instants they stand for, so the string comparisons of leases,
  asks, envelopes and tokens are comparisons of time.\<close>

theorem rfc3339_order:
  assumes "a < YEAR_10000" "b < YEAR_10000"
  shows "(rfc3339_from_unix_secs a < rfc3339_from_unix_secs b \<longleftrightarrow> a < b) \<and>
    (rfc3339_from_unix_secs a \<le> rfc3339_from_unix_secs b \<longleftrightarrow> a \<le> b)"
  using assms rfc3339_strict [of a b] rfc3339_strict [of b a]
  by (cases a b rule: linorder_cases; force)

theorem rfc3339_order_witness:
  "(rfc3339_from_unix_secs 951782399 < rfc3339_from_unix_secs 951782400) = (951782399 < (951782400::nat))"
  by (rule rfc3339_order [THEN conjunct1]) (simp_all add: YEAR_10000_def)

end
