(* ===== verification/Validators.thy ===== *)
theory Validators
  imports Types
begin

text \<open>
  The input validators of \<open>validators.rs\<close> and the daemon's ephemeral cell names
  (\<open>ephemeral_cell_name\<close> in \<open>handlers.rs\<close>).  A string is its list of bytes.
\<close>

definition strip_prefix :: "string \<Rightarrow> string \<Rightarrow> string option" where
  "strip_prefix p s = (if take (length p) s = p then Some (drop (length p) s) else None)"

definition is_ascii_lowercase :: "char \<Rightarrow> bool" where
  "is_ascii_lowercase c \<longleftrightarrow> CHR ''a'' \<le> c \<and> c \<le> CHR ''z''"

definition is_ascii_digit :: "char \<Rightarrow> bool" where
  "is_ascii_digit c \<longleftrightarrow> CHR ''0'' \<le> c \<and> c \<le> CHR ''9''"

definition is_ascii_alphanumeric :: "char \<Rightarrow> bool" where
  "is_ascii_alphanumeric c \<longleftrightarrow>
    is_ascii_lowercase c \<or> is_ascii_digit c \<or> (CHR ''A'' \<le> c \<and> c \<le> CHR ''Z'')"

definition EPHEMERAL_PREFIX :: string where
  "EPHEMERAL_PREFIX = ''~ephemeral-''"

definition validate_cell_name :: "string \<Rightarrow> unit res" where
  "validate_cell_name name =
    (if \<not> (1 \<le> length name \<and> length name \<le> 64) then Inl PolicyDenied
     else if \<not> list_all (\<lambda>b. is_ascii_lowercase b \<or> is_ascii_digit b \<or> b = CHR ''_'' \<or> b = CHR ''-'') name
     then Inl PolicyDenied
     else Inr ())"

definition validate_cell_name_allowing_ephemeral :: "string \<Rightarrow> unit res" where
  "validate_cell_name_allowing_ephemeral name =
    (case strip_prefix EPHEMERAL_PREFIX name of
       Some suffix \<Rightarrow>
        (if \<not> (1 \<le> length suffix \<and> length suffix \<le> 53) then Inl PolicyDenied
         else if \<not> list_all (\<lambda>b. is_ascii_lowercase b \<or> is_ascii_digit b) suffix then Inl PolicyDenied
         else Inr ())
     | None \<Rightarrow> validate_cell_name name)"

definition validate_idempotency_key :: "string \<Rightarrow> unit res" where
  "validate_idempotency_key key =
    (if \<not> (1 \<le> length key \<and> length key \<le> 128) then Inl PolicyDenied else Inr ())"

definition ephemeral_cell_name :: "string \<Rightarrow> string" where
  "ephemeral_cell_name uuid =
    EPHEMERAL_PREFIX @ rev (take 8 (rev (filter is_ascii_alphanumeric uuid)))"

lemma strip_prefix_append [simp]: "strip_prefix p (p @ s) = Some s"
  by (simp add: strip_prefix_def)

lemma strip_prefix_Some: "strip_prefix p s = Some t \<longleftrightarrow> s = p @ t"
  by (auto simp: strip_prefix_def) (metis append_take_drop_id)

lemma validate_cell_name_ok:
  "validate_cell_name n = Inr () \<longleftrightarrow>
    n \<noteq> [] \<and> length n \<le> 64 \<and>
    (\<forall>b \<in> set n. is_ascii_lowercase b \<or> is_ascii_digit b \<or> b = CHR ''_'' \<or> b = CHR ''-'')"
  by (auto simp: validate_cell_name_def list_all_iff Suc_le_eq)

lemma validate_error: 
  "validate_cell_name n \<noteq> Inr () \<Longrightarrow> validate_cell_name n = Inl PolicyDenied"
  by (auto simp: validate_cell_name_def split: if_splits)

text \<open>A name a client may use never has the reserved prefix, because \<open>~\<close> is outside the alphabet.\<close>

lemma named_not_ephemeral:
  assumes "validate_cell_name n = Inr ()"
  shows "strip_prefix EPHEMERAL_PREFIX n = None"
proof (cases "strip_prefix EPHEMERAL_PREFIX n")
  case (Some t)
  then have "CHR ''~'' \<in> set n" by (simp add: strip_prefix_Some EPHEMERAL_PREFIX_def)
  with assms show ?thesis
    by (auto simp: validate_cell_name_ok is_ascii_lowercase_def is_ascii_digit_def less_eq_char_def)
qed simp

lemma ephemeral_validates:
  assumes "\<forall>c \<in> set uuid. is_ascii_lowercase c \<or> is_ascii_digit c \<or> c = CHR ''-''"
    and "\<exists>c \<in> set uuid. c \<noteq> CHR ''-''"
  shows "validate_cell_name_allowing_ephemeral (ephemeral_cell_name uuid) = Inr ()"
proof -
  let ?al = "filter is_ascii_alphanumeric uuid"
  let ?s = "rev (take 8 (rev ?al))"
  have dash: "\<not> is_ascii_alphanumeric CHR ''-''"
    by (simp add: is_ascii_alphanumeric_def is_ascii_lowercase_def is_ascii_digit_def less_eq_char_def)
  have "?al \<noteq> []"
    using assms by (auto simp: filter_empty_conv is_ascii_alphanumeric_def)
  then have "1 \<le> length ?s \<and> length ?s \<le> 53" by (cases ?al rule: rev_cases) auto
  moreover have "set ?s \<subseteq> set ?al" using set_take_subset [of 8 "rev ?al"] by auto
  then have "\<forall>c \<in> set ?s. is_ascii_lowercase c \<or> is_ascii_digit c"
    using assms(1) dash by fastforce
  ultimately show ?thesis
    by (simp add: validate_cell_name_allowing_ephemeral_def ephemeral_cell_name_def list_all_iff)
qed

text \<open>The names the daemon mints for omitted cells pass the validator of the spawn primitive
  and are rejected by the validator applied to names that clients supply, so the two name spaces
  are disjoint (the only fact used of the UUID library is the alphabet of its text form).\<close>

lemma ephemeral_namespace:
  assumes "\<forall>c \<in> set uuid. is_ascii_lowercase c \<or> is_ascii_digit c \<or> c = CHR ''-''"
    and "\<exists>c \<in> set uuid. c \<noteq> CHR ''-''"
  shows "validate_cell_name_allowing_ephemeral (ephemeral_cell_name uuid) = Inr () \<and>
    validate_cell_name (ephemeral_cell_name uuid) = Inl PolicyDenied \<and>
    (\<forall>n. validate_cell_name n = Inr () \<longrightarrow> validate_cell_name_allowing_ephemeral n = Inr ())"
proof -
  have "validate_cell_name (ephemeral_cell_name uuid) \<noteq> Inr ()"
    using named_not_ephemeral [of "ephemeral_cell_name uuid"] by (auto simp: ephemeral_cell_name_def)
  moreover have "validate_cell_name_allowing_ephemeral n = Inr ()"
    if "validate_cell_name n = Inr ()" for n
    using named_not_ephemeral [OF that] that by (simp add: validate_cell_name_allowing_ephemeral_def)
  ultimately show ?thesis using ephemeral_validates [OF assms] validate_error by blast
qed

lemma ephemeral_namespace_witness:
  "ephemeral_cell_name ''0197-89ab-cdef'' = ''~ephemeral-89abcdef'' \<and>
   validate_cell_name_allowing_ephemeral (ephemeral_cell_name ''0197-89ab-cdef'') = Inr ()"
proof
  show "ephemeral_cell_name ''0197-89ab-cdef'' = ''~ephemeral-89abcdef''"
    by (simp add: ephemeral_cell_name_def EPHEMERAL_PREFIX_def is_ascii_alphanumeric_def
        is_ascii_lowercase_def is_ascii_digit_def less_eq_char_def)
  show "validate_cell_name_allowing_ephemeral (ephemeral_cell_name ''0197-89ab-cdef'') = Inr ()"
    by (rule conjunct1 [OF ephemeral_namespace])
      (simp_all add: is_ascii_lowercase_def is_ascii_digit_def less_eq_char_def)
qed

end
