(* ===== verification/Tickets.thy ===== *)
theory Tickets
  imports Types
begin

text \<open>
  The wait-for graph of \<open>tickets.rs\<close>: ref-counted edges over active awaits, the breadth-first
  cycle check and the activation and release of an edge.  The \<open>HashMap\<close> of edges is a list of
  entries with distinct keys in an arbitrary order, so every result below holds for whatever
  order the code iterates in.  Counts are unbounded here (the code has \<open>u32\<close>).
\<close>

type_synonym edge = "string \<times> string"
type_synonym edges = "(edge \<times> nat) list"

record wait_graph =
  wg_edges :: edges

record await_guard =
  g_from :: string
  g_to :: string

definition active :: "edges \<Rightarrow> (string \<times> string) set" where
  "active es = {e. \<exists>c. (e, c) \<in> set es \<and> c \<noteq> 0}"

definition edge_count :: "wait_graph \<Rightarrow> nat" where
  "edge_count g = length (filter (\<lambda>(e, c). 0 < c) (wg_edges g))"

text \<open>The \<open>for\<close> loop over the edges for one popped node: \<open>True\<close> when it meets an edge into \<open>frm\<close>.\<close>

type_synonym bfs_state = "string list \<times> string list \<times> (string \<times> string) list"

fun scan_edges :: "string \<Rightarrow> string \<Rightarrow> edges \<Rightarrow> bfs_state \<Rightarrow> bool \<times> bfs_state" where
  "scan_edges frm node [] st = (False, st)"
| "scan_edges frm node (((a, b), c) # es) (q, v, p) =
    (if c = 0 \<or> a \<noteq> node then scan_edges frm node es (q, v, p)
     else if b = frm then (True, (q, v, p))
     else if b \<notin> set v then scan_edges frm node es (q @ [b], b # v, (b, node) # p)
     else scan_edges frm node es (q, v, p))"

definition targets :: "edges \<Rightarrow> string set" where
  "targets es = (\<lambda>((a, b), c). b) ` set es"

lemma finite_targets [simp]: "finite (targets es)"
  by (simp add: targets_def)

lemma scan_edges_measure:
  "scan_edges frm node es (q, v, p) = (r, (q', v', p')) \<Longrightarrow> set (map (snd \<circ> fst) es) \<subseteq> T \<Longrightarrow> finite T \<Longrightarrow>
   card (T - set v') + length q' \<le> card (T - set v) + length q"
proof (induction frm node es "(q, v, p)" arbitrary: q v p rule: scan_edges.induct)
  case (2 frm node a b c es q v p)
  have card: "card (T - insert b (set v)) + Suc (length q) = card (T - set v) + length q"
    if "b \<notin> set v"
  proof -
    have "b \<in> T - set v" using that "2.prems"(2) by auto
    then have "Suc (card (T - set v - {b})) = card (T - set v)"
      using "2.prems"(3) by (intro card_Suc_Diff1) auto
    moreover have "T - insert b (set v) = T - set v - {b}" by auto
    ultimately show ?thesis by simp
  qed
  show ?case
    using "2.prems" "2.hyps" card by (auto split: if_splits)
qed simp

lemma scan_edges_targets:
  assumes "scan_edges frm node es (q, v, p) = (r, (q', v', p'))"
  shows "card (targets es - set v') + length q' < Suc (card (targets es - set v) + length q)"
proof -
  have "set (map (snd \<circ> fst) es) \<subseteq> targets es" by (force simp: targets_def)
  from scan_edges_measure [OF assms this] show ?thesis by simp
qed

function bfs :: "string \<Rightarrow> edges \<Rightarrow> string list \<Rightarrow> string list \<Rightarrow> (string \<times> string) list \<Rightarrow>
    (string \<times> (string \<times> string) list) option" where
  "bfs frm es [] v p = None"
| "bfs frm es (node # q) v p =
    (case scan_edges frm node es (q, v, p) of
      (True, (_, _, p')) \<Rightarrow> Some (node, p')
    | (False, (q', v', p')) \<Rightarrow> bfs frm es q' v' p')"
  by pat_completeness auto
termination
  by (relation "measure (\<lambda>(frm, es, q, v, p). card (targets es - set v) + length q)")
    (auto dest!: scan_edges_targets [OF sym])

text \<open>Walking the \<open>parent\<close> map back from the node that reaches \<open>frm\<close>; \<open>None\<close> is the panic of
  indexing a missing key, or a walk longer than the map.\<close>

fun walk_back :: "nat \<Rightarrow> (string \<times> string) list \<Rightarrow> string \<Rightarrow> string \<Rightarrow> string list option" where
  "walk_back n p cur to =
    (if cur = to then Some []
     else case n of 0 \<Rightarrow> None
     | Suc n' \<Rightarrow> (case map_of p cur of None \<Rightarrow> None
        | Some nxt \<Rightarrow> map_option (\<lambda>w. cur # w) (walk_back n' p nxt to)))"

declare walk_back.simps [simp del]

definition closes_cycle :: "edges \<Rightarrow> string \<Rightarrow> string \<Rightarrow> string list option option" where
  "closes_cycle es frm to =
    (if frm = to then Some (Some [frm])
     else case bfs frm es [to] [to] [] of
        None \<Rightarrow> None
      | Some (node, p) \<Rightarrow>
          Some (map_option (\<lambda>w. frm # to # w) (walk_back (length p) p node to)))"

definition bump_edge :: "edge \<Rightarrow> edges \<Rightarrow> edges" where
  "bump_edge e es =
    (if \<exists>c. (e, c) \<in> set es
     then map (\<lambda>(x, c). if x = e then (x, Suc c) else (x, c)) es else es @ [(e, 1)])"

definition try_activate_await :: "wait_graph \<Rightarrow> string \<Rightarrow> string \<Rightarrow> await_guard res \<times> wait_graph" where
  "try_activate_await g frm to =
    (case closes_cycle (wg_edges g) frm to of
      Some _ \<Rightarrow> (Inl WouldDeadlock, g)
    | None \<Rightarrow> (Inr \<lparr>g_from = frm, g_to = to\<rparr>, g\<lparr>wg_edges := bump_edge (frm, to) (wg_edges g)\<rparr>))"

definition release :: "wait_graph \<Rightarrow> await_guard \<Rightarrow> wait_graph" where
  "release g gd =
    (let e = (g_from gd, g_to gd) in
     case map_of (wg_edges g) e of
       None \<Rightarrow> g
     | Some c \<Rightarrow>
        (if c - 1 = 0 then g\<lparr>wg_edges := filter (\<lambda>(x, _). x \<noteq> e) (wg_edges g)\<rparr>
         else g\<lparr>wg_edges := map (\<lambda>(x, n). if x = e then (x, c - 1) else (x, n)) (wg_edges g)\<rparr>))"

section \<open>Correctness of the search\<close>

lemma active_Cons: "active ((e, c) # es) = (if c = 0 then active es else insert e (active es))"
  by (auto simp: active_def)

text \<open>What one scan establishes, with \<open>S\<close> the successors of the node in the scanned part.\<close>

lemma scan_edges_spec:
  assumes "scan_edges frm node es (q, v, p) = (r, (q', v', p'))"
  shows "(r \<longrightarrow> (node, frm) \<in> active es) \<and>
    (\<not> r \<longrightarrow> (node, frm) \<notin> active es \<and> set v' = set v \<union> active es `` {node} \<and>
       set v' - set v \<subseteq> set q') \<and>
    set q \<subseteq> set q' \<and> set v \<subseteq> set v' \<and> set v' \<subseteq> set v \<union> active es `` {node} \<and>
    set q' \<subseteq> set q \<union> active es `` {node}"
  using assms
proof (induction frm node es "(q, v, p)" arbitrary: q v p rule: scan_edges.induct)
  case (2 frm node a b c es q v p)
  show ?case
  proof (cases "c = 0 \<or> a \<noteq> node")
    case True
    then have im: "active (((a, b), c) # es) `` {node} = active es `` {node}"
      "(node, frm) \<in> active (((a, b), c) # es) \<longleftrightarrow> (node, frm) \<in> active es"
      by (auto simp: active_Cons)
    have "scan_edges frm node es (q, v, p) = (r, (q', v', p'))" using "2.prems" True by simp
    from "2.hyps"(1) [OF True this] show ?thesis unfolding im .
  next
    case False
    then have c: "c \<noteq> 0" "a = node" by auto
    then have im: "active (((a, b), c) # es) `` {node} = insert b (active es `` {node})"
      "(node, frm) \<in> active (((a, b), c) # es) \<longleftrightarrow> b = frm \<or> (node, frm) \<in> active es"
      by (auto simp: active_Cons)
    show ?thesis
    proof (cases "b = frm")
      case True
      with 2 c im show ?thesis by auto
    next
      case bf: False
      show ?thesis
      proof (cases "b \<in> set v")
        case True
        with bf c have "scan_edges frm node es (q, v, p) = (r, (q', v', p'))"
          using "2.prems" by simp
        from "2.hyps"(3) [OF _ bf _ this] True False
        show ?thesis using bf im by (auto 0 3)
      next
        case nv: False
        with bf c have "scan_edges frm node es (q @ [b], b # v, (b, node) # p) = (r, (q', v', p'))"
          using "2.prems" by simp
        from "2.hyps"(2) [OF _ bf nv this] False
        show ?thesis using bf im by (auto 0 3)
      qed
    qed
  qed
qed (auto simp: active_def)

lemma bfs_Some_reaches:
  "bfs frm es q v p = Some (node, p') \<Longrightarrow> set q \<subseteq> (active es)\<^sup>* `` {to} \<Longrightarrow>
   (to, frm) \<in> (active es)\<^sup>+"
proof (induction frm es q v p rule: bfs.induct)
  case (2 frm es nd q v p)
  obtain r q2 v2 p2 where S: "scan_edges frm nd es (q, v, p) = (r, (q2, v2, p2))"
    by (metis prod.exhaust)
  note sp = scan_edges_spec [OF S]
  have nd: "(to, nd) \<in> (active es)\<^sup>*" using "2.prems"(2) by auto
  show ?case
  proof (cases r)
    case True
    then have "(nd, frm) \<in> active es" using sp by blast
    then show ?thesis using nd by (rule rtrancl_into_trancl1 [rotated])
  next
    case False
    have "set q2 \<subseteq> (active es)\<^sup>* `` {to}"
      using sp "2.prems"(2) nd by (auto intro: rtrancl_into_rtrancl)
    with 2 S False show ?thesis by simp
  qed
qed simp

lemma bfs_None_closed:
  assumes "bfs frm es q v p = None" "set q \<subseteq> set v"
    and "\<forall>x \<in> set v - set q. active es `` {x} \<subseteq> set v - {frm}"
  shows "\<exists>W. set v \<subseteq> W \<and> (\<forall>x \<in> W. active es `` {x} \<subseteq> W - {frm})"
  using assms
proof (induction frm es q v p rule: bfs.induct)
  case (1 frm es v p)
  then show ?case by auto
next
  case (2 frm es nd q v p)
  obtain r q2 v2 p2 where S: "scan_edges frm nd es (q, v, p) = (r, (q2, v2, p2))"
    by (metis prod.exhaust)
  note sp = scan_edges_spec [OF S]
  have nr: "\<not> r" using "2.prems"(1) S by (auto split: bool.splits)
  with sp have v2: "set v2 = set v \<union> active es `` {nd}" "set v2 - set v \<subseteq> set q2"
    "set q \<subseteq> set q2" "set q2 \<subseteq> set q \<union> active es `` {nd}" "(nd, frm) \<notin> active es" by auto
  have rec: "bfs frm es q2 v2 p2 = None" using "2.prems"(1) S nr by simp
  have "set q2 \<subseteq> set v2" using v2 "2.prems"(2) by auto
  moreover have "\<forall>x \<in> set v2 - set q2. active es `` {x} \<subseteq> set v2 - {frm}"
  proof
    fix x assume x: "x \<in> set v2 - set q2"
    then have xv: "x \<in> set v" "x \<notin> set q" using v2 by auto
    show "active es `` {x} \<subseteq> set v2 - {frm}"
    proof (cases "x = nd")
      case True
      then show ?thesis using v2 by auto
    next
      case False
      then have "active es `` {x} \<subseteq> set v - {frm}" using "2.prems"(3) xv by auto
      then show ?thesis using v2 by auto
    qed
  qed
  ultimately obtain W where W: "set v2 \<subseteq> W" "\<forall>x \<in> W. active es `` {x} \<subseteq> W - {frm}"
    using "2.IH" [of False "(q2, v2, p2)" q2 "(v2, p2)" v2 p2] S nr rec by auto
  then show ?case using v2(1) by blast
qed

lemma closed_no_path:
  assumes "\<forall>x \<in> W. R `` {x} \<subseteq> W - {z}" "a \<in> W" "(a, b) \<in> R\<^sup>+"
  shows "b \<in> W - {z}"
  using assms(3) by (induction) (use assms(1,2) in \<open>auto 0 3\<close>)

lemma closes_cycle_iff:
  "closes_cycle es frm to \<noteq> None \<longleftrightarrow> frm = to \<or> (to, frm) \<in> (active es)\<^sup>+"
proof (cases "frm = to")
  case False
  show ?thesis
  proof (cases "bfs frm es [to] [to] []")
    case None
    then obtain W where W: "to \<in> W" "\<forall>x \<in> W. active es `` {x} \<subseteq> W - {frm}"
      using bfs_None_closed [of frm es "[to]" "[to]" "[]"] by auto
    then have "(to, frm) \<notin> (active es)\<^sup>+" using closed_no_path [OF W(2,1)] by blast
    with None False show ?thesis by (simp add: closes_cycle_def)
  next
    case (Some a)
    then obtain node p where a: "bfs frm es [to] [to] [] = Some (node, p)" by (cases a) auto
    from bfs_Some_reaches [OF a] False a show ?thesis by (auto simp: closes_cycle_def)
  qed
qed (simp add: closes_cycle_def)


section \<open>The reported cycle\<close>

text \<open>
  The \<open>parent\<close> map, newest entry first: every entry is an active edge out of a node that was
  reached before, so the walk back from a reached node ends at \<open>to\<close>.
\<close>

fun parents_ok :: "edges \<Rightarrow> string \<Rightarrow> (string \<times> string) list \<Rightarrow> bool" where
  "parents_ok es to [] = True"
| "parents_ok es to ((b, n) # p) =
    (b \<noteq> to \<and> b \<notin> fst ` set p \<and> (n, b) \<in> active es \<and> (n = to \<or> n \<in> fst ` set p) \<and>
     parents_ok es to p)"

lemma walk_back_skip:
  "parents_ok es to p \<Longrightarrow> cur = to \<or> cur \<in> fst ` set p \<Longrightarrow> b \<notin> fst ` set p \<Longrightarrow> b \<noteq> to \<Longrightarrow>
   walk_back k ((b, n) # p) cur to = walk_back k p cur to"
proof (induction k arbitrary: cur)
  case 0
  then show ?case by (simp add: walk_back.simps)
next
  case (Suc k)
  show ?case
  proof (cases "cur = to")
    case True
    then show ?thesis by (simp add: walk_back.simps)
  next
    case False
    with Suc.prems have cur: "cur \<in> fst ` set p" "cur \<noteq> b" by auto
    then obtain nxt where nxt: "map_of p cur = Some nxt" by (metis map_of_eq_None_iff not_Some_eq)
    have "nxt = to \<or> nxt \<in> fst ` set p"
      using Suc.prems(1) map_of_SomeD [OF nxt]
      by (induction p rule: parents_ok.induct) auto
    then show ?thesis using Suc.IH [of nxt] Suc.prems cur nxt False by (simp add: walk_back.simps)
  qed
qed

lemma walk_back_more:
  "walk_back k p cur to = Some w \<Longrightarrow> walk_back (k + j) p cur to = Some w"
  by (induction k arbitrary: cur w)
    (auto simp: walk_back.simps [of "Suc _"] walk_back.simps [of 0] walk_back.simps [of j]
      split: if_splits option.splits)

lemma walk_back_path:
  assumes "parents_ok es to p" "cur = to \<or> cur \<in> fst ` set p"
  shows "\<exists>w. walk_back (length p) p cur to = Some w \<and>
    successively (\<lambda>a b. (a, b) \<in> active es) (to # rev w) \<and> last (to # rev w) = cur"
  using assms
proof (induction p arbitrary: cur)
  case Nil
  then show ?case by (simp add: walk_back.simps)
next
  case (Cons e p)
  obtain b n where e: "e = (b, n)" by (cases e)
  note ok = Cons.prems(1) [unfolded e parents_ok.simps]
  show ?case
  proof (cases "cur = b")
    case False
    with Cons.prems(2) e have cur: "cur = to \<or> cur \<in> fst ` set p" by auto
    from Cons.IH [OF _ this] ok obtain w where w: "walk_back (length p) p cur to = Some w"
      "successively (\<lambda>a b. (a, b) \<in> active es) (to # rev w)" "last (to # rev w) = cur" by auto
    have "walk_back (length p) (e # p) cur to = Some w"
      using walk_back_skip [of es to p cur b "length p" n] ok cur w(1) e by simp
    then show ?thesis using walk_back_more [of "length p" "e # p" cur to w 1] w by auto
  next
    case True
    from Cons.IH [of n] ok obtain w where w: "walk_back (length p) p n to = Some w"
      "successively (\<lambda>a b. (a, b) \<in> active es) (to # rev w)" "last (to # rev w) = n" by auto
    have "walk_back (length p) (e # p) n to = Some w"
      using walk_back_skip [of es to p n b "length p" n] ok w(1) e by simp
    then have "walk_back (length (e # p)) (e # p) cur to = Some (cur # w)"
      using True ok e by (simp add: walk_back.simps [of "Suc _"])
    moreover have "successively (\<lambda>a b. (a, b) \<in> active es) ((to # rev w) @ [cur])"
      unfolding successively_append_iff using w(2,3) ok True by simp
    ultimately show ?thesis by auto
  qed
qed

lemma scan_edges_parents:
  assumes "scan_edges frm node es (q, v, p) = (r, (q', v', p'))"
    and "set es \<subseteq> set es0" "node = to \<or> node \<in> fst ` set p"
    and "parents_ok es0 to p" "set v = insert to (fst ` set p)"
  shows "parents_ok es0 to p' \<and> set v' = insert to (fst ` set p') \<and> fst ` set p \<subseteq> fst ` set p'"
  using assms
proof (induction frm node es "(q, v, p)" arbitrary: q v p rule: scan_edges.induct)
  case (2 frm node a b c es q v p)
  consider "c = 0 \<or> a \<noteq> node" | "c \<noteq> 0" "a = node" "b = frm"
    | "c \<noteq> 0" "a = node" "b \<noteq> frm" "b \<in> set v" | "c \<noteq> 0" "a = node" "b \<noteq> frm" "b \<notin> set v"
    by blast
  then show ?case
  proof cases
    case 4
    then have S: "scan_edges frm node es (q @ [b], b # v, (b, node) # p) = (r, (q', v', p'))"
      using "2.prems"(1) by simp
    have "(node, b) \<in> active es0" using 4 "2.prems"(2) by (auto simp: active_def)
    then have "parents_ok es0 to ((b, node) # p)"
      using 4 "2.prems"(3,4,5) by (simp only: parents_ok.simps) auto
    moreover have "set (b # v) = insert to (fst ` set ((b, node) # p))" using "2.prems"(5) by auto
    moreover have "node = to \<or> node \<in> fst ` set ((b, node) # p)" using "2.prems"(3) by auto
    moreover have "set es \<subseteq> set es0" using "2.prems"(2) by simp
    ultimately show ?thesis
      using "2.hyps"(2) [OF _ 4(3,4) S] 4(1,2) by auto
  qed (use 2 in auto)
qed simp

lemma bfs_parents:
  "bfs frm es q v p = Some (node, p') \<Longrightarrow> parents_ok es to p \<Longrightarrow> set v = insert to (fst ` set p) \<Longrightarrow>
   set q \<subseteq> set v \<Longrightarrow>
   parents_ok es to p' \<and> (node = to \<or> node \<in> fst ` set p') \<and> (node, frm) \<in> active es"
proof (induction frm es q v p rule: bfs.induct)
  case (2 frm es nd q v p)
  obtain r q2 v2 p2 where S: "scan_edges frm nd es (q, v, p) = (r, (q2, v2, p2))"
    by (metis prod.exhaust)
  have nd: "nd = to \<or> nd \<in> fst ` set p" using "2.prems"(3,4) by auto
  note par = scan_edges_parents [OF S subset_refl nd "2.prems"(2,3)]
  note sp = scan_edges_spec [OF S]
  show ?case
  proof (cases r)
    case True
    then show ?thesis using "2.prems"(1) S par nd sp by auto
  next
    case False
    then have "set q2 \<subseteq> set v2" using sp "2.prems"(4) by (simp, blast)
    then show ?thesis using 2 S False par by auto
  qed
qed simp

lemma closes_cycle_path:
  assumes "closes_cycle es frm to = Some c"
  shows "\<exists>w. c = Some (frm # (if frm = to then [] else to # w)) \<and>
    (frm \<noteq> to \<longrightarrow> successively (\<lambda>a b. (a, b) \<in> active es) (to # rev w @ [frm]))"
proof (cases "frm = to")
  case False
  with assms obtain node p where b: "bfs frm es [to] [to] [] = Some (node, p)"
    and c: "c = map_option (\<lambda>w. frm # to # w) (walk_back (length p) p node to)"
    by (auto simp: closes_cycle_def split: option.splits)
  from bfs_parents [OF b, of to] have p: "parents_ok es to p" "node = to \<or> node \<in> fst ` set p"
    "(node, frm) \<in> active es" by auto
  from walk_back_path [OF p(1,2)] obtain w where w: "walk_back (length p) p node to = Some w"
    "successively (\<lambda>a b. (a, b) \<in> active es) (to # rev w)" "last (to # rev w) = node" by auto
  then have "successively (\<lambda>a b. (a, b) \<in> active es) ((to # rev w) @ [frm])"
    unfolding successively_append_iff using p(3) by simp
  with c w(1) False show ?thesis by auto
qed (use assms in \<open>auto simp: closes_cycle_def\<close>)

section \<open>Awaits over time\<close>

text \<open>
  The graph together with the guards that are held: an activation hands out a guard, and the
  guard (which cannot be copied) is given back by \<open>release\<close>.
\<close>

inductive await_step :: "wait_graph \<times> await_guard list \<Rightarrow> wait_graph \<times> await_guard list \<Rightarrow> bool" where
  activate: "try_activate_await g a b = (Inr gd, g') \<Longrightarrow> await_step (g, gs) (g', gd # gs)"
| refuse: "try_activate_await g a b = (Inl e, g') \<Longrightarrow> await_step (g, gs) (g', gs)"
| give_back: "gd \<in> set gs \<Longrightarrow> await_step (g, gs) (release g gd, remove1 gd gs)"

inductive_cases await_stepE: "await_step s t"

definition await_init :: "wait_graph \<times> await_guard list \<Rightarrow> bool" where
  "await_init s \<longleftrightarrow> s = (\<lparr>wg_edges = []\<rparr>, [])"

definition guard_edge :: "await_guard \<Rightarrow> edge" where
  "guard_edge gd = (g_from gd, g_to gd)"

definition held :: "await_guard list \<Rightarrow> edge \<Rightarrow> nat" where
  "held gs e = length (filter (\<lambda>gd. guard_edge gd = e) gs)"

definition await_inv :: "wait_graph \<times> await_guard list \<Rightarrow> bool" where
  "await_inv s = (case s of (g, gs) \<Rightarrow>
     distinct (map fst (wg_edges g)) \<and>
     (\<forall>e. map_of (wg_edges g) e = (if held gs e = 0 then None else Some (held gs e))) \<and>
     acyclic (active (wg_edges g)))"

lemma active_map_of:
  "distinct (map fst es) \<Longrightarrow> active es = {e. \<exists>c. map_of es e = Some c \<and> c \<noteq> 0}"
  by (auto simp: active_def)

lemma map_of_bump:
  "distinct (map fst es) \<Longrightarrow>
   map_of (bump_edge e es) =
     (map_of es)(e \<mapsto> (case map_of es e of None \<Rightarrow> 1 | Some c \<Rightarrow> Suc c))"
proof -
  assume d: "distinct (map fst es)"
  have upd: "map_of (map (\<lambda>(x, c). if x = e then (x, f c) else (x, c)) es) x =
    map_option (\<lambda>c. if x = e then f c else c) (map_of es x)" for x and f :: "nat \<Rightarrow> nat"
    by (induction es) auto
  show ?thesis
  proof (cases "\<exists>c. (e, c) \<in> set es")
    case True
    with d obtain c where "map_of es e = Some c" by auto
    with True show ?thesis by (auto simp: bump_edge_def upd fun_eq_iff option.map_ident)
  next
    case False
    then have "map_of es e = None" by (auto simp: map_of_eq_None_iff)
    moreover have "map_of (es @ [(e, 1)]) x = (if x = e then Some 1 else map_of es x)" for x
      using \<open>map_of es e = None\<close> by (auto simp: map_add_def split: option.splits)
    ultimately show ?thesis using False by (auto simp: bump_edge_def fun_eq_iff)
  qed
qed

lemma distinct_bump: "distinct (map fst es) \<Longrightarrow> distinct (map fst (bump_edge e es))"
proof -
  have "map fst (map (\<lambda>(x, c). if x = e then (x, Suc c) else (x, c)) es) = map fst es"
    by (induction es) auto
  then show "distinct (map fst es) \<Longrightarrow> distinct (map fst (bump_edge e es))"
    by (auto simp: bump_edge_def image_iff simp del: map_map)
qed

lemma release_map_of:
  "distinct (map fst (wg_edges g)) \<Longrightarrow>
   map_of (wg_edges (release g gd)) x =
     (if x = guard_edge gd
      then (case map_of (wg_edges g) x of None \<Rightarrow> None
            | Some c \<Rightarrow> if c - 1 = 0 then None else Some (c - 1))
      else map_of (wg_edges g) x) \<and>
   distinct (map fst (wg_edges (release g gd)))"
proof -
  assume d: "distinct (map fst (wg_edges g))"
  have upd: "map_of (map (\<lambda>(x, c). if x = e then (x, k) else (x, c)) es) x =
    map_option (\<lambda>c. if x = e then k else c) (map_of es x)" for x e k and es :: edges
    by (induction es) auto
  have fst_map: "map fst (map (\<lambda>(x, c). if x = e then (x, k) else (x, c)) es) = map fst es"
    for e k and es :: edges by (induction es) auto
  have flt: "map_of (filter (\<lambda>(x, _). x \<noteq> e) es) x = (if x = e then None else map_of es x)"
    for x e and es :: edges by (induction es) auto
  have dflt: "distinct (map fst (filter P (wg_edges g)))" for P
    using d by (simp add: distinct_map_filter)
  show ?thesis
    using d by (auto simp: release_def guard_edge_def upd flt Let_def fst_map dflt option.map_ident
        simp del: map_map split: option.splits)
qed

lemma held_simps [simp]:
  "held [] e = 0" "held (gd # gs) e = (if guard_edge gd = e then Suc (held gs e) else held gs e)"
  by (simp_all add: held_def)

lemma held_remove1:
  "gd \<in> set gs \<Longrightarrow> held (remove1 gd gs) e = (if guard_edge gd = e then held gs e - 1 else held gs e)"
proof (induction gs)
  case (Cons a gs)
  have "0 < held gs (guard_edge gd)" if "gd \<in> set gs"
    using that by (auto simp: held_def filter_empty_conv)
  with Cons show ?case by auto
qed simp

interpretation awaits: invariant_of await_init await_step await_inv
proof unfold_locales
  fix s t assume inv: "await_inv s" and st: "await_step s t"
  from st show "await_inv t"
  proof cases
    case (activate g a b gd g' gs)
    have nc: "closes_cycle (wg_edges g) a b = None" and gd: "guard_edge gd = (a, b)"
      and g': "wg_edges g' = bump_edge (a, b) (wg_edges g)"
      using activate(3) by (auto simp: try_activate_await_def guard_edge_def split: option.splits)
    have d: "distinct (map fst (wg_edges g))" and ac: "acyclic (active (wg_edges g))"
      and m: "\<And>e. map_of (wg_edges g) e = (if held gs e = 0 then None else Some (held gs e))"
      using inv activate(1) by (auto simp: await_inv_def simp del: split_paired_All map_of_eq_Some_iff)
    have "active (wg_edges g') = insert (a, b) (active (wg_edges g))"
      using d by (auto simp: g' active_map_of distinct_bump map_of_bump split: option.splits)
    moreover have "(b, a) \<notin> (active (wg_edges g))\<^sup>*"
      using closes_cycle_iff [of "wg_edges g" a b] nc by (auto simp: rtrancl_eq_or_trancl)
    ultimately have "acyclic (active (wg_edges g'))" using ac by (simp add: acyclic_insert)
    then show ?thesis
      using activate(2) d gd by (auto simp: await_inv_def g' distinct_bump map_of_bump m)
  next
    case (refuse g a b e g' gs)
    then have "g' = g" by (auto simp: try_activate_await_def split: option.splits)
    with refuse inv show ?thesis by simp
  next
    case (give_back gd gs g)
    have d: "distinct (map fst (wg_edges g))" and ac: "acyclic (active (wg_edges g))"
      and m: "\<And>e. map_of (wg_edges g) e = (if held gs e = 0 then None else Some (held gs e))"
      using inv give_back(1) by (auto simp: await_inv_def simp del: split_paired_All map_of_eq_Some_iff)
    note r = release_map_of [OF d, of gd]
    have "active (wg_edges (release g gd)) \<subseteq> active (wg_edges g)"
      using d r by (auto simp: active_map_of split: if_splits option.splits)
    then have "acyclic (active (wg_edges (release g gd)))" using ac by (rule acyclic_subset [rotated])
    then show ?thesis
      using give_back(2,3) r by (auto simp: await_inv_def m held_remove1)
  qed
qed (simp add: await_init_def await_inv_def active_def acyclic_def)

text \<open>C24: activating an await is refused with \<open>E_WOULD_DEADLOCK\<close>, leaving the graph as it was,
  exactly when it is a self-await or the awaited cell already waits, through active awaits, on
  the caller; otherwise the guard of the new edge is returned.\<close>

theorem await_refused_iff_cycle:
  "try_activate_await g a b =
    (if a = b \<or> (b, a) \<in> (active (wg_edges g))\<^sup>+ then (Inl WouldDeadlock, g)
     else (Inr \<lparr>g_from = a, g_to = b\<rparr>, g\<lparr>wg_edges := bump_edge (a, b) (wg_edges g)\<rparr>))"
  using closes_cycle_iff [of "wg_edges g" a b]
  by (auto simp: try_activate_await_def split: option.splits)

text \<open>After any sequence of activations, refusals and releases the graph of active awaits is
  acyclic (no set of cells waits on each other) and the count of an edge is the number of
  guards held for it, so an edge disappears exactly when its last await ends.\<close>

lemma awaits_never_deadlock:
  assumes "reachable await_init await_step (g, gs)"
  shows "acyclic (active (wg_edges g)) \<and>
    (\<forall>e. map_of (wg_edges g) e = (if held gs e = 0 then None else Some (held gs e)))"
  using awaits.inv_reachable [OF assms] by (simp add: await_inv_def)

lemma reach_two_awaits:
  "reachable await_init await_step
    (\<lparr>wg_edges = [((''a'', ''b''), 2)]\<rparr>,
     [\<lparr>g_from = ''a'', g_to = ''b''\<rparr>, \<lparr>g_from = ''a'', g_to = ''b''\<rparr>])"
proof -
  let ?g0 = "\<lparr>wg_edges = []\<rparr>" and ?g1 = "\<lparr>wg_edges = [((''a'', ''b''), 1)]\<rparr>"
  let ?gd = "\<lparr>g_from = ''a'', g_to = ''b''\<rparr>"
  have "reachable await_init await_step (?g0, [])"
    by (rule reachable_init) (simp add: await_init_def)
  moreover have "try_activate_await ?g0 ''a'' ''b'' = (Inr ?gd, ?g1)"
    by (simp add: try_activate_await_def closes_cycle_def bump_edge_def)
  ultimately have "reachable await_init await_step (?g1, [?gd])"
    by (blast intro: reachable_step activate)
  moreover have "try_activate_await ?g1 ''a'' ''b'' =
      (Inr ?gd, \<lparr>wg_edges = [((''a'', ''b''), 2)]\<rparr>)"
    by (simp add: try_activate_await_def closes_cycle_def bump_edge_def numeral_2_eq_2)
  ultimately show ?thesis by (blast intro: reachable_step activate)
qed

theorem awaits_never_deadlock_witness:
  "acyclic (active [((''a'', ''b''), 2)])"
  using awaits_never_deadlock [OF reach_two_awaits] by simp

text \<open>The cycle named in the refusal is real: the walk over the \<open>parent\<close> map never fails, and
  the nodes it lists after the two ends, read backwards, continue the wait chain from the
  awaited cell to the caller.\<close>

lemma refusal_names_cycle:
  assumes "closes_cycle es a b = Some c"
  shows "\<exists>w. c = Some (a # (if a = b then [] else b # w)) \<and>
    (a \<noteq> b \<longrightarrow> successively (\<lambda>x y. (x, y) \<in> active es) (b # rev w @ [a]))"
  using closes_cycle_path [OF assms] .

text \<open>The order of the listing: with \<open>a -> b -> c -> d\<close> active, refusing \<open>d -> a\<close> reports
  \<open>d -> a -> c -> b\<close>, whose hops \<open>a -> c\<close> and \<open>c -> b\<close> are no active awaits.\<close>

lemma reported_cycle_example:
  "closes_cycle [((''a'', ''b''), 1), ((''b'', ''c''), 1), ((''c'', ''d''), 1)] ''d'' ''a'' =
    Some (Some [''d'', ''a'', ''c'', ''b''])"
  by (simp add: closes_cycle_def walk_back.simps)

theorem refusal_names_cycle_witness:
  "\<exists>w. Some [''d'', ''a'', ''c'', ''b''] = Some (''d'' # ''a'' # w) \<and>
    successively (\<lambda>x y. (x, y) \<in>
      active [((''a'', ''b''), 1), ((''b'', ''c''), 1), ((''c'', ''d''), 1)])
      (''a'' # rev w @ [''d''])"
  using refusal_names_cycle [OF reported_cycle_example] by simp

end
