(* ===== verification/Acl.thy ===== *)
theory Acl
  imports Types
begin

text \<open>
  The capability ACL of \<open>acl.rs\<close>: parsing of the decoded TOML table, capability and protected-cell
  checks, the broadcast fan-out and the atomic reload.  A \<open>BTreeMap\<close> is its list of entries in key
  order, a \<open>BTreeSet\<close> a set; the TOML decoder is a parameter.
\<close>

datatype capability =
    CSend | CAsk | CReply | CBroadcast | CReadInbox | CListCells | CAttachFiles | CWake | CSpawn
  | CAdminRegistry | CReadAudit

text \<open>The derived \<open>Ord\<close>: declaration order.\<close>

fun capability_rank :: "capability \<Rightarrow> nat" where
  "capability_rank CSend = 0"
| "capability_rank CAsk = 1"
| "capability_rank CReply = 2"
| "capability_rank CBroadcast = 3"
| "capability_rank CReadInbox = 4"
| "capability_rank CListCells = 5"
| "capability_rank CAttachFiles = 6"
| "capability_rank CWake = 7"
| "capability_rank CSpawn = 8"
| "capability_rank CAdminRegistry = 9"
| "capability_rank CReadAudit = 10"

lemma capability_rank_inj: "capability_rank a = capability_rank b \<longleftrightarrow> a = b"
  by (cases a; cases b) simp_all

instantiation capability :: linorder
begin

definition less_eq_capability :: "capability \<Rightarrow> capability \<Rightarrow> bool" where
  "less_eq_capability a b \<longleftrightarrow> capability_rank a \<le> capability_rank b"

definition less_capability :: "capability \<Rightarrow> capability \<Rightarrow> bool" where
  "less_capability a b \<longleftrightarrow> capability_rank a < capability_rank b"

instance
  by standard (auto simp: less_eq_capability_def less_capability_def capability_rank_inj)

end

definition capability_parse :: "string \<Rightarrow> capability res" where
  "capability_parse s =
    (if s = ''send'' then Inr CSend
     else if s = ''ask'' then Inr CAsk
     else if s = ''reply'' then Inr CReply
     else if s = ''broadcast'' then Inr CBroadcast
     else if s = ''read_inbox'' then Inr CReadInbox
     else if s = ''list_cells'' then Inr CListCells
     else if s = ''attach_files'' then Inr CAttachFiles
     else if s = ''wake'' then Inr CWake
     else if s = ''spawn'' then Inr CSpawn
     else if s = ''admin_registry'' then Inr CAdminRegistry
     else if s = ''read_audit'' then Inr CReadAudit
     else Inl Internal)"

fun capability_as_str :: "capability \<Rightarrow> string" where
  "capability_as_str CSend = ''send''"
| "capability_as_str CAsk = ''ask''"
| "capability_as_str CReply = ''reply''"
| "capability_as_str CBroadcast = ''broadcast''"
| "capability_as_str CReadInbox = ''read_inbox''"
| "capability_as_str CListCells = ''list_cells''"
| "capability_as_str CAttachFiles = ''attach_files''"
| "capability_as_str CWake = ''wake''"
| "capability_as_str CSpawn = ''spawn''"
| "capability_as_str CAdminRegistry = ''admin_registry''"
| "capability_as_str CReadAudit = ''read_audit''"

datatype reach_via = ViaSend | ViaAsk

record cell_acl =
  ca_capabilities :: "capability set"
  ca_protected :: bool
  ca_send_to_protected :: "string set"
  ca_ask_protected :: "string set"
  ca_engine :: string
  ca_order_preserving :: bool

type_synonym acl = "(string \<times> cell_acl) list"

record raw_cell =
  rc_engine :: string
  rc_capabilities :: "string list"
  rc_protected :: bool
  rc_send_to_protected :: "string list"
  rc_ask_protected :: "string list"
  rc_order_preserving :: bool

fun parse_capabilities :: "string list \<Rightarrow> capability set \<Rightarrow> capability set res" where
  "parse_capabilities [] caps = Inr caps"
| "parse_capabilities (cs # rest) caps =
    (case capability_parse cs of
      Inl e \<Rightarrow> Inl e
    | Inr c \<Rightarrow> if c \<in> caps then Inl Internal else parse_capabilities rest (insert c caps))"

fun parse_cells :: "(string \<times> raw_cell) list \<Rightarrow> acl res" where
  "parse_cells [] = Inr []"
| "parse_cells ((name, rc) # rest) =
    (case parse_capabilities (rc_capabilities rc) {} of
      Inl e \<Rightarrow> Inl e
    | Inr caps \<Rightarrow>
        (case parse_cells rest of
          Inl e \<Rightarrow> Inl e
        | Inr cells \<Rightarrow> Inr ((name,
            \<lparr>ca_capabilities = caps, ca_protected = rc_protected rc,
             ca_send_to_protected = set (rc_send_to_protected rc),
             ca_ask_protected = set (rc_ask_protected rc),
             ca_engine = rc_engine rc, ca_order_preserving = rc_order_preserving rc\<rparr>) # cells)))"

definition acl_parse :: "(string \<Rightarrow> (string \<times> raw_cell) list option) \<Rightarrow> string \<Rightarrow> acl res" where
  "acl_parse toml src =
    (case toml src of
      None \<Rightarrow> Inl Internal
    | Some raw \<Rightarrow>
        (case parse_cells raw of
          Inl e \<Rightarrow> Inl e
        | Inr cells \<Rightarrow>
            (if \<forall>(name, c) \<in> set cells.
                  \<forall>t \<in> ca_send_to_protected c \<union> ca_ask_protected c. t \<in> fst ` set cells
             then Inr cells else Inl Internal)))"

definition acl_check :: "acl \<Rightarrow> string \<Rightarrow> capability \<Rightarrow> unit res" where
  "acl_check a sender cap =
    (case map_of a sender of
      Some c \<Rightarrow> if cap \<in> ca_capabilities c then Inr () else Inl AclDenied
    | None \<Rightarrow> Inl AclDenied)"

definition is_registered :: "acl \<Rightarrow> string \<Rightarrow> bool" where
  "is_registered a name \<longleftrightarrow> map_of a name \<noteq> None"

definition is_protected :: "acl \<Rightarrow> string \<Rightarrow> bool" where
  "is_protected a name = (case map_of a name of Some c \<Rightarrow> ca_protected c | None \<Rightarrow> False)"

definition check_reach :: "acl \<Rightarrow> string \<Rightarrow> string \<Rightarrow> reach_via \<Rightarrow> unit res" where
  "check_reach a sender target via =
    (case map_of a sender of
      None \<Rightarrow> Inl AclDenied
    | Some c \<Rightarrow>
        (if \<not> is_protected a target then Inr ()
         else if (case via of ViaSend \<Rightarrow> target \<in> ca_send_to_protected c
                            | ViaAsk \<Rightarrow> target \<in> ca_ask_protected c)
         then Inr () else Inl AclDenied))"

definition capabilities_of :: "acl \<Rightarrow> string \<Rightarrow> string list" where
  "capabilities_of a cell =
    (case map_of a cell of
      Some c \<Rightarrow> map capability_as_str (sorted_list_of_set (ca_capabilities c)) | None \<Rightarrow> [])"

definition acl_cells :: "acl \<Rightarrow> (string \<times> string) list" where
  "acl_cells a = map (\<lambda>(n, c). (n, ca_engine c)) a"

fun fan_out :: "string set \<Rightarrow> string \<Rightarrow> acl \<Rightarrow> string list \<times> string list" where
  "fan_out grants sender [] = ([], [])"
| "fan_out grants sender ((name, c) # rest) =
    (let (included, denied) = fan_out grants sender rest in
     if name = sender then (included, denied)
     else if ca_protected c then
       (if name \<in> grants then (name # included, denied) else (included, name # denied))
     else (name # included, denied))"

definition recipients_for_broadcast :: "acl \<Rightarrow> string \<Rightarrow> string list \<times> string list" where
  "recipients_for_broadcast a sender =
    (case map_of a sender of
      None \<Rightarrow> ([], []) | Some c \<Rightarrow> fan_out (ca_send_to_protected c) sender a)"

text \<open>The holder: \<open>read_result\<close> is the outcome of reading the file.\<close>

definition reload_from_file ::
  "(string \<Rightarrow> (string \<times> raw_cell) list option) \<Rightarrow> string option \<Rightarrow> acl \<Rightarrow> nat res \<times> acl" where
  "reload_from_file toml read_result cur =
    (case read_result of
      None \<Rightarrow> (Inl Internal, cur)
    | Some src \<Rightarrow>
        (case acl_parse toml src of Inl e \<Rightarrow> (Inl e, cur) | Inr a \<Rightarrow> (Inr (length a), a)))"

section \<open>Lemmas\<close>

lemma capability_parse_as_str [simp]: "capability_parse (capability_as_str c) = Inr c"
  by (cases c) (simp_all add: capability_parse_def)

lemma capability_parse_Inr: "capability_parse s = Inr c \<longleftrightarrow> s = capability_as_str c"
proof
  show "capability_parse s = Inr c \<Longrightarrow> s = capability_as_str c"
    by (auto simp: capability_parse_def split: if_splits)
qed simp

lemma parse_capabilities_Inr:
  "parse_capabilities ss caps = Inr r \<longleftrightarrow>
    (\<exists>cs. ss = map capability_as_str cs \<and> distinct cs \<and> set cs \<inter> caps = {} \<and> r = caps \<union> set cs)"
proof (induction ss arbitrary: caps)
  case (Cons s ss)
  show ?case
  proof (cases "capability_parse s")
    case (Inl e)
    then have "s \<noteq> capability_as_str c" for c by auto
    with Inl show ?thesis by (auto simp: map_eq_Cons_conv Cons_eq_map_conv)
  next
    case (Inr c)
    then have s: "s = capability_as_str c" by (simp add: capability_parse_Inr)
    have inj: "capability_as_str x = capability_as_str y \<longleftrightarrow> x = y" for x y
      by (metis capability_parse_as_str sum.inject(2))
    have ex: "(\<exists>cs. s # ss = map capability_as_str cs \<and> P cs) \<longleftrightarrow>
      (\<exists>cs. ss = map capability_as_str cs \<and> P (c # cs))" for P
      by (auto simp: Cons_eq_map_conv s inj)
    show ?thesis
      unfolding ex using Cons.IH [of "insert c caps"] s by (cases "c \<in> caps") auto
  qed
qed auto

lemma parse_cells_Inr:
  "parse_cells raw = Inr cells \<Longrightarrow>
   list_all2 (\<lambda>(n, rc) (m, c). n = m \<and> ca_protected c = rc_protected rc \<and>
      ca_send_to_protected c = set (rc_send_to_protected rc) \<and>
      ca_ask_protected c = set (rc_ask_protected rc) \<and>
      (\<exists>cs. rc_capabilities rc = map capability_as_str cs \<and> distinct cs \<and> ca_capabilities c = set cs))
    raw cells"
  by (induction raw arbitrary: cells rule: parse_cells.induct)
    (auto simp: parse_capabilities_Inr split: sum.splits)

lemma fan_out_spec:
  "distinct (map fst a) \<Longrightarrow>
   fan_out grants sender a =
    (map fst (filter (\<lambda>(n, c). n \<noteq> sender \<and> (ca_protected c \<longrightarrow> n \<in> grants)) a),
     map fst (filter (\<lambda>(n, c). n \<noteq> sender \<and> ca_protected c \<and> n \<notin> grants) a))"
  by (induction grants sender a rule: fan_out.induct) auto

lemma fan_out_check_reach:
  assumes "distinct (map fst a)" "map_of a sender = Some fc" "(n, c) \<in> set a"
  shows "check_reach a sender n ViaSend = Inr () \<longleftrightarrow> \<not> ca_protected c \<or> n \<in> ca_send_to_protected fc"
  using assms by (auto simp: check_reach_def is_protected_def)

text \<open>C25: a broadcast reaches, in name order, exactly the registered cells other than the sender
  that the sender could also reach by a direct send, and reports exactly the others as denied; the
  broadcast capability alone never reaches a protected cell.\<close>

theorem broadcast_fan_out:
  assumes "distinct (map fst a)"
  shows "recipients_for_broadcast a sender =
    (if is_registered a sender then
      (filter (\<lambda>n. n \<noteq> sender \<and> check_reach a sender n ViaSend = Inr ()) (map fst a),
       filter (\<lambda>n. n \<noteq> sender \<and> check_reach a sender n ViaSend \<noteq> Inr ()) (map fst a))
     else ([], []))"
proof (cases "map_of a sender")
  case None
  then show ?thesis by (simp add: recipients_for_broadcast_def is_registered_def)
next
  case (Some fc)
  have "map fst (filter (\<lambda>(n, c). n \<noteq> sender \<and> (ca_protected c \<longrightarrow> n \<in> ca_send_to_protected fc)) a) =
      filter (\<lambda>n. n \<noteq> sender \<and> check_reach a sender n ViaSend = Inr ()) (map fst a)"
    unfolding filter_map
    by (intro arg_cong [of _ _ "map fst"] filter_cong refl)
      (auto simp: fan_out_check_reach [OF assms Some])
  moreover have "map fst (filter (\<lambda>(n, c). n \<noteq> sender \<and> ca_protected c \<and> n \<notin> ca_send_to_protected fc) a) =
      filter (\<lambda>n. n \<noteq> sender \<and> check_reach a sender n ViaSend \<noteq> Inr ()) (map fst a)"
    unfolding filter_map
    by (intro arg_cong [of _ _ "map fst"] filter_cong refl)
      (auto simp: fan_out_check_reach [OF assms Some])
  ultimately show ?thesis
    using Some by (simp add: recipients_for_broadcast_def is_registered_def fan_out_spec [OF assms])
qed

definition example_acl :: acl where
  "example_acl =
    [(''audit'', \<lparr>ca_capabilities = {CSend}, ca_protected = False, ca_send_to_protected = {},
        ca_ask_protected = {}, ca_engine = ''codex'', ca_order_preserving = False\<rparr>),
     (''coord'', \<lparr>ca_capabilities = {CSend, CBroadcast}, ca_protected = True,
        ca_send_to_protected = {}, ca_ask_protected = {}, ca_engine = ''claude'',
        ca_order_preserving = False\<rparr>),
     (''dev'', \<lparr>ca_capabilities = {CSend, CBroadcast}, ca_protected = False,
        ca_send_to_protected = {}, ca_ask_protected = {''coord''}, ca_engine = ''claude'',
        ca_order_preserving = False\<rparr>)]"

theorem broadcast_fan_out_witness:
  "recipients_for_broadcast example_acl ''dev'' = ([''audit''], [''coord''])"
  by (subst broadcast_fan_out)
    (simp_all add: example_acl_def is_registered_def check_reach_def is_protected_def)

text \<open>A reload replaces the ACL only with one whose cells are those of the file in the same
  order, whose capabilities are exactly the file's (each known and named once) and whose grants all
  name registered cells; every failure leaves the previous ACL in force.\<close>

lemma reload_all_or_nothing:
  "case reload_from_file toml read_result cur of
     (Inl e, a) \<Rightarrow> a = cur
   | (Inr n, a) \<Rightarrow>
      n = length a \<and>
      (\<exists>src raw. read_result = Some src \<and> toml src = Some raw \<and> map fst a = map fst raw \<and>
        (\<forall>i < length a. \<exists>cs. rc_capabilities (snd (raw ! i)) = map capability_as_str cs \<and>
            distinct cs \<and> ca_capabilities (snd (a ! i)) = set cs)) \<and>
      (\<forall>(m, c) \<in> set a. \<forall>t \<in> ca_send_to_protected c \<union> ca_ask_protected c. is_registered a t)"
proof (cases "reload_from_file toml read_result cur")
  case (Pair r a)
  show ?thesis
  proof (cases r)
    case (Inl e)
    then show ?thesis using Pair by (auto simp: reload_from_file_def split: option.splits sum.splits)
  next
    case (Inr n)
    with Pair obtain src raw where t: "read_result = Some src" "toml src = Some raw" "n = length a"
      and pc: "parse_cells raw = Inr a"
      and grants: "\<forall>(m, c) \<in> set a. \<forall>t \<in> ca_send_to_protected c \<union> ca_ask_protected c. t \<in> fst ` set a"
      by (auto simp: reload_from_file_def acl_parse_def split: option.splits sum.splits if_splits)
    note l = parse_cells_Inr [OF pc]
    have "map fst a = map fst raw"
      using l by (induction rule: list_all2_induct) auto
    moreover have "\<exists>cs. rc_capabilities (snd (raw ! i)) = map capability_as_str cs \<and>
            distinct cs \<and> ca_capabilities (snd (a ! i)) = set cs" if "i < length a" for i
      using l that by (auto simp: list_all2_conv_all_nth case_prod_beta)
    moreover have "\<forall>(m, c) \<in> set a. \<forall>t \<in> ca_send_to_protected c \<union> ca_ask_protected c. is_registered a t"
      using grants by (simp add: is_registered_def map_of_eq_None_iff)
    ultimately show ?thesis using Inr Pair t by auto
  qed
qed

definition example_toml :: "string \<Rightarrow> (string \<times> raw_cell) list option" where
  "example_toml src =
    (if src = ''dev'' then Some [(''dev'', \<lparr>rc_engine = ''claude'', rc_capabilities = [''send'', ''ask''],
       rc_protected = False, rc_send_to_protected = [''dev''], rc_ask_protected = [],
       rc_order_preserving = False\<rparr>)]
     else None)"

lemma example_reload:
  "\<exists>a. reload_from_file example_toml (Some ''dev'') [] = (Inr 1, a) \<and> map fst a = [''dev'']"
  by (simp add: reload_from_file_def acl_parse_def example_toml_def capability_parse_def)

lemma reload_all_or_nothing_witness:
  "\<exists>a. reload_from_file example_toml (Some ''dev'') [] = (Inr 1, a) \<and>
    (\<forall>(m, c) \<in> set a. \<forall>t \<in> ca_send_to_protected c \<union> ca_ask_protected c. is_registered a t)"
proof -
  obtain a where a: "reload_from_file example_toml (Some ''dev'') [] = (Inr 1, a)"
    using example_reload by blast
  from reload_all_or_nothing [where toml = example_toml and read_result = "Some ''dev''" and cur = "[]"] show ?thesis
    unfolding a by auto
qed

end
