(* ===== verification/Quota.thy ===== *)
theory Quota
  imports Acl
begin

text \<open>
  The quota tracker of \<open>quota.rs\<close>: sliding windows per sender and per (sender, capability), the
  pending-ask cap and the queue-depth cap.  Stamps are milliseconds; both window axes satisfy the
  interface \<open>window_limiter\<close>, inside which the rate bound is proved once.
\<close>

definition WINDOW_MS :: nat where "WINDOW_MS = 60000"

record quota_config =
  sender_per_min :: nat
  ask_per_min :: nat
  broadcast_per_min :: nat
  attach_files_per_min :: nat
  wake_per_min :: nat
  admin_registry_per_min :: nat
  pending_ask_cap :: nat
  queue_depth :: nat

definition default_quota_config :: quota_config where
  "default_quota_config =
    \<lparr>sender_per_min = 60, ask_per_min = 20, broadcast_per_min = 5, attach_files_per_min = 10,
     wake_per_min = 10, admin_registry_per_min = 10, pending_ask_cap = 10, queue_depth = 1000\<rparr>"

record quota_tracker =
  qt_config :: quota_config
  qt_per_sender :: "string \<rightharpoonup> nat list"
  qt_per_capability :: "string \<times> capability \<rightharpoonup> nat list"

definition quota_new :: "quota_config \<Rightarrow> quota_tracker" where
  "quota_new cfg = \<lparr>qt_config = cfg, qt_per_sender = (\<lambda>_. None), qt_per_capability = (\<lambda>_. None)\<rparr>"

fun prune :: "nat list \<Rightarrow> nat \<Rightarrow> nat list" where
  "prune [] now = []"
| "prune (front # w) now = (if WINDOW_MS \<le> now - front then prune w now else front # w)"

definition capability_ceiling :: "quota_config \<Rightarrow> capability \<Rightarrow> nat option" where
  "capability_ceiling cfg cap =
    (case cap of
      CAsk \<Rightarrow> Some (ask_per_min cfg)
    | CBroadcast \<Rightarrow> Some (broadcast_per_min cfg)
    | CAttachFiles \<Rightarrow> Some (attach_files_per_min cfg)
    | CWake \<Rightarrow> Some (wake_per_min cfg)
    | CAdminRegistry \<Rightarrow> Some (admin_registry_per_min cfg)
    | _ \<Rightarrow> None)"

definition or_default :: "'a list option \<Rightarrow> 'a list" where
  "or_default w = (case w of None \<Rightarrow> [] | Some xs \<Rightarrow> xs)"

definition note_and_check_sender :: "string \<Rightarrow> nat \<Rightarrow> nat \<Rightarrow> (unit, quota_tracker) op" where
  "note_and_check_sender sender now fanout_units q =
    (let window = prune (or_default (qt_per_sender q sender)) now in
     if sender_per_min (qt_config q) < length window + fanout_units
     then (Inl Quota, q\<lparr>qt_per_sender := (qt_per_sender q)(sender \<mapsto> window)\<rparr>)
     else (Inr (), q\<lparr>qt_per_sender :=
            (qt_per_sender q)(sender \<mapsto> window @ replicate fanout_units now)\<rparr>))"

definition note_and_check_capability :: "string \<Rightarrow> capability \<Rightarrow> nat \<Rightarrow> (unit, quota_tracker) op" where
  "note_and_check_capability sender cap now q =
    (case capability_ceiling (qt_config q) cap of
      None \<Rightarrow> (Inr (), q)
    | Some ceiling \<Rightarrow>
       (let window = prune (or_default (qt_per_capability q (sender, cap))) now in
        if ceiling \<le> length window
        then (Inl Quota, q\<lparr>qt_per_capability := (qt_per_capability q)((sender, cap) \<mapsto> window)\<rparr>)
        else (Inr (), q\<lparr>qt_per_capability :=
               (qt_per_capability q)((sender, cap) \<mapsto> window @ [now])\<rparr>)))"

definition check_queue_depth :: "quota_tracker \<Rightarrow> nat \<Rightarrow> unit res" where
  "check_queue_depth q pending =
    (if queue_depth (qt_config q) \<le> pending then Inl Quota else Inr ())"

definition check_pending_ask_cap :: "quota_tracker \<Rightarrow> nat \<Rightarrow> unit res" where
  "check_pending_ask_cap q open_asks =
    (if pending_ask_cap (qt_config q) \<le> open_asks then Inl Quota else Inr ())"

section \<open>The rate bound\<close>

text \<open>The stamps of the units that one axis admitted during a run.\<close>

fun admitted :: "('op \<Rightarrow> (nat \<times> nat) option) \<Rightarrow> ('op \<Rightarrow> 's \<Rightarrow> bool \<times> 's) \<Rightarrow> 'op list \<Rightarrow> 's \<Rightarrow> nat list" where
  "admitted ev tick [] s = []"
| "admitted ev tick (x # xs) s =
    (case ev x of Some (now, u) \<Rightarrow> if fst (tick x s) then replicate u now else [] | None \<Rightarrow> [])
    @ admitted ev tick xs (snd (tick x s))"

definition within :: "nat \<Rightarrow> nat list \<Rightarrow> nat" where
  "within t ss = length (filter (\<lambda>s. s \<le> t \<and> t < s + WINDOW_MS) ss)"

lemma within_append [simp]: "within t (xs @ ys) = within t xs + within t ys"
  by (simp add: within_def)

lemma prune_sorted: "sorted w \<Longrightarrow> prune w now = filter (\<lambda>s. now < s + WINDOW_MS) w"
proof (induction w now rule: prune.induct)
  case (2 front w now)
  show ?case
  proof (cases "WINDOW_MS \<le> now - front")
    case True
    then have "\<not> now < front + WINDOW_MS" by (simp add: WINDOW_MS_def)
    with True 2 show ?thesis by simp
  next
    case False
    with 2(2) have "\<forall>s \<in> set (front # w). now < s + WINDOW_MS" by (auto simp: WINDOW_MS_def)
    then have "filter (\<lambda>s. now < s + WINDOW_MS) (front # w) = front # w" by (simp add: filter_id_conv)
    with False show ?thesis by simp
  qed
qed simp

text \<open>One window axis of a tracker: \<open>ev\<close> picks the operations of the axis with their time and units.\<close>

locale window_limiter =
  fixes ev :: "'op \<Rightarrow> (nat \<times> nat) option"
    and tick :: "'op \<Rightarrow> 's \<Rightarrow> bool \<times> 's"
    and window :: "'s \<Rightarrow> nat list"
    and limit :: "'s \<Rightarrow> nat"
  assumes limit_note: "limit (snd (tick x s)) = limit s"
    and other_axis: "ev x = None \<Longrightarrow> window (snd (tick x s)) = window s"
    and admits_iff: "ev x = Some (now, u) \<Longrightarrow>
        fst (tick x s) \<longleftrightarrow> length (prune (window s) now) + u \<le> limit s"
    and window_note: "ev x = Some (now, u) \<Longrightarrow>
        window (snd (tick x s)) = prune (window s) now @ (if fst (tick x s) then replicate u now else [])"
begin

definition covers :: "nat list \<Rightarrow> nat \<Rightarrow> 's \<Rightarrow> bool" where
  "covers log latest s \<longleftrightarrow> sorted log \<and> (\<forall>t \<in> set log. t \<le> latest) \<and> sorted (window s) \<and>
     set (window s) \<subseteq> {..latest} \<and>
     (\<forall>t \<ge> latest. filter (\<lambda>x. t < x + WINDOW_MS) (window s) = filter (\<lambda>x. t < x + WINDOW_MS) log)"

definition bounded :: "nat list \<Rightarrow> nat \<Rightarrow> bool" where
  "bounded log l \<longleftrightarrow> (\<forall>t. within t log \<le> l)"

lemma note_covers:
  assumes cov: "covers log latest s" and bd: "bounded log (limit s)"
    and e: "ev x = Some (now, u)" and le: "latest \<le> now"
  defines "log' \<equiv> log @ (if fst (tick x s) then replicate u now else [])"
  shows "covers log' now (snd (tick x s)) \<and> bounded log' (limit s)"
proof -
  let ?new = "if fst (tick x s) then replicate u now else []"
  have srt: "sorted log" "\<forall>t \<in> set log. t \<le> latest" "sorted (window s)" "set (window s) \<subseteq> {..latest}"
    and filt: "\<And>t. latest \<le> t \<Longrightarrow>
      filter (\<lambda>x. t < x + WINDOW_MS) (window s) = filter (\<lambda>x. t < x + WINDOW_MS) log"
    using cov by (auto simp: covers_def)
  have w: "window (snd (tick x s)) = filter (\<lambda>x. now < x + WINDOW_MS) log @ ?new"
    using window_note [OF e, of s] srt(3) filt [OF le] by (simp add: prune_sorted)
  have sub: "filter (\<lambda>x. t < x + WINDOW_MS) (filter (\<lambda>x. now < x + WINDOW_MS) log) =
      filter (\<lambda>x. t < x + WINDOW_MS) log" if "now \<le> t" for t
    using that by (auto intro: filter_cong)
  have "covers log' now (snd (tick x s))"
    using srt le sub unfolding covers_def w log'_def
    by (auto simp: sorted_append sorted_filter intro: order_trans sorted_wrt_filter)
  moreover have "within t log' \<le> limit s" for t
  proof (cases "fst (tick x s) \<and> now \<le> t")
    case False
    then have "within t log' = within t log" by (auto simp: log'_def within_def)
    with bd show ?thesis by (simp add: bounded_def)
  next
    case True
    have "length (filter (\<lambda>s. s \<le> t \<and> t < s + WINDOW_MS) log) \<le>
        length (filter (\<lambda>x. now < x + WINDOW_MS) log)"
      using True by (intro length_filter_mono) auto
    moreover have "length (filter (\<lambda>x. now < x + WINDOW_MS) log) + u \<le> limit s"
      using admits_iff [OF e, of s] True srt(3) filt [OF le] by (simp add: prune_sorted)
    moreover have "within t (replicate u now) \<le> u"
      unfolding within_def by (rule order_trans [OF length_filter_le]) simp
    ultimately show ?thesis using True by (simp add: log'_def) (simp add: within_def)
  qed
  ultimately show ?thesis by (simp add: bounded_def)
qed

lemma admitted_bounded_gen:
  assumes "covers log latest s" "bounded log (limit s)"
    and "sorted (latest # map fst (List.map_filter ev xs))"
  shows "bounded (log @ admitted ev tick xs s) (limit s)"
  using assms
proof (induction xs arbitrary: log latest s)
  case (Cons x xs)
  show ?case
  proof (cases "ev x")
    case None
    then have "covers log latest (snd (tick x s))"
      using Cons.prems(1) by (simp add: covers_def other_axis)
    with Cons.IH [of log latest "snd (tick x s)"] Cons.prems None show ?thesis
      by (simp add: limit_note List.map_filter_simps)
  next
    case (Some e)
    obtain now u where e: "ev x = Some (now, u)" using Some by (cases e) auto
    from e Cons.prems(3) have le: "latest \<le> now"
      and rest: "sorted (now # map fst (List.map_filter ev xs))"
      by (auto simp: List.map_filter_simps)
    from note_covers [OF Cons.prems(1,2) e le]
    have "covers (log @ (if fst (tick x s) then replicate u now else [])) now (snd (tick x s))"
      and "bounded (log @ (if fst (tick x s) then replicate u now else [])) (limit (snd (tick x s)))"
      by (simp_all add: limit_note)
    from Cons.IH [OF this rest] show ?thesis by (simp add: e limit_note)
  qed
qed simp

theorem rate_bound:
  assumes "window s = []" "sorted (map fst (List.map_filter ev xs))"
  shows "within t (admitted ev tick xs s) \<le> limit s"
proof -
  have "covers [] 0 s" "bounded [] (limit s)" "sorted (0 # map fst (List.map_filter ev xs))"
    using assms by (auto simp: covers_def bounded_def within_def)
  from admitted_bounded_gen [OF this] show ?thesis by (simp add: bounded_def)
qed

end

section \<open>The two axes\<close>

datatype quota_op = NoteSender string nat nat | NoteCapability string capability nat

fun quota_note :: "quota_op \<Rightarrow> quota_tracker \<Rightarrow> bool \<times> quota_tracker" where
  "quota_note (NoteSender f now u) q = (case note_and_check_sender f now u q of (r, q') \<Rightarrow> (is_ok r, q'))"
| "quota_note (NoteCapability f cap now) q =
    (case note_and_check_capability f cap now q of (r, q') \<Rightarrow> (is_ok r, q'))"

fun sender_event :: "string \<Rightarrow> quota_op \<Rightarrow> (nat \<times> nat) option" where
  "sender_event f (NoteSender g now u) = (if g = f then Some (now, u) else None)"
| "sender_event f (NoteCapability g cap now) = None"

text \<open>A capability without a ceiling of its own is only limited by the sender axis.\<close>

definition has_ceiling :: "capability \<Rightarrow> bool" where
  "has_ceiling c \<longleftrightarrow> c \<in> {CAsk, CBroadcast, CAttachFiles, CWake, CAdminRegistry}"

lemma capability_ceiling_None: "capability_ceiling cfg c = None \<longleftrightarrow> \<not> has_ceiling c"
  by (cases c) (simp_all add: capability_ceiling_def has_ceiling_def)

lemma no_ceiling [simp]: "\<not> has_ceiling c \<Longrightarrow> capability_ceiling cfg c = None"
  by (simp add: capability_ceiling_None)

fun capability_event :: "string \<Rightarrow> capability \<Rightarrow> quota_op \<Rightarrow> (nat \<times> nat) option" where
  "capability_event f c (NoteSender g now u) = None"
| "capability_event f c (NoteCapability g cap now) =
    (if g = f \<and> cap = c \<and> has_ceiling c then Some (now, 1) else None)"

definition ceiling_of :: "quota_tracker \<Rightarrow> capability \<Rightarrow> nat" where
  "ceiling_of q c = (case capability_ceiling (qt_config q) c of Some l \<Rightarrow> l | None \<Rightarrow> 0)"

lemma quota_note_config: "qt_config (snd (quota_note x q)) = qt_config q"
  by (cases x) (auto simp: note_and_check_sender_def note_and_check_capability_def Let_def
      split: option.splits)

interpretation sender_axis: window_limiter "sender_event f" quota_note
  "\<lambda>q. or_default (qt_per_sender q f)" "\<lambda>q. sender_per_min (qt_config q)" for f
proof (unfold_locales, goal_cases)
  case (1 x s)
  show ?case by (simp add: quota_note_config)
next
  case (2 x s)
  then show ?case by (cases x) (auto simp: note_and_check_sender_def note_and_check_capability_def
        Let_def split: option.splits if_splits)
next
  case (3 x now u s)
  then show ?case by (cases x) (auto simp: note_and_check_sender_def Let_def split: if_splits)
next
  case (4 x now u s)
  then show ?case by (cases x) (auto simp: note_and_check_sender_def Let_def or_default_def split: if_splits)
qed

interpretation capability_axis: window_limiter "capability_event f c" quota_note
  "\<lambda>q. or_default (qt_per_capability q (f, c))" "\<lambda>q. ceiling_of q c" for f c
proof (unfold_locales, goal_cases)
  case (1 x s)
  show ?case by (simp add: quota_note_config ceiling_of_def)
next
  case (2 x s)
  then show ?case
    by (cases x) (auto simp: note_and_check_sender_def note_and_check_capability_def Let_def
        split: option.splits if_splits)
next
  case (3 x now u s)
  then show ?case
    by (cases x) (auto simp: note_and_check_capability_def Let_def ceiling_of_def
        capability_ceiling_None split: option.splits if_splits)
next
  case (4 x now u s)
  then show ?case
    by (cases x) (auto simp: note_and_check_capability_def Let_def or_default_def
        capability_ceiling_None split: option.splits if_splits)
qed

fun quota_time :: "quota_op \<Rightarrow> nat" where
  "quota_time (NoteSender f now u) = now"
| "quota_time (NoteCapability f c now) = now"

lemma sorted_sub_times:
  assumes "sorted (map quota_time ops)"
    and "\<And>x now u. ev x = Some (now, u) \<Longrightarrow> now = quota_time x"
  shows "sorted (map fst (List.map_filter ev ops))"
proof -
  have "set (map fst (List.map_filter ev xs)) \<subseteq> quota_time ` set xs" for xs
    using assms(2) by (induction xs) (auto simp: List.map_filter_simps split: option.splits)
  then have mem: "\<exists>x \<in> set xs. a = quota_time x" if "(a, b) \<in> set (List.map_filter ev xs)" for a b xs
    using that by force
  show ?thesis
    using assms(1)
  proof (induction ops)
    case (Cons x ops)
    then show ?case
      using assms(2) by (fastforce simp: List.map_filter_simps split: option.splits dest: mem)
  qed (simp add: List.map_filter_simps)
qed

text \<open>C26: however checks of senders and capabilities are interleaved, as long as the clock does not
  go back, the units admitted for one sender in any 60-second interval never exceed its per-minute
  limit (a broadcast counts one unit per recipient), and the operations admitted for one
  (sender, capability) pair never exceed the ceiling of that capability.\<close>

theorem quota_rate_bound:
  assumes "sorted (map quota_time ops)"
  shows "within t (admitted (sender_event f) quota_note ops (quota_new cfg)) \<le> sender_per_min cfg \<and>
    within t (admitted (capability_event f c) quota_note ops (quota_new cfg)) \<le>
      ceiling_of (quota_new cfg) c"
proof
  have e: "sender_event f x = Some (now, u) \<Longrightarrow> now = quota_time x"
    "capability_event f c x = Some (now, u) \<Longrightarrow> now = quota_time x" for x now u
    by (cases x; auto split: if_splits)+
  show "within t (admitted (sender_event f) quota_note ops (quota_new cfg)) \<le> sender_per_min cfg"
    using sender_axis.rate_bound [of "quota_new cfg" f, OF _ sorted_sub_times [OF assms e(1)]]
    by (simp add: quota_new_def or_default_def)
  show "within t (admitted (capability_event f c) quota_note ops (quota_new cfg)) \<le>
      ceiling_of (quota_new cfg) c"
    using capability_axis.rate_bound [of "quota_new cfg" f c, OF _ sorted_sub_times [OF assms e(2)]]
    by (simp add: quota_new_def or_default_def)
qed

definition example_quota :: quota_config where
  "example_quota = default_quota_config\<lparr>sender_per_min := 2, ask_per_min := 1\<rparr>"

text \<open>Two units fit, the third is refused, and after a minute there is room again.\<close>

theorem quota_rate_bound_witness:
  "admitted (sender_event ''a'') quota_note
     [NoteSender ''a'' 0 2, NoteSender ''a'' 59999 1, NoteSender ''a'' 60000 1] (quota_new example_quota) =
     [0, 0, 60000] \<and>
   within 59999 [0, 0, 60000] \<le> sender_per_min example_quota"
proof -
  let ?ops = "[NoteSender ''a'' 0 2, NoteSender ''a'' 59999 1, NoteSender ''a'' 60000 1]"
  have a: "admitted (sender_event ''a'') quota_note ?ops (quota_new example_quota) = [0, 0, 60000]"
    by (simp add: note_and_check_sender_def quota_new_def example_quota_def default_quota_config_def
        or_default_def WINDOW_MS_def numeral_2_eq_2)
  have "sorted (map quota_time ?ops)" by simp
  from conjunct1 [OF quota_rate_bound [OF this, of 59999 "''a''" example_quota]]
  show ?thesis using a unfolding a by blast
qed

end
