(* ===== verification/Canonical.thy ===== *)
theory Canonical
  imports Prelude
begin

text \<open>
  Canonical JSON (\<open>canonical.rs\<close>).  A JSON object is the list of its entries in the order the map
  iterates, with distinct keys.  The escaping of strings and the text of integers are those of
  \<open>serde_json\<close>, a parameter; \<open>json_text_ok\<close> is what the format fixes about them.  A float is
  represented by the text it prints as.
\<close>

datatype json =
    JNull | JBool bool | JInt int | JFloat string | JStr string | JArr "json list"
  | JObj "(string \<times> json) list"

definition intersperse_comma :: "string list \<Rightarrow> string" where
  "intersperse_comma xs = (case xs of [] \<Rightarrow> [] | y # ys \<Rightarrow> y @ concat (map (\<lambda>z. CHR '','' # z) ys))"

text \<open>The keys of an object are sorted, then each is written with its value.\<close>

fun write_value :: "(string \<Rightarrow> string) \<Rightarrow> (int \<Rightarrow> string) \<Rightarrow> json \<Rightarrow> string" where
  "write_value esc num JNull = ''null''"
| "write_value esc num (JBool b) = (if b then ''true'' else ''false'')"
| "write_value esc num (JInt n) = num n"
| "write_value esc num (JFloat t) = t"
| "write_value esc num (JStr s) = esc s"
| "write_value esc num (JArr xs) = ''['' @ intersperse_comma (map (write_value esc num) xs) @ '']''"
| "write_value esc num (JObj kvs) =
    ''{'' @ intersperse_comma (map (\<lambda>(k, t). esc k @ '':'' @ t)
       (sort_key fst (map (\<lambda>(k, v). (k, write_value esc num v)) kvs))) @ ''}''"

definition to_canonical_json :: "(string \<Rightarrow> string) \<Rightarrow> (int \<Rightarrow> string) \<Rightarrow> json \<Rightarrow> string" where
  "to_canonical_json esc num v = write_value esc num v"

section \<open>Values up to key order\<close>

text \<open>The same value with the keys sorted at every depth: the abstract meaning of a document.\<close>

fun sorted_json :: "json \<Rightarrow> json" where
  "sorted_json (JArr xs) = JArr (map sorted_json xs)"
| "sorted_json (JObj kvs) = JObj (sort_key fst (map (\<lambda>(k, v). (k, sorted_json v)) kvs))"
| "sorted_json v = v"

definition num_char :: "char \<Rightarrow> bool" where
  "num_char c \<longleftrightarrow> c \<in> set ''0123456789+-.eE''"

definition num_start :: "char \<Rightarrow> bool" where
  "num_start c \<longleftrightarrow> c \<in> set ''-0123456789''"

text \<open>Floats print with a number's alphabet and not as an integer does.\<close>

fun json_wf :: "(int \<Rightarrow> string) \<Rightarrow> json \<Rightarrow> bool" where
  "json_wf num (JFloat t) = (t \<noteq> [] \<and> num_start (hd t) \<and> list_all num_char t \<and> (\<forall>n. t \<noteq> num n))"
| "json_wf num (JArr xs) = list_all (json_wf num) xs"
| "json_wf num (JObj kvs) = (distinct (map fst kvs) \<and> list_all (\<lambda>(k, v). json_wf num v) kvs)"
| "json_wf num v = True"

definition json_text_ok :: "(string \<Rightarrow> string) \<Rightarrow> (int \<Rightarrow> string) \<Rightarrow> bool" where
  "json_text_ok esc num \<longleftrightarrow>
    (\<forall>s. \<exists>t. esc s = CHR 0x22 # t) \<and>
    (\<forall>s t u v. esc s @ u = esc t @ v \<longrightarrow> s = t \<and> u = v) \<and>
    (\<forall>n. num n \<noteq> [] \<and> num_start (hd (num n)) \<and> list_all num_char (num n)) \<and>
    inj num"

lemma sort_key_map_snd:
  fixes f :: "'v \<Rightarrow> 'w"
  shows "sort_key fst (map (\<lambda>(k, v). (k, f v)) kvs) =
   map (\<lambda>(k, v). (k, f v)) (sort_key (fst :: ('k::linorder \<times> 'v) \<Rightarrow> 'k) kvs)"
proof -
  have ins: "insort_key fst (k, f v) (map (\<lambda>(k, v). (k, f v)) xs) =
    map (\<lambda>(k, v). (k, f v)) (insort_key (fst :: ('k::linorder \<times> 'v) \<Rightarrow> 'k) (k, v) xs)" for k v and xs :: "('k \<times> 'v) list"
    by (induction xs) auto
  show ?thesis
    by (induction kvs) (auto simp: sort_key_def ins)
qed

lemma sort_key_idem: "sort_key f (sort_key f xs) = sort_key f xs"
  by (simp add: sort_key_id_if_sorted)

lemma write_JObj:
  "write_value esc num (JObj kvs) =
    ''{'' @ intersperse_comma (map (\<lambda>(k, v). esc k @ '':'' @ write_value esc num v) (sort_key fst kvs)) @ ''}''"
  by (auto simp: sort_key_map_snd intro!: arg_cong [of _ _ intersperse_comma])

text \<open>Writing only depends on the value up to key order.\<close>

lemma write_sorted: "write_value esc num (sorted_json v) = write_value esc num v"
proof (induction v rule: sorted_json.induct)
  case (2 kvs)
  have "map (\<lambda>(k, v). (k, write_value esc num v)) (map (\<lambda>(k, v). (k, sorted_json v)) kvs) =
      map (\<lambda>(k, v). (k, write_value esc num v)) kvs"
    using 2 by auto
  then show ?case
    by (simp only: sorted_json.simps write_value.simps sort_key_map_snd [symmetric])
      (simp add: sort_key_idem)
qed (auto intro: arg_cong [of _ _ intersperse_comma])


section \<open>Reading back\<close>

definition delim :: "string \<Rightarrow> bool" where
  "delim u \<longleftrightarrow> u = [] \<or> \<not> num_char (hd u)"

lemma delim_simps [simp]:
  "delim []" "delim (CHR '','' # u)" "delim (CHR '']'' # u)" "delim (CHR ''}'' # u)"
  by (simp_all add: delim_def num_char_def)

fun json_tag :: "json \<Rightarrow> nat" where
  "json_tag JNull = 0"
| "json_tag (JBool b) = (if b then 1 else 2)"
| "json_tag (JInt n) = 3"
| "json_tag (JFloat t) = 3"
| "json_tag (JStr s) = 4"
| "json_tag (JArr xs) = 5"
| "json_tag (JObj kvs) = 6"

definition char_tag :: "char \<Rightarrow> nat" where
  "char_tag c = (if c = CHR ''n'' then 0 else if c = CHR ''t'' then 1 else if c = CHR ''f'' then 2
     else if num_start c then 3 else if c = CHR 0x22 then 4 else if c = CHR ''['' then 5
     else if c = CHR ''{'' then 6 else 7)"

lemma num_start_tag: "num_start c \<Longrightarrow> char_tag c = 3"
  by (auto simp: num_start_def char_tag_def)

lemma write_hd:
  assumes "json_text_ok esc num" "json_wf num a"
  shows "write_value esc num a \<noteq> [] \<and> char_tag (hd (write_value esc num a)) = json_tag a"
proof (cases a)
  case (JInt n)
  with assms(1) show ?thesis by (simp add: json_text_ok_def num_start_tag)
next
  case (JFloat t)
  with assms(2) show ?thesis by (simp add: num_start_tag)
next
  case (JStr s)
  from assms(1) obtain t where "esc s = CHR 0x22 # t" unfolding json_text_ok_def by blast
  with JStr show ?thesis by (simp add: char_tag_def num_start_def)
qed (simp_all add: char_tag_def num_start_def)

lemma write_tag:
  assumes "json_text_ok esc num" "json_wf num a" "json_wf num b"
    and "write_value esc num a @ u = write_value esc num b @ v"
  shows "json_tag a = json_tag b"
  using write_hd [OF assms(1,2)] write_hd [OF assms(1,3)] assms(4) by (metis hd_append2)

lemma number_split:
  assumes "t @ u = t' @ v" "list_all num_char t" "list_all num_char t'" "delim u" "delim v"
  shows "t = t' \<and> u = v"
proof -
  have "takeWhile num_char (s @ w) = s" if "list_all num_char s" "delim w" for s w
    using that by (cases w) (auto simp: delim_def list_all_iff takeWhile_append)
  then have "t = t'" using assms by metis
  with assms(1) show ?thesis by simp
qed

definition splits :: "('a \<Rightarrow> string) \<Rightarrow> ('a \<Rightarrow> 'b) \<Rightarrow> 'a \<Rightarrow> 'a \<Rightarrow> bool" where
  "splits f n x y \<longleftrightarrow>
    (\<forall>u v. delim u \<longrightarrow> delim v \<longrightarrow> f x @ u = f y @ v \<longrightarrow> n x = n y \<and> u = v)"

lemma comma_list_split:
  assumes "concat (map (\<lambda>z. CHR '','' # f z) xs) @ c # u = concat (map (\<lambda>z. CHR '','' # f z) ys) @ c # v"
    and "\<forall>x \<in> set xs. \<forall>y \<in> set ys. splits f n x y"
    and "c = CHR '']'' \<or> c = CHR ''}''"
  shows "map n xs = map n ys \<and> u = v"
  using assms(1,2)
proof (induction xs arbitrary: ys)
  case Nil
  then show ?case using assms(3) by (cases ys) auto
next
  case (Cons x xs)
  let ?rest = "\<lambda>zs w. concat (map (\<lambda>z. CHR '','' # f z) zs) @ c # w"
  have d: "delim (?rest zs w)" for zs w using assms(3) by (cases zs) auto
  obtain y ys' where y: "ys = y # ys'" using Cons.prems(1) assms(3) by (cases ys) auto
  with Cons.prems(1) have "f x @ ?rest xs u = f y @ ?rest ys' v" by simp
  moreover have "splits f n x y" using Cons.prems(2) y by simp
  ultimately have "n x = n y" "?rest xs u = ?rest ys' v" using d unfolding splits_def by blast+
  with Cons.IH [of ys'] Cons.prems(2) y show ?case by simp
qed

lemma list_split:
  assumes "intersperse_comma (map f xs) @ c # u = intersperse_comma (map f ys) @ c # v"
    and "\<forall>x \<in> set xs. \<forall>y \<in> set ys. splits f n x y"
    and "c = CHR '']'' \<or> c = CHR ''}''"
    and "\<forall>x \<in> set xs \<union> set ys. f x \<noteq> [] \<and> hd (f x) \<noteq> c"
  shows "map n xs = map n ys \<and> u = v"
proof (cases xs)
  case Nil
  with assms(1,4) show ?thesis
    by (cases ys) (auto simp: intersperse_comma_def append_eq_Cons_conv Cons_eq_append_conv
        dest: sym [of "_ # _"])
next
  case (Cons x xs')
  then obtain y ys' where y: "ys = y # ys'"
    using assms(1,4) by (cases ys) (auto simp: intersperse_comma_def append_eq_Cons_conv)
  have "concat (map (\<lambda>z. CHR '','' # f z) xs) @ c # u = concat (map (\<lambda>z. CHR '','' # f z) ys) @ c # v"
    using assms(1) Cons y by (simp add: intersperse_comma_def comp_def)
  from comma_list_split [OF this assms(2,3)] show ?thesis .
qed

lemma char_tag_close: "char_tag CHR '']'' = 7" "char_tag CHR ''}'' = 7"
  by (simp_all add: char_tag_def num_start_def)

lemma json_tag_less: "json_tag a < 7"
  by (cases a) simp_all

lemma write_not_close:
  assumes "json_text_ok esc num" "json_wf num a" "c = CHR '']'' \<or> c = CHR ''}''"
  shows "write_value esc num a \<noteq> [] \<and> hd (write_value esc num a) \<noteq> c"
  using write_hd [OF assms(1,2)] assms(3) json_tag_less [of a] char_tag_close by auto

lemma splits_iff_all:
  "(\<forall>u v. delim u \<longrightarrow> delim v \<longrightarrow> f x @ u = f y @ v \<longrightarrow> n x = n y \<and> u = v) \<Longrightarrow> splits f n x y"
  by (simp add: splits_def)

theorem write_splits:
  assumes T: "json_text_ok esc num"
  shows "json_wf num a \<Longrightarrow> json_wf num b \<Longrightarrow> splits (write_value esc num) sorted_json a b"
proof (induction a arbitrary: b rule: sorted_json.induct
    [case_names Arr Obj Null Bool Int Float Str])
  case (Arr xs)
  show ?case
  proof (rule splits_iff_all, intro allI impI)
    fix u v
    assume e: "write_value esc num (JArr xs) @ u = write_value esc num b @ v"
    from write_tag [OF T Arr(2,3) e] obtain ys where b: "b = JArr ys"
      by (cases b) (auto split: if_splits)
    have l: "intersperse_comma (map (write_value esc num) xs) @ CHR '']'' # u =
        intersperse_comma (map (write_value esc num) ys) @ CHR '']'' # v"
      using e b by simp
    have "\<forall>x \<in> set xs. \<forall>y \<in> set ys. splits (write_value esc num) sorted_json x y"
      using Arr b by (simp add: list_all_iff)
    moreover have "\<forall>x \<in> set xs \<union> set ys.
        write_value esc num x \<noteq> [] \<and> hd (write_value esc num x) \<noteq> CHR '']''"
      using Arr(2,3) b write_not_close [OF T] by (auto simp: list_all_iff)
    ultimately show "sorted_json (JArr xs) = sorted_json b \<and> u = v"
      using list_split [OF l] b by simp
  qed
next
  case (Obj kvs)
  let ?f = "\<lambda>(k, w). esc k @ '':'' @ write_value esc num w"
  let ?n = "\<lambda>(k :: string, w). (k, sorted_json w)"
  show ?case
  proof (rule splits_iff_all, intro allI impI)
    fix u v
    assume e: "write_value esc num (JObj kvs) @ u = write_value esc num b @ v"
    from write_tag [OF T Obj(2,3) e] obtain kvs' where b: "b = JObj kvs'"
      by (cases b) (auto split: if_splits)
    let ?xs = "sort_key fst kvs" and ?ys = "sort_key fst kvs'"
    have l: "intersperse_comma (map ?f ?xs) @ CHR ''}'' # u =
        intersperse_comma (map ?f ?ys) @ CHR ''}'' # v"
      using e unfolding b write_JObj by simp
    have esc: "esc s @ p = esc t @ q \<Longrightarrow> s = t \<and> p = q" for s t p q
      using T unfolding json_text_ok_def by blast
    have "splits ?f ?n x y" if "x \<in> set ?xs" "y \<in> set ?ys" for x y
    proof (rule splits_iff_all, intro allI impI)
      fix p q assume d: "delim p" "delim q" and eq: "?f x @ p = ?f y @ q"
      obtain k w k' w' where xy: "x = (k, w)" "y = (k', w')" by (cases x, cases y)
      with eq have kk: "k = k'" and ww: "write_value esc num w @ p = write_value esc num w' @ q"
        using esc [of k "'':'' @ write_value esc num w @ p" k' "'':'' @ write_value esc num w' @ q"]
        by auto
      have "json_wf num w" "json_wf num w'"
        using that xy Obj(2,3) b by (auto simp: list_all_iff)
      then have "splits (write_value esc num) sorted_json w w'"
        using Obj(1) that(1) xy by auto
      with d ww kk xy show "?n x = ?n y \<and> p = q" by (auto simp: splits_def)
    qed
    then have "\<forall>x \<in> set ?xs. \<forall>y \<in> set ?ys. splits ?f ?n x y" by blast
    moreover have "?f x \<noteq> [] \<and> hd (?f x) \<noteq> CHR ''}''" for x
    proof -
      obtain k w where x: "x = (k, w)" by (cases x)
      obtain t where "esc k = CHR 0x22 # t" using T unfolding json_text_ok_def by blast
      with x show ?thesis by simp
    qed
    ultimately have "map ?n ?xs = map ?n ?ys \<and> u = v"
      using list_split [OF l] by blast
    then show "sorted_json (JObj kvs) = sorted_json b \<and> u = v"
      using b by (simp add: sort_key_map_snd)
  qed
next
  case Null
  show ?case
  proof (rule splits_iff_all, intro allI impI)
    fix u v
    assume e: "write_value esc num JNull @ u = write_value esc num b @ v"
    from write_tag [OF T _ _ e] Null have "b = JNull" by (cases b) (auto split: if_splits)
    with e show "sorted_json JNull = sorted_json b \<and> u = v" by simp
  qed
next
  case (Bool x)
  show ?case
  proof (rule splits_iff_all, intro allI impI)
    fix u v
    assume e: "write_value esc num (JBool x) @ u = write_value esc num b @ v"
    from write_tag [OF T _ _ e] Bool have "b = JBool x" by (cases b) (auto split: if_splits)
    with e show "sorted_json (JBool x) = sorted_json b \<and> u = v" by simp
  qed
next
  case (Int n)
  show ?case
  proof (rule splits_iff_all, intro allI impI)
    fix u v
    assume d: "delim u" "delim v" and e: "write_value esc num (JInt n) @ u = write_value esc num b @ v"
    have nn: "list_all num_char (num m)" "num m = num n \<Longrightarrow> m = n" for m
      using T unfolding json_text_ok_def inj_def by blast+
    from write_tag [OF T _ _ e] Int have "json_tag b = 3" by simp
    then show "sorted_json (JInt n) = sorted_json b \<and> u = v"
      using e number_split [of "num n" u _ v] d nn Int(2)
      by (cases b) (auto split: if_splits dest: sym)
  qed
next
  case (Float t)
  show ?case
  proof (rule splits_iff_all, intro allI impI)
    fix u v
    assume d: "delim u" "delim v" and e: "write_value esc num (JFloat t) @ u = write_value esc num b @ v"
    have nn: "list_all num_char (num m)" for m using T unfolding json_text_ok_def by blast
    from write_tag [OF T _ _ e] Float have "json_tag b = 3" by simp
    then show "sorted_json (JFloat t) = sorted_json b \<and> u = v"
      using e number_split [of t u _ v] d nn Float
      by (cases b) (auto split: if_splits)
  qed
next
  case (Str s)
  show ?case
  proof (rule splits_iff_all, intro allI impI)
    fix u v
    assume e: "write_value esc num (JStr s) @ u = write_value esc num b @ v"
    from write_tag [OF T _ _ e] Str obtain t where b: "b = JStr t" by (cases b) (auto split: if_splits)
    with e have "esc s @ u = esc t @ v" by simp
    with T have "s = t \<and> u = v" unfolding json_text_ok_def by blast
    with b show "sorted_json (JStr s) = sorted_json b \<and> u = v" by simp
  qed
qed

section \<open>An instance of the text format\<close>

text \<open>Escaping of quotes and backslashes, decimal integers: enough for the examples.\<close>

definition esc_char :: "char \<Rightarrow> string" where
  "esc_char c = (if c = CHR 0x22 \<or> c = CHR 0x5C then [CHR 0x5C, c] else [c])"

definition plain_esc :: "string \<Rightarrow> string" where
  "plain_esc s = CHR 0x22 # concat (map esc_char s) @ [CHR 0x22]"

definition plain_num :: "int \<Rightarrow> string" where
  "plain_num n = (if n < 0 then CHR ''-'' # dec (nat (- n)) else dec (nat n))"

lemma esc_chars_split:
  "concat (map esc_char s) @ CHR 0x22 # u = concat (map esc_char t) @ CHR 0x22 # v \<Longrightarrow> s = t \<and> u = v"
proof (induction s arbitrary: t)
  case Nil
  then show ?case by (cases t) (auto simp: esc_char_def split: if_splits)
next
  case (Cons c s)
  then show ?case by (cases t) (auto simp: esc_char_def split: if_splits)
qed

definition read_dec :: "string \<Rightarrow> nat" where
  "read_dec s = foldl (\<lambda>a c. 10 * a + (of_char c - 48)) 0 s"

lemma of_digit_char: "d < 10 \<Longrightarrow> of_char (digit_char d) - 48 = d"
  by (simp add: digit_char_def)

lemma read_dec_dec: "read_dec (dec n) = n"
proof (induction n rule: dec.induct)
  case (1 n)
  show ?case
  proof (cases "n < 10")
    case True
    then show ?thesis by (simp add: dec_small read_dec_def of_digit_char)
  next
    case False
    with 1 have "foldl (\<lambda>a c. 10 * a + (of_char c - 48)) 0 (dec (n div 10)) = n div 10"
      by (simp add: read_dec_def)
    with False show ?thesis by (simp add: dec_step read_dec_def of_digit_char)
  qed
qed

lemma dec_inj: "dec a = dec b \<Longrightarrow> a = b"
  by (metis read_dec_dec)

definition is_digit :: "char \<Rightarrow> bool" where
  "is_digit c \<longleftrightarrow> c \<in> set ''0123456789''"

lemma digit_in: "d < 10 \<Longrightarrow> is_digit (digit_char d)"
proof -
  assume "d < 10"
  then have "d \<in> {0, 1, 2, 3, 4, 5, 6, 7, 8, 9}" by auto
  then consider "d = 0" | "d = 1" | "d = 2" | "d = 3" | "d = 4" | "d = 5" | "d = 6" | "d = 7"
    | "d = 8" | "d = 9" by blast
  then show ?thesis
    by cases (simp_all add: is_digit_def digit_char_def char_of_def bit_numeral_rec bit_0)
qed

lemma dec_chars: "dec n \<noteq> [] \<and> list_all is_digit (dec n)"
proof (induction n rule: dec.induct)
  case (1 n)
  show ?case
  proof (cases "n < 10")
    case True
    then show ?thesis using digit_in [of n] by (simp add: dec_small)
  next
    case False
    with 1 show ?thesis using digit_in [of "n mod 10"] by (simp add: dec_step)
  qed
qed

lemma is_digit_num: "is_digit c \<Longrightarrow> num_start c \<and> num_char c"
  by (auto simp: is_digit_def num_start_def num_char_def)

lemma dec_not_minus: "dec n \<noteq> CHR ''-'' # t"
proof
  assume "dec n = CHR ''-'' # t"
  with dec_chars [of n] have "is_digit CHR ''-''" by simp
  then show False by (simp add: is_digit_def)
qed

lemma plain_text_ok: "json_text_ok plain_esc plain_num"
proof -
  have "inj plain_num"
    by (rule injI) (auto simp: plain_num_def dec_not_minus dec_not_minus [symmetric]
        split: if_splits dest: dec_inj)
  moreover have "plain_num n \<noteq> [] \<and> num_start (hd (plain_num n)) \<and> list_all num_char (plain_num n)" for n
  proof -
    have d: "dec m \<noteq> [] \<and> num_start (hd (dec m)) \<and> list_all num_char (dec m)" for m
      using dec_chars [of m] is_digit_num by (cases "dec m") (auto simp: list_all_iff)
    have "num_start CHR ''-'' \<and> num_char CHR ''-''" by (simp add: num_start_def num_char_def)
    with d show ?thesis by (simp add: plain_num_def)
  qed
  moreover have "\<exists>t. plain_esc s = CHR 0x22 # t" for s
    by (simp add: plain_esc_def)
  moreover have "s = t \<and> u = v" if "plain_esc s @ u = plain_esc t @ v" for s t u v
    by (rule esc_chars_split) (use that in \<open>simp add: plain_esc_def\<close>)
  ultimately show ?thesis unfolding json_text_ok_def by blast
qed

lemma canonical_iff:
  assumes "json_text_ok esc num" "json_wf num a" "json_wf num b"
  shows "to_canonical_json esc num a = to_canonical_json esc num b \<longleftrightarrow> sorted_json a = sorted_json b"
proof
  assume "to_canonical_json esc num a = to_canonical_json esc num b"
  then have "write_value esc num a @ [] = write_value esc num b @ []"
    by (simp add: to_canonical_json_def)
  moreover have "delim []" by simp
  ultimately show "sorted_json a = sorted_json b"
    using write_splits [OF assms] unfolding splits_def by blast
next
  assume "sorted_json a = sorted_json b"
  then show "to_canonical_json esc num a = to_canonical_json esc num b"
    by (metis write_sorted to_canonical_json_def)
qed

text \<open>C28: two JSON values have the same canonical text exactly when they are the same value up to
  the order of object keys at any depth: canonicalisation forgets the insertion order and nothing
  else, which is what makes a hash of the text a commitment to the value.\<close>

theorem canonical_text_iff:
  assumes "json_text_ok esc num" "json_wf num a" "json_wf num b"
  shows "to_canonical_json esc num a = to_canonical_json esc num b \<longleftrightarrow> sorted_json a = sorted_json b"
  by (rule canonical_iff [OF assms])

theorem canonical_text_iff_witness:
  "to_canonical_json plain_esc plain_num (JObj [(''b'', JInt 1), (''a'', JObj [(''z'', JBool True), (''y'', JNull)])]) =
   to_canonical_json plain_esc plain_num (JObj [(''a'', JObj [(''y'', JNull), (''z'', JBool True)]), (''b'', JInt 1)])"
  by (subst canonical_text_iff [OF plain_text_ok]) (simp_all add: sort_key_def)


end
