(* ===== verification/AuditLog.thy ===== *)
theory AuditLog
  imports Types Canonical "HOL-Library.Word"
begin

text \<open>
  The audit chain of \<open>audit.rs\<close>: append, open and verify over the content of the file.  SHA-256
  and the JSON reader and writer are the fields of \<open>codec\<close>; an append can fail when it opens,
  writes or syncs the file.  Blank lines are those of ASCII white space.
\<close>

record codec =
  cd_sha :: "string \<Rightarrow> 8 word list"
  cd_esc :: "string \<Rightarrow> string"
  cd_num :: "int \<Rightarrow> string"
  cd_ser :: "json \<Rightarrow> string"
  cd_parse :: "string \<Rightarrow> json option"

definition AUDIT_KINDS :: "string list" where
  "AUDIT_KINDS =
    [''enqueued'', ''delivered'', ''acked'', ''delivery_failed'', ''expired'', ''ask_opened'',
     ''ask_expired'', ''duplicate_reply'', ''acl_changed'', ''quota_exceeded'',
     ''deadlock_prevented'', ''broadcast_fanned_out'', ''auth_rejected'',
     ''spec_version_rejected'', ''protected_access_denied'', ''registry_changed'',
     ''token_revoked'',
     ''cell_registered'', ''cell_updated'', ''cell_spawn_requested'', ''cell_turn_started'',
     ''cell_turn_completed'', ''cell_turn_failed'', ''cell_cancelled'', ''cell_timeout'',
     ''engine_started'', ''engine_stopped'', ''worktree_created'', ''worktree_cleanup'']"

definition GENESIS_HASH :: string where
  "GENESIS_HASH = replicate 64 CHR ''0''"

record audit_event =
  ev_event_id :: string
  ev_ts :: string
  ev_kind :: string
  ev_message_id :: "string option"
  ev_from :: "string option"
  ev_to :: "string option"
  ev_outcome :: string
  ev_detail :: "json option"
  ev_prev_hash :: string
  ev_hash :: string

record audit_draft =
  dr_kind :: string
  dr_message_id :: "string option"
  dr_from :: "string option"
  dr_to :: "string option"
  dr_outcome :: string
  dr_detail :: "json option"

definition assert_kind :: "string \<Rightarrow> unit res" where
  "assert_kind k = (if k \<in> set AUDIT_KINDS then Inr () else Inl Internal)"

definition json_opt :: "string option \<Rightarrow> json" where
  "json_opt x = (case x of None \<Rightarrow> JNull | Some s \<Rightarrow> JStr s)"

text \<open>\<open>serde_json::to_value\<close> of the event: a map in key order.\<close>

definition event_json :: "audit_event \<Rightarrow> json" where
  "event_json e = JObj
    [(''detail'', case ev_detail e of None \<Rightarrow> JNull | Some v \<Rightarrow> v),
     (''event_id'', JStr (ev_event_id e)), (''from'', json_opt (ev_from e)),
     (''hash'', JStr (ev_hash e)), (''kind'', JStr (ev_kind e)),
     (''message_id'', json_opt (ev_message_id e)), (''outcome'', JStr (ev_outcome e)),
     (''prev_hash'', JStr (ev_prev_hash e)), (''to'', json_opt (ev_to e)), (''ts'', JStr (ev_ts e))]"

fun json_remove :: "string \<Rightarrow> json \<Rightarrow> json" where
  "json_remove k (JObj kvs) = JObj (filter (\<lambda>(x, _). x \<noteq> k) kvs)"
| "json_remove k v = v"

fun json_get :: "string \<Rightarrow> json \<Rightarrow> json option" where
  "json_get k (JObj kvs) = map_of kvs k"
| "json_get k v = None"

definition json_str :: "string \<Rightarrow> json \<Rightarrow> string option" where
  "json_str k v = (case json_get k v of Some (JStr s) \<Rightarrow> Some s | _ \<Rightarrow> None)"

definition str_or :: "string \<Rightarrow> string option \<Rightarrow> string" where
  "str_or d x = (case x of None \<Rightarrow> d | Some s \<Rightarrow> s)"

definition hex_digit :: "nat \<Rightarrow> char" where
  "hex_digit d = char_of (if d < 10 then 48 + d else 87 + d)"

definition hex_encode :: "8 word list \<Rightarrow> string" where
  "hex_encode bytes = concat (map (\<lambda>b. [hex_digit (unat b div 16), hex_digit (unat b mod 16)]) bytes)"

definition hex_sha256 :: "codec \<Rightarrow> string \<Rightarrow> string" where
  "hex_sha256 C s = hex_encode (cd_sha C s)"

definition NL :: char where "NL = CHR 0x0A"
definition CR :: char where "CR = CHR 0x0D"

definition strip_cr :: "string \<Rightarrow> string" where
  "strip_cr l = (if l \<noteq> [] \<and> last l = CR then butlast l else l)"

text \<open>Rust's \<open>str::lines\<close>.\<close>

function rust_lines :: "string \<Rightarrow> string list" where
  "rust_lines s =
    (if s = [] then []
     else let l = takeWhile (\<lambda>c. c \<noteq> NL) s; rest = dropWhile (\<lambda>c. c \<noteq> NL) s in
       if rest = [] then [l] else strip_cr l # rust_lines (tl rest))"
  by auto
termination
proof (relation "measure length", goal_cases)
  case (2 s l rest)
  then have "rest \<noteq> []" "length rest \<le> length s" by (simp_all add: length_dropWhile_le)
  then show ?case by (cases rest) auto
qed simp

declare rust_lines.simps [simp del]

definition blank_line :: "string \<Rightarrow> bool" where
  "blank_line l = list_all (\<lambda>c. of_char c \<in> {9, 10, 11, 12, 13, 32 :: nat}) l"

definition event_lines :: "string \<Rightarrow> string list" where
  "event_lines raw = filter (\<lambda>l. \<not> blank_line l) (rust_lines raw)"

record audit_chain =
  ac_head :: string

text \<open>\<open>None\<close> is an absent file.  \<open>audit_open\<close> fails when the last event does not parse.\<close>

definition audit_open :: "codec \<Rightarrow> string option \<Rightarrow> audit_chain option" where
  "audit_open C file =
    (case file of
      None \<Rightarrow> Some \<lparr>ac_head = GENESIS_HASH\<rparr>
    | Some raw \<Rightarrow>
        (if event_lines raw = [] then Some \<lparr>ac_head = GENESIS_HASH\<rparr>
         else case cd_parse C (last (event_lines raw)) of
            None \<Rightarrow> None
          | Some v \<Rightarrow> Some \<lparr>ac_head = str_or GENESIS_HASH (json_str ''hash'' v)\<rparr>))"

datatype io_fault = NoFault | OpenFails | WriteFails nat | SyncFails

definition seal_event :: "codec \<Rightarrow> string \<Rightarrow> string \<Rightarrow> audit_draft \<Rightarrow> string \<Rightarrow> audit_event" where
  "seal_event C event_id ts d prev =
    (let e = \<lparr>ev_event_id = event_id, ev_ts = ts, ev_kind = dr_kind d,
              ev_message_id = dr_message_id d, ev_from = dr_from d, ev_to = dr_to d,
              ev_outcome = dr_outcome d, ev_detail = dr_detail d,
              ev_prev_hash = prev, ev_hash = []\<rparr>;
         canonical = to_canonical_json (cd_esc C) (cd_num C) (json_remove ''hash'' (event_json e))
     in e\<lparr>ev_hash := hex_sha256 C (canonical @ prev)\<rparr>)"

definition event_line :: "codec \<Rightarrow> audit_event \<Rightarrow> string" where
  "event_line C e = cd_ser C (event_json e) @ [NL]"

definition file_text :: "string option \<Rightarrow> string" where
  "file_text f = (case f of None \<Rightarrow> [] | Some s \<Rightarrow> s)"

definition audit_append :: "codec \<Rightarrow> io_fault \<Rightarrow> string \<Rightarrow> string \<Rightarrow> audit_draft \<Rightarrow>
    (audit_event, audit_chain \<times> string option) op" where
  "audit_append C fault event_id ts d s =
    (case s of (chain, file) \<Rightarrow>
      (case assert_kind (dr_kind d) of
        Inl e \<Rightarrow> (Inl e, (chain, file))
      | Inr _ \<Rightarrow>
         (let event = seal_event C event_id ts d (ac_head chain);
              line = event_line C event in
          case fault of
            OpenFails \<Rightarrow> (Inl Internal, (chain, file))
          | WriteFails n \<Rightarrow>
              (Inl Internal, (chain, Some (file_text file @ take (min n (length line - 1)) line)))
          | SyncFails \<Rightarrow> (Inl Internal, (chain, Some (file_text file @ line)))
          | NoFault \<Rightarrow>
              (Inr event, (chain\<lparr>ac_head := ev_hash event\<rparr>, Some (file_text file @ line))))))"

datatype verify_result = VerifyOk string nat | VerifyBroken string nat

fun verify_lines :: "codec \<Rightarrow> string \<Rightarrow> nat \<Rightarrow> string list \<Rightarrow> verify_result" where
  "verify_lines C prev i [] = VerifyOk prev i"
| "verify_lines C prev i (line # rest) =
    (case cd_parse C line of
      None \<Rightarrow> VerifyBroken [] i
    | Some v \<Rightarrow>
       (let hash = str_or [] (json_str ''hash'' v);
            prev_hash = str_or [] (json_str ''prev_hash'' v);
            canonical = to_canonical_json (cd_esc C) (cd_num C) (json_remove ''hash'' v)
        in if hex_sha256 C (canonical @ prev_hash) \<noteq> hash \<or> prev_hash \<noteq> prev
           then VerifyBroken (str_or [] (json_str ''event_id'' v)) i
           else verify_lines C hash (Suc i) rest))"

datatype audit_file = Absent | Unreadable | Content string

definition audit_verify :: "codec \<Rightarrow> audit_file \<Rightarrow> verify_result" where
  "audit_verify C file =
    (case file of
      Absent \<Rightarrow> VerifyOk GENESIS_HASH 0
    | Unreadable \<Rightarrow> VerifyBroken [] 0
    | Content raw \<Rightarrow> verify_lines C GENESIS_HASH 0 (event_lines raw))"

definition as_audit_file :: "string option \<Rightarrow> audit_file" where
  "as_audit_file f = (case f of None \<Rightarrow> Absent | Some s \<Rightarrow> Content s)"

section \<open>Appending and verifying\<close>

text \<open>What the JSON library does on one event: it prints on one line and parses back.\<close>

definition line_ok :: "codec \<Rightarrow> audit_event \<Rightarrow> bool" where
  "line_ok C e \<longleftrightarrow> (let l = cd_ser C (event_json e) in
     NL \<notin> set l \<and> last l \<noteq> CR \<and> \<not> blank_line l \<and> cd_parse C l = Some (event_json e))"

definition event_hash :: "codec \<Rightarrow> audit_event \<Rightarrow> string" where
  "event_hash C e =
    hex_sha256 C (to_canonical_json (cd_esc C) (cd_num C) (json_remove ''hash'' (event_json e))
      @ ev_prev_hash e)"

fun linked :: "codec \<Rightarrow> string \<Rightarrow> audit_event list \<Rightarrow> string \<Rightarrow> bool" where
  "linked C p [] h \<longleftrightarrow> p = h"
| "linked C p (e # es) h \<longleftrightarrow>
    ev_prev_hash e = p \<and> ev_hash e = event_hash C e \<and> linked C (ev_hash e) es h"

lemma linked_append:
  "linked C p (es @ fs) h \<longleftrightarrow> (\<exists>m. linked C p es m \<and> linked C m fs h)"
  by (induction es arbitrary: p) auto

lemma rust_lines_concat:
  "\<forall>l \<in> set ls. NL \<notin> set l \<Longrightarrow> rust_lines (concat (map (\<lambda>l. l @ [NL]) ls)) = map strip_cr ls"
proof (induction ls)
  case Nil
  show ?case by (simp add: rust_lines.simps)
next
  case (Cons l ls)
  let ?rest = "concat (map (\<lambda>l. l @ [NL]) ls)"
  have "takeWhile (\<lambda>c. c \<noteq> NL) (l @ NL # ?rest) = l" "dropWhile (\<lambda>c. c \<noteq> NL) (l @ NL # ?rest) = NL # ?rest"
    using Cons.prems by (auto simp: takeWhile_append dropWhile_append)
  then have "rust_lines (l @ NL # ?rest) = strip_cr l # rust_lines ?rest"
    by (subst rust_lines.simps) (simp add: Let_def)
  with Cons show ?case by simp
qed

definition log_text :: "codec \<Rightarrow> audit_event list \<Rightarrow> string" where
  "log_text C es = concat (map (event_line C) es)"

lemma event_lines_log:
  assumes "\<forall>e \<in> set es. line_ok C e"
  shows "event_lines (log_text C es) = map (\<lambda>e. cd_ser C (event_json e)) es"
proof -
  let ?ls = "map (\<lambda>e. cd_ser C (event_json e)) es"
  have "\<forall>l \<in> set ?ls. NL \<notin> set l" using assms by (auto simp: line_ok_def Let_def)
  from rust_lines_concat [OF this] have "rust_lines (log_text C es) = map strip_cr ?ls"
    by (simp add: log_text_def event_line_def [abs_def] comp_def)
  moreover have "map strip_cr ?ls = ?ls"
    using assms by (auto simp: line_ok_def Let_def strip_cr_def)
  moreover have "filter (\<lambda>l. \<not> blank_line l) ?ls = ?ls"
    using assms by (auto simp: line_ok_def Let_def filter_id_conv)
  ultimately show ?thesis unfolding event_lines_def by (metis (no_types, lifting))
qed

lemma event_fields [simp]:
  "json_str ''hash'' (event_json e) = Some (ev_hash e)"
  "json_str ''prev_hash'' (event_json e) = Some (ev_prev_hash e)"
  "json_str ''event_id'' (event_json e) = Some (ev_event_id e)"
  by (simp_all add: json_str_def event_json_def)

lemma str_or_Some [simp]: "str_or d (Some s) = s"
  by (simp add: str_or_def)

text \<open>\<open>verify\<close> accepts a log of printed events exactly when they are linked; the first event that
  is not stops the walk.\<close>

lemma verify_linked:
  "\<forall>e \<in> set es. line_ok C e \<Longrightarrow> linked C p es h \<Longrightarrow>
   verify_lines C p i (map (\<lambda>e. cd_ser C (event_json e)) es) = VerifyOk h (i + length es)"
  by (induction es arbitrary: p i) (auto simp: line_ok_def Let_def event_hash_def)

lemma verify_lines_append:
  "verify_lines C p i (xs @ ys) =
    (case verify_lines C p i xs of
      VerifyOk h n \<Rightarrow> verify_lines C h n ys | VerifyBroken e n \<Rightarrow> VerifyBroken e n)"
  by (induction C p i xs rule: verify_lines.induct) (auto simp: Let_def split: option.splits)

lemma verify_lines_count: "verify_lines C p i xs = VerifyOk h n \<Longrightarrow> n = i + length xs"
  by (induction C p i xs rule: verify_lines.induct)
    (auto simp: Let_def split: option.splits if_splits)

lemma seal_event_sealed:
  "ev_prev_hash (seal_event C i ts d p) = p \<and>
   ev_hash (seal_event C i ts d p) = event_hash C (seal_event C i ts d p)"
  by (simp add: seal_event_def event_hash_def event_json_def Let_def)

text \<open>A run of appends without I/O faults: the events that were acknowledged.\<close>

fun audit_run :: "codec \<Rightarrow> (string \<times> string \<times> audit_draft) list \<Rightarrow> audit_chain \<times> string option \<Rightarrow>
    audit_event list \<times> (audit_chain \<times> string option)" where
  "audit_run C [] s = ([], s)"
| "audit_run C ((i, ts, d) # rest) s =
    (case audit_append C NoFault i ts d s of
      (Inl _, s') \<Rightarrow> audit_run C rest s'
    | (Inr e, s') \<Rightarrow> (case audit_run C rest s' of (es, t) \<Rightarrow> (e # es, t)))"

lemma audit_append_ok:
  "audit_append C NoFault i ts d (chain, fl) = (Inr e, s') \<Longrightarrow>
   e = seal_event C i ts d (ac_head chain) \<and>
   s' = (\<lparr>ac_head = ev_hash e\<rparr>, Some (file_text fl @ event_line C e))"
  by (auto simp: audit_append_def Let_def split: sum.splits)

lemma audit_append_refused:
  "audit_append C NoFault i ts d s = (Inl e, s') \<Longrightarrow> s' = s"
  by (auto simp: audit_append_def Let_def split: prod.splits sum.splits)

lemma audit_run_linked:
  "audit_run C ops (chain, fl) = (es, (chain', fl')) \<Longrightarrow>
   linked C (ac_head chain) es (ac_head chain') \<and> file_text fl' = file_text fl @ log_text C es \<and>
   (fl' = None \<longrightarrow> es = [] \<and> fl = None)"
proof (induction ops arbitrary: chain fl es)
  case Nil
  then show ?case by (auto simp: log_text_def)
next
  case (Cons op ops)
  obtain i ts d where op: "op = (i, ts, d)" by (cases op)
  obtain r s' where a: "audit_append C NoFault i ts d (chain, fl) = (r, s')" by (metis prod.exhaust)
  show ?case
  proof (cases r)
    case (Inl e)
    then have "s' = (chain, fl)" using a audit_append_refused by blast
    then show ?thesis using Cons.IH [of chain fl es] Cons.prems a Inl op by simp
  next
    case (Inr e)
    note e = audit_append_ok [OF a [unfolded Inr]]
    obtain es' where es: "es = e # es'"
      and run: "audit_run C ops (\<lparr>ac_head = ev_hash e\<rparr>, Some (file_text fl @ event_line C e)) =
        (es', (chain', fl'))"
      using Cons.prems a Inr e op by (auto split: prod.splits)
    from Cons.IH [OF run] show ?thesis
      using e es seal_event_sealed [of C i ts d "ac_head chain"]
      by (auto simp: log_text_def file_text_def)
  qed
qed

text \<open>C18: after any run of appends to a fresh chain (refused drafts included) the file verifies end to
  end, with as many events as were acknowledged and the writer's head; opening the file again
  after a restart resumes with that same head.\<close>

theorem appended_chain_verifies:
  assumes "audit_run C ops (\<lparr>ac_head = GENESIS_HASH\<rparr>, None) = (es, (chain, fl))"
    and "\<forall>e \<in> set es. line_ok C e"
  shows "audit_verify C (as_audit_file fl) = VerifyOk (ac_head chain) (length es) \<and>
    audit_open C fl = Some chain"
proof -
  from audit_run_linked [OF assms(1)]
  have l: "linked C GENESIS_HASH es (ac_head chain)" and t: "file_text fl = log_text C es"
    and n: "fl = None \<longrightarrow> es = []" by (auto simp: file_text_def)
  note lines = event_lines_log [OF assms(2)]
  show ?thesis
  proof (cases fl)
    case None
    with n l show ?thesis
      by (auto simp: audit_verify_def as_audit_file_def audit_open_def)
  next
    case (Some raw)
    then have raw: "raw = log_text C es" using t by (simp add: file_text_def)
    have "audit_verify C (as_audit_file fl) = VerifyOk (ac_head chain) (length es)"
      using verify_linked [OF assms(2) l] Some raw lines
      by (simp add: audit_verify_def as_audit_file_def)
    moreover have "audit_open C fl = Some chain"
    proof (cases es rule: rev_cases)
      case Nil
      with l Some raw lines show ?thesis by (simp add: audit_open_def)
    next
      case (snoc es' e)
      with l assms(2) Some raw lines show ?thesis
        by (auto simp: audit_open_def linked_append line_ok_def Let_def)
    qed
    ultimately show ?thesis ..
  qed
qed

text \<open>C30: a failed sync loses the chain.  When the line of an event was written but the sync failed,
  the writer keeps its old head while the event stays in the file: the next acknowledged append
  is linked to the old head, so from then on verification reports the file as broken at it.\<close>

theorem unsynced_append_breaks_chain:
  assumes run: "audit_run C ops (\<lparr>ac_head = GENESIS_HASH\<rparr>, None) = (es, (chain, fl))"
    and lost: "audit_append C SyncFails i1 t1 d1 (chain, fl) = (Inl e, s1)" "dr_kind d1 \<in> set AUDIT_KINDS"
    and ack: "audit_append C NoFault i2 t2 d2 s1 = (Inr e2, (chain2, fl2))"
    and ok: "\<forall>x \<in> set es \<union> {e2, seal_event C i1 t1 d1 (ac_head chain)}. line_ok C x"
    and hash: "ev_hash (seal_event C i1 t1 d1 (ac_head chain)) \<noteq> ac_head chain"
  shows "audit_verify C (as_audit_file fl2) = VerifyBroken (ev_event_id e2) (Suc (length es))"
proof -
  let ?e1 = "seal_event C i1 t1 d1 (ac_head chain)"
  from audit_run_linked [OF run]
  have l: "linked C GENESIS_HASH es (ac_head chain)" and t: "file_text fl = log_text C es"
    by (auto simp: file_text_def)
  have s1: "s1 = (chain, Some (file_text fl @ event_line C ?e1))"
    using lost by (auto simp: audit_append_def assert_kind_def Let_def)
  from audit_append_ok [OF ack [unfolded s1]] t
  have e2: "e2 = seal_event C i2 t2 d2 (ac_head chain)"
    and fl2: "fl2 = Some (log_text C (es @ [?e1, e2]))"
    by (auto simp: log_text_def file_text_def)
  have ok': "\<forall>x \<in> set (es @ [?e1, e2]). line_ok C x" using ok by auto
  have "linked C GENESIS_HASH (es @ [?e1]) (ev_hash ?e1)"
    using l seal_event_sealed [of C i1 t1 d1 "ac_head chain"] by (auto simp: linked_append)
  from verify_linked [OF _ this, of 0] ok'
  have pre: "verify_lines C GENESIS_HASH 0 (map (\<lambda>e. cd_ser C (event_json e)) (es @ [?e1])) =
      VerifyOk (ev_hash ?e1) (Suc (length es))" by simp
  have p2: "ev_prev_hash e2 = ac_head chain" using e2 seal_event_sealed by blast
  have "cd_parse C (cd_ser C (event_json e2)) = Some (event_json e2)"
    using ok' by (simp add: line_ok_def Let_def)
  then have "verify_lines C (ev_hash ?e1) (Suc (length es)) [cd_ser C (event_json e2)] =
      VerifyBroken (ev_event_id e2) (Suc (length es))"
    using hash p2 by (simp add: Let_def)
  moreover have "map (\<lambda>e. cd_ser C (event_json e)) (es @ [?e1, e2]) =
      map (\<lambda>e. cd_ser C (event_json e)) (es @ [?e1]) @ [cd_ser C (event_json e2)]" by simp
  ultimately have "verify_lines C GENESIS_HASH 0 (map (\<lambda>e. cd_ser C (event_json e)) (es @ [?e1, e2])) =
      VerifyBroken (ev_event_id e2) (Suc (length es))"
    using pre verify_lines_append by (metis verify_result.simps(5))
  then show ?thesis
    by (simp only: fl2 as_audit_file_def option.case audit_verify_def audit_file.case
        event_lines_log [OF ok'])
qed

text \<open>A codec for the examples: events print as ``A'' or ``B'' by their identifier.\<close>

definition example_draft :: audit_draft where
  "example_draft = \<lparr>dr_kind = ''enqueued'', dr_message_id = None, dr_from = None, dr_to = None,
     dr_outcome = ''ok'', dr_detail = None\<rparr>"

definition base_codec :: codec where
  "base_codec = \<lparr>cd_sha = (\<lambda>_. 7 # replicate 31 7), cd_esc = plain_esc, cd_num = plain_num,
     cd_ser = (\<lambda>v. str_or [] (json_str ''event_id'' v)), cd_parse = (\<lambda>_. None)\<rparr>"

definition event_A :: audit_event where
  "event_A = seal_event base_codec ''A'' ''t'' example_draft GENESIS_HASH"

definition event_B :: audit_event where
  "event_B = seal_event base_codec ''B'' ''t'' example_draft GENESIS_HASH"

definition log_codec :: codec where
  "log_codec = base_codec\<lparr>cd_parse := (\<lambda>l. if l = ''A'' then Some (event_json event_A)
     else if l = ''B'' then Some (event_json event_B) else None)\<rparr>"

lemma log_codec_seal: "seal_event log_codec i t d p = seal_event base_codec i t d p"
  by (simp add: seal_event_def log_codec_def base_codec_def hex_sha256_def Let_def)

lemma event_AB_id: "ev_event_id event_A = ''A''" "ev_event_id event_B = ''B''"
  by (simp_all add: event_A_def event_B_def seal_event_def Let_def)

lemma event_AB_ok: "line_ok log_codec event_A" "line_ok log_codec event_B"
  by (simp_all add: line_ok_def log_codec_def base_codec_def event_AB_id NL_def CR_def blank_line_def)

lemma log_run:
  "audit_run log_codec [(''A'', ''t'', example_draft)] (\<lparr>ac_head = GENESIS_HASH\<rparr>, None) =
    ([event_A], (\<lparr>ac_head = ev_hash event_A\<rparr>, Some (event_line log_codec event_A)))"
  by (simp add: audit_append_def assert_kind_def AUDIT_KINDS_def example_draft_def [THEN arg_cong, of dr_kind]
      log_codec_seal event_A_def file_text_def Let_def)

theorem appended_chain_verifies_witness:
  "audit_verify log_codec (Content (event_line log_codec event_A)) = VerifyOk (ev_hash event_A) 1"
  using appended_chain_verifies [OF log_run] event_AB_ok by (simp add: as_audit_file_def)

theorem unsynced_append_breaks_chain_witness:
  "audit_verify log_codec (Content (event_line log_codec event_A @ event_line log_codec event_B)) =
    VerifyBroken ''B'' 1"
proof -
  let ?f = "(\<lparr>ac_head = GENESIS_HASH\<rparr>, None) :: audit_chain \<times> string option"
  have r: "audit_run log_codec [] ?f = ([], ?f)" by simp
  have k: "dr_kind example_draft \<in> set AUDIT_KINDS" by (simp add: example_draft_def AUDIT_KINDS_def)
  have l: "audit_append log_codec SyncFails ''A'' ''t'' example_draft ?f =
      (Inl Internal, (\<lparr>ac_head = GENESIS_HASH\<rparr>, Some (event_line log_codec event_A)))"
    using k by (simp add: audit_append_def assert_kind_def log_codec_seal event_A_def file_text_def Let_def)
  have a: "audit_append log_codec NoFault ''B'' ''t'' example_draft
      (\<lparr>ac_head = GENESIS_HASH\<rparr>, Some (event_line log_codec event_A)) =
      (Inr event_B, (\<lparr>ac_head = ev_hash event_B\<rparr>,
         Some (event_line log_codec event_A @ event_line log_codec event_B)))"
    using k by (simp add: audit_append_def assert_kind_def log_codec_seal event_B_def file_text_def Let_def)
  have "take 2 (ev_hash event_A) = [hex_digit 0, hex_digit 7]"
    by (simp add: event_A_def seal_event_def Let_def hex_sha256_def base_codec_def hex_encode_def
        take_Cons_numeral)
  moreover have "take 2 GENESIS_HASH = [CHR ''0'', CHR ''0'']"
    by (simp add: GENESIS_HASH_def numeral_2_eq_2)
  moreover have "hex_digit 7 \<noteq> CHR ''0''"
    by (simp add: hex_digit_def char_of_def bit_numeral_rec)
  ultimately have h: "ev_hash event_A \<noteq> GENESIS_HASH" by auto
  show ?thesis
    using unsynced_append_breaks_chain [OF r l k a] event_AB_ok event_AB_id h
    by (simp add: log_codec_seal event_A_def [symmetric] as_audit_file_def)
qed

section \<open>Tamper evidence\<close>

definition preimage :: "codec \<Rightarrow> json \<Rightarrow> string" where
  "preimage C v =
    to_canonical_json (cd_esc C) (cd_num C) (json_remove ''hash'' v)
      @ str_or [] (json_str ''prev_hash'' v)"

fun parse_all :: "codec \<Rightarrow> string list \<Rightarrow> json list option" where
  "parse_all C [] = Some []"
| "parse_all C (l # ls) =
    (case cd_parse C l of None \<Rightarrow> None | Some v \<Rightarrow> map_option ((#) v) (parse_all C ls))"

definition file_events :: "codec \<Rightarrow> audit_file \<Rightarrow> json list" where
  "file_events C file =
    (case file of Content raw \<Rightarrow>
        (case parse_all C (event_lines raw) of Some vs \<Rightarrow> vs | None \<Rightarrow> [])
      | _ \<Rightarrow> [])"

text \<open>The chain condition on parsed events, from the last one back.\<close>

definition v_hash :: "json \<Rightarrow> string" where "v_hash v = str_or [] (json_str ''hash'' v)"
definition v_prev :: "json \<Rightarrow> string" where "v_prev v = str_or [] (json_str ''prev_hash'' v)"

fun value_chain :: "codec \<Rightarrow> string \<Rightarrow> json list \<Rightarrow> string \<Rightarrow> bool" where
  "value_chain C p [] h \<longleftrightarrow> p = h"
| "value_chain C p (v # vs) h \<longleftrightarrow>
    v_prev v = p \<and> v_hash v = hex_sha256 C (preimage C v) \<and> value_chain C (v_hash v) vs h"

lemma value_chain_snoc:
  "value_chain C p (vs @ [v]) h \<longleftrightarrow>
    value_chain C p vs (v_prev v) \<and> v_hash v = hex_sha256 C (preimage C v) \<and> v_hash v = h"
  by (induction vs arbitrary: p) auto

lemma verify_value_chain:
  "verify_lines C p i ls = VerifyOk h n \<Longrightarrow>
   \<exists>vs. parse_all C ls = Some vs \<and> value_chain C p vs h \<and> length vs = length ls"
proof (induction ls arbitrary: p i)
  case (Cons l ls)
  then obtain v where v: "cd_parse C l = Some v" by (auto split: option.splits)
  with Cons.prems have "hex_sha256 C (preimage C v) = v_hash v" "v_prev v = p"
    "verify_lines C (v_hash v) (Suc i) ls = VerifyOk h n"
    by (auto simp: Let_def v_hash_def v_prev_def preimage_def split: if_splits)
  with Cons.IH v show ?case by fastforce
qed simp

definition sha_collision :: "codec \<Rightarrow> json list \<Rightarrow> json list \<Rightarrow> bool" where
  "sha_collision C vs ws \<longleftrightarrow>
    (\<exists>(v, w) \<in> set (zip vs ws). preimage C v \<noteq> preimage C w \<and>
       cd_sha C (preimage C v) = cd_sha C (preimage C w))"

definition same_event :: "json \<Rightarrow> json \<Rightarrow> bool" where
  "same_event v w \<longleftrightarrow> v_hash v = v_hash w \<and> v_prev v = v_prev w \<and>
    sorted_json (json_remove ''hash'' v) = sorted_json (json_remove ''hash'' w)"

text \<open>What is used of the two libraries: SHA-256 has 32 bytes, a parsed document has distinct keys
  and its floats do not print as integers.\<close>

definition codec_ok :: "codec \<Rightarrow> bool" where
  "codec_ok C \<longleftrightarrow> json_text_ok (cd_esc C) (cd_num C) \<and> (\<forall>x. length (cd_sha C x) = 32) \<and>
    (\<forall>l v. cd_parse C l = Some v \<longrightarrow> json_wf (cd_num C) v)"

lemma hex_digit_inj: "a < 16 \<Longrightarrow> b < 16 \<Longrightarrow> hex_digit a = hex_digit b \<Longrightarrow> a = b"
proof -
  have of: "of_char (hex_digit d) = (if d < 10 then 48 + d else 87 + d :: nat)" if "d < 16" for d
    using that by (simp add: hex_digit_def)
  assume ab: "a < 16" "b < 16" and "hex_digit a = hex_digit b"
  then have "of_char (hex_digit a) = (of_char (hex_digit b) :: nat)" by simp
  then show "a = b" using ab by (auto simp: of split: if_splits)
qed

lemma length_hex_encode: "length (hex_encode bs) = 2 * length bs"
  by (induction bs) (auto simp: hex_encode_def)

lemma hex_encode_inj: "hex_encode bs = hex_encode cs \<Longrightarrow> bs = cs"
proof (induction bs arbitrary: cs)
  case Nil
  then show ?case by (cases cs) (auto simp: hex_encode_def)
next
  case (Cons b bs)
  then obtain c cs' where c: "cs = c # cs'" by (cases cs) (auto simp: hex_encode_def)
  have lt: "unat (x :: 8 word) < 256" for x
  proof -
    have "unat x < 2 ^ LENGTH(8)" by (rule unsigned_less)
    then show ?thesis by simp
  qed
  have "unat b div 16 = unat c div 16" "unat b mod 16 = unat c mod 16"
    by (rule hex_digit_inj; use Cons.prems c lt [of b] lt [of c] in
        \<open>simp add: hex_encode_def less_mult_imp_div_less\<close>)+
  then have "b = c" by (metis div_mult_mod_eq word_unat_eq_iff)
  with Cons c show ?case by (simp add: hex_encode_def)
qed

lemma json_wf_remove: "json_wf num v \<Longrightarrow> json_wf num (json_remove k v)"
  by (cases v) (auto simp: list_all_iff distinct_map_filter)

lemma value_chain_unique:
  assumes C: "codec_ok C"
  shows "length vs = length ws \<Longrightarrow> value_chain C p vs h \<Longrightarrow> value_chain C p ws h \<Longrightarrow>
    length p = 64 \<Longrightarrow> \<forall>v \<in> set vs \<union> set ws. json_wf (cd_num C) v \<Longrightarrow> \<not> sha_collision C vs ws \<Longrightarrow>
    list_all2 same_event vs ws"
proof (induction vs arbitrary: ws h rule: rev_induct)
  case (snoc v vs)
  from snoc.prems(1) obtain w ws' where w: "ws = ws' @ [w]"
    by (cases ws rule: rev_cases) auto
  have len: "length vs = length ws'" using snoc.prems(1) w by simp
  from snoc.prems(2,3) w have chains: "value_chain C p vs (v_prev v)" "value_chain C p ws' (v_prev w)"
    and h: "hex_sha256 C (preimage C v) = h" "hex_sha256 C (preimage C w) = h"
      "v_hash v = h" "v_hash w = h"
    by (auto simp: value_chain_snoc)
  have "cd_sha C (preimage C v) = cd_sha C (preimage C w)"
    using h hex_encode_inj unfolding hex_sha256_def by metis
  moreover have "(v, w) \<in> set (zip (vs @ [v]) ws)" using len w by simp
  ultimately have pre: "preimage C v = preimage C w"
    using snoc.prems(6) unfolding sha_collision_def by blast
  have hl: "length (hex_sha256 C x) = 64" for x
    using C by (simp add: hex_sha256_def length_hex_encode codec_ok_def)
  have chain_len: "length q = 64" if "value_chain C p us q" for us q
    using that snoc.prems(4) hl
    by (cases us rule: rev_cases) (auto simp: value_chain_snoc)
  have "length (v_prev v) = length (v_prev w)" using chains chain_len by metis
  then have eqs: "to_canonical_json (cd_esc C) (cd_num C) (json_remove ''hash'' v) =
      to_canonical_json (cd_esc C) (cd_num C) (json_remove ''hash'' w)" "v_prev v = v_prev w"
    using pre unfolding preimage_def v_prev_def [symmetric] by (simp_all add: append_eq_append_conv)
  have "json_wf (cd_num C) (json_remove ''hash'' v)" "json_wf (cd_num C) (json_remove ''hash'' w)"
    using snoc.prems(5) w by (auto intro: json_wf_remove)
  with eqs(1) C have "sorted_json (json_remove ''hash'' v) = sorted_json (json_remove ''hash'' w)"
    using canonical_iff [of "cd_esc C" "cd_num C"] by (simp add: codec_ok_def)
  then have "same_event v w" using h eqs(2) by (simp add: same_event_def)
  moreover have "\<not> sha_collision C vs ws'"
    using snoc.prems(6) len w by (auto simp: sha_collision_def)
  then have "list_all2 same_event vs ws'"
    using snoc.IH [OF len chains(1)] chains(2) eqs(2) snoc.prems(4,5) w by auto
  ultimately show ?case using len w by (simp add: list_all2_appendI)
qed simp

lemma verify_file_events:
  assumes "audit_verify C f = VerifyOk h n"
  shows "value_chain C GENESIS_HASH (file_events C f) h \<and> length (file_events C f) = n"
proof (cases f)
  case (Content raw)
  with assms have v: "verify_lines C GENESIS_HASH 0 (event_lines raw) = VerifyOk h n"
    by (simp add: audit_verify_def)
  from verify_value_chain [OF v] verify_lines_count [OF v] Content show ?thesis
    by (auto simp: file_events_def)
qed (use assms in \<open>simp_all add: audit_verify_def file_events_def\<close>)

lemma parse_all_wf:
  "parse_all C ls = Some vs \<Longrightarrow> \<forall>l v. cd_parse C l = Some v \<longrightarrow> json_wf num v \<Longrightarrow>
   v \<in> set vs \<Longrightarrow> json_wf num v"
  by (induction ls arbitrary: vs) (auto split: option.splits)

lemma file_events_wf:
  "codec_ok C \<Longrightarrow> v \<in> set (file_events C f) \<Longrightarrow> json_wf (cd_num C) v"
  unfolding file_events_def codec_ok_def
  by (auto split: audit_file.splits option.splits dest!: parse_all_wf [OF sym])

text \<open>C13: tamper evidence.  Two audit files that both verify with the same head hash and the same
  number of events record the same events in the same order (up to the order of JSON keys), or a
  SHA-256 collision can be read off the two files.\<close>

theorem audit_tamper_evidence:
  assumes "codec_ok C"
    and "audit_verify C f1 = VerifyOk h n" and "audit_verify C f2 = VerifyOk h n"
  shows "list_all2 same_event (file_events C f1) (file_events C f2) \<or>
    sha_collision C (file_events C f1) (file_events C f2)"
  using value_chain_unique [OF assms(1), of "file_events C f1" "file_events C f2" GENESIS_HASH h]
    verify_file_events [OF assms(2)] verify_file_events [OF assms(3)] file_events_wf [OF assms(1)]
  by (auto simp: GENESIS_HASH_def)

text \<open>A codec whose digest is the length of the text, with two lines that hold one event.\<close>

definition toy_hash :: string where
  "toy_hash = hex_encode (replicate 31 0 @ [144])"

definition toy_codec :: codec where
  "toy_codec = \<lparr>cd_sha = (\<lambda>x. replicate 31 0 @ [of_nat (length x)]),
     cd_esc = plain_esc, cd_num = plain_num, cd_ser = (\<lambda>_. ''A''),
     cd_parse = (\<lambda>l. if l = ''A'' then Some (JObj [(''hash'', JStr toy_hash), (''prev_hash'', JStr GENESIS_HASH)])
        else if l = ''B'' then Some (JObj [(''prev_hash'', JStr GENESIS_HASH), (''hash'', JStr toy_hash)])
        else None)\<rparr>"

lemma length_plain_esc_zeros: "length (plain_esc (replicate n CHR ''0'')) = n + 2"
  by (induction n) (simp_all add: plain_esc_def esc_char_def)

lemma toy_codec_ok: "codec_ok toy_codec"
  using plain_text_ok by (auto simp: codec_ok_def toy_codec_def split: if_splits)

lemma toy_lines: "event_lines (l @ [NL]) = [l]" if "l = ''A'' \<or> l = ''B''"
proof -
  have "rust_lines (concat (map (\<lambda>l. l @ [NL]) [l])) = map strip_cr [l]"
    by (rule rust_lines_concat) (use that in \<open>auto simp: NL_def\<close>)
  with that show ?thesis by (auto simp: event_lines_def strip_cr_def CR_def blank_line_def)
qed

lemma toy_digest:
  "hex_sha256 toy_codec (to_canonical_json plain_esc plain_num
     (JObj [(''prev_hash'', JStr GENESIS_HASH)]) @ GENESIS_HASH) = toy_hash"
proof -
  have "length (plain_esc ''prev_hash'') = 11" by (simp add: plain_esc_def esc_char_def)
  then show ?thesis
    by (simp add: hex_sha256_def toy_codec_def toy_hash_def to_canonical_json_def
        intersperse_comma_def sort_key_def length_plain_esc_zeros GENESIS_HASH_def)
qed

lemma toy_verifies:
  "audit_verify toy_codec (Content (''A'' @ [NL])) = VerifyOk toy_hash 1"
  "audit_verify toy_codec (Content (''B'' @ [NL])) = VerifyOk toy_hash 1"
  using toy_digest unfolding audit_verify_def audit_file.case toy_lines [OF disjI1 [OF refl]]
    toy_lines [OF disjI2 [OF refl]]
  by (simp_all add: json_str_def str_or_def) (simp_all add: toy_codec_def json_str_def str_or_def)

theorem audit_tamper_evidence_witness:
  "list_all2 same_event (file_events toy_codec (Content (''A'' @ [NL])))
      (file_events toy_codec (Content (''B'' @ [NL]))) \<or>
   sha_collision toy_codec (file_events toy_codec (Content (''A'' @ [NL])))
      (file_events toy_codec (Content (''B'' @ [NL])))"
  by (rule audit_tamper_evidence [OF toy_codec_ok toy_verifies])

section \<open>The audit log as its clients see it\<close>

text \<open>
  The rest of the daemon only appends drafts and looks at whether the append succeeded.  An
  \<open>audit_log\<close> is the list of acknowledged drafts with the failures of the coming appends;
  the lemmas below relate it to the chain.
\<close>

record audit_log =
  al_events :: "audit_draft list"
  al_faults :: "bool list"

definition audit_emit :: "audit_draft \<Rightarrow> (unit, audit_log) op" where
  "audit_emit d log =
    (case assert_kind (dr_kind d) of
      Inl e \<Rightarrow> (Inl e, log)
    | Inr _ \<Rightarrow>
        (case al_faults log of
          True # fs \<Rightarrow> (Inl Internal, log\<lparr>al_faults := fs\<rparr>)
        | _ \<Rightarrow> (Inr (), log\<lparr>al_events := al_events log @ [d], al_faults := tl (al_faults log)\<rparr>)))"

definition draft_of :: "audit_event \<Rightarrow> audit_draft" where
  "draft_of e = \<lparr>dr_kind = ev_kind e, dr_message_id = ev_message_id e, dr_from = ev_from e,
     dr_to = ev_to e, dr_outcome = ev_outcome e, dr_detail = ev_detail e\<rparr>"

text \<open>What a client relies on: an acknowledged draft is recorded once, at the end; a failed one is not.\<close>

locale audit_sink =
  fixes emit :: "audit_draft \<Rightarrow> 's \<Rightarrow> (bus_error + 'a) \<times> 's"
    and events :: "'s \<Rightarrow> audit_draft list"
  assumes emit_ok: "emit d s = (Inr x, s') \<Longrightarrow> events s' = events s @ [d]"
    and emit_failed: "emit d s = (Inl e, s') \<Longrightarrow> events s' = events s"
    and emit_kind: "dr_kind d \<notin> set AUDIT_KINDS \<Longrightarrow> \<exists>e. fst (emit d s) = Inl e"
begin

lemma events_prefix: "\<exists>ds. events (snd (emit d s)) = events s @ ds \<and> set ds \<subseteq> {d}"
  by (cases "emit d s"; cases "fst (emit d s)") (use emit_ok emit_failed in fastforce)+

lemma only_known_kinds:
  "\<forall>d \<in> set (events s). dr_kind d \<in> set AUDIT_KINDS \<Longrightarrow>
   \<forall>d \<in> set (events (snd (emit x s))). dr_kind d \<in> set AUDIT_KINDS"
proof (cases "emit x s")
  case (Pair r s')
  assume known: "\<forall>d \<in> set (events s). dr_kind d \<in> set AUDIT_KINDS"
  show ?thesis
  proof (cases r)
    case (Inl e)
    with Pair emit_failed [of x s e s'] known show ?thesis by simp
  next
    case (Inr a)
    with Pair emit_kind [of x s] have "dr_kind x \<in> set AUDIT_KINDS" by force
    with Pair Inr emit_ok [of x s a s'] known show ?thesis by auto
  qed
qed

end

lemma audit_emit_cases:
  "audit_emit d log = (r, log') \<Longrightarrow>
   (r = Inr () \<and> dr_kind d \<in> set AUDIT_KINDS \<and>
      log' = log\<lparr>al_events := al_events log @ [d], al_faults := tl (al_faults log)\<rparr>) \<or>
   (r = Inl Internal \<and> al_events log' = al_events log)"
  by (auto simp: audit_emit_def assert_kind_def split: if_splits list.splits bool.splits)

interpretation log_sink: audit_sink audit_emit al_events
proof
  show "audit_emit d s = (Inr x, s') \<Longrightarrow> al_events s' = al_events s @ [d]" for d s x s'
    by (drule audit_emit_cases) auto
  show "audit_emit d s = (Inl e, s') \<Longrightarrow> al_events s' = al_events s" for d s e s'
    by (drule audit_emit_cases) auto
  show "dr_kind d \<notin> set AUDIT_KINDS \<Longrightarrow> \<exists>e. fst (audit_emit d s) = Inl e" for d s
    by (simp add: audit_emit_def assert_kind_def)
qed

text \<open>The chain, with the acknowledged events beside it, is such a sink.\<close>

definition chain_emit :: "codec \<Rightarrow> io_fault \<Rightarrow> string \<Rightarrow> string \<Rightarrow> audit_draft \<Rightarrow>
    (audit_event, audit_event list \<times> audit_chain \<times> string option) op" where
  "chain_emit C fault i ts d s =
    (case s of (es, cf) \<Rightarrow>
      (case audit_append C fault i ts d cf of
        (Inl e, cf') \<Rightarrow> (Inl e, (es, cf')) | (Inr ev, cf') \<Rightarrow> (Inr ev, (es @ [ev], cf'))))"

lemma draft_of_seal: "draft_of (seal_event C i ts d p) = d"
  by (simp add: draft_of_def seal_event_def Let_def)

lemma audit_append_Inr:
  "audit_append C fault i ts d cf = (Inr e, cf') \<Longrightarrow>
   fault = NoFault \<and> draft_of e = d \<and> dr_kind d \<in> set AUDIT_KINDS"
  by (auto simp: audit_append_def assert_kind_def Let_def draft_of_seal
      split: prod.splits if_splits io_fault.splits)

interpretation chain_sink: audit_sink "chain_emit C fault i ts" "\<lambda>(es, cf). map draft_of es"
  for C fault i ts
proof
  fix d s x s' assume "chain_emit C fault i ts d s = (Inr x, s')"
  then show "(\<lambda>(es, cf). map draft_of es) s' = (\<lambda>(es, cf). map draft_of es) s @ [d]"
    by (auto simp: chain_emit_def split: prod.splits sum.splits dest!: audit_append_Inr)
next
  fix d s e s' assume "chain_emit C fault i ts d s = (Inl e, s')"
  then show "(\<lambda>(es, cf). map draft_of es) s' = (\<lambda>(es, cf). map draft_of es) s"
    by (auto simp: chain_emit_def split: prod.splits sum.splits)
next
  fix d :: audit_draft and s :: "audit_event list \<times> audit_chain \<times> string option"
  assume "dr_kind d \<notin> set AUDIT_KINDS"
  then show "\<exists>e. fst (chain_emit C fault i ts d s) = Inl e"
    by (auto simp: chain_emit_def audit_append_def assert_kind_def split: prod.splits)
qed

end
