(* ===== verification/Schema.thy ===== *)
theory Schema
  imports Types
begin

text \<open>
  The SQLite schema of \<open>Store::create_schema\<close>: one row record per table, and the enums that
  the TEXT columns hold (\<open>cells.rs\<close>, \<open>threads.rs\<close>, \<open>jobs.rs\<close>).  A column that the code writes
  through \<open>as_str\<close> and reads through \<open>from_db_str\<close> is typed by the enum; the round trips are
  proved here, and reading a raw thread or job row is modelled in Threads and Jobs.
\<close>

section \<open>Enums\<close>

datatype engine_kind = Codex | Claude | Pi | Fake

fun engine_kind_as_str :: "engine_kind \<Rightarrow> string" where
  "engine_kind_as_str Codex = ''codex''"
| "engine_kind_as_str Claude = ''claude''"
| "engine_kind_as_str Pi = ''pi''"
| "engine_kind_as_str Fake = ''fake''"

definition engine_kind_from_db_str :: "string \<Rightarrow> engine_kind option" where
  "engine_kind_from_db_str s =
    (if s = ''codex'' then Some Codex else if s = ''claude'' then Some Claude
     else if s = ''pi'' then Some Pi else if s = ''fake'' then Some Fake else None)"

datatype thread_state = TSpawning | TRunning | TIdle | TInterrupted | TTimeout | TFailedUnknown | TDone

fun thread_state_as_str :: "thread_state \<Rightarrow> string" where
  "thread_state_as_str TSpawning = ''spawning''"
| "thread_state_as_str TRunning = ''running''"
| "thread_state_as_str TIdle = ''idle''"
| "thread_state_as_str TInterrupted = ''interrupted''"
| "thread_state_as_str TTimeout = ''timeout''"
| "thread_state_as_str TFailedUnknown = ''failed_unknown''"
| "thread_state_as_str TDone = ''done''"

definition thread_state_from_db_str :: "string \<Rightarrow> thread_state option" where
  "thread_state_from_db_str s =
    (if s = ''spawning'' then Some TSpawning else if s = ''running'' then Some TRunning
     else if s = ''idle'' then Some TIdle else if s = ''interrupted'' then Some TInterrupted
     else if s = ''timeout'' then Some TTimeout
     else if s = ''failed_unknown'' then Some TFailedUnknown
     else if s = ''done'' then Some TDone else None)"

datatype job_state = JQueued | JLeased | JStarted | JFinished | JCancelled

fun job_state_as_str :: "job_state \<Rightarrow> string" where
  "job_state_as_str JQueued = ''queued''"
| "job_state_as_str JLeased = ''leased''"
| "job_state_as_str JStarted = ''started''"
| "job_state_as_str JFinished = ''finished''"
| "job_state_as_str JCancelled = ''cancelled''"

definition job_state_from_db_str :: "string \<Rightarrow> job_state option" where
  "job_state_from_db_str s =
    (if s = ''queued'' then Some JQueued else if s = ''leased'' then Some JLeased
     else if s = ''started'' then Some JStarted else if s = ''finished'' then Some JFinished
     else if s = ''cancelled'' then Some JCancelled else None)"

lemma engine_kind_round_trip [simp]: "engine_kind_from_db_str (engine_kind_as_str k) = Some k"
  by (cases k) (simp_all add: engine_kind_from_db_str_def)

lemma thread_state_round_trip [simp]: "thread_state_from_db_str (thread_state_as_str s) = Some s"
  by (cases s) (simp_all add: thread_state_from_db_str_def)

lemma job_state_round_trip [simp]: "job_state_from_db_str (job_state_as_str s) = Some s"
  by (cases s) (simp_all add: job_state_from_db_str_def)

section \<open>Rows\<close>

record delivery_row =
  d_envelope_id :: string
  d_recipient :: string
  d_state :: delivery_state
  d_attempts :: nat
  d_lease_until :: "int option"
  d_next_retry_at :: int

datatype ask_state = APending | AAnswered | AExpired

record ask_row =
  a_ask_id :: string
  a_message_id :: string
  a_from_cell :: string
  a_to_cell :: string
  a_expires_at :: string
  a_state :: ask_state
  a_reply_message_id :: "string option"
  a_reply_body_sha256 :: "string option"

record dedupe_row =
  dd_from_cell :: string
  dd_idempotency_key :: string
  dd_message_id :: string
  dd_ask_id :: "string option"
  dd_body_sha256 :: string
  dd_created_at :: string

record seq_row =
  sq_from_cell :: string
  sq_to_cell :: string
  sq_next_seq :: nat

record cell_def =
  c_name :: string
  c_engine :: engine_kind
  c_model :: "string option"
  c_profile :: "string option"
  c_cwd :: string
  c_worktree_default :: bool
  c_memory_device :: "string option"
  c_created_at :: string

record cell_thread =
  t_crewd_thread_id :: string
  t_cell_name :: string
  t_engine_kind :: engine_kind
  t_model :: "string option"
  t_profile :: "string option"
  t_engine_process_id :: "int option"
  t_engine_thread_id :: "string option"
  t_engine_turn_id :: "string option"
  t_engine_session_id :: "string option"
  t_cwd :: string
  t_worktree_path :: "string option"
  t_state :: thread_state
  t_generation :: nat
  t_created_by_principal :: string
  t_idempotency_key :: string
  t_created_at :: string
  t_updated_at :: string

record cell_job =
  j_job_id :: string
  j_crewd_thread_id :: string
  j_cell_name :: string
  j_payload :: string
  j_state :: job_state
  j_lease_expires_at :: "string option"
  j_accepted_by_engine_at :: "string option"
  j_engine_turn_id :: "string option"
  j_created_at :: string
  j_enqueue_seq :: nat

record spawn_row =
  sp_caller :: string
  sp_cell_name :: string
  sp_idempotency_key :: string
  sp_crewd_thread_id :: string
  sp_created_at :: string

record worktree_row =
  w_canonical_path :: string
  w_created_by_thread :: string
  w_state :: string
  w_created_at :: string

record journal_row =
  jr_thread_id :: string
  jr_seq :: nat
  jr_line :: string
  jr_at :: string

record store =
  s_envelopes :: "envelope list"
  s_deliveries :: "delivery_row list"
  s_asks :: "ask_row list"
  s_dedupe :: "dedupe_row list"
  s_seq_counters :: "seq_row list"
  s_cells :: "cell_def list"
  s_threads :: "cell_thread list"
  s_jobs :: "cell_job list"
  s_spawn_requests :: "spawn_row list"
  s_cell_locks :: "string list"
  s_worktrees :: "worktree_row list"
  s_journal :: "journal_row list"

definition empty_store :: store where
  "empty_store =
    \<lparr>s_envelopes = [], s_deliveries = [], s_asks = [], s_dedupe = [], s_seq_counters = [],
     s_cells = [], s_threads = [], s_jobs = [], s_spawn_requests = [], s_cell_locks = [],
     s_worktrees = [], s_journal = []\<rparr>"

lemma empty_store_sel [simp]:
  "s_envelopes empty_store = []" "s_deliveries empty_store = []" "s_asks empty_store = []"
  "s_dedupe empty_store = []" "s_seq_counters empty_store = []" "s_cells empty_store = []"
  "s_threads empty_store = []" "s_jobs empty_store = []" "s_spawn_requests empty_store = []"
  "s_cell_locks empty_store = []" "s_worktrees empty_store = []" "s_journal empty_store = []"
  by (simp_all add: empty_store_def)

text \<open>
  An explicit transaction (\<open>immediate_tx\<close>): the guard rolls the tables back when it is dropped
  without a commit, which is what every error inside the transaction does.  \<open>commit_or_rollback\<close>
  takes the database part of a state apart from the rest, whose effects stay.
\<close>

definition in_tx :: "('a, store) op \<Rightarrow> ('a, store) op" where
  "in_tx f s = (case f s of (Inl e, _) \<Rightarrow> (Inl e, s) | (Inr x, t) \<Rightarrow> (Inr x, t))"

lemma in_tx_Inl: "in_tx f s = (Inl e, t) \<Longrightarrow> t = s"
  by (auto simp: in_tx_def split: prod.splits sum.splits)

lemma in_tx_Inr: "in_tx f s = (Inr x, t) \<longleftrightarrow> f s = (Inr x, t)"
  by (auto simp: in_tx_def split: prod.splits sum.splits)

end
