(* ===== verification/Store.thy ===== *)
theory Store
  imports Schema
begin

text \<open>
  The bus tables of \<open>store.rs\<close>: envelopes, deliveries with their state machine, asks, submission
  dedupe and the per-pair sequence counters.  Only key violations and missing rows are database
  errors here; the hash of a body is a parameter \<open>sha\<close> (hex text).
\<close>

section \<open>Sequence counters and envelopes\<close>

definition next_seq :: "string \<Rightarrow> string \<Rightarrow> store \<Rightarrow> nat \<times> store" where
  "next_seq sender target s =
    (let hit = (\<lambda>r. sq_from_cell r = sender \<and> sq_to_cell r = target);
         rows = (if List.find hit (s_seq_counters s) = None
                 then s_seq_counters s @ [\<lparr>sq_from_cell = sender, sq_to_cell = target, sq_next_seq = 1\<rparr>]
                 else s_seq_counters s)
     in (case List.find hit rows of Some r \<Rightarrow> sq_next_seq r | None \<Rightarrow> 0,
         s\<lparr>s_seq_counters := update_rows hit (\<lambda>r. r\<lparr>sq_next_seq := sq_next_seq r + 1\<rparr>) rows\<rparr>))"

definition insert_envelope :: "envelope \<Rightarrow> store \<Rightarrow> store" where
  "insert_envelope env s = s\<lparr>s_envelopes := replace_row e_message_id env (s_envelopes s)\<rparr>"

definition get_envelope :: "string \<Rightarrow> store \<Rightarrow> envelope option" where
  "get_envelope message_id s = List.find (\<lambda>e. e_message_id e = message_id) (s_envelopes s)"

section \<open>Deliveries\<close>

definition delivery_key :: "delivery_row \<Rightarrow> string \<times> string" where
  "delivery_key d = (d_envelope_id d, d_recipient d)"

definition insert_delivery :: "string \<Rightarrow> string \<Rightarrow> store \<Rightarrow> store" where
  "insert_delivery message_id recipient s =
    s\<lparr>s_deliveries := replace_row delivery_key
        \<lparr>d_envelope_id = message_id, d_recipient = recipient, d_state = DQueued, d_attempts = 0,
         d_lease_until = None, d_next_retry_at = 0\<rparr> (s_deliveries s)\<rparr>"

definition pending_delivery :: "delivery_row \<Rightarrow> bool" where
  "pending_delivery d \<longleftrightarrow> d_state d \<in> {DQueued, DClaimed}"

definition pending_deliveries_count :: "string \<Rightarrow> store \<Rightarrow> nat" where
  "pending_deliveries_count recipient s =
    count_rows (\<lambda>d. d_recipient d = recipient \<and> pending_delivery d) (s_deliveries s)"

definition pending_deliveries_total :: "store \<Rightarrow> nat" where
  "pending_deliveries_total s = count_rows pending_delivery (s_deliveries s)"

definition find_delivery :: "string \<Rightarrow> string \<Rightarrow> store \<Rightarrow> delivery_row option" where
  "find_delivery message_id recipient s =
    List.find (\<lambda>d. delivery_key d = (message_id, recipient)) (s_deliveries s)"

definition update_delivery :: "string \<Rightarrow> string \<Rightarrow> (delivery_row \<Rightarrow> delivery_row) \<Rightarrow> store \<Rightarrow> store" where
  "update_delivery message_id recipient f s =
    s\<lparr>s_deliveries := update_rows (\<lambda>d. delivery_key d = (message_id, recipient)) f (s_deliveries s)\<rparr>"

definition delivery_state_of :: "string \<Rightarrow> string \<Rightarrow> store \<Rightarrow> delivery_state res" where
  "delivery_state_of message_id recipient s =
    (case find_delivery message_id recipient s of None \<Rightarrow> Inl Internal | Some d \<Rightarrow> Inr (d_state d))"

definition transition :: "string \<Rightarrow> string \<Rightarrow> delivery_state \<Rightarrow> (unit, store) op" where
  "transition message_id recipient target s =
    (case find_delivery message_id recipient s of
      None \<Rightarrow> (Inl Internal, s)
    | Some d \<Rightarrow>
        (if \<not> delivery_transition_allowed (d_state d) target then (Inl Internal, s)
         else (Inr (), update_delivery message_id recipient (\<lambda>d. d\<lparr>d_state := target\<rparr>) s)))"

text \<open>\<open>JOIN envelopes\<close>: a delivery without its envelope drops out.\<close>

definition join_envelope :: "store \<Rightarrow> delivery_row \<Rightarrow> (envelope \<times> string) list" where
  "join_envelope s d =
    (case get_envelope (d_envelope_id d) s of None \<Rightarrow> [] | Some e \<Rightarrow> [(e, d_recipient d)])"

definition release_leases :: "int \<Rightarrow> store \<Rightarrow> store" where
  "release_leases now s =
    s\<lparr>s_deliveries := update_rows
        (\<lambda>d. d_state d = DClaimed \<and> (case d_lease_until d of None \<Rightarrow> False | Some l \<Rightarrow> l \<le> now))
        (\<lambda>d. d\<lparr>d_state := DQueued, d_lease_until := None\<rparr>) (s_deliveries s)\<rparr>"

definition due_deliveries :: "int \<Rightarrow> nat \<Rightarrow> store \<Rightarrow> (envelope \<times> string) list" where
  "due_deliveries now n s =
    take n (concat (map (join_envelope s)
      (filter (\<lambda>d. d_state d = DQueued \<and> d_next_retry_at d \<le> now) (s_deliveries s))))"

definition claim_due :: "int \<Rightarrow> int \<Rightarrow> nat \<Rightarrow> store \<Rightarrow> (envelope \<times> string) list \<times> store" where
  "claim_due now lease_secs n s =
    (let s1 = release_leases now s; out = due_deliveries now n s1
     in (out, fold (\<lambda>(e, r). update_delivery (e_message_id e) r
            (\<lambda>d. d\<lparr>d_state := DClaimed, d_lease_until := Some (now + lease_secs)\<rparr>)) out s1))"

text \<open>\<open>u64::checked_shl\<close>: shifts by less than 64 drop the high bits, longer shifts are \<open>None\<close>.\<close>

definition checked_shl_or_max :: "nat \<Rightarrow> nat \<Rightarrow> nat" where
  "checked_shl_or_max base n = (if n < 64 then (base * 2 ^ n) mod 2 ^ 64 else U64_MAX)"

definition record_attempt_failure ::
  "nat \<Rightarrow> int \<Rightarrow> string \<Rightarrow> string \<Rightarrow> nat \<Rightarrow> nat \<Rightarrow> nat \<Rightarrow> (bool, store) op" where
  "record_attempt_failure now jitter message_id recipient max_attempts backoff_base backoff_cap s =
    (case find_delivery message_id recipient s of
      None \<Rightarrow> (Inl Internal, s)
    | Some d \<Rightarrow>
       (let new_attempts = d_attempts d + 1 in
        if max_attempts \<le> new_attempts
        then (Inr True, update_delivery message_id recipient
               (\<lambda>d. d\<lparr>d_state := DFailed, d_attempts := new_attempts\<rparr>) s)
        else
          (let delay = min backoff_cap (checked_shl_or_max backoff_base (new_attempts - 1));
               retry = int now + int delay + jitter
           in (Inr False, update_delivery message_id recipient
                (\<lambda>d. d\<lparr>d_state := DQueued, d_attempts := new_attempts, d_lease_until := None,
                   d_next_retry_at := retry\<rparr>) s))))"

definition expire_due :: "string \<Rightarrow> store \<Rightarrow> (string \<times> string) list \<times> store" where
  "expire_due now s =
    (let due = filter (\<lambda>d. d_state d \<in> {DQueued, DClaimed, DDelivered} \<and>
                  (case get_envelope (d_envelope_id d) s of
                     None \<Rightarrow> False | Some e \<Rightarrow> e_expires_at e \<le> now)) (s_deliveries s);
         out = map delivery_key (filter (\<lambda>d. delivery_transition_allowed (d_state d) DExpired) due)
     in (out, fold (\<lambda>(m, r). update_delivery m r (\<lambda>d. d\<lparr>d_state := DExpired\<rparr>)) out s))"

definition inbox :: "string \<Rightarrow> nat \<Rightarrow> store \<Rightarrow> (envelope list \<times> bool) \<times> store" where
  "inbox recipient limit s =
    (let rows = take (limit + 1) (sort_key e_seq (map fst (concat (map (join_envelope s)
            (filter (\<lambda>d. d_recipient d = recipient \<and> pending_delivery d) (s_deliveries s))))));
         chosen = take limit rows
     in ((chosen, limit < length rows),
         fold (\<lambda>e. update_delivery (e_message_id e) recipient
            (\<lambda>d. d\<lparr>d_state := DDelivered, d_lease_until := None\<rparr>)) chosen s))"

section \<open>Submission dedupe\<close>

definition dedupe_key :: "dedupe_row \<Rightarrow> string \<times> string" where
  "dedupe_key r = (dd_from_cell r, dd_idempotency_key r)"

definition dedupe_lookup :: "string \<Rightarrow> string \<Rightarrow> store \<Rightarrow> dedupe_row option" where
  "dedupe_lookup sender key s = List.find (\<lambda>r. dedupe_key r = (sender, key)) (s_dedupe s)"

definition dedupe_insert ::
  "nat \<Rightarrow> string \<Rightarrow> string \<Rightarrow> string \<Rightarrow> string option \<Rightarrow> string \<Rightarrow> store \<Rightarrow> store" where
  "dedupe_insert now sender key message_id ask_id body_sha s =
    s\<lparr>s_dedupe := replace_row dedupe_key
        \<lparr>dd_from_cell = sender, dd_idempotency_key = key, dd_message_id = message_id,
         dd_ask_id = ask_id, dd_body_sha256 = body_sha, dd_created_at = now_rfc3339 now\<rparr> (s_dedupe s)\<rparr>"

section \<open>Asks\<close>

definition insert_ask ::
  "string \<Rightarrow> string \<Rightarrow> string \<Rightarrow> string \<Rightarrow> string \<Rightarrow> store \<Rightarrow> store" where
  "insert_ask ask_id message_id sender target expires_at s =
    s\<lparr>s_asks := replace_row a_ask_id
        \<lparr>a_ask_id = ask_id, a_message_id = message_id, a_from_cell = sender, a_to_cell = target,
         a_expires_at = expires_at, a_state = APending, a_reply_message_id = None,
         a_reply_body_sha256 = None\<rparr> (s_asks s)\<rparr>"

definition get_ask :: "string \<Rightarrow> store \<Rightarrow> ask_row option" where
  "get_ask ask_id s = List.find (\<lambda>a. a_ask_id a = ask_id) (s_asks s)"

datatype reply_outcome = Recorded | DuplicateIdentical string | Conflict

definition reply_precheck ::
  "(string \<Rightarrow> string) \<Rightarrow> string \<Rightarrow> envelope \<Rightarrow> store \<Rightarrow> reply_outcome" where
  "reply_precheck sha ask_id reply_env s =
    (case get_ask ask_id s of
      None \<Rightarrow> Conflict
    | Some a \<Rightarrow>
        (if a_state a \<noteq> APending then
           (if a_reply_body_sha256 a = Some (sha (e_body reply_env))
            then DuplicateIdentical (case a_reply_message_id a of None \<Rightarrow> [] | Some m \<Rightarrow> m)
            else Conflict)
         else Recorded))"

definition commit_reply :: "(string \<Rightarrow> string) \<Rightarrow> string \<Rightarrow> envelope \<Rightarrow> store \<Rightarrow> store" where
  "commit_reply sha ask_id reply_env s =
    s\<lparr>s_asks := update_rows (\<lambda>a. a_ask_id a = ask_id)
        (\<lambda>a. a\<lparr>a_state := AAnswered, a_reply_message_id := Some (e_message_id reply_env),
           a_reply_body_sha256 := Some (sha (e_body reply_env))\<rparr>) (s_asks s)\<rparr>"

definition record_reply ::
  "(string \<Rightarrow> string) \<Rightarrow> string \<Rightarrow> envelope \<Rightarrow> store \<Rightarrow> reply_outcome \<times> store" where
  "record_reply sha ask_id reply_env s =
    (case reply_precheck sha ask_id reply_env s of
      Recorded \<Rightarrow> (Recorded, commit_reply sha ask_id reply_env s)
    | other \<Rightarrow> (other, s))"

definition pending_asks_count :: "string \<Rightarrow> store \<Rightarrow> nat" where
  "pending_asks_count requester s =
    count_rows (\<lambda>a. a_from_cell a = requester \<and> a_state a = APending) (s_asks s)"

definition open_asks_where_responder :: "string \<Rightarrow> store \<Rightarrow> nat" where
  "open_asks_where_responder cell s =
    count_rows (\<lambda>a. a_to_cell a = cell \<and> a_state a = APending) (s_asks s)"

definition open_asks_total :: "store \<Rightarrow> nat" where
  "open_asks_total s = count_rows (\<lambda>a. a_state a = APending) (s_asks s)"

definition expire_asks_due :: "string \<Rightarrow> store \<Rightarrow> string list \<times> store" where
  "expire_asks_due now s =
    (let ids = map a_ask_id (filter (\<lambda>a. a_state a = APending \<and> a_expires_at a \<le> now) (s_asks s))
     in (ids, fold (\<lambda>i s. s\<lparr>s_asks := update_rows (\<lambda>a. a_ask_id a = i)
            (\<lambda>a. a\<lparr>a_state := AExpired\<rparr>) (s_asks s)\<rparr>) ids s))"

section \<open>Tables\<close>

text \<open>The dedupe and asks tables are keyed tables.\<close>

interpretation dedupe: keyed_table
  "\<lambda>s (f, k). map_option (\<lambda>r. (dd_message_id r, dd_ask_id r, dd_body_sha256 r)) (dedupe_lookup f k s)"
  "\<lambda>(f, k) (m, a, b). dedupe_insert now f k m a b" for now
proof (unfold_locales, goal_cases)
  case (1 k v s)
  show ?case
    by (cases k; cases v)
      (simp add: dedupe_lookup_def dedupe_insert_def dedupe_key_def find_append find_filter_none replace_row_def)
next
  case (2 k' k v s)
  obtain f x m a b f' x' where k: "k = (f, x)" "v = (m, a, b)" "k' = (f', x')"
    by (cases k; cases v; cases k') auto
  with 2 have "(f', x') \<noteq> dedupe_key \<lparr>dd_from_cell = f, dd_idempotency_key = x, dd_message_id = m,
      dd_ask_id = a, dd_body_sha256 = b, dd_created_at = now_rfc3339 now\<rparr>"
    by (simp add: dedupe_key_def)
  from find_replace_row_other [where key = dedupe_key, OF this, of "s_dedupe s"] show ?case
    by (simp add: k dedupe_lookup_def dedupe_insert_def)
qed

interpretation asks: keyed_table
  "\<lambda>s k. map_option (\<lambda>a. (a_message_id a, a_from_cell a, a_to_cell a, a_expires_at a)) (get_ask k s)"
  "\<lambda>k (m, f, t, x). insert_ask k m f t x"
proof (unfold_locales, goal_cases)
  case (1 k v s)
  show ?case
    by (cases v) (simp add: get_ask_def insert_ask_def find_append find_filter_none replace_row_def)
next
  case (2 k' k v s)
  obtain m f t x where v: "v = (m, f, t, x)" by (cases v) auto
  from 2 have "k' \<noteq> a_ask_id \<lparr>a_ask_id = k, a_message_id = m, a_from_cell = f, a_to_cell = t,
      a_expires_at = x, a_state = APending, a_reply_message_id = None, a_reply_body_sha256 = None\<rparr>"
    by simp
  from find_replace_row_other [where key = a_ask_id, OF this, of "s_asks s"] show ?case
    by (simp add: v get_ask_def insert_ask_def)
qed

text \<open>Updating one delivery after the other is one update of all of them.\<close>

lemma fold_update_delivery:
  assumes "\<And>d. delivery_key (f d) = delivery_key d" "\<And>d. f (f d) = f d"
  shows "fold (\<lambda>(m, r). update_delivery m r f) ks s =
    s\<lparr>s_deliveries := update_rows (\<lambda>d. delivery_key d \<in> set ks) f (s_deliveries s)\<rparr>"
proof -
  have "fold (\<lambda>(m, r). update_delivery m r f) ks s =
      s\<lparr>s_deliveries := fold (\<lambda>k. update_rows (\<lambda>d. delivery_key d = k) f) ks (s_deliveries s)\<rparr>"
    by (induction ks arbitrary: s) (auto simp: update_delivery_def)
  then show ?thesis by (simp add: fold_update_rows [where key = delivery_key and f = f, OF assms])
qed

definition claim_key :: "envelope \<times> string \<Rightarrow> string \<times> string" where
  "claim_key x = (e_message_id (fst x), snd x)"

lemma fold_claims:
  "fold (\<lambda>(e, r). update_delivery (e_message_id e) r f) out s =
   fold (\<lambda>(m, r). update_delivery m r f) (map claim_key out) s"
  by (induction out arbitrary: s) (auto simp: claim_key_def)

lemma fold_inbox:
  "fold (\<lambda>e. update_delivery (e_message_id e) recipient f) es s =
   fold (\<lambda>(m, r). update_delivery m r f) (map (\<lambda>e. (e_message_id e, recipient)) es) s"
  by (induction es arbitrary: s) auto

lemma delivery_key_update [simp]:
  "delivery_key (d\<lparr>d_state := x\<rparr>) = delivery_key d"
  "delivery_key (d\<lparr>d_lease_until := l\<rparr>) = delivery_key d"
  "delivery_key (d\<lparr>d_attempts := a\<rparr>) = delivery_key d"
  "delivery_key (d\<lparr>d_next_retry_at := n\<rparr>) = delivery_key d"
  by (simp_all add: delivery_key_def)

lemma claim_due_eq:
  "claim_due now l n s =
    (let s1 = release_leases now s; out = due_deliveries now n s1
     in (out, s1\<lparr>s_deliveries := update_rows (\<lambda>d. delivery_key d \<in> claim_key ` set out)
          (\<lambda>d. d\<lparr>d_state := DClaimed, d_lease_until := Some (now + l)\<rparr>) (s_deliveries s1)\<rparr>))"
  by (simp add: claim_due_def Let_def fold_claims fold_update_delivery)

lemma expire_due_eq:
  "expire_due now s =
    (let due = filter (\<lambda>d. d_state d \<in> {DQueued, DClaimed, DDelivered} \<and>
                  (case get_envelope (d_envelope_id d) s of
                     None \<Rightarrow> False | Some e \<Rightarrow> e_expires_at e \<le> now)) (s_deliveries s);
         out = map delivery_key (filter (\<lambda>d. delivery_transition_allowed (d_state d) DExpired) due)
     in (out, s\<lparr>s_deliveries := update_rows (\<lambda>d. delivery_key d \<in> set out)
                 (\<lambda>d. d\<lparr>d_state := DExpired\<rparr>) (s_deliveries s)\<rparr>))"
  by (simp add: expire_due_def Let_def fold_update_delivery)

lemma inbox_eq:
  "inbox recipient limit s =
    (let rows = take (limit + 1) (sort_key e_seq (map fst (concat (map (join_envelope s)
            (filter (\<lambda>d. d_recipient d = recipient \<and> pending_delivery d) (s_deliveries s))))));
         chosen = take limit rows
     in ((chosen, limit < length rows),
         s\<lparr>s_deliveries := update_rows (\<lambda>d. d_recipient d = recipient \<and> d_envelope_id d \<in> e_message_id ` set chosen)
            (\<lambda>d. d\<lparr>d_state := DDelivered, d_lease_until := None\<rparr>) (s_deliveries s)\<rparr>))"
proof -
  have "delivery_key d \<in> (\<lambda>e. (e_message_id e, recipient)) ` X \<longleftrightarrow>
      d_recipient d = recipient \<and> d_envelope_id d \<in> e_message_id ` X"
    for d and X :: "envelope set"
    by (auto simp: delivery_key_def)
  then show ?thesis
    by (simp add: inbox_def Let_def fold_inbox fold_update_delivery)
qed

lemma get_envelope_id: "get_envelope m s = Some e \<Longrightarrow> e_message_id e = m"
  by (auto simp: get_envelope_def dest: find_Some_in)

lemma in_join: "x \<in> set (join_envelope s d) \<longleftrightarrow>
    get_envelope (d_envelope_id d) s = Some (fst x) \<and> snd x = d_recipient d"
  by (cases x) (auto simp: join_envelope_def split: option.splits)

lemma in_due:
  assumes "x \<in> set (due_deliveries now n s)"
  shows "\<exists>d \<in> set (s_deliveries s). delivery_key d = claim_key x \<and> d_state d = DQueued \<and>
     d_next_retry_at d \<le> now \<and> get_envelope (d_envelope_id d) s = Some (fst x)"
  using in_set_takeD [OF assms [unfolded due_deliveries_def]]
  by (force simp: in_join delivery_key_def claim_key_def dest: get_envelope_id)

section \<open>Keys\<close>

definition bus_keys :: "store \<Rightarrow> bool" where
  "bus_keys s \<longleftrightarrow> distinct (map delivery_key (s_deliveries s)) \<and>
    distinct (map e_message_id (s_envelopes s)) \<and> distinct (map a_ask_id (s_asks s)) \<and>
    distinct (map dedupe_key (s_dedupe s)) \<and>
    distinct (map (\<lambda>r. (sq_from_cell r, sq_to_cell r)) (s_seq_counters s))"

inductive bus_step :: "store \<Rightarrow> store \<Rightarrow> bool" where
  "bus_step s (snd (next_seq f t s))"
| "bus_step s (insert_envelope env s)"
| "bus_step s (insert_delivery m r s)"
| "bus_step s (snd (transition m r st s))"
| "bus_step s (snd (claim_due now l n s))"
| "bus_step s (snd (record_attempt_failure unix jit m r ma base cap s))"
| "bus_step s (snd (expire_due ts s))"
| "bus_step s (snd (inbox r limit s))"
| "bus_step s (dedupe_insert unix f k m a b s)"
| "bus_step s (insert_ask a m f t x s)"
| "bus_step s (commit_reply sha a env s)"
| "bus_step s (snd (expire_asks_due ts s))"

lemma fold_expire_asks:
  "fold (\<lambda>i s. s\<lparr>s_asks := update_rows (\<lambda>a. a_ask_id a = i) f (s_asks s)\<rparr>) ids s =
    s\<lparr>s_asks := fold (\<lambda>i. update_rows (\<lambda>a. a_ask_id a = i) f) ids (s_asks s)\<rparr>"
  by (induction ids arbitrary: s) simp_all

lemma expire_asks_due_eq:
  "expire_asks_due now s =
    (let ids = map a_ask_id (filter (\<lambda>a. a_state a = APending \<and> a_expires_at a \<le> now) (s_asks s))
     in (ids, s\<lparr>s_asks := update_rows (\<lambda>a. a_ask_id a \<in> set ids)
                 (\<lambda>a. a\<lparr>a_state := AExpired\<rparr>) (s_asks s)\<rparr>))"
  by (simp add: expire_asks_due_def Let_def fold_expire_asks fold_update_rows [where key = a_ask_id])

lemma keys_update_delivery [simp]:
  "(\<And>d. delivery_key (f d) = delivery_key d) \<Longrightarrow>
   map delivery_key (update_rows p f ds) = map delivery_key ds"
  by (rule map_update_rows_inv)

lemma bus_keys_deliveries:
  "bus_keys s \<Longrightarrow> map delivery_key ds = map delivery_key (s_deliveries s) \<Longrightarrow>
   bus_keys (s\<lparr>s_deliveries := ds\<rparr>)"
  by (simp add: bus_keys_def)

lemma release_leases_keys: "bus_keys s \<Longrightarrow> bus_keys (release_leases now s)"
  unfolding release_leases_def by (rule bus_keys_deliveries) simp_all

lemma update_delivery_keys:
  "bus_keys s \<Longrightarrow> (\<And>d. delivery_key (f d) = delivery_key d) \<Longrightarrow> bus_keys (update_delivery m r f s)"
  unfolding update_delivery_def by (rule bus_keys_deliveries) simp_all

interpretation bus: invariant_of "\<lambda>s. s = empty_store" bus_step bus_keys
proof
  fix s t assume inv: "bus_keys s" and "bus_step s t"
  from this(2) show "bus_keys t"
  proof cases
    case (1 f t')
    let ?hit = "\<lambda>r. sq_from_cell r = f \<and> sq_to_cell r = t'"
    let ?rows = "if List.find ?hit (s_seq_counters s) = None
      then s_seq_counters s @ [\<lparr>sq_from_cell = f, sq_to_cell = t', sq_next_seq = 1\<rparr>]
      else s_seq_counters s"
    have "distinct (map (\<lambda>r. (sq_from_cell r, sq_to_cell r)) ?rows)"
      using inv by (auto simp: bus_keys_def find_None_iff)
    moreover have "map (\<lambda>r. (sq_from_cell r, sq_to_cell r)) (update_rows ?hit
        (\<lambda>r. r\<lparr>sq_next_seq := sq_next_seq r + 1\<rparr>) ?rows) =
        map (\<lambda>r. (sq_from_cell r, sq_to_cell r)) ?rows"
      by (rule map_update_rows_inv) simp
    moreover have "s_seq_counters t = update_rows ?hit (\<lambda>r. r\<lparr>sq_next_seq := sq_next_seq r + 1\<rparr>) ?rows"
      using 1 by (simp add: next_seq_def Let_def)
    moreover have "s_deliveries t = s_deliveries s" "s_envelopes t = s_envelopes s"
      "s_asks t = s_asks s" "s_dedupe t = s_dedupe s"
      using 1 by (simp_all add: next_seq_def Let_def)
    ultimately show ?thesis using inv unfolding bus_keys_def by simp
  next
    case (2 env)
    with inv show ?thesis by (simp add: insert_envelope_def bus_keys_def distinct_keys_replace_row)
  next
    case (3 m r)
    with inv show ?thesis by (simp add: insert_delivery_def bus_keys_def distinct_keys_replace_row)
  next
    case (4 m r st)
    with inv show ?thesis
      by (auto simp: transition_def update_delivery_keys split: option.splits)
  next
    case (5 now l n)
    with inv show ?thesis
      by (simp add: claim_due_eq Let_def) (intro bus_keys_deliveries release_leases_keys; simp)
  next
    case (6 unix jit m r ma base cap)
    with inv show ?thesis
      by (auto simp: record_attempt_failure_def Let_def update_delivery_keys split: option.splits)
  next
    case (7 ts)
    with inv show ?thesis by (simp add: expire_due_eq Let_def) (intro bus_keys_deliveries; simp)
  next
    case (8 r limit)
    with inv show ?thesis by (simp add: inbox_eq Let_def) (intro bus_keys_deliveries; simp)
  next
    case (9 unix f k m a b)
    with inv show ?thesis by (simp add: dedupe_insert_def bus_keys_def distinct_keys_replace_row)
  next
    case (10 a m f t x)
    with inv show ?thesis by (simp add: insert_ask_def bus_keys_def distinct_keys_replace_row)
  next
    case (11 sha a env)
    with inv show ?thesis
      by (simp add: commit_reply_def bus_keys_def map_update_rows_inv [where key = a_ask_id])
  next
    case (12 ts)
    with inv show ?thesis
      by (simp add: expire_asks_due_eq Let_def bus_keys_def map_update_rows_inv [where key = a_ask_id])
  qed
qed (simp add: empty_store_def bus_keys_def)

lemma unique_delivery:
  "bus_keys s \<Longrightarrow> d \<in> set (s_deliveries s) \<Longrightarrow> d' \<in> set (s_deliveries s) \<Longrightarrow>
   delivery_key d = delivery_key d' \<Longrightarrow> d = d'"
  by (auto simp: bus_keys_def distinct_map inj_on_def)

lemma find_delivery_unique:
  "bus_keys s \<Longrightarrow> d \<in> set (s_deliveries s) \<Longrightarrow> find_delivery (d_envelope_id d) (d_recipient d) s = Some d"
  using distinct_find_unique [of delivery_key "s_deliveries s" d]
  by (simp add: bus_keys_def find_delivery_def delivery_key_def)

section \<open>Leases\<close>

lemma find_delivery_key: "find_delivery m r s = Some d \<Longrightarrow> d \<in> set (s_deliveries s) \<and> delivery_key d = (m, r)"
  by (auto simp: find_delivery_def dest: find_Some_in)

lemma due_in_claimed:
  assumes "bus_keys s" "claim_due now l n s = (out, s')" "x \<in> set out"
  shows "\<exists>d. find_delivery (e_message_id (fst x)) (snd x) s' = Some d \<and> d_state d = DClaimed \<and>
    d_lease_until d = Some (now + l) \<and> d_next_retry_at d \<le> now \<and>
    get_envelope (d_envelope_id d) s' = Some (fst x)"
proof -
  let ?s1 = "release_leases now s"
  let ?f = "\<lambda>d. d\<lparr>d_state := DClaimed, d_lease_until := Some (now + l)\<rparr>"
  from assms(2) have out: "out = due_deliveries now n ?s1"
    and s': "s' = ?s1\<lparr>s_deliveries := update_rows (\<lambda>d. delivery_key d \<in> claim_key ` set out) ?f (s_deliveries ?s1)\<rparr>"
    by (auto simp: claim_due_eq Let_def)
  from in_due assms(3) out obtain d where d: "d \<in> set (s_deliveries ?s1)" "delivery_key d = claim_key x"
    "d_next_retry_at d \<le> now" "get_envelope (d_envelope_id d) ?s1 = Some (fst x)" by blast
  have "delivery_key d \<in> claim_key ` set out" using assms(3) d(2) by simp
  with d(1) have fd: "?f d \<in> set (s_deliveries s')" by (force simp: s' set_update_rows)
  have "bus_keys s'" using bus.inv_step [OF assms(1) bus_step.intros(5)] assms(2) by (metis snd_conv)
  from find_delivery_unique [OF this fd] d show ?thesis
    by (simp add: delivery_key_def claim_key_def s' get_envelope_def)
qed

lemma due_state:
  assumes "bus_keys s" "claim_due now l n s = (out, s')" "x \<in> set out"
    and "find_delivery (e_message_id (fst x)) (snd x) s = Some d"
  shows "d_state d = DQueued \<or> (d_state d = DClaimed \<and> (\<exists>t. d_lease_until d = Some t \<and> t \<le> now))"
proof -
  let ?s1 = "release_leases now s"
  have out: "out = due_deliveries now n ?s1"
    using assms(2) by (auto simp: claim_due_eq Let_def)
  from in_due assms(3) out obtain d1 where d1: "d1 \<in> set (s_deliveries ?s1)"
    "delivery_key d1 = claim_key x" "d_state d1 = DQueued" by blast
  from find_delivery_key [OF assms(4)] have d: "d \<in> set (s_deliveries s)" "delivery_key d = claim_key x"
    by (simp_all add: claim_key_def)
  from d1(1) [unfolded release_leases_def] show ?thesis
  proof (simp, elim in_update_rowsE)
    fix r assume "r \<in> set (s_deliveries s)"
      and "d_state r = DClaimed \<and> (case d_lease_until r of None \<Rightarrow> False | Some l \<Rightarrow> l \<le> now)"
      and "d1 = r\<lparr>d_state := DQueued, d_lease_until := None\<rparr>"
    moreover from this have "r = d"
      using unique_delivery [OF assms(1), of r d] d d1(2) by simp
    ultimately show ?thesis by (auto split: option.splits)
  next
    assume "d1 \<in> set (s_deliveries s)"
    then have "d1 = d" using unique_delivery [OF assms(1), of d1 d] d d1(2) by simp
    with d1(3) show ?thesis by simp
  qed
qed

text \<open>A claim hands out no delivery twice.\<close>

lemma due_keys_distinct: "bus_keys s \<Longrightarrow> distinct (map claim_key (due_deliveries now n s))"
proof -
  assume "bus_keys s"
  have "distinct (map claim_key (concat (map (join_envelope s) ds)))" if "distinct (map delivery_key ds)" for ds
    using that
  proof (induction ds)
    case (Cons d ds)
    have "claim_key x = delivery_key d" if "x \<in> set (join_envelope s d)" for x d
      using that by (auto simp: in_join claim_key_def delivery_key_def dest: get_envelope_id)
    with Cons show ?case by (auto simp: join_envelope_def split: option.splits)
  qed simp
  moreover have "distinct (map delivery_key (filter p (s_deliveries s)))" for p
    using \<open>bus_keys s\<close> by (simp add: bus_keys_def distinct_map_filter)
  ultimately show ?thesis unfolding due_deliveries_def by (simp add: take_map [symmetric] distinct_take)
qed

text \<open>
  What may happen to the bus while the lease of a delivery runs: every operation, except what puts
  that delivery itself back into the queue: a failed attempt that its holder reports, a transition
  to queued, a second submission of it, or a claim after the end of the lease.
\<close>

inductive lease_step :: "int \<Rightarrow> string \<times> string \<Rightarrow> store \<Rightarrow> store \<Rightarrow> bool" for until k where
  "lease_step until k s (snd (next_seq f t s))"
| "lease_step until k s (insert_envelope env s)"
| "(m, r) \<noteq> k \<Longrightarrow> lease_step until k s (insert_delivery m r s)"
| "(m, r) \<noteq> k \<or> st \<noteq> DQueued \<Longrightarrow> lease_step until k s (snd (transition m r st s))"
| "now < until \<Longrightarrow> lease_step until k s (snd (claim_due now l n s))"
| "(m, r) \<noteq> k \<Longrightarrow> lease_step until k s (snd (record_attempt_failure unix jit m r ma base cap s))"
| "lease_step until k s (snd (expire_due ts s))"
| "lease_step until k s (snd (inbox r limit s))"
| "lease_step until k s (dedupe_insert unix f key m a b s)"
| "lease_step until k s (insert_ask a m f t x s)"
| "lease_step until k s (commit_reply sha a env s)"
| "lease_step until k s (snd (expire_asks_due ts s))"

lemma lease_step_bus: "lease_step until k s t \<Longrightarrow> bus_step s t"
  by (induction rule: lease_step.induct) (auto intro: bus_step.intros)

text \<open>The delivery is claimed until then, or it is over.\<close>

definition leased :: "int \<Rightarrow> string \<times> string \<Rightarrow> store \<Rightarrow> bool" where
  "leased until k s \<longleftrightarrow> bus_keys s \<and> (\<exists>d \<in> set (s_deliveries s). delivery_key d = k \<and>
     (d_state d = DClaimed \<and> d_lease_until d = Some until \<or> d_state d \<notin> {DQueued, DClaimed}))"

lemma claimed_not_due:
  assumes "leased until k s" "now < until"
  shows "k \<notin> claim_key ` set (due_deliveries now n (release_leases now s))"
proof
  let ?s1 = "release_leases now s"
  assume "k \<in> claim_key ` set (due_deliveries now n ?s1)"
  then obtain x where "x \<in> set (due_deliveries now n ?s1)" "claim_key x = k" by auto
  with in_due obtain r where r: "r \<in> set (s_deliveries ?s1)" "delivery_key r = k" "d_state r = DQueued" by blast
  from assms(1) obtain d where d: "d \<in> set (s_deliveries s)" "delivery_key d = k"
    "d_state d = DClaimed \<and> d_lease_until d = Some until \<or> d_state d \<notin> {DQueued, DClaimed}" and keys: "bus_keys s"
    by (auto simp: leased_def)
  from r(1) have "r \<in> set (update_rows (\<lambda>d. d_state d = DClaimed \<and> (case d_lease_until d of None \<Rightarrow> False | Some l \<Rightarrow> l \<le> now))
      (\<lambda>d. d\<lparr>d_state := DQueued, d_lease_until := None\<rparr>) (s_deliveries s))"
    by (simp add: release_leases_def)
  then show False
  proof (rule in_update_rowsE)
    fix y assume y: "y \<in> set (s_deliveries s)" "r = y\<lparr>d_state := DQueued, d_lease_until := None\<rparr>"
      "d_state y = DClaimed \<and> (case d_lease_until y of None \<Rightarrow> False | Some l \<Rightarrow> l \<le> now)"
    then have "y = d" using unique_delivery [OF keys y(1) d(1)] r(2) d(2) by simp
    with y(3) d(3) assms(2) show False by auto
  next
    assume "r \<in> set (s_deliveries s)"
    then have "r = d" using unique_delivery [OF keys _ d(1)] r(2) d(2) by simp
    with r(3) d(3) show False by auto
  qed
qed

lemma leased_update:
  assumes "leased until k s" "\<And>d. delivery_key (f d) = delivery_key d"
    "\<And>d. d \<in> set (s_deliveries s) \<Longrightarrow> delivery_key d = k \<Longrightarrow> p d \<Longrightarrow> d_state (f d) \<notin> {DQueued, DClaimed}"
  shows "leased until k (s\<lparr>s_deliveries := update_rows p f (s_deliveries s)\<rparr>)"
proof -
  from assms(1) obtain d where d: "d \<in> set (s_deliveries s)" "delivery_key d = k"
    "d_state d = DClaimed \<and> d_lease_until d = Some until \<or> d_state d \<notin> {DQueued, DClaimed}" and keys: "bus_keys s"
    by (auto simp: leased_def)
  have "bus_keys (s\<lparr>s_deliveries := update_rows p f (s_deliveries s)\<rparr>)"
    by (rule bus_keys_deliveries [OF keys]) (simp add: assms(2))
  moreover have "(if p d then f d else d) \<in> set (update_rows p f (s_deliveries s))"
    using d(1) by (auto simp: set_update_rows)
  ultimately show ?thesis
    using d assms(2) assms(3) [OF d(1,2)] unfolding leased_def
    by (intro conjI bexI [of _ "if p d then f d else d"]) auto
qed

lemma leased_other:
  "leased until k s \<Longrightarrow> (m, r) \<noteq> k \<Longrightarrow> (\<And>d. delivery_key (f d) = delivery_key d) \<Longrightarrow> leased until k (update_delivery m r f s)"
  unfolding update_delivery_def by (rule leased_update) auto

lemma leased_cong:
  "leased until k s \<Longrightarrow> bus_keys t \<Longrightarrow> s_deliveries t = s_deliveries s \<Longrightarrow> leased until k t"
  by (simp add: leased_def)

interpretation lease: invariant_of "leased until k" "lease_step until k" "leased until k" for until k
proof (unfold_locales, assumption)
  fix s t assume inv: "leased until k s" and st: "lease_step until k s t"
  have keys: "bus_keys t" using bus.inv_step [OF _ lease_step_bus [OF st]] inv by (simp add: leased_def)
  from st show "leased until k t"
  proof cases
    case (3 m r)
    then have "\<exists>d \<in> set (s_deliveries t). delivery_key d = k \<and>
       (d_state d = DClaimed \<and> d_lease_until d = Some until \<or> d_state d \<notin> {DQueued, DClaimed})"
      using inv by (auto simp: leased_def insert_delivery_def set_replace_row delivery_key_def)
    with keys show ?thesis by (simp add: leased_def)
  next
    case (4 m r st)
    show ?thesis
    proof (cases "find_delivery m r s")
      case None
      with 4 inv show ?thesis by (simp add: transition_def)
    next
      case (Some x)
      note x = find_delivery_key [OF Some]
      have "st \<notin> {DQueued, DClaimed}" if "delivery_transition_allowed (d_state x) st" "(m, r) = k"
      proof -
        from inv obtain d where "d \<in> set (s_deliveries s)" "delivery_key d = k" "bus_keys s" "d_state d \<noteq> DQueued"
          by (auto simp: leased_def)
        with unique_delivery [of s d x] x that(2) have "d_state x \<noteq> DQueued" by simp
        with that 4(2) show ?thesis by (cases "d_state x"; cases st) simp_all
      qed
      then have "leased until k (update_delivery m r (\<lambda>d. d\<lparr>d_state := st\<rparr>) s)"
        if "delivery_transition_allowed (d_state x) st"
        unfolding update_delivery_def using that by (intro leased_update [OF inv]) auto
      with 4(1) Some inv show ?thesis by (simp add: transition_def)
    qed
  next
    case (5 now l n)
    let ?s1 = "release_leases now s"
    have "leased until k ?s1"
      unfolding release_leases_def
    proof (rule leased_update [OF inv])
      fix d assume d: "d \<in> set (s_deliveries s)" "delivery_key d = k"
        "d_state d = DClaimed \<and> (case d_lease_until d of None \<Rightarrow> False | Some l \<Rightarrow> l \<le> now)"
      with inv obtain d' where "d' \<in> set (s_deliveries s)" "delivery_key d' = k" "bus_keys s"
        "d_state d' = DClaimed \<and> d_lease_until d' = Some until \<or> d_state d' \<notin> {DQueued, DClaimed}"
        by (auto simp: leased_def)
      with unique_delivery [of s d d'] d 5(2) show "d_state (d\<lparr>d_state := DQueued, d_lease_until := None\<rparr>) \<notin> {DQueued, DClaimed}"
        by auto
    qed simp
    then show ?thesis
      unfolding 5(1) claim_due_eq Let_def snd_conv using claimed_not_due [OF inv 5(2), of n]
      by (intro leased_update) auto
  next
    case (6 m r unix jit ma base cap)
    with inv show ?thesis
      by (auto simp: record_attempt_failure_def Let_def leased_other split: option.splits)
  next
    case (7 ts)
    show ?thesis unfolding 7 expire_due_eq Let_def snd_conv by (rule leased_update [OF inv]) auto
  next
    case (8 r limit)
    show ?thesis unfolding 8 inbox_eq Let_def snd_conv by (rule leased_update [OF inv]) auto
  qed (rule leased_cong [OF inv keys]; simp add: next_seq_def insert_envelope_def dedupe_insert_def insert_ask_def
      commit_reply_def expire_asks_due_eq Let_def split: option.split)+
qed

text \<open>C20: a claim is exclusive.  In every reachable store a claim hands out at most the asked number of
  deliveries, none of them twice, and leaves each claimed until the end of its lease.  From then on,
  whatever claims, outcomes, inbox pulls, expiries and submissions happen in between, no claim before
  the end of that lease hands out the same delivery again, unless a failed attempt of that delivery
  is reported, or it is put back into the queue or submitted anew.\<close>

theorem lease_exclusive:
  assumes "reachable (\<lambda>s. s = empty_store) bus_step s"
    and "claim_due now l n s = (out, s1)" and "x \<in> set out"
    and "(lease_step (now + l) (claim_key x))\<^sup>*\<^sup>* s1 s2" and "now' < now + l"
  shows "length out \<le> n \<and> distinct (map claim_key out) \<and>
    (\<exists>d. find_delivery (e_message_id (fst x)) (snd x) s1 = Some d \<and>
       d_state d = DClaimed \<and> d_lease_until d = Some (now + l)) \<and>
    claim_key x \<notin> claim_key ` set (fst (claim_due now' l' n' s2))"
proof -
  have inv: "bus_keys s" by (rule bus.inv_reachable [OF assms(1)])
  have inv1: "bus_keys s1" using bus.inv_step [OF inv bus_step.intros(5)] assms(2) by (metis snd_conv)
  from due_in_claimed [OF inv assms(2,3)] obtain d where
    d: "find_delivery (e_message_id (fst x)) (snd x) s1 = Some d" "d_state d = DClaimed" "d_lease_until d = Some (now + l)"
    by blast
  then have "leased (now + l) (claim_key x) s1"
    using inv1 find_delivery_key [OF d(1)] by (auto simp: leased_def claim_key_def)
  from lease.inv_steps [OF assms(4) this] have "leased (now + l) (claim_key x) s2" .
  from claimed_not_due [OF this assms(5), of n'] have "claim_key x \<notin> claim_key ` set (fst (claim_due now' l' n' s2))"
    by (simp add: claim_due_eq Let_def)
  moreover have "length out \<le> n" "distinct (map claim_key out)"
    using assms(2) due_keys_distinct [OF release_leases_keys [OF inv]] by (auto simp: claim_due_eq Let_def due_deliveries_def)
  ultimately show ?thesis using d by blast
qed

lemma reachable_message:
  "reachable (\<lambda>s. s = empty_store) bus_step
     (insert_delivery (e_message_id e) r (insert_envelope e empty_store))"
proof -
  have "reachable (\<lambda>s. s = empty_store) bus_step empty_store" by (rule reachable_init) simp
  from reachable_step [OF reachable_step [OF this bus_step.intros(2)] bus_step.intros(3)]
  show ?thesis .
qed

definition example_envelope :: envelope where
  "example_envelope =
    \<lparr>e_spec_version = SPEC_VERSION, e_message_id = ''m1'', e_ask_id = None, e_from_cell = ''a'',
     e_to_cell = Some ''b'', e_kind = Send, e_msg_type = MTask, e_principal_capabilities = [],
     e_created_at = rfc3339_from_unix_secs 0, e_expires_at = rfc3339_from_unix_secs 60, e_seq = 1,
     e_idempotency_key = ''k'', e_body = ''hi'', e_file_refs = [], e_taint = TAINT, e_reply_to = None\<rparr>"

definition example_store :: store where
  "example_store = insert_delivery ''m1'' ''b'' (insert_envelope example_envelope empty_store)"

lemma example_reachable: "reachable (\<lambda>s. s = empty_store) bus_step example_store"
  using reachable_message [of example_envelope "''b''"]
  by (simp add: example_store_def example_envelope_def)

lemma example_claim: "fst (claim_due 10 30 5 example_store) = [(example_envelope, ''b'')]"
  by (simp add: claim_due_eq Let_def example_store_def insert_delivery_def insert_envelope_def
      empty_store_def replace_row_def release_leases_def due_deliveries_def join_envelope_def
      get_envelope_def example_envelope_def)

text \<open>Another claim and an inbox pull of another cell lie between the two claims.\<close>

theorem lease_exclusive_witness:
  "fst (claim_due 10 30 5 example_store) = [(example_envelope, ''b'')] \<and>
   claim_key (example_envelope, ''b'') \<notin> claim_key `
     set (fst (claim_due 39 30 5 (snd (inbox ''c'' 5 (snd (claim_due 20 30 5 (snd (claim_due 10 30 5 example_store))))))))"
proof -
  let ?s1 = "snd (claim_due 10 30 5 example_store)"
  have c: "claim_due 10 30 5 example_store = ([(example_envelope, ''b'')], ?s1)"
    using example_claim by (simp add: prod_eq_iff)
  have "lease_step (10 + 30) k ?s1 (snd (claim_due 20 30 5 ?s1))" for k by (rule lease_step.intros(5)) simp
  then have "(lease_step (10 + 30) k)\<^sup>*\<^sup>* ?s1 (snd (inbox ''c'' 5 (snd (claim_due 20 30 5 ?s1))))" for k
    by (blast intro: converse_rtranclp_into_rtranclp r_into_rtranclp lease_step.intros(8))
  from lease_exclusive [OF example_reachable c _ this, of "(example_envelope, ''b'')" 39 30 5] example_claim
  show ?thesis by simp
qed

section \<open>Redelivery\<close>

text \<open>The rows a claim at a time looks at: queued ones and those whose lease has elapsed, in row order.\<close>

definition due_row :: "int \<Rightarrow> delivery_row \<Rightarrow> bool" where
  "due_row now d \<longleftrightarrow> d_next_retry_at d \<le> now \<and>
    (d_state d = DQueued \<or> d_state d = DClaimed \<and> (case d_lease_until d of None \<Rightarrow> False | Some l \<Rightarrow> l \<le> now))"



definition release_row :: "int \<Rightarrow> delivery_row \<Rightarrow> delivery_row" where
  "release_row now d =
    (if d_state d = DClaimed \<and> (case d_lease_until d of None \<Rightarrow> False | Some l \<Rightarrow> l \<le> now)
     then d\<lparr>d_state := DQueued, d_lease_until := None\<rparr> else d)"

lemma release_map: "release_leases now s = s\<lparr>s_deliveries := map (release_row now) (s_deliveries s)\<rparr>"
  by (simp add: release_leases_def update_rows_map release_row_def [abs_def])

lemma release_row_simps [simp]:
  "delivery_key (release_row now d) = delivery_key d" "d_next_retry_at (release_row now d) = d_next_retry_at d"
  "join_envelope s (release_row now d) = join_envelope s d"
  "d_state (release_row now d) = DQueued \<and> d_next_retry_at d \<le> now \<longleftrightarrow> due_row now d"
  by (auto simp: release_row_def due_row_def join_envelope_def split: option.splits)


lemma due_release:
  "due_deliveries now n (release_leases now s) =
    take n (concat (map (join_envelope s) (filter (due_row now) (s_deliveries s))))"
proof -
  have "join_envelope (release_leases now s) = join_envelope s"
    by (rule ext) (simp add: join_envelope_def release_leases_def get_envelope_def)
  moreover have "filter (\<lambda>d. d_state d = DQueued \<and> d_next_retry_at d \<le> now) (map (release_row now) ds) =
      map (release_row now) (filter (due_row now) ds)" for ds
    by (induction ds) auto
  ultimately show ?thesis by (simp add: due_deliveries_def release_map comp_def)
qed


lemma in_joined: "x \<in> set (concat (map (join_envelope s) rs)) \<Longrightarrow> \<exists>r \<in> set rs. delivery_key r = claim_key x"
  by (force simp: in_join claim_key_def delivery_key_def dest: get_envelope_id)








lemma claim_rows:
  "s_deliveries (snd (claim_due now l n s)) = update_rows (\<lambda>d. delivery_key d \<in> claim_key ` set (fst (claim_due now l n s)))
     (\<lambda>d. d\<lparr>d_state := DClaimed, d_lease_until := Some (now + l)\<rparr>) (map (release_row now) (s_deliveries s))"
  by (simp add: claim_due_eq Let_def release_map)










section \<open>The delivery state machine\<close>

text \<open>Each row of \<open>t\<close> is the row of \<open>s\<close>, or has moved as \<open>P\<close> allows; no row comes or goes.\<close>

definition rows_move :: "(delivery_row \<Rightarrow> delivery_state \<Rightarrow> bool) \<Rightarrow> store \<Rightarrow> store \<Rightarrow> bool" where
  "rows_move P s t \<longleftrightarrow> list_all2 (\<lambda>d d'. delivery_key d' = delivery_key d \<and> (d' = d \<or> P d (d_state d')))
     (s_deliveries s) (s_deliveries t)"

lemma rows_move_refl [simp]: "rows_move P s s"
  by (simp add: rows_move_def list_all2_same)

lemma rows_move_update:
  assumes "\<And>d. delivery_key (f d) = delivery_key d"
    and "\<And>d. d \<in> set (s_deliveries s) \<Longrightarrow> p d \<Longrightarrow> P d (d_state (f d))"
  shows "rows_move P s (s\<lparr>s_deliveries := update_rows p f (s_deliveries s)\<rparr>)"
proof -
  have "list_all2 (\<lambda>d d'. delivery_key d' = delivery_key d \<and> (d' = d \<or> P d (d_state d'))) ds (update_rows p f ds)"
    if "set ds \<subseteq> set (s_deliveries s)" for ds
    using that assms by (induction ds) auto
  then show ?thesis by (simp add: rows_move_def)
qed

lemma transition_moves:
  assumes "bus_keys s"
  shows "rows_move (\<lambda>d x. delivery_key d = (m, r) \<and> x = st \<and> delivery_transition_allowed (d_state d) st)
      s (snd (transition m r st s))"
proof (cases "find_delivery m r s")
  case (Some d)
  note d = find_delivery_key [OF Some]
  have "d_state x = d_state d" if "x \<in> set (s_deliveries s)" "delivery_key x = (m, r)" for x
    using unique_delivery [OF assms that(1), of d] d that(2) by simp
  then show ?thesis
    using Some by (auto simp: transition_def update_delivery_def intro!: rows_move_update)
qed (simp add: transition_def)

lemma expire_moves:
  assumes "bus_keys s"
  shows "rows_move (\<lambda>d x. d_state d \<in> {DQueued, DClaimed} \<and> x = DExpired \<and>
      (\<exists>e. get_envelope (d_envelope_id d) s = Some e \<and> e_expires_at e \<le> ts)) s (snd (expire_due ts s))"
  unfolding expire_due_eq Let_def snd_conv
proof (rule rows_move_update, goal_cases)
  case (2 d)
  then obtain x where x: "x \<in> set (s_deliveries s)" "delivery_key d = delivery_key x"
    "delivery_transition_allowed (d_state x) DExpired"
    "case get_envelope (d_envelope_id x) s of None \<Rightarrow> False | Some e \<Rightarrow> e_expires_at e \<le> ts" by auto
  then have "x = d" using unique_delivery [OF assms x(1) 2(1)] by simp
  with x(3,4) show ?case by (cases "d_state d") (auto split: option.splits)
qed simp

lemma inbox_moves:
  assumes "bus_keys s"
  shows "rows_move (\<lambda>d x. d_recipient d = r \<and> d_state d \<in> {DQueued, DClaimed} \<and> x = DDelivered) s (snd (inbox r limit s))"
  unfolding inbox_eq Let_def snd_conv
proof (rule rows_move_update, goal_cases)
  case (2 d)
  then obtain e where e: "e_message_id e = d_envelope_id d" "d_recipient d = r"
    "e \<in> fst ` set (concat (map (join_envelope s) (filter (\<lambda>d. d_recipient d = r \<and> pending_delivery d) (s_deliveries s))))"
    by (auto dest!: in_set_takeD)
  then obtain d' where d': "d' \<in> set (s_deliveries s)" "d_recipient d' = r" "pending_delivery d'"
    "get_envelope (d_envelope_id d') s = Some e" by (auto simp: in_join)
  then have "delivery_key d' = delivery_key d" using e(1,2) get_envelope_id [OF d'(4)] by (simp add: delivery_key_def)
  with unique_delivery [OF assms d'(1) 2(1)] d'(3) e(2) show ?case by (auto simp: pending_delivery_def)
qed simp

lemma claim_moves:
  assumes "bus_keys s"
  shows "rows_move (\<lambda>d x. d_state d = DQueued \<and> x = DClaimed \<or>
      d_state d = DClaimed \<and> (\<exists>e. d_lease_until d = Some e \<and> e \<le> now) \<and> x \<in> {DQueued, DClaimed}) s (snd (claim_due now l n s))"
proof -
  let ?K = "claim_key ` set (fst (claim_due now l n s))"
  let ?f = "\<lambda>d. d\<lparr>d_state := DClaimed, d_lease_until := Some (now + l)\<rparr>"
  let ?P = "\<lambda>d x. d_state d = DQueued \<and> x = DClaimed \<or>
      d_state d = DClaimed \<and> (\<exists>e. d_lease_until d = Some e \<and> e \<le> now) \<and> x \<in> {DQueued, DClaimed}"
  have due: "due_row now d" if d: "d \<in> set (s_deliveries s)" "delivery_key d \<in> ?K" for d
  proof -
    from d(2) obtain x where "x \<in> set (concat (map (join_envelope s) (filter (due_row now) (s_deliveries s))))"
      "claim_key x = delivery_key d" by (auto simp: claim_due_eq Let_def due_release dest!: in_set_takeD)
    with in_joined obtain r where "r \<in> set (s_deliveries s)" "due_row now r" "delivery_key r = delivery_key d"
      by fastforce
    with unique_delivery [OF assms _ d(1)] show ?thesis by metis
  qed
  have "list_all2 (\<lambda>d d'. delivery_key d' = delivery_key d \<and> (d' = d \<or> ?P d (d_state d'))) ds
      (update_rows (\<lambda>d. delivery_key d \<in> ?K) ?f (map (release_row now) ds))" if "set ds \<subseteq> set (s_deliveries s)" for ds
    using that
  proof (induction ds)
    case (Cons d ds)
    have "due_row now d" if "delivery_key d \<in> ?K" using due that Cons.prems by simp
    with Cons show ?case by (auto simp: due_row_def release_row_def delivery_key_def split: option.splits)
  qed simp
  then show ?thesis unfolding rows_move_def claim_rows by simp
qed

lemma failure_moves:
  "bus_keys s \<Longrightarrow> rows_move (\<lambda>d x. delivery_key d = (m, r) \<and> x = (if ma \<le> d_attempts d + 1 then DFailed else DQueued))
     s (snd (record_attempt_failure unix jit m r ma base cap s))"
proof (cases "find_delivery m r s")
  case (Some d)
  assume "bus_keys s"
  note d = find_delivery_key [OF Some]
  have "d_attempts x = d_attempts d" if "x \<in> set (s_deliveries s)" "delivery_key x = (m, r)" for x
    using unique_delivery [OF \<open>bus_keys s\<close> that(1), of d] d that(2) by simp
  then show ?thesis
    using Some by (auto simp: record_attempt_failure_def Let_def update_delivery_def intro!: rows_move_update)
qed (simp add: record_attempt_failure_def)

text \<open>C23: how deliveries move.  In a reachable store a transition succeeds exactly on an edge of the state
  machine and moves the addressed row along it; a claim takes queued rows to claimed and gives back,
  or takes anew, only rows whose lease has elapsed; an expiry takes queued and claimed rows of
  messages past their deadline to expired.  Two operations step outside the machine: an inbox pull
  takes the recipient's queued rows to delivered without a claim, like its claimed ones, and a
  recorded failure takes the addressed row to queued or failed from whatever state it is in.  Every
  other row stays as it was, and no row appears or disappears.\<close>

theorem delivery_state_moves:
  assumes "reachable (\<lambda>s. s = empty_store) bus_step s"
  shows "(fst (transition m r st s) = Inr () \<longleftrightarrow>
      (\<exists>d. find_delivery m r s = Some d \<and> delivery_transition_allowed (d_state d) st)) \<and>
    rows_move (\<lambda>d x. delivery_key d = (m, r) \<and> x = st \<and> delivery_transition_allowed (d_state d) st)
      s (snd (transition m r st s)) \<and>
    rows_move (\<lambda>d x. d_state d = DQueued \<and> x = DClaimed \<or>
      d_state d = DClaimed \<and> (\<exists>e. d_lease_until d = Some e \<and> e \<le> now) \<and> x \<in> {DQueued, DClaimed})
      s (snd (claim_due now l n s)) \<and>
    rows_move (\<lambda>d x. d_state d \<in> {DQueued, DClaimed} \<and> x = DExpired \<and>
      (\<exists>e. get_envelope (d_envelope_id d) s = Some e \<and> e_expires_at e \<le> ts)) s (snd (expire_due ts s)) \<and>
    rows_move (\<lambda>d x. d_recipient d = r' \<and> d_state d \<in> {DQueued, DClaimed} \<and> x = DDelivered)
      s (snd (inbox r' limit s)) \<and>
    rows_move (\<lambda>d x. delivery_key d = (m, r) \<and> x = (if ma \<le> d_attempts d + 1 then DFailed else DQueued))
      s (snd (record_attempt_failure unix jit m r ma base cap s))"
proof -
  have keys: "bus_keys s" by (rule bus.inv_reachable [OF assms])
  have "fst (transition m r st s) = Inr () \<longleftrightarrow>
      (\<exists>d. find_delivery m r s = Some d \<and> delivery_transition_allowed (d_state d) st)"
    by (auto simp: transition_def split: option.split)
  then show ?thesis
    by (intro conjI transition_moves [OF keys] claim_moves [OF keys] expire_moves [OF keys] inbox_moves [OF keys]
        failure_moves [OF keys])
qed

text \<open>The message of the example, pulled and then reported as failed.\<close>

theorem delivery_state_moves_witness:
  "\<exists>s. s = snd (inbox ''b'' 5 example_store) \<and>
    map d_state (s_deliveries s) = [DDelivered] \<and> fst (transition ''m1'' ''b'' DClaimed s) \<noteq> Inr () \<and>
    rows_move (\<lambda>d x. x = DQueued) s (snd (record_attempt_failure 9 0 ''m1'' ''b'' 3 1 60 s))"
proof -
  let ?s = "snd (inbox ''b'' 5 example_store)"
  have rows: "s_deliveries ?s = [\<lparr>d_envelope_id = ''m1'', d_recipient = ''b'', d_state = DDelivered, d_attempts = 0,
      d_lease_until = None, d_next_retry_at = 0\<rparr>]"
    by (simp add: inbox_eq Let_def example_store_def insert_delivery_def
        insert_envelope_def empty_store_def replace_row_def join_envelope_def get_envelope_def
        example_envelope_def pending_delivery_def sort_key_def)
  have "reachable (\<lambda>s. s = empty_store) bus_step ?s"
    by (rule reachable_step [OF example_reachable bus_step.intros(8)])
  note m = delivery_state_moves [OF this, of "''m1''" "''b''" DClaimed 10 30 5 "[]" "''b''" 5 3 9 0 1 60]
  have f: "find_delivery ''m1'' ''b'' ?s = Some (hd (s_deliveries ?s))" by (simp add: find_delivery_def rows delivery_key_def)
  from m have "fst (transition ''m1'' ''b'' DClaimed ?s) \<noteq> Inr ()" by (simp add: f rows)
  moreover from m have "rows_move (\<lambda>d x. delivery_key d = (''m1'', ''b'') \<and> x = (if 3 \<le> d_attempts d + 1 then DFailed else DQueued))
      ?s (snd (record_attempt_failure 9 0 ''m1'' ''b'' 3 1 60 ?s))" by blast
  then have "rows_move (\<lambda>d x. x = DQueued) ?s (snd (record_attempt_failure 9 0 ''m1'' ''b'' 3 1 60 ?s))"
    by (auto simp: rows_move_def rows list_all2_Cons1)
  ultimately show ?thesis using rows by (intro exI [of _ ?s]) simp
qed

section \<open>Retries\<close>

text \<open>The retry rule against the documented one.  While the attempts counted so far are below the
  limit the delay is the documented minimum of cap and base times two to the attempts, as long as
  that product fits 64 bits; but the shift drops high bits, so with a doubling that overflows the
  delay is zero instead of the cap.  The rule also ignores the state of the delivery: it puts an
  expired or delivered message back into the queue.\<close>

lemma retry_rule:
  assumes "find_delivery m r s = Some d" "d_attempts d + 1 < max_attempts"
  shows "(base * 2 ^ d_attempts d < 2 ^ 64 \<and> d_attempts d < 64 \<longrightarrow>
      record_attempt_failure now jitter m r max_attempts base cap s =
        (Inr False, update_delivery m r (\<lambda>d'. d'\<lparr>d_state := DQueued, d_attempts := d_attempts d + 1,
           d_lease_until := None,
           d_next_retry_at := int now + int (min cap (base * 2 ^ d_attempts d)) + jitter\<rparr>) s)) \<and>
    (d_attempts d = 63 \<and> even base \<longrightarrow>
      record_attempt_failure now jitter m r max_attempts base cap s =
        (Inr False, update_delivery m r (\<lambda>d'. d'\<lparr>d_state := DQueued, d_attempts := 64,
           d_lease_until := None, d_next_retry_at := int now + jitter\<rparr>) s))"
proof -
  have "(base * 2 ^ 63) mod 2 ^ 64 = 0" if "even base"
  proof -
    from that obtain b where "base = 2 * b" by (elim evenE)
    then have "base * 2 ^ 63 = b * 2 ^ 64" by simp
    then show ?thesis by simp
  qed
  with assms show ?thesis
    by (auto simp: record_attempt_failure_def Let_def checked_shl_or_max_def)
qed

lemma example_expired:
  "find_delivery ''m1'' ''b'' (update_delivery ''m1'' ''b'' (\<lambda>d. d\<lparr>d_state := DExpired\<rparr>) example_store) =
    Some \<lparr>d_envelope_id = ''m1'', d_recipient = ''b'', d_state = DExpired, d_attempts = 0,
      d_lease_until = None, d_next_retry_at = 0\<rparr>"
  by (simp add: find_delivery_def update_delivery_def example_store_def insert_delivery_def
      insert_envelope_def empty_store_def replace_row_def delivery_key_def)

lemma retry_rule_witness:
  "record_attempt_failure 100 1 ''m1'' ''b'' 5 2 60
     (update_delivery ''m1'' ''b'' (\<lambda>d. d\<lparr>d_state := DExpired\<rparr>) example_store) =
   (Inr False, update_delivery ''m1'' ''b'' (\<lambda>d'. d'\<lparr>d_state := DQueued, d_attempts := 1,
       d_lease_until := None, d_next_retry_at := 103\<rparr>)
     (update_delivery ''m1'' ''b'' (\<lambda>d. d\<lparr>d_state := DExpired\<rparr>) example_store))"
  using retry_rule [OF example_expired, of 5 2 100 1 60] by simp

section \<open>Asks\<close>

text \<open>What may become of an ask: a pending one expires or takes one reply, a closed one stays as it is.\<close>

definition ask_moves :: "ask_row \<Rightarrow> ask_row \<Rightarrow> bool" where
  "ask_moves a b \<longleftrightarrow> b = a \<or> a_state a = APending \<and>
    (b = a\<lparr>a_state := AExpired\<rparr> \<or>
     (\<exists>m h. b = a\<lparr>a_state := AAnswered, a_reply_message_id := Some m, a_reply_body_sha256 := Some h\<rparr>))"

definition asks_settle :: "store \<Rightarrow> store \<Rightarrow> bool" where
  "asks_settle s t \<longleftrightarrow> (\<forall>i a. get_ask i s = Some a \<longrightarrow> (\<exists>b. get_ask i t = Some b \<and> ask_moves a b))"

lemma ask_moves_refl [simp]: "ask_moves a a"
  by (simp add: ask_moves_def)

lemma ask_moves_trans: "ask_moves a b \<Longrightarrow> ask_moves b c \<Longrightarrow> ask_moves a c"
  by (auto simp: ask_moves_def)

lemma asks_settle_trans: "asks_settle s t \<Longrightarrow> asks_settle t u \<Longrightarrow> asks_settle s u"
  unfolding asks_settle_def by (meson ask_moves_trans)

lemma asks_settle_same: "s_asks t = s_asks s \<Longrightarrow> asks_settle s t"
  by (simp add: asks_settle_def get_ask_def)

lemma asks_settle_insert:
  assumes "get_ask k s = None"
  shows "asks_settle s (insert_ask k m f t x s)"
proof -
  have "get_ask i (insert_ask k m f t x s) = get_ask i s" if "i \<noteq> k" for i
    using that by (simp add: insert_ask_def get_ask_def find_replace_row_other [where key = a_ask_id])
  with assms show ?thesis unfolding asks_settle_def by (metis ask_moves_refl option.distinct(1))
qed

lemma asks_settle_commit:
  assumes "get_ask k s = Some a" "a_state a = APending"
  shows "asks_settle s (commit_reply sha k env s)"
proof -
  have "get_ask i (commit_reply sha k env s) = map_option (\<lambda>b. if a_ask_id b = k then b\<lparr>a_state := AAnswered,
      a_reply_message_id := Some (e_message_id env), a_reply_body_sha256 := Some (sha (e_body env))\<rparr> else b) (get_ask i s)" for i
    by (simp add: commit_reply_def get_ask_def find_update_rows_key [where key = a_ask_id])
  moreover have "b = a" if "get_ask i s = Some b" "a_ask_id b = k" for i b
  proof -
    have "i = k" using that by (auto simp: get_ask_def dest: find_Some_in)
    with that(1) assms(1) show ?thesis by simp
  qed
  ultimately show ?thesis using assms(2) unfolding asks_settle_def ask_moves_def by auto
qed

lemma expire_asks_get:
  assumes "distinct (map a_ask_id (s_asks s))"
  shows "get_ask k (snd (expire_asks_due ts s)) =
    map_option (\<lambda>row. if a_state row = APending \<and> a_expires_at row \<le> ts then row\<lparr>a_state := AExpired\<rparr> else row)
      (get_ask k s)"
proof -
  let ?ids = "a_ask_id ` {a \<in> set (s_asks s). a_state a = APending \<and> a_expires_at a \<le> ts}"
  have "a_ask_id row \<in> ?ids \<longleftrightarrow> a_state row = APending \<and> a_expires_at row \<le> ts"
    if "row \<in> set (s_asks s)" for row
    using that assms by (auto simp: distinct_map inj_on_def)
  then show ?thesis
    using find_update_rows_key [of a_ask_id "\<lambda>a. a\<lparr>a_state := AExpired\<rparr>" k
        "\<lambda>a. a_ask_id a \<in> ?ids" "s_asks s"]
    by (cases "get_ask k s")
      (auto simp: expire_asks_due_eq Let_def get_ask_def dest: find_Some_in)
qed

lemma asks_settle_expire: "distinct (map a_ask_id (s_asks s)) \<Longrightarrow> asks_settle s (snd (expire_asks_due ts s))"
  by (auto simp: asks_settle_def expire_asks_get ask_moves_def)

section \<open>Sequence numbers and the inbox\<close>

definition seq_value :: "string \<Rightarrow> string \<Rightarrow> store \<Rightarrow> nat" where
  "seq_value f t s =
    (case List.find (\<lambda>r. sq_from_cell r = f \<and> sq_to_cell r = t) (s_seq_counters s) of
      None \<Rightarrow> 1 | Some r \<Rightarrow> sq_next_seq r)"

lemma find_update_seq:
  "List.find (\<lambda>r. sq_from_cell r = f' \<and> sq_to_cell r = t')
     (update_rows (\<lambda>r. sq_from_cell r = f \<and> sq_to_cell r = t) (\<lambda>r. r\<lparr>sq_next_seq := sq_next_seq r + 1\<rparr>) rs) =
   map_option (\<lambda>r. if f' = f \<and> t' = t then r\<lparr>sq_next_seq := sq_next_seq r + 1\<rparr> else r)
     (List.find (\<lambda>r. sq_from_cell r = f' \<and> sq_to_cell r = t') rs)"
  by (induction rs) auto

lemma next_seq_value:
  "fst (next_seq f t s) = seq_value f t s"
  "seq_value f' t' (snd (next_seq f t s)) =
    (if f' = f \<and> t' = t then seq_value f t s + 1 else seq_value f' t' s)"
proof -
  let ?hit = "\<lambda>r. sq_from_cell r = f \<and> sq_to_cell r = t"
  let ?rows = "if List.find ?hit (s_seq_counters s) = None
    then s_seq_counters s @ [\<lparr>sq_from_cell = f, sq_to_cell = t, sq_next_seq = 1\<rparr>] else s_seq_counters s"
  have hit: "List.find ?hit ?rows \<noteq> None" by (auto simp: find_append)
  show "fst (next_seq f t s) = seq_value f t s"
    by (auto simp: next_seq_def seq_value_def Let_def find_append split: option.splits)
  have "List.find (\<lambda>r. sq_from_cell r = f' \<and> sq_to_cell r = t') (s_seq_counters (snd (next_seq f t s))) =
      map_option (\<lambda>r. if f' = f \<and> t' = t then r\<lparr>sq_next_seq := sq_next_seq r + 1\<rparr> else r)
        (List.find (\<lambda>r. sq_from_cell r = f' \<and> sq_to_cell r = t') ?rows)"
    unfolding find_update_seq [symmetric] by (simp add: next_seq_def Let_def)
  moreover have "List.find (\<lambda>r. sq_from_cell r = f' \<and> sq_to_cell r = t') ?rows =
      (if List.find ?hit (s_seq_counters s) = None \<and> f' = f \<and> t' = t
       then Some \<lparr>sq_from_cell = f, sq_to_cell = t, sq_next_seq = 1\<rparr>
       else List.find (\<lambda>r. sq_from_cell r = f' \<and> sq_to_cell r = t') (s_seq_counters s))"
    by (auto simp: find_append split: option.splits)
  ultimately show "seq_value f' t' (snd (next_seq f t s)) =
      (if f' = f \<and> t' = t then seq_value f t s + 1 else seq_value f' t' s)"
    unfolding seq_value_def by (auto split: option.splits if_splits)
qed

fun seq_run :: "(string \<times> string) list \<Rightarrow> store \<Rightarrow> nat list \<times> store" where
  "seq_run [] s = ([], s)"
| "seq_run ((f, t) # ps) s =
    (case next_seq f t s of (n, s') \<Rightarrow> case seq_run ps s' of (ns, s'') \<Rightarrow> (n # ns, s''))"

lemma seq_run_values:
  "map snd (filter (\<lambda>(p, n). p = (f, t)) (zip ps (fst (seq_run ps s)))) =
    [seq_value f t s ..< seq_value f t s + length (filter (\<lambda>p. p = (f, t)) ps)]"
proof (induction ps arbitrary: s)
  case (Cons p ps)
  obtain a b where p: "p = (a, b)" by (cases p)
  obtain n s' where n: "next_seq a b s = (n, s')" by (cases "next_seq a b s")
  with next_seq_value(1) [of a b s] next_seq_value(2) [of f t a b s]
  have v: "n = seq_value a b s" "seq_value f t s' = (if f = a \<and> t = b then seq_value a b s + 1 else seq_value f t s)"
    by simp_all
  obtain ns s'' where r: "seq_run ps s' = (ns, s'')" by (cases "seq_run ps s'")
  show ?case
  proof (cases "f = a \<and> t = b")
    case True
    have "k # [k + 1 ..< k + 1 + m] = [k ..< k + Suc m]" for k m :: nat
      by (simp add: upt_conv_Cons del: upt_Suc)
    from this [of n] show ?thesis
      using True Cons.IH [of s'] p n v r by (simp del: upt_Suc)
  next
    case False
    then have "seq_value f t s' = seq_value f t s" "(p = (f, t)) = False" using v(2) p by auto
    moreover have "seq_run (p # ps) s = (n # ns, s'')" using p n r by simp
    ultimately show ?thesis using Cons.IH [of s'] r by (simp del: upt_Suc seq_run.simps)
  qed
qed simp

text \<open>The sequence numbers of each (sender, recipient) pair are 1, 2, 3, ... without gap or repeat,
  however the requests of different pairs are interleaved.\<close>

lemma sequence_numbers_gapless:
  "map snd (filter (\<lambda>(p, n). p = (f, t)) (zip ps (fst (seq_run ps empty_store)))) =
    [1 ..< Suc (length (filter (\<lambda>p. p = (f, t)) ps))]"
  using seq_run_values [of f t ps empty_store] by (simp add: seq_value_def empty_store_def)

definition inbox_rows :: "string \<Rightarrow> store \<Rightarrow> envelope list" where
  "inbox_rows r s =
    map fst (concat (map (join_envelope s)
      (filter (\<lambda>d. d_recipient d = r \<and> pending_delivery d) (s_deliveries s))))"

lemma in_inbox_rows:
  "e \<in> set (inbox_rows r s) \<longleftrightarrow> (\<exists>d \<in> set (s_deliveries s). d_recipient d = r \<and> pending_delivery d \<and>
     get_envelope (d_envelope_id d) s = Some e)"
proof -
  let ?ds = "filter (\<lambda>d. d_recipient d = r \<and> pending_delivery d) (s_deliveries s)"
  have "set (inbox_rows r s) = fst ` (\<Union>d \<in> set ?ds. set (join_envelope s d))"
    by (simp add: inbox_rows_def)
  then have "e \<in> set (inbox_rows r s) \<longleftrightarrow> (\<exists>x. (\<exists>d \<in> set ?ds. x \<in> set (join_envelope s d)) \<and> fst x = e)"
    by (simp only: image_iff UN_iff) blast
  also have "\<dots> \<longleftrightarrow> (\<exists>d \<in> set ?ds. get_envelope (d_envelope_id d) s = Some e)"
    unfolding in_join by auto
  finally show ?thesis by auto
qed


text \<open>An inbox pull returns the pending messages of the recipient with the smallest sequence
  numbers, in ascending order, at most the asked number, and says whether more were pending; the
  returned messages are delivered, so the next pull does not return them again.\<close>

lemma inbox_pull:
  assumes "reachable (\<lambda>s. s = empty_store) bus_step s" and "inbox r limit s = ((es, has_more), s1)"
  shows "es = take limit (sort_key e_seq (inbox_rows r s)) \<and> (has_more \<longleftrightarrow> limit < length (inbox_rows r s)) \<and>
    (\<forall>e \<in> set es. \<exists>d. find_delivery (e_message_id e) r s1 = Some d \<and> d_state d = DDelivered) \<and>
    e_message_id ` set es \<inter> e_message_id ` set (inbox_rows r s1) = {}"
proof -
  have keys: "bus_keys s" by (rule bus.inv_reachable [OF assms(1)])
  have keys1: "bus_keys s1" using bus.inv_step [OF keys bus_step.intros(8)] assms(2) by (metis snd_conv)
  let ?f = "\<lambda>d. d\<lparr>d_state := DDelivered, d_lease_until := None\<rparr>"
  let ?p = "\<lambda>d. d_recipient d = r \<and> d_envelope_id d \<in> e_message_id ` set es"
  from assms(2) have es: "es = take limit (sort_key e_seq (inbox_rows r s))"
    and has_more: "has_more \<longleftrightarrow> limit < length (inbox_rows r s)"
    and s1: "s1 = s\<lparr>s_deliveries := update_rows ?p ?f (s_deliveries s)\<rparr>"
    unfolding inbox_eq Let_def inbox_rows_def [symmetric] by (auto simp: min_def split: if_splits)
  have del: "\<exists>d. find_delivery (e_message_id e) r s1 = Some d \<and> d_state d = DDelivered"
    if e: "e \<in> set es" for e
  proof -
    have "e \<in> set (inbox_rows r s)" using in_set_takeD [of e limit "sort_key e_seq (inbox_rows r s)"] e es by simp
    then obtain d where d: "d \<in> set (s_deliveries s)" "d_recipient d = r" "d_envelope_id d = e_message_id e"
      by (auto simp: in_inbox_rows dest: get_envelope_id)
    then have "?f d \<in> set (s_deliveries s1)" using e by (force simp: s1 set_update_rows)
    from find_delivery_unique [OF keys1 this] d show ?thesis by simp
  qed
  have "e_message_id ` set es \<inter> e_message_id ` set (inbox_rows r s1) = {}"
  proof (unfold disjoint_iff, intro allI impI notI, elim imageE)
    fix x e e' assume e: "x = e_message_id e" "e \<in> set es" "x = e_message_id e'" "e' \<in> set (inbox_rows r s1)"
    then obtain d where d: "d \<in> set (s_deliveries s1)" "d_recipient d = r" "pending_delivery d"
      "d_envelope_id d = e_message_id e" by (auto simp: in_inbox_rows dest: get_envelope_id)
    from del [OF e(2)] find_delivery_unique [OF keys1 d(1)] d(2,4) have "d_state d = DDelivered" by auto
    with d(3) show False by (simp add: pending_delivery_def)
  qed
  with es has_more del show ?thesis by blast
qed

lemma inbox_pull_witness:
  "fst (inbox ''b'' 5 example_store) = ([example_envelope], False) \<and>
   ''m1'' \<notin> e_message_id ` set (inbox_rows ''b'' (snd (inbox ''b'' 5 example_store)))"
proof -
  have i: "fst (inbox ''b'' 5 example_store) = ([example_envelope], False)"
    by (simp add: inbox_eq Let_def example_store_def insert_delivery_def insert_envelope_def
        empty_store_def replace_row_def join_envelope_def get_envelope_def pending_delivery_def
        sort_key_def) (simp add: example_envelope_def)
  then have "inbox ''b'' 5 example_store = (([example_envelope], False), snd (inbox ''b'' 5 example_store))"
    by (simp add: prod_eq_iff)
  from inbox_pull [OF example_reachable this] i show ?thesis by (auto simp: example_envelope_def)
qed

end
