(* ===== verification/Cells.thy ===== *)
theory Cells
  imports Store AuditLog Validators
begin

text \<open>
  The registry of named cells (\<open>cells.rs\<close>).  Registering and updating append an audit event before
  the row is written, so the state is the store with the audit log.
\<close>

type_synonym core = "store \<times> audit_log"

definition audit_to :: "audit_draft \<Rightarrow> (unit, core) op" where
  "audit_to d c = (case c of (s, l) \<Rightarrow> (case audit_emit d l of (r, l') \<Rightarrow>
     (case r of Inl _ \<Rightarrow> (Inl Internal, (s, l')) | Inr u \<Rightarrow> (Inr u, (s, l')))))"

definition cell_detail :: "cell_def \<Rightarrow> json" where
  "cell_detail d = JObj [(''cwd'', JStr (c_cwd d)), (''engine'', JStr (engine_kind_as_str (c_engine d))),
     (''worktree_default'', JBool (c_worktree_default d))]"

definition cell_draft :: "string \<Rightarrow> cell_def \<Rightarrow> audit_draft" where
  "cell_draft kind d = \<lparr>dr_kind = kind, dr_message_id = None, dr_from = Some (c_name d), dr_to = None,
     dr_outcome = ''ok'', dr_detail = Some (cell_detail d)\<rparr>"

definition cell_present :: "string \<Rightarrow> store \<Rightarrow> bool" where
  "cell_present name s \<longleftrightarrow> (\<exists>c \<in> set (s_cells s). c_name c = name)"

definition cell_register :: "cell_def \<Rightarrow> (unit, core) op" where
  "cell_register def c =
    (case validate_cell_name (c_name def) of
      Inl e \<Rightarrow> (Inl e, c)
    | Inr _ \<Rightarrow>
        (if cell_present (c_name def) (fst c) then (Inl Internal, c)
         else bind_res (audit_to (cell_draft ''cell_registered'' def) c)
           (\<lambda>_ (s, l). (Inr (), (s\<lparr>s_cells := s_cells s @ [def]\<rparr>, l)))))"

definition cell_update :: "cell_def \<Rightarrow> (unit, core) op" where
  "cell_update def c =
    (case validate_cell_name (c_name def) of
      Inl e \<Rightarrow> (Inl e, c)
    | Inr _ \<Rightarrow>
        (if \<not> cell_present (c_name def) (fst c) then (Inl UnknownCell, c)
         else bind_res (audit_to (cell_draft ''cell_updated'' def) c)
           (\<lambda>_ (s, l). (Inr (), (s\<lparr>s_cells := update_rows (\<lambda>x. c_name x = c_name def) (\<lambda>_. def) (s_cells s)\<rparr>, l)))))"

definition cell_get :: "string \<Rightarrow> store \<Rightarrow> cell_def option" where
  "cell_get name s = List.find (\<lambda>c. c_name c = name) (s_cells s)"

definition cell_list_defs :: "store \<Rightarrow> cell_def list" where
  "cell_list_defs s = sort_key c_name (s_cells s)"

datatype spawn_target =
    Named cell_def
  | Ephemeral engine_kind "string option" "string option" string

definition resolve_spawn_target ::
  "cell_def option \<Rightarrow> engine_kind option \<Rightarrow> string option \<Rightarrow> string option \<Rightarrow> string option \<Rightarrow> spawn_target res" where
  "resolve_spawn_target named req_engine req_model req_profile req_cwd =
    (case named of
      Some def \<Rightarrow>
        (if req_engine \<noteq> None \<or> req_model \<noteq> None \<or> req_profile \<noteq> None \<or> req_cwd \<noteq> None
         then Inl PolicyDenied else Inr (Named def))
    | None \<Rightarrow>
        (case req_engine of
          None \<Rightarrow> Inl PolicyDenied
        | Some engine \<Rightarrow>
            Inr (Ephemeral engine req_model req_profile (case req_cwd of None \<Rightarrow> ''.'' | Some c \<Rightarrow> c))))"

lemma audit_to_cases:
  "audit_to d (s, l) = (r, c') \<Longrightarrow>
   (r = Inr () \<and> c' = (s, snd c') \<and> al_events (snd c') = al_events l @ [d] \<and> dr_kind d \<in> set AUDIT_KINDS) \<or>
   (r = Inl Internal \<and> c' = (s, snd c') \<and> al_events (snd c') = al_events l)"
  by (auto simp: audit_to_def split: prod.splits sum.splits dest!: audit_emit_cases)

lemma find_update_def:
  "List.find (\<lambda>c. c_name c = n) (update_rows (\<lambda>x. c_name x = c_name d) (\<lambda>_. d) rs) =
    (if n = c_name d \<and> (\<exists>x \<in> set rs. c_name x = n) then Some d else List.find (\<lambda>c. c_name c = n) rs)"
  by (induction rs) auto

lemma find_append_def:
  "\<forall>x \<in> set rs. c_name x \<noteq> c_name d \<Longrightarrow>
   List.find (\<lambda>c. c_name c = n) (rs @ [d]) = (if n = c_name d then Some d else List.find (\<lambda>c. c_name c = n) rs)"
  by (induction rs) auto

text \<open>The registry changes only together with its audit event.  Registering or updating a cell
  succeeds exactly by appending one event of its kind and then making the new definition the one
  that lookups of that name return, and every failure, a failed audit append included, leaves the
  store and the acknowledged events as they were.\<close>

lemma cell_changes_audited:
  "(case cell_register def (s, l) of
     (Inr _, (s', l')) \<Rightarrow> validate_cell_name (c_name def) = Inr () \<and> cell_get (c_name def) s = None \<and>
        al_events l' = al_events l @ [cell_draft ''cell_registered'' def] \<and>
        (\<forall>n. cell_get n s' = (if n = c_name def then Some def else cell_get n s))
   | (Inl _, (s', l')) \<Rightarrow> s' = s \<and> al_events l' = al_events l) \<and>
   (case cell_update def (s, l) of
     (Inr _, (s', l')) \<Rightarrow> cell_get (c_name def) s \<noteq> None \<and>
        al_events l' = al_events l @ [cell_draft ''cell_updated'' def] \<and>
        (\<forall>n. cell_get n s' = (if n = c_name def then Some def else cell_get n s))
   | (Inl _, (s', l')) \<Rightarrow> s' = s \<and> al_events l' = al_events l)"
proof
  have none: "cell_get n s = None \<longleftrightarrow> \<not> cell_present n s" for n
    by (auto simp: cell_get_def cell_present_def find_None_iff)
  show "case cell_register def (s, l) of
     (Inr _, (s', l')) \<Rightarrow> validate_cell_name (c_name def) = Inr () \<and> cell_get (c_name def) s = None \<and>
        al_events l' = al_events l @ [cell_draft ''cell_registered'' def] \<and>
        (\<forall>n. cell_get n s' = (if n = c_name def then Some def else cell_get n s))
   | (Inl _, (s', l')) \<Rightarrow> s' = s \<and> al_events l' = al_events l"
  proof (cases "validate_cell_name (c_name def) = Inr () \<and> \<not> cell_present (c_name def) s")
    case True
    obtain r c' where a: "audit_to (cell_draft ''cell_registered'' def) (s, l) = (r, c')" by (metis prod.exhaust)
    from audit_to_cases [OF a] show ?thesis
      using True none [of "c_name def"]
      by (cases c') (auto simp: cell_register_def a cell_get_def find_append_def cell_present_def)
  next
    case False
    then show ?thesis by (auto simp: cell_register_def split: sum.splits)
  qed
  show "case cell_update def (s, l) of
     (Inr _, (s', l')) \<Rightarrow> cell_get (c_name def) s \<noteq> None \<and>
        al_events l' = al_events l @ [cell_draft ''cell_updated'' def] \<and>
        (\<forall>n. cell_get n s' = (if n = c_name def then Some def else cell_get n s))
   | (Inl _, (s', l')) \<Rightarrow> s' = s \<and> al_events l' = al_events l"
  proof (cases "validate_cell_name (c_name def) = Inr () \<and> cell_present (c_name def) s")
    case True
    obtain r c' where a: "audit_to (cell_draft ''cell_updated'' def) (s, l) = (r, c')" by (metis prod.exhaust)
    from audit_to_cases [OF a] show ?thesis
      using True none [of "c_name def"]
      by (cases c') (auto simp: cell_update_def a cell_get_def find_update_def cell_present_def)
  next
    case False
    then show ?thesis by (auto simp: cell_update_def split: sum.splits)
  qed
qed

end
