(* ===== verification/Threads.thy ===== *)
theory Threads
  imports Store Validators
begin

text \<open>
  Cell threads (\<open>threads.rs\<close>): the seven-state machine, the operations on the
  \<open>cell_threads\<close> table, the conversion of a raw row (\<open>ThreadRaw\<close>) and the discovery of the
  cells outside the registry that have queued work.
\<close>

fun thread_transition_allowed :: "thread_state \<Rightarrow> thread_state \<Rightarrow> bool" where
  "thread_transition_allowed TSpawning TRunning = True"
| "thread_transition_allowed TSpawning TFailedUnknown = True"
| "thread_transition_allowed TRunning TIdle = True"
| "thread_transition_allowed TRunning TInterrupted = True"
| "thread_transition_allowed TRunning TTimeout = True"
| "thread_transition_allowed TRunning TFailedUnknown = True"
| "thread_transition_allowed TRunning TDone = True"
| "thread_transition_allowed TIdle TRunning = True"
| "thread_transition_allowed TInterrupted TRunning = True"
| "thread_transition_allowed TTimeout TRunning = True"
| "thread_transition_allowed TFailedUnknown TRunning = True"
| "thread_transition_allowed TDone TRunning = True"
| "thread_transition_allowed _ _ = False"

section \<open>Raw rows\<close>

record thread_raw =
  tr_crewd_thread_id :: string
  tr_cell_name :: string
  tr_engine_kind :: string
  tr_model :: "string option"
  tr_profile :: "string option"
  tr_engine_process_id :: "int option"
  tr_engine_thread_id :: "string option"
  tr_engine_turn_id :: "string option"
  tr_engine_session_id :: "string option"
  tr_cwd :: string
  tr_worktree_path :: "string option"
  tr_state :: string
  tr_generation :: int
  tr_created_by_principal :: string
  tr_idempotency_key :: string
  tr_created_at :: string
  tr_updated_at :: string

text \<open>\<open>into_thread\<close>; \<open>generation as u32\<close> keeps the low 32 bits.\<close>

definition into_thread :: "thread_raw \<Rightarrow> cell_thread res" where
  "into_thread r =
    (case engine_kind_from_db_str (tr_engine_kind r) of
      None \<Rightarrow> Inl Internal
    | Some engine \<Rightarrow>
        (case thread_state_from_db_str (tr_state r) of
          None \<Rightarrow> Inl Internal
        | Some st \<Rightarrow> Inr
            \<lparr>t_crewd_thread_id = tr_crewd_thread_id r, t_cell_name = tr_cell_name r,
             t_engine_kind = engine, t_model = tr_model r, t_profile = tr_profile r,
             t_engine_process_id = tr_engine_process_id r, t_engine_thread_id = tr_engine_thread_id r,
             t_engine_turn_id = tr_engine_turn_id r, t_engine_session_id = tr_engine_session_id r,
             t_cwd = tr_cwd r, t_worktree_path = tr_worktree_path r, t_state = st,
             t_generation = nat (tr_generation r mod 2 ^ 32),
             t_created_by_principal = tr_created_by_principal r,
             t_idempotency_key = tr_idempotency_key r, t_created_at = tr_created_at r,
             t_updated_at = tr_updated_at r\<rparr>))"

text \<open>The values that \<open>thread_insert\<close> binds.\<close>

definition thread_params :: "cell_thread \<Rightarrow> thread_raw" where
  "thread_params t =
    \<lparr>tr_crewd_thread_id = t_crewd_thread_id t, tr_cell_name = t_cell_name t,
     tr_engine_kind = engine_kind_as_str (t_engine_kind t), tr_model = t_model t,
     tr_profile = t_profile t, tr_engine_process_id = t_engine_process_id t,
     tr_engine_thread_id = t_engine_thread_id t, tr_engine_turn_id = t_engine_turn_id t,
     tr_engine_session_id = t_engine_session_id t, tr_cwd = t_cwd t,
     tr_worktree_path = t_worktree_path t, tr_state = thread_state_as_str (t_state t),
     tr_generation = int (t_generation t), tr_created_by_principal = t_created_by_principal t,
     tr_idempotency_key = t_idempotency_key t, tr_created_at = t_created_at t,
     tr_updated_at = t_updated_at t\<rparr>"

section \<open>Operations\<close>

definition thread_get :: "string \<Rightarrow> store \<Rightarrow> cell_thread option" where
  "thread_get i s = List.find (\<lambda>t. t_crewd_thread_id t = i) (s_threads s)"

definition thread_insert :: "cell_thread \<Rightarrow> (unit, store) op" where
  "thread_insert t s =
    (if thread_get (t_crewd_thread_id t) s \<noteq> None then (Inl Internal, s)
     else (Inr (), s\<lparr>s_threads := s_threads s @ [t]\<rparr>))"

text \<open>\<open>ORDER BY updated_at DESC LIMIT 1\<close>, the first such row on a tie.\<close>

fun latest_thread :: "cell_thread list \<Rightarrow> cell_thread option" where
  "latest_thread [] = None"
| "latest_thread (t # ts) =
    (case latest_thread ts of
      None \<Rightarrow> Some t | Some u \<Rightarrow> if t_updated_at t < t_updated_at u then Some u else Some t)"

definition thread_active :: "cell_thread \<Rightarrow> bool" where
  "thread_active t \<longleftrightarrow> t_state t \<in> {TSpawning, TRunning}"

definition thread_active_for_cell :: "string \<Rightarrow> store \<Rightarrow> cell_thread option" where
  "thread_active_for_cell cell s =
    latest_thread (filter (\<lambda>t. t_cell_name t = cell \<and> thread_active t) (s_threads s))"

definition update_thread :: "string \<Rightarrow> (cell_thread \<Rightarrow> cell_thread) \<Rightarrow> store \<Rightarrow> store" where
  "update_thread i f s = s\<lparr>s_threads := update_rows (\<lambda>t. t_crewd_thread_id t = i) f (s_threads s)\<rparr>"

definition thread_transition :: "nat \<Rightarrow> string \<Rightarrow> thread_state \<Rightarrow> (unit, store) op" where
  "thread_transition now i target s =
    (case thread_get i s of
      None \<Rightarrow> (Inl Internal, s)
    | Some t \<Rightarrow>
        (if \<not> thread_transition_allowed (t_state t) target then (Inl Internal, s)
         else (Inr (), update_thread i
                (\<lambda>t. t\<lparr>t_state := target, t_updated_at := now_rfc3339 now\<rparr>) s)))"

definition coalesce :: "'a option \<Rightarrow> 'a option \<Rightarrow> 'a option" where
  "coalesce new old = (case new of None \<Rightarrow> old | Some _ \<Rightarrow> new)"

definition thread_set_engine_ids ::
  "nat \<Rightarrow> string \<Rightarrow> int option \<Rightarrow> string option \<Rightarrow> string option \<Rightarrow> string option \<Rightarrow> (unit, store) op" where
  "thread_set_engine_ids now i process_id thread_id turn_id session_id s =
    (if thread_get i s = None then (Inl Internal, s)
     else (Inr (), update_thread i (\<lambda>t. t
            \<lparr>t_engine_process_id := coalesce process_id (t_engine_process_id t),
             t_engine_thread_id := coalesce thread_id (t_engine_thread_id t),
             t_engine_turn_id := coalesce turn_id (t_engine_turn_id t),
             t_engine_session_id := coalesce session_id (t_engine_session_id t),
             t_updated_at := now_rfc3339 now\<rparr>) s))"

definition threads_in_states :: "thread_state list \<Rightarrow> store \<Rightarrow> cell_thread list" where
  "threads_in_states states s =
    (if states = [] then []
     else sort_key t_created_at (filter (\<lambda>t. t_state t \<in> set states) (s_threads s)))"

definition thread_bump_generation :: "nat \<Rightarrow> string \<Rightarrow> (nat, store) op" where
  "thread_bump_generation now i s =
    (case thread_get i s of
      None \<Rightarrow> (Inl Internal, s)
    | Some t \<Rightarrow> (Inr ((t_generation t + 1) mod 2 ^ 32), update_thread i
        (\<lambda>t. t\<lparr>t_generation := t_generation t + 1, t_updated_at := now_rfc3339 now\<rparr>) s))"

text \<open>
  \<open>GROUP BY t.cell_name HAVING MAX(t.updated_at)\<close>: one row per cell in name order, the bare
  columns from the row with the largest time; the condition is the numeric value of that text
  (its leading digits) being non-zero.
\<close>

definition sql_true :: "string \<Rightarrow> bool" where
  "sql_true s \<longleftrightarrow> (\<exists>c \<in> set (takeWhile is_ascii_digit s). c \<noteq> CHR ''0'')"

definition ephemeral_startable_defs :: "store \<Rightarrow> cell_def list" where
  "ephemeral_startable_defs s =
    (let ts = filter (\<lambda>t. t_cell_name t \<notin> c_name ` set (s_cells s) \<and>
                (\<exists>j \<in> set (s_jobs s). j_cell_name j = t_cell_name t \<and> j_state j = JQueued)) (s_threads s);
         names = sort (remdups (map t_cell_name ts));
         groups = List.map_filter (\<lambda>n. latest_thread (filter (\<lambda>t. t_cell_name t = n) ts)) names
     in map (\<lambda>t. \<lparr>c_name = t_cell_name t, c_engine = t_engine_kind t, c_model = t_model t,
               c_profile = t_profile t, c_cwd = t_cwd t, c_worktree_default = False,
               c_memory_device = None, c_created_at = t_created_at t\<rparr>)
          (filter (\<lambda>t. sql_true (t_updated_at t)) groups))"

section \<open>Lemmas\<close>

lemma thread_get_id: "thread_get i s = Some t \<Longrightarrow> t_crewd_thread_id t = i \<and> t \<in> set (s_threads s)"
  by (auto simp: thread_get_def dest: find_Some_in)

lemma thread_get_update:
  assumes "\<And>t. t_crewd_thread_id (f t) = t_crewd_thread_id t"
  shows "thread_get k (update_thread i f s) =
    (if k = i then map_option f (thread_get i s) else thread_get k s)"
proof -
  have "thread_get k (update_thread i f s) =
      map_option (\<lambda>t. if t_crewd_thread_id t = i then f t else t) (thread_get k s)"
    unfolding thread_get_def update_thread_def
    by (simp add: find_update_rows_key [where key = t_crewd_thread_id, OF assms])
  then show ?thesis
    by (cases "thread_get k s") (auto dest: thread_get_id)
qed

text \<open>What is written for a thread is read back: converting the bound values of an inserted thread
  yields that thread, and a row whose engine or state text is not one the code writes is an
  internal error, never a guess.\<close>

lemma thread_row_round_trip:
  assumes "t_generation t < 2 ^ 32"
  shows "into_thread (thread_params t) = Inr t \<and>
    (engine_kind_from_db_str (tr_engine_kind r) = None \<or> thread_state_from_db_str (tr_state r) = None \<longrightarrow>
       into_thread r = Inl Internal)"
  using assms by (auto simp: into_thread_def thread_params_def split: option.splits)

definition example_thread :: cell_thread where
  "example_thread =
    \<lparr>t_crewd_thread_id = ''th'', t_cell_name = ''w'', t_engine_kind = Claude, t_model = None,
     t_profile = None, t_engine_process_id = None, t_engine_thread_id = None,
     t_engine_turn_id = None, t_engine_session_id = None, t_cwd = ''/w'', t_worktree_path = None,
     t_state = TSpawning, t_generation = 7, t_created_by_principal = ''dev'',
     t_idempotency_key = ''k'', t_created_at = ''2026-01-01T00:00:00Z'',
     t_updated_at = ''2026-01-01T00:00:00Z''\<rparr>"

theorem thread_row_round_trip_witness:
  "into_thread (thread_params example_thread) = Inr example_thread"
  using thread_row_round_trip [of example_thread undefined] by (simp add: example_thread_def)

inductive thread_step :: "store \<Rightarrow> store \<Rightarrow> bool" where
  "thread_step s (snd (thread_insert t s))"
| "thread_step s (snd (thread_transition now i target s))"
| "thread_step s (snd (thread_set_engine_ids now i p th tu se s))"
| "thread_step s (snd (thread_bump_generation now i s))"

text \<open>What stays of a thread: its identity and launch parameters, and its generation never falls.\<close>

definition thread_later :: "cell_thread \<Rightarrow> cell_thread \<Rightarrow> bool" where
  "thread_later t u \<longleftrightarrow>
    t_crewd_thread_id u = t_crewd_thread_id t \<and> t_cell_name u = t_cell_name t \<and>
    t_engine_kind u = t_engine_kind t \<and> t_model u = t_model t \<and> t_profile u = t_profile t \<and>
    t_cwd u = t_cwd t \<and> t_worktree_path u = t_worktree_path t \<and>
    t_created_by_principal u = t_created_by_principal t \<and>
    t_idempotency_key u = t_idempotency_key t \<and> t_created_at u = t_created_at t \<and>
    t_generation t \<le> t_generation u \<and>
    (t_state t, t_state u) \<in> {(a, b). thread_transition_allowed a b}\<^sup>*"

lemma thread_later_trans: "thread_later t u \<Longrightarrow> thread_later u v \<Longrightarrow> thread_later t v"
  by (auto simp: thread_later_def)

interpretation kept_thread: invariant_of "\<lambda>s. thread_get i s = Some t" thread_step
  "\<lambda>s. \<exists>u. thread_get i s = Some u \<and> thread_later t u" for i t
proof (unfold_locales, goal_cases)
  case (1 s)
  then show ?case by (auto simp: thread_later_def)
next
  case (2 s s')
  then obtain u where u: "thread_get i s = Some u" "thread_later t u" by blast
  from 2(2) have "\<exists>v. thread_get i s' = Some v \<and> thread_later u v"
  proof cases
    case (1 x)
    with u show ?thesis
      by (auto simp: thread_insert_def thread_get_def find_append thread_later_def)
  next
    case (2 now k target)
    with u show ?thesis
      by (cases "k = i") (auto simp: thread_transition_def thread_get_update thread_later_def split: option.splits)
  next
    case (3 now k p th tu se)
    with u show ?thesis
      by (auto simp: thread_set_engine_ids_def thread_get_update thread_later_def)
  next
    case (4 now k)
    with u show ?thesis
      by (auto simp: thread_bump_generation_def thread_get_update thread_later_def split: option.splits)
  qed
  with u(2) show ?case by (blast intro: thread_later_trans)
qed

definition threads_ok :: "store \<Rightarrow> bool" where
  "threads_ok s \<longleftrightarrow> distinct (map t_crewd_thread_id (s_threads s))"

lemma threads_ok_update:
  "threads_ok s \<Longrightarrow> (\<And>t. t_crewd_thread_id (f t) = t_crewd_thread_id t) \<Longrightarrow>
   threads_ok (s\<lparr>s_threads := update_rows p f (s_threads s)\<rparr>)"
  by (simp add: threads_ok_def map_update_rows_inv)

lemma threads_ok_step: "thread_step s t \<Longrightarrow> threads_ok s \<Longrightarrow> threads_ok t"
proof (induction rule: thread_step.induct)
  case (1 s t)
  then show ?case by (auto simp: thread_insert_def threads_ok_def thread_get_def find_None_iff)
qed (auto simp: thread_transition_def thread_set_engine_ids_def thread_bump_generation_def update_thread_def
    intro!: threads_ok_update split: option.split)

text \<open>Every thread of a store is still there, changed at most along its life, and keys stay unique.\<close>

definition threads_kept :: "store \<Rightarrow> store \<Rightarrow> bool" where
  "threads_kept s t \<longleftrightarrow> (\<forall>i u. thread_get i s = Some u \<longrightarrow> (\<exists>v. thread_get i t = Some v \<and> thread_later u v)) \<and>
    (threads_ok s \<longrightarrow> threads_ok t)"

lemma thread_later_refl [simp]: "thread_later t t"
  by (simp add: thread_later_def)

lemma threads_kept_trans: "threads_kept s t \<Longrightarrow> threads_kept t u \<Longrightarrow> threads_kept s u"
  unfolding threads_kept_def by (meson thread_later_trans)

lemma threads_kept_same: "s_threads t = s_threads s \<Longrightarrow> threads_kept s t"
  by (simp add: threads_kept_def thread_get_def threads_ok_def)

lemma threads_kept_step: "thread_step s t \<Longrightarrow> threads_kept s t"
  unfolding threads_kept_def using kept_thread.inv_step [where s = s and t = t] thread_later_refl threads_ok_step by blast

lemma never_spawning_again:
  "(a, b) \<in> {(a, b). thread_transition_allowed a b}\<^sup>* \<Longrightarrow> a \<noteq> TSpawning \<Longrightarrow> b \<noteq> TSpawning"
  by (induction rule: rtrancl_induct) (auto elim: thread_transition_allowed.elims)

lemma lifecycle_later:
  "thread_get i s = Some t \<Longrightarrow> thread_step\<^sup>*\<^sup>* s s' \<Longrightarrow> \<exists>u. thread_get i s' = Some u \<and> thread_later t u"
  using kept_thread.inv_steps [OF _ kept_thread.inv_init] by blast

text \<open>The matrix of the comment in \<open>threads.rs\<close>, written out: a turn starts from every state but
  running, ends in one of five states, and a spawn that never started can only fail.\<close>

definition thread_matrix :: "(thread_state \<times> thread_state) set" where
  "thread_matrix =
    {TSpawning, TIdle, TInterrupted, TTimeout, TFailedUnknown, TDone} \<times> {TRunning} \<union>
    {TRunning} \<times> {TIdle, TInterrupted, TTimeout, TFailedUnknown, TDone} \<union> {(TSpawning, TFailedUnknown)}"

lemma thread_matrix_iff: "(a, b) \<in> thread_matrix \<longleftrightarrow> thread_transition_allowed a b"
  by (cases a; cases b) (simp_all add: thread_matrix_def)

text \<open>What one operation does to one thread.\<close>

definition thread_moved :: "cell_thread \<Rightarrow> cell_thread \<Rightarrow> bool" where
  "thread_moved u v \<longleftrightarrow>
    (t_state v = t_state u \<or> (t_state u, t_state v) \<in> thread_matrix \<and> t_generation v = t_generation u) \<and>
    t_generation v \<in> {t_generation u, t_generation u + 1}"

lemma thread_moved_step:
  assumes "thread_step s s'" "thread_get i s = Some u"
  shows "\<exists>v. thread_get i s' = Some v \<and> thread_moved u v"
  using assms(1)
proof cases
  case (1 x)
  with assms(2) show ?thesis by (auto simp: thread_insert_def thread_get_def find_append thread_moved_def)
next
  case (2 now k target)
  with assms(2) show ?thesis
    by (cases "k = i") (auto simp: thread_transition_def thread_get_update thread_moved_def thread_matrix_iff
        split: option.splits)
next
  case (3 now k p th tu se)
  with assms(2) show ?thesis by (auto simp: thread_set_engine_ids_def thread_get_update thread_moved_def)
next
  case (4 now k)
  with assms(2) show ?thesis
    by (auto simp: thread_bump_generation_def thread_get_update thread_moved_def split: option.splits)
qed

lemma thread_transition_exact:
  assumes "thread_get i s = Some u"
  shows "thread_transition now i target s =
    (if (t_state u, target) \<in> thread_matrix
     then (Inr (), update_thread i (\<lambda>t. t\<lparr>t_state := target, t_updated_at := now_rfc3339 now\<rparr>) s)
     else (Inl Internal, s))"
  using assms by (simp add: thread_transition_def thread_matrix_iff)

text \<open>C27: the life of a thread.  After any sequence of thread operations a thread is still there with
  its identity, cell, engine, launch parameters, owner and key, and a generation that has not fallen;
  every single next operation leaves its state alone or moves it along one edge of the matrix, and
  changes its generation by at most one; a transition is carried out exactly when it is an edge of
  the matrix and is otherwise refused without an effect; and once a thread has left the spawning
  state it never returns to it.\<close>

theorem thread_lifecycle:
  assumes "thread_get i s = Some t" "thread_step\<^sup>*\<^sup>* s s1" "thread_step s1 s2"
  shows "\<exists>u v. thread_get i s1 = Some u \<and> thread_get i s2 = Some v \<and>
    thread_later t u \<and> thread_later t v \<and> thread_moved u v \<and>
    (\<forall>now target. thread_transition now i target s1 =
      (if (t_state u, target) \<in> thread_matrix
       then (Inr (), update_thread i (\<lambda>t. t\<lparr>t_state := target, t_updated_at := now_rfc3339 now\<rparr>) s1)
       else (Inl Internal, s1))) \<and>
    (t_state t \<noteq> TSpawning \<longrightarrow> t_state u \<noteq> TSpawning)"
proof -
  from lifecycle_later [OF assms(1,2)] obtain u where u: "thread_get i s1 = Some u" "thread_later t u" by blast
  from thread_moved_step [OF assms(3) u(1)] obtain v where v: "thread_get i s2 = Some v" "thread_moved u v" by blast
  have "thread_later t v" using lifecycle_later [OF assms(1) rtranclp.rtrancl_into_rtrancl [OF assms(2,3)]] v(1) by auto
  moreover have "t_state t \<noteq> TSpawning \<longrightarrow> t_state u \<noteq> TSpawning"
    using u(2) by (auto simp: thread_later_def dest: never_spawning_again)
  ultimately show ?thesis using u v thread_transition_exact [OF u(1)] by blast
qed

text \<open>A run of two transitions, whose second ends the turn; ending it a second time is refused.\<close>

theorem thread_lifecycle_witness:
  "\<exists>s1 s2 v. s1 = snd (thread_transition 5 ''th'' TRunning (empty_store\<lparr>s_threads := [example_thread]\<rparr>)) \<and>
     s2 = snd (thread_transition 6 ''th'' TDone s1) \<and> thread_get ''th'' s2 = Some v \<and>
     t_state v = TDone \<and> t_created_by_principal v = ''dev'' \<and> thread_transition 7 ''th'' TIdle s2 = (Inl Internal, s2)"
proof -
  let ?s = "empty_store\<lparr>s_threads := [example_thread]\<rparr>"
  let ?s1 = "snd (thread_transition 5 ''th'' TRunning ?s)" and ?s2 = "snd (thread_transition 6 ''th'' TDone (snd (thread_transition 5 ''th'' TRunning ?s)))"
  have g: "thread_get ''th'' ?s = Some example_thread" by (simp add: thread_get_def example_thread_def)
  have st: "map_option t_state (thread_get ''th'' ?s2) = Some TDone"
    by (simp add: thread_transition_def thread_get_def update_thread_def example_thread_def)
  have r1: "thread_step\<^sup>*\<^sup>* ?s ?s1" by (rule r_into_rtranclp) (rule thread_step.intros(2))
  have r2: "thread_step\<^sup>*\<^sup>* ?s ?s2" by (rule rtranclp.rtrancl_into_rtrancl [OF r1]) (rule thread_step.intros(2))
  from thread_lifecycle [OF g r2 thread_step.intros(2) [of _ 7 "''th''" TIdle]] obtain v where
    v: "thread_get ''th'' ?s2 = Some v" "thread_later example_thread v"
      "\<forall>now target. thread_transition now ''th'' target ?s2 =
      (if (t_state v, target) \<in> thread_matrix
       then (Inr (), update_thread ''th'' (\<lambda>t. t\<lparr>t_state := target, t_updated_at := now_rfc3339 now\<rparr>) ?s2)
       else (Inl Internal, ?s2))" by blast
  have fin: "t_state v = TDone" using v(1) st by simp
  have "(TDone, TIdle) \<notin> thread_matrix" by (simp add: thread_matrix_def)
  then have "thread_transition 7 ''th'' TIdle ?s2 = (Inl Internal, ?s2)" using v(3) fin by simp
  moreover have "t_created_by_principal v = ''dev''" using v(2) by (simp add: thread_later_def example_thread_def)
  ultimately show ?thesis using v(1) fin by blast
qed

end
