(* ===== verification/Jobs.thy ===== *)
theory Jobs
  imports Store Calendar
begin

text \<open>
  The per-cell job queue of \<open>jobs.rs\<close>: enqueueing under the depth cap, leasing in enqueue order
  with head-of-line blocking, acceptance, completion and the two requeue paths.  Identifiers and
  the clock are arguments.  The interface \<open>fifo_queue\<close> states what a client of a queue relies on;
  it is interpreted on the queued jobs of one cell.
\<close>

definition QUEUE_DEPTH_DEFAULT :: nat where "QUEUE_DEPTH_DEFAULT = 8"

section \<open>Raw rows\<close>

record job_raw =
  jr_job_id :: string
  jr_crewd_thread_id :: string
  jr_cell_name :: string
  jr_payload :: string
  jr_state :: string
  jr_lease_expires_at :: "string option"
  jr_accepted_by_engine_at :: "string option"
  jr_engine_turn_id :: "string option"
  jr_created_at :: string
  jr_enqueue_seq :: int

definition into_job :: "job_raw \<Rightarrow> cell_job res" where
  "into_job r =
    (case job_state_from_db_str (jr_state r) of
      None \<Rightarrow> Inl Internal
    | Some st \<Rightarrow> Inr
        \<lparr>j_job_id = jr_job_id r, j_crewd_thread_id = jr_crewd_thread_id r,
         j_cell_name = jr_cell_name r, j_payload = jr_payload r, j_state = st,
         j_lease_expires_at = jr_lease_expires_at r,
         j_accepted_by_engine_at = jr_accepted_by_engine_at r,
         j_engine_turn_id = jr_engine_turn_id r, j_created_at = jr_created_at r,
         j_enqueue_seq = nat (jr_enqueue_seq r mod 2 ^ 64)\<rparr>)"

section \<open>Operations\<close>

definition job_active :: "cell_job \<Rightarrow> bool" where
  "job_active j \<longleftrightarrow> j_state j \<in> {JQueued, JLeased, JStarted}"

definition job_active_count_for_cell :: "string \<Rightarrow> store \<Rightarrow> nat" where
  "job_active_count_for_cell cell s =
    count_rows (\<lambda>j. j_cell_name j = cell \<and> job_active j) (s_jobs s)"

definition next_enqueue_seq :: "string \<Rightarrow> store \<Rightarrow> nat" where
  "next_enqueue_seq cell s =
    fold max (map j_enqueue_seq (filter (\<lambda>j. j_cell_name j = cell) (s_jobs s))) 0 + 1"

definition job_get :: "string \<Rightarrow> store \<Rightarrow> cell_job option" where
  "job_get i s = List.find (\<lambda>j. j_job_id j = i) (s_jobs s)"

definition job_enqueue_inner ::
  "nat \<Rightarrow> string \<Rightarrow> string \<Rightarrow> string \<Rightarrow> string \<Rightarrow> nat \<Rightarrow> (cell_job, store) op" where
  "job_enqueue_inner now uuid thread_id cell payload depth_cap s =
    (if depth_cap \<le> job_active_count_for_cell cell s then (Inl QueueFull, s)
     else let job = \<lparr>j_job_id = uuid, j_crewd_thread_id = thread_id, j_cell_name = cell,
                     j_payload = payload, j_state = JQueued, j_lease_expires_at = None,
                     j_accepted_by_engine_at = None, j_engine_turn_id = None,
                     j_created_at = now_rfc3339 now, j_enqueue_seq = next_enqueue_seq cell s\<rparr>
       in if job_get uuid s \<noteq> None then (Inl Internal, s)
          else (Inr job, s\<lparr>s_jobs := s_jobs s @ [job]\<rparr>))"

definition job_enqueue ::
  "nat \<Rightarrow> string \<Rightarrow> string \<Rightarrow> string \<Rightarrow> string \<Rightarrow> nat \<Rightarrow> (cell_job, store) op" where
  "job_enqueue now uuid thread_id cell payload depth_cap =
    in_tx (job_enqueue_inner now uuid thread_id cell payload depth_cap)"

definition update_job :: "string \<Rightarrow> (cell_job \<Rightarrow> cell_job) \<Rightarrow> store \<Rightarrow> store" where
  "update_job i f s = s\<lparr>s_jobs := update_rows (\<lambda>j. j_job_id j = i) f (s_jobs s)\<rparr>"

text \<open>The queued jobs of a cell, \<open>ORDER BY enqueue_seq\<close>.\<close>

definition queued_jobs :: "string \<Rightarrow> store \<Rightarrow> cell_job list" where
  "queued_jobs cell s =
    sort_key j_enqueue_seq (filter (\<lambda>j. j_cell_name j = cell \<and> j_state j = JQueued) (s_jobs s))"

definition cell_blocked :: "string \<Rightarrow> store \<Rightarrow> bool" where
  "cell_blocked cell s \<longleftrightarrow> 0 < count_rows (\<lambda>j. j_cell_name j = cell \<and> j_state j = JStarted) (s_jobs s)"

definition job_lease_next :: "nat \<Rightarrow> string \<Rightarrow> nat \<Rightarrow> store \<Rightarrow> cell_job option \<times> store" where
  "job_lease_next now cell lease_secs s =
    (if cell_blocked cell s then (None, s)
     else case queued_jobs cell s of
       [] \<Rightarrow> (None, s)
     | j # _ \<Rightarrow>
        (let s' = update_job (j_job_id j)
               (\<lambda>j. j\<lparr>j_state := JLeased, j_lease_expires_at := Some (rfc3339_after now lease_secs)\<rparr>) s
         in (job_get (j_job_id j) s', s')))"

definition set_job :: "string \<Rightarrow> (cell_job \<Rightarrow> cell_job) \<Rightarrow> (unit, store) op" where
  "set_job i f s = (if job_get i s = None then (Inl Internal, s) else (Inr (), update_job i f s))"

definition job_mark_started :: "string \<Rightarrow> (unit, store) op" where
  "job_mark_started i = set_job i (\<lambda>j. j\<lparr>j_state := JStarted\<rparr>)"

definition job_mark_accepted :: "nat \<Rightarrow> string \<Rightarrow> string \<Rightarrow> (unit, store) op" where
  "job_mark_accepted now i turn_id =
    set_job i (\<lambda>j. j\<lparr>j_accepted_by_engine_at := Some (now_rfc3339 now), j_engine_turn_id := Some turn_id\<rparr>)"

definition job_finish :: "string \<Rightarrow> (unit, store) op" where
  "job_finish i = set_job i (\<lambda>j. j\<lparr>j_state := JFinished\<rparr>)"

definition job_cancel :: "string \<Rightarrow> (unit, store) op" where
  "job_cancel i = set_job i (\<lambda>j. j\<lparr>j_state := JCancelled\<rparr>)"

definition requeueable :: "cell_job \<Rightarrow> bool" where
  "requeueable j \<longleftrightarrow> j_accepted_by_engine_at j = None \<and> j_state j \<in> {JLeased, JStarted}"

definition job_requeue :: "string \<Rightarrow> store \<Rightarrow> bool \<times> store" where
  "job_requeue i s =
    (\<exists>j \<in> set (s_jobs s). j_job_id j = i \<and> requeueable j,
     s\<lparr>s_jobs := update_rows (\<lambda>j. j_job_id j = i \<and> requeueable j)
          (\<lambda>j. j\<lparr>j_state := JQueued, j_lease_expires_at := None\<rparr>) (s_jobs s)\<rparr>)"

definition job_requeue_expired_leases :: "string \<Rightarrow> store \<Rightarrow> string list \<times> store" where
  "job_requeue_expired_leases now s =
    (let ids = map j_job_id (filter (\<lambda>j. (case j_lease_expires_at j of None \<Rightarrow> False | Some e \<Rightarrow> e < now) \<and>
                  requeueable j) (s_jobs s))
     in (ids, fold (\<lambda>i. update_job i (\<lambda>j. j\<lparr>j_state := JQueued, j_lease_expires_at := None\<rparr>)) ids s))"

definition jobs_for_thread :: "string \<Rightarrow> store \<Rightarrow> cell_job list" where
  "jobs_for_thread thread_id s =
    sort_key j_enqueue_seq (filter (\<lambda>j. j_crewd_thread_id j = thread_id) (s_jobs s))"

section \<open>Invariants\<close>

definition jobs_ok :: "store \<Rightarrow> bool" where
  "jobs_ok s \<longleftrightarrow> distinct (map j_job_id (s_jobs s)) \<and>
    distinct (map (\<lambda>j. (j_cell_name j, j_enqueue_seq j)) (s_jobs s))"

lemma jobs_ok_update:
  assumes "jobs_ok s" "\<And>j. j_job_id (f j) = j_job_id j" "\<And>j. j_cell_name (f j) = j_cell_name j"
    "\<And>j. j_enqueue_seq (f j) = j_enqueue_seq j"
  shows "jobs_ok (s\<lparr>s_jobs := update_rows p f (s_jobs s)\<rparr>)"
proof -
  have "map j_job_id (update_rows p f (s_jobs s)) = map j_job_id (s_jobs s)"
    by (rule map_update_rows_inv) (simp add: assms(2))
  moreover have "map (\<lambda>j. (j_cell_name j, j_enqueue_seq j)) (update_rows p f (s_jobs s)) =
      map (\<lambda>j. (j_cell_name j, j_enqueue_seq j)) (s_jobs s)"
    by (rule map_update_rows_inv) (simp add: assms(3,4))
  ultimately show ?thesis using assms(1) by (simp only: jobs_ok_def store.select_convs store.update_convs) simp
qed

lemma fold_max_ge: "x \<in> set xs \<Longrightarrow> x \<le> fold max xs (m::nat)"
proof (induction xs arbitrary: m)
  case (Cons y ys)
  have "k \<le> fold max ys k" for k by (induction ys arbitrary: k) (auto intro: le_trans [OF max.cobounded2])
  with Cons show ?case by (auto intro: le_trans [OF max.cobounded1])
qed simp

lemma next_enqueue_seq_gt:
  "j \<in> set (s_jobs s) \<Longrightarrow> j_cell_name j = cell \<Longrightarrow> j_enqueue_seq j < next_enqueue_seq cell s"
  unfolding next_enqueue_seq_def by (auto simp: less_Suc_eq_le intro!: fold_max_ge)

lemma jobs_ok_enqueue:
  assumes "jobs_ok s" "job_get (j_job_id j) s = None" "j_enqueue_seq j = next_enqueue_seq (j_cell_name j) s"
  shows "jobs_ok (s\<lparr>s_jobs := s_jobs s @ [j]\<rparr>)"
  using assms next_enqueue_seq_gt [of _ s "j_cell_name j"]
  by (fastforce simp: jobs_ok_def job_get_def find_None_iff)

section \<open>A queue\<close>

text \<open>
  What a client of a first-in first-out queue relies on: \<open>ready x s\<close> says that \<open>x\<close> will be
  accepted, \<open>contents\<close> is the abstract list.
\<close>

locale fifo_queue =
  fixes ready :: "'a \<Rightarrow> 's \<Rightarrow> bool"
    and enq :: "'a \<Rightarrow> 's \<Rightarrow> 's"
    and deq :: "'s \<Rightarrow> 'a option \<times> 's"
    and contents :: "'s \<Rightarrow> 'a list"
    and inv :: "'s \<Rightarrow> bool"
  assumes enq_contents: "inv s \<Longrightarrow> ready x s \<Longrightarrow> contents (enq x s) = contents s @ [x]"
    and enq_inv: "inv s \<Longrightarrow> ready x s \<Longrightarrow> inv (enq x s)"
    and deq_result: "inv s \<Longrightarrow> fst (deq s) = (case contents s of [] \<Rightarrow> None | x # _ \<Rightarrow> Some x)"
    and deq_contents: "inv s \<Longrightarrow> contents (snd (deq s)) = tl (contents s)"
    and deq_inv: "inv s \<Longrightarrow> inv (snd (deq s))"
begin

primrec deqs :: "nat \<Rightarrow> 's \<Rightarrow> 'a option list" where
  "deqs 0 s = []"
| "deqs (Suc n) s = fst (deq s) # deqs n (snd (deq s))"

lemma deqs_contents: "inv s \<Longrightarrow> n \<le> length (contents s) \<Longrightarrow> deqs n s = map Some (take n (contents s))"
proof (induction n arbitrary: s)
  case (Suc n)
  then obtain x xs where xs: "contents s = x # xs" by (cases "contents s") auto
  have "n \<le> length (contents (snd (deq s)))"
    using Suc.prems xs by (simp add: deq_contents)
  from Suc.IH [OF deq_inv [OF Suc.prems(1)] this] show ?case
    using Suc.prems(1) xs by (simp add: deq_result deq_contents)
qed simp

primrec all_ready :: "'a list \<Rightarrow> 's \<Rightarrow> bool" where
  "all_ready [] s = True"
| "all_ready (x # xs) s = (ready x s \<and> all_ready xs (enq x s))"

lemma enqs_contents:
  "inv s \<Longrightarrow> all_ready xs s \<Longrightarrow> contents (fold enq xs s) = contents s @ xs \<and> inv (fold enq xs s)"
  by (induction xs arbitrary: s) (auto simp: enq_contents enq_inv)

theorem first_in_first_out:
  "inv s \<Longrightarrow> all_ready xs s \<Longrightarrow>
   deqs (length (contents s) + length xs) (fold enq xs s) = map Some (contents s @ xs)"
  using enqs_contents [of s xs] deqs_contents [of "fold enq xs s" "length (contents s) + length xs"]
  by simp

end

lemma insort_key_snoc:
  "f a \<le> f x \<Longrightarrow> insort_key f a (ys @ [x]) = insort_key f a ys @ [x]"
  by (induction ys) auto

lemma sort_key_snoc:
  "(\<And>y. y \<in> set ys \<Longrightarrow> f y \<le> f x) \<Longrightarrow> sort_key f (ys @ [x]) = sort_key f ys @ [x]"
  by (induction ys) (auto simp: insort_key_snoc)

lemma queued_enqueue:
  assumes "job_enqueue now i th cell p cap s = (Inr j, s')"
  shows "queued_jobs cell s' = queued_jobs cell s @ [j] \<and> j_job_id j = i \<and>
    j_crewd_thread_id j = th \<and> j_payload j = p \<and> s' = s\<lparr>s_jobs := s_jobs s @ [j]\<rparr>"
proof -
  from assms have j: "j_cell_name j = cell" "j_state j = JQueued" "j_job_id j = i"
    "j_crewd_thread_id j = th" "j_payload j = p" "j_enqueue_seq j = next_enqueue_seq cell s"
    and s': "s' = s\<lparr>s_jobs := s_jobs s @ [j]\<rparr>"
    by (auto simp: job_enqueue_def in_tx_Inr job_enqueue_inner_def Let_def split: if_splits)
  have "j_enqueue_seq y \<le> j_enqueue_seq j"
    if "y \<in> set (filter (\<lambda>j. j_cell_name j = cell \<and> j_state j = JQueued) (s_jobs s))" for y
    using that next_enqueue_seq_gt [of y s cell] j(6) by simp
  then have "sort_key j_enqueue_seq (filter (\<lambda>j. j_cell_name j = cell \<and> j_state j = JQueued) (s_jobs s) @ [j]) =
      sort_key j_enqueue_seq (filter (\<lambda>j. j_cell_name j = cell \<and> j_state j = JQueued) (s_jobs s)) @ [j]"
    by (rule sort_key_snoc)
  then show ?thesis
    using j s' by (simp add: queued_jobs_def)
qed

lemma queued_drop:
  assumes "\<And>j. j_state (f j) \<noteq> JQueued"
  shows "queued_jobs cell (update_job i f s) = filter (\<lambda>j. j_job_id j \<noteq> i) (queued_jobs cell s)"
proof -
  have "filter (\<lambda>j. j_cell_name j = cell \<and> j_state j = JQueued)
      (update_rows (\<lambda>j. j_job_id j = i) f js) =
    filter (\<lambda>j. j_job_id j \<noteq> i) (filter (\<lambda>j. j_cell_name j = cell \<and> j_state j = JQueued) js)" for js
    using assms by (induction js) auto
  then show ?thesis by (simp add: queued_jobs_def update_job_def filter_sort)
qed

lemma set_queued: "set (queued_jobs cell s) = {j \<in> set (s_jobs s). j_cell_name j = cell \<and> j_state j = JQueued}"
  by (auto simp: queued_jobs_def)

lemma distinct_queued: "jobs_ok s \<Longrightarrow> distinct (map j_job_id (queued_jobs cell s))"
proof -
  assume "jobs_ok s"
  then have d: "distinct (s_jobs s)" "inj_on j_job_id (set (s_jobs s))"
    by (auto simp: jobs_ok_def distinct_map)
  have "distinct (queued_jobs cell s)" using d(1) by (simp add: queued_jobs_def)
  moreover have "inj_on j_job_id (set (queued_jobs cell s))"
    using d(2) by (rule inj_on_subset) (auto simp: set_queued)
  ultimately show ?thesis by (simp add: distinct_map)
qed

lemma job_get_update:
  assumes "\<And>j. j_job_id (f j) = j_job_id j"
  shows "job_get k (update_job i f s) = (if k = i then map_option f (job_get i s) else job_get k s)"
proof -
  have "job_get k (update_job i f s) =
      map_option (\<lambda>j. if j_job_id j = i then f j else j) (job_get k s)"
    unfolding job_get_def update_job_def
    by (simp add: find_update_rows_key [where key = j_job_id, OF assms])
  then show ?thesis
    by (cases "job_get k s") (auto simp: job_get_def dest: find_Some_in)
qed

lemma job_get_in: "jobs_ok s \<Longrightarrow> j \<in> set (s_jobs s) \<Longrightarrow> job_get (j_job_id j) s = Some j"
  using distinct_find_unique [of j_job_id "s_jobs s" j] by (simp add: jobs_ok_def job_get_def)

lemma lease_next_spec:
  assumes "jobs_ok s" "\<not> cell_blocked cell s"
  shows "case queued_jobs cell s of
      [] \<Rightarrow> job_lease_next now cell secs s = (None, s)
    | j # js \<Rightarrow> (\<exists>s'. job_lease_next now cell secs s =
          (Some (j\<lparr>j_state := JLeased, j_lease_expires_at := Some (rfc3339_after now secs)\<rparr>), s') \<and>
        s' = update_job (j_job_id j)
               (\<lambda>j. j\<lparr>j_state := JLeased, j_lease_expires_at := Some (rfc3339_after now secs)\<rparr>) s \<and>
        queued_jobs cell s' = js)"
proof (cases "queued_jobs cell s")
  case Nil
  with assms(2) show ?thesis by (simp add: job_lease_next_def)
next
  case (Cons j js)
  let ?f = "\<lambda>j. j\<lparr>j_state := JLeased, j_lease_expires_at := Some (rfc3339_after now secs)\<rparr>"
  have jin: "j \<in> set (s_jobs s)" using Cons set_queued [of cell s] by auto
  from distinct_queued [OF assms(1), of cell] Cons
  have "filter (\<lambda>x. j_job_id x \<noteq> j_job_id j) js = js"
    by (auto simp: filter_id_conv image_iff)
  moreover have "queued_jobs cell (update_job (j_job_id j) ?f s) =
      filter (\<lambda>x. j_job_id x \<noteq> j_job_id j) (queued_jobs cell s)" by (rule queued_drop) simp
  moreover have "job_get (j_job_id j) (update_job (j_job_id j) ?f s) = Some (?f j)"
    using job_get_in [OF assms(1) jin] by (simp add: job_get_update)
  ultimately show ?thesis using Cons assms(2) by (simp add: job_lease_next_def Let_def)
qed

definition job_item :: "cell_job \<Rightarrow> string \<times> string \<times> string" where
  "job_item j = (j_job_id j, j_crewd_thread_id j, j_payload j)"

definition open_queue :: "string \<Rightarrow> store \<Rightarrow> bool" where
  "open_queue cell s \<longleftrightarrow> jobs_ok s \<and> \<not> cell_blocked cell s"

lemma cell_blocked_append:
  "j_state j \<noteq> JStarted \<Longrightarrow> cell_blocked cell (s\<lparr>s_jobs := s_jobs s @ [j]\<rparr>) = cell_blocked cell s"
  by (simp add: cell_blocked_def)

lemma cell_blocked_update:
  "(\<And>j. j_state (f j) \<noteq> JStarted) \<Longrightarrow> \<not> cell_blocked cell s \<Longrightarrow> \<not> cell_blocked cell (update_job i f s)"
  by (auto simp: cell_blocked_def count_rows_zero_iff update_job_def elim!: in_update_rowsE)

interpretation job_queue: fifo_queue
  "\<lambda>(i, th, p) s. is_ok (fst (job_enqueue now i th cell p cap s))"
  "\<lambda>(i, th, p) s. snd (job_enqueue now i th cell p cap s)"
  "\<lambda>s. (map_option job_item (fst (job_lease_next now' cell secs s)), snd (job_lease_next now' cell secs s))"
  "\<lambda>s. map job_item (queued_jobs cell s)" "open_queue cell" for now now' cell cap secs
proof (unfold_locales, goal_cases)
  case (1 s x)
  obtain i th p where x: "x = (i, th, p)" by (cases x)
  with 1(2) obtain j s' where e: "job_enqueue now i th cell p cap s = (Inr j, s')"
    by (cases "job_enqueue now i th cell p cap s"; cases "fst (job_enqueue now i th cell p cap s)") auto
  from queued_enqueue [OF e] have "queued_jobs cell s' = queued_jobs cell s @ [j]"
    "job_item j = (i, th, p)" by (auto simp: job_item_def)
  with e show ?case by (simp add: x)
next
  case (2 s x)
  obtain i th p where x: "x = (i, th, p)" by (cases x)
  with 2(2) obtain j s' where e: "job_enqueue now i th cell p cap s = (Inr j, s')"
    by (cases "job_enqueue now i th cell p cap s"; cases "fst (job_enqueue now i th cell p cap s)") auto
  then have "j_state j \<noteq> JStarted" "job_get (j_job_id j) s = None"
    "j_enqueue_seq j = next_enqueue_seq (j_cell_name j) s" "s' = s\<lparr>s_jobs := s_jobs s @ [j]\<rparr>"
    by (auto simp: job_enqueue_def in_tx_Inr job_enqueue_inner_def Let_def split: if_splits)
  then show ?case
    using 2(1) e by (simp add: x open_queue_def jobs_ok_enqueue cell_blocked_append)
next
  case (3 s)
  then show ?case using lease_next_spec [of s cell now' secs]
    by (auto simp: open_queue_def job_item_def split: list.splits)
next
  case (4 s)
  then show ?case using lease_next_spec [of s cell now' secs]
    by (auto simp: open_queue_def split: list.splits)
next
  case (5 s)
  show ?case
  proof (cases "queued_jobs cell s")
    case Nil
    then show ?thesis using 5 lease_next_spec [of s cell now' secs] by (auto simp: open_queue_def)
  next
    case (Cons j js)
    then show ?thesis using 5 lease_next_spec [of s cell now' secs]
      by (auto simp: open_queue_def cell_blocked_update) (simp add: update_job_def jobs_ok_update)
  qed
qed

section \<open>Properties\<close>

fun enqueue_all :: "nat \<Rightarrow> string \<Rightarrow> nat \<Rightarrow> (string \<times> string \<times> string) list \<Rightarrow> store \<Rightarrow> store option" where
  "enqueue_all now cell cap [] s = Some s"
| "enqueue_all now cell cap ((i, th, p) # xs) s =
    (case job_enqueue now i th cell p cap s of
      (Inl _, _) \<Rightarrow> None | (Inr _, s') \<Rightarrow> enqueue_all now cell cap xs s')"

fun lease_run :: "nat \<Rightarrow> nat \<Rightarrow> string \<Rightarrow> nat \<Rightarrow> store \<Rightarrow> (string \<times> string \<times> string) option list" where
  "lease_run 0 now cell secs s = []"
| "lease_run (Suc n) now cell secs s =
    (case job_lease_next now cell secs s of
      (r, s') \<Rightarrow> map_option job_item r # lease_run n now cell secs s')"

lemma enqueue_all_fold:
  "enqueue_all now cell cap xs s = Some s' \<Longrightarrow>
   job_queue.all_ready now cell cap xs s \<and> fold (\<lambda>(i, th, p) s. snd (job_enqueue now i th cell p cap s)) xs s = s'"
  by (induction xs arbitrary: s) (auto split: prod.splits sum.splits)

lemma lease_run_deqs: "lease_run n now cell secs s = job_queue.deqs now cell secs n s"
  by (induction n arbitrary: s) (auto simp: case_prod_beta)

text \<open>The queue of a cell is first-in first-out: if nothing of the cell is running, leasing hands
  out first the jobs that were already queued, in their order, and then the newly accepted ones in
  the order they were enqueued.\<close>

lemma jobs_first_in_first_out:
  assumes "jobs_ok s" "\<not> cell_blocked cell s" "enqueue_all now cell cap items s = Some s'"
  shows "lease_run (length (queued_jobs cell s) + length items) now' cell secs s' =
    map Some (map job_item (queued_jobs cell s) @ items)"
  using job_queue.first_in_first_out [where s = s and xs = items and now = now and now' = now' and cell = cell and cap = cap and secs = secs] enqueue_all_fold [OF assms(3)] assms(1,2)
  by (simp add: lease_run_deqs open_queue_def)

lemma jobs_first_in_first_out_witness:
  "\<exists>s'. enqueue_all 5 ''w'' 8 [(''j1'', ''t'', ''a''), (''j2'', ''t'', ''b'')] empty_store = Some s' \<and>
    lease_run 2 6 ''w'' 30 s' = [Some (''j1'', ''t'', ''a''), Some (''j2'', ''t'', ''b'')]"
proof -
  have ok: "jobs_ok empty_store" "\<not> cell_blocked ''w'' empty_store"
    by (simp_all add: jobs_ok_def empty_store_def cell_blocked_def)
  obtain s' where s': "enqueue_all 5 ''w'' 8 [(''j1'', ''t'', ''a''), (''j2'', ''t'', ''b'')] empty_store = Some s'"
    by (simp add: job_enqueue_def in_tx_def job_enqueue_inner_def job_active_count_for_cell_def
        empty_store_def Let_def job_get_def job_active_def)
  have "queued_jobs ''w'' empty_store = []" by (simp add: queued_jobs_def empty_store_def)
  with jobs_first_in_first_out [OF ok s', of 6 30] s' show ?thesis by (simp add: numeral_2_eq_2)
qed

text \<open>The depth cap.  An enqueue is refused with \<open>E_QUEUE_FULL\<close> exactly when the cell already
  has the cap's number of unfinished jobs, and a refused enqueue changes nothing; an accepted one
  adds exactly one unfinished job, so it never takes the cell above its cap.\<close>

lemma queue_depth_cap:
  "case job_enqueue now i th cell p cap s of
     (Inl QueueFull, s') \<Rightarrow> cap \<le> job_active_count_for_cell cell s \<and> s' = s
   | (Inl e, s') \<Rightarrow> e = Internal \<and> job_get i s \<noteq> None \<and> s' = s
   | (Inr j, s') \<Rightarrow> job_active_count_for_cell cell s' = job_active_count_for_cell cell s + 1 \<and>
        job_active_count_for_cell cell s' \<le> cap \<and>
        (\<forall>c. c \<noteq> cell \<longrightarrow> job_active_count_for_cell c s' = job_active_count_for_cell c s)"
  by (auto simp: job_enqueue_def in_tx_def job_enqueue_inner_def Let_def
      job_active_count_for_cell_def job_active_def split: option.splits)

text \<open>The steps of a job queue whose clients record an acceptance for a started job only.\<close>

inductive job_step :: "store \<Rightarrow> store \<Rightarrow> bool" where
  "job_step s (snd (job_enqueue now i th cell p cap s))"
| "job_step s (snd (job_lease_next now cell secs s))"
| "job_get i s = Some j \<Longrightarrow> j_state j = JLeased \<Longrightarrow> job_step s (snd (job_mark_started i s))"
| "job_get i s = Some j \<Longrightarrow> j_state j = JStarted \<Longrightarrow>
    job_step s (snd (job_mark_accepted now i turn s))"
| "job_step s (snd (job_finish i s))"
| "job_step s (snd (job_cancel i s))"
| "job_step s (snd (job_requeue i s))"
| "job_step s (snd (job_requeue_expired_leases ts s))"

text \<open>An accepted job is running or over.\<close>

definition accepted_past :: "store \<Rightarrow> bool" where
  "accepted_past s \<longleftrightarrow> jobs_ok s \<and>
    (\<forall>j \<in> set (s_jobs s). j_accepted_by_engine_at j \<noteq> None \<longrightarrow> j_state j \<in> {JStarted, JFinished, JCancelled})"

lemma accepted_past_update:
  assumes "accepted_past s" "\<And>j. j_job_id (f j) = j_job_id j" "\<And>j. j_cell_name (f j) = j_cell_name j"
    "\<And>j. j_enqueue_seq (f j) = j_enqueue_seq j"
    "\<And>j. j \<in> set (s_jobs s) \<Longrightarrow> p j \<Longrightarrow> j_accepted_by_engine_at (f j) \<noteq> None \<Longrightarrow>
      j_state (f j) \<in> {JStarted, JFinished, JCancelled}"
  shows "accepted_past (s\<lparr>s_jobs := update_rows p f (s_jobs s)\<rparr>)"
  unfolding accepted_past_def
proof (intro conjI ballI impI)
  show "jobs_ok (s\<lparr>s_jobs := update_rows p f (s_jobs s)\<rparr>)"
    using assms(1-4) by (intro jobs_ok_update) (simp_all add: accepted_past_def)
  fix x assume "x \<in> set (s_jobs (s\<lparr>s_jobs := update_rows p f (s_jobs s)\<rparr>))" and a: "j_accepted_by_engine_at x \<noteq> None"
  then have "x \<in> set (update_rows p f (s_jobs s))" by simp
  then show "j_state x \<in> {JStarted, JFinished, JCancelled}"
    using assms(1,5) a by (elim in_update_rowsE) (auto simp: accepted_past_def)
qed

lemma requeue_expired_eq:
  "snd (job_requeue_expired_leases ts s) =
    s\<lparr>s_jobs := update_rows (\<lambda>j. j_job_id j \<in> j_job_id ` {j \<in> set (s_jobs s).
          (case j_lease_expires_at j of None \<Rightarrow> False | Some e \<Rightarrow> e < ts) \<and> requeueable j})
        (\<lambda>j. j\<lparr>j_state := JQueued, j_lease_expires_at := None\<rparr>) (s_jobs s)\<rparr>"
proof -
  have "fold (\<lambda>i. update_job i f) ids s =
      s\<lparr>s_jobs := fold (\<lambda>i. update_rows (\<lambda>j. j_job_id j = i) f) ids (s_jobs s)\<rparr>" for f ids
    by (induction ids arbitrary: s) (simp_all add: update_job_def)
  then show ?thesis
    by (simp add: job_requeue_expired_leases_def Let_def fold_update_rows [where key = j_job_id])
qed

lemma unique_job: "jobs_ok s \<Longrightarrow> a \<in> set (s_jobs s) \<Longrightarrow> b \<in> set (s_jobs s) \<Longrightarrow> j_job_id a = j_job_id b \<Longrightarrow> a = b"
  by (auto simp: jobs_ok_def distinct_map inj_on_def)

interpretation boundary: invariant_of "\<lambda>s. s = empty_store" job_step accepted_past
proof (unfold_locales, goal_cases)
  case (1 s)
  then show ?case by (simp add: accepted_past_def jobs_ok_def empty_store_def)
next
  case (2 s t)
  then have ok: "jobs_ok s" and acc: "\<And>j. j \<in> set (s_jobs s) \<Longrightarrow> j_accepted_by_engine_at j \<noteq> None \<Longrightarrow>
      j_state j \<in> {JStarted, JFinished, JCancelled}" by (auto simp: accepted_past_def)
  from 2(2) show ?case
  proof cases
    case (1 now i th cell p cap)
    show ?thesis
    proof (cases "job_enqueue now i th cell p cap s")
      case (Pair r s')
      show ?thesis
      proof (cases r)
        case (Inl e)
        with Pair have "s' = s" unfolding job_enqueue_def by (auto dest: in_tx_Inl)
        with Pair 1 2(1) show ?thesis by simp
      next
        case (Inr j)
        with Pair have j: "j_accepted_by_engine_at j = None" "job_get (j_job_id j) s = None"
          "j_enqueue_seq j = next_enqueue_seq (j_cell_name j) s" "s' = s\<lparr>s_jobs := s_jobs s @ [j]\<rparr>"
          by (auto simp: job_enqueue_def in_tx_Inr job_enqueue_inner_def Let_def split: if_splits)
        with acc show ?thesis using Pair 1 jobs_ok_enqueue [OF ok j(2,3)]
          by (auto simp: accepted_past_def)
      qed
    qed
  next
    case (2 now cell secs)
    show ?thesis
    proof (cases "cell_blocked cell s \<or> queued_jobs cell s = []")
      case True
      then show ?thesis using 2 \<open>accepted_past s\<close> by (auto simp: job_lease_next_def)
    next
      case False
      then obtain j js where j: "queued_jobs cell s = j # js" by (cases "queued_jobs cell s") auto
      then have jin: "j \<in> set (s_jobs s)" "j_state j = JQueued" using set_queued [of cell s] by auto
      then have "j_accepted_by_engine_at j = None" using acc by fastforce
      then have na': "j_accepted_by_engine_at x = None"
        if "x \<in> set (s_jobs s)" "j_job_id x = j_job_id j" for x
        using unique_job [OF ok that(1) jin(1) that(2)] by simp
      show ?thesis
        using 2 False j unfolding job_lease_next_def update_job_def
        by (simp add: Let_def, intro accepted_past_update [OF \<open>accepted_past s\<close>])
          (use na' in auto)
    qed
  next
    case (3 i j)
    then show ?thesis unfolding job_mark_started_def set_job_def update_job_def
      by (simp, intro accepted_past_update [OF \<open>accepted_past s\<close>]) auto
  next
    case (4 i j now turn)
    then have j: "job_get i s = Some j" "j_state j = JStarted" by auto
    then have "j \<in> set (s_jobs s)" "j_job_id j = i" by (auto simp: job_get_def dest: find_Some_in)
    then have st: "j_state x = JStarted" if "x \<in> set (s_jobs s)" "j_job_id x = i" for x
      using unique_job [OF ok that(1)] that(2) j(2) by simp
    have "t = s\<lparr>s_jobs := update_rows (\<lambda>j. j_job_id j = i) (\<lambda>j. j\<lparr>j_accepted_by_engine_at := Some (now_rfc3339 now),
        j_engine_turn_id := Some turn\<rparr>) (s_jobs s)\<rparr>"
      using 4(1) j(1) by (simp add: job_mark_accepted_def set_job_def update_job_def)
    then show ?thesis
      by (simp only:) (rule accepted_past_update [OF \<open>accepted_past s\<close>]; simp add: st)
  next
    case (5 i)
    then show ?thesis using \<open>accepted_past s\<close> unfolding job_finish_def set_job_def update_job_def
      by (auto intro!: accepted_past_update)
  next
    case (6 i)
    then show ?thesis using \<open>accepted_past s\<close> unfolding job_cancel_def set_job_def update_job_def
      by (auto intro!: accepted_past_update)
  next
    case (7 i)
    then show ?thesis unfolding job_requeue_def
      by (simp, intro accepted_past_update [OF \<open>accepted_past s\<close>]) (auto simp: requeueable_def)
  next
    case (8 ts)
    have "j_accepted_by_engine_at j = None"
      if "j \<in> set (s_jobs s)" "j_job_id j \<in> j_job_id ` {x \<in> set (s_jobs s). Q x \<and> requeueable x}" for j Q
      using that unique_job [OF ok] by (auto simp: requeueable_def)
    then show ?thesis unfolding 8 requeue_expired_eq
      by (intro accepted_past_update [OF \<open>accepted_past s\<close>]) auto
  qed
qed

text \<open>The redelivery boundary.  As long as an engine's acceptance is only recorded for a job that
  is still marked as started, a job that was accepted is never handed out again, whatever leases
  expire and whatever is requeued.\<close>

lemma accepted_never_leased_again:
  assumes "reachable (\<lambda>s. s = empty_store) job_step s"
    and "fst (job_lease_next now cell secs s) = Some j"
  shows "j_accepted_by_engine_at j = None"
proof -
  have inv: "accepted_past s" by (rule boundary.inv_reachable [OF assms(1)])
  then have ok: "jobs_ok s" by (simp add: accepted_past_def)
  from assms(2) have nb: "\<not> cell_blocked cell s" by (auto simp: job_lease_next_def split: if_splits)
  obtain k js where k: "queued_jobs cell s = k # js"
    using assms(2) nb by (auto simp: job_lease_next_def split: list.splits)
  then have "k \<in> set (s_jobs s)" "j_state k = JQueued" using set_queued [of cell s] by auto
  with inv have "j_accepted_by_engine_at k = None" by (fastforce simp: accepted_past_def)
  with lease_next_spec [OF ok nb, of now secs] k assms(2) show ?thesis by auto
qed

definition queued_job :: cell_job where
  "queued_job = \<lparr>j_job_id = ''j1'', j_crewd_thread_id = ''t'', j_cell_name = ''w'', j_payload = ''p'',
     j_state = JQueued, j_lease_expires_at = None, j_accepted_by_engine_at = None,
     j_engine_turn_id = None, j_created_at = now_rfc3339 0, j_enqueue_seq = 1\<rparr>"

lemma enqueue_first: "job_enqueue 0 ''j1'' ''t'' ''w'' ''p'' 8 empty_store = (Inr queued_job, empty_store\<lparr>s_jobs := [queued_job]\<rparr>)"
  by (simp add: job_enqueue_def in_tx_def job_enqueue_inner_def job_active_count_for_cell_def
      empty_store_def Let_def job_get_def queued_job_def next_enqueue_seq_def)

lemma queue_depth_cap_witness:
  "job_active_count_for_cell ''w'' (snd (job_enqueue 0 ''j1'' ''t'' ''w'' ''p'' 8 empty_store)) = 1 \<and>
   job_active_count_for_cell ''v'' (snd (job_enqueue 0 ''j1'' ''t'' ''w'' ''p'' 8 empty_store)) = 0"
proof -
  have z: "job_active_count_for_cell c empty_store = 0" for c
    by (simp add: job_active_count_for_cell_def empty_store_def)
  show ?thesis
    using queue_depth_cap [where now = 0 and i = "''j1''" and th = "''t''" and cell = "''w''" and p = "''p''"
        and cap = 8 and s = empty_store]
    unfolding enqueue_first by (simp add: z)
qed

lemma reach_enqueued: "reachable (\<lambda>s. s = empty_store) job_step (empty_store\<lparr>s_jobs := [queued_job]\<rparr>)"
proof -
  have "reachable (\<lambda>s. s = empty_store) job_step empty_store" by (rule reachable_init) simp
  moreover have "job_step empty_store (snd (job_enqueue 0 ''j1'' ''t'' ''w'' ''p'' 8 empty_store))"
    by (rule job_step.intros(1))
  ultimately have "reachable (\<lambda>s. s = empty_store) job_step
      (snd (job_enqueue 0 ''j1'' ''t'' ''w'' ''p'' 8 empty_store))" by (rule reachable_step)
  then show ?thesis by (simp add: enqueue_first)
qed

lemma lease_one:
  "job_lease_next now ''w'' secs (empty_store\<lparr>s_jobs := [queued_job\<lparr>j_accepted_by_engine_at := a, j_engine_turn_id := b\<rparr>]\<rparr>) =
    (Some (queued_job\<lparr>j_accepted_by_engine_at := a, j_engine_turn_id := b, j_state := JLeased,
        j_lease_expires_at := Some (rfc3339_after now secs)\<rparr>),
     empty_store\<lparr>s_jobs := [queued_job\<lparr>j_accepted_by_engine_at := a, j_engine_turn_id := b, j_state := JLeased,
        j_lease_expires_at := Some (rfc3339_after now secs)\<rparr>]\<rparr>)"
  by (simp add: job_lease_next_def cell_blocked_def queued_jobs_def update_job_def job_get_def Let_def
      queued_job_def sort_key_def)

lemma accepted_never_leased_again_witness:
  "\<exists>j. fst (job_lease_next 5 ''w'' 30 (empty_store\<lparr>s_jobs := [queued_job]\<rparr>)) = Some j \<and>
     j_accepted_by_engine_at j = None"
proof -
  have "queued_job\<lparr>j_accepted_by_engine_at := None, j_engine_turn_id := None\<rparr> = queued_job"
    by (simp add: queued_job_def)
  with lease_one [of 5 30 None None] obtain j where
    "fst (job_lease_next 5 ''w'' 30 (empty_store\<lparr>s_jobs := [queued_job]\<rparr>)) = Some j" by auto
  with accepted_never_leased_again [OF reach_enqueued this] show ?thesis by blast
qed

lemma sort_key_min:
  assumes "x \<in> set xs" "\<And>y. y \<in> set xs \<Longrightarrow> y \<noteq> x \<Longrightarrow> f x < f y" "distinct xs"
  shows "\<exists>ys. sort_key f xs = x # ys"
proof (cases "sort_key f xs")
  case Nil
  with assms(1) show ?thesis by (metis empty_iff empty_set set_sort)
next
  case (Cons y ys)
  have "y = x"
  proof (rule ccontr)
    assume "y \<noteq> x"
    have y: "y \<in> set xs" using Cons by (metis list.set_intros(1) set_sort)
    have "x \<in> set ys" using Cons assms(1) \<open>y \<noteq> x\<close> by (metis set_ConsD set_sort)
    moreover have "sorted (map f (y # ys))" using Cons by (metis sorted_sort_key)
    ultimately have "f y \<le> f x" by simp
    with assms(2) [OF y \<open>y \<noteq> x\<close>] show False by simp
  qed
  with Cons show ?thesis by simp
qed

text \<open>The oldest queued job of a cell without a started one is the one that is leased.\<close>

lemma oldest_leased:
  assumes "jobs_ok s" "j \<in> set (s_jobs s)" "j_cell_name j = cell" "j_state j = JQueued"
    and "\<And>k. k \<in> set (s_jobs s) \<Longrightarrow> j_cell_name k = cell \<Longrightarrow> k \<noteq> j \<Longrightarrow>
      j_state k \<noteq> JStarted \<and> (j_state k = JQueued \<longrightarrow> j_enqueue_seq j < j_enqueue_seq k)"
  shows "fst (job_lease_next now cell secs s) =
    Some (j\<lparr>j_state := JLeased, j_lease_expires_at := Some (rfc3339_after now secs)\<rparr>)"
proof -
  have "\<not> cell_blocked cell s" using assms(4,5) by (force simp: cell_blocked_def count_rows_pos_iff)
  moreover have "distinct (filter (\<lambda>j. j_cell_name j = cell \<and> j_state j = JQueued) (s_jobs s))"
    using assms(1) by (simp add: jobs_ok_def distinct_map)
  with assms(2-5) obtain js where "queued_jobs cell s = j # js"
    unfolding queued_jobs_def using sort_key_min [of j _ j_enqueue_seq] by force
  ultimately show ?thesis using lease_next_spec [OF assms(1), of cell now secs] by auto
qed

end
