(* ===== verification/Spawn.thy ===== *)
theory Spawn
  imports Cells Threads Jobs
begin

text \<open>
  Idempotent spawning and worktree ownership (\<open>spawn.rs\<close>) over the store and the audit log.  The
  database part of \<open>spawn_idempotent\<close> is one transaction; the audit append inside it is not
  undone by a rollback.  Canonicalising a directory is a parameter \<open>realpath\<close> (the file system).
\<close>

record spawn_request =
  sr_caller :: string
  sr_cell_name :: string
  sr_idempotency_key :: string
  sr_payload :: string

datatype spawn_outcome = Created cell_thread | Replayed cell_thread

definition lookup_spawn_request :: "string \<Rightarrow> string \<Rightarrow> string \<Rightarrow> store \<Rightarrow> string option" where
  "lookup_spawn_request caller cell key s =
    map_option sp_crewd_thread_id (List.find (\<lambda>r. sp_caller r = caller \<and> sp_cell_name r = cell \<and>
      sp_idempotency_key r = key) (s_spawn_requests s))"

definition spawn_draft :: "spawn_request \<Rightarrow> engine_kind \<Rightarrow> audit_draft" where
  "spawn_draft req engine =
    \<lparr>dr_kind = ''cell_spawn_requested'', dr_message_id = None, dr_from = Some (sr_caller req),
     dr_to = Some (sr_cell_name req), dr_outcome = ''ok'',
     dr_detail = Some (JObj [(''caller'', JStr (sr_caller req)), (''cell'', JStr (sr_cell_name req)),
       (''engine'', JStr (engine_kind_as_str engine)),
       (''idempotency_key'', JStr (sr_idempotency_key req))])\<rparr>"

definition spawning_thread ::
  "nat \<Rightarrow> string \<Rightarrow> spawn_request \<Rightarrow> engine_kind \<Rightarrow> string option \<Rightarrow> string option \<Rightarrow> string \<Rightarrow> string option \<Rightarrow>
   cell_thread" where
  "spawning_thread now thread_id req engine model profile cwd worktree =
    \<lparr>t_crewd_thread_id = thread_id, t_cell_name = sr_cell_name req, t_engine_kind = engine,
     t_model = model, t_profile = profile, t_engine_process_id = None, t_engine_thread_id = None,
     t_engine_turn_id = None, t_engine_session_id = None, t_cwd = cwd, t_worktree_path = worktree,
     t_state = TSpawning, t_generation = 0, t_created_by_principal = sr_caller req,
     t_idempotency_key = sr_idempotency_key req, t_created_at = now_rfc3339 now,
     t_updated_at = now_rfc3339 now\<rparr>"

text \<open>Steps 3 to 5 of the transaction: lock row, busy check, request, thread and job.\<close>

definition spawn_inner ::
  "nat \<Rightarrow> string \<Rightarrow> string \<Rightarrow> spawn_request \<Rightarrow> cell_thread \<Rightarrow> nat \<Rightarrow> (cell_thread, store) op" where
  "spawn_inner now thread_id job_id req thread depth_cap s0 =
    (let s = (if sr_cell_name req \<in> set (s_cell_locks s0) then s0
              else s0\<lparr>s_cell_locks := s_cell_locks s0 @ [sr_cell_name req]\<rparr>) in
     if thread_active_for_cell (sr_cell_name req) s \<noteq> None then (Inl CellBusy, s)
     else let s1 = s\<lparr>s_spawn_requests := s_spawn_requests s @
            [\<lparr>sp_caller = sr_caller req, sp_cell_name = sr_cell_name req,
              sp_idempotency_key = sr_idempotency_key req, sp_crewd_thread_id = thread_id,
              sp_created_at = now_rfc3339 now\<rparr>]\<rparr>
       in bind_res (thread_insert thread s1) (\<lambda>_ s2.
          bind_res (job_enqueue_inner now job_id thread_id (sr_cell_name req) (sr_payload req) depth_cap s2)
            (\<lambda>_ s3. (Inr thread, s3))))"

definition spawn_idempotent ::
  "nat \<Rightarrow> string \<Rightarrow> string \<Rightarrow> spawn_request \<Rightarrow> engine_kind \<Rightarrow> string option \<Rightarrow> string option \<Rightarrow> string \<Rightarrow>
   string option \<Rightarrow> nat \<Rightarrow> (spawn_outcome, core) op" where
  "spawn_idempotent now thread_id job_id req engine model profile cwd worktree depth_cap c =
    (case validate_cell_name_allowing_ephemeral (sr_cell_name req) of Inl e \<Rightarrow> (Inl e, c) | Inr _ \<Rightarrow>
     case validate_idempotency_key (sr_idempotency_key req) of Inl e \<Rightarrow> (Inl e, c) | Inr _ \<Rightarrow>
     case lookup_spawn_request (sr_caller req) (sr_cell_name req) (sr_idempotency_key req) (fst c) of
       Some tid \<Rightarrow>
        (case thread_get tid (fst c) of None \<Rightarrow> (Inl Internal, c) | Some t \<Rightarrow> (Inr (Replayed t), c))
     | None \<Rightarrow>
        bind_res (audit_to (spawn_draft req engine) c) (\<lambda>_ (s, l).
          case in_tx (spawn_inner now thread_id job_id req
                 (spawning_thread now thread_id req engine model profile cwd worktree) depth_cap) s of
            (Inl e, s') \<Rightarrow> (Inl e, (s', l))
          | (Inr t, s') \<Rightarrow> (Inr (Created t), (s', l))))"

section \<open>Worktrees\<close>

text \<open>
  \<open>Path::file_name\<close> and \<open>Path::parent\<close> on the components of a path: empty and \<open>.\<close>
  components drop out, except a leading \<open>.\<close> of a relative path.
\<close>

fun split_slash :: "string \<Rightarrow> string \<Rightarrow> string list" where
  "split_slash acc [] = [rev acc]"
| "split_slash acc (c # cs) = (if c = CHR ''/'' then rev acc # split_slash [] cs else split_slash (c # acc) cs)"

definition is_absolute :: "string \<Rightarrow> bool" where
  "is_absolute p \<longleftrightarrow> p \<noteq> [] \<and> hd p = CHR ''/''"

definition path_components :: "string \<Rightarrow> string list" where
  "path_components p =
    (let cs = split_slash [] p;
         rest = filter (\<lambda>c. c \<noteq> [] \<and> c \<noteq> ''.'') cs
     in if \<not> is_absolute p \<and> cs \<noteq> [] \<and> hd cs = ''.'' then ''.'' # rest else rest)"

definition join_path :: "bool \<Rightarrow> string list \<Rightarrow> string" where
  "join_path absolute cs =
    (if absolute then CHR ''/'' # concat (case cs of [] \<Rightarrow> [] | c # r \<Rightarrow> c # map (\<lambda>x. CHR ''/'' # x) r)
     else concat (case cs of [] \<Rightarrow> [] | c # r \<Rightarrow> c # map (\<lambda>x. CHR ''/'' # x) r))"

definition canonical_worktree_path :: "(string \<Rightarrow> string option) \<Rightarrow> string \<Rightarrow> string res" where
  "canonical_worktree_path realpath path =
    (let cs = path_components path in
     if cs = [] \<or> last cs = ''..'' \<or> (cs = [''.''] \<and> \<not> is_absolute path) then Inl Internal
     else let parent = join_path (is_absolute path) (butlast cs) in
       if parent = [] then Inl Internal
       else case realpath parent of
         None \<Rightarrow> Inl Internal
       | Some d \<Rightarrow> Inr (d @ (if d \<noteq> [] \<and> last d = CHR ''/'' then [] else ''/'') @ last cs))"

definition worktree_draft :: "string \<Rightarrow> string option \<Rightarrow> json \<Rightarrow> audit_draft" where
  "worktree_draft kind sender detail = \<lparr>dr_kind = kind, dr_message_id = None, dr_from = sender,
     dr_to = None, dr_outcome = ''ok'', dr_detail = Some detail\<rparr>"

definition worktree_record ::
  "(string \<Rightarrow> string option) \<Rightarrow> nat \<Rightarrow> string \<Rightarrow> string \<Rightarrow> (unit, core) op" where
  "worktree_record realpath now path thread_id c =
    (case canonical_worktree_path realpath path of Inl e \<Rightarrow> (Inl e, c) | Inr canon \<Rightarrow>
     (if thread_get thread_id (fst c) = None then (Inl Internal, c)
      else bind_res (audit_to (worktree_draft ''worktree_created'' (Some thread_id)
               (JObj [(''path'', JStr canon), (''thread'', JStr thread_id)])) c) (\<lambda>_ (s, l).
        if \<exists>w \<in> set (s_worktrees s). w_canonical_path w = canon then (Inl Internal, (s, l))
        else (Inr (), (s\<lparr>s_worktrees := s_worktrees s @
               [\<lparr>w_canonical_path = canon, w_created_by_thread = thread_id, w_state = ''created'',
                 w_created_at = now_rfc3339 now\<rparr>]\<rparr>, l)))))"

definition worktree_mark_cleanup :: "(string \<Rightarrow> string option) \<Rightarrow> string \<Rightarrow> (unit, core) op" where
  "worktree_mark_cleanup realpath path c =
    (case canonical_worktree_path realpath path of Inl e \<Rightarrow> (Inl e, c) | Inr canon \<Rightarrow>
     (if \<not> (\<exists>w \<in> set (s_worktrees (fst c)). w_canonical_path w = canon) then (Inl Internal, c)
      else bind_res (audit_to (worktree_draft ''worktree_cleanup'' None (JObj [(''path'', JStr canon)])) c)
        (\<lambda>_ (s, l). (Inr (), (s\<lparr>s_worktrees := update_rows (\<lambda>w. w_canonical_path w = canon)
              (\<lambda>w. w\<lparr>w_state := ''cleanup_requested''\<rparr>) (s_worktrees s)\<rparr>, l)))))"

definition worktree_list :: "store \<Rightarrow> (string \<times> string \<times> string) list" where
  "worktree_list s =
    map (\<lambda>w. (w_canonical_path w, w_created_by_thread w, w_state w)) (sort_key w_canonical_path (s_worktrees s))"

section \<open>Lemmas\<close>

lemma job_enqueue_inner_Inr:
  "job_enqueue_inner now i th cell p cap s = (Inr j, s') \<Longrightarrow>
   s' = s\<lparr>s_jobs := s_jobs s @ [j]\<rparr> \<and> j_state j = JQueued \<and> j_crewd_thread_id j = th \<and>
   j_cell_name j = cell \<and> j_payload j = p"
  by (auto simp: job_enqueue_inner_def Let_def split: if_splits)

lemma spawn_inner_Inr:
  assumes "spawn_inner now tid jid req thread cap s = (Inr t, s')"
  shows "t = thread \<and> thread_active_for_cell (sr_cell_name req) s = None \<and>
    s_threads s' = s_threads s @ [thread] \<and> thread_get (t_crewd_thread_id thread) s = None \<and>
    s_spawn_requests s' = s_spawn_requests s @
      [\<lparr>sp_caller = sr_caller req, sp_cell_name = sr_cell_name req,
        sp_idempotency_key = sr_idempotency_key req, sp_crewd_thread_id = tid,
        sp_created_at = now_rfc3339 now\<rparr>] \<and>
    (\<exists>j. s_jobs s' = s_jobs s @ [j] \<and> j_state j = JQueued \<and> j_crewd_thread_id j = tid \<and>
       j_cell_name j = sr_cell_name req \<and> j_payload j = sr_payload req)"
  using assms
  by (auto simp: spawn_inner_def Let_def bind_res_Inr thread_insert_def thread_get_def
      thread_active_for_cell_def split: if_splits dest!: job_enqueue_inner_Inr)

lemma spawn_created:
  assumes "spawn_idempotent now tid jid req eng mo pr cwd wt cap (s, l) = (Inr (Created t), (s', l'))"
  shows "validate_cell_name_allowing_ephemeral (sr_cell_name req) = Inr () \<and>
    validate_idempotency_key (sr_idempotency_key req) = Inr () \<and>
    lookup_spawn_request (sr_caller req) (sr_cell_name req) (sr_idempotency_key req) s = None \<and>
    t = spawning_thread now tid req eng mo pr cwd wt \<and>
    al_events l' = al_events l @ [spawn_draft req eng] \<and>
    spawn_inner now tid jid req t cap s = (Inr t, s')"
proof -
  obtain r c' where a: "audit_to (spawn_draft req eng) (s, l) = (r, c')" by (metis prod.exhaust)
  from audit_to_cases [OF a] assms have s:
    "validate_cell_name_allowing_ephemeral (sr_cell_name req) = Inr ()"
    "validate_idempotency_key (sr_idempotency_key req) = Inr ()"
    "lookup_spawn_request (sr_caller req) (sr_cell_name req) (sr_idempotency_key req) s = None"
    "al_events l' = al_events l @ [spawn_draft req eng]"
    "spawn_inner now tid jid req (spawning_thread now tid req eng mo pr cwd wt) cap s = (Inr t, s')"
    by (cases c'; auto simp: spawn_idempotent_def a in_tx_def
        split: sum.splits option.splits prod.splits)+
  from spawn_inner_Inr [OF s(5)] s show ?thesis by simp
qed

definition queued_first :: "nat \<Rightarrow> string \<Rightarrow> string \<Rightarrow> spawn_request \<Rightarrow> store \<Rightarrow> cell_job" where
  "queued_first now jid tid req s =
    \<lparr>j_job_id = jid, j_crewd_thread_id = tid, j_cell_name = sr_cell_name req, j_payload = sr_payload req,
     j_state = JQueued, j_lease_expires_at = None, j_accepted_by_engine_at = None, j_engine_turn_id = None,
     j_created_at = now_rfc3339 now, j_enqueue_seq = next_enqueue_seq (sr_cell_name req) s\<rparr>"

text \<open>The store of a successful transaction: four tables grow, by the rows given here.\<close>

definition spawned_store :: "nat \<Rightarrow> string \<Rightarrow> string \<Rightarrow> spawn_request \<Rightarrow> cell_thread \<Rightarrow> store \<Rightarrow> store" where
  "spawned_store now tid jid req t s =
    s\<lparr>s_cell_locks := (if sr_cell_name req \<in> set (s_cell_locks s) then s_cell_locks s
                        else s_cell_locks s @ [sr_cell_name req]),
      s_spawn_requests := s_spawn_requests s @
        [\<lparr>sp_caller = sr_caller req, sp_cell_name = sr_cell_name req,
          sp_idempotency_key = sr_idempotency_key req, sp_crewd_thread_id = tid,
          sp_created_at = now_rfc3339 now\<rparr>],
      s_threads := s_threads s @ [t],
      s_jobs := s_jobs s @ [queued_first now jid tid req s]\<rparr>"

lemma spawn_inner_exact:
  assumes "spawn_inner now tid jid req thread cap s = (Inr t, s')"
  shows "s' = spawned_store now tid jid req thread s \<and> job_active_count_for_cell (sr_cell_name req) s < cap \<and>
    thread_get (t_crewd_thread_id thread) s = None \<and> job_get jid s = None"
  using assms
  by (auto simp: spawn_inner_def Let_def bind_res_Inr thread_insert_def job_enqueue_inner_def spawned_store_def
      queued_first_def thread_get_def job_get_def job_active_count_for_cell_def next_enqueue_seq_def split: if_splits)

lemma spawn_failed:
  assumes "spawn_idempotent now tid jid req eng mo pr cwd wt cap (s, l) = (Inl e, (s', l'))"
  shows "s' = s \<and> al_events l' \<in> {al_events l, al_events l @ [spawn_draft req eng]}"
proof -
  obtain ra ca where a: "audit_to (spawn_draft req eng) (s, l) = (ra, ca)" by (metis prod.exhaust)
  from assms audit_to_cases [OF a] show ?thesis
    by (cases ca) (auto simp: spawn_idempotent_def a in_tx_def split: sum.splits option.splits prod.splits)
qed

lemma spawn_replayed:
  assumes "spawn_idempotent now tid jid req eng mo pr cwd wt cap (s, l) = (Inr (Replayed t), c')"
  shows "c' = (s, l) \<and> thread_get (t_crewd_thread_id t) s = Some t \<and>
    lookup_spawn_request (sr_caller req) (sr_cell_name req) (sr_idempotency_key req) s = Some (t_crewd_thread_id t)"
proof -
  obtain ra ca where a: "audit_to (spawn_draft req eng) (s, l) = (ra, ca)" by (metis prod.exhaust)
  from assms audit_to_cases [OF a] show ?thesis
    by (cases ca) (auto simp: spawn_idempotent_def a in_tx_def dest: thread_get_id
        split: sum.splits option.splits prod.splits)
qed

text \<open>C12: a spawn is all or nothing.  A failed spawn leaves every table as it was (even when the busy
  check or the queue cap fails in the middle of the transaction) and has appended at most its audit
  event; a replay changes nothing at all and returns the recorded thread of this caller, cell and
  key; and a created one found the cell without an active thread, below its queue cap and without a
  record of the key, and adds exactly four rows, after its audit event was acknowledged: the lock row
  of the cell unless it has one, the request record, the spawning thread and one queued job that
  carries the payload.  No other row of any table changes.\<close>

theorem spawn_all_or_nothing:
  "case spawn_idempotent now tid jid req eng mo pr cwd wt cap (s, l) of
     (Inl e, (s', l')) \<Rightarrow> s' = s \<and> al_events l' \<in> {al_events l, al_events l @ [spawn_draft req eng]}
   | (Inr (Replayed t), c') \<Rightarrow> c' = (s, l) \<and> thread_get (t_crewd_thread_id t) s = Some t \<and>
       lookup_spawn_request (sr_caller req) (sr_cell_name req) (sr_idempotency_key req) s = Some (t_crewd_thread_id t)
   | (Inr (Created t), (s', l')) \<Rightarrow>
       t = spawning_thread now tid req eng mo pr cwd wt \<and>
       thread_active_for_cell (sr_cell_name req) s = None \<and>
       job_active_count_for_cell (sr_cell_name req) s < cap \<and>
       lookup_spawn_request (sr_caller req) (sr_cell_name req) (sr_idempotency_key req) s = None \<and>
       thread_get tid s = None \<and> job_get jid s = None \<and>
       al_events l' = al_events l @ [spawn_draft req eng] \<and>
       s' = spawned_store now tid jid req t s \<and>
       lookup_spawn_request (sr_caller req) (sr_cell_name req) (sr_idempotency_key req) s' = Some tid"
proof -
  obtain r s' l' where Pair: "spawn_idempotent now tid jid req eng mo pr cwd wt cap (s, l) = (r, (s', l'))"
    by (metis prod.exhaust)
  show ?thesis
  proof (cases r)
    case (Inl e)
    with spawn_failed [OF Pair [unfolded Inl]] Pair show ?thesis by simp
  next
    case (Inr out)
    show ?thesis
    proof (cases out)
      case (Created t)
      note sc = spawn_created [OF Pair [unfolded Inr Created]]
      then have inner: "spawn_inner now tid jid req t cap s = (Inr t, s')" by blast
      note ex = spawn_inner_exact [OF inner]
      have "lookup_spawn_request (sr_caller req) (sr_cell_name req) (sr_idempotency_key req) s' = Some tid"
        using sc spawn_inner_Inr [OF inner] by (auto simp: lookup_spawn_request_def find_append split: option.splits)
      moreover have "t_crewd_thread_id t = tid" using sc by (auto simp: spawning_thread_def)
      ultimately show ?thesis
        unfolding Pair Inr Created using sc ex spawn_inner_Inr [OF inner] by simp
    next
      case (Replayed t)
      with spawn_replayed [OF Pair [unfolded Inr Replayed]] Pair Inr show ?thesis by simp
    qed
  qed
qed

lemma thread_step_requests: "thread_step\<^sup>*\<^sup>* s t \<Longrightarrow> s_spawn_requests t = s_spawn_requests s"
proof (induction rule: rtranclp_induct)
  case (step t u)
  from step(2) have "s_spawn_requests u = s_spawn_requests t"
    by cases (auto simp: thread_insert_def thread_transition_def thread_set_engine_ids_def
        thread_bump_generation_def update_thread_def split: option.splits)
  with step(3) show ?case by simp
qed simp

text \<open>Spawning is idempotent.  After a spawn created a thread, the same caller, cell and key gets
  that thread back (in its current state) and nothing changes, no matter what the thread has been
  through since, and no matter which payload, engine or identifiers the repetition carries.\<close>

lemma spawn_replays:
  assumes "spawn_idempotent now tid jid req eng mo pr cwd wt cap (s, l) = (Inr (Created t), (s', l'))"
    and "thread_step\<^sup>*\<^sup>* s' s''"
    and "sr_caller req' = sr_caller req" "sr_cell_name req' = sr_cell_name req"
    and "sr_idempotency_key req' = sr_idempotency_key req"
  shows "\<exists>u. thread_get tid s'' = Some u \<and> thread_later t u \<and>
    spawn_idempotent now2 tid2 jid2 req' eng2 mo2 pr2 cwd2 wt2 cap2 (s'', l'') = (Inr (Replayed u), (s'', l''))"
proof -
  from spawn_created [OF assms(1)] have sc:
    "validate_cell_name_allowing_ephemeral (sr_cell_name req) = Inr ()"
    "validate_idempotency_key (sr_idempotency_key req) = Inr ()"
    "lookup_spawn_request (sr_caller req) (sr_cell_name req) (sr_idempotency_key req) s = None"
    "t = spawning_thread now tid req eng mo pr cwd wt"
    "spawn_inner now tid jid req t cap s = (Inr t, s')" by auto
  note si = spawn_inner_Inr [OF sc(5)]
  have tid: "t_crewd_thread_id t = tid" by (simp add: sc(4) spawning_thread_def)
  have "thread_get tid s' = Some t"
    using si tid by (auto simp: thread_get_def find_append split: option.splits)
  from lifecycle_later [OF this assms(2)] obtain u where u: "thread_get tid s'' = Some u" "thread_later t u"
    by blast
  have "lookup_spawn_request (sr_caller req) (sr_cell_name req) (sr_idempotency_key req) s'' = Some tid"
    using sc(3) si thread_step_requests [OF assms(2)]
    by (auto simp: lookup_spawn_request_def find_append split: option.splits)
  with u sc assms(3-5) show ?thesis by (simp add: spawn_idempotent_def)
qed

definition example_request :: spawn_request where
  "example_request = \<lparr>sr_caller = ''dev'', sr_cell_name = ''w'', sr_idempotency_key = ''k'', sr_payload = ''go''\<rparr>"

definition empty_log :: audit_log where
  "empty_log = \<lparr>al_events = [], al_faults = []\<rparr>"

lemma example_spawn:
  "\<exists>s' l'. spawn_idempotent 5 ''t1'' ''j1'' example_request Claude None None ''/w'' None 8 (empty_store, empty_log) =
    (Inr (Created (spawning_thread 5 ''t1'' example_request Claude None None ''/w'' None)), (s', l'))"
proof -
  have v: "validate_cell_name_allowing_ephemeral ''w'' = Inr ()" "validate_idempotency_key ''k'' = Inr ()"
    by (simp_all add: validate_cell_name_allowing_ephemeral_def strip_prefix_def EPHEMERAL_PREFIX_def
        validate_cell_name_def validate_idempotency_key_def is_ascii_lowercase_def less_eq_char_def)
  have a: "audit_to (spawn_draft example_request Claude) (empty_store, empty_log) =
      (Inr (), (empty_store, \<lparr>al_events = [spawn_draft example_request Claude], al_faults = []\<rparr>))"
    by (simp add: audit_to_def audit_emit_def assert_kind_def AUDIT_KINDS_def spawn_draft_def empty_log_def)
  have f: "sr_caller example_request = ''dev''" "sr_cell_name example_request = ''w''"
    "sr_idempotency_key example_request = ''k''" "sr_payload example_request = ''go''"
    by (simp_all add: example_request_def)
  show ?thesis
    by (simp add: spawn_idempotent_def a f v lookup_spawn_request_def in_tx_def spawn_inner_def Let_def
        thread_active_for_cell_def thread_insert_def thread_get_def job_enqueue_inner_def
        job_active_count_for_cell_def job_get_def)
qed

text \<open>A spawn in an empty store; then the cell is busy, so a second one under another key fails.\<close>

theorem spawn_all_or_nothing_witness:
  "\<exists>t s l. spawn_idempotent 5 ''t1'' ''j1'' example_request Claude None None ''/w'' None 8 (empty_store, empty_log) =
      (Inr (Created t), (s, l)) \<and>
    s_threads s = [t] \<and> s_cell_locks s = [''w''] \<and> map j_payload (s_jobs s) = [''go''] \<and>
    (\<exists>e l'. spawn_idempotent 9 ''t2'' ''j2'' (example_request\<lparr>sr_idempotency_key := ''k2''\<rparr>) Codex None None ''.'' None 8 (s, l) =
      (Inl e, (s, l')))"
proof -
  obtain t s l where sp: "spawn_idempotent 5 ''t1'' ''j1'' example_request Claude None None ''/w'' None 8 (empty_store, empty_log) =
      (Inr (Created t), (s, l))" using example_spawn by blast
  have f: "sr_caller example_request = ''dev''" "sr_cell_name example_request = ''w''"
    "sr_idempotency_key example_request = ''k''" "sr_payload example_request = ''go''"
    by (simp_all add: example_request_def)
  have c: "t = spawning_thread 5 ''t1'' example_request Claude None None ''/w'' None"
    "s = spawned_store 5 ''t1'' ''j1'' example_request t empty_store"
    using spawn_all_or_nothing [where now = 5 and tid = "''t1''" and jid = "''j1''" and req = example_request and eng = Claude and
        mo = None and pr = None and cwd = "''/w''" and wt = None and cap = 8 and s = empty_store and l = empty_log]
    unfolding sp by simp_all
  then have s: "s_threads s = [t]" "s_cell_locks s = [''w'']" "map j_payload (s_jobs s) = [''go'']"
    "map sp_idempotency_key (s_spawn_requests s) = [''k'']"
    by (simp_all add: spawned_store_def queued_first_def f empty_store_def)
  let ?r = "example_request\<lparr>sr_idempotency_key := ''k2''\<rparr>"
  have busy: "thread_active_for_cell (sr_cell_name ?r) s \<noteq> None"
    using s(1) by (simp add: thread_active_for_cell_def thread_active_def f c(1) spawning_thread_def)
  have new: "lookup_spawn_request (sr_caller ?r) (sr_cell_name ?r) (sr_idempotency_key ?r) s = None"
    using s(4) by (cases "s_spawn_requests s") (simp_all add: lookup_spawn_request_def)
  obtain x s' l' where again: "spawn_idempotent 9 ''t2'' ''j2'' ?r Codex None None ''.'' None 8 (s, l) = (x, (s', l'))"
    by (metis prod.exhaust)
  from spawn_all_or_nothing [where now = 9 and tid = "''t2''" and jid = "''j2''" and req = ?r and eng = Codex and
      mo = None and pr = None and cwd = "''.''" and wt = None and cap = 8 and s = s and l = l] busy new
  obtain e where "x = Inl e" "s' = s"
    unfolding again by (cases x) (auto split: spawn_outcome.splits)
  with again sp s show ?thesis by (intro exI conjI) simp_all
qed

lemma spawn_replays_witness:
  "\<exists>c u. spawn_idempotent 90 ''t2'' ''j2'' (example_request\<lparr>sr_payload := ''again''\<rparr>) Codex None None ''.'' None 8 c =
    (Inr (Replayed u), c) \<and> t_crewd_thread_id u = ''t1''"
proof -
  obtain s' l' where sp: "spawn_idempotent 5 ''t1'' ''j1'' example_request Claude None None ''/w'' None 8 (empty_store, empty_log) =
    (Inr (Created (spawning_thread 5 ''t1'' example_request Claude None None ''/w'' None)), (s', l'))"
    using example_spawn by blast
  from spawn_replays [OF sp rtranclp.rtrancl_refl, of "example_request\<lparr>sr_payload := ''again''\<rparr>" 90 "''t2''" "''j2''"
      Codex None None "''.''" None 8 l']
  show ?thesis by (auto dest: thread_get_id)
qed

end
