(* ===== verification/Journal.thy ===== *)
theory Journal
  imports Threads
begin

text \<open>
  The engine protocol types and the per-thread journal (\<open>engine.rs\<close>), with the reader of the
  final answer in a journal tail (\<open>journal_final_answer\<close> in \<open>handlers.rs\<close>).
\<close>

record engine_caps =
  supports_session_resume :: bool
  supports_abort :: bool
  supports_stream_replay :: bool
  supports_model_override :: bool
  supports_yolo :: bool

datatype engine_event = Accepted string | Note string | Final string | Failed string

record cell_result =
  cr_final_answer :: "string option"
  cr_event_tail :: "string list"
  cr_artifact_refs :: "string list"
  cr_exit_status :: string
  cr_crewd_thread_id :: string
  cr_engine_process_id :: "int option"
  cr_engine_thread_id :: "string option"
  cr_engine_turn_id :: "string option"
  cr_engine_session_id :: "string option"

definition cell_result_from_thread :: "cell_thread \<Rightarrow> cell_result" where
  "cell_result_from_thread t =
    \<lparr>cr_final_answer = None, cr_event_tail = [], cr_artifact_refs = [], cr_exit_status = [],
     cr_crewd_thread_id = t_crewd_thread_id t, cr_engine_process_id = t_engine_process_id t,
     cr_engine_thread_id = t_engine_thread_id t, cr_engine_turn_id = t_engine_turn_id t,
     cr_engine_session_id = t_engine_session_id t\<rparr>"

definition thread_journal :: "string \<Rightarrow> store \<Rightarrow> journal_row list" where
  "thread_journal thread_id s = filter (\<lambda>r. jr_thread_id r = thread_id) (s_journal s)"

definition journal_append :: "nat \<Rightarrow> string \<Rightarrow> string \<Rightarrow> store \<Rightarrow> nat \<times> store" where
  "journal_append now thread_id line s =
    (let n = fold max (map jr_seq (thread_journal thread_id s)) 0 + 1
     in (n, s\<lparr>s_journal := s_journal s @
          [\<lparr>jr_thread_id = thread_id, jr_seq = n, jr_line = line, jr_at = now_rfc3339 now\<rparr>]\<rparr>))"

text \<open>\<open>ORDER BY seq DESC LIMIT n\<close>, reversed; each line behind its sequence number, \<open>{:04}\<close>.\<close>

definition journal_line :: "nat \<Rightarrow> string \<Rightarrow> string" where
  "journal_line n line = pad0 4 (dec n) @ '' '' @ line"

definition journal_tail :: "string \<Rightarrow> nat \<Rightarrow> store \<Rightarrow> string list" where
  "journal_tail thread_id n s =
    map (\<lambda>r. journal_line (jr_seq r) (jr_line r))
      (rev (take n (rev (sort_key jr_seq (thread_journal thread_id s)))))"

definition split_once_space :: "string \<Rightarrow> (string \<times> string) option" where
  "split_once_space l =
    (if CHR '' '' \<in> set l
     then Some (takeWhile (\<lambda>c. c \<noteq> CHR '' '') l, tl (dropWhile (\<lambda>c. c \<noteq> CHR '' '') l)) else None)"

fun find_map :: "('a \<Rightarrow> 'b option) \<Rightarrow> 'a list \<Rightarrow> 'b option" where
  "find_map f [] = None"
| "find_map f (x # xs) = (case f x of None \<Rightarrow> find_map f xs | Some y \<Rightarrow> Some y)"

definition journal_final_answer :: "string list \<Rightarrow> string option" where
  "journal_final_answer tail_lines =
    find_map (\<lambda>l. case split_once_space l of None \<Rightarrow> None | Some (_, b) \<Rightarrow> strip_prefix ''final: '' b)
      (rev tail_lines)"

section \<open>Properties\<close>

text \<open>The lines of a thread are numbered 1, 2, 3, ...\<close>

definition journal_numbered :: "store \<Rightarrow> bool" where
  "journal_numbered s \<longleftrightarrow>
    (\<forall>i. map jr_seq (thread_journal i s) = [1 ..< Suc (length (thread_journal i s))])"

lemma fold_max_upt: "fold max [1 ..< Suc n] 0 = (n::nat)"
  by (induction n) simp_all

lemma journal_max:
  "journal_numbered s \<Longrightarrow>
   fold max (map jr_seq (thread_journal i s)) 0 = length (thread_journal i s)"
  unfolding journal_numbered_def by (simp only: fold_max_upt)

lemma append_numbered:
  assumes "journal_numbered s"
  shows "journal_numbered (snd (journal_append now i line s))"
  unfolding journal_numbered_def
proof
  fix k
  have n: "map jr_seq (thread_journal k s) = [1 ..< Suc (length (thread_journal k s))]"
    using assms unfolding journal_numbered_def by (rule spec)
  show "map jr_seq (thread_journal k (snd (journal_append now i line s))) =
      [1 ..< Suc (length (thread_journal k (snd (journal_append now i line s))))]"
    using n journal_max [OF assms, of i]
    by (cases "k = i") (simp_all add: journal_append_def Let_def thread_journal_def)
qed

interpretation journal: invariant_of "\<lambda>s. s = empty_store"
  "\<lambda>s t. \<exists>now i line. t = snd (journal_append now i line s)" journal_numbered
proof (unfold_locales, goal_cases)
  case (1 s)
  then show ?case by (simp add: journal_numbered_def thread_journal_def)
next
  case (2 s t)
  then show ?case using append_numbered by blast
qed

fun journal_run :: "(string \<times> string) list \<Rightarrow> nat \<Rightarrow> store \<Rightarrow> store" where
  "journal_run [] now s = s"
| "journal_run ((i, line) # xs) now s = journal_run xs now (snd (journal_append now i line s))"

lemma journal_run_rows:
  assumes "journal_numbered s"
  shows "journal_numbered (journal_run xs now s) \<and>
    map jr_line (thread_journal i (journal_run xs now s)) =
      map jr_line (thread_journal i s) @ map snd (filter (\<lambda>x. fst x = i) xs)"
  using assms
proof (induction xs arbitrary: s)
  case (Cons x xs)
  obtain k line where x: "x = (k, line)" by (cases x)
  from Cons.IH [OF append_numbered [OF Cons.prems, of now k line]]
  show ?case by (simp add: x) (simp add: thread_journal_def journal_append_def Let_def)
qed simp

lemma numbered_enumerate:
  "map jr_seq rs = [1 ..< Suc (length rs)] \<Longrightarrow>
   map (\<lambda>r. journal_line (jr_seq r) (jr_line r)) rs =
   map (\<lambda>(n, l). journal_line n l) (zip [1 ..< Suc (length rs)] (map jr_line rs))"
proof -
  assume a: "map jr_seq rs = [1 ..< Suc (length rs)]"
  have "map (\<lambda>r. journal_line (jr_seq r) (jr_line r)) rs =
      map (\<lambda>(n, l). journal_line n l) (zip (map jr_seq rs) (map jr_line rs))"
    by (induction rs) auto
  then show ?thesis by (simp only: a)
qed

lemma drop_numbered:
  assumes "map jr_seq rs = [1 ..< Suc (length rs)]"
  shows "rev (take n (rev (sort_key jr_seq rs))) = drop (length rs - n) rs"
proof -
  have "sorted (map jr_seq rs)" unfolding assms by (rule sorted_upt)
  then have "sort_key jr_seq rs = rs" by (rule sort_key_id_if_sorted)
  then show ?thesis by (simp add: rev_take)
qed

text \<open>Whatever lines are appended for whatever threads, the tail of a thread's journal is exactly
  the last lines appended for that thread, in order, each behind its consecutive number starting
  from one, and at most the asked number of them.\<close>

lemma journal_tail_is_suffix:
  "let ls = map snd (filter (\<lambda>x. fst x = i) xs) in
   journal_tail i n (journal_run xs now empty_store) =
     drop (length ls - n) (map (\<lambda>(k, l). journal_line k l) (zip [1 ..< Suc (length ls)] ls))"
proof -
  let ?s = "journal_run xs now empty_store"
  let ?rs = "thread_journal i ?s"
  have num: "journal_numbered empty_store" by (rule journal.inv_init) simp
  from journal_run_rows [OF num, of xs now i]
  have seq: "map jr_seq ?rs = [1 ..< Suc (length ?rs)]"
    and lines: "map jr_line ?rs = map snd (filter (\<lambda>x. fst x = i) xs)"
    by (auto simp: journal_numbered_def thread_journal_def simp del: upt_Suc)
  have len: "length ?rs = length (map snd (filter (\<lambda>x. fst x = i) xs))"
    using lines by (metis length_map)
  have "journal_tail i n ?s = drop (length ?rs - n) (map (\<lambda>r. journal_line (jr_seq r) (jr_line r)) ?rs)"
    by (simp add: journal_tail_def drop_numbered [OF seq] drop_map)
  also have "\<dots> = drop (length ?rs - n) (map (\<lambda>(k, l). journal_line k l)
      (zip [1 ..< Suc (length ?rs)] (map jr_line ?rs)))"
    by (simp only: numbered_enumerate [OF seq])
  finally show ?thesis by (simp only: lines len Let_def)
qed

lemma split_once_journal: "split_once_space (journal_line n l) = Some (pad0 4 (dec n), l)"
proof -
  have "CHR '' '' \<notin> set (dec m)" for m
  proof (induction m rule: dec.induct)
    case (1 m)
    have d: "digit_char k \<noteq> CHR '' ''" if "k < 10" for k
    proof -
      have "of_char (digit_char k) = 48 + k" using that by (simp add: digit_char_def)
      then have "of_char (digit_char k) \<noteq> (of_char CHR '' '' :: nat)" by simp
      then show ?thesis by metis
    qed
    show ?case
    proof (cases "m < 10")
      case True
      then show ?thesis using d [of m] by (auto simp: dec_small)
    next
      case False
      then show ?thesis using 1 d [of "m mod 10"] by (auto simp: dec_step)
    qed
  qed
  then have n: "\<forall>c \<in> set (pad0 4 (dec n)). c \<noteq> CHR '' ''"
    by (auto simp: pad0_def)
  have "takeWhile (\<lambda>c. c \<noteq> CHR '' '') (xs @ CHR '' '' # l) = xs \<and>
      dropWhile (\<lambda>c. c \<noteq> CHR '' '') (xs @ CHR '' '' # l) = CHR '' '' # l"
    if "\<forall>c \<in> set xs. c \<noteq> CHR '' ''" for xs
    using that by (induction xs) auto
  from this [OF n] show ?thesis by (simp add: split_once_space_def journal_line_def)
qed

text \<open>The final answer read from a journal is the text of the last line that records one, whatever
  the numbers in front are.\<close>

lemma final_answer_is_last:
  "journal_final_answer (map (\<lambda>(n, l). journal_line n l) ls) =
    (case filter (\<lambda>l. strip_prefix ''final: '' l \<noteq> None) (rev (map snd ls)) of
      [] \<Rightarrow> None | l # _ \<Rightarrow> strip_prefix ''final: '' l)"
proof -
  have "find_map (\<lambda>l. case split_once_space l of None \<Rightarrow> None | Some (_, b) \<Rightarrow> strip_prefix ''final: '' b)
      (map (\<lambda>(n, l). journal_line n l) xs) =
    (case filter (\<lambda>l. strip_prefix ''final: '' l \<noteq> None) (map snd xs) of
      [] \<Rightarrow> None | l # _ \<Rightarrow> strip_prefix ''final: '' l)" for xs
    by (induction xs) (auto simp: split_once_journal split: option.splits)
  from this [of "rev ls"] show ?thesis by (simp add: journal_final_answer_def rev_map)
qed

end
