(* ===== verification/Wire.thy ===== *)
theory Wire
  imports Types AuditLog
begin

text \<open>
  The wire protocol (\<open>wire.rs\<close>, \<open>principal.rs\<close>) and the frame reader of \<open>server.rs\<close>: typed
  parameters read from a JSON value the way the derived \<open>Deserialize\<close> instances do (an object by
  field name, an array by position), responses, and newline framing over a byte stream that
  arrives in arbitrary chunks.
\<close>

section \<open>Reading fields\<close>

text \<open>
  A struct is read from an object (unknown keys ignored) or from an array that is not longer than
  the field list.  A field that is absent takes its default or fails.
\<close>

definition struct_fields :: "string list \<Rightarrow> json \<Rightarrow> (string \<Rightarrow> json option) res" where
  "struct_fields names v =
    (case v of
      JObj kvs \<Rightarrow> Inr (map_of kvs)
    | JArr xs \<Rightarrow> (if length names < length xs then Inl Internal else Inr (map_of (zip names xs)))
    | _ \<Rightarrow> Inl Internal)"

definition field_str :: "string \<Rightarrow> (string \<Rightarrow> json option) \<Rightarrow> string res" where
  "field_str k f = (case f k of Some (JStr s) \<Rightarrow> Inr s | _ \<Rightarrow> Inl Internal)"

definition field_bool :: "string \<Rightarrow> (string \<Rightarrow> json option) \<Rightarrow> bool res" where
  "field_bool k f = (case f k of Some (JBool b) \<Rightarrow> Inr b | _ \<Rightarrow> Inl Internal)"

definition field_opt_str :: "string \<Rightarrow> (string \<Rightarrow> json option) \<Rightarrow> string option res" where
  "field_opt_str k f =
    (case f k of None \<Rightarrow> Inr None | Some JNull \<Rightarrow> Inr None | Some (JStr s) \<Rightarrow> Inr (Some s)
     | Some _ \<Rightarrow> Inl Internal)"

definition uint_of :: "nat \<Rightarrow> json \<Rightarrow> nat res" where
  "uint_of width v =
    (case v of JInt n \<Rightarrow> if 0 \<le> n \<and> n < 2 ^ width then Inr (nat n) else Inl Internal | _ \<Rightarrow> Inl Internal)"

definition field_opt_uint :: "nat \<Rightarrow> string \<Rightarrow> (string \<Rightarrow> json option) \<Rightarrow> nat option res" where
  "field_opt_uint width k f =
    (case f k of None \<Rightarrow> Inr None | Some JNull \<Rightarrow> Inr None
     | Some v \<Rightarrow> (case uint_of width v of Inl e \<Rightarrow> Inl e | Inr n \<Rightarrow> Inr (Some n)))"

fun strings_of :: "json list \<Rightarrow> string list res" where
  "strings_of [] = Inr []"
| "strings_of (JStr s # xs) = (case strings_of xs of Inl e \<Rightarrow> Inl e | Inr ss \<Rightarrow> Inr (s # ss))"
| "strings_of (_ # xs) = Inl Internal"

definition field_strs :: "string \<Rightarrow> (string \<Rightarrow> json option) \<Rightarrow> string list res" where
  "field_strs k f =
    (case f k of None \<Rightarrow> Inr [] | Some (JArr xs) \<Rightarrow> strings_of xs | Some _ \<Rightarrow> Inl Internal)"

text \<open>A unit variant is its name, or an object with that single key and a null value.\<close>

definition msg_type_of_name :: "string \<Rightarrow> msg_type res" where
  "msg_type_of_name s =
    (if s \<in> set (map msg_type_as_str [MNote, MTask, MAsk, MReply, MEvidence, MAdminRequest])
     then Inr (parse_msg_type s) else Inl Internal)"

definition field_opt_msg_type :: "string \<Rightarrow> (string \<Rightarrow> json option) \<Rightarrow> msg_type option res" where
  "field_opt_msg_type k f =
    (case f k of None \<Rightarrow> Inr None | Some JNull \<Rightarrow> Inr None
     | Some (JStr s) \<Rightarrow> (case msg_type_of_name s of Inl e \<Rightarrow> Inl e | Inr m \<Rightarrow> Inr (Some m))
     | Some (JObj [(s, JNull)]) \<Rightarrow> (case msg_type_of_name s of Inl e \<Rightarrow> Inl e | Inr m \<Rightarrow> Inr (Some m))
     | Some _ \<Rightarrow> Inl Internal)"

definition require :: "'e + 'a \<Rightarrow> 's \<Rightarrow> ('a \<Rightarrow> ('e + 'b) \<times> 's) \<Rightarrow> ('e + 'b) \<times> 's" where
  "require r s k = (case r of Inl e \<Rightarrow> (Inl e, s) | Inr a \<Rightarrow> k a)"

definition and_then :: "'e + 'a \<Rightarrow> ('a \<Rightarrow> 'e + 'b) \<Rightarrow> 'e + 'b" where
  "and_then r k = (case r of Inl e \<Rightarrow> Inl e | Inr a \<Rightarrow> k a)"

lemma require_simps [simp, res_simps]:
  "require (Inl e) s k = (Inl e, s)" "require (Inr a) s k = k a"
  by (simp_all add: require_def)

lemma after_require:
  "R\<^sup>*\<^sup>* d0 d \<Longrightarrow> (\<And>a. r = Inr a \<Longrightarrow> R\<^sup>*\<^sup>* d0 (snd (k a))) \<Longrightarrow> R\<^sup>*\<^sup>* d0 (snd (require r d k))"
  by (cases r) auto

lemma and_then_simps [simp, res_simps]:
  "and_then (Inl e) k = Inl e" "and_then (Inr a) k' = k' a"
  by (simp_all add: and_then_def)

lemma and_then_Inr: "and_then r k = Inr b \<longleftrightarrow> (\<exists>a. r = Inr a \<and> k a = Inr b)"
  by (cases r) auto

section \<open>Tool parameters\<close>

record send_params =
  snd_to_cell :: string
  snd_body :: string
  snd_file_refs :: "string list"
  snd_idempotency_key :: "string option"
  snd_ttl_seconds :: "nat option"
  snd_msg_type :: "msg_type option"

definition parse_send :: "json \<Rightarrow> send_params res" where
  "parse_send v =
    and_then (struct_fields [''to_cell'', ''body'', ''file_refs'', ''idempotency_key'', ''ttl_seconds'',
      ''msg_type''] v) (\<lambda>f.
    and_then (field_str ''to_cell'' f) (\<lambda>t. and_then (field_str ''body'' f) (\<lambda>b.
    and_then (field_strs ''file_refs'' f) (\<lambda>fr. and_then (field_opt_str ''idempotency_key'' f) (\<lambda>k.
    and_then (field_opt_uint 64 ''ttl_seconds'' f) (\<lambda>ttl. and_then (field_opt_msg_type ''msg_type'' f) (\<lambda>m.
      Inr \<lparr>snd_to_cell = t, snd_body = b, snd_file_refs = fr, snd_idempotency_key = k,
           snd_ttl_seconds = ttl, snd_msg_type = m\<rparr>)))))))"

record ask_params =
  ask_to_cell :: string
  ask_body :: string
  ask_file_refs :: "string list"
  ask_idempotency_key :: "string option"
  ask_ttl_seconds :: "nat option"

definition parse_ask :: "json \<Rightarrow> ask_params res" where
  "parse_ask v =
    and_then (struct_fields [''to_cell'', ''body'', ''file_refs'', ''idempotency_key'', ''ttl_seconds''] v) (\<lambda>f.
    and_then (field_str ''to_cell'' f) (\<lambda>t. and_then (field_str ''body'' f) (\<lambda>b.
    and_then (field_strs ''file_refs'' f) (\<lambda>fr. and_then (field_opt_str ''idempotency_key'' f) (\<lambda>k.
    and_then (field_opt_uint 64 ''ttl_seconds'' f) (\<lambda>ttl.
      Inr \<lparr>ask_to_cell = t, ask_body = b, ask_file_refs = fr, ask_idempotency_key = k,
           ask_ttl_seconds = ttl\<rparr>))))))"

record await_params =
  aw_ask_id :: string
  aw_timeout_ms :: "nat option"

definition parse_await :: "json \<Rightarrow> await_params res" where
  "parse_await v =
    and_then (struct_fields [''ask_id'', ''timeout_ms''] v) (\<lambda>f.
    and_then (field_str ''ask_id'' f) (\<lambda>a. and_then (field_opt_uint 64 ''timeout_ms'' f) (\<lambda>t.
      Inr \<lparr>aw_ask_id = a, aw_timeout_ms = t\<rparr>)))"

record reply_params =
  rp_ask_id :: string
  rp_body :: string
  rp_file_refs :: "string list"
  rp_idempotency_key :: "string option"

definition parse_reply :: "json \<Rightarrow> reply_params res" where
  "parse_reply v =
    and_then (struct_fields [''ask_id'', ''body'', ''file_refs'', ''idempotency_key''] v) (\<lambda>f.
    and_then (field_str ''ask_id'' f) (\<lambda>a. and_then (field_str ''body'' f) (\<lambda>b.
    and_then (field_strs ''file_refs'' f) (\<lambda>fr. and_then (field_opt_str ''idempotency_key'' f) (\<lambda>k.
      Inr \<lparr>rp_ask_id = a, rp_body = b, rp_file_refs = fr, rp_idempotency_key = k\<rparr>)))))"

record inbox_params =
  ib_limit :: "nat option"

definition parse_inbox :: "json \<Rightarrow> inbox_params res" where
  "parse_inbox v =
    and_then (struct_fields [''limit''] v) (\<lambda>f.
    and_then (field_opt_uint 32 ''limit'' f) (\<lambda>l. Inr \<lparr>ib_limit = l\<rparr>))"

record broadcast_params =
  bc_body :: string
  bc_file_refs :: "string list"
  bc_idempotency_key :: "string option"
  bc_ttl_seconds :: "nat option"
  bc_msg_type :: "msg_type option"

definition parse_broadcast :: "json \<Rightarrow> broadcast_params res" where
  "parse_broadcast v =
    and_then (struct_fields [''body'', ''file_refs'', ''idempotency_key'', ''ttl_seconds'', ''msg_type''] v) (\<lambda>f.
    and_then (field_str ''body'' f) (\<lambda>b.
    and_then (field_strs ''file_refs'' f) (\<lambda>fr. and_then (field_opt_str ''idempotency_key'' f) (\<lambda>k.
    and_then (field_opt_uint 64 ''ttl_seconds'' f) (\<lambda>ttl. and_then (field_opt_msg_type ''msg_type'' f) (\<lambda>m.
      Inr \<lparr>bc_body = b, bc_file_refs = fr, bc_idempotency_key = k, bc_ttl_seconds = ttl,
           bc_msg_type = m\<rparr>))))))"

record cell_spawn_params =
  cs_cell :: "string option"
  cs_engine :: "string option"
  cs_model :: "string option"
  cs_profile :: "string option"
  cs_cwd :: "string option"
  cs_worktree :: "string option"
  cs_task :: string
  cs_idempotency_key :: string
  cs_mode :: "string option"

definition parse_cell_spawn :: "json \<Rightarrow> cell_spawn_params res" where
  "parse_cell_spawn v =
    and_then (struct_fields [''cell'', ''engine'', ''model'', ''profile'', ''cwd'', ''worktree'', ''task'',
      ''idempotency_key'', ''mode''] v) (\<lambda>f.
    and_then (field_opt_str ''cell'' f) (\<lambda>c. and_then (field_opt_str ''engine'' f) (\<lambda>e.
    and_then (field_opt_str ''model'' f) (\<lambda>m. and_then (field_opt_str ''profile'' f) (\<lambda>p.
    and_then (field_opt_str ''cwd'' f) (\<lambda>d. and_then (field_opt_str ''worktree'' f) (\<lambda>w.
    and_then (field_str ''task'' f) (\<lambda>t. and_then (field_str ''idempotency_key'' f) (\<lambda>k.
    and_then (field_opt_str ''mode'' f) (\<lambda>mo.
      Inr \<lparr>cs_cell = c, cs_engine = e, cs_model = m, cs_profile = p, cs_cwd = d, cs_worktree = w,
           cs_task = t, cs_idempotency_key = k, cs_mode = mo\<rparr>))))))))))"

record cell_send_task_params =
  st_crewd_thread_id :: string
  st_message :: string
  st_idempotency_key :: "string option"

definition parse_cell_send_task :: "json \<Rightarrow> cell_send_task_params res" where
  "parse_cell_send_task v =
    and_then (struct_fields [''crewd_thread_id'', ''message'', ''idempotency_key''] v) (\<lambda>f.
    and_then (field_str ''crewd_thread_id'' f) (\<lambda>t. and_then (field_str ''message'' f) (\<lambda>m.
    and_then (field_opt_str ''idempotency_key'' f) (\<lambda>k.
      Inr \<lparr>st_crewd_thread_id = t, st_message = m, st_idempotency_key = k\<rparr>))))"

text \<open>\<open>CellStatusParams\<close>, \<open>CellResultParams\<close> and \<open>CellCancelParams\<close> have the thread as only field.\<close>

definition parse_cell_status :: "json \<Rightarrow> string option res" where
  "parse_cell_status v = and_then (struct_fields [''crewd_thread_id''] v) (field_opt_str ''crewd_thread_id'')"

definition parse_cell_result :: "json \<Rightarrow> string res" where
  "parse_cell_result v = and_then (struct_fields [''crewd_thread_id''] v) (field_str ''crewd_thread_id'')"

definition parse_cell_cancel :: "json \<Rightarrow> string res" where
  "parse_cell_cancel v = and_then (struct_fields [''crewd_thread_id''] v) (field_str ''crewd_thread_id'')"

section \<open>Requests and responses\<close>

record wire_request =
  wq_id :: nat
  wq_method :: string
  wq_params :: json

text \<open>The human-readable message beside the code is left out of the model.\<close>

record wire_response =
  ws_id :: nat
  ws_result :: "json option"
  ws_error :: "string option"

definition wire_ok :: "nat \<Rightarrow> json \<Rightarrow> wire_response" where
  "wire_ok i v = \<lparr>ws_id = i, ws_result = Some v, ws_error = None\<rparr>"

definition wire_err :: "nat \<Rightarrow> bus_error \<Rightarrow> wire_response" where
  "wire_err i e = \<lparr>ws_id = i, ws_result = None, ws_error = Some (code e)\<rparr>"

record client_proof =
  cp_cell_id :: string
  cp_token :: string
  cp_spec_version :: string

definition parse_client_proof :: "json \<Rightarrow> client_proof res" where
  "parse_client_proof v =
    and_then (struct_fields [''cell_id'', ''token'', ''spec_version''] v) (\<lambda>f.
    and_then (field_str ''cell_id'' f) (\<lambda>c. and_then (field_str ''token'' f) (\<lambda>t.
    and_then (field_str ''spec_version'' f) (\<lambda>s.
      Inr \<lparr>cp_cell_id = c, cp_token = t, cp_spec_version = s\<rparr>))))"

datatype auth_level = L0Token | UnixUid | IsolatedService | Container

record peer_cred =
  pc_uid :: nat
  pc_gid :: nat
  pc_pid :: "nat option"

record cell_principal =
  pr_cell_id :: string
  pr_auth_level :: auth_level
  pr_unix_uid :: "nat option"
  pr_unix_gid :: "nat option"
  pr_pid :: "nat option"
  pr_pidfd_supported :: bool
  pr_token_id :: "string option"

section \<open>Frames\<close>

definition MAX_HANDSHAKE_BYTES :: nat where "MAX_HANDSHAKE_BYTES = 8 * 1024"
definition MAX_FRAME_BYTES :: nat where "MAX_FRAME_BYTES = 192 * 1024"

text \<open>\<open>read_frame\<close> reads byte after byte up to the newline; an empty line is an error.\<close>

definition read_frame :: "(string \<Rightarrow> wire_request option) \<Rightarrow> string \<Rightarrow> wire_request option \<times> string" where
  "read_frame parse input =
    (let buf = takeWhile (\<lambda>c. c \<noteq> NL) input; rest = tl (dropWhile (\<lambda>c. c \<noteq> NL) input)
     in if buf = [] then (None, rest) else (parse buf, rest))"

definition write_frame :: "(wire_request \<Rightarrow> string) \<Rightarrow> wire_request \<Rightarrow> string" where
  "write_frame ser req = ser req @ [NL]"

text \<open>
  The carry-over reader.  The stream is the list of what the coming reads return: a chunk of
  bytes, or \<open>None\<close> for an I/O error; the end of the list and an empty chunk are the end of the
  stream.
\<close>

type_synonym stream = "string option list"

datatype frame_result = Frame string | TooLarge | ReadError

function read_bounded_line :: "nat \<Rightarrow> string \<Rightarrow> stream \<Rightarrow> frame_result \<times> string \<times> stream" where
  "read_bounded_line mx carry chunks =
    (if NL \<in> set carry
     then (Frame (takeWhile (\<lambda>c. c \<noteq> NL) carry), tl (dropWhile (\<lambda>c. c \<noteq> NL) carry), chunks)
     else if mx < length carry then (TooLarge, carry, chunks)
     else case chunks of
       [] \<Rightarrow> (Frame carry, [], [])
     | None # cs \<Rightarrow> (ReadError, carry, cs)
     | Some c # cs \<Rightarrow> (if c = [] then (Frame carry, [], cs) else read_bounded_line mx (carry @ c) cs))"
  by pat_completeness auto
termination by (relation "measure (\<lambda>(mx, carry, chunks). length chunks)") auto

declare read_bounded_line.simps [simp del]

text \<open>What the connection loop gets: frame after frame, until an empty one (the end) or an error.\<close>

definition stream_bytes :: "stream \<Rightarrow> nat" where
  "stream_bytes chunks = sum_list (map (\<lambda>c. case c of None \<Rightarrow> 0 | Some x \<Rightarrow> length x) chunks)"

lemma read_line_consumes:
  "read_bounded_line mx carry chunks = (Frame f, carry', chunks') \<Longrightarrow>
   length f + length carry' + stream_bytes chunks' \<le> length carry + stream_bytes chunks"
proof (induction mx carry chunks rule: read_bounded_line.induct)
  case (1 mx carry chunks)
  show ?case
  proof (cases "NL \<in> set carry")
    case True
    have "length (takeWhile (\<lambda>c. c \<noteq> NL) carry) + length (dropWhile (\<lambda>c. c \<noteq> NL) carry) = length carry"
      by (metis length_append takeWhile_dropWhile_id)
    then show ?thesis
      using 1(2) True by (subst (asm) read_bounded_line.simps) auto
  next
    case False
    then show ?thesis using 1
      by (subst (asm) (2) read_bounded_line.simps)
        (fastforce simp: stream_bytes_def split: if_splits list.splits option.splits)
  qed
qed

function connection_frames :: "nat \<Rightarrow> string \<Rightarrow> stream \<Rightarrow> string list" where
  "connection_frames mx carry chunks =
    (case read_bounded_line mx carry chunks of
      (Frame f, carry', chunks') \<Rightarrow> (if f = [] then [] else f # connection_frames mx carry' chunks')
    | _ \<Rightarrow> [])"
  by pat_completeness auto
termination
  by (relation "measure (\<lambda>(mx, carry, chunks). length carry + stream_bytes chunks)")
    (auto dest!: read_line_consumes [OF sym] simp: neq_Nil_conv)

declare connection_frames.simps [simp del]

text \<open>The reference: the lines of the whole byte string, up to the first empty one.\<close>

function frames_spec :: "string \<Rightarrow> string list" where
  "frames_spec bs =
    (let l = takeWhile (\<lambda>c. c \<noteq> NL) bs
     in if l = [] then [] else l # frames_spec (tl (dropWhile (\<lambda>c. c \<noteq> NL) bs)))"
  by pat_completeness auto
termination
proof (relation "measure length", goal_cases)
  case (2 bs l)
  then have "0 < length bs" by auto
  moreover have "length (dropWhile (\<lambda>c. c \<noteq> NL) bs) \<le> length bs" by (rule length_dropWhile_le)
  ultimately show ?case unfolding in_measure length_tl by linarith
qed simp

declare frames_spec.simps [simp del]

text \<open>One read, when the next line of the data is short enough: it returns that line and leaves the
  rest of the data behind, wherever the chunks end.\<close>

lemma read_line_data:
  assumes "list_all (\<lambda>c. c \<noteq> []) cs" "length (takeWhile (\<lambda>c. c \<noteq> NL) (carry @ concat cs)) \<le> mx"
  shows "\<exists>carry' cs'. read_bounded_line mx carry (map Some cs) =
      (Frame (takeWhile (\<lambda>c. c \<noteq> NL) (carry @ concat cs)), carry', map Some cs') \<and>
    list_all (\<lambda>c. c \<noteq> []) cs' \<and> carry' @ concat cs' = tl (dropWhile (\<lambda>c. c \<noteq> NL) (carry @ concat cs))"
  using assms
proof (induction cs arbitrary: carry)
  case Nil
  show ?case
  proof (cases "NL \<in> set carry")
    case True
    then show ?thesis by (subst read_bounded_line.simps) (auto intro!: exI [of _ "[]"])
  next
    case False
    then have t: "takeWhile (\<lambda>c. c \<noteq> NL) carry = carry" and d: "dropWhile (\<lambda>c. c \<noteq> NL) carry = []"
      by (auto simp: takeWhile_eq_all_conv dropWhile_eq_Nil_conv)
    have "length carry \<le> mx" using Nil(2) by (simp add: t)
    then show ?thesis using False by (subst read_bounded_line.simps) (simp add: t d)
  qed
next
  case (Cons c cs)
  show ?case
  proof (cases "NL \<in> set carry")
    case True
    have "takeWhile (\<lambda>c. c \<noteq> NL) (carry @ x) = takeWhile (\<lambda>c. c \<noteq> NL) carry \<and>
        tl (dropWhile (\<lambda>c. c \<noteq> NL) (carry @ x)) = tl (dropWhile (\<lambda>c. c \<noteq> NL) carry) @ x" for x
      using True by (induction carry) auto
    then show ?thesis
      using True Cons(2) by (subst read_bounded_line.simps) (auto intro!: exI [of _ "c # cs"])
  next
    case False
    then have "takeWhile (\<lambda>c. c \<noteq> NL) (carry @ concat (c # cs)) =
        carry @ takeWhile (\<lambda>c. c \<noteq> NL) (concat (c # cs))"
      by (auto intro: takeWhile_append2)
    with Cons(3) have "\<not> mx < length carry" by simp
    then have "read_bounded_line mx carry (map Some (c # cs)) = read_bounded_line mx (carry @ c) (map Some cs)"
      using False Cons(2) by (subst read_bounded_line.simps) simp
    then show ?thesis using Cons.IH [of "carry @ c"] Cons(2,3) by simp
  qed
qed

text \<open>C33: the frames a connection gets are the lines of the byte stream, whatever chunks it arrives in:
  pipelined frames in one chunk are not lost and a frame split over many chunks is put together,
  as long as no line exceeds the limit.\<close>

theorem frames_chunk_independent:
  assumes "list_all (\<lambda>c. c \<noteq> []) cs" "list_all (\<lambda>l. length l \<le> mx) (frames_spec (concat cs))"
  shows "connection_frames mx [] (map Some cs) = frames_spec (concat cs)"
proof -
  have "connection_frames mx carry (map Some cs) = frames_spec (carry @ concat cs)"
    if "list_all (\<lambda>c. c \<noteq> []) cs" "list_all (\<lambda>l. length l \<le> mx) (frames_spec (carry @ concat cs))"
    for carry cs
    using that
  proof (induction "carry @ concat cs" arbitrary: carry cs rule: frames_spec.induct)
    case 1
    let ?l = "takeWhile (\<lambda>c. c \<noteq> NL) (carry @ concat cs)"
    let ?r = "tl (dropWhile (\<lambda>c. c \<noteq> NL) (carry @ concat cs))"
    have spec: "frames_spec (carry @ concat cs) = (if ?l = [] then [] else ?l # frames_spec ?r)"
      by (subst frames_spec.simps) (simp only: Let_def)
    with 1(3) have "length ?l \<le> mx" by (auto split: if_splits)
    from read_line_data [OF 1(2) this] obtain carry' cs' where
      r: "read_bounded_line mx carry (map Some cs) = (Frame ?l, carry', map Some cs')"
      and cs': "list_all (\<lambda>c. c \<noteq> []) cs'" "carry' @ concat cs' = ?r" by blast
    have "connection_frames mx carry (map Some cs) =
        (if ?l = [] then [] else ?l # connection_frames mx carry' (map Some cs'))"
      by (subst connection_frames.simps) (simp only: r prod.case frame_result.case)
    moreover have "?l \<noteq> [] \<Longrightarrow> connection_frames mx carry' (map Some cs') = frames_spec ?r"
      using 1(1) [OF refl _ cs'(2) [symmetric] cs'(1)] 1(3) spec cs'(2) by simp
    ultimately show ?case using spec by simp
  qed
  from this [of cs "[]"] assms show ?thesis by simp
qed

theorem frames_chunk_independent_witness:
  "connection_frames 4 [] (map Some [''a'', ''b'' @ [NL] @ ''c'', [NL] @ ''de'']) = [''ab'', ''c'', ''de'']"
proof -
  have f: "frames_spec (concat [''a'', ''b'' @ [NL] @ ''c'', [NL] @ ''de'']) = [''ab'', ''c'', ''de'']"
    by (simp add: frames_spec.simps NL_def)
  show ?thesis
    using frames_chunk_independent [of "[''a'', ''b'' @ [NL] @ ''c'', [NL] @ ''de'']" 4] f by simp
qed

end
