(* ===== verification/Config.thy ===== *)
theory Config
  imports Types
begin

text \<open>
  The daemon configuration (\<open>config.rs\<close>): the defaults of the TOML file, the declared engine
  profiles and the paths under the runtime directory.  The TOML parser is a parameter that
  returns the typed table, a defaulted key being \<open>None\<close> when it is absent.
\<close>

record profile_def =
  pf_base_url :: string
  pf_model :: string
  pf_api_key_env :: string

record crewd_config =
  cf_runtime_dir :: string
  cf_acl_path :: string
  cf_lease_secs :: nat
  cf_max_attempts :: nat
  cf_backoff_base_secs :: nat
  cf_backoff_cap_secs :: nat
  cf_keys_env_path :: "string option"
  cf_profiles :: "string \<rightharpoonup> profile_def"

record raw_config =
  rw_runtime_dir :: string
  rw_acl_path :: string
  rw_lease_secs :: "nat option"
  rw_max_attempts :: "nat option"
  rw_backoff_base_secs :: "nat option"
  rw_backoff_cap_secs :: "nat option"
  rw_keys_env_path :: "string option"
  rw_profiles :: "(string \<rightharpoonup> profile_def) option"

definition default_lease :: nat where "default_lease = 30"
definition default_attempts :: nat where "default_attempts = 10"
definition default_backoff_base :: nat where "default_backoff_base = 1"
definition default_backoff_cap :: nat where "default_backoff_cap = 60"

definition or_value :: "'a \<Rightarrow> 'a option \<Rightarrow> 'a" where
  "or_value d x = (case x of None \<Rightarrow> d | Some v \<Rightarrow> v)"

datatype config_error = ConfigRead | ConfigParse

definition from_toml :: "(string \<Rightarrow> raw_config option) \<Rightarrow> string \<Rightarrow> config_error + crewd_config" where
  "from_toml toml src =
    (case toml src of
      None \<Rightarrow> Inl ConfigParse
    | Some r \<Rightarrow> Inr
        \<lparr>cf_runtime_dir = rw_runtime_dir r, cf_acl_path = rw_acl_path r,
         cf_lease_secs = or_value default_lease (rw_lease_secs r),
         cf_max_attempts = or_value default_attempts (rw_max_attempts r),
         cf_backoff_base_secs = or_value default_backoff_base (rw_backoff_base_secs r),
         cf_backoff_cap_secs = or_value default_backoff_cap (rw_backoff_cap_secs r),
         cf_keys_env_path = rw_keys_env_path r,
         cf_profiles = or_value (\<lambda>_. None) (rw_profiles r)\<rparr>)"

definition from_toml_file ::
  "(string \<Rightarrow> raw_config option) \<Rightarrow> string option \<Rightarrow> config_error + crewd_config" where
  "from_toml_file toml read_result =
    (case read_result of None \<Rightarrow> Inl ConfigRead | Some src \<Rightarrow> from_toml toml src)"

text \<open>\<open>PathBuf::join\<close> with a relative name.\<close>

definition path_join :: "string \<Rightarrow> string \<Rightarrow> string" where
  "path_join dir name = (if dir = [] \<or> last dir = CHR ''/'' then dir @ name else dir @ ''/'' @ name)"

definition socket_path :: "crewd_config \<Rightarrow> string" where
  "socket_path c = path_join (cf_runtime_dir c) ''crewd.sock''"

definition db_path :: "crewd_config \<Rightarrow> string" where
  "db_path c = path_join (cf_runtime_dir c) ''crewd.db''"

definition audit_path :: "crewd_config \<Rightarrow> string" where
  "audit_path c = path_join (cf_runtime_dir c) ''audit.jsonl''"

definition tokens_dir :: "crewd_config \<Rightarrow> string" where
  "tokens_dir c = path_join (cf_runtime_dir c) ''tokens''"

lemma path_join_inj: "path_join d a = path_join d b \<longleftrightarrow> a = b"
  by (simp add: path_join_def)

lemma runtime_paths_distinct:
  "distinct [socket_path c, db_path c, audit_path c, tokens_dir c]"
  by (simp add: socket_path_def db_path_def audit_path_def tokens_dir_def path_join_inj)

end
