(* ===== verification/Daemon.thy ===== *)
theory Daemon
  imports Spawn Journal Quota Acl Tickets Wire Config
begin

text \<open>
  The shared state of the daemon and the helpers of \<open>handlers.rs\<close>: audit, admission, authorisation
  and the envelope builder.  A handler runs under the locks as one step; the clock and the fresh
  identifiers of a request are in its context.  The error of a rejected audit append supersedes
  the error of the request, as in the code.
\<close>

section \<open>State\<close>

record daemon =
  dm_core :: core
  dm_acl :: acl
  dm_quota :: quota_tracker
  dm_graph :: wait_graph
  dm_wakers :: "(string \<times> bool) list"
  dm_cancels :: "string list"
  dm_revoked :: "string set"
  dm_cfg :: crewd_config

record request_ctx =
  rc_codec :: codec
  rc_now :: nat
  rc_now_ms :: nat
  rc_key :: string
  rc_message_id :: string
  rc_ask_id :: string
  rc_thread_id :: string
  rc_job_id :: string
  rc_cell_uuid :: string
  rc_audit_file :: audit_file
  rc_head_hash :: string

abbreviation dm_store :: "daemon \<Rightarrow> store" where "dm_store d \<equiv> fst (dm_core d)"
abbreviation dm_log :: "daemon \<Rightarrow> audit_log" where "dm_log d \<equiv> snd (dm_core d)"

definition set_store :: "store \<Rightarrow> daemon \<Rightarrow> daemon" where
  "set_store s d = d\<lparr>dm_core := (s, dm_log d)\<rparr>"

definition mk_draft ::
  "string \<Rightarrow> string option \<Rightarrow> string option \<Rightarrow> string option \<Rightarrow> string \<Rightarrow> json option \<Rightarrow> audit_draft" where
  "mk_draft kind message_id sender target outcome detail =
    \<lparr>dr_kind = kind, dr_message_id = message_id, dr_from = sender, dr_to = target,
     dr_outcome = outcome, dr_detail = detail\<rparr>"

definition audit_dm :: "audit_draft \<Rightarrow> (unit, daemon) op" where
  "audit_dm dr d = (case audit_to dr (dm_core d) of (r, c) \<Rightarrow> (r, d\<lparr>dm_core := c\<rparr>))"

definition audit_best_effort :: "audit_draft \<Rightarrow> daemon \<Rightarrow> daemon" where
  "audit_best_effort dr d = snd (audit_dm dr d)"

section \<open>Checks\<close>

definition body_sha256 :: "request_ctx \<Rightarrow> string \<Rightarrow> string" where
  "body_sha256 C body = hex_sha256 (rc_codec C) body"

definition check_body :: "string \<Rightarrow> unit res" where
  "check_body body = (if MAX_BODY_BYTES < length body then Inl BodyTooLarge else Inr ())"

definition check_idem :: "string \<Rightarrow> unit res" where
  "check_idem key = (if MAX_IDEMPOTENCY_KEY_BYTES < length key then Inl BodyTooLarge else Inr ())"

definition FORBIDDEN :: "string list" where
  "FORBIDDEN =
    [''from_cell'', ''message_id'', ''ask_id'', ''seq'', ''kind'', ''taint'', ''created_at'',
     ''expires_at'', ''spec_version'', ''reply_to'', ''principal_capabilities'']"

definition reject_client_identity_keys :: "string list \<Rightarrow> json \<Rightarrow> unit res" where
  "reject_client_identity_keys extra_allowed params =
    (case params of
      JObj kvs \<Rightarrow> (if list_ex (\<lambda>(k, _). k \<in> set FORBIDDEN \<and> k \<notin> set extra_allowed) kvs
                  then Inl Internal else Inr ())
    | _ \<Rightarrow> Inr ())"

definition check_msg_type :: "acl \<Rightarrow> string \<Rightarrow> msg_type \<Rightarrow> unit res" where
  "check_msg_type a sender m =
    (case m of
      MAdminRequest \<Rightarrow> acl_check a sender CAdminRegistry
    | MAsk \<Rightarrow> acl_check a sender CAsk
    | MReply \<Rightarrow> acl_check a sender CReply
    | _ \<Rightarrow> Inr ())"

definition check_attach :: "acl \<Rightarrow> string \<Rightarrow> string list \<Rightarrow> unit res" where
  "check_attach a sender file_refs = (if file_refs = [] then Inr () else acl_check a sender CAttachFiles)"

section \<open>Envelopes\<close>

definition build_envelope ::
  "request_ctx \<Rightarrow> kind \<Rightarrow> msg_type \<Rightarrow> string \<Rightarrow> string option \<Rightarrow> string \<Rightarrow> string list \<Rightarrow> string option \<Rightarrow>
   string option \<Rightarrow> string \<Rightarrow> nat \<Rightarrow> nat \<Rightarrow> envelope" where
  "build_envelope C k mt sender target body file_refs ask_id reply_to key ttl seq =
    \<lparr>e_spec_version = SPEC_VERSION, e_message_id = rc_message_id C, e_ask_id = ask_id,
     e_from_cell = sender, e_to_cell = target, e_kind = k, e_msg_type = mt,
     e_principal_capabilities = [], e_created_at = now_rfc3339 (rc_now C),
     e_expires_at = rfc3339_after (rc_now C) ttl, e_seq = seq, e_idempotency_key = key,
     e_body = body, e_file_refs = file_refs, e_taint = TAINT, e_reply_to = reply_to\<rparr>"

definition build_envelope_with_caps ::
  "request_ctx \<Rightarrow> acl \<Rightarrow> kind \<Rightarrow> msg_type \<Rightarrow> string \<Rightarrow> string option \<Rightarrow> string \<Rightarrow> string list \<Rightarrow> string option \<Rightarrow>
   string option \<Rightarrow> string \<Rightarrow> nat \<Rightarrow> nat \<Rightarrow> envelope" where
  "build_envelope_with_caps C a k mt sender target body file_refs ask_id reply_to key ttl seq =
    (build_envelope C k mt sender target body file_refs ask_id reply_to key ttl seq)
      \<lparr>e_principal_capabilities := capabilities_of a sender\<rparr>"

definition json_strs :: "string list \<Rightarrow> json" where
  "json_strs ss = JArr (map JStr ss)"

text \<open>\<open>serde_json::to_value\<close> of an envelope.\<close>

definition envelope_json :: "envelope \<Rightarrow> json" where
  "envelope_json e = JObj
    [(''spec_version'', JStr (e_spec_version e)), (''message_id'', JStr (e_message_id e)),
     (''ask_id'', json_opt (e_ask_id e)), (''from_cell'', JStr (e_from_cell e)),
     (''to_cell'', json_opt (e_to_cell e)), (''kind'', JStr (kind_as_str (e_kind e))),
     (''msg_type'', JStr (msg_type_as_str (e_msg_type e))),
     (''principal_capabilities'', json_strs (e_principal_capabilities e)),
     (''created_at'', JStr (e_created_at e)), (''expires_at'', JStr (e_expires_at e)),
     (''seq'', JInt (int (e_seq e))), (''idempotency_key'', JStr (e_idempotency_key e)),
     (''body'', JStr (e_body e)), (''file_refs'', json_strs (e_file_refs e)),
     (''taint'', JStr (e_taint e)), (''reply_to'', json_opt (e_reply_to e))]"

fun ask_state_as_str :: "ask_state \<Rightarrow> string" where
  "ask_state_as_str APending = ''pending''"
| "ask_state_as_str AAnswered = ''answered''"
| "ask_state_as_str AExpired = ''expired''"

definition ask_json :: "ask_row \<Rightarrow> json" where
  "ask_json a = JObj
    [(''ask_id'', JStr (a_ask_id a)), (''message_id'', JStr (a_message_id a)),
     (''from_cell'', JStr (a_from_cell a)), (''to_cell'', JStr (a_to_cell a)),
     (''expires_at'', JStr (a_expires_at a)), (''state'', JStr (ask_state_as_str (a_state a))),
     (''reply_message_id'', json_opt (a_reply_message_id a))]"

section \<open>Authorisation and admission\<close>

definition authorize_outbound ::
  "string \<Rightarrow> string \<Rightarrow> capability \<Rightarrow> reach_via \<Rightarrow> (unit, daemon) op" where
  "authorize_outbound sender target cap via d =
    require (acl_check (dm_acl d) sender cap) d (\<lambda>_.
      if \<not> is_registered (dm_acl d) target then (Inl UnknownCell, d)
      else case check_reach (dm_acl d) sender target via of
        Inl e \<Rightarrow> bind_res (audit_dm (mk_draft ''protected_access_denied'' None (Some sender) (Some target)
                  ''denied'' None) d) (\<lambda>_ d. (Inl e, d))
      | Inr _ \<Rightarrow> (Inr (), d))"

definition quota_exceeded :: "string \<Rightarrow> string option \<Rightarrow> bus_error \<Rightarrow> ('a, daemon) op" where
  "quota_exceeded sender target e d =
    bind_res (audit_dm (mk_draft ''quota_exceeded'' None (Some sender) target ''rejected'' None) d)
      (\<lambda>_ d. (Inl e, d))"

text \<open>The two rate windows, first the sender's, then that of the capability.\<close>

definition admit_rate :: "nat \<Rightarrow> string \<Rightarrow> string option \<Rightarrow> capability \<Rightarrow> nat \<Rightarrow> (unit, daemon) op" where
  "admit_rate now_ms sender target cap units d =
    (case note_and_check_sender sender now_ms units (dm_quota d) of
      (Inl e, q) \<Rightarrow> quota_exceeded sender target e (d\<lparr>dm_quota := q\<rparr>)
    | (Inr _, q) \<Rightarrow>
        (case note_and_check_capability sender cap now_ms q of
          (Inl e, q') \<Rightarrow> quota_exceeded sender target e (d\<lparr>dm_quota := q'\<rparr>)
        | (Inr _, q') \<Rightarrow> (Inr (), d\<lparr>dm_quota := q'\<rparr>)))"

definition admit_outbound :: "nat \<Rightarrow> string \<Rightarrow> string \<Rightarrow> capability \<Rightarrow> nat \<Rightarrow> (unit, daemon) op" where
  "admit_outbound now_ms sender target cap units d =
    (case check_queue_depth (dm_quota d) (pending_deliveries_count target (dm_store d)) of
      Inl e \<Rightarrow> quota_exceeded sender (Some target) e d
    | Inr _ \<Rightarrow> admit_rate now_ms sender (Some target) cap units d)"

definition check_thread_owner :: "acl \<Rightarrow> string \<Rightarrow> cell_thread \<Rightarrow> unit res" where
  "check_thread_owner a sender t =
    (if t_created_by_principal t = sender then Inr () else acl_check a sender CAdminRegistry)"

section \<open>Frames\<close>

text \<open>What an operation leaves alone: everything but the audit log, and acknowledged events stay.\<close>

definition audit_grows :: "daemon \<Rightarrow> daemon \<Rightarrow> bool" where
  "audit_grows d d' \<longleftrightarrow> (\<exists>es. al_events (dm_log d') = al_events (dm_log d) @ es)"

definition bus_quiet :: "daemon \<Rightarrow> daemon \<Rightarrow> bool" where
  "bus_quiet d d' \<longleftrightarrow> dm_store d' = dm_store d \<and> dm_acl d' = dm_acl d \<and> dm_cancels d' = dm_cancels d \<and>
    dm_graph d' = dm_graph d \<and> dm_wakers d' = dm_wakers d \<and> audit_grows d d'"

named_theorems quiet \<open>operations that leave the tables alone\<close>

lemma audit_grows_refl [simp]: "audit_grows d d"
  by (simp add: audit_grows_def)

lemma audit_grows_trans: "audit_grows a b \<Longrightarrow> audit_grows b c \<Longrightarrow> audit_grows a c"
  by (auto simp: audit_grows_def)

lemma bus_quiet_refl [simp]: "bus_quiet d d"
  by (simp add: bus_quiet_def)

lemma bus_quiet_trans: "bus_quiet a b \<Longrightarrow> bus_quiet b c \<Longrightarrow> bus_quiet a c"
  by (auto simp: bus_quiet_def intro: audit_grows_trans)

lemma set_store_sel [simp]:
  "dm_core (set_store s d) = (s, dm_log d)" "dm_acl (set_store s d) = dm_acl d"
  "dm_graph (set_store s d) = dm_graph d" "dm_wakers (set_store s d) = dm_wakers d"
  "dm_cancels (set_store s d) = dm_cancels d" "dm_quota (set_store s d) = dm_quota d"
  "dm_revoked (set_store s d) = dm_revoked d" "dm_cfg (set_store s d) = dm_cfg d"
  by (simp_all add: set_store_def)

lemma audit_dm_cases:
  assumes "audit_dm dr d = (r, d')"
  obtains (ok) l where "r = Inr ()" "d' = d\<lparr>dm_core := (dm_store d, l)\<rparr>" "dr_kind dr \<in> set AUDIT_KINDS"
      "al_events l = al_events (dm_log d) @ [dr]"
  | (failed) l where "r = Inl Internal" "d' = d\<lparr>dm_core := (dm_store d, l)\<rparr>"
      "al_events l = al_events (dm_log d)"
proof -
  obtain s l where c: "dm_core d = (s, l)" by (cases "dm_core d")
  obtain r' c' where a: "audit_to dr (s, l) = (r', c')" by (metis prod.exhaust)
  from assms c a have r: "r = r'" and d': "d' = d\<lparr>dm_core := c'\<rparr>" by (auto simp: audit_dm_def)
  from audit_to_cases [OF a] show ?thesis
  proof (elim disjE conjE)
    assume "r' = Inr ()" "c' = (s, snd c')" "al_events (snd c') = al_events l @ [dr]"
      "dr_kind dr \<in> set AUDIT_KINDS"
    then show ?thesis using ok [of "snd c'"] c r d' by simp
  next
    assume "r' = Inl Internal" "c' = (s, snd c')" "al_events (snd c') = al_events l"
    then show ?thesis using failed [of "snd c'"] c r d' by simp
  qed
qed

lemma audit_dm_quiet [quiet]: "bus_quiet d (snd (audit_dm dr d))"
proof -
  obtain r d' where a: "audit_dm dr d = (r, d')" by (metis prod.exhaust)
  then show ?thesis
    by (cases rule: audit_dm_cases) (simp_all add: a bus_quiet_def audit_grows_def)
qed

lemma audit_dm_frame:
  assumes "audit_dm dr d = (r, d')"
  shows "dm_store d' = dm_store d \<and> dm_acl d' = dm_acl d \<and> dm_quota d' = dm_quota d \<and>
    dm_graph d' = dm_graph d \<and> dm_wakers d' = dm_wakers d \<and> dm_cancels d' = dm_cancels d \<and>
    dm_revoked d' = dm_revoked d \<and> dm_cfg d' = dm_cfg d"
  using assms by (cases rule: audit_dm_cases) simp_all

lemma quota_exceeded_quiet [quiet]: "bus_quiet d (snd (quota_exceeded sender target e d))"
proof -
  obtain r d' where a: "audit_dm (mk_draft ''quota_exceeded'' None (Some sender) target ''rejected'' None) d = (r, d')"
    by (metis prod.exhaust)
  with audit_dm_quiet [of d "mk_draft ''quota_exceeded'' None (Some sender) target ''rejected'' None"]
  show ?thesis by (cases r) (simp_all add: quota_exceeded_def a)
qed

lemma quota_exceeded_Inl: "\<exists>e'. fst (quota_exceeded sender target e d) = Inl e'"
proof -
  obtain r d' where a: "audit_dm (mk_draft ''quota_exceeded'' None (Some sender) target ''rejected'' None) d = (r, d')"
    by (metis prod.exhaust)
  then show ?thesis by (cases r) (simp_all add: quota_exceeded_def)
qed

lemma bus_quiet_quota: "bus_quiet (d\<lparr>dm_quota := q\<rparr>) d' \<Longrightarrow> bus_quiet d d'"
  by (simp add: bus_quiet_def audit_grows_def)

lemma bus_quiet_set_quota: "bus_quiet d (d\<lparr>dm_quota := q\<rparr>)"
  by (simp add: bus_quiet_def audit_grows_def)

lemma admit_rate_quiet [quiet]: "bus_quiet d (snd (admit_rate now_ms sender target cap units d))"
  unfolding admit_rate_def
  by (auto simp: bus_quiet_set_quota intro!: bus_quiet_quota [OF quota_exceeded_quiet]
      split: prod.split sum.split)

lemma admit_outbound_quiet [quiet]: "bus_quiet d (snd (admit_outbound now_ms sender target cap units d))"
  by (simp add: admit_outbound_def admit_rate_quiet quota_exceeded_quiet split: sum.splits)

lemma authorize_outbound_quiet [quiet]: "bus_quiet d (snd (authorize_outbound sender target cap via d))"
proof -
  have "bus_quiet d (snd (bind_res (audit_dm dr d) (\<lambda>_ d. (Inl e, d))))" for dr e
    using audit_dm_quiet [of d dr] by (cases "audit_dm dr d"; cases "fst (audit_dm dr d)") auto
  then show ?thesis by (auto simp: authorize_outbound_def require_def split: sum.splits)
qed

lemma authorize_outbound_Inr:
  "authorize_outbound sender target cap via d = (Inr u, d') \<longleftrightarrow>
   d' = d \<and> acl_check (dm_acl d) sender cap = Inr () \<and> is_registered (dm_acl d) target \<and>
   check_reach (dm_acl d) sender target via = Inr ()"
  by (auto simp: authorize_outbound_def require_def bind_res_def split: sum.splits prod.splits if_splits)

end
