(* ===== verification/Handlers.thy ===== *)
theory Handlers
  imports Daemon
begin

text \<open>
  The tool handlers of \<open>handlers.rs\<close> and their dispatch.  A handler takes the context of the
  request, the authenticated cell and the parameters.  \<open>cell_await\<close> suspends in the middle, so it
  is three steps: up to the active edge, the registration of the waker, and the resumption.
\<close>

type_synonym handler = "request_ctx \<Rightarrow> string \<Rightarrow> json \<Rightarrow> (json, daemon) op"

section \<open>Messages\<close>

definition enqueued_json :: "string \<Rightarrow> json" where
  "enqueued_json mid = JObj [(''message_id'', JStr mid), (''status'', JStr ''enqueued'')]"

text \<open>The block of \<open>handle_send\<close> that holds the store lock.\<close>

definition persist_send :: "request_ctx \<Rightarrow> string \<Rightarrow> send_params \<Rightarrow> msg_type \<Rightarrow> string \<Rightarrow> (json, daemon) op" where
  "persist_send C sender p mt key d =
    (let target = snd_to_cell p; body_h = body_sha256 C (snd_body p) in
     case dedupe_lookup sender key (dm_store d) of
       Some hit \<Rightarrow>
        (if dd_body_sha256 hit = body_h then (Inr (enqueued_json (dd_message_id hit)), d)
         else (Inl Dup, d))
     | None \<Rightarrow>
        (let (seq, s1) = next_seq sender target (dm_store d);
             env = build_envelope_with_caps C (dm_acl d) Send mt sender (Some target) (snd_body p)
                     (snd_file_refs p) None None key (clamp_ttl Send (snd_ttl_seconds p)) seq;
             mid = e_message_id env
         in bind_res (audit_dm (mk_draft ''enqueued'' (Some mid) (Some sender) (Some target) ''ok'' None)
                       (set_store (insert_envelope env s1) d))
              (\<lambda>_ d. (Inr (enqueued_json mid),
                 set_store (dedupe_insert (rc_now C) sender key mid None body_h
                   (insert_delivery mid target (dm_store d))) d))))"

definition handle_send :: handler where
  "handle_send C sender params d =
    require (reject_client_identity_keys [] params) d (\<lambda>_.
    require (parse_send params) d (\<lambda>p.
    let mt = or_value MTask (snd_msg_type p) in
    require (check_msg_type (dm_acl d) sender mt) d (\<lambda>_.
    bind_res (authorize_outbound sender (snd_to_cell p) CSend ViaSend d) (\<lambda>_ d.
    require (check_idem (or_value [] (snd_idempotency_key p))) d (\<lambda>_.
    require (check_body (snd_body p)) d (\<lambda>_.
    require (check_attach (dm_acl d) sender (snd_file_refs p)) d (\<lambda>_.
    bind_res (admit_outbound (rc_now_ms C) sender (snd_to_cell p) CSend 1 d) (\<lambda>_ d.
      persist_send C sender p mt (or_value (rc_key C) (snd_idempotency_key p)) d))))))))"

definition pending_json :: "string option \<Rightarrow> string \<Rightarrow> json" where
  "pending_json ask_id mid =
    JObj [(''ask_id'', json_opt ask_id), (''message_id'', JStr mid), (''status'', JStr ''pending'')]"

definition persist_ask :: "request_ctx \<Rightarrow> string \<Rightarrow> ask_params \<Rightarrow> string \<Rightarrow> (json, daemon) op" where
  "persist_ask C sender p key d =
    (let target = ask_to_cell p; body_h = body_sha256 C (ask_body p); ask_id = rc_ask_id C;
         ttl = clamp_ttl Ask (ask_ttl_seconds p) in
     case dedupe_lookup sender key (dm_store d) of
       Some hit \<Rightarrow>
        (if dd_body_sha256 hit = body_h
         then (Inr (pending_json (dd_ask_id hit) (dd_message_id hit)), d) else (Inl Dup, d))
     | None \<Rightarrow>
        (let (seq, s1) = next_seq sender target (dm_store d);
             env = build_envelope_with_caps C (dm_acl d) Ask MAsk sender (Some target) (ask_body p)
                     (ask_file_refs p) (Some ask_id) None key ttl seq;
             mid = e_message_id env
         in bind_res (audit_dm (mk_draft ''enqueued'' (Some mid) (Some sender) (Some target) ''ok'' None)
                       (set_store (insert_envelope env s1) d)) (\<lambda>_ d.
            bind_res (audit_dm (mk_draft ''ask_opened'' (Some mid) (Some sender) (Some target) ''ok''
                       (Some (JObj [(''ask_id'', JStr ask_id)]))) d)
              (\<lambda>_ d. (Inr (pending_json (Some ask_id) mid),
                 set_store (dedupe_insert (rc_now C) sender key mid (Some ask_id) body_h
                   (insert_ask ask_id mid sender target (rfc3339_after (rc_now C) ttl)
                     (insert_delivery mid target (dm_store d)))) d)))))"

definition handle_ask :: handler where
  "handle_ask C sender params d =
    require (reject_client_identity_keys [] params) d (\<lambda>_.
    require (parse_ask params) d (\<lambda>p.
    bind_res (authorize_outbound sender (ask_to_cell p) CAsk ViaAsk d) (\<lambda>_ d.
    require (check_idem (or_value [] (ask_idempotency_key p))) d (\<lambda>_.
    require (check_body (ask_body p)) d (\<lambda>_.
    require (check_attach (dm_acl d) sender (ask_file_refs p)) d (\<lambda>_.
    bind_res (admit_outbound (rc_now_ms C) sender (ask_to_cell p) CAsk 1 d) (\<lambda>_ d.
      case check_pending_ask_cap (dm_quota d) (pending_asks_count sender (dm_store d)) of
        Inl e \<Rightarrow> quota_exceeded sender (Some (ask_to_cell p)) e d
      | Inr _ \<Rightarrow> persist_ask C sender p (or_value (rc_key C) (ask_idempotency_key p)) d)))))))"

section \<open>Awaiting\<close>

definition answered :: "store \<Rightarrow> ask_row \<Rightarrow> json" where
  "answered s ask =
    (case (case a_reply_message_id ask of None \<Rightarrow> None | Some mid \<Rightarrow> get_envelope mid s) of
      Some env \<Rightarrow> JObj [(''status'', JStr ''answered''), (''reply'', envelope_json env)]
    | None \<Rightarrow> JObj [(''status'', JStr ''answered''),
        (''reply'', JObj [(''message_id'', json_opt (a_reply_message_id ask)), (''ask_id'', JStr (a_ask_id ask))])])"

definition expired_json :: json where
  "expired_json = JObj [(''status'', JStr ''expired''), (''reply'', JNull)]"

definition still_pending_json :: json where
  "still_pending_json = JObj [(''status'', JStr ''pending''), (''reply'', JNull)]"

datatype await_start = AwaitDone json | AwaitWait ask_row await_guard

text \<open>Up to the activation of the wait-for edge.\<close>

definition await_begin :: "string \<Rightarrow> json \<Rightarrow> (await_start, daemon) op" where
  "await_begin sender params d =
    require (reject_client_identity_keys [''ask_id''] params) d (\<lambda>_.
    require (parse_await params) d (\<lambda>p.
    case get_ask (aw_ask_id p) (dm_store d) of
      None \<Rightarrow> (Inl AskNotFound, d)
    | Some ask \<Rightarrow>
        if a_from_cell ask \<noteq> sender then (Inl AskNotFound, d)
        else if a_state ask = AAnswered then (Inr (AwaitDone (answered (dm_store d) ask)), d)
        else if a_state ask = AExpired then (Inr (AwaitDone expired_json), d)
        else case try_activate_await (dm_graph d) sender (a_to_cell ask) of
          (Inl e, g) \<Rightarrow>
            bind_res (audit_dm (mk_draft ''deadlock_prevented'' None (Some sender) (Some (a_to_cell ask))
              ''rejected'' None) (d\<lparr>dm_graph := g\<rparr>)) (\<lambda>_ d. (Inl e, d))
        | (Inr guard, g) \<Rightarrow> (Inr (AwaitWait ask guard), d\<lparr>dm_graph := g\<rparr>)))"

text \<open>The waker entry of the ask; the flag is the stored permit of its \<open>Notify\<close>.\<close>

definition await_register :: "string \<Rightarrow> daemon \<Rightarrow> daemon" where
  "await_register ask_id d =
    (if map_of (dm_wakers d) ask_id = None then d\<lparr>dm_wakers := (ask_id, False) # dm_wakers d\<rparr> else d)"

definition notify :: "string \<Rightarrow> daemon \<Rightarrow> daemon" where
  "notify ask_id d =
    d\<lparr>dm_wakers := map (\<lambda>(i, b). if i = ask_id then (i, True) else (i, b)) (dm_wakers d)\<rparr>"

definition take_permit :: "string \<Rightarrow> daemon \<Rightarrow> daemon" where
  "take_permit ask_id d =
    d\<lparr>dm_wakers := map (\<lambda>(i, b). if i = ask_id then (i, False) else (i, b)) (dm_wakers d)\<rparr>"

definition await_timeout_ms :: "await_params \<Rightarrow> nat" where
  "await_timeout_ms p = min (or_value 120000 (aw_timeout_ms p)) 120000"

text \<open>The resumption, woken by the permit or by the timeout; the edge is released in both cases.\<close>

definition await_finish :: "bool \<Rightarrow> ask_row \<Rightarrow> await_guard \<Rightarrow> (json, daemon) op" where
  "await_finish woken ask guard d =
    (let ask2 = or_value ask (get_ask (a_ask_id ask) (dm_store d));
         out = (if \<not> woken then still_pending_json
                else case a_state ask2 of
                  AAnswered \<Rightarrow> answered (dm_store d) ask2
                | AExpired \<Rightarrow> expired_json
                | APending \<Rightarrow> still_pending_json);
         d = (if woken then take_permit (a_ask_id ask) d else d)
     in (Inr out, d\<lparr>dm_graph := release (dm_graph d) guard\<rparr>))"

text \<open>A client that disconnects while it waits: the guard is dropped with the future.\<close>

definition await_cancelled :: "await_guard \<Rightarrow> daemon \<Rightarrow> daemon" where
  "await_cancelled guard d = d\<lparr>dm_graph := release (dm_graph d) guard\<rparr>"

section \<open>Replies, inbox and list\<close>

datatype reply_section = Stored json | Repeated json | Differs

text \<open>The block that holds the store lock; the waker is notified, and a conflict audited, after it.\<close>

definition store_reply ::
  "request_ctx \<Rightarrow> string \<Rightarrow> reply_params \<Rightarrow> ask_row \<Rightarrow> string \<Rightarrow> (reply_section, daemon) op" where
  "store_reply C sender p ask key d =
    (let target = a_from_cell ask;
         (seq, s1) = next_seq sender target (dm_store d);
         env = build_envelope_with_caps C (dm_acl d) Reply MReply sender (Some target) (rp_body p)
                 (rp_file_refs p) (Some (rp_ask_id p)) (Some (a_message_id ask)) key (clamp_ttl Reply None) seq;
         mid = e_message_id env
     in case reply_precheck (body_sha256 C) (rp_ask_id p) env s1 of
          Recorded \<Rightarrow>
            bind_res (audit_dm (mk_draft ''enqueued'' (Some mid) (Some sender) (Some target) ''ok'' None)
                (set_store (insert_envelope env s1) d))
              (\<lambda>_ d. (Inr (Stored (JObj [(''message_id'', JStr mid), (''status'', JStr ''recorded'')])),
                 set_store (insert_delivery mid target
                   (commit_reply (body_sha256 C) (rp_ask_id p) env (dm_store d))) d))
        | DuplicateIdentical m \<Rightarrow>
            (Inr (Repeated (JObj [(''message_id'', JStr m), (''status'', JStr ''duplicate'')])), set_store s1 d)
        | Conflict \<Rightarrow> (Inr Differs, set_store s1 d))"

definition persist_reply :: "request_ctx \<Rightarrow> string \<Rightarrow> reply_params \<Rightarrow> ask_row \<Rightarrow> string \<Rightarrow> (json, daemon) op" where
  "persist_reply C sender p ask key d =
    bind_res (store_reply C sender p ask key d) (\<lambda>out d.
      case out of
        Stored v \<Rightarrow> (Inr v, notify (rp_ask_id p) d)
      | Repeated v \<Rightarrow> (Inr v, d)
      | Differs \<Rightarrow>
          bind_res (audit_dm (mk_draft ''duplicate_reply'' None (Some sender) (Some (a_from_cell ask)) ''dropped'' None) d)
            (\<lambda>_ d. (Inl ReplyExists, d)))"

definition handle_reply :: handler where
  "handle_reply C sender params d =
    require (reject_client_identity_keys [''ask_id''] params) d (\<lambda>_.
    require (parse_reply params) d (\<lambda>p.
    require (check_idem (or_value [] (rp_idempotency_key p))) d (\<lambda>_.
    require (check_body (rp_body p)) d (\<lambda>_.
    require (check_attach (dm_acl d) sender (rp_file_refs p)) d (\<lambda>_.
    require (acl_check (dm_acl d) sender CReply) d (\<lambda>_.
    case get_ask (rp_ask_id p) (dm_store d) of
      None \<Rightarrow> (Inl AskNotFound, d)
    | Some ask \<Rightarrow>
        if a_to_cell ask \<noteq> sender then (Inl AskNotFound, d)
        else persist_reply C sender p ask (or_value (rc_key C) (rp_idempotency_key p)) d))))))"

definition handle_inbox :: handler where
  "handle_inbox C sender params d =
    require (reject_client_identity_keys [] params) d (\<lambda>_.
    require (parse_inbox params) d (\<lambda>p.
    require (acl_check (dm_acl d) sender CReadInbox) d (\<lambda>_.
    case inbox sender (min (or_value 50 (ib_limit p)) 200) (dm_store d) of
      ((msgs, has_more), s) \<Rightarrow>
        (Inr (JObj [(''messages'', JArr (map envelope_json msgs)), (''has_more'', JBool has_more)]),
         set_store s d))))"

definition fabric_json :: "store \<Rightarrow> cell_def \<Rightarrow> json" where
  "fabric_json s c = JObj
    [(''cell'', JStr (c_name c)),
     (''active_thread'', json_opt (map_option t_crewd_thread_id (thread_active_for_cell (c_name c) s))),
     (''queue_depth'', JInt (int (job_active_count_for_cell (c_name c) s)))]"

definition handle_list :: handler where
  "handle_list C sender params d =
    require (reject_client_identity_keys [] params) d (\<lambda>_.
    require (acl_check (dm_acl d) sender CListCells) d (\<lambda>_.
      (Inr (JObj
        [(''cells'', JArr (map (\<lambda>(n, e). JObj [(''name'', JStr n), (''engine'', JStr e)]) (acl_cells (dm_acl d)))),
         (''fabric'', JArr (map (fabric_json (dm_store d)) (cell_list_defs (dm_store d))))]), d)))"

section \<open>Cells, threads and jobs\<close>

text \<open>The outcome of an operation on the store and the audit log, inside a handler.\<close>

definition on_core :: "('a, core) op \<Rightarrow> ('a, daemon) op" where
  "on_core f d = (case f (dm_core d) of (r, c) \<Rightarrow> (r, d\<lparr>dm_core := c\<rparr>))"

definition on_store :: "('a, store) op \<Rightarrow> ('a, daemon) op" where
  "on_store f d = (case f (dm_store d) of (r, s) \<Rightarrow> (r, set_store s d))"

definition requested_engine :: "string option \<Rightarrow> engine_kind option res" where
  "requested_engine e =
    (case e of None \<Rightarrow> Inr None
     | Some s \<Rightarrow> (case engine_kind_from_db_str s of None \<Rightarrow> Inl Internal | Some k \<Rightarrow> Inr (Some k)))"

definition reserved_name :: "string option \<Rightarrow> bool" where
  "reserved_name cell = (case cell of Some c \<Rightarrow> c \<noteq> [] \<and> hd c = CHR ''~'' | None \<Rightarrow> False)"

fun launch_of :: "string \<Rightarrow> spawn_target \<Rightarrow> string \<times> engine_kind \<times> string option \<times> string option \<times> string" where
  "launch_of uuid (Named def) = (c_name def, c_engine def, c_model def, c_profile def, c_cwd def)"
| "launch_of uuid (Ephemeral engine model profile cwd) = (ephemeral_cell_name uuid, engine, model, profile, cwd)"

definition spawned_json :: "spawn_outcome \<Rightarrow> json" where
  "spawned_json out =
    (case out of
      Created t \<Rightarrow> JObj [(''crewd_thread_id'', JStr (t_crewd_thread_id t)), (''replayed'', JBool False)]
    | Replayed t \<Rightarrow> JObj [(''crewd_thread_id'', JStr (t_crewd_thread_id t)), (''replayed'', JBool True)])"

definition handle_spawn :: handler where
  "handle_spawn C sender params d =
    require (reject_client_identity_keys [] params) d (\<lambda>_.
    require (parse_cell_spawn params) d (\<lambda>p.
    require (acl_check (dm_acl d) sender CSpawn) d (\<lambda>_.
    require (check_idem (cs_idempotency_key p)) d (\<lambda>_.
    if reserved_name (cs_cell p) then (Inl PolicyDenied, d)
    else
    let named = (case cs_cell p of Some c \<Rightarrow> cell_get c (dm_store d) | None \<Rightarrow> None) in
    require (requested_engine (cs_engine p)) d (\<lambda>engine.
    require (resolve_spawn_target named engine (cs_model p) (cs_profile p) (cs_cwd p)) d (\<lambda>target.
    let (cell, engine, model, profile, cwd) = launch_of (rc_cell_uuid C) target;
        req = \<lparr>sr_caller = sender, sr_cell_name = cell, sr_idempotency_key = cs_idempotency_key p,
               sr_payload = cs_task p\<rparr>
    in bind_res (on_core (spawn_idempotent (rc_now C) (rc_thread_id C) (rc_job_id C) req engine model
                   profile cwd (cs_worktree p) QUEUE_DEPTH_DEFAULT) d)
         (\<lambda>out d. (Inr (spawned_json out), d))))))))"

definition thread_terminal :: "cell_thread \<Rightarrow> bool" where
  "thread_terminal t \<longleftrightarrow> t_state t \<in> {TDone, TInterrupted, TTimeout, TFailedUnknown}"

definition handle_send_task :: handler where
  "handle_send_task C sender params d =
    require (reject_client_identity_keys [] params) d (\<lambda>_.
    require (parse_cell_send_task params) d (\<lambda>p.
    require (acl_check (dm_acl d) sender CSpawn) d (\<lambda>_.
    case thread_get (st_crewd_thread_id p) (dm_store d) of
      None \<Rightarrow> (Inl UnknownCell, d)
    | Some t \<Rightarrow>
        if thread_terminal t \<and> t_engine_kind t = Pi then (Inl ThreadNotResumable, d)
        else bind_res (on_store (job_enqueue (rc_now C) (rc_job_id C) (st_crewd_thread_id p) (t_cell_name t)
                 (st_message p) QUEUE_DEPTH_DEFAULT) d)
               (\<lambda>job d. (Inr (JObj [(''job_id'', JStr (j_job_id job))]), d)))))"

definition thread_status_value :: "store \<Rightarrow> cell_thread \<Rightarrow> json" where
  "thread_status_value s t = JObj
    [(''crewd_thread_id'', JStr (t_crewd_thread_id t)), (''cell'', JStr (t_cell_name t)),
     (''state'', JStr (thread_state_as_str (t_state t))),
     (''engine_proc_state'', JStr (if t_state t \<in> {TSpawning, TRunning} then ''up'' else ''down'')),
     (''jobs'', JInt (int (length (jobs_for_thread (t_crewd_thread_id t) s)))),
     (''engine_thread_id'', json_opt (t_engine_thread_id t)),
     (''engine_turn_id'', json_opt (t_engine_turn_id t)),
     (''engine_session_id'', json_opt (t_engine_session_id t))]"

definition own_active_thread :: "string \<Rightarrow> store \<Rightarrow> cell_def \<Rightarrow> json list" where
  "own_active_thread sender s c =
    (case thread_active_for_cell (c_name c) s of
      Some t \<Rightarrow> if t_created_by_principal t = sender then [thread_status_value s t] else []
    | None \<Rightarrow> [])"

definition handle_status :: handler where
  "handle_status C sender params d =
    require (reject_client_identity_keys [] params) d (\<lambda>_.
    require (parse_cell_status params) d (\<lambda>p.
    case p of
      Some tid \<Rightarrow>
        (case thread_get tid (dm_store d) of
          None \<Rightarrow> (Inl UnknownCell, d)
        | Some t \<Rightarrow> require (check_thread_owner (dm_acl d) sender t) d (\<lambda>_.
            (Inr (JObj [(''threads'', JArr [thread_status_value (dm_store d) t])]), d)))
    | None \<Rightarrow>
        (Inr (JObj [(''threads'', JArr (concat (map (own_active_thread sender (dm_store d))
            (cell_list_defs (dm_store d)))))]), d)))"

fun exit_status :: "thread_state \<Rightarrow> string" where
  "exit_status TIdle = ''done''"
| "exit_status TDone = ''done''"
| "exit_status TInterrupted = ''interrupted''"
| "exit_status TTimeout = ''timeout''"
| "exit_status TFailedUnknown = ''failed_unknown''"
| "exit_status TSpawning = ''running''"
| "exit_status TRunning = ''running''"

definition result_of :: "cell_thread \<Rightarrow> string list \<Rightarrow> cell_result" where
  "result_of t lines =
    (cell_result_from_thread t)\<lparr>cr_final_answer := journal_final_answer lines, cr_event_tail := lines,
       cr_artifact_refs := [], cr_exit_status := exit_status (t_state t)\<rparr>"

definition cell_result_json :: "cell_result \<Rightarrow> json" where
  "cell_result_json r = JObj
    [(''final_answer'', json_opt (cr_final_answer r)), (''event_tail'', json_strs (cr_event_tail r)),
     (''artifact_refs'', json_strs (cr_artifact_refs r)), (''exit_status'', JStr (cr_exit_status r)),
     (''crewd_thread_id'', JStr (cr_crewd_thread_id r)),
     (''engine_process_id'', case cr_engine_process_id r of None \<Rightarrow> JNull | Some n \<Rightarrow> JInt n),
     (''engine_thread_id'', json_opt (cr_engine_thread_id r)),
     (''engine_turn_id'', json_opt (cr_engine_turn_id r)),
     (''engine_session_id'', json_opt (cr_engine_session_id r))]"

definition handle_result :: handler where
  "handle_result C sender params d =
    require (reject_client_identity_keys [] params) d (\<lambda>_.
    require (parse_cell_result params) d (\<lambda>tid.
    case thread_get tid (dm_store d) of
      None \<Rightarrow> (Inl UnknownCell, d)
    | Some t \<Rightarrow> require (check_thread_owner (dm_acl d) sender t) d (\<lambda>_.
        (Inr (cell_result_json (result_of t (journal_tail tid 50 (dm_store d)))), d))))"

text \<open>The loop over the jobs of the thread; an update of a missing row would end it.\<close>

fun cancel_jobs :: "cell_job list \<Rightarrow> nat \<Rightarrow> (nat, store) op" where
  "cancel_jobs [] n s = (Inr n, s)"
| "cancel_jobs (j # js) n s =
    (if job_active j then bind_res (job_cancel (j_job_id j) s) (\<lambda>_ s. cancel_jobs js (n + 1) s)
     else cancel_jobs js n s)"

definition cancel_thread :: "request_ctx \<Rightarrow> cell_thread \<Rightarrow> (nat, store) op" where
  "cancel_thread C t s =
    bind_res (cancel_jobs (jobs_for_thread (t_crewd_thread_id t) s) 0 s) (\<lambda>n s.
      if t_state t = TRunning
      then bind_res (thread_transition (rc_now C) (t_crewd_thread_id t) TInterrupted s) (\<lambda>_ s. (Inr n, s))
      else (Inr n, s))"

definition handle_cancel :: handler where
  "handle_cancel C sender params d =
    require (reject_client_identity_keys [] params) d (\<lambda>_.
    require (parse_cell_cancel params) d (\<lambda>tid.
    require (acl_check (dm_acl d) sender CSpawn) d (\<lambda>_.
    case thread_get tid (dm_store d) of
      None \<Rightarrow> (Inl UnknownCell, d)
    | Some t \<Rightarrow>
        require (check_thread_owner (dm_acl d) sender t) d (\<lambda>_.
        bind_res (on_store (cancel_thread C t) d) (\<lambda>n d.
        bind_res (audit_dm (mk_draft ''cell_cancelled'' (Some tid) (Some sender) None ''cancelled'' None) d) (\<lambda>_ d.
          (Inr (JObj [(''cancelled_jobs'', JInt (int n))]),
           d\<lparr>dm_cancels := dm_cancels d @ [t_cell_name t]\<rparr>)))))))"

section \<open>Broadcast\<close>

definition broadcast_json :: "string \<Rightarrow> string list \<Rightarrow> json" where
  "broadcast_json mid included =
    JObj [(''message_id'', JStr mid), (''recipients'', json_strs included), (''status'', JStr ''enqueued'')]"

fun audit_denials :: "string \<Rightarrow> string \<Rightarrow> string list \<Rightarrow> (unit, daemon) op" where
  "audit_denials mid sender [] d = (Inr (), d)"
| "audit_denials mid sender (r # rs) d =
    bind_res (audit_dm (mk_draft ''protected_access_denied'' (Some mid) (Some sender) (Some r) ''denied'' None) d)
      (\<lambda>_ d. audit_denials mid sender rs d)"

definition persist_broadcast ::
  "request_ctx \<Rightarrow> string \<Rightarrow> broadcast_params \<Rightarrow> msg_type \<Rightarrow> string list \<Rightarrow> string list \<Rightarrow> string \<Rightarrow> (json, daemon) op" where
  "persist_broadcast C sender p mt included denied key d =
    (let body_h = body_sha256 C (bc_body p) in
     case dedupe_lookup sender key (dm_store d) of
       Some hit \<Rightarrow>
        (if dd_body_sha256 hit = body_h then (Inr (broadcast_json (dd_message_id hit) included), d)
         else (Inl Dup, d))
     | None \<Rightarrow>
        (let env = build_envelope_with_caps C (dm_acl d) Broadcast mt sender None (bc_body p)
                     (bc_file_refs p) None None key (clamp_ttl Broadcast (bc_ttl_seconds p)) 0;
             mid = e_message_id env
         in bind_res (audit_denials mid sender denied (set_store (insert_envelope env (dm_store d)) d)) (\<lambda>_ d.
            bind_res (audit_dm (mk_draft ''broadcast_fanned_out'' (Some mid) (Some sender) None ''ok''
                (Some (JObj [(''recipients'', json_strs included), (''denied'', json_strs denied)]))) d) (\<lambda>_ d.
              (Inr (broadcast_json mid included),
               set_store (dedupe_insert (rc_now C) sender key mid None body_h
                 (fold (insert_delivery mid) included (dm_store d))) d)))))"

definition handle_broadcast :: handler where
  "handle_broadcast C sender params d =
    require (reject_client_identity_keys [] params) d (\<lambda>_.
    require (parse_broadcast params) d (\<lambda>p.
    let mt = or_value MNote (bc_msg_type p) in
    require (check_msg_type (dm_acl d) sender mt) d (\<lambda>_.
    require (check_idem (or_value [] (bc_idempotency_key p))) d (\<lambda>_.
    require (check_body (bc_body p)) d (\<lambda>_.
    require (check_attach (dm_acl d) sender (bc_file_refs p)) d (\<lambda>_.
    require (acl_check (dm_acl d) sender CBroadcast) d (\<lambda>_.
    let (included, denied) = recipients_for_broadcast (dm_acl d) sender in
    bind_res (admit_rate (rc_now_ms C) sender None CBroadcast (max (length included) 1) d) (\<lambda>_ d.
      persist_broadcast C sender p mt included denied (or_value (rc_key C) (bc_idempotency_key p)) d))))))))"

section \<open>Correlation reports and operator calls\<close>

record correlation_params =
  co_message_id :: string
  co_tool :: string
  co_high_risk :: bool
  co_outcome :: string

definition parse_correlation :: "json \<Rightarrow> correlation_params res" where
  "parse_correlation v =
    and_then (struct_fields [''message_id'', ''tool'', ''high_risk'', ''outcome''] v) (\<lambda>f.
    and_then (field_str ''message_id'' f) (\<lambda>m. and_then (field_str ''tool'' f) (\<lambda>t.
    and_then (field_bool ''high_risk'' f) (\<lambda>h. and_then (field_str ''outcome'' f) (\<lambda>x.
      Inr \<lparr>co_message_id = m, co_tool = t, co_high_risk = h, co_outcome = x\<rparr>)))))"

definition handle_report_tool_correlation :: handler where
  "handle_report_tool_correlation C sender params d =
    require (reject_client_identity_keys [''message_id''] params) d (\<lambda>_.
    require (parse_correlation params) d (\<lambda>p.
    if delivery_state_of (co_message_id p) sender (dm_store d) \<notin> {Inr DDelivered, Inr DAcked}
    then (Inl AclDenied, d)
    else case get_envelope (co_message_id p) (dm_store d) of
      None \<Rightarrow> (Inl Internal, d)
    | Some env \<Rightarrow>
        bind_res (audit_dm (mk_draft ''acked'' (Some (co_message_id p)) (Some sender) None ''ok''
            (Some (JObj [(''causal'', JBool True), (''message_id'', JStr (co_message_id p)),
               (''tool'', JStr (co_tool p)), (''high_risk'', JBool (co_high_risk p)),
               (''outcome'', JStr (co_outcome p)),
               (''msg_type'', JStr (msg_type_as_str (e_msg_type env)))]))) d)
          (\<lambda>_ d. (Inr (JObj [(''recorded'', JBool True)]), d))))"

definition handle_op_status :: handler where
  "handle_op_status C sender params d =
    require (reject_client_identity_keys [] params) d (\<lambda>_.
    require (acl_check (dm_acl d) sender CReadAudit) d (\<lambda>_.
      (Inr (JObj [(''head_hash'', JStr (rc_head_hash C)),
         (''pending_deliveries'', JInt (int (pending_deliveries_total (dm_store d)))),
         (''open_asks'', JInt (int (open_asks_total (dm_store d))))]), d)))"

definition parse_inspect :: "json \<Rightarrow> string res" where
  "parse_inspect v = and_then (struct_fields [''id''] v) (field_str ''id'')"

text \<open>The lines of the audit file that parse and carry the message id.\<close>

definition read_audit_events_for :: "codec \<Rightarrow> audit_file \<Rightarrow> string \<Rightarrow> json list res" where
  "read_audit_events_for cd file i =
    (case file of
      Content raw \<Rightarrow> Inr (filter (\<lambda>v. json_str ''message_id'' v = Some i)
          (List.map_filter (cd_parse cd) (event_lines raw)))
    | _ \<Rightarrow> Inl Internal)"

definition handle_op_inspect :: handler where
  "handle_op_inspect C sender params d =
    require (reject_client_identity_keys [''id''] params) d (\<lambda>_.
    require (acl_check (dm_acl d) sender CReadAudit) d (\<lambda>_.
    require (parse_inspect params) d (\<lambda>i.
    require (read_audit_events_for (rc_codec C) (rc_audit_file C) i) d (\<lambda>events.
      (Inr (JObj
        [(''envelope'', case get_envelope i (dm_store d) of None \<Rightarrow> JNull | Some e \<Rightarrow> envelope_json e),
         (''ask'', case get_ask i (dm_store d) of None \<Rightarrow> JNull | Some a \<Rightarrow> ask_json a),
         (''audit_events'', JArr events)]), d)))))"

definition verify_json :: "verify_result \<Rightarrow> json" where
  "verify_json r =
    (case r of
      VerifyOk h n \<Rightarrow> JObj [(''status'', JStr ''ok''), (''head_hash'', JStr h), (''events'', JInt (int n))]
    | VerifyBroken i n \<Rightarrow>
        JObj [(''status'', JStr ''broken''), (''event_id'', JStr i), (''index'', JInt (int n))])"

definition handle_op_audit_verify :: handler where
  "handle_op_audit_verify C sender params d =
    require (reject_client_identity_keys [] params) d (\<lambda>_.
    require (acl_check (dm_acl d) sender CReadAudit) d (\<lambda>_.
      (Inr (verify_json (audit_verify (rc_codec C) (rc_audit_file C))), d)))"

section \<open>Dispatch\<close>

text \<open>The handlers that run to their end; \<open>cell_await\<close> may suspend.\<close>

definition handlers :: "(string \<times> handler) list" where
  "handlers =
    [(''cell_send'', handle_send), (''cell_ask'', handle_ask), (''cell_reply'', handle_reply),
     (''cell_inbox'', handle_inbox), (''cell_list'', handle_list), (''cell_broadcast'', handle_broadcast),
     (''cell_spawn'', handle_spawn), (''cell_send_task'', handle_send_task), (''cell_status'', handle_status),
     (''cell_result'', handle_result), (''cell_cancel'', handle_cancel),
     (''report_tool_correlation'', handle_report_tool_correlation), (''op_status'', handle_op_status),
     (''op_inspect'', handle_op_inspect), (''op_audit_verify'', handle_op_audit_verify)]"

definition respond :: "nat \<Rightarrow> json res \<Rightarrow> wire_response" where
  "respond i r = (case r of Inr v \<Rightarrow> wire_ok i v | Inl e \<Rightarrow> wire_err i e)"

datatype dispatched = Respond wire_response | Suspended nat ask_row await_guard

definition dispatch :: "request_ctx \<Rightarrow> cell_principal \<Rightarrow> wire_request \<Rightarrow> daemon \<Rightarrow> dispatched \<times> daemon" where
  "dispatch C who req d =
    (let sender = pr_cell_id who in
     if wq_method req = ''cell_await'' then
       (case await_begin sender (wq_params req) d of
         (Inl e, d) \<Rightarrow> (Respond (wire_err (wq_id req) e), d)
       | (Inr (AwaitDone v), d) \<Rightarrow> (Respond (wire_ok (wq_id req) v), d)
       | (Inr (AwaitWait ask guard), d) \<Rightarrow> (Suspended (wq_id req) ask guard, d))
     else case map_of handlers (wq_method req) of
       Some h \<Rightarrow> (case h C sender (wq_params req) d of (r, d) \<Rightarrow> (Respond (respond (wq_id req) r), d))
     | None \<Rightarrow> (Respond (wire_err (wq_id req) Internal), d))"

end
