(* ===== verification/Protocol.thy ===== *)
theory Protocol
  imports Handlers
begin

text \<open>
  What the bus promises, as an abstract protocol of small edits, and the refinement: every request,
  whatever its outcome, is a sequence of edits by the authenticated cell.  An edit may mint an
  envelope only under the sender's own name and rights, and may make a message consumable only
  once its audit event is durable.  The bus invariants are proved on the edits.
\<close>

section \<open>The protocol\<close>

text \<open>The rights a sender needs for an envelope it mints.  A request takes a snapshot of the access
  control list for each of its checks, and the list may be reloaded in between: every right is one
  that some of the lists \<open>A\<close> consulted by the request grants.\<close>

definition authorised :: "acl set \<Rightarrow> envelope \<Rightarrow> bool" where
  "authorised A e =
    (let sender = e_from_cell e in
     (e_file_refs e = [] \<or> (\<exists>a \<in> A. acl_check a sender CAttachFiles = Inr ())) \<and>
     (\<exists>a \<in> A. check_msg_type a sender (e_msg_type e) = Inr ()) \<and>
     (case e_kind e of
        Send \<Rightarrow> (case e_to_cell e of None \<Rightarrow> False
          | Some t \<Rightarrow> \<exists>a \<in> A. acl_check a sender CSend = Inr () \<and> is_registered a t \<and> check_reach a sender t ViaSend = Inr ())
      | Ask \<Rightarrow> (case e_to_cell e of None \<Rightarrow> False
          | Some t \<Rightarrow> \<exists>a \<in> A. acl_check a sender CAsk = Inr () \<and> is_registered a t \<and> check_reach a sender t ViaAsk = Inr ())
      | Reply \<Rightarrow> \<exists>a \<in> A. acl_check a sender CReply = Inr ()
      | Broadcast \<Rightarrow> \<exists>a \<in> A. acl_check a sender CBroadcast = Inr ()))"

text \<open>A message is published by an acknowledged audit event.\<close>

definition published :: "string \<Rightarrow> daemon \<Rightarrow> bool" where
  "published mid d \<longleftrightarrow> (\<exists>ev \<in> set (al_events (dm_log d)).
     dr_message_id ev = Some mid \<and> dr_kind ev \<in> {''enqueued'', ''broadcast_fanned_out''})"

definition addressed :: "acl set \<Rightarrow> envelope \<Rightarrow> string \<Rightarrow> bool" where
  "addressed A e rec =
    (case e_to_cell e of
      Some t \<Rightarrow> t = rec
    | None \<Rightarrow> \<exists>a \<in> A. rec \<in> set (fst (recipients_for_broadcast a (e_from_cell e))))"

text \<open>The identifiers drawn for a request are new.\<close>

definition fresh_ids :: "request_ctx \<Rightarrow> daemon \<Rightarrow> bool" where
  "fresh_ids C d \<longleftrightarrow> get_envelope (rc_message_id C) (dm_store d) = None \<and> get_ask (rc_ask_id C) (dm_store d) = None"

text \<open>The tables the bus reads and writes; the others belong to cells, threads and jobs.\<close>

definition same_bus :: "store \<Rightarrow> store \<Rightarrow> bool" where
  "same_bus s t \<longleftrightarrow> s_envelopes t = s_envelopes s \<and> s_deliveries t = s_deliveries s \<and>
    s_asks t = s_asks s \<and> s_dedupe t = s_dedupe s \<and> s_seq_counters t = s_seq_counters s"

text \<open>What a request may do to the jobs: queue new ones and cancel old ones.\<close>

definition job_kept :: "cell_job \<Rightarrow> cell_job \<Rightarrow> bool" where
  "job_kept j k \<longleftrightarrow> k = j \<or> k = j\<lparr>j_state := JCancelled\<rparr>"

definition jobs_follow :: "store \<Rightarrow> store \<Rightarrow> bool" where
  "jobs_follow s t \<longleftrightarrow> (jobs_ok s \<longrightarrow> jobs_ok t) \<and>
    (\<exists>js new. s_jobs t = js @ new \<and> list_all2 job_kept (s_jobs s) js \<and>
       list_all (\<lambda>j. j_state j \<in> {JQueued, JCancelled}) new)"

definition fabric_follows :: "store \<Rightarrow> store \<Rightarrow> bool" where
  "fabric_follows s t \<longleftrightarrow> same_bus s t \<and> jobs_follow s t \<and> threads_kept s t"

inductive bus_edit :: "acl set \<Rightarrow> request_ctx \<Rightarrow> string \<Rightarrow> daemon \<Rightarrow> daemon \<Rightarrow> bool" for A C sender where
  record_event: "audit_dm dr d = (r, d') \<Longrightarrow> bus_edit A C sender d d'"
| charge_quota: "bus_edit A C sender d (d\<lparr>dm_quota := q\<rparr>)"
| take_number: "bus_edit A C sender d (set_store (snd (next_seq sender t (dm_store d))) d)"
| mint: "get_envelope (rc_message_id C) (dm_store d) = None \<Longrightarrow> e_from_cell e = sender \<Longrightarrow> e_message_id e = rc_message_id C \<Longrightarrow>
    a \<in> A \<Longrightarrow> e_principal_capabilities e = capabilities_of a sender \<Longrightarrow> validate_invariants e = Inr () \<Longrightarrow>
    authorised A e \<Longrightarrow> bus_edit A C sender d (set_store (insert_envelope e (dm_store d)) d)"
| make_deliverable: "get_envelope (rc_message_id C) (dm_store d) = Some e \<Longrightarrow> e_from_cell e = sender \<Longrightarrow>
    addressed A e rec \<Longrightarrow> published (rc_message_id C) d \<Longrightarrow>
    bus_edit A C sender d (set_store (insert_delivery (rc_message_id C) rec (dm_store d)) d)"
| open_ask: "get_ask (rc_ask_id C) (dm_store d) = None \<Longrightarrow> get_envelope (rc_message_id C) (dm_store d) = Some e \<Longrightarrow> e_kind e = Ask \<Longrightarrow> e_from_cell e = sender \<Longrightarrow>
    e_to_cell e = Some t \<Longrightarrow> e_ask_id e = Some (rc_ask_id C) \<Longrightarrow> published (rc_message_id C) d \<Longrightarrow>
    bus_edit A C sender d (set_store (insert_ask (rc_ask_id C) (rc_message_id C) sender t x (dm_store d)) d)"
| answer: "get_ask i (dm_store d) = Some a \<Longrightarrow> a_state a = APending \<Longrightarrow> a_to_cell a = sender \<Longrightarrow>
    get_envelope (rc_message_id C) (dm_store d) = Some e \<Longrightarrow> e_kind e = Reply \<Longrightarrow> e_from_cell e = sender \<Longrightarrow>
    e_to_cell e = Some (a_from_cell a) \<Longrightarrow> e_ask_id e = Some i \<Longrightarrow> published (rc_message_id C) d \<Longrightarrow>
    bus_edit A C sender d (set_store (commit_reply (body_sha256 C) i e (dm_store d)) d)"
| remember: "get_envelope (rc_message_id C) (dm_store d) = Some e \<Longrightarrow> e_from_cell e = sender \<Longrightarrow>
    published (rc_message_id C) d \<Longrightarrow>
    bus_edit A C sender d (set_store (dedupe_insert now sender key (rc_message_id C) x h (dm_store d)) d)"
| pull: "a \<in> A \<Longrightarrow> acl_check a sender CReadInbox = Inr () \<Longrightarrow>
    bus_edit A C sender d (set_store (snd (inbox sender n (dm_store d))) d)"
| wake: "bus_edit A C sender d (notify i d)"
| fabric: "fabric_follows (dm_store d) s \<Longrightarrow> audit_grows d (d\<lparr>dm_core := (s, l)\<rparr>) \<Longrightarrow>
    bus_edit A C sender d (d\<lparr>dm_core := (s, l)\<rparr>)"
| signal_cancel: "a \<in> A \<Longrightarrow> acl_check a sender CSpawn = Inr () \<Longrightarrow>
    bus_edit A C sender d (d\<lparr>dm_cancels := dm_cancels d @ [cell]\<rparr>)"

section \<open>Composing edits\<close>

abbreviation edits :: "acl set \<Rightarrow> request_ctx \<Rightarrow> string \<Rightarrow> daemon \<Rightarrow> daemon \<Rightarrow> bool" where
  "edits A C sender \<equiv> (bus_edit A C sender)\<^sup>*\<^sup>*"

lemma edit_once: "edits A C sender d0 d \<Longrightarrow> bus_edit A C sender d d' \<Longrightarrow> edits A C sender d0 d'"
  by (rule rtranclp.rtrancl_into_rtrancl)

lemma edit_audit: "edits A C sender d0 d \<Longrightarrow> edits A C sender d0 (snd (audit_dm dr d))"
  by (rule edit_once, assumption, rule record_event [where r = "fst (audit_dm dr d)"]) simp

lemma edit_quota_exceeded: "edits A C sender d0 d \<Longrightarrow> edits A C sender d0 (snd (quota_exceeded s t e d))"
  unfolding quota_exceeded_def by (intro after_bind edit_audit) auto

lemma edit_authorize: "edits A C sender d0 d \<Longrightarrow> edits A C sender d0 (snd (authorize_outbound s t cap via d))"
  unfolding authorize_outbound_def
  by (intro after_require) (auto intro!: after_bind edit_audit split: sum.split)

lemma edit_rate: "edits A C sender d0 d \<Longrightarrow> edits A C sender d0 (snd (admit_rate now s t cap units d))"
  unfolding admit_rate_def
  by (auto intro!: edit_quota_exceeded intro: edit_once charge_quota split: prod.split sum.split)

lemma edit_admit: "edits A C sender d0 d \<Longrightarrow> edits A C sender d0 (snd (admit_outbound now s t cap units d))"
  unfolding admit_outbound_def by (auto intro!: edit_quota_exceeded edit_rate split: sum.split)

lemma set_store_set_store [simp]: "set_store s (set_store t d) = set_store s d"
  by (simp add: set_store_def)

lemma get_envelope_insert [simp]: "get_envelope (e_message_id e) (insert_envelope e s) = Some e"
  by (simp add: get_envelope_def insert_envelope_def table_simps)

lemma published_audit:
  "audit_dm dr d = (Inr u, d') \<Longrightarrow> dr_message_id dr = Some m \<Longrightarrow>
   dr_kind dr \<in> {''enqueued'', ''broadcast_fanned_out''} \<Longrightarrow> published m d'"
  by (erule audit_dm_cases) (auto simp: published_def)

lemma published_mono: "audit_grows d d' \<Longrightarrow> published m d \<Longrightarrow> published m d'"
  by (auto simp: published_def audit_grows_def)

lemma published_set_store [simp]: "published m (set_store s d) = published m d"
  by (simp add: published_def)

lemma audit_dm_store: "audit_dm dr d = (r, d') \<Longrightarrow> dm_store d' = dm_store d \<and> dm_acl d' = dm_acl d \<and> audit_grows d d'"
  using audit_dm_frame [of dr d r d'] audit_dm_quiet [of d dr] by (simp add: bus_quiet_def)

section \<open>Tables an operation leaves alone\<close>

lemma envelopes_frame [simp]:
  "get_envelope m (insert_delivery i r s) = get_envelope m s"
  "get_envelope m (insert_ask a i f t x s) = get_envelope m s"
  "get_envelope m (commit_reply sha a e s) = get_envelope m s"
  "get_envelope m (dedupe_insert now f k i z h s) = get_envelope m s"
  "get_envelope m (snd (next_seq f t s)) = get_envelope m s"
  by (simp_all add: get_envelope_def insert_delivery_def insert_ask_def commit_reply_def dedupe_insert_def
      next_seq_def Let_def split: option.split)

lemma asks_frame [simp]:
  "get_ask i (insert_delivery m r s) = get_ask i s"
  "get_ask i (insert_envelope e s) = get_ask i s"
  "get_ask i (snd (next_seq f t s)) = get_ask i s"
  by (simp_all add: get_ask_def insert_delivery_def insert_envelope_def next_seq_def Let_def split: option.split)

lemma quiet_acl: "bus_quiet d d' \<Longrightarrow> dm_acl d' = dm_acl d \<and> dm_store d' = dm_store d"
  by (simp add: bus_quiet_def)

lemma admit_acl:
  "admit_outbound now s t cap units d = (r, d') \<Longrightarrow> dm_acl d' = dm_acl d \<and> dm_store d' = dm_store d"
  "admit_rate now s x cap units d = (r, d') \<Longrightarrow> dm_acl d' = dm_acl d \<and> dm_store d' = dm_store d"
  using quiet_acl [OF admit_outbound_quiet, of now s t cap units d] quiet_acl [OF admit_rate_quiet, of now s x cap units d]
  by simp_all

section \<open>Persisting\<close>

lemma build_sel [simp]:
  "e_message_id (build_envelope_with_caps C a k mt s t b fr ask rt key ttl seq) = rc_message_id C"
  "e_from_cell (build_envelope_with_caps C a k mt s t b fr ask rt key ttl seq) = s"
  "e_to_cell (build_envelope_with_caps C a k mt s t b fr ask rt key ttl seq) = t"
  "e_kind (build_envelope_with_caps C a k mt s t b fr ask rt key ttl seq) = k"
  "e_msg_type (build_envelope_with_caps C a k mt s t b fr ask rt key ttl seq) = mt"
  "e_file_refs (build_envelope_with_caps C a k mt s t b fr ask rt key ttl seq) = fr"
  "e_ask_id (build_envelope_with_caps C a k mt s t b fr ask rt key ttl seq) = ask"
  "e_reply_to (build_envelope_with_caps C a k mt s t b fr ask rt key ttl seq) = rt"
  "e_body (build_envelope_with_caps C a k mt s t b fr ask rt key ttl seq) = b"
  "e_taint (build_envelope_with_caps C a k mt s t b fr ask rt key ttl seq) = TAINT"
  "e_principal_capabilities (build_envelope_with_caps C a k mt s t b fr ask rt key ttl seq) = capabilities_of a s"
  by (simp_all add: build_envelope_with_caps_def build_envelope_def)

lemma check_attach_Inr: "check_attach a s fr = Inr () \<longleftrightarrow> fr = [] \<or> acl_check a s CAttachFiles = Inr ()"
  by (simp add: check_attach_def)

lemma check_body_Inr: "check_body b = Inr () \<longleftrightarrow> length b \<le> MAX_BODY_BYTES"
  by (auto simp: check_body_def)

text \<open>Minting an envelope under a fresh number and recording its event: the message is published and
  the tables are ready for its delivery.\<close>

lemma mint_and_publish:
  assumes "edits A C sender d0 d" "get_envelope (rc_message_id C) (dm_store d) = None" "e_from_cell e = sender" "e_message_id e = rc_message_id C"
    "a \<in> A" "e_principal_capabilities e = capabilities_of a sender" "validate_invariants e = Inr ()"
    "authorised A e" "s = dm_store d \<or> (\<exists>t. s = snd (next_seq sender t (dm_store d)))"
  shows "edits A C sender d0 (set_store (insert_envelope e s) d)"
proof -
  have "edits A C sender d0 (set_store s d)"
    using assms(9) edit_once [OF assms(1) take_number] assms(1) by (auto simp: set_store_def)
  moreover have "bus_edit A C sender (set_store s d) (set_store (insert_envelope e (dm_store (set_store s d))) (set_store s d))"
    by (rule mint [OF _ assms(3,4,5,6,7,8)]) (use assms(2,9) in auto)
  ultimately show ?thesis using edit_once by fastforce
qed

text \<open>Rights found by the checks of a request, each in one of the lists it consulted.\<close>

definition outbound_granted :: "acl set \<Rightarrow> string \<Rightarrow> string \<Rightarrow> capability \<Rightarrow> reach_via \<Rightarrow> bool" where
  "outbound_granted A sender target cap via \<longleftrightarrow> (\<exists>a \<in> A. acl_check a sender cap = Inr () \<and>
     is_registered a target \<and> check_reach a sender target via = Inr ())"

definition attach_granted :: "acl set \<Rightarrow> string \<Rightarrow> string list \<Rightarrow> bool" where
  "attach_granted A sender file_refs \<longleftrightarrow> file_refs = [] \<or> (\<exists>a \<in> A. acl_check a sender CAttachFiles = Inr ())"

lemma grants:
  "authorize_outbound s t c v d = (Inr u, d') \<Longrightarrow> dm_acl d \<in> A \<Longrightarrow> outbound_granted A s t c v"
  "check_attach a s fr = Inr () \<Longrightarrow> a \<in> A \<Longrightarrow> attach_granted A s fr"
  by (auto simp: authorize_outbound_Inr outbound_granted_def check_attach_Inr attach_granted_def)

lemma edit_persist_send:
  assumes "edits A C sender d0 d" "fresh_ids C d" "dm_acl d \<in> A" "outbound_granted A sender (snd_to_cell p) CSend ViaSend"
    "\<exists>a \<in> A. check_msg_type a sender mt = Inr ()" "check_body (snd_body p) = Inr ()"
    "attach_granted A sender (snd_file_refs p)"
  shows "edits A C sender d0 (snd (persist_send C sender p mt key d))"
proof (cases "dedupe_lookup sender key (dm_store d)")
  case None
  obtain seq s1 where sq: "next_seq sender (snd_to_cell p) (dm_store d) = (seq, s1)" by (metis prod.exhaust)
  let ?e = "build_envelope_with_caps C (dm_acl d) Send mt sender (Some (snd_to_cell p)) (snd_body p)
      (snd_file_refs p) None None key (clamp_ttl Send (snd_ttl_seconds p)) seq"
  let ?d1 = "set_store (insert_envelope ?e s1) d"
  have s1: "s1 = snd (next_seq sender (snd_to_cell p) (dm_store d))" by (simp add: sq)
  have e1: "edits A C sender d0 ?d1"
    by (rule mint_and_publish [OF assms(1) _ _ _ assms(3)])
      (use assms in \<open>auto simp: fresh_ids_def validate_invariants_def authorised_def outbound_granted_def
        attach_granted_def check_body_Inr s1\<close>)
  show ?thesis
    unfolding persist_send_def Let_def None option.case sq prod.case build_sel
  proof (rule after_bind [OF edit_audit [OF e1]], goal_cases)
    case (1 u d2)
    note fr = audit_dm_store [OF 1(1)]
    have g: "get_envelope (rc_message_id C) (dm_store d2) = Some ?e"
      using fr get_envelope_insert [of ?e s1] by simp
    have p2: "published (rc_message_id C) d2"
      by (rule published_audit [OF 1(1)]) (simp_all add: mk_draft_def)
    have "bus_edit A C sender d2 (set_store (insert_delivery (rc_message_id C) (snd_to_cell p) (dm_store d2)) d2)"
      using make_deliverable [OF g _ _ p2, of sender A "snd_to_cell p"] by (simp add: addressed_def)
    from edit_once [OF 1(2) this]
    have e3: "edits A C sender d0 (set_store (insert_delivery (rc_message_id C) (snd_to_cell p) (dm_store d2)) d2)" .
    from edit_once [OF e3 remember [where x = None]] g p2 show ?case by simp
  qed
qed (use assms(1) in \<open>simp add: persist_send_def Let_def\<close>)

lemma edit_send: "edits A C sender d0 d \<Longrightarrow> fresh_ids C d \<Longrightarrow> dm_acl d \<in> A \<Longrightarrow> edits A C sender d0 (snd (handle_send C sender params d))"
  unfolding handle_send_def Let_def
  by (intro after_require after_bind edit_authorize edit_admit edit_persist_send; assumption?)
    (auto simp: authorize_outbound_Inr fresh_ids_def outbound_granted_def check_attach_Inr attach_granted_def dest!: admit_acl)

lemma edit_persist_ask:
  assumes "edits A C sender d0 d" "fresh_ids C d" "dm_acl d \<in> A" "outbound_granted A sender (ask_to_cell p) CAsk ViaAsk"
    "check_body (ask_body p) = Inr ()" "attach_granted A sender (ask_file_refs p)"
  shows "edits A C sender d0 (snd (persist_ask C sender p key d))"
proof (cases "dedupe_lookup sender key (dm_store d)")
  case None
  obtain seq s1 where sq: "next_seq sender (ask_to_cell p) (dm_store d) = (seq, s1)" by (metis prod.exhaust)
  let ?m = "rc_message_id C" and ?t = "ask_to_cell p"
  let ?e = "build_envelope_with_caps C (dm_acl d) Ask MAsk sender (Some ?t) (ask_body p)
      (ask_file_refs p) (Some (rc_ask_id C)) None key (clamp_ttl Ask (ask_ttl_seconds p)) seq"
  have s1: "s1 = snd (next_seq sender ?t (dm_store d))" by (simp add: sq)
  have e1: "edits A C sender d0 (set_store (insert_envelope ?e s1) d)"
    by (rule mint_and_publish [OF assms(1) _ _ _ assms(3)])
      (use assms in \<open>auto simp: fresh_ids_def validate_invariants_def authorised_def outbound_granted_def
        attach_granted_def check_body_Inr check_msg_type_def s1\<close>)
  show ?thesis
    unfolding persist_ask_def Let_def None option.case sq prod.case build_sel
  proof (rule after_bind [OF edit_audit [OF e1]], rule after_bind [OF edit_audit], assumption, goal_cases)
    case (1 u d2 v d3)
    note fr = audit_dm_store [OF 1(1)] audit_dm_store [OF 1(3)]
    have g: "get_envelope ?m (dm_store d3) = Some ?e"
      using fr get_envelope_insert [of ?e s1] by simp
    have "published ?m d2"
      by (rule published_audit [OF 1(1)]) (simp_all add: mk_draft_def)
    with fr have p3: "published ?m d3" by (blast intro: published_mono)
    have fa: "get_ask (rc_ask_id C) (dm_store d3) = None"
      using fr assms(2) by (simp add: s1 fresh_ids_def)
    let ?sa = "insert_delivery ?m ?t (dm_store d3)"
    let ?sb = "insert_ask (rc_ask_id C) ?m sender ?t (rfc3339_after (rc_now C) (clamp_ttl Ask (ask_ttl_seconds p))) ?sa"
    have "bus_edit A C sender d3 (set_store ?sa d3)"
      using make_deliverable [OF g _ _ p3, of sender A ?t] by (simp add: addressed_def)
    from edit_once [OF 1(4) this] have ea: "edits A C sender d0 (set_store ?sa d3)" .
    have "bus_edit A C sender (set_store ?sa d3) (set_store ?sb d3)"
      using open_ask [of C "set_store ?sa d3" ?e sender ?t] g p3 fa by simp
    from edit_once [OF ea this] have eb: "edits A C sender d0 (set_store ?sb d3)" .
    show ?case
      using edit_once [OF eb remember [of C "set_store ?sb d3" ?e sender A "rc_now C" key "Some (rc_ask_id C)"]] g p3 by simp
  qed
qed (use assms(1) in \<open>simp add: persist_ask_def Let_def\<close>)

lemma edit_ask: "edits A C sender d0 d \<Longrightarrow> fresh_ids C d \<Longrightarrow> dm_acl d \<in> A \<Longrightarrow> edits A C sender d0 (snd (handle_ask C sender params d))"
  unfolding handle_ask_def Let_def
  by (intro after_require after_bind edit_authorize edit_admit; assumption?)
    (auto simp: authorize_outbound_Inr fresh_ids_def outbound_granted_def check_attach_Inr attach_granted_def
      dest!: admit_acl intro!: edit_quota_exceeded edit_persist_ask split: sum.split)

lemma edit_store_reply:
  assumes "edits A C sender d0 d" "fresh_ids C d" "get_ask (rp_ask_id p) (dm_store d) = Some a" "a_to_cell a = sender"
    "dm_acl d \<in> A" "\<exists>a \<in> A. acl_check a sender CReply = Inr ()"
    "check_body (rp_body p) = Inr ()" "attach_granted A sender (rp_file_refs p)"
  shows "edits A C sender d0 (snd (store_reply C sender p a key d))"
proof -
  let ?m = "rc_message_id C" and ?t = "a_from_cell a" and ?i = "rp_ask_id p"
  obtain seq s1 where sq: "next_seq sender ?t (dm_store d) = (seq, s1)" by (metis prod.exhaust)
  let ?e = "build_envelope_with_caps C (dm_acl d) Reply MReply sender (Some ?t) (rp_body p)
                 (rp_file_refs p) (Some ?i) (Some (a_message_id a)) key (clamp_ttl Reply None) seq"
  have s1: "s1 = snd (next_seq sender ?t (dm_store d))" by (simp add: sq)
  have e0: "edits A C sender d0 (set_store s1 d)"
    using edit_once [OF assms(1) take_number] by (simp add: s1)
  have e1: "edits A C sender d0 (set_store (insert_envelope ?e s1) d)"
    by (rule mint_and_publish [OF assms(1) _ _ _ assms(5)])
      (use assms in \<open>auto simp: fresh_ids_def validate_invariants_def authorised_def
        attach_granted_def check_body_Inr check_msg_type_def s1\<close>)
  show ?thesis
  proof (cases "reply_precheck (body_sha256 C) ?i ?e s1")
    case Recorded
    have pend: "a_state a = APending"
      using Recorded assms(3) by (auto simp: reply_precheck_def s1 split: option.splits if_splits)
    show ?thesis
      unfolding store_reply_def Let_def sq prod.case build_sel Recorded reply_outcome.case
    proof (rule after_bind [OF edit_audit [OF e1]], goal_cases)
      case (1 u d2)
      note fr = audit_dm_store [OF 1(1)]
      have g: "get_envelope ?m (dm_store d2) = Some ?e" using fr get_envelope_insert [of ?e s1] by simp
      have p2: "published ?m d2" by (rule published_audit [OF 1(1)]) (simp_all add: mk_draft_def)
      let ?sa = "commit_reply (body_sha256 C) ?i ?e (dm_store d2)"
      have "bus_edit A C sender d2 (set_store ?sa d2)"
        using answer [OF _ pend _ g _ _ _ _ p2, of ?i sender A] fr assms(3,4) by (simp add: s1)
      from edit_once [OF 1(2) this] have ea: "edits A C sender d0 (set_store ?sa d2)" .
      have "bus_edit A C sender (set_store ?sa d2) (set_store (insert_delivery ?m ?t ?sa) d2)"
        using make_deliverable [of C "set_store ?sa d2" ?e sender A ?t] g p2 by (simp add: addressed_def)
      from edit_once [OF ea this] show ?case by simp
    qed
  next
    case (DuplicateIdentical m)
    then show ?thesis using e0 by (simp add: store_reply_def Let_def sq)
  next
    case Conflict
    then show ?thesis using e0 by (simp add: store_reply_def Let_def sq)
  qed
qed

lemma edit_persist_reply:
  "edits A C sender d0 (snd (store_reply C sender p a key d)) \<Longrightarrow> edits A C sender d0 (snd (persist_reply C sender p a key d))"
  unfolding persist_reply_def
  by (rule after_bind) (auto intro: after_bind edit_audit edit_once wake split: reply_section.split)

lemma edit_reply: "edits A C sender d0 d \<Longrightarrow> fresh_ids C d \<Longrightarrow> dm_acl d \<in> A \<Longrightarrow> edits A C sender d0 (snd (handle_reply C sender params d))"
  unfolding handle_reply_def Let_def
  by (intro after_require; assumption?) (auto intro!: edit_persist_reply edit_store_reply simp: check_attach_Inr attach_granted_def split: option.split)

lemma edit_denials: "edits A C sender d0 d \<Longrightarrow> edits A C sender d0 (snd (audit_denials mid s rs d))"
  by (induction rs arbitrary: d) (auto intro!: after_bind edit_audit)

lemma denials_frame:
  "audit_denials mid s rs d = (r, d') \<Longrightarrow> dm_store d' = dm_store d \<and> dm_acl d' = dm_acl d \<and> audit_grows d d'"
proof (induction rs arbitrary: d)
  case (Cons x rs)
  obtain r1 d1 where a: "audit_dm (mk_draft ''protected_access_denied'' (Some mid) (Some s) (Some x) ''denied'' None) d = (r1, d1)"
    by (metis prod.exhaust)
  note f = audit_dm_store [OF a]
  show ?case
    using Cons f by (cases r1) (auto simp: a intro: audit_grows_trans)
qed auto

lemma edit_deliver_all:
  "edits A C sender d0 (set_store s d) \<Longrightarrow> get_envelope (rc_message_id C) s = Some e \<Longrightarrow> e_from_cell e = sender \<Longrightarrow>
   published (rc_message_id C) d \<Longrightarrow> list_all (addressed A e) rs \<Longrightarrow>
   edits A C sender d0 (set_store (fold (insert_delivery (rc_message_id C)) rs s) d) \<and>
   get_envelope (rc_message_id C) (fold (insert_delivery (rc_message_id C)) rs s) = Some e"
proof (induction rs arbitrary: s)
  case (Cons r rs)
  have "bus_edit A C sender (set_store s d) (set_store (insert_delivery (rc_message_id C) r s) d)"
    using make_deliverable [of C "set_store s d" e sender A r] Cons(3-6) by simp
  with Cons show ?case using edit_once by simp
qed simp

lemma edit_persist_broadcast:
  assumes "edits A C sender d0 d" "fresh_ids C d" "dm_acl d \<in> A" "\<exists>a \<in> A. check_msg_type a sender mt = Inr ()"
    "a \<in> A" "acl_check a sender CBroadcast = Inr ()" "included = fst (recipients_for_broadcast a sender)"
    "check_body (bc_body p) = Inr ()" "attach_granted A sender (bc_file_refs p)"
  shows "edits A C sender d0 (snd (persist_broadcast C sender p mt included denied key d))"
proof (cases "dedupe_lookup sender key (dm_store d)")
  case None
  let ?m = "rc_message_id C"
  let ?e = "build_envelope_with_caps C (dm_acl d) Broadcast mt sender None (bc_body p)
                     (bc_file_refs p) None None key (clamp_ttl Broadcast (bc_ttl_seconds p)) 0"
  have e1: "edits A C sender d0 (set_store (insert_envelope ?e (dm_store d)) d)"
    by (rule mint_and_publish [OF assms(1) _ _ _ assms(3)])
      (use assms in \<open>auto simp: fresh_ids_def validate_invariants_def authorised_def attach_granted_def check_body_Inr\<close>)
  show ?thesis
    unfolding persist_broadcast_def Let_def None option.case build_sel
  proof (rule after_bind [OF edit_denials [OF e1]], rule after_bind [OF edit_audit], assumption, goal_cases)
    case (1 u d2 v d3)
    note fr = denials_frame [OF 1(1)] audit_dm_store [OF 1(3)]
    have g: "get_envelope ?m (dm_store d3) = Some ?e"
      using fr get_envelope_insert [of ?e "dm_store d"] by simp
    have p3: "published ?m d3"
      by (rule published_audit [OF 1(3)]) (simp_all add: mk_draft_def)
    have "list_all (addressed A ?e) included"
      using assms(5,7) by (auto simp: addressed_def list_all_iff)
    moreover have "edits A C sender d0 (set_store (dm_store d3) d3)" using 1(4) by (simp add: set_store_def)
    ultimately have ea: "edits A C sender d0 (set_store (fold (insert_delivery ?m) included (dm_store d3)) d3)"
      and ga: "get_envelope ?m (fold (insert_delivery ?m) included (dm_store d3)) = Some ?e"
      using edit_deliver_all [of A C sender d0 "dm_store d3" d3 ?e included] g p3 by simp_all
    from edit_once [OF ea remember [where x = None]] ga p3 show ?case by simp
  qed
qed (use assms(1) in \<open>simp add: persist_broadcast_def Let_def\<close>)

lemma edit_broadcast: "edits A C sender d0 d \<Longrightarrow> fresh_ids C d \<Longrightarrow> dm_acl d \<in> A \<Longrightarrow> edits A C sender d0 (snd (handle_broadcast C sender params d))"
  unfolding handle_broadcast_def Let_def
  by (intro after_require; assumption?)
    (auto split: prod.split intro!: after_bind edit_rate edit_persist_broadcast
      simp: fresh_ids_def check_attach_Inr attach_granted_def dest!: admit_acl)

section \<open>Requests that leave the bus tables alone\<close>

lemma same_bus_refl [simp]: "same_bus s s"
  by (simp add: same_bus_def)

lemma same_bus_trans: "same_bus s t \<Longrightarrow> same_bus t u \<Longrightarrow> same_bus s u"
  by (simp add: same_bus_def)

lemma job_kept_refl [simp]: "job_kept j j"
  by (simp add: job_kept_def)

lemma job_kept_trans: "job_kept i j \<Longrightarrow> job_kept j k \<Longrightarrow> job_kept i k"
  by (auto simp: job_kept_def)

lemma kept_over:
  "list_all2 job_kept js ks \<Longrightarrow> list_all (\<lambda>j. j_state j \<in> {JQueued, JCancelled}) js \<Longrightarrow>
   list_all (\<lambda>j. j_state j \<in> {JQueued, JCancelled}) ks"
  by (induction rule: list_all2_induct) (auto simp: job_kept_def)

lemma jobs_follow_same: "s_jobs t = s_jobs s \<Longrightarrow> jobs_follow s t"
  unfolding jobs_follow_def jobs_ok_def
  by (intro conjI exI [of _ "s_jobs s"] exI [of _ "[]"]) (simp_all add: list_all2_same)

lemma jobs_follow_trans:
  assumes "jobs_follow s t" "jobs_follow t u"
  shows "jobs_follow s u"
proof -
  obtain js new where t: "s_jobs t = js @ new" "list_all2 job_kept (s_jobs s) js"
    "list_all (\<lambda>j. j_state j \<in> {JQueued, JCancelled}) new" using assms(1) by (auto simp: jobs_follow_def)
  obtain ks more where u: "s_jobs u = ks @ more" "list_all2 job_kept (js @ new) ks"
    "list_all (\<lambda>j. j_state j \<in> {JQueued, JCancelled}) more" using assms(2) t(1) by (auto simp: jobs_follow_def)
  obtain js' new' where k: "ks = js' @ new'" "list_all2 job_kept js js'" "list_all2 job_kept new new'"
    using u(2) by (auto simp: list_all2_append1)
  have "s_jobs u = js' @ (new' @ more)" "list_all2 job_kept (s_jobs s) js'"
    "list_all (\<lambda>j. j_state j \<in> {JQueued, JCancelled}) (new' @ more)"
    using u(1,3) k kept_over [OF k(3) t(3)] list_all2_trans [OF job_kept_trans t(2) k(2)] by simp_all
  then show ?thesis using assms unfolding jobs_follow_def by blast
qed

lemma follows_refl [simp]: "fabric_follows s s"
  by (simp add: fabric_follows_def jobs_follow_same threads_kept_same)

lemma follows_trans: "fabric_follows s t \<Longrightarrow> fabric_follows t u \<Longrightarrow> fabric_follows s u"
  unfolding fabric_follows_def by (blast intro: same_bus_trans jobs_follow_trans threads_kept_trans)

lemma follows_in_tx: "(\<And>s. fabric_follows s (snd (f s))) \<Longrightarrow> fabric_follows s (snd (in_tx f s))"
  by (auto simp: in_tx_def split: prod.split sum.split dest: sndI)

lemma follows_bind:
  "fabric_follows s (snd r) \<Longrightarrow> (\<And>a t. fabric_follows t (snd (k a t))) \<Longrightarrow> fabric_follows s (snd (bind_res r k))"
  by (cases r; cases "fst r") (auto intro: follows_trans)

lemma follows_jobs:
  "fabric_follows s (snd (job_enqueue_inner now j t c p n s))" "fabric_follows s (snd (job_enqueue now j t c p n s))"
  "fabric_follows s (snd (job_cancel i s))"
proof -
  have "jobs_follow s (s\<lparr>s_jobs := s_jobs s @ [x]\<rparr>)"
    if "job_get (j_job_id x) s = None" "j_enqueue_seq x = next_enqueue_seq (j_cell_name x) s" "j_state x = JQueued" for x s
    using that jobs_ok_enqueue [OF _ that(1,2)] unfolding jobs_follow_def
    by (intro conjI exI [of _ "s_jobs s"] exI [of _ "[x]"]) (simp_all add: list_all2_same)
  then show a: "fabric_follows s (snd (job_enqueue_inner now j t c p n s))" for s
    by (simp add: job_enqueue_inner_def fabric_follows_def same_bus_def Let_def jobs_follow_same threads_kept_same)
  show "fabric_follows s (snd (job_enqueue now j t c p n s))"
    unfolding job_enqueue_def by (rule follows_in_tx [OF a])
  have "jobs_follow s (update_job i (\<lambda>j. j\<lparr>j_state := JCancelled\<rparr>) s)"
    unfolding jobs_follow_def update_job_def
    by (intro conjI impI jobs_ok_update exI [of _ "s_jobs (update_job i (\<lambda>j. j\<lparr>j_state := JCancelled\<rparr>) s)"] exI [of _ "[]"])
      (simp_all add: update_job_def list_all2_update_rows job_kept_def)
  then show "fabric_follows s (snd (job_cancel i s))"
    by (simp add: job_cancel_def set_job_def fabric_follows_def same_bus_def threads_kept_same jobs_follow_same update_job_def)
qed

lemma follows_threads:
  "fabric_follows s (snd (thread_insert t s))" "fabric_follows s (snd (thread_transition now i st s))"
proof -
  have "same_bus s (snd (thread_insert t s))" "jobs_follow s (snd (thread_insert t s))"
    "same_bus s (snd (thread_transition now i st s))" "jobs_follow s (snd (thread_transition now i st s))"
    by (simp_all add: thread_insert_def thread_transition_def same_bus_def update_thread_def jobs_follow_same split: option.split)
  then show "fabric_follows s (snd (thread_insert t s))" "fabric_follows s (snd (thread_transition now i st s))"
    unfolding fabric_follows_def by (simp_all add: threads_kept_step thread_step.intros)
qed

lemma follows_spawn_inner: "fabric_follows s (snd (spawn_inner now tid jid req th cap s))"
proof -
  have "fabric_follows s (s\<lparr>s_cell_locks := x, s_spawn_requests := y\<rparr>)" "fabric_follows s (s\<lparr>s_cell_locks := x\<rparr>)"
    "fabric_follows s (s\<lparr>s_spawn_requests := y\<rparr>)" for x y
    by (simp_all add: fabric_follows_def same_bus_def jobs_follow_same threads_kept_same)
  moreover have "fabric_follows s (snd (bind_res (thread_insert th s1) (\<lambda>_ s2. bind_res
      (job_enqueue_inner now jid tid c p cap s2) (\<lambda>_ s3. (Inr th, s3)))))" if "fabric_follows s s1" for s1 c p
    using that by (intro follows_bind follows_trans [OF that follows_threads(1)]) (simp_all add: follows_jobs)
  ultimately show ?thesis by (simp add: spawn_inner_def Let_def)
qed

lemma spawn_frame:
  assumes "spawn_idempotent now tid jid req eng mo pr cwd wt cap (s, l) = (r, (s', l'))"
  shows "fabric_follows s s' \<and> (\<exists>es. al_events l' = al_events l @ es)"
proof -
  let ?in = "in_tx (spawn_inner now tid jid req (spawning_thread now tid req eng mo pr cwd wt) cap)"
  obtain ra ca where a: "audit_to (spawn_draft req eng) (s, l) = (ra, ca)" by (metis prod.exhaust)
  have "fabric_follows s (snd (?in s))" by (rule follows_in_tx [OF follows_spawn_inner])
  then show ?thesis
    using assms audit_to_cases [OF a]
    by (cases ca) (auto simp: spawn_idempotent_def a split: sum.splits option.splits prod.splits)
qed

lemma edit_fabric:
  assumes "edits A C sender d0 d" "fabric_follows (dm_store d) s" "\<exists>es. al_events l = al_events (dm_log d) @ es"
  shows "edits A C sender d0 (d\<lparr>dm_core := (s, l)\<rparr>)"
  using assms by (intro edit_once [OF assms(1)] fabric) (auto simp: audit_grows_def)

lemma edit_on_store:
  "edits A C sender d0 d \<Longrightarrow> fabric_follows (dm_store d) (snd (f (dm_store d))) \<Longrightarrow> edits A C sender d0 (snd (on_store f d))"
  by (cases "f (dm_store d)") (simp add: on_store_def set_store_def edit_fabric)

lemma edit_spawn: "edits A C sender d0 d \<Longrightarrow> edits A C sender d0 (snd (handle_spawn C sender params d))"
proof -
  have core: "edits A C sender d0 (snd (on_core (spawn_idempotent now tid jid req eng mo pr cwd wt cap) d))"
    if "edits A C sender d0 d" for now tid jid req eng mo pr cwd wt cap d
  proof -
    obtain r s l where p: "spawn_idempotent now tid jid req eng mo pr cwd wt cap (dm_store d, dm_log d) = (r, (s, l))"
      by (metis prod.exhaust)
    from spawn_frame [OF p] p that show ?thesis by (simp add: on_core_def edit_fabric)
  qed
  assume "edits A C sender d0 d"
  then show ?thesis
    unfolding handle_spawn_def Let_def
    by (intro after_require; assumption?)
      (auto intro!: after_require after_bind core split: prod.split)
qed

lemma edit_send_task: "edits A C sender d0 d \<Longrightarrow> edits A C sender d0 (snd (handle_send_task C sender params d))"
  unfolding handle_send_task_def
  by (intro after_require; assumption?)
    (auto intro!: after_bind edit_on_store follows_jobs split: option.split)

lemma cancel_jobs_follows: "fabric_follows s (snd (cancel_jobs js n s))"
proof (induction js n s rule: cancel_jobs.induct)
  case (2 j js n s)
  show ?case
  proof (cases "job_active j")
    case True
    obtain r s1 where c: "job_cancel (j_job_id j) s = (r, s1)" by (metis prod.exhaust)
    have "fabric_follows s s1" using follows_jobs(3) [of s "j_job_id j"] by (simp add: c)
    then show ?thesis using 2(1) [OF True] by (cases r) (auto simp: True c intro: follows_trans)
  qed (simp add: 2(2))
qed simp

lemma cancel_thread_follows: "fabric_follows s (snd (cancel_thread C t s))"
  unfolding cancel_thread_def
  by (intro follows_bind cancel_jobs_follows) (auto intro: follows_bind follows_threads)

lemma on_store_acl: "on_store f d = (r, d') \<Longrightarrow> dm_acl d' = dm_acl d"
  by (auto simp: on_store_def split: prod.splits)

lemma edit_cancel: "edits A C sender d0 d \<Longrightarrow> dm_acl d \<in> A \<Longrightarrow> edits A C sender d0 (snd (handle_cancel C sender params d))"
proof -
  have sig: "edits A C sender d0 d \<Longrightarrow> dm_acl d \<in> A \<Longrightarrow> acl_check (dm_acl d) sender CSpawn = Inr () \<Longrightarrow>
      edits A C sender d0 (d\<lparr>dm_cancels := dm_cancels d @ [c]\<rparr>)" for d c
    by (erule edit_once) (rule signal_cancel)
  assume "edits A C sender d0 d" "dm_acl d \<in> A"
  then show ?thesis
    unfolding handle_cancel_def
    by (intro after_require; assumption?)
      (auto intro!: after_require after_bind edit_on_store edit_audit cancel_thread_follows sig
        dest!: on_store_acl audit_dm_store split: option.split)
qed

lemma edit_inbox: "edits A C sender d0 d \<Longrightarrow> dm_acl d \<in> A \<Longrightarrow> edits A C sender d0 (snd (handle_inbox C sender params d))"
proof -
  have "edits A C sender d0 (set_store s d)"
    if "edits A C sender d0 d" "dm_acl d \<in> A" "acl_check (dm_acl d) sender CReadInbox = Inr ()" "inbox sender n (dm_store d) = (x, s)" for x s n
    using edit_once [OF that(1) pull [OF that(2,3), of C _ n]] that(4) by simp
  then show "edits A C sender d0 d \<Longrightarrow> dm_acl d \<in> A \<Longrightarrow> ?thesis"
    unfolding handle_inbox_def by (intro after_require; assumption?) (auto split: prod.split)
qed

lemma edit_reads:
  assumes "edits A C sender d0 d"
  shows "edits A C sender d0 (snd (handle_list C sender params d))"
    "edits A C sender d0 (snd (handle_status C sender params d))"
    "edits A C sender d0 (snd (handle_result C sender params d))"
    "edits A C sender d0 (snd (handle_report_tool_correlation C sender params d))"
    "edits A C sender d0 (snd (handle_op_status C sender params d))"
    "edits A C sender d0 (snd (handle_op_inspect C sender params d))"
    "edits A C sender d0 (snd (handle_op_audit_verify C sender params d))"
  using assms
  unfolding handle_list_def handle_status_def handle_result_def handle_report_tool_correlation_def
    handle_op_status_def handle_op_inspect_def handle_op_audit_verify_def
  by (intro after_require; simp; auto intro!: after_require after_bind edit_audit split: option.split)+

section \<open>Requests\<close>

lemma edit_handler:
  "map_of handlers m = Some h \<Longrightarrow> edits A C sender d0 d \<Longrightarrow> fresh_ids C d \<Longrightarrow> dm_acl d \<in> A \<Longrightarrow> edits A C sender d0 (snd (h C sender params d))"
  by (auto simp: handlers_def split: if_splits
      intro: edit_send edit_ask edit_reply edit_inbox edit_reads edit_broadcast edit_spawn edit_send_task edit_cancel)

text \<open>A suspended await has activated the edge from the caller to the responder of its own pending ask;
  one that answers at once or is refused leaves the graph alone.\<close>

lemma await_begin_cases:
  assumes "await_begin sender params d = (r, d')"
  obtains (answer) "\<And>A. edits A C sender d d'" "dm_graph d' = dm_graph d" "\<nexists>a g. r = Inr (AwaitWait a g)"
  | (wait) a gd g where "r = Inr (AwaitWait a gd)" "d' = d\<lparr>dm_graph := g\<rparr>" "a_from_cell a = sender"
      "get_ask (a_ask_id a) (dm_store d) = Some a" "a_state a = APending"
      "try_activate_await (dm_graph d) sender (a_to_cell a) = (Inr gd, g)"
proof (cases "\<exists>a g. r = Inr (AwaitWait a g)")
  case True
  then obtain a gd where r: "r = Inr (AwaitWait a gd)" by blast
  have id: "get_ask i (dm_store d) = Some b \<Longrightarrow> get_ask (a_ask_id b) (dm_store d) = Some b" for i b
    by (auto simp: get_ask_def dest: find_Some_in)
  have "d' = d\<lparr>dm_graph := dm_graph d'\<rparr> \<and> a_from_cell a = sender \<and>
      get_ask (a_ask_id a) (dm_store d) = Some a \<and> a_state a = APending \<and>
      try_activate_await (dm_graph d) sender (a_to_cell a) = (Inr gd, dm_graph d')"
    using assms unfolding r await_begin_def
    by (cases "a_state a") (auto simp: require_def bind_res_def dest: id
        split: sum.splits option.splits if_splits prod.splits)
  then show ?thesis using wait [OF r, of "dm_graph d'"] by blast
next
  case False
  have den: "edits A C s d d1 \<and> dm_graph d1 = dm_graph d"
    if "try_activate_await (dm_graph d) b t = (Inl e, g)"
      "bind_res (audit_dm dr (d\<lparr>dm_graph := g\<rparr>)) (\<lambda>_ d. (Inl e', d)) = (x, d1)" for A s b t e g dr x d1 and e' :: bus_error
  proof -
    have "g = dm_graph d" using that(1) by (auto simp: try_activate_await_def split: option.splits)
    moreover obtain y d2 where a: "audit_dm dr d = (y, d2)" by (metis prod.exhaust)
    ultimately show ?thesis using that(2) audit_dm_frame [OF a] record_event [OF a] by (cases y) auto
  qed
  have "edits A C sender d d' \<and> dm_graph d' = dm_graph d" for A
    using assms False unfolding await_begin_def
    by (auto simp: require_def dest: den split: sum.splits option.splits if_splits prod.splits)
  with False answer show ?thesis by blast
qed

lemma dispatch_refines_protocol_aux:
  assumes "fresh_ids C d"
  shows "case dispatch C who req d of
      (Respond r, d') \<Rightarrow> edits {dm_acl d} C (pr_cell_id who) d d'
    | (Suspended i a gd, d') \<Rightarrow> d' = d\<lparr>dm_graph := dm_graph d'\<rparr> \<and> a_from_cell a = pr_cell_id who \<and>
        get_ask (a_ask_id a) (dm_store d) = Some a \<and> a_state a = APending \<and>
        try_activate_await (dm_graph d) (pr_cell_id who) (a_to_cell a) = (Inr gd, dm_graph d')"
proof (cases "wq_method req = ''cell_await''")
  case True
  obtain r d' where a: "await_begin (pr_cell_id who) (wq_params req) d = (r, d')" by (metis prod.exhaust)
  from a show ?thesis
    by (cases rule: await_begin_cases [where C = C])
      (auto simp: dispatch_def Let_def True a split: sum.splits await_start.splits)
next
  case False
  then show ?thesis
    using edit_handler [OF _ rtranclp.rtrancl_refl assms, of "wq_method req" _ "{dm_acl d}"]
    by (auto simp: dispatch_def Let_def split: option.splits prod.splits) (metis snd_conv)
qed

section \<open>An example request\<close>

definition example_ctx :: request_ctx where
  "example_ctx = \<lparr>rc_codec = \<lparr>cd_sha = map of_char, cd_esc = id, cd_num = (\<lambda>_. []), cd_ser = (\<lambda>_. []), cd_parse = (\<lambda>_. None)\<rparr>,
     rc_now = 0, rc_now_ms = 0, rc_key = ''k0'', rc_message_id = ''m1'', rc_ask_id = ''q1'',
     rc_thread_id = ''t1'', rc_job_id = ''j1'', rc_cell_uuid = ''u1'', rc_audit_file = Absent, rc_head_hash = []\<rparr>"

definition example_daemon :: daemon where
  "example_daemon = \<lparr>dm_core = (empty_store, \<lparr>al_events = [], al_faults = []\<rparr>), dm_acl = example_acl,
     dm_quota = quota_new default_quota_config, dm_graph = \<lparr>wg_edges = []\<rparr>, dm_wakers = [], dm_cancels = [],
     dm_revoked = {}, dm_cfg = \<lparr>cf_runtime_dir = [], cf_acl_path = [], cf_lease_secs = 30, cf_max_attempts = 10,
       cf_backoff_base_secs = 1, cf_backoff_cap_secs = 60, cf_keys_env_path = None, cf_profiles = Map.empty\<rparr>\<rparr>"

definition example_params :: json where
  "example_params = JObj [(''to_cell'', JStr ''audit''), (''body'', JStr ''hi''), (''idempotency_key'', JStr ''k'')]"

lemma parse_example: "parse_send example_params = Inr \<lparr>snd_to_cell = ''audit'', snd_body = ''hi'', snd_file_refs = [],
    snd_idempotency_key = Some ''k'', snd_ttl_seconds = None, snd_msg_type = None\<rparr>"
  by (simp add: parse_send_def example_params_def struct_fields_def field_str_def field_strs_def field_opt_str_def
      field_opt_uint_def field_opt_msg_type_def)

lemma example_sel [simp]:
  "dm_core example_daemon = (empty_store, \<lparr>al_events = [], al_faults = []\<rparr>)" "dm_acl example_daemon = example_acl"
  "dm_quota example_daemon = quota_new default_quota_config" "dm_graph example_daemon = \<lparr>wg_edges = []\<rparr>"
  "dm_revoked example_daemon = {}"
  "rc_now example_ctx = 0" "rc_now_ms example_ctx = 0" "rc_message_id example_ctx = ''m1''" "rc_ask_id example_ctx = ''q1''"
  by (simp_all add: example_daemon_def example_ctx_def)

lemma example_rights:
  "acl_check example_acl ''dev'' CSend = Inr ()" "is_registered example_acl ''audit''"
  "check_reach example_acl ''dev'' ''audit'' ViaSend = Inr ()"
  by (simp_all add: example_acl_def acl_check_def is_registered_def check_reach_def is_protected_def)

lemma example_admitted:
  "\<exists>q. admit_outbound 0 ''dev'' ''audit'' CSend (Suc 0) example_daemon = (Inr (), example_daemon\<lparr>dm_quota := q\<rparr>)"
  by (auto simp: admit_outbound_def check_queue_depth_def pending_deliveries_count_def admit_rate_def
      note_and_check_sender_def note_and_check_capability_def capability_ceiling_def or_default_def
      quota_new_def default_quota_config_def Let_def)

lemma example_send:
  "\<exists>d. handle_send example_ctx ''dev'' example_params example_daemon = (Inr (enqueued_json ''m1''), d) \<and>
     s_deliveries (dm_store d) = [\<lparr>d_envelope_id = ''m1'', d_recipient = ''audit'', d_state = DQueued, d_attempts = 0,
         d_lease_until = None, d_next_retry_at = 0\<rparr>]"
proof -
  obtain q where q: "admit_outbound 0 ''dev'' ''audit'' CSend (Suc 0) example_daemon = (Inr (), example_daemon\<lparr>dm_quota := q\<rparr>)"
    using example_admitted by blast
  have r: "reject_client_identity_keys [] example_params = Inr ()"
    by (simp add: reject_client_identity_keys_def example_params_def FORBIDDEN_def)
  show ?thesis
    by (simp add: handle_send_def parse_example r Let_def or_value_def check_msg_type_def authorize_outbound_def
        example_rights check_idem_def check_body_def MAX_IDEMPOTENCY_KEY_BYTES_def MAX_BODY_BYTES_def check_attach_def q
        persist_send_def dedupe_lookup_def next_seq_def audit_dm_def audit_to_def audit_emit_def assert_kind_def
        AUDIT_KINDS_def mk_draft_def set_store_def insert_envelope_def insert_delivery_def dedupe_insert_def
        replace_row_def build_envelope_with_caps_def build_envelope_def)
qed

definition example_request :: wire_request where
  "example_request = \<lparr>wq_id = 1, wq_method = ''cell_send'', wq_params = example_params\<rparr>"

definition example_who :: cell_principal where
  "example_who = \<lparr>pr_cell_id = ''dev'', pr_auth_level = L0Token, pr_unix_uid = Some 0, pr_unix_gid = Some 0, pr_pid = None,
     pr_pidfd_supported = False, pr_token_id = Some (hex_encode [7])\<rparr>"

lemma example_who_sel [simp]: "pr_cell_id example_who = ''dev''" "pr_token_id example_who = Some (hex_encode [7])"
  by (simp_all add: example_who_def)

lemma example_dispatch:
  "\<exists>d. dispatch example_ctx example_who example_request example_daemon = (Respond (wire_ok 1 (enqueued_json ''m1'')), d) \<and>
     s_deliveries (dm_store d) = [\<lparr>d_envelope_id = ''m1'', d_recipient = ''audit'', d_state = DQueued, d_attempts = 0,
         d_lease_until = None, d_next_retry_at = 0\<rparr>]"
  using example_send by (auto simp: dispatch_def example_request_def handlers_def respond_def Let_def)

lemma example_fresh: "fresh_ids example_ctx example_daemon"
  by (simp add: fresh_ids_def get_envelope_def get_ask_def)

section \<open>Refinement\<close>

text \<open>C1: every request refines the bus protocol: whatever its method, parameters and outcome, and
  wherever an audit append fails on the way, what \<open>dispatch\<close> does to the daemon is a sequence of
  protocol edits by the authenticated cell, which mint envelopes only under its own name and
  rights, make messages consumable only after their audit event, and answer only asks addressed
  to it.  A request that suspends has done nothing but activate the edge of its own pending ask.\<close>

theorem dispatch_refines_protocol:
  assumes "fresh_ids C d"
  shows "case dispatch C who req d of
      (Respond r, d') \<Rightarrow> edits {dm_acl d} C (pr_cell_id who) d d'
    | (Suspended i a gd, d') \<Rightarrow> d' = d\<lparr>dm_graph := dm_graph d'\<rparr> \<and> a_from_cell a = pr_cell_id who \<and>
        get_ask (a_ask_id a) (dm_store d) = Some a \<and> a_state a = APending \<and>
        try_activate_await (dm_graph d) (pr_cell_id who) (a_to_cell a) = (Inr gd, dm_graph d')"
  by (rule dispatch_refines_protocol_aux [OF assms])

theorem dispatch_refines_protocol_witness:
  "\<exists>r d. dispatch example_ctx example_who example_request example_daemon = (Respond r, d) \<and>
     edits {dm_acl example_daemon} example_ctx ''dev'' example_daemon d \<and> length (s_deliveries (dm_store d)) = 1"
  using example_dispatch dispatch_refines_protocol [OF example_fresh, of example_who example_request] by auto

end
