(* ===== verification/Delivery.thy ===== *)
theory Delivery
  imports Handlers
begin

text \<open>
  The delivery loop (\<open>delivery.rs\<close>).  The code takes the store lock once per phase and once per
  outcome, so each is a step of its own; \<open>tick\<close> composes them.  The adapters are a parameter: an
  adapter that does not answer within the timeout, or panics, gives \<open>None\<close>.
\<close>

type_synonym adapter = "envelope \<Rightarrow> delivery_outcome option"

definition expire_one_ask :: "string \<Rightarrow> daemon \<Rightarrow> daemon" where
  "expire_one_ask i d =
    notify i (audit_best_effort (mk_draft ''ask_expired'' None None None ''expired''
      (Some (JObj [(''ask_id'', JStr i)]))) d)"

definition tick_asks :: "nat \<Rightarrow> daemon \<Rightarrow> daemon" where
  "tick_asks now d =
    (case expire_asks_due (now_rfc3339 now) (dm_store d) of
      (ids, s) \<Rightarrow> fold expire_one_ask ids (set_store s d))"

definition tick_deliveries :: "nat \<Rightarrow> daemon \<Rightarrow> daemon" where
  "tick_deliveries now d =
    (case expire_due (now_rfc3339 now) (dm_store d) of
      (out, s) \<Rightarrow> fold (\<lambda>(mid, rec). audit_best_effort
          (mk_draft ''expired'' (Some mid) None (Some rec) ''expired'' None)) out (set_store s d))"

definition tick_claim :: "nat \<Rightarrow> daemon \<Rightarrow> (envelope \<times> string) list \<times> daemon" where
  "tick_claim now d =
    (case claim_due (int now) (int (cf_lease_secs (dm_cfg d))) 50 (dm_store d) of
      (out, s) \<Rightarrow> (out, set_store s d))"

definition deliver_with_timeout :: "adapter \<Rightarrow> envelope \<Rightarrow> delivery_outcome" where
  "deliver_with_timeout a env = (case a env of Some out \<Rightarrow> out | None \<Rightarrow> ONotReady)"

definition apply_outcome ::
  "nat \<Rightarrow> int \<Rightarrow> string \<Rightarrow> string \<Rightarrow> delivery_outcome \<Rightarrow> daemon \<Rightarrow> daemon" where
  "apply_outcome now jitter mid rec out d =
    (let moved = (case transition mid rec (outcome_to_state out) (dm_store d) of (_, s) \<Rightarrow> set_store s d) in
     case out of
       ODelivered \<Rightarrow> audit_best_effort (mk_draft ''delivered'' (Some mid) None (Some rec) ''ok'' None) moved
     | OAcked \<Rightarrow> audit_best_effort (mk_draft ''delivered'' (Some mid) None (Some rec) ''ok'' None) moved
     | OPermanentFailure \<Rightarrow>
         audit_best_effort (mk_draft ''delivery_failed'' (Some mid) None (Some rec) ''failed'' None) moved
     | OTransientFailure \<Rightarrow>
         (case record_attempt_failure now jitter mid rec (cf_max_attempts (dm_cfg d))
            (cf_backoff_base_secs (dm_cfg d)) (cf_backoff_cap_secs (dm_cfg d)) (dm_store d) of
           (exhausted, s) \<Rightarrow>
             if exhausted = Inr True
             then audit_best_effort (mk_draft ''delivery_failed'' (Some mid) None (Some rec) ''failed'' None)
               (set_store s d)
             else set_store s d)
     | ONotReady \<Rightarrow> d)"

definition deliver_one ::
  "nat \<Rightarrow> int \<Rightarrow> (string \<Rightarrow> adapter option) \<Rightarrow> envelope \<times> string \<Rightarrow> daemon \<Rightarrow> daemon" where
  "deliver_one now jitter adapters = (\<lambda>(env, rec).
    apply_outcome now jitter (e_message_id env) rec
      (case adapters rec of Some a \<Rightarrow> deliver_with_timeout a env | None \<Rightarrow> ONotReady))"

definition tick :: "nat \<Rightarrow> int \<Rightarrow> (string \<Rightarrow> adapter option) \<Rightarrow> daemon \<Rightarrow> daemon" where
  "tick now jitter adapters d =
    (case tick_claim now (tick_deliveries now (tick_asks now d)) of
      (claimed, d) \<Rightarrow> fold (deliver_one now jitter adapters) claimed d)"

section \<open>The scripted adapter\<close>

text \<open>\<open>FakeAdapter\<close> of \<open>adapter.rs\<close>: its outcomes come from a script, then it delivers.\<close>

record fake_adapter =
  fa_script :: "delivery_outcome list"
  fa_delivered :: "envelope list"
  fa_attempts :: nat

definition fake_adapter_new :: fake_adapter where
  "fake_adapter_new = \<lparr>fa_script = [], fa_delivered = [], fa_attempts = 0\<rparr>"

definition push_script :: "delivery_outcome \<Rightarrow> fake_adapter \<Rightarrow> fake_adapter" where
  "push_script out a = a\<lparr>fa_script := fa_script a @ [out]\<rparr>"

definition fake_deliver :: "envelope \<Rightarrow> fake_adapter \<Rightarrow> delivery_outcome \<times> fake_adapter" where
  "fake_deliver e a =
    (let (out, rest) = (case fa_script a of [] \<Rightarrow> (ODelivered, []) | x # xs \<Rightarrow> (x, xs))
     in (out, a\<lparr>fa_script := rest, fa_attempts := fa_attempts a + 1,
                fa_delivered := fa_delivered a @ (if out \<in> {ODelivered, OAcked} then [e] else [])\<rparr>))"

fun fake_outcomes :: "envelope list \<Rightarrow> fake_adapter \<Rightarrow> delivery_outcome list" where
  "fake_outcomes [] a = []"
| "fake_outcomes (e # es) a = (case fake_deliver e a of (out, a) \<Rightarrow> out # fake_outcomes es a)"

text \<open>The script is played in order, then every delivery succeeds.\<close>

lemma fake_outcomes_script:
  "fake_outcomes es a = take (length es) (fa_script a) @ replicate (length es - length (fa_script a)) ODelivered"
  by (induction es arbitrary: a) (auto simp: fake_deliver_def split: list.split)

end
