(* ===== verification/BusInvariant.thy ===== *)
theory BusInvariant
  imports Protocol Delivery
begin

text \<open>
  The invariant of the bus tables and the log, kept by every edit of the protocol and by every
  step of the delivery loop.
\<close>

section \<open>Messages stay\<close>

definition extends :: "daemon \<Rightarrow> daemon \<Rightarrow> bool" where
  "extends d d' \<longleftrightarrow> audit_grows d d' \<and>
    (\<forall>m e. get_envelope m (dm_store d) = Some e \<longrightarrow> get_envelope m (dm_store d') = Some e)"

lemma extendsI:
  "audit_grows d d' \<Longrightarrow> (\<And>m e. get_envelope m (dm_store d) = Some e \<Longrightarrow> get_envelope m (dm_store d') = Some e) \<Longrightarrow>
   extends d d'"
  by (simp add: extends_def)

lemma extends_refl [simp]: "extends d d"
  by (simp add: extends_def)

lemma extends_trans: "extends a b \<Longrightarrow> extends b c \<Longrightarrow> extends a c"
  by (auto simp: extends_def intro: audit_grows_trans)

lemma same_log_grows [simp]: "audit_grows d (set_store s d)" "audit_grows d (d\<lparr>dm_quota := q\<rparr>)"
  "audit_grows d (notify i d)" "audit_grows d (d\<lparr>dm_cancels := c\<rparr>)" "audit_grows d (d\<lparr>dm_graph := g\<rparr>)"
  "audit_grows d (d\<lparr>dm_acl := a\<rparr>)" "audit_grows d (d\<lparr>dm_wakers := w\<rparr>)" "audit_grows d (d\<lparr>dm_revoked := v\<rparr>)"
  by (simp_all add: audit_grows_def notify_def)

lemma get_envelope_mint:
  "get_envelope (e_message_id e) s = None \<Longrightarrow> get_envelope m s = Some x \<Longrightarrow>
   get_envelope m (insert_envelope e s) = Some x"
  unfolding get_envelope_def insert_envelope_def
  by (cases "m = e_message_id e") (simp_all add: find_replace_row_other [where key = e_message_id])

lemma inbox_frame:
  "s_envelopes (snd (inbox r n s)) = s_envelopes s" "s_asks (snd (inbox r n s)) = s_asks s"
  "s_dedupe (snd (inbox r n s)) = s_dedupe s"
  "map delivery_key (s_deliveries (snd (inbox r n s))) = map delivery_key (s_deliveries s)"
  by (simp_all add: inbox_eq Let_def map_update_rows_inv)

lemma edit_extends: "bus_edit A C sender d d' \<Longrightarrow> extends d d'"
proof (induction rule: bus_edit.induct)
  case (record_event dr d r d')
  then show ?case using audit_dm_store by (auto simp: extends_def)
next
  case (mint d e)
  then show ?case by (intro extendsI) (auto intro: get_envelope_mint)
next
  case (fabric d s l)
  then show ?case by (auto simp: extends_def fabric_follows_def same_bus_def get_envelope_def)
next
  case (pull a d n)
  then show ?case by (auto simp: extends_def get_envelope_def inbox_frame)
qed (auto simp: extends_def notify_def)

lemma edits_extend: "edits A C sender d d' \<Longrightarrow> extends d d'"
  by (induction rule: rtranclp_induct) (auto intro: extends_trans edit_extends)

section \<open>The invariant\<close>

text \<open>A stored message with a durable event and the given property.\<close>

definition message :: "daemon \<Rightarrow> string \<Rightarrow> (envelope \<Rightarrow> bool) \<Rightarrow> bool" where
  "message d m P \<longleftrightarrow> (\<exists>e. get_envelope m (dm_store d) = Some e \<and> P e) \<and> published m d"

definition delivery_sound :: "daemon \<Rightarrow> string \<times> string \<Rightarrow> bool" where
  "delivery_sound d k \<longleftrightarrow> message d (fst k) (\<lambda>e. e_to_cell e = None \<or> e_to_cell e = Some (snd k))"

definition ask_opened :: "daemon \<Rightarrow> ask_row \<Rightarrow> bool" where
  "ask_opened d a \<longleftrightarrow> message d (a_message_id a) (\<lambda>e. e_kind e = Ask \<and> e_from_cell e = a_from_cell a \<and>
     e_to_cell e = Some (a_to_cell a) \<and> e_ask_id e = Some (a_ask_id a))"

definition ask_answer :: "daemon \<Rightarrow> ask_row \<Rightarrow> bool" where
  "ask_answer d a \<longleftrightarrow> (\<exists>m. a_reply_message_id a = Some m \<and> message d m (\<lambda>e. e_kind e = Reply \<and>
     e_from_cell e = a_to_cell a \<and> e_to_cell e = Some (a_from_cell a) \<and> e_ask_id e = Some (a_ask_id a)))"

definition ask_sound :: "daemon \<Rightarrow> ask_row \<Rightarrow> bool" where
  "ask_sound d a \<longleftrightarrow> ask_opened d a \<and> (a_state a = AAnswered \<longrightarrow> ask_answer d a)"

definition dedupe_sound :: "daemon \<Rightarrow> dedupe_row \<Rightarrow> bool" where
  "dedupe_sound d r \<longleftrightarrow> message d (dd_message_id r) (\<lambda>e. e_from_cell e = dd_from_cell r)"

definition bus_sound :: "daemon \<Rightarrow> bool" where
  "bus_sound d \<longleftrightarrow>
    (\<forall>e \<in> set (s_envelopes (dm_store d)). validate_invariants e = Inr ()) \<and>
    (\<forall>r \<in> set (s_deliveries (dm_store d)). delivery_sound d (delivery_key r)) \<and>
    (\<forall>a \<in> set (s_asks (dm_store d)). ask_sound d a) \<and> distinct (map a_ask_id (s_asks (dm_store d))) \<and>
    (\<forall>r \<in> set (s_dedupe (dm_store d)). dedupe_sound d r)"

named_theorems sound_mono \<open>what stays true of a message\<close>

lemma message_mono: "extends d d' \<Longrightarrow> message d m P \<Longrightarrow> message d' m P"
  by (auto simp: message_def extends_def intro: published_mono)

lemma message_imp: "message d m P \<Longrightarrow> (\<And>e. P e \<Longrightarrow> Q e) \<Longrightarrow> message d m Q"
  by (auto simp: message_def)

lemma sounds_mono [sound_mono]:
  assumes "extends d d'"
  shows "delivery_sound d k \<Longrightarrow> delivery_sound d' k" "ask_opened d a \<Longrightarrow> ask_opened d' a"
    "ask_answer d a \<Longrightarrow> ask_answer d' a" "ask_sound d a \<Longrightarrow> ask_sound d' a" "dedupe_sound d r \<Longrightarrow> dedupe_sound d' r"
  using message_mono [OF assms] unfolding delivery_sound_def ask_opened_def ask_answer_def ask_sound_def dedupe_sound_def
  by blast+

text \<open>A step that adds no row and changes no ask keeps the invariant.\<close>

lemma bus_sound_frame:
  assumes "bus_sound d" "extends d d'" "s_envelopes (dm_store d') = s_envelopes (dm_store d)"
    "set (map delivery_key (s_deliveries (dm_store d'))) \<subseteq> set (map delivery_key (s_deliveries (dm_store d)))"
    "s_asks (dm_store d') = s_asks (dm_store d)" "s_dedupe (dm_store d') = s_dedupe (dm_store d)"
  shows "bus_sound d'"
proof -
  have "delivery_sound d' (delivery_key r)" if r: "r \<in> set (s_deliveries (dm_store d'))" for r
  proof -
    from assms(4) r obtain r0 where "r0 \<in> set (s_deliveries (dm_store d))" "delivery_key r = delivery_key r0"
      by fastforce
    then have "delivery_sound d (delivery_key r)" using assms(1) by (simp add: bus_sound_def)
    then show ?thesis by (rule sounds_mono(1) [OF assms(2)])
  qed
  moreover have "\<forall>a \<in> set (s_asks (dm_store d')). ask_sound d' a" "\<forall>r \<in> set (s_dedupe (dm_store d')). dedupe_sound d' r"
    using assms(1,5,6) sounds_mono(4,5) [OF assms(2)] unfolding bus_sound_def by simp_all
  ultimately show ?thesis using assms(1,3,5) unfolding bus_sound_def by simp
qed

lemma next_seq_frame:
  "s_envelopes (snd (next_seq f t s)) = s_envelopes s" "s_asks (snd (next_seq f t s)) = s_asks s"
  "s_dedupe (snd (next_seq f t s)) = s_dedupe s" "s_deliveries (snd (next_seq f t s)) = s_deliveries s"
  by (simp_all add: next_seq_def Let_def split: option.split)

lemma edit_sound: "bus_edit A C sender d d' \<Longrightarrow> bus_sound d \<Longrightarrow> bus_sound d'"
proof (induction rule: bus_edit.induct)
  case (record_event dr d r d')
  have "dm_store d' = dm_store d" using audit_dm_store [OF record_event(1)] by blast
  then show ?case
    by (intro bus_sound_frame [OF record_event(2) edit_extends [OF bus_edit.record_event [OF record_event(1)]]])
      simp_all
next
  case (charge_quota d q)
  then show ?case by (rule bus_sound_frame) (simp_all add: extends_def)
next
  case (take_number d t)
  then show ?case by (rule bus_sound_frame) (simp_all add: extends_def next_seq_frame)
next
  case (mint d e)
  from edit_extends [OF bus_edit.mint [OF mint(1-7)]]
  have x: "extends d (set_store (insert_envelope e (dm_store d)) d)" .
  show ?case
    using mint(6,8) sounds_mono [OF x]
    by (auto simp: bus_sound_def insert_envelope_def set_replace_row)
next
  case (make_deliverable d e rec)
  have x: "extends d (set_store (insert_delivery (rc_message_id C) rec (dm_store d)) d)"
    by (rule edit_extends [OF bus_edit.make_deliverable [OF make_deliverable(1-4)]])
  have "delivery_sound d (rc_message_id C, rec)"
    using make_deliverable(1-4) by (auto simp: delivery_sound_def message_def addressed_def split: option.splits)
  with sounds_mono [OF x] make_deliverable(5) show ?case
    by (auto simp: bus_sound_def insert_delivery_def set_replace_row delivery_key_def)
next
  case (open_ask d e t x)
  let ?d = "set_store (insert_ask (rc_ask_id C) (rc_message_id C) sender t x (dm_store d)) d"
  have x: "extends d ?d" by (rule edit_extends [OF bus_edit.open_ask [OF open_ask(1-7)]])
  have n: "rc_ask_id C \<notin> set (map a_ask_id (s_asks (dm_store d)))"
    using open_ask(1) by (auto simp: get_ask_def find_None_iff)
  then have "filter (\<lambda>r. a_ask_id r \<noteq> rc_ask_id C) (s_asks (dm_store d)) = s_asks (dm_store d)"
    by (force intro: filter_True simp: image_iff)
  moreover have "ask_sound ?d \<lparr>a_ask_id = rc_ask_id C, a_message_id = rc_message_id C, a_from_cell = sender,
      a_to_cell = t, a_expires_at = x, a_state = APending, a_reply_message_id = None, a_reply_body_sha256 = None\<rparr>"
    using open_ask(2-7) by (simp add: ask_sound_def ask_opened_def message_def)
  ultimately show ?case
    using open_ask(8) n sounds_mono [OF x]
    by (auto simp: bus_sound_def insert_ask_def replace_row_def)
next
  case (answer i d a e)
  let ?d = "set_store (commit_reply (body_sha256 C) i e (dm_store d)) d"
  have x: "extends d ?d" by (rule edit_extends [OF bus_edit.answer [OF answer(1-9)]])
  have id: "a_ask_id a = i" "a \<in> set (s_asks (dm_store d))"
    using answer(1) by (auto simp: get_ask_def dest: find_Some_in)
  have m: "e_message_id e = rc_message_id C" using answer(4) by (rule get_envelope_id)
  have same: "b = a" if "b \<in> set (s_asks (dm_store d))" "a_ask_id b = i" for b
    using that id answer(10) by (auto simp: bus_sound_def distinct_map inj_on_def)
  have "ask_sound ?d (a\<lparr>a_state := AAnswered, a_reply_message_id := Some (e_message_id e),
      a_reply_body_sha256 := Some (body_sha256 C (e_body e))\<rparr>)"
    using answer(3-9) id m sounds_mono(2) [OF x, of a] answer(10)
    by (auto simp: ask_sound_def ask_opened_def ask_answer_def message_def bus_sound_def)
  then show ?case
    using answer(10) sounds_mono [OF x] same
    by (auto simp: bus_sound_def commit_reply_def set_update_rows map_update_rows_inv)
next
  case (remember d e now key x h)
  have y: "extends d (set_store (dedupe_insert now sender key (rc_message_id C) x h (dm_store d)) d)"
    by (rule edit_extends [OF bus_edit.remember [OF remember(1-3)]])
  have "message d (rc_message_id C) (\<lambda>e. e_from_cell e = sender)"
    using remember(1-3) by (auto simp: message_def)
  from message_mono [OF y this] remember(4) sounds_mono [OF y] show ?case
    by (auto simp: bus_sound_def dedupe_insert_def set_replace_row dedupe_sound_def)
next
  case (pull a d n)
  then show ?case
    by (intro bus_sound_frame [OF pull(3) edit_extends [OF bus_edit.pull [OF pull(1,2)]]])
      (simp_all only: set_store_sel fst_conv inbox_frame order_refl)
next
  case (wake d i)
  then show ?case by (rule bus_sound_frame) (simp_all add: extends_def notify_def)
next
  case (fabric d s l)
  then show ?case
    by (intro bus_sound_frame [OF fabric(3) edit_extends [OF bus_edit.fabric [OF fabric(1,2)]]])
      (use fabric(1) in \<open>simp_all add: fabric_follows_def same_bus_def\<close>)
next
  case (signal_cancel a d cell)
  then show ?case by (intro bus_sound_frame [OF signal_cancel(3)]) (simp_all add: extends_def)
qed

lemma edits_sound: "edits A C sender d d' \<Longrightarrow> bus_sound d \<Longrightarrow> bus_sound d'"
  by (induction rule: rtranclp_induct) (auto intro: edit_sound)

section \<open>The delivery loop\<close>

text \<open>What a step of the loop touches: states of deliveries, expiry of asks, wakers and the log.\<close>

definition loop_frame :: "daemon \<Rightarrow> daemon \<Rightarrow> bool" where
  "loop_frame d d' \<longleftrightarrow> audit_grows d d' \<and> s_envelopes (dm_store d') = s_envelopes (dm_store d) \<and>
    s_dedupe (dm_store d') = s_dedupe (dm_store d) \<and> dm_graph d' = dm_graph d \<and>
    s_seq_counters (dm_store d') = s_seq_counters (dm_store d) \<and>
    s_jobs (dm_store d') = s_jobs (dm_store d) \<and> s_threads (dm_store d') = s_threads (dm_store d) \<and>
    map delivery_key (s_deliveries (dm_store d')) = map delivery_key (s_deliveries (dm_store d)) \<and>
    (\<exists>p. s_asks (dm_store d') = update_rows p (\<lambda>a. a\<lparr>a_state := AExpired\<rparr>) (s_asks (dm_store d)))"

lemma update_rows_none: "update_rows (\<lambda>_. False) f xs = xs"
  by (rule update_rows_id) simp

lemma loop_frame_asks_same:
  "audit_grows d d' \<Longrightarrow> s_envelopes (dm_store d') = s_envelopes (dm_store d) \<Longrightarrow>
   s_dedupe (dm_store d') = s_dedupe (dm_store d) \<Longrightarrow> dm_graph d' = dm_graph d \<Longrightarrow>
   map delivery_key (s_deliveries (dm_store d')) = map delivery_key (s_deliveries (dm_store d)) \<Longrightarrow>
   s_asks (dm_store d') = s_asks (dm_store d) \<Longrightarrow> s_jobs (dm_store d') = s_jobs (dm_store d) \<Longrightarrow>
   s_threads (dm_store d') = s_threads (dm_store d) \<Longrightarrow> s_seq_counters (dm_store d') = s_seq_counters (dm_store d) \<Longrightarrow> loop_frame d d'"
  unfolding loop_frame_def by (intro conjI exI [of _ "\<lambda>_. False"]) (simp_all only: update_rows_none)

lemma loop_frame_refl [simp]: "loop_frame d d"
  by (rule loop_frame_asks_same) simp_all

lemma loop_frame_trans:
  assumes "loop_frame a b" "loop_frame b c"
  shows "loop_frame a c"
proof -
  obtain p q where "s_asks (dm_store b) = update_rows p (\<lambda>a. a\<lparr>a_state := AExpired\<rparr>) (s_asks (dm_store a))"
    "s_asks (dm_store c) = update_rows q (\<lambda>a. a\<lparr>a_state := AExpired\<rparr>) (s_asks (dm_store b))"
    using assms by (auto simp: loop_frame_def)
  then have "s_asks (dm_store c) =
      update_rows (\<lambda>a. p a \<or> (q (if p a then a\<lparr>a_state := AExpired\<rparr> else a))) (\<lambda>a. a\<lparr>a_state := AExpired\<rparr>) (s_asks (dm_store a))"
    by (simp add: update_rows_map)
  with assms show ?thesis by (auto simp: loop_frame_def intro: audit_grows_trans)
qed

lemma loop_frame_audit: "loop_frame d (audit_best_effort dr d)"
proof -
  obtain r d' where a: "audit_dm dr d = (r, d')" by (metis prod.exhaust)
  with audit_dm_frame [OF a] audit_dm_quiet [of d dr] show ?thesis
    by (intro loop_frame_asks_same) (simp_all add: audit_best_effort_def bus_quiet_def)
qed

lemma loop_frame_fold: "(\<And>x d. loop_frame d (f x d)) \<Longrightarrow> loop_frame d (fold f xs d)"
  by (induction xs arbitrary: d) (auto intro: loop_frame_trans)

lemma loop_frame_notify: "loop_frame d (notify i d)"
  by (rule loop_frame_asks_same) (simp_all add: notify_def audit_grows_def)

lemma loop_frame_deliveries:
  "s_envelopes s = s_envelopes (dm_store d) \<Longrightarrow> s_dedupe s = s_dedupe (dm_store d) \<Longrightarrow>
   map delivery_key (s_deliveries s) = map delivery_key (s_deliveries (dm_store d)) \<Longrightarrow>
   s_asks s = s_asks (dm_store d) \<Longrightarrow> s_jobs s = s_jobs (dm_store d) \<Longrightarrow>
   s_threads s = s_threads (dm_store d) \<Longrightarrow> s_seq_counters s = s_seq_counters (dm_store d) \<Longrightarrow> loop_frame d (set_store s d)"
  by (rule loop_frame_asks_same) simp_all

lemma loop_frame_tick_asks: "loop_frame d (tick_asks now d)"
proof -
  have "loop_frame d (set_store (snd (expire_asks_due ts (dm_store d))) d)" for ts
    unfolding loop_frame_def expire_asks_due_eq Let_def by (auto intro!: exI)
  moreover have "loop_frame d (expire_one_ask i d)" for i d
    unfolding expire_one_ask_def by (rule loop_frame_trans [OF loop_frame_audit loop_frame_notify])
  ultimately show ?thesis
    unfolding tick_asks_def case_prod_beta by (intro loop_frame_trans [OF _ loop_frame_fold])
qed

lemma loop_frame_tick_deliveries: "loop_frame d (tick_deliveries now d)"
proof -
  have "loop_frame d (set_store (snd (expire_due ts (dm_store d))) d)" for ts
    by (rule loop_frame_deliveries) (simp_all add: expire_due_eq Let_def)
  then show ?thesis
    unfolding tick_deliveries_def case_prod_beta by (intro loop_frame_trans [OF _ loop_frame_fold] loop_frame_audit)
qed

lemma loop_frame_tick_claim: "loop_frame d (snd (tick_claim now d))"
proof -
  have "loop_frame d (set_store (snd (claim_due n l k (dm_store d))) d)" for n l k
    by (rule loop_frame_deliveries) (simp_all add: claim_due_eq release_leases_def Let_def)
  then show ?thesis by (auto simp: tick_claim_def split: prod.split) (metis snd_conv)
qed

lemma loop_frame_outcome: "loop_frame d (apply_outcome now j mid rec out d)"
proof -
  have t: "loop_frame d (set_store (snd (transition mid rec st (dm_store d))) d)" for st
    by (rule loop_frame_deliveries) (simp_all add: transition_def update_delivery_def split: option.split)
  have r: "loop_frame d (set_store (snd (record_attempt_failure now j mid rec x b c (dm_store d))) d)" for x b c
    by (rule loop_frame_deliveries) (simp_all add: record_attempt_failure_def update_delivery_def Let_def split: option.split)
  show ?thesis
    unfolding apply_outcome_def Let_def case_prod_beta
    by (cases out) (simp_all add: t r loop_frame_trans [OF t loop_frame_audit] loop_frame_trans [OF r loop_frame_audit])
qed

lemma loop_frame_tick: "loop_frame d (tick now j ad d)"
proof -
  have "loop_frame d (deliver_one now j ad x d)" for x d
    by (cases x) (simp add: deliver_one_def loop_frame_outcome)
  moreover have "loop_frame d (snd (tick_claim now (tick_deliveries now (tick_asks now d))))"
    by (rule loop_frame_trans [OF loop_frame_tick_asks loop_frame_trans [OF loop_frame_tick_deliveries
        loop_frame_tick_claim]])
  ultimately show ?thesis
    unfolding tick_def case_prod_beta by (intro loop_frame_trans [OF _ loop_frame_fold])
qed

lemma loop_sound:
  assumes "loop_frame d d'" "bus_sound d"
  shows "bus_sound d'"
proof -
  have x: "extends d d'" using assms(1) by (simp add: loop_frame_def extends_def get_envelope_def)
  obtain p where p: "s_asks (dm_store d') = update_rows p (\<lambda>a. a\<lparr>a_state := AExpired\<rparr>) (s_asks (dm_store d))"
    using assms(1) by (auto simp: loop_frame_def)
  have "ask_sound d' a" if a: "a \<in> set (s_asks (dm_store d'))" for a
  proof -
    obtain b where b: "b \<in> set (s_asks (dm_store d))" "a = b \<or> a = b\<lparr>a_state := AExpired\<rparr>"
      using a p by (auto simp: update_rows_map split: if_splits)
    have "ask_sound d b" using assms(2) b(1) by (simp add: bus_sound_def)
    then have "ask_sound d' b" by (rule sounds_mono(4) [OF x])
    with b(2) show ?thesis by (auto simp: ask_sound_def ask_opened_def)
  qed
  moreover have "distinct (map a_ask_id (s_asks (dm_store d')))"
    using assms(2) p by (simp add: bus_sound_def map_update_rows_inv)
  moreover have "delivery_sound d' (delivery_key r)" if r: "r \<in> set (s_deliveries (dm_store d'))" for r
  proof -
    have "delivery_key r \<in> set (map delivery_key (s_deliveries (dm_store d)))"
      using assms(1) r unfolding loop_frame_def by (metis image_eqI list.set_map)
    then obtain r0 where "r0 \<in> set (s_deliveries (dm_store d))" "delivery_key r = delivery_key r0" by auto
    then have "delivery_sound d (delivery_key r)" using assms(2) by (simp add: bus_sound_def)
    then show ?thesis by (rule sounds_mono(1) [OF x])
  qed
  moreover have "\<forall>r \<in> set (s_dedupe (dm_store d')). dedupe_sound d' r"
    using assms sounds_mono(5) [OF x] by (simp add: loop_frame_def bus_sound_def)
  moreover have "\<forall>e \<in> set (s_envelopes (dm_store d')). validate_invariants e = Inr ()"
    using assms by (simp add: loop_frame_def bus_sound_def)
  ultimately show ?thesis by (simp add: bus_sound_def)
qed

end
