(* ===== verification/Auth.thy ===== *)
theory Auth
  imports Daemon
begin

text \<open>
  Credentials (\<open>auth.rs\<close>): the file issuer and the token backend.  Files are keyed by the text of
  their path.  A write may fail to open, stop part-way through the text, or fail when the
  permissions are set at the end; the fault is an input.  Random bytes and the clock are
  parameters, SHA-256 and the JSON text come from the codec.
\<close>

section \<open>Comparing hashes\<close>

unbundle bit_operations_syntax

definition byte_of :: "char \<Rightarrow> 8 word" where "byte_of c = of_char c"

definition ct_eq :: "string \<Rightarrow> string \<Rightarrow> bool" where
  "ct_eq a b =
    (if length a \<noteq> length b then False
     else fold (\<lambda>(x, y) diff. diff OR (byte_of x XOR byte_of y)) (zip a b) 0 = 0)"

section \<open>Token records\<close>

record token_record =
  tk_token_id :: string
  tk_token_hash :: string
  tk_expires_at :: string
  tk_revoked :: bool

definition token_json :: "token_record \<Rightarrow> json" where
  "token_json r = JObj
    [(''token_id'', JStr (tk_token_id r)), (''token_hash'', JStr (tk_token_hash r)),
     (''expires_at'', JStr (tk_expires_at r)), (''revoked'', JBool (tk_revoked r))]"

definition parse_token_record :: "json \<Rightarrow> token_record res" where
  "parse_token_record v =
    and_then (struct_fields [''token_id'', ''token_hash'', ''expires_at'', ''revoked''] v) (\<lambda>f.
    and_then (field_str ''token_id'' f) (\<lambda>i. and_then (field_str ''token_hash'' f) (\<lambda>h.
    and_then (field_str ''expires_at'' f) (\<lambda>x. and_then (field_bool ''revoked'' f) (\<lambda>b.
      Inr \<lparr>tk_token_id = i, tk_token_hash = h, tk_expires_at = x, tk_revoked = b\<rparr>)))))"

record issuer =
  fi_tokens_dir :: string
  fi_files :: "string \<rightharpoonup> string"
  fi_revoked :: "string set"

definition file_issuer :: "string \<Rightarrow> issuer" where
  "file_issuer dir = \<lparr>fi_tokens_dir = dir, fi_files = (\<lambda>_. None), fi_revoked = {}\<rparr>"

text \<open>\<open>PathBuf::join\<close> with an absolute name gives that name.\<close>

definition record_path :: "issuer \<Rightarrow> string \<Rightarrow> string" where
  "record_path I cell =
    (if cell \<noteq> [] \<and> hd cell = CHR ''/'' then cell @ ''.token''
     else path_join (fi_tokens_dir I) (cell @ ''.token''))"

definition read_record :: "codec \<Rightarrow> string \<Rightarrow> issuer \<Rightarrow> token_record option" where
  "read_record C cell I =
    (case fi_files I (record_path I cell) of
      None \<Rightarrow> None
    | Some raw \<Rightarrow>
        (case cd_parse C raw of
          None \<Rightarrow> None
        | Some v \<Rightarrow> (case parse_token_record v of Inl _ \<Rightarrow> None | Inr r \<Rightarrow> Some r)))"

datatype write_fault = Written | CannotOpen | WriteStops nat | CannotChmod

definition write_record :: "codec \<Rightarrow> write_fault \<Rightarrow> string \<Rightarrow> token_record \<Rightarrow> (unit, issuer) op" where
  "write_record C fault cell r I =
    (let raw = cd_ser C (token_json r);
         put = (\<lambda>x. I\<lparr>fi_files := (fi_files I)(record_path I cell \<mapsto> x)\<rparr>)
     in case fault of
          Written \<Rightarrow> (Inr (), put raw)
        | CannotOpen \<Rightarrow> (Inl Internal, I)
        | WriteStops n \<Rightarrow> (Inl Internal, put (take (min n (length raw - 1)) raw))
        | CannotChmod \<Rightarrow> (Inl Internal, put raw))"

definition current_token_id :: "codec \<Rightarrow> string \<Rightarrow> issuer \<Rightarrow> string option" where
  "current_token_id C cell I = map_option tk_token_id (read_record C cell I)"

section \<open>Verification and issue\<close>

definition verify :: "codec \<Rightarrow> nat \<Rightarrow> string \<Rightarrow> string \<Rightarrow> issuer \<Rightarrow> string res" where
  "verify C now cell token I =
    (case read_record C cell I of
      None \<Rightarrow> Inl AuthRejected
    | Some r \<Rightarrow>
        if tk_revoked r \<or> tk_token_id r \<in> fi_revoked I then Inl AuthRejected
        else if tk_expires_at r < now_rfc3339 now then Inl AuthRejected
        else if \<not> ct_eq (tk_token_hash r) (hex_sha256 C token) then Inl AuthRejected
        else Inr (tk_token_id r))"

record issued_credential =
  ic_token_id :: string
  ic_token :: string
  ic_expires_at :: string

definition issue_record :: "codec \<Rightarrow> nat \<Rightarrow> 8 word list \<Rightarrow> 8 word list \<Rightarrow> nat \<Rightarrow> token_record" where
  "issue_record C now secret ident ttl =
    \<lparr>tk_token_id = hex_encode ident, tk_token_hash = hex_sha256 C (hex_encode secret),
     tk_expires_at = rfc3339_after now ttl, tk_revoked = False\<rparr>"

definition issue ::
  "codec \<Rightarrow> nat \<Rightarrow> 8 word list \<Rightarrow> 8 word list \<Rightarrow> write_fault \<Rightarrow> string \<Rightarrow> nat \<Rightarrow> (issued_credential, issuer) op" where
  "issue C now secret ident fault cell ttl I =
    (let r = issue_record C now secret ident ttl
     in bind_res (write_record C fault cell r I)
          (\<lambda>_ I. (Inr \<lparr>ic_token_id = tk_token_id r, ic_token = hex_encode secret,
                    ic_expires_at = tk_expires_at r\<rparr>, I)))"

definition rotate ::
  "codec \<Rightarrow> nat \<Rightarrow> 8 word list \<Rightarrow> 8 word list \<Rightarrow> write_fault \<Rightarrow> string \<Rightarrow> (issued_credential, issuer) op" where
  "rotate C now secret ident fault cell = issue C now secret ident fault cell 86400"

definition revoke :: "codec \<Rightarrow> write_fault \<Rightarrow> string \<Rightarrow> string \<Rightarrow> (unit, issuer) op" where
  "revoke C fault cell token_id I =
    bind_res
      (case read_record C cell I of
        Some r \<Rightarrow> write_record C fault cell (r\<lparr>tk_revoked := True\<rparr>) I
      | None \<Rightarrow> (Inr (), I))
      (\<lambda>_ I. (Inr (), I\<lparr>fi_revoked := insert token_id (fi_revoked I)\<rparr>))"

text \<open>\<open>L0TokenBackend::authenticate\<close>.\<close>

definition authenticate :: "codec \<Rightarrow> nat \<Rightarrow> issuer \<Rightarrow> peer_cred \<Rightarrow> client_proof \<Rightarrow> cell_principal res" where
  "authenticate C now I peer proof =
    (if cp_spec_version proof \<noteq> SPEC_VERSION then Inl UnsupportedSpecVersion
     else and_then (verify C now (cp_cell_id proof) (cp_token proof) I) (\<lambda>token_id.
       Inr \<lparr>pr_cell_id = cp_cell_id proof, pr_auth_level = L0Token, pr_unix_uid = Some (pc_uid peer),
            pr_unix_gid = Some (pc_gid peer), pr_pid = pc_pid peer, pr_pidfd_supported = False,
            pr_token_id = Some token_id\<rparr>))"

section \<open>Laws\<close>

lemma byte_of_inj: "byte_of x = byte_of y \<longleftrightarrow> x = y"
proof
  assume "byte_of x = byte_of y"
  then have "unat (of_nat (of_char x) :: 8 word) = unat (of_nat (of_char y) :: 8 word)"
    by (simp add: byte_of_def of_nat_of_char)
  then have "(of_char x :: nat) = of_char y"
    by (simp add: unat_of_nat)
  then show "x = y" by (simp only: of_char_eq_iff)
qed simp

lemma xor_zero_iff: "x XOR y = 0 \<longleftrightarrow> x = y" for x y :: "8 word"
  by (metis xor.assoc xor.left_neutral xor.right_neutral xor_self_eq)

lemma ct_eq_iff [simp]: "ct_eq a b \<longleftrightarrow> a = b"
proof (cases "length a = length b")
  case True
  then have "fold (\<lambda>(x, y) diff. diff OR (byte_of x XOR byte_of y)) (zip a b) m = 0 \<longleftrightarrow> m = 0 \<and> a = b" for m
    by (induction a b arbitrary: m rule: list_induct2) (auto simp: or_eq_0_iff xor_zero_iff byte_of_inj)
  then show ?thesis using True by (simp add: ct_eq_def)
qed (auto simp: ct_eq_def)

lemma parse_token_json [simp]: "parse_token_record (token_json r) = Inr r"
  by (simp add: parse_token_record_def token_json_def struct_fields_def field_str_def field_bool_def)

text \<open>Valid cell names have files of their own.\<close>

lemma record_path_eq:
  assumes "validate_cell_name a = Inr ()" "validate_cell_name b = Inr ()"
  shows "record_path I a = record_path I b \<longleftrightarrow> a = b"
proof -
  have "hd x \<noteq> CHR ''/''" if "validate_cell_name x = Inr ()" "x \<noteq> []" for x
    using that by (cases x) (auto simp: validate_cell_name_def is_ascii_lowercase_def is_ascii_digit_def split: if_splits)
  with assms show ?thesis by (auto simp: record_path_def path_join_inj)
qed

text \<open>The JSON text of a record: it parses back, and no proper prefix of it parses.\<close>

definition text_ok :: "codec \<Rightarrow> token_record \<Rightarrow> bool" where
  "text_ok C r \<longleftrightarrow> cd_ser C (token_json r) \<noteq> [] \<and>
    cd_parse C (cd_ser C (token_json r)) = Some (token_json r) \<and>
    list_all (\<lambda>n. cd_parse C (take n (cd_ser C (token_json r))) = None) [0..<length (cd_ser C (token_json r))]"

lemma record_path_files [simp]: "record_path (I\<lparr>fi_files := f\<rparr>) c = record_path I c"
  by (simp add: record_path_def)

lemma read_put:
  assumes "validate_cell_name a = Inr ()" "validate_cell_name b = Inr ()"
  shows "read_record C b (I\<lparr>fi_files := (fi_files I)(record_path I a \<mapsto> x)\<rparr>) =
    (if b = a then (case cd_parse C x of None \<Rightarrow> None
       | Some v \<Rightarrow> (case parse_token_record v of Inl _ \<Rightarrow> None | Inr r \<Rightarrow> Some r))
     else read_record C b I)"
  using record_path_eq [OF assms(2,1), of I] by (simp add: read_record_def)

lemma read_write_record:
  assumes "validate_cell_name a = Inr ()" "validate_cell_name b = Inr ()" "text_ok C r"
  shows "read_record C b (snd (write_record C fault a r I)) =
    (if b = a then (case fault of CannotOpen \<Rightarrow> read_record C b I | WriteStops n \<Rightarrow> None | _ \<Rightarrow> Some r)
     else read_record C b I)"
proof -
  let ?t = "cd_ser C (token_json r)"
  have "min n (length ?t - 1) < length ?t" for n
    using assms(3) by (simp add: text_ok_def min_less_iff_disj)
  then have "cd_parse C (take (min n (length ?t - 1)) ?t) = None" for n
    using assms(3) by (simp add: text_ok_def list_all_iff)
  moreover have "cd_parse C ?t = Some (token_json r)" using assms(3) by (simp add: text_ok_def)
  ultimately show ?thesis
    by (cases fault) (simp_all add: write_record_def Let_def read_put [OF assms(1,2)])
qed

section \<open>The credential database it implements\<close>

record cred =
  ab_id :: string
  ab_token :: string
  ab_expires :: string
  ab_revoked :: bool

type_synonym cred_db = "(string \<rightharpoonup> cred) \<times> string set"

datatype cred_op =
    Issue string nat nat "8 word list" "8 word list" write_fault
  | Rotate string nat "8 word list" "8 word list" write_fault
  | Revoke string string write_fault

definition spec_issue :: "string \<Rightarrow> nat \<Rightarrow> nat \<Rightarrow> 8 word list \<Rightarrow> 8 word list \<Rightarrow> write_fault \<Rightarrow> cred_db \<Rightarrow> cred_db" where
  "spec_issue cell ttl now secret ident fault db =
    (case fault of
      CannotOpen \<Rightarrow> db
    | WriteStops _ \<Rightarrow> ((fst db)(cell := None), snd db)
    | _ \<Rightarrow> ((fst db)(cell \<mapsto> \<lparr>ab_id = hex_encode ident, ab_token = hex_encode secret,
             ab_expires = rfc3339_after now ttl, ab_revoked = False\<rparr>), snd db))"

definition spec_revoke :: "string \<Rightarrow> string \<Rightarrow> write_fault \<Rightarrow> cred_db \<Rightarrow> cred_db" where
  "spec_revoke cell token_id fault db =
    (case fst db cell of
      None \<Rightarrow> (fst db, insert token_id (snd db))
    | Some c \<Rightarrow>
        (case fault of
          CannotOpen \<Rightarrow> db
        | WriteStops _ \<Rightarrow> ((fst db)(cell := None), snd db)
        | CannotChmod \<Rightarrow> ((fst db)(cell \<mapsto> c\<lparr>ab_revoked := True\<rparr>), snd db)
        | Written \<Rightarrow> ((fst db)(cell \<mapsto> c\<lparr>ab_revoked := True\<rparr>), insert token_id (snd db))))"

definition spec_verify :: "(string \<Rightarrow> string) \<Rightarrow> nat \<Rightarrow> string \<Rightarrow> string \<Rightarrow> cred_db \<Rightarrow> string res" where
  "spec_verify sha now cell token db =
    (case fst db cell of
      None \<Rightarrow> Inl AuthRejected
    | Some c \<Rightarrow>
        if \<not> ab_revoked c \<and> ab_id c \<notin> snd db \<and> now_rfc3339 now \<le> ab_expires c \<and> sha (ab_token c) = sha token
        then Inr (ab_id c) else Inl AuthRejected)"

fun spec_op :: "cred_op \<Rightarrow> cred_db \<Rightarrow> cred_db" where
  "spec_op (Issue cell ttl now secret ident fault) db = spec_issue cell ttl now secret ident fault db"
| "spec_op (Rotate cell now secret ident fault) db = spec_issue cell 86400 now secret ident fault db"
| "spec_op (Revoke cell token_id fault) db = spec_revoke cell token_id fault db"

fun run_op :: "codec \<Rightarrow> cred_op \<Rightarrow> issuer \<Rightarrow> issuer" where
  "run_op C (Issue cell ttl now secret ident fault) I = snd (issue C now secret ident fault cell ttl I)"
| "run_op C (Rotate cell now secret ident fault) I = snd (rotate C now secret ident fault cell I)"
| "run_op C (Revoke cell token_id fault) I = snd (revoke C fault cell token_id I)"

fun op_cell :: "cred_op \<Rightarrow> string" where
  "op_cell (Issue cell _ _ _ _ _) = cell"
| "op_cell (Rotate cell _ _ _ _) = cell"
| "op_cell (Revoke cell _ _) = cell"

fun op_records :: "codec \<Rightarrow> cred_op \<Rightarrow> token_record list" where
  "op_records C (Issue cell ttl now secret ident fault) =
    [issue_record C now secret ident ttl, (issue_record C now secret ident ttl)\<lparr>tk_revoked := True\<rparr>]"
| "op_records C (Rotate cell now secret ident fault) =
    [issue_record C now secret ident 86400, (issue_record C now secret ident 86400)\<lparr>tk_revoked := True\<rparr>]"
| "op_records C (Revoke cell token_id fault) = []"

definition cred_record :: "codec \<Rightarrow> cred \<Rightarrow> token_record" where
  "cred_record C c = \<lparr>tk_token_id = ab_id c, tk_token_hash = hex_sha256 C (ab_token c),
     tk_expires_at = ab_expires c, tk_revoked = ab_revoked c\<rparr>"

text \<open>The simulation relation: on valid names the files hold exactly the credentials of the database,
  and both forms of each stored record have a proper text.\<close>

definition implements :: "codec \<Rightarrow> issuer \<Rightarrow> cred_db \<Rightarrow> bool" where
  "implements C I db \<longleftrightarrow> fi_revoked I = snd db \<and>
    (\<forall>cell. validate_cell_name cell = Inr () \<longrightarrow>
      read_record C cell I = map_option (cred_record C) (fst db cell) \<and>
      (\<forall>c. fst db cell = Some c \<longrightarrow> text_ok C ((cred_record C c)\<lparr>tk_revoked := True\<rparr>)))"

lemma implements_write:
  assumes "implements C I db" "validate_cell_name cell = Inr ()" "text_ok C (cred_record C c)"
    "text_ok C ((cred_record C c)\<lparr>tk_revoked := True\<rparr>)"
  shows "implements C (snd (write_record C fault cell (cred_record C c) I))
    (case fault of CannotOpen \<Rightarrow> db | WriteStops _ \<Rightarrow> ((fst db)(cell := None), snd db)
     | _ \<Rightarrow> ((fst db)(cell \<mapsto> c), snd db))"
proof -
  have "fi_revoked (snd (write_record C fault cell (cred_record C c) I)) = fi_revoked I"
    by (cases fault) (simp_all add: write_record_def Let_def)
  then show ?thesis
    using assms by (cases fault) (auto simp: implements_def read_write_record)
qed

lemma read_record_revoked [simp]: "read_record C k (I\<lparr>fi_revoked := R\<rparr>) = read_record C k I"
  by (simp add: read_record_def record_path_def)

lemma implements_op:
  assumes "implements C I db" "validate_cell_name (op_cell x) = Inr ()" "list_all (text_ok C) (op_records C x)"
  shows "implements C (run_op C x I) (spec_op x db)"
proof -
  have issue: "implements C (snd (issue C now secret ident fault cell ttl I)) (spec_issue cell ttl now secret ident fault db)"
    if "validate_cell_name cell = Inr ()" "text_ok C (issue_record C now secret ident ttl)"
      "text_ok C ((issue_record C now secret ident ttl)\<lparr>tk_revoked := True\<rparr>)"
    for cell ttl now secret ident fault
  proof -
    let ?c = "\<lparr>ab_id = hex_encode ident, ab_token = hex_encode secret, ab_expires = rfc3339_after now ttl,
      ab_revoked = False\<rparr>"
    have r: "issue_record C now secret ident ttl = cred_record C ?c"
      by (simp add: issue_record_def cred_record_def)
    have s: "snd (issue C now secret ident fault cell ttl I) = snd (write_record C fault cell (cred_record C ?c) I)"
      by (cases fault) (simp_all add: issue_def r write_record_def Let_def)
    show ?thesis
      using implements_write [OF assms(1) that(1), of ?c fault] that(2,3) s
      by (simp add: r spec_issue_def split: write_fault.splits)
  qed
  show ?thesis
  proof (cases x)
    case (Revoke cell token_id fault)
    have cell: "validate_cell_name cell = Inr ()" using assms(2) Revoke by simp
    show ?thesis
    proof (cases "fst db cell")
      case None
      then have "read_record C cell I = None" using assms(1) cell by (simp add: implements_def)
      then show ?thesis
        using assms(1) None by (simp add: Revoke revoke_def spec_revoke_def implements_def)
    next
      case (Some c)
      let ?c = "c\<lparr>ab_revoked := True\<rparr>"
      have rd: "read_record C cell I = Some (cred_record C c)" and t: "text_ok C (cred_record C ?c)"
        using assms(1) cell Some by (simp_all add: implements_def cred_record_def)
      have w: "(cred_record C c)\<lparr>tk_revoked := True\<rparr> = cred_record C ?c"
        "(cred_record C ?c)\<lparr>tk_revoked := True\<rparr> = cred_record C ?c" by (simp_all add: cred_record_def)
      have i: "implements C (snd (write_record C fault cell (cred_record C ?c) I))
          (case fault of CannotOpen \<Rightarrow> db | WriteStops _ \<Rightarrow> ((fst db)(cell := None), snd db)
           | _ \<Rightarrow> ((fst db)(cell \<mapsto> ?c), snd db))"
        by (rule implements_write [OF assms(1) cell t]) (simp add: w t)
      have ins: "implements C I' (m, R) \<Longrightarrow> implements C (I'\<lparr>fi_revoked := insert i (fi_revoked I')\<rparr>) (m, insert i R)"
        for I' m R i by (simp add: implements_def)
      show ?thesis
      proof (cases fault)
        case Written
        with i have "implements C (snd (write_record C fault cell (cred_record C ?c) I)) ((fst db)(cell \<mapsto> ?c), snd db)"
          by simp
        from ins [OF this] show ?thesis
          by (simp add: Revoke revoke_def spec_revoke_def Some rd w Written write_record_def Let_def)
      qed (use i in \<open>simp_all add: Revoke revoke_def spec_revoke_def Some rd w write_record_def Let_def\<close>)
    qed
  qed (use assms(2,3) issue in \<open>simp_all add: rotate_def\<close>)
qed

text \<open>C11: the files implement the credential database.  After any sequence of issues, rotations and
  revocations, each of which may fail at any point of its write, verifying a token gives what the
  database gives: the identifier of the cell's current credential when that is neither revoked
  nor expired and has the hash of the presented token, and \<open>E_AUTH_REJECTED\<close> otherwise.  So a
  rotated or revoked token is dead, and a write that stops part-way leaves no credential at all.\<close>

theorem credential_refinement:
  assumes "list_all (\<lambda>x. validate_cell_name (op_cell x) = Inr () \<and> list_all (text_ok C) (op_records C x)) ops"
    and "validate_cell_name cell = Inr ()"
  shows "verify C now cell token (fold (run_op C) ops (file_issuer dir)) =
    spec_verify (hex_sha256 C) now cell token (fold spec_op ops (Map.empty, {}))"
proof -
  have "implements C (fold (run_op C) ops I) (fold spec_op ops db)" if "implements C I db" for I db
    using assms(1) that by (induction ops arbitrary: I db) (simp_all add: implements_op)
  moreover have "implements C (file_issuer dir) (Map.empty, {})"
    by (simp add: implements_def file_issuer_def read_record_def record_path_def)
  ultimately have "implements C (fold (run_op C) ops (file_issuer dir)) (fold spec_op ops (Map.empty, {}))"
    by blast
  then have r: "read_record C cell (fold (run_op C) ops (file_issuer dir)) =
      map_option (cred_record C) (fst (fold spec_op ops (Map.empty, {})) cell)"
    and v: "fi_revoked (fold (run_op C) ops (file_issuer dir)) = snd (fold spec_op ops (Map.empty, {}))"
    using assms(2) by (simp_all add: implements_def)
  show ?thesis
    by (cases "fst (fold spec_op ops (Map.empty, {})) cell")
      (auto simp: verify_def spec_verify_def r v cred_record_def dest: leD)
qed

text \<open>A codec for one record; the issued token is refused after a rotation that fails in the middle.\<close>

definition token_codec :: codec where
  "token_codec =
    \<lparr>cd_sha = (\<lambda>x. replicate 32 (of_nat (length x))), cd_esc = id, cd_num = (\<lambda>_. []),
     cd_ser = (\<lambda>v. case v of JObj kvs \<Rightarrow> if map_of kvs ''revoked'' = Some (JBool True) then ''R'' else ''L'' | _ \<Rightarrow> []),
     cd_parse = (\<lambda>t.
       let r = \<lparr>tk_token_id = hex_encode [7], tk_token_hash = hex_encode (replicate 32 2),
                tk_expires_at = rfc3339_after 0 60, tk_revoked = t = ''R''\<rparr>
       in if t = ''L'' \<or> t = ''R'' then Some (token_json r) else None)\<rparr>"

lemma token_codec_simps:
  "cd_ser token_codec (token_json r) = (if tk_revoked r then ''R'' else ''L'')"
  "cd_parse token_codec t = (if t = ''L'' \<or> t = ''R''
      then Some (token_json \<lparr>tk_token_id = hex_encode [7], tk_token_hash = hex_encode (replicate 32 2),
        tk_expires_at = rfc3339_after 0 60, tk_revoked = t = ''R''\<rparr>) else None)"
  "hex_sha256 token_codec (hex_encode [1]) = hex_encode (replicate 32 2)"
  by (simp_all add: token_codec_def token_json_def Let_def hex_sha256_def hex_encode_def)

lemma token_codec_issue:
  "issue_record token_codec 0 [1] [7] 60 = \<lparr>tk_token_id = hex_encode [7],
      tk_token_hash = hex_encode (replicate 32 2), tk_expires_at = rfc3339_after 0 60, tk_revoked = False\<rparr>"
  by (simp add: issue_record_def token_codec_simps)

lemma token_not_expired: "now_rfc3339 60 \<le> rfc3339_after 0 60"
  by (simp add: now_rfc3339_def rfc3339_after_def U64_MAX_def)

lemma token_codec_verify:
  "validate_cell_name cell = Inr () \<Longrightarrow>
   verify token_codec 60 cell (hex_encode [1])
     (run_op token_codec (Issue cell 60 0 [1] [7] Written) (file_issuer dir)) = Inr (hex_encode [7])"
  using leD [OF token_not_expired]
  by (simp add: verify_def issue_def token_codec_issue token_codec_simps write_record_def Let_def read_record_def
      file_issuer_def record_path_def)

theorem credential_refinement_witness:
  "verify token_codec 60 ''w'' (hex_encode [1])
      (fold (run_op token_codec) [Issue ''w'' 60 0 [1] [7] Written] (file_issuer ''/t'')) = Inr (hex_encode [7])"
proof -
  have "list_all (text_ok token_codec) (op_records token_codec (Issue ''w'' 60 0 [1] [7] Written))"
    by (simp add: text_ok_def token_codec_issue token_codec_simps)
  moreover have "validate_cell_name ''w'' = Inr ()"
    by (simp add: validate_cell_name_def is_ascii_lowercase_def is_ascii_digit_def)
  ultimately show ?thesis
    using credential_refinement [of token_codec "[Issue ''w'' 60 0 [1] [7] Written]" "''w''" 60 "hex_encode [1]" "''/t''"]
      token_not_expired
    by (simp add: spec_issue_def spec_verify_def del: fun_upd_apply add: fun_upd_same)
qed

end
