(* ===== verification/Server.thy ===== *)
theory Server
  imports Auth Delivery
begin

text \<open>
  Connections (\<open>server.rs\<close>): the handshake, the per-frame step of the session loop with its live
  revocation check, and the start-up checks on the socket path.  The parser of a request frame is a
  parameter.  A response that is not sent closes the connection; what is sent is the result here.
\<close>

section \<open>Session registry\<close>

definition registry_revoke :: "string \<Rightarrow> daemon \<Rightarrow> daemon" where
  "registry_revoke token_id d = d\<lparr>dm_revoked := insert token_id (dm_revoked d)\<rparr>"

definition is_revoked :: "string \<Rightarrow> daemon \<Rightarrow> bool" where
  "is_revoked token_id d \<longleftrightarrow> token_id \<in> dm_revoked d"

section \<open>Start-up\<close>

datatype path_kind = NoFile | Symlink | Socket | OtherFile

datatype bind_result = Bound | RefusedSymlink | RefusedForeign

text \<open>What is at the socket path decides; only a stale socket is removed and bound again.\<close>

definition bootstrap_hardening :: "(string \<Rightarrow> path_kind) \<Rightarrow> crewd_config \<Rightarrow> bind_result \<times> (string \<Rightarrow> path_kind)" where
  "bootstrap_hardening fs cfg =
    (let sock = socket_path cfg in
     if fs sock = Symlink then (RefusedSymlink, fs)
     else if fs sock = OtherFile then (RefusedForeign, fs)
     else (Bound, fs(sock := Socket)))"

section \<open>Handshake\<close>

text \<open>\<open>SO_PEERCRED\<close>: the identifiers the socket reports; a pid that is not positive is none.\<close>

definition peercred :: "(nat \<times> nat \<times> int) option \<Rightarrow> peer_cred option" where
  "peercred cred = map_option (\<lambda>(uid, gid, pid).
     \<lparr>pc_uid = uid, pc_gid = gid, pc_pid = (if 0 < pid then Some (nat pid) else None)\<rparr>) cred"

definition json_nat_opt :: "nat option \<Rightarrow> json" where
  "json_nat_opt x = (case x of None \<Rightarrow> JNull | Some n \<Rightarrow> JInt (int n))"

definition peer_detail :: "peer_cred \<Rightarrow> json" where
  "peer_detail p = JObj [(''uid'', JInt (int (pc_uid p))), (''gid'', JInt (int (pc_gid p))), (''pid'', json_nat_opt (pc_pid p))]"

definition auth_rejected :: "string option \<Rightarrow> json \<Rightarrow> daemon \<Rightarrow> daemon" where
  "auth_rejected cell detail = audit_best_effort
    (mk_draft ''auth_rejected'' None cell None ''rejected'' (Some detail))"

definition revoked_detail :: "string \<Rightarrow> string \<Rightarrow> json" where
  "revoked_detail reason tid = JObj [(''reason'', JStr reason), (''token_id'', JStr tid)]"

definition token_revoked :: "cell_principal \<Rightarrow> daemon \<Rightarrow> string option" where
  "token_revoked who d =
    (case pr_token_id who of Some tid \<Rightarrow> if is_revoked tid d then Some tid else None | None \<Rightarrow> None)"

datatype handshake_result = Rejected "wire_response option" | Accepted wire_response cell_principal

text \<open>The first frame of a connection; \<open>None\<close> stands for a read error or an oversized frame.\<close>

definition handshake ::
  "(string \<Rightarrow> wire_request option) \<Rightarrow> (peer_cred \<Rightarrow> client_proof \<Rightarrow> cell_principal res) \<Rightarrow>
   peer_cred option \<Rightarrow> string option \<Rightarrow> daemon \<Rightarrow> handshake_result \<times> daemon" where
  "handshake parse auth peer raw d =
    (case peer of
      None \<Rightarrow>
        (Rejected (Some (wire_err 0 AuthRejected)),
         auth_rejected None (JObj [(''reason'', JStr ''peercred_unavailable'')]) d)
    | Some p \<Rightarrow>
     (case raw of None \<Rightarrow> (Rejected None, d)
     | Some bytes \<Rightarrow>
      (case parse bytes of None \<Rightarrow> (Rejected (Some (wire_err 0 Internal)), d)
      | Some req \<Rightarrow>
       (case parse_client_proof (wq_params req) of
         Inl _ \<Rightarrow> (Rejected (Some (wire_err (wq_id req) Internal)), d)
       | Inr proof \<Rightarrow>
        (case auth p proof of
          Inl e \<Rightarrow>
            (Rejected (Some (wire_err (wq_id req) e)),
             audit_best_effort (mk_draft (if code e = ''E_AUTH_REJECTED'' then ''auth_rejected'' else ''spec_version_rejected'')
               None (Some (cp_cell_id proof)) None ''rejected'' (Some (peer_detail p))) d)
        | Inr who \<Rightarrow>
           (case token_revoked who d of
             Some tid \<Rightarrow>
               (Rejected (Some (wire_err (wq_id req) AuthRejected)),
                auth_rejected (Some (pr_cell_id who)) (revoked_detail ''revoked_at_handshake'' tid) d)
           | None \<Rightarrow>
               (Accepted (wire_ok (wq_id req)
                  (JObj [(''cell'', JStr (pr_cell_id who)), (''auth_level'', JStr ''L0Token'')])) who, d)))))))"

section \<open>Session loop\<close>

datatype frame_outcome =
    Closed "wire_response option"
  | Continue wire_response
  | Waiting nat ask_row await_guard

text \<open>One turn of the loop: an empty frame is the end of the stream, a frame that does not parse is
  answered and skipped, a revoked token closes the session, anything else is dispatched.\<close>

definition session_frame ::
  "(string \<Rightarrow> wire_request option) \<Rightarrow> request_ctx \<Rightarrow> cell_principal \<Rightarrow> string option \<Rightarrow> daemon \<Rightarrow>
   frame_outcome \<times> daemon" where
  "session_frame parse C who frame d =
    (case frame of
      None \<Rightarrow> (Closed None, d)
    | Some bytes \<Rightarrow>
        if bytes = [] then (Closed None, d)
        else case parse bytes of
          None \<Rightarrow> (Continue (wire_err 0 Internal), d)
        | Some req \<Rightarrow>
           (case token_revoked who d of
             Some tid \<Rightarrow>
               (Closed (Some (wire_err (wq_id req) AuthRejected)),
                auth_rejected (Some (pr_cell_id who)) (revoked_detail ''revoked_live_session'' tid) d)
           | None \<Rightarrow>
              (case dispatch C who req d of
                (Respond r, d) \<Rightarrow> (Continue r, d)
              | (Suspended i ask guard, d) \<Rightarrow> (Waiting i ask guard, d))))"

end
