(* ===== verification/Engines.thy ===== *)
theory Engines
  imports Journal Config AuditLog
begin

text \<open>
  What the engine adapters share (\<open>engines/mod.rs\<close>, \<open>engines/child.rs\<close>): the spawn configuration,
  the shell of the operating system an adapter is built in, reading JSON values, UTF-8 aware
  trimming, the line-delimited child process, and the in-process \<open>FakeEngine\<close>
  (\<open>engines/fake.rs\<close>).  An error of an adapter keeps its message, because the scheduler writes it
  into the audit log.
\<close>

section \<open>Text\<close>

text \<open>A string is its UTF-8 bytes; a character starts at a byte that is no continuation byte.\<close>

definition is_continuation :: "char \<Rightarrow> bool" where
  "is_continuation c \<longleftrightarrow> 128 \<le> (of_char c :: nat) \<and> (of_char c :: nat) < 192"

function utf8_chars :: "string \<Rightarrow> string list" where
  "utf8_chars [] = []"
| "utf8_chars (c # cs) =
    (c # takeWhile is_continuation cs) # utf8_chars (dropWhile is_continuation cs)"
  by pat_completeness auto
termination
  by (relation "measure length") (auto simp: le_imp_less_Suc length_dropWhile_le)

lemma concat_utf8_chars [simp]: "concat (utf8_chars s) = s"
  by (induction s rule: utf8_chars.induct) simp_all

definition safe_prefix :: "string \<Rightarrow> string" where
  "safe_prefix s =
    concat (map (\<lambda>c. if c = ''\<newline>'' \<or> c = [CHR 0x0D] then '' '' else c) (take 8 (utf8_chars s)))"

text \<open>The characters with the Unicode property \<open>White_Space\<close>.\<close>

definition white_space :: "string list" where
  "white_space =
    map (\<lambda>n. [char_of n]) ([9 ..< 14] @ [32 :: nat]) @
    map (\<lambda>bs. map char_of (bs :: nat list))
      ([[0xC2, 0x85], [0xC2, 0xA0], [0xE1, 0x9A, 0x80], [0xE2, 0x80, 0xA8], [0xE2, 0x80, 0xA9],
        [0xE2, 0x80, 0xAF], [0xE2, 0x81, 0x9F], [0xE3, 0x80, 0x80]] @
       map (\<lambda>n. [0xE2, 0x80, n]) [0x80 ..< 0x8B])"

definition trim_with :: "('a \<Rightarrow> bool) \<Rightarrow> 'a list \<Rightarrow> 'a list" where
  "trim_with P xs = rev (dropWhile P (rev (dropWhile P xs)))"

definition str_trim :: "string \<Rightarrow> string" where
  "str_trim s = concat (trim_with (\<lambda>c. c \<in> set white_space) (utf8_chars s))"

text \<open>Printable ASCII text is not trimmed.\<close>

definition printable :: "char \<Rightarrow> bool" where
  "printable c \<longleftrightarrow> 32 < (of_char c :: nat) \<and> (of_char c :: nat) < 128"

lemma utf8_chars_printable: "list_all printable s \<Longrightarrow> utf8_chars s = map (\<lambda>c. [c]) s"
proof (induction s)
  case (Cons c cs)
  from Cons.prems have "takeWhile is_continuation cs = []" "dropWhile is_continuation cs = cs"
    by (cases cs; simp add: printable_def is_continuation_def)+
  with Cons show ?case by simp
qed simp

lemma white_space_not_printable: "list_all (\<lambda>w. w \<noteq> [] \<and> \<not> printable (hd w)) white_space"
  by (simp add: white_space_def printable_def upt_rec)

lemma trim_with_none: "list_all (\<lambda>x. \<not> P x) xs \<Longrightarrow> trim_with P xs = xs"
proof -
  assume "list_all (\<lambda>x. \<not> P x) xs"
  then have "dropWhile P xs = xs" "dropWhile P (rev xs) = rev xs"
    unfolding dropWhile_eq_self_iff by (auto simp: list_all_iff hd_rev)
  then show ?thesis by (simp add: trim_with_def)
qed

lemma str_trim_printable:
  assumes "list_all printable s"
  shows "str_trim s = s"
proof -
  have "[c] \<notin> set white_space" if "printable c" for c
    using white_space_not_printable that unfolding list_all_iff by force
  with assms have "list_all (\<lambda>x. x \<notin> set white_space) (map (\<lambda>c. [c]) s)" by (auto simp: list_all_iff)
  from trim_with_none [OF this] show ?thesis
    by (simp add: str_trim_def utf8_chars_printable [OF assms] concat_map_singleton)
qed

definition split_once :: "char \<Rightarrow> string \<Rightarrow> (string \<times> string) option" where
  "split_once x l =
    (if x \<in> set l then Some (takeWhile (\<lambda>c. c \<noteq> x) l, tl (dropWhile (\<lambda>c. c \<noteq> x) l)) else None)"

text \<open>\<open>str::lines\<close>: no empty last line, and a carriage return before the line feed is dropped.\<close>

function str_lines :: "string \<Rightarrow> string list" where
  "str_lines [] = []"
| "str_lines (c # cs) =
    (let l = takeWhile (\<lambda>x. x \<noteq> CHR ''\<newline>'') (c # cs); rest = dropWhile (\<lambda>x. x \<noteq> CHR ''\<newline>'') (c # cs)
     in (if rest \<noteq> [] \<and> l \<noteq> [] \<and> last l = CHR 0x0D then butlast l else l) # str_lines (tl rest))"
  by pat_completeness auto
termination
proof (relation "measure length", goal_cases)
  case (2 c cs l rest)
  then have "length rest \<le> length (c # cs)" by (simp only: length_dropWhile_le)
  then show ?case by auto
qed simp

section \<open>Reading JSON values\<close>

definition jget :: "string \<Rightarrow> json \<Rightarrow> json option" where
  "jget k v = (case v of JObj kvs \<Rightarrow> map_of kvs k | _ \<Rightarrow> None)"

definition as_str :: "json \<Rightarrow> string option" where
  "as_str v = (case v of JStr s \<Rightarrow> Some s | _ \<Rightarrow> None)"

definition as_bool :: "json \<Rightarrow> bool option" where
  "as_bool v = (case v of JBool b \<Rightarrow> Some b | _ \<Rightarrow> None)"

definition as_i64 :: "json \<Rightarrow> int option" where
  "as_i64 v = (case v of JInt n \<Rightarrow> if - (2 ^ 63) \<le> n \<and> n < 2 ^ 63 then Some n else None | _ \<Rightarrow> None)"

definition as_array :: "json \<Rightarrow> json list option" where
  "as_array v = (case v of JArr xs \<Rightarrow> Some xs | _ \<Rightarrow> None)"

definition str_at :: "string \<Rightarrow> json \<Rightarrow> string option" where
  "str_at k v = Option.bind (jget k v) as_str"

text \<open>The texts of the blocks of a \<open>content\<close> array, joined.\<close>

definition text_blocks :: "json list \<Rightarrow> string" where
  "text_blocks blocks =
    concat (map (\<lambda>b. if str_at ''type'' b = Some ''text'' then or_value [] (str_at ''text'' b) else [])
      blocks)"

section \<open>Configuration and environment\<close>

type_synonym engine_error = "bus_error \<times> string"
type_synonym 'a engine_res = "engine_error + 'a"

text \<open>\<open>BusError::to_string\<close>.\<close>

definition error_text :: "engine_error \<Rightarrow> string" where
  "error_text e = code (fst e) @ '': '' @ snd e"

record spawn_cfg =
  sc_cwd :: string
  sc_model :: "string option"
  sc_profile :: "string option"
  sc_timeout_secs :: nat
  sc_bin_override :: "string option"
  sc_spawn_direct :: bool
  sc_keys_env_path :: "string option"
  sc_profile_def :: "profile_def option"
  sc_shim_args :: "string list"

definition default_cfg :: spawn_cfg where
  "default_cfg =
    \<lparr>sc_cwd = [], sc_model = None, sc_profile = None, sc_timeout_secs = 0, sc_bin_override = None,
     sc_spawn_direct = False, sc_keys_env_path = None, sc_profile_def = None, sc_shim_args = []\<rparr>"

text \<open>A command; \<open>cmd_env\<close> is \<open>None\<close> when the environment of the daemon is inherited.\<close>

record command =
  cmd_program :: string
  cmd_args :: "string list"
  cmd_cwd :: string
  cmd_env :: "(string \<rightharpoonup> string) option"

text \<open>
  A started process: its pid, what the first read of its output gives, and the lines it prints, and
  whether it is still there, once it has been sent some requests.  The programs are third-party,
  so they are parameters.
\<close>

datatype first_read = FirstLine | FirstEof | FirstError string

record process =
  ps_pid :: nat
  ps_first :: first_read
  ps_answers :: "json list \<Rightarrow> json list \<times> bool"

record os_env =
  os_spawn :: "command \<Rightarrow> string + process"
  os_var :: "string \<rightharpoonup> string"
  os_read_file :: "string \<Rightarrow> string + string"
  os_canonicalize :: "string \<rightharpoonup> string"

datatype proc_state = Up | Down

section \<open>The line-delimited child\<close>

text \<open>
  \<open>lc_child\<close> and \<open>lc_stdin\<close> say whether the handles are still held, \<open>lc_rx\<close> is the channel the
  reader thread fills, \<open>lc_pipe\<close> is the error of the next write (\<open>None\<close> when it succeeds) and
  \<open>lc_sent\<close> what was written, one value per line.
\<close>

record line_child =
  lc_child :: bool
  lc_stdin :: bool
  lc_rx :: "engine_event list"
  lc_alive :: bool
  lc_pid :: nat
  lc_pipe :: "string option"
  lc_sent :: "json list"

definition line_child_spawn :: "os_env \<Rightarrow> command \<Rightarrow> bool \<Rightarrow> string \<Rightarrow> line_child engine_res" where
  "line_child_spawn E cmd wait_first_line label =
    (case os_spawn E cmd of
      Inl msg \<Rightarrow> Inl (EngineDown, label @ '' spawn: '' @ safe_prefix msg)
    | Inr p \<Rightarrow>
        let started = Inr \<lparr>lc_child = True, lc_stdin = True, lc_rx = [], lc_alive = True,
                           lc_pid = ps_pid p, lc_pipe = None, lc_sent = []\<rparr>
        in if wait_first_line then
             (case ps_first p of
               FirstError msg \<Rightarrow> Inl (EngineDown, label @ '' read: '' @ safe_prefix msg)
             | FirstEof \<Rightarrow> Inl (EngineDown, label @ '' closed before ready'')
             | FirstLine \<Rightarrow> started)
           else started)"

definition line_child_send :: "json \<Rightarrow> line_child \<Rightarrow> unit engine_res \<times> line_child" where
  "line_child_send v c =
    (if \<not> lc_stdin c then (Inl (Internal, ''child stdin gone''), c)
     else case lc_pipe c of
       Some msg \<Rightarrow> (Inl (EngineDown, ''child write: '' @ safe_prefix msg), c)
     | None \<Rightarrow> (Inr (), c\<lparr>lc_sent := lc_sent c @ [v]\<rparr>))"

definition line_child_poll :: "line_child \<Rightarrow> engine_event list \<times> line_child" where
  "line_child_poll c = (lc_rx c, c\<lparr>lc_rx := []\<rparr>)"

definition line_child_proc_state :: "line_child \<Rightarrow> proc_state" where
  "line_child_proc_state c = (if lc_alive c then Up else Down)"

definition line_child_shutdown :: "line_child \<Rightarrow> line_child" where
  "line_child_shutdown c = c\<lparr>lc_child := False, lc_stdin := False, lc_alive := False\<rparr>"

text \<open>
  The reader thread: one line of output, \<open>None\<close> at the end of the output or on a read error.  Blank
  lines and lines that are no JSON are skipped.
\<close>

definition line_value :: "(string \<Rightarrow> json option) \<Rightarrow> string \<Rightarrow> json option" where
  "line_value parse l = (if str_trim l = [] then None else parse (str_trim l))"

definition line_child_read ::
  "(string \<Rightarrow> json option) \<Rightarrow> (json \<Rightarrow> engine_event list) \<Rightarrow> string option \<Rightarrow> line_child \<Rightarrow> line_child" where
  "line_child_read parse events line c =
    (case line of
      None \<Rightarrow> c\<lparr>lc_alive := False\<rparr>
    | Some l \<Rightarrow>
        (case line_value parse l of None \<Rightarrow> c | Some v \<Rightarrow> c\<lparr>lc_rx := lc_rx c @ events v\<rparr>))"

section \<open>The in-process fake engine\<close>

record fake_engine =
  fk_fail_next :: bool
  fk_hang :: bool
  fk_interrupted :: bool
  fk_turn_counter :: nat
  fk_in_flight :: bool
  fk_queued :: "engine_event list"
  fk_proc :: proc_state
  fk_last_session :: "string option"

definition fake_new :: fake_engine where
  "fake_new =
    \<lparr>fk_fail_next = False, fk_hang = False, fk_interrupted = False, fk_turn_counter = 0,
     fk_in_flight = False, fk_queued = [], fk_proc = Up, fk_last_session = None\<rparr>"

definition with_fail_next :: "fake_engine \<Rightarrow> fake_engine" where
  "with_fail_next e = e\<lparr>fk_fail_next := True\<rparr>"

definition with_hang :: "fake_engine \<Rightarrow> fake_engine" where
  "with_hang e = e\<lparr>fk_hang := True\<rparr>"

definition fake_start_turn :: "string \<Rightarrow> fake_engine \<Rightarrow> unit engine_res \<times> fake_engine" where
  "fake_start_turn payload e =
    (if fk_proc e = Down then (Inl (EngineDown, ''fake engine down''), e)
     else let n = fk_turn_counter e + 1;
              e1 = e\<lparr>fk_interrupted := False, fk_turn_counter := n,
                     fk_queued := fk_queued e @ [Accepted (''fake-turn-'' @ dec n)], fk_in_flight := True\<rparr>
       in if fk_hang e1 then (Inr (), e1)
          else if fk_fail_next e1 then
            (Inr (), e1\<lparr>fk_queued := fk_queued e1 @ [Failed ''fake-failure''], fk_fail_next := False,
                        fk_in_flight := False\<rparr>)
          else
            (Inr (), e1\<lparr>fk_last_session := Some ''fake-sess-1'',
                        fk_queued := fk_queued e1 @ [Final (''done: '' @ payload)], fk_in_flight := False\<rparr>))"

definition fake_poll_events :: "fake_engine \<Rightarrow> engine_event list \<times> fake_engine" where
  "fake_poll_events e = (fk_queued e, e\<lparr>fk_queued := []\<rparr>)"

definition fake_interrupt :: "fake_engine \<Rightarrow> unit engine_res \<times> fake_engine" where
  "fake_interrupt e = (Inr (), e\<lparr>fk_interrupted := fk_in_flight e, fk_in_flight := False\<rparr>)"

definition fake_resume_session :: "string \<Rightarrow> fake_engine \<Rightarrow> unit engine_res \<times> fake_engine" where
  "fake_resume_session sid e = (Inr (), e\<lparr>fk_last_session := Some sid\<rparr>)"

definition fake_shutdown :: "fake_engine \<Rightarrow> fake_engine" where
  "fake_shutdown e = e\<lparr>fk_proc := Down, fk_in_flight := False, fk_queued := []\<rparr>"

end
