(* ===== verification/Adapters.thy ===== *)
theory Adapters
  imports Engines Wire
begin

text \<open>
  The adapters of the three real engines (\<open>engines/claude.rs\<close>, \<open>engines/pi.rs\<close>,
  \<open>engines/codex.rs\<close>) and the \<open>EngineAdapter\<close> interface with its factory (\<open>engines/mod.rs\<close>).  A boxed
  adapter is one of the four adapters the factory makes; a call is dispatched on it.  The engine
  programs are third-party: what they print arrives in the reader steps, in any order.
\<close>

section \<open>Claude\<close>

definition ENV_ALLOWLIST :: "string list" where
  "ENV_ALLOWLIST =
    [''ANTHROPIC_AUTH_TOKEN'', ''ANTHROPIC_BASE_URL'', ''ANTHROPIC_MODEL'', ''ANTHROPIC_SMALL_FAST_MODEL'',
     ''CLAUDE_CODE_AUTO_COMPACT_WINDOW'', ''HOME'', ''PATH'', ''NODE_OPTIONS'', ''TMPDIR'', ''LANG'', ''TERM'']"

definition parse_key_line :: "string \<Rightarrow> string \<Rightarrow> string option" where
  "parse_key_line wanted raw =
    (let l = or_value (str_trim raw) (strip_prefix ''export '' (str_trim raw)) in
     case split_once CHR ''='' l of
       None \<Rightarrow> None
     | Some (k, v) \<Rightarrow>
        (let val = trim_with (\<lambda>c. c = CHR 0x27) (trim_with (\<lambda>c. c = CHR 0x22) (str_trim v)) in
         if str_trim k = wanted \<and> val \<noteq> [] then Some val else None))"

definition parse_key_file :: "os_env \<Rightarrow> string \<Rightarrow> string \<Rightarrow> string engine_res" where
  "parse_key_file E path wanted =
    (case os_read_file E path of
      Inl msg \<Rightarrow> Inl (EngineDown, ''keys file unreadable: '' @ safe_prefix msg)
    | Inr content \<Rightarrow>
        (case find_map (parse_key_line wanted) (str_lines content) of
          None \<Rightarrow> Inl (EngineDown, ''keys file missing entry: '' @ wanted)
        | Some val \<Rightarrow> Inr val))"

definition inherited_env :: "os_env \<Rightarrow> (string \<rightharpoonup> string)" where
  "inherited_env E = (\<lambda>k. if k \<in> set ENV_ALLOWLIST \<and> os_var E k \<noteq> Some [] then os_var E k else None)"

text \<open>\<open>{name:?}\<close> quotes the profile name; the quoting of the standard library is the parameter.\<close>

definition build_env ::
  "(string \<Rightarrow> string) \<Rightarrow> os_env \<Rightarrow> spawn_cfg \<Rightarrow> (string \<rightharpoonup> string) engine_res" where
  "build_env quote E cfg =
    (case sc_profile cfg of
      None \<Rightarrow> Inr (inherited_env E)
    | Some name \<Rightarrow>
        if name = ''max'' then Inr (inherited_env E)
        else case sc_profile_def cfg of
          None \<Rightarrow> Inl (EngineDown, ''unknown claude profile: '' @ safe_prefix name)
        | Some def \<Rightarrow>
           (case sc_keys_env_path cfg of
             None \<Rightarrow> Inl (EngineDown, ''profile '' @ quote name @ '' requires keys_env_path'')
           | Some path \<Rightarrow> and_then (parse_key_file E path (pf_api_key_env def)) (\<lambda>key.
               Inr ((inherited_env E)(''ANTHROPIC_BASE_URL'' \<mapsto> pf_base_url def,
                 ''ANTHROPIC_AUTH_TOKEN'' \<mapsto> key, ''ANTHROPIC_MODEL'' \<mapsto> pf_model def)))))"

definition claude_command :: "os_env \<Rightarrow> spawn_cfg \<Rightarrow> (string \<rightharpoonup> string) \<Rightarrow> command engine_res" where
  "claude_command E cfg env =
    (let cmd = (\<lambda>program args. \<lparr>cmd_program = program, cmd_args = args @ sc_shim_args cfg,
                  cmd_cwd = sc_cwd cfg, cmd_env = Some env\<rparr>) in
     if sc_spawn_direct cfg then
       (case sc_bin_override cfg of
         None \<Rightarrow> Inl (Internal, ''spawn_direct without bin_override'')
       | Some bin \<Rightarrow> Inr (cmd bin []))
     else
       let shim = or_value ''shim/claude-shim.mjs'' (sc_bin_override cfg)
       in Inr (cmd ''node'' [or_value shim (os_canonicalize E shim)]))"

record claude_adapter =
  cl_child :: line_child
  cl_pending_resume :: "string option"
  cl_session :: "string option"

definition claude_new :: "(string \<Rightarrow> string) \<Rightarrow> os_env \<Rightarrow> spawn_cfg \<Rightarrow> claude_adapter engine_res" where
  "claude_new quote E cfg =
    and_then (build_env quote E cfg) (\<lambda>env.
    and_then (claude_command E cfg env) (\<lambda>cmd.
    and_then (line_child_spawn E cmd True ''node'') (\<lambda>c.
      Inr \<lparr>cl_child = c, cl_pending_resume = None, cl_session = None\<rparr>)))"

text \<open>The parser of the reader thread; a \<open>final\<close> line with a session id also records it.\<close>

definition claude_events :: "json \<Rightarrow> engine_event list" where
  "claude_events v =
    (let ev = or_value [] (str_at ''ev'' v) in
     if ev = ''accepted'' then [Accepted (or_value [] (str_at ''engine_turn_id'' v))]
     else if ev = ''note'' then [Note (or_value [] (str_at ''text'' v))]
     else if ev = ''final'' then [Final (or_value [] (str_at ''final_answer'' v))]
     else if ev = ''error'' then [Failed (or_value [] (str_at ''error'' v))]
     else [])"

definition claude_session_of :: "json \<Rightarrow> string option" where
  "claude_session_of v = (if str_at ''ev'' v = Some ''final'' then str_at ''session_id'' v else None)"

definition claude_read :: "(string \<Rightarrow> json option) \<Rightarrow> string option \<Rightarrow> claude_adapter \<Rightarrow> claude_adapter" where
  "claude_read parse line a =
    (let seen = Option.bind line (\<lambda>l. Option.bind (line_value parse l) claude_session_of) in
     a\<lparr>cl_child := line_child_read parse claude_events line (cl_child a),
       cl_session := coalesce seen (cl_session a)\<rparr>)"

definition claude_send :: "json \<Rightarrow> claude_adapter \<Rightarrow> unit engine_res \<times> claude_adapter" where
  "claude_send v a = (case line_child_send v (cl_child a) of (r, c) \<Rightarrow> (r, a\<lparr>cl_child := c\<rparr>))"

definition claude_start_turn :: "string \<Rightarrow> claude_adapter \<Rightarrow> unit engine_res \<times> claude_adapter" where
  "claude_start_turn payload a =
    claude_send (JObj [(''op'', JStr ''turn''), (''prompt'', JStr payload),
        (''resume_session'', json_opt (cl_pending_resume a))])
      (a\<lparr>cl_pending_resume := None\<rparr>)"

definition claude_interrupt :: "claude_adapter \<Rightarrow> unit engine_res \<times> claude_adapter" where
  "claude_interrupt = claude_send (JObj [(''op'', JStr ''abort'')])"

definition claude_resume_session :: "string \<Rightarrow> claude_adapter \<Rightarrow> unit engine_res \<times> claude_adapter" where
  "claude_resume_session sid a = (Inr (), a\<lparr>cl_pending_resume := Some sid\<rparr>)"

section \<open>Pi\<close>

definition prompt_request :: "string \<Rightarrow> string \<Rightarrow> json" where
  "prompt_request i message = JObj [(''type'', JStr ''prompt''), (''id'', JStr i), (''message'', JStr message)]"

definition abort_request :: "string \<Rightarrow> json" where
  "abort_request i = JObj [(''type'', JStr ''abort''), (''id'', JStr i)]"

definition concat_text_content :: "json \<Rightarrow> string" where
  "concat_text_content msg =
    (case jget ''content'' msg of
      Some (JArr blocks) \<Rightarrow> text_blocks blocks
    | Some (JStr s) \<Rightarrow> s
    | _ \<Rightarrow> [])"

definition pi_response :: "json \<Rightarrow> engine_event option" where
  "pi_response v =
    (if str_at ''command'' v \<noteq> Some ''prompt'' then None
     else if or_value False (Option.bind (jget ''success'' v) as_bool)
     then Some (Accepted (or_value [] (str_at ''id'' v)))
     else Some (Failed (or_value ''prompt rejected'' (str_at ''error'' v))))"

definition pi_message_update :: "json \<Rightarrow> engine_event option" where
  "pi_message_update v =
    (case jget ''assistantMessageEvent'' v of
      None \<Rightarrow> None
    | Some ame \<Rightarrow>
        if str_at ''type'' ame = Some ''text_delta'' then Some (Note (or_value [] (str_at ''delta'' ame)))
        else None)"

definition pi_agent_end :: "json \<Rightarrow> engine_event option" where
  "pi_agent_end v =
    (if or_value False (Option.bind (jget ''willRetry'' v) as_bool) then None
     else case Option.bind (Option.bind (jget ''messages'' v) as_array)
            (\<lambda>arr. List.find (\<lambda>m. str_at ''role'' m = Some ''assistant'') (rev arr)) of
       None \<Rightarrow> Some (Final [])
     | Some msg \<Rightarrow>
        if str_at ''stopReason'' msg = Some ''aborted'' then Some (Failed ''aborted'')
        else if str_at ''stopReason'' msg = Some ''error''
        then Some (Failed (or_value ''error'' (str_at ''errorMessage'' msg)))
        else Some (Final (concat_text_content msg)))"

definition map_event :: "json \<Rightarrow> engine_event option" where
  "map_event v =
    (case str_at ''type'' v of
      None \<Rightarrow> None
    | Some ty \<Rightarrow>
        if ty = ''response'' then pi_response v
        else if ty = ''message_update'' then pi_message_update v
        else if ty = ''tool_execution_start''
        then Some (Note (''tool: '' @ or_value ''tool'' (str_at ''toolName'' v)))
        else if ty = ''agent_end'' then pi_agent_end v
        else None)"

definition pi_events :: "json \<Rightarrow> engine_event list" where
  "pi_events v = (case map_event v of None \<Rightarrow> [] | Some e \<Rightarrow> [e])"

record pi_adapter =
  pi_child :: line_child
  pi_req_id :: nat

definition pi_command :: "spawn_cfg \<Rightarrow> command" where
  "pi_command cfg =
    \<lparr>cmd_program = or_value ''pi'' (sc_bin_override cfg),
     cmd_args = (if sc_bin_override cfg \<noteq> None then sc_shim_args cfg
       else [''--mode'', ''rpc''] @ (case sc_model cfg of None \<Rightarrow> [] | Some m \<Rightarrow> [''--model'', m])),
     cmd_cwd = sc_cwd cfg, cmd_env = None\<rparr>"

definition pi_new :: "os_env \<Rightarrow> spawn_cfg \<Rightarrow> pi_adapter engine_res" where
  "pi_new E cfg =
    and_then (line_child_spawn E (pi_command cfg) False ''pi'')
      (\<lambda>c. Inr \<lparr>pi_child = c, pi_req_id = 0\<rparr>)"

definition pi_read :: "(string \<Rightarrow> json option) \<Rightarrow> string option \<Rightarrow> pi_adapter \<Rightarrow> pi_adapter" where
  "pi_read parse line a = a\<lparr>pi_child := line_child_read parse pi_events line (pi_child a)\<rparr>"

definition pi_request :: "(string \<Rightarrow> json) \<Rightarrow> pi_adapter \<Rightarrow> unit engine_res \<times> pi_adapter" where
  "pi_request req a =
    (let n = pi_req_id a + 1 in
     case line_child_send (req (''req_'' @ dec n)) (pi_child a) of
       (r, c) \<Rightarrow> (r, a\<lparr>pi_child := c, pi_req_id := n\<rparr>))"

definition pi_start_turn :: "string \<Rightarrow> pi_adapter \<Rightarrow> unit engine_res \<times> pi_adapter" where
  "pi_start_turn payload = pi_request (\<lambda>i. prompt_request i payload)"

definition pi_interrupt :: "pi_adapter \<Rightarrow> unit engine_res \<times> pi_adapter" where
  "pi_interrupt = pi_request abort_request"

end
