(* ===== verification/Codex.thy ===== *)
theory Codex
  imports Adapters
begin

text \<open>
  The codex adapter (\<open>engines/codex.rs\<close>): JSON-RPC over the pipes of \<open>codex app-server\<close>.  A request
  waits for its response: the lines the server prints within the timeout are those that
  \<open>ps_answers\<close> of the process gives for what it has been sent so far, with whether the server is
  still there.  Notifications are left for \<open>poll_events\<close>.
\<close>

record codex_adapter =
  cx_child :: bool
  cx_stdin :: bool
  cx_resp :: "(int \<times> json) list"
  cx_notif :: "json list"
  cx_alive :: bool
  cx_proc :: proc_state
  cx_next_id :: int
  cx_thread_id :: "string option"
  cx_turn :: "string option"
  cx_pending :: "engine_event list"
  cx_pipe :: "string option"
  cx_sent :: "json list"
  cx_answers :: "json list \<Rightarrow> json list \<times> bool"

definition OPT_OUT_METHODS :: "string list" where
  "OPT_OUT_METHODS =
    [''item/agentMessage/delta'', ''item/reasoning/summaryTextDelta'',
     ''item/reasoning/summaryPartAdded'', ''item/reasoning/textDelta'']"

definition dec_int :: "int \<Rightarrow> string" where
  "dec_int n = (if n < 0 then CHR ''-'' # dec (nat (- n)) else dec (nat n))"

section \<open>Reading responses\<close>

definition response_result :: "string \<Rightarrow> json \<Rightarrow> json engine_res" where
  "response_result method msg =
    (case jget ''error'' msg of
      Some err \<Rightarrow>
        Inl (EngineDown, ''codex '' @ method @ '' error '' @
          dec_int (or_value 0 (Option.bind (jget ''code'' err) as_i64)) @ '': '' @
          safe_prefix (or_value [] (str_at ''message'' err)))
    | None \<Rightarrow> Inr (or_value JNull (jget ''result'' msg)))"

text \<open>\<open>{:?}\<close> of an optional string; the quoting of the standard library is the parameter.\<close>

definition debug_opt :: "(string \<Rightarrow> string) \<Rightarrow> string option \<Rightarrow> string" where
  "debug_opt quote x = (case x of None \<Rightarrow> ''None'' | Some s \<Rightarrow> ''Some('' @ quote s @ '')'')"

definition verify_yolo :: "(string \<Rightarrow> string) \<Rightarrow> json \<Rightarrow> unit engine_res" where
  "verify_yolo quote resp =
    (let ap = str_at ''approvalPolicy'' resp;
         st = Option.bind (jget ''sandbox'' resp) (str_at ''type'')
     in if ap \<noteq> Some ''never'' \<or> st \<noteq> Some ''dangerFullAccess''
        then Inl (PolicyDenied, ''codex YOLO mismatch: approvalPolicy='' @ debug_opt quote ap @
               '' sandbox.type='' @ debug_opt quote st)
        else Inr ())"

definition verify_yolo_if_present :: "(string \<Rightarrow> string) \<Rightarrow> json \<Rightarrow> unit engine_res" where
  "verify_yolo_if_present quote resp =
    (if jget ''approvalPolicy'' resp \<noteq> None \<or> jget ''sandbox'' resp \<noteq> None
     then verify_yolo quote resp else Inr ())"

definition extract_final_answer :: "json \<Rightarrow> string" where
  "extract_final_answer turn =
    (case Option.bind (jget ''items'' turn) as_array of
      None \<Rightarrow> []
    | Some items \<Rightarrow>
        (case List.find (\<lambda>i. str_at ''type'' i = Some ''agentMessage'') (rev items) of
          None \<Rightarrow> []
        | Some item \<Rightarrow>
            (case str_at ''text'' item of
              Some t \<Rightarrow> t
            | None \<Rightarrow> text_blocks (or_value [] (Option.bind (jget ''content'' item) as_array)))))"

section \<open>The connection\<close>

text \<open>The reader thread sorts the values it reads into responses and notifications.\<close>

definition codex_receive :: "json \<Rightarrow> codex_adapter \<Rightarrow> codex_adapter" where
  "codex_receive v a =
    (case jget ''method'' v of
      None \<Rightarrow>
        (case jget ''id'' v of
          None \<Rightarrow> a
        | Some i \<Rightarrow> a\<lparr>cx_resp := cx_resp a @ [(or_value 0 (as_i64 i), v)]\<rparr>)
    | Some _ \<Rightarrow> a\<lparr>cx_notif := cx_notif a @ [v]\<rparr>)"

definition codex_read :: "(string \<Rightarrow> json option) \<Rightarrow> string option \<Rightarrow> codex_adapter \<Rightarrow> codex_adapter" where
  "codex_read parse line a =
    (case line of
      None \<Rightarrow> a\<lparr>cx_alive := False\<rparr>
    | Some l \<Rightarrow> (case parse l of None \<Rightarrow> a | Some v \<Rightarrow> codex_receive v a))"

definition codex_send :: "json \<Rightarrow> codex_adapter \<Rightarrow> unit engine_res \<times> codex_adapter" where
  "codex_send v a =
    (if \<not> cx_stdin a then (Inl (Internal, ''codex stdin gone''), a)
     else case cx_pipe a of
       Some msg \<Rightarrow> (Inl (EngineDown, ''codex write: '' @ safe_prefix msg), a)
     | None \<Rightarrow> (Inr (), a\<lparr>cx_sent := cx_sent a @ [v]\<rparr>))"

definition rpc_request :: "int \<Rightarrow> string \<Rightarrow> json \<Rightarrow> json" where
  "rpc_request i method params =
    JObj [(''jsonrpc'', JStr ''2.0''), (''id'', JInt i), (''method'', JStr method), (''params'', params)]"

text \<open>The lines that arrive while the adapter waits.\<close>

definition codex_wait :: "codex_adapter \<Rightarrow> codex_adapter" where
  "codex_wait a =
    (case cx_answers a (cx_sent a) of
      (vs, up) \<Rightarrow> (fold codex_receive vs a)\<lparr>cx_alive := cx_alive a \<and> up\<rparr>)"

definition take_response :: "int \<Rightarrow> string \<Rightarrow> codex_adapter \<Rightarrow> json engine_res \<times> codex_adapter" where
  "take_response i method a =
    (case dropWhile (\<lambda>(rid, _). rid \<noteq> i) (cx_resp a) of
      [] \<Rightarrow>
        (Inl (EngineDown, ''codex rpc timeout ('' @ method @ ''): '' @
           (if cx_alive a then ''timed out waiting on channel''
            else ''channel is empty and sending half is closed'')),
         a\<lparr>cx_resp := []\<rparr>)
    | (_, msg) # rest \<Rightarrow> (response_result method msg, a\<lparr>cx_resp := rest\<rparr>))"

definition codex_call :: "string \<Rightarrow> json \<Rightarrow> codex_adapter \<Rightarrow> json engine_res \<times> codex_adapter" where
  "codex_call method params a =
    (let i = cx_next_id a + 1 in
     bind_res (codex_send (rpc_request i method params) (a\<lparr>cx_next_id := i\<rparr>))
       (\<lambda>_ a. take_response i method (codex_wait a)))"

section \<open>The adapter\<close>

definition codex_version :: string where "codex_version = ''0.1.6''"

definition codex_initialize :: "codex_adapter \<Rightarrow> unit engine_res \<times> codex_adapter" where
  "codex_initialize a =
    bind_res (codex_call ''initialize''
      (JObj [(''clientInfo'', JObj [(''name'', JStr ''crewd''), (''title'', JStr ''crewd cell fabric''),
                (''version'', JStr codex_version)]),
             (''capabilities'', JObj [(''experimentalApi'', JBool False), (''requestAttestation'', JBool False),
                (''optOutNotificationMethods'', JArr (map JStr OPT_OUT_METHODS))])]) a)
      (\<lambda>_ a. (Inr (), a))"

definition codex_thread_start ::
  "(string \<Rightarrow> string) \<Rightarrow> spawn_cfg \<Rightarrow> codex_adapter \<Rightarrow> unit engine_res \<times> codex_adapter" where
  "codex_thread_start quote cfg a =
    bind_res (codex_call ''thread/start''
      (JObj [(''cwd'', JStr (sc_cwd cfg)), (''approvalPolicy'', JStr ''never''),
             (''sandbox'', JStr ''danger-full-access''), (''model'', json_opt (sc_model cfg))]) a)
      (\<lambda>resp a. require (verify_yolo quote resp) a (\<lambda>_.
         (Inr (), a\<lparr>cx_thread_id := Option.bind (jget ''thread'' resp) (str_at ''id'')\<rparr>)))"

definition codex_command :: "spawn_cfg \<Rightarrow> command" where
  "codex_command cfg =
    \<lparr>cmd_program = or_value ''codex'' (sc_bin_override cfg),
     cmd_args = (if sc_bin_override cfg = None then [''app-server''] else []) @ sc_shim_args cfg,
     cmd_cwd = sc_cwd cfg, cmd_env = None\<rparr>"

definition codex_new :: "(string \<Rightarrow> string) \<Rightarrow> os_env \<Rightarrow> spawn_cfg \<Rightarrow> codex_adapter engine_res" where
  "codex_new quote E cfg =
    (case os_spawn E (codex_command cfg) of
      Inl msg \<Rightarrow> Inl (EngineDown, ''codex spawn: '' @ safe_prefix msg)
    | Inr p \<Rightarrow>
        (case bind_res (codex_initialize
              \<lparr>cx_child = True, cx_stdin = True, cx_resp = [], cx_notif = [], cx_alive = True,
               cx_proc = Up, cx_next_id = 0, cx_thread_id = None, cx_turn = None, cx_pending = [],
               cx_pipe = None, cx_sent = [], cx_answers = ps_answers p\<rparr>)
            (\<lambda>_. codex_thread_start quote cfg) of
          (Inl e, _) \<Rightarrow> Inl e
        | (Inr _, a) \<Rightarrow> Inr a))"

definition codex_start_turn ::
  "(string \<Rightarrow> string) \<Rightarrow> string \<Rightarrow> codex_adapter \<Rightarrow> unit engine_res \<times> codex_adapter" where
  "codex_start_turn quote payload a =
    (case cx_thread_id a of
      None \<Rightarrow> (Inl (Internal, ''codex: no engine thread''), a)
    | Some tid \<Rightarrow>
        bind_res (codex_call ''turn/start''
          (JObj [(''threadId'', JStr tid),
                 (''input'', JArr [JObj [(''type'', JStr ''text''), (''text'', JStr payload),
                    (''text_elements'', JArr [])]]),
                 (''approvalPolicy'', JStr ''never''),
                 (''sandboxPolicy'', JObj [(''type'', JStr ''dangerFullAccess'')])]) a)
          (\<lambda>resp a. require (verify_yolo_if_present quote resp) a (\<lambda>_.
             let turn_id = or_value [] (Option.bind (jget ''turn'' resp) (str_at ''id''))
             in (Inr (), a\<lparr>cx_pending := cx_pending a @ [Accepted turn_id], cx_turn := Some turn_id\<rparr>))))"

text \<open>One notification of a poll: the event it gives and whether the turn is over.\<close>

definition codex_event :: "json \<Rightarrow> engine_event option" where
  "codex_event n =
    (let method = or_value [] (str_at ''method'' n) in
     if method = ''turn/completed''
     then Some (Final (extract_final_answer
            (or_value JNull (Option.bind (jget ''params'' n) (jget ''turn'')))))
     else if method = ''turn/failed''
     then Some (Failed (or_value ''turn failed''
            (Option.bind (Option.bind (jget ''params'' n) (jget ''error'')) (str_at ''message''))))
     else None)"

definition codex_poll_events :: "codex_adapter \<Rightarrow> engine_event list \<times> codex_adapter" where
  "codex_poll_events a =
    (let es = List.map_filter codex_event (cx_notif a) in
     (cx_pending a @ es,
      a\<lparr>cx_pending := [], cx_notif := [], cx_turn := (if es = [] then cx_turn a else None)\<rparr>))"

definition codex_interrupt :: "codex_adapter \<Rightarrow> unit engine_res \<times> codex_adapter" where
  "codex_interrupt a =
    (case (cx_thread_id a, cx_turn a) of
      (Some tid, Some turn) \<Rightarrow>
        let i = cx_next_id a + 1;
            a' = snd (codex_send (rpc_request i ''turn/interrupt''
                   (JObj [(''threadId'', JStr tid), (''turnId'', JStr turn)])) (a\<lparr>cx_next_id := i\<rparr>))
        in (Inr (), a'\<lparr>cx_turn := None\<rparr>)
    | _ \<Rightarrow> (Inr (), a))"

definition codex_resume_thread ::
  "(string \<Rightarrow> string) \<Rightarrow> string \<Rightarrow> codex_adapter \<Rightarrow> unit engine_res \<times> codex_adapter" where
  "codex_resume_thread quote tid a =
    bind_res (codex_call ''thread/resume''
      (JObj [(''threadId'', JStr tid), (''approvalPolicy'', JStr ''never''),
             (''sandbox'', JStr ''danger-full-access'')]) a)
      (\<lambda>resp a. require (verify_yolo quote resp) a (\<lambda>_. (Inr (), a\<lparr>cx_thread_id := Some tid\<rparr>)))"

definition codex_proc_state :: "codex_adapter \<Rightarrow> proc_state" where
  "codex_proc_state a = (if cx_alive a then cx_proc a else Down)"

definition codex_shutdown :: "codex_adapter \<Rightarrow> codex_adapter" where
  "codex_shutdown a =
    a\<lparr>cx_child := False, cx_stdin := False, cx_alive := False, cx_proc := Down\<rparr>"

end
