(* ===== verification/Supervisor.thy ===== *)
theory Supervisor
  imports Codex Cells
begin

text \<open>
  The adapter interface and its factory (\<open>engines/mod.rs\<close>) and the supervisor
  (\<open>supervisor.rs\<close>), which keeps one adapter per active cell.
\<close>

section \<open>Boxed adapters\<close>

datatype engine =
  EFake fake_engine | EClaude claude_adapter | ECodex codex_adapter | EPi pi_adapter

text \<open>What the adapters are built in: the operating system and the quoting of \<open>{:?}\<close>.\<close>

record engine_shell =
  sh_os :: os_env
  sh_quote :: "string \<Rightarrow> string"
  sh_parse :: "string \<Rightarrow> json option"

definition make_adapter :: "engine_shell \<Rightarrow> engine_kind \<Rightarrow> spawn_cfg \<Rightarrow> engine engine_res" where
  "make_adapter X k cfg =
    (case k of
      Fake \<Rightarrow> Inr (EFake fake_new)
    | Codex \<Rightarrow> and_then (codex_new (sh_quote X) (sh_os X) cfg) (\<lambda>a. Inr (ECodex a))
    | Claude \<Rightarrow> and_then (claude_new (sh_quote X) (sh_os X) cfg) (\<lambda>a. Inr (EClaude a))
    | Pi \<Rightarrow> and_then (pi_new (sh_os X) cfg) (\<lambda>a. Inr (EPi a)))"

fun engine_caps_of :: "engine \<Rightarrow> engine_caps" where
  "engine_caps_of (EPi _) = \<lparr>supports_session_resume = False, supports_abort = True,
     supports_stream_replay = False, supports_model_override = True, supports_yolo = True\<rparr>"
| "engine_caps_of _ = \<lparr>supports_session_resume = True, supports_abort = True,
     supports_stream_replay = False, supports_model_override = True, supports_yolo = True\<rparr>"

fun engine_start_turn :: "engine_shell \<Rightarrow> string \<Rightarrow> engine \<Rightarrow> unit engine_res \<times> engine" where
  "engine_start_turn X p (EFake a) = apsnd EFake (fake_start_turn p a)"
| "engine_start_turn X p (EClaude a) = apsnd EClaude (claude_start_turn p a)"
| "engine_start_turn X p (ECodex a) = apsnd ECodex (codex_start_turn (sh_quote X) p a)"
| "engine_start_turn X p (EPi a) = apsnd EPi (pi_start_turn p a)"

fun engine_poll_events :: "engine \<Rightarrow> engine_event list \<times> engine" where
  "engine_poll_events (EFake a) = apsnd EFake (fake_poll_events a)"
| "engine_poll_events (EClaude a) =
    apsnd (\<lambda>c. EClaude (a\<lparr>cl_child := c\<rparr>)) (line_child_poll (cl_child a))"
| "engine_poll_events (ECodex a) = apsnd ECodex (codex_poll_events a)"
| "engine_poll_events (EPi a) = apsnd (\<lambda>c. EPi (a\<lparr>pi_child := c\<rparr>)) (line_child_poll (pi_child a))"

fun engine_interrupt :: "engine \<Rightarrow> unit engine_res \<times> engine" where
  "engine_interrupt (EFake a) = apsnd EFake (fake_interrupt a)"
| "engine_interrupt (EClaude a) = apsnd EClaude (claude_interrupt a)"
| "engine_interrupt (ECodex a) = apsnd ECodex (codex_interrupt a)"
| "engine_interrupt (EPi a) = apsnd EPi (pi_interrupt a)"

fun engine_resume_thread :: "engine_shell \<Rightarrow> string \<Rightarrow> engine \<Rightarrow> unit engine_res \<times> engine" where
  "engine_resume_thread X i (ECodex a) = apsnd ECodex (codex_resume_thread (sh_quote X) i a)"
| "engine_resume_thread X i e = (Inl (ThreadNotResumable, ''engine has no thread resume''), e)"

fun engine_resume_session :: "string \<Rightarrow> engine \<Rightarrow> unit engine_res \<times> engine" where
  "engine_resume_session i (EFake a) = apsnd EFake (fake_resume_session i a)"
| "engine_resume_session i (EClaude a) = apsnd EClaude (claude_resume_session i a)"
| "engine_resume_session i e = (Inl (ThreadNotResumable, ''engine has no session resume''), e)"

fun engine_thread_id_of :: "engine \<Rightarrow> string option" where
  "engine_thread_id_of (ECodex a) = cx_thread_id a"
| "engine_thread_id_of _ = None"

fun engine_session_id_of :: "engine \<Rightarrow> string option" where
  "engine_session_id_of (EFake a) = fk_last_session a"
| "engine_session_id_of (EClaude a) = cl_session a"
| "engine_session_id_of _ = None"

fun engine_proc_state :: "engine \<Rightarrow> proc_state" where
  "engine_proc_state (EFake a) = fk_proc a"
| "engine_proc_state (EClaude a) = line_child_proc_state (cl_child a)"
| "engine_proc_state (ECodex a) = codex_proc_state a"
| "engine_proc_state (EPi a) = line_child_proc_state (pi_child a)"

fun engine_shutdown :: "engine \<Rightarrow> engine" where
  "engine_shutdown (EFake a) = EFake (fake_shutdown a)"
| "engine_shutdown (EClaude a) = EClaude (a\<lparr>cl_child := line_child_shutdown (cl_child a)\<rparr>)"
| "engine_shutdown (ECodex a) = ECodex (codex_shutdown a)"
| "engine_shutdown (EPi a) = EPi (a\<lparr>pi_child := line_child_shutdown (pi_child a)\<rparr>)"

text \<open>A line of output (\<open>None\<close> at its end) reaches the reader thread of an engine.\<close>

fun engine_read :: "engine_shell \<Rightarrow> string option \<Rightarrow> engine \<Rightarrow> engine" where
  "engine_read X l (EFake a) = EFake a"
| "engine_read X l (EClaude a) = EClaude (claude_read (sh_parse X) l a)"
| "engine_read X l (ECodex a) = ECodex (codex_read (sh_parse X) l a)"
| "engine_read X l (EPi a) = EPi (pi_read (sh_parse X) l a)"

text \<open>The pipe to an engine breaks: later writes fail with the given message.\<close>

fun engine_break :: "string \<Rightarrow> engine \<Rightarrow> engine" where
  "engine_break msg (EFake a) = EFake a"
| "engine_break msg (EClaude a) = EClaude (a\<lparr>cl_child := (cl_child a)\<lparr>lc_pipe := Some msg\<rparr>\<rparr>)"
| "engine_break msg (ECodex a) = ECodex (a\<lparr>cx_pipe := Some msg\<rparr>)"
| "engine_break msg (EPi a) = EPi (a\<lparr>pi_child := (pi_child a)\<lparr>lc_pipe := Some msg\<rparr>\<rparr>)"

section \<open>The supervisor\<close>

definition RESPAWN_BACKOFF_CAP_SECS :: nat where "RESPAWN_BACKOFF_CAP_SECS = 60"

record supervisor =
  sp_engines :: "string \<rightharpoonup> engine_kind \<times> engine"
  sp_backoff :: "string \<rightharpoonup> nat"

definition supervisor_new :: supervisor where
  "supervisor_new = \<lparr>sp_engines = (\<lambda>_. None), sp_backoff = (\<lambda>_. None)\<rparr>"

definition put_engine :: "string \<Rightarrow> engine_kind \<times> engine \<Rightarrow> supervisor \<Rightarrow> supervisor" where
  "put_engine cell e U = U\<lparr>sp_engines := (sp_engines U)(cell \<mapsto> e)\<rparr>"

definition ensure ::
  "engine_shell \<Rightarrow> string \<Rightarrow> engine_kind \<Rightarrow> spawn_cfg \<Rightarrow> supervisor \<Rightarrow> unit engine_res \<times> supervisor" where
  "ensure X cell k cfg U =
    (case sp_engines U cell of
      Some _ \<Rightarrow> (Inr (), U)
    | None \<Rightarrow>
        (case make_adapter X k cfg of
          Inl e \<Rightarrow> (Inl e, U)
        | Inr a \<Rightarrow> (Inr (), put_engine cell (k, a) U)))"

definition insert_adapter :: "string \<Rightarrow> engine \<Rightarrow> supervisor \<Rightarrow> supervisor" where
  "insert_adapter cell a U =
    (put_engine cell (Fake, a) U)
      \<lparr>sp_backoff := (sp_backoff U)(cell \<mapsto> or_value 0 (sp_backoff U cell))\<rparr>"

definition has_engine :: "string \<Rightarrow> supervisor \<Rightarrow> bool" where
  "has_engine cell U \<longleftrightarrow> sp_engines U cell \<noteq> None"

text \<open>A call on the adapter of a cell; \<open>d\<close> is the result when the cell is not active.\<close>

definition on_engine ::
  "string \<Rightarrow> 'a \<Rightarrow> (engine \<Rightarrow> 'a \<times> engine) \<Rightarrow> supervisor \<Rightarrow> 'a \<times> supervisor" where
  "on_engine cell d f U =
    (case sp_engines U cell of
      None \<Rightarrow> (d, U)
    | Some (k, a) \<Rightarrow> (case f a of (r, a') \<Rightarrow> (r, put_engine cell (k, a') U)))"

definition sup_start_turn ::
  "engine_shell \<Rightarrow> string \<Rightarrow> string \<Rightarrow> supervisor \<Rightarrow> unit engine_res \<times> supervisor" where
  "sup_start_turn X cell payload =
    on_engine cell (Inl (EngineDown, ''no engine for cell '' @ cell)) (engine_start_turn X payload)"

definition sup_poll :: "string \<Rightarrow> supervisor \<Rightarrow> engine_event list \<times> supervisor" where
  "sup_poll cell = on_engine cell [] engine_poll_events"

definition sup_proc_state :: "string \<Rightarrow> supervisor \<Rightarrow> proc_state option" where
  "sup_proc_state cell U = map_option (\<lambda>(_, a). engine_proc_state a) (sp_engines U cell)"

definition sup_interrupt :: "string \<Rightarrow> supervisor \<Rightarrow> unit engine_res \<times> supervisor" where
  "sup_interrupt cell = on_engine cell (Inr ()) engine_interrupt"

definition sup_session_id :: "string \<Rightarrow> supervisor \<Rightarrow> string option" where
  "sup_session_id cell U = Option.bind (sp_engines U cell) (\<lambda>(_, a). engine_session_id_of a)"

definition sup_thread_id :: "string \<Rightarrow> supervisor \<Rightarrow> string option" where
  "sup_thread_id cell U = Option.bind (sp_engines U cell) (\<lambda>(_, a). engine_thread_id_of a)"

definition sup_resume_session :: "string \<Rightarrow> string \<Rightarrow> supervisor \<Rightarrow> unit engine_res \<times> supervisor" where
  "sup_resume_session cell sid = on_engine cell (Inr ()) (engine_resume_session sid)"

definition sup_resume_thread ::
  "engine_shell \<Rightarrow> string \<Rightarrow> string \<Rightarrow> supervisor \<Rightarrow> unit engine_res \<times> supervisor" where
  "sup_resume_thread X cell tid = on_engine cell (Inr ()) (engine_resume_thread X tid)"

text \<open>\<open>stop\<close> drops the adapter and audits \<open>engine_stopped\<close>, best effort.\<close>

definition engine_draft ::
  "string \<Rightarrow> string option \<Rightarrow> string \<Rightarrow> string \<Rightarrow> json option \<Rightarrow> audit_draft" where
  "engine_draft kind mid cell outcome detail =
    \<lparr>dr_kind = kind, dr_message_id = mid, dr_from = None, dr_to = Some cell, dr_outcome = outcome,
     dr_detail = detail\<rparr>"

definition sup_stop :: "string \<Rightarrow> supervisor \<times> core \<Rightarrow> supervisor \<times> core" where
  "sup_stop cell = (\<lambda>(U, c).
    if has_engine cell U
    then (U\<lparr>sp_engines := (sp_engines U)(cell := None)\<rparr>,
          snd (audit_to (engine_draft ''engine_stopped'' None cell ''stopped'' None) c))
    else (U, c))"

text \<open>The step is a \<open>u32\<close> that saturates.\<close>

definition respawn_backoff_secs :: "string \<Rightarrow> supervisor \<Rightarrow> nat \<times> supervisor" where
  "respawn_backoff_secs cell U =
    (let step = or_value 0 (sp_backoff U cell);
         e = checked_shl_or_max 1 step
     in (min RESPAWN_BACKOFF_CAP_SECS e,
         U\<lparr>sp_backoff := (sp_backoff U)(cell \<mapsto> min (step + 1) (2 ^ 32 - 1))\<rparr>))"

end
