(* ===== verification/Scheduler.thy ===== *)
theory Scheduler
  imports Supervisor Jobs
begin

text \<open>
  The job scheduler (\<open>scheduler.rs\<close>).  It shares the store and the audit log with the daemon
  (\<open>sd_core\<close>) and receives cancels over a channel (\<open>sd_cancels\<close>).  The turns in flight are an
  association list; the order in which the code's hash map is iterated is the input \<open>ti_order\<close>
  of a tick.  The clock of a tick is an input too.
\<close>

section \<open>State\<close>

record in_flight_turn =
  if_job_id :: string
  if_cell :: string
  if_started_at_nanos :: nat
  if_engine_turn_id :: "string option"
  if_accepted :: bool

record scheduler =
  sd_core :: core
  sd_supervisor :: supervisor
  sd_lease_secs :: nat
  sd_timeout_secs :: nat
  sd_in_flight :: "(string \<times> in_flight_turn) list"
  sd_cancels :: "string list"
  sd_fake_engine :: "(string \<times> string list) option"
  sd_keys_env_path :: "string option"
  sd_profiles :: "string \<rightharpoonup> profile_def"

record tick_input =
  ti_shell :: engine_shell
  ti_now :: nat
  ti_now_nanos :: nat
  ti_order :: "string list \<Rightarrow> string list"

abbreviation sd_store :: "scheduler \<Rightarrow> store" where "sd_store S \<equiv> fst (sd_core S)"
abbreviation sd_log :: "scheduler \<Rightarrow> audit_log" where "sd_log S \<equiv> snd (sd_core S)"

text \<open>\<open>str::split\<close> at a comma, and the test hook of the environment.\<close>

fun split_commas :: "string \<Rightarrow> string list" where
  "split_commas [] = [[]]"
| "split_commas (c # cs) =
    (if c = CHR '','' then [] # split_commas cs
     else case split_commas cs of w # ws \<Rightarrow> (c # w) # ws | [] \<Rightarrow> [[c]])"

definition fake_engine_override :: "(string \<rightharpoonup> string) \<Rightarrow> (string \<times> string list) option" where
  "fake_engine_override env =
    map_option (\<lambda>bin. (bin, let raw = or_value [] (env ''CREWD_FAKE_ENGINE_ARGS'')
                             in if raw = [] then [] else split_commas raw)) (env ''CREWD_FAKE_ENGINE_BIN'')"

definition scheduler_new :: "(string \<rightharpoonup> string) \<Rightarrow> core \<Rightarrow> scheduler" where
  "scheduler_new env c =
    \<lparr>sd_core = c, sd_supervisor = supervisor_new, sd_lease_secs = 30, sd_timeout_secs = 1800,
     sd_in_flight = [], sd_cancels = [], sd_fake_engine = fake_engine_override env,
     sd_keys_env_path = None, sd_profiles = (\<lambda>_. None)\<rparr>"

definition with_fake_engine :: "string \<Rightarrow> string list \<Rightarrow> scheduler \<Rightarrow> scheduler" where
  "with_fake_engine bin args S = S\<lparr>sd_fake_engine := Some (bin, args)\<rparr>"

definition with_keys_env_path :: "string option \<Rightarrow> scheduler \<Rightarrow> scheduler" where
  "with_keys_env_path p S = S\<lparr>sd_keys_env_path := p\<rparr>"

definition with_profiles :: "(string \<rightharpoonup> profile_def) \<Rightarrow> scheduler \<Rightarrow> scheduler" where
  "with_profiles p S = S\<lparr>sd_profiles := p\<rparr>"

definition with_timeout_secs :: "nat \<Rightarrow> scheduler \<Rightarrow> scheduler" where
  "with_timeout_secs n S = S\<lparr>sd_timeout_secs := min n 7200\<rparr>"

definition engine_active :: "string \<Rightarrow> scheduler \<Rightarrow> bool" where
  "engine_active cell S = has_engine cell (sd_supervisor S)"

definition inject_adapter :: "string \<Rightarrow> engine \<Rightarrow> scheduler \<Rightarrow> scheduler" where
  "inject_adapter cell a S = S\<lparr>sd_supervisor := insert_adapter cell a (sd_supervisor S)\<rparr>"

section \<open>Helpers\<close>

text \<open>A block that holds the store lock.\<close>

definition with_store :: "('a, store) op \<Rightarrow> ('a, scheduler) op" where
  "with_store f S = (case f (sd_store S) of (r, s) \<Rightarrow> (r, S\<lparr>sd_core := (s, sd_log S)\<rparr>))"

definition with_supervisor :: "(supervisor \<Rightarrow> 'a \<times> supervisor) \<Rightarrow> scheduler \<Rightarrow> 'a \<times> scheduler" where
  "with_supervisor f S = (case f (sd_supervisor S) of (x, U) \<Rightarrow> (x, S\<lparr>sd_supervisor := U\<rparr>))"

definition sched_audit :: "audit_draft \<Rightarrow> (unit, scheduler) op" where
  "sched_audit dr S = (case audit_to dr (sd_core S) of (r, c) \<Rightarrow> (r, S\<lparr>sd_core := c\<rparr>))"

definition turn_of :: "string \<Rightarrow> scheduler \<Rightarrow> in_flight_turn option" where
  "turn_of tid S = map_of (sd_in_flight S) tid"

definition drop_turn :: "string \<Rightarrow> scheduler \<Rightarrow> scheduler" where
  "drop_turn tid S = S\<lparr>sd_in_flight := filter (\<lambda>(i, _). i \<noteq> tid) (sd_in_flight S)\<rparr>"

definition put_turn :: "string \<Rightarrow> in_flight_turn \<Rightarrow> scheduler \<Rightarrow> scheduler" where
  "put_turn tid t S =
    S\<lparr>sd_in_flight := filter (\<lambda>(i, _). i \<noteq> tid) (sd_in_flight S) @ [(tid, t)]\<rparr>"

definition change_turn :: "string \<Rightarrow> (in_flight_turn \<Rightarrow> in_flight_turn) \<Rightarrow> scheduler \<Rightarrow> scheduler" where
  "change_turn tid f S =
    S\<lparr>sd_in_flight := map (\<lambda>(i, t). (i, if i = tid then f t else t)) (sd_in_flight S)\<rparr>"

definition stop_engine :: "string \<Rightarrow> scheduler \<Rightarrow> scheduler" where
  "stop_engine cell S =
    (case sup_stop cell (sd_supervisor S, sd_core S) of
      (U, c) \<Rightarrow> S\<lparr>sd_supervisor := U, sd_core := c\<rparr>)"

definition write_journal :: "nat \<Rightarrow> string \<Rightarrow> string \<Rightarrow> (unit, store) op" where
  "write_journal now tid line s = (Inr (), snd (journal_append now tid line s))"

definition requeue_job :: "string \<Rightarrow> (unit, store) op" where
  "requeue_job job_id s = (Inr (), snd (job_requeue job_id s))"

section \<open>Cancels\<close>

definition cancel_cell :: "string \<Rightarrow> scheduler \<Rightarrow> scheduler" where
  "cancel_cell cell S =
    (let S1 = stop_engine cell (snd (with_supervisor (sup_interrupt cell) S))
     in S1\<lparr>sd_in_flight := filter (\<lambda>(_, t). if_cell t \<noteq> cell) (sd_in_flight S1)\<rparr>)"

definition drain_cancels :: "scheduler \<Rightarrow> scheduler" where
  "drain_cancels S = fold cancel_cell (sd_cancels S) (S\<lparr>sd_cancels := []\<rparr>)"

section \<open>The end of a turn\<close>

definition fail_turn ::
  "nat \<Rightarrow> string \<Rightarrow> string \<Rightarrow> string \<Rightarrow> bool \<Rightarrow> string \<Rightarrow> string \<Rightarrow> (unit, scheduler) op" where
  "fail_turn now tid cell job_id accepted err reason S =
    bind_res (with_store (\<lambda>s.
        bind_res (if job_id = [] then (Inr (), s)
                  else if accepted \<or> reason = ''engine_spawn'' then job_finish job_id s
                  else requeue_job job_id s)
          (\<lambda>_. thread_transition now tid TFailedUnknown)) S)
      (\<lambda>_. sched_audit (engine_draft ''cell_turn_failed'' (Some tid) cell ''failed''
         (Some (JObj [(''accepted'', JBool accepted), (''error'', JStr err), (''reason'', JStr reason)]))))"

definition persist_engine_ids :: "nat \<Rightarrow> string \<Rightarrow> string \<Rightarrow> (unit, scheduler) op" where
  "persist_engine_ids now tid cell S =
    (let sid = sup_session_id cell (sd_supervisor S); etid = sup_thread_id cell (sd_supervisor S) in
     if sid \<noteq> None \<or> etid \<noteq> None
     then with_store (thread_set_engine_ids now tid None etid None sid) S
     else (Inr (), S))"

text \<open>One event; the result says whether it ended the turn.\<close>

fun drain_event :: "nat \<Rightarrow> string \<Rightarrow> string \<Rightarrow> engine_event \<Rightarrow> (bool, scheduler) op" where
  "drain_event now tid cell (Accepted turn_id) S =
    bind_res
      (case turn_of tid S of
        None \<Rightarrow> (Inr (), S)
      | Some t \<Rightarrow> with_store (\<lambda>s.
          bind_res (job_mark_accepted now (if_job_id t) turn_id s)
            (\<lambda>_ s. bind_res (thread_set_engine_ids now tid None None (Some turn_id) None s)
              (\<lambda>_. write_journal now tid (''accepted: '' @ turn_id)))) S)
      (\<lambda>_ S. (Inr False,
         change_turn tid (\<lambda>t. t\<lparr>if_engine_turn_id := Some turn_id, if_accepted := True\<rparr>) S))"
| "drain_event now tid cell (Note line) S =
    bind_res (with_store (write_journal now tid line) S) (\<lambda>_ S. (Inr False, S))"
| "drain_event now tid cell (Final answer) S =
    (let job = map_option if_job_id (turn_of tid S) in
     bind_res (persist_engine_ids now tid cell S) (\<lambda>_ S.
     bind_res (with_store (\<lambda>s.
         bind_res (write_journal now tid (''final: '' @ answer) s) (\<lambda>_ s.
         bind_res (case job of None \<Rightarrow> (Inr (), s) | Some j \<Rightarrow> job_finish j s)
           (\<lambda>_. thread_transition now tid TIdle))) S) (\<lambda>_ S.
     bind_res (sched_audit (engine_draft ''cell_turn_completed'' (Some tid) cell ''completed'' None) S)
       (\<lambda>_ S. (Inr True, drop_turn tid S)))))"
| "drain_event now tid cell (Failed err) S =
    (let (job, accepted) = (case turn_of tid S of None \<Rightarrow> ([], False) | Some t \<Rightarrow> (if_job_id t, if_accepted t)) in
     bind_res (fail_turn now tid cell job accepted err ''engine_failed'' S)
       (\<lambda>_ S. (Inr True, drop_turn tid S)))"

fun drain_events :: "nat \<Rightarrow> string \<Rightarrow> string \<Rightarrow> engine_event list \<Rightarrow> (unit, scheduler) op" where
  "drain_events now tid cell [] S = (Inr (), S)"
| "drain_events now tid cell (e # es) S =
    bind_res (drain_event now tid cell e S)
      (\<lambda>over. if over then Pair (Inr ()) else drain_events now tid cell es)"

definition drain_turn :: "nat \<Rightarrow> string \<Rightarrow> (unit, scheduler) op" where
  "drain_turn now tid S =
    (case turn_of tid S of
      None \<Rightarrow> (Inr (), S)
    | Some t \<Rightarrow>
        (case with_supervisor (sup_poll (if_cell t)) S of
          (events, S) \<Rightarrow> drain_events now tid (if_cell t) events S))"

section \<open>Death and timeout\<close>

definition NANOS_PER_SEC :: nat where "NANOS_PER_SEC = 1000000000"

definition handle_timeout :: "nat \<Rightarrow> string \<Rightarrow> (unit, scheduler) op" where
  "handle_timeout now tid S =
    (case turn_of tid S of
      None \<Rightarrow> (Inr (), S)
    | Some t \<Rightarrow>
        bind_res (with_store (\<lambda>s.
            bind_res (case if_engine_turn_id t of
                None \<Rightarrow> (Inr (), s)
              | Some i \<Rightarrow> thread_set_engine_ids now tid None None (Some i) None s) (\<lambda>_ s.
            bind_res (thread_transition now tid TTimeout s) (\<lambda>_.
              if if_accepted t then job_finish (if_job_id t) else requeue_job (if_job_id t)))) (drop_turn tid S))
          (\<lambda>_ S. sched_audit (engine_draft ''cell_timeout'' (Some tid) (if_cell t) ''timeout''
              (map_option (\<lambda>i. JObj [(''engine_turn_id'', JStr i)]) (if_engine_turn_id t)))
            (snd (with_supervisor (sup_interrupt (if_cell t)) S))))"

definition check_death_and_timeout :: "nat \<Rightarrow> nat \<Rightarrow> string \<Rightarrow> (unit, scheduler) op" where
  "check_death_and_timeout now now_nanos tid S =
    (case turn_of tid S of
      None \<Rightarrow> (Inr (), S)
    | Some t \<Rightarrow>
        if sup_proc_state (if_cell t) (sd_supervisor S) = Some Down then
          bind_res (fail_turn now tid (if_cell t) (if_job_id t) (if_accepted t)
              ''engine process died'' ''engine_death'' S)
            (\<lambda>_ S. (Inr (), snd (with_supervisor (respawn_backoff_secs (if_cell t))
                       (stop_engine (if_cell t) (drop_turn tid S)))))
        else if min (sd_timeout_secs S * NANOS_PER_SEC) U64_MAX < now_nanos - if_started_at_nanos t
        then handle_timeout now tid S
        else (Inr (), S))"

section \<open>Starting turns\<close>

definition spawn_cfg_of :: "scheduler \<Rightarrow> cell_def \<Rightarrow> spawn_cfg" where
  "spawn_cfg_of S d =
    (let cfg = default_cfg\<lparr>sc_cwd := c_cwd d, sc_model := c_model d, sc_profile := c_profile d,
                           sc_timeout_secs := sd_timeout_secs S\<rparr> in
     case sd_fake_engine S of
       Some (bin, args) \<Rightarrow>
         cfg\<lparr>sc_bin_override := Some bin, sc_spawn_direct := True, sc_shim_args := args\<rparr>
     | None \<Rightarrow>
         cfg\<lparr>sc_keys_env_path := sd_keys_env_path S,
             sc_profile_def := Option.bind (c_profile d) (sd_profiles S)\<rparr>)"

definition maybe_resume :: "engine_shell \<Rightarrow> cell_def \<Rightarrow> cell_thread \<Rightarrow> scheduler \<Rightarrow> scheduler" where
  "maybe_resume X d t S =
    (if c_engine d = Codex then
       (case t_engine_thread_id t of
         None \<Rightarrow> S | Some i \<Rightarrow> snd (with_supervisor (sup_resume_thread X (c_name d) i) S))
     else
       (case t_engine_session_id t of
         None \<Rightarrow> S | Some i \<Rightarrow> snd (with_supervisor (sup_resume_session (c_name d) i) S)))"

definition launch :: "tick_input \<Rightarrow> cell_def \<Rightarrow> cell_job \<Rightarrow> cell_thread \<Rightarrow> (unit, scheduler) op" where
  "launch I d job t S =
    (let tid = j_crewd_thread_id job; cell = c_name d in
     case with_supervisor (ensure (ti_shell I) cell (c_engine d) (spawn_cfg_of S d)) S of
       (Inl e, S) \<Rightarrow> fail_turn (ti_now I) tid cell (j_job_id job) False (error_text e) ''engine_spawn'' S
     | (Inr _, S) \<Rightarrow>
        (case with_supervisor (sup_start_turn (ti_shell I) cell (j_payload job))
                (maybe_resume (ti_shell I) d t S) of
          (Inl e, S) \<Rightarrow> fail_turn (ti_now I) tid cell (j_job_id job) False (error_text e) ''start_turn'' S
        | (Inr _, S) \<Rightarrow> (Inr (), put_turn tid
            \<lparr>if_job_id = j_job_id job, if_cell = cell, if_started_at_nanos = ti_now_nanos I,
             if_engine_turn_id = None, if_accepted = False\<rparr> S)))"

definition try_start_turn :: "tick_input \<Rightarrow> cell_def \<Rightarrow> (unit, scheduler) op" where
  "try_start_turn I d S =
    (case job_lease_next (ti_now I) (c_name d) (sd_lease_secs S) (sd_store S) of
      (None, s) \<Rightarrow> (Inr (), S\<lparr>sd_core := (s, sd_log S)\<rparr>)
    | (Some job, s) \<Rightarrow>
       (let S = S\<lparr>sd_core := (s, sd_log S)\<rparr>; tid = j_crewd_thread_id job in
        case thread_get tid (sd_store S) of
          None \<Rightarrow> (Inr (), S)
        | Some t \<Rightarrow>
            if \<not> thread_transition_allowed (t_state t) TRunning then (Inr (), S)
            else
              bind_res (with_store (\<lambda>s. bind_res (job_mark_started (j_job_id job) s)
                  (\<lambda>_. thread_transition (ti_now I) tid TRunning)) S) (\<lambda>_ S.
              bind_res (sched_audit (engine_draft ''cell_turn_started'' (Some tid) (c_name d) ''started'' None) S)
                (\<lambda>_. launch I d job t))))"

section \<open>The tick\<close>

fun for_each :: "('a \<Rightarrow> (unit, 's) op) \<Rightarrow> 'a list \<Rightarrow> (unit, 's) op" where
  "for_each f [] S = (Inr (), S)"
| "for_each f (x # xs) S = bind_res (f x S) (\<lambda>_. for_each f xs)"

definition turn_ids :: "tick_input \<Rightarrow> scheduler \<Rightarrow> string list" where
  "turn_ids I S = ti_order I (map fst (sd_in_flight S))"

definition start_if_idle :: "tick_input \<Rightarrow> cell_def \<Rightarrow> (unit, scheduler) op" where
  "start_if_idle I d S =
    (if c_name d \<in> (if_cell \<circ> snd) ` set (sd_in_flight S) then (Inr (), S) else try_start_turn I d S)"

definition requeue_expired :: "nat \<Rightarrow> scheduler \<Rightarrow> scheduler" where
  "requeue_expired now S =
    S\<lparr>sd_core := (snd (job_requeue_expired_leases (now_rfc3339 now) (sd_store S)), sd_log S)\<rparr>"

definition sched_tick :: "tick_input \<Rightarrow> (unit, scheduler) op" where
  "sched_tick I S =
    (let S = requeue_expired (ti_now I) (drain_cancels S);
         existing = turn_ids I S in
     bind_res (for_each (drain_turn (ti_now I)) existing S) (\<lambda>_ S.
     bind_res (for_each (check_death_and_timeout (ti_now I) (ti_now_nanos I)) (turn_ids I S) S) (\<lambda>_ S.
     bind_res (for_each (start_if_idle I)
        (cell_list_defs (sd_store S) @ ephemeral_startable_defs (sd_store S)) S) (\<lambda>_ S.
       for_each (drain_turn (ti_now I)) (filter (\<lambda>i. i \<notin> set existing) (turn_ids I S)) S))))"

text \<open>\<open>run_loop\<close>: a tick error is logged and the loop goes on.\<close>

definition run_loop :: "tick_input list \<Rightarrow> scheduler \<Rightarrow> scheduler" where
  "run_loop = fold (\<lambda>I S. snd (sched_tick I S))"

text \<open>A line of an engine's output reaches its reader thread between two steps.\<close>

definition engine_output :: "engine_shell \<Rightarrow> string \<Rightarrow> string option \<Rightarrow> scheduler \<Rightarrow> scheduler" where
  "engine_output X cell line S =
    snd (with_supervisor (on_engine cell () (\<lambda>a. ((), engine_read X line a))) S)"

definition engine_breaks :: "string \<Rightarrow> string \<Rightarrow> scheduler \<Rightarrow> scheduler" where
  "engine_breaks cell msg S =
    snd (with_supervisor (on_engine cell () (\<lambda>a. ((), engine_break msg a))) S)"

section \<open>Boot recovery\<close>

definition recover_thread ::
  "nat \<Rightarrow> string \<Rightarrow> thread_state \<Rightarrow> string \<Rightarrow> cell_thread \<Rightarrow> (unit, core) op" where
  "recover_thread now outcome target previous t c =
    bind_res (audit_to (engine_draft ''cell_turn_failed'' (Some (t_crewd_thread_id t)) (t_cell_name t) outcome
        (Some (JObj [(''reason'', JStr ''boot_recovery''), (''previous_state'', JStr previous)]))) c)
      (\<lambda>_ (s, l). (case thread_transition now (t_crewd_thread_id t) target s of (r, s') \<Rightarrow> (r, (s', l))))"

definition boot_recovery :: "nat \<Rightarrow> (string list, core) op" where
  "boot_recovery now c =
    (let running = threads_in_states [TRunning] (fst c) in
     bind_res (for_each (recover_thread now ''interrupted'' TInterrupted ''running'') running c) (\<lambda>_ c.
     (let spawning = threads_in_states [TSpawning] (fst c) in
      bind_res (for_each (recover_thread now ''failed_unknown'' TFailedUnknown ''spawning'') spawning c) (\<lambda>_ c.
        (Inr (map t_crewd_thread_id running @ map t_crewd_thread_id spawning), c)))))"

end
