(* ===== verification/Turns.thy ===== *)
theory Turns
  imports Scheduler
begin

text \<open>
  What the scheduler may do, as a protocol of small edits of its state, and the refinement: every
  tick is a sequence of such edits.  A turn is only taken on for a cell without one, after its
  \<open>cell_turn_started\<close> event is durable; a job is only started in a cell where none is.
\<close>

section \<open>The protocol\<close>

definition job_accepted :: "string \<Rightarrow> store \<Rightarrow> bool" where
  "job_accepted i s \<longleftrightarrow> (\<exists>j. job_get i s = Some j \<and> j_accepted_by_engine_at j \<noteq> None)"

definition turn_announced :: "string \<Rightarrow> audit_log \<Rightarrow> bool" where
  "turn_announced tid l \<longleftrightarrow>
    (\<exists>ev \<in> set (al_events l). dr_kind ev = ''cell_turn_started'' \<and> dr_message_id ev = Some tid)"

inductive turn_store_edit :: "store \<Rightarrow> store \<Rightarrow> bool" where
  requeue_old: "turn_store_edit s (snd (job_requeue_expired_leases ts s))"
| lease: "turn_store_edit s (snd (job_lease_next now cell secs s))"
| start: "job_get i s = Some j \<Longrightarrow> \<not> cell_blocked (j_cell_name j) s \<Longrightarrow>
    turn_store_edit s (snd (job_mark_started i s))"
| accept: "turn_store_edit s (snd (job_mark_accepted now i turn s))"
| finish: "turn_store_edit s (snd (job_finish i s))"
| give_back: "turn_store_edit s (snd (job_requeue i s))"
| move: "turn_store_edit s (snd (thread_transition now tid target s))"
| note_ids: "turn_store_edit s (snd (thread_set_engine_ids now tid p th tu se s))"
| append_line: "turn_store_edit s (snd (journal_append now tid line s))"

inductive turn_edit :: "scheduler \<Rightarrow> scheduler \<Rightarrow> bool" where
  record_event: "turn_edit S (S\<lparr>sd_core := snd (audit_to dr (sd_core S))\<rparr>)"
| use_engine: "turn_edit S (S\<lparr>sd_supervisor := U\<rparr>)"
| take_cancels: "turn_edit S (S\<lparr>sd_cancels := []\<rparr>)"
| change_store: "turn_store_edit (sd_store S) s \<Longrightarrow> turn_edit S (S\<lparr>sd_core := (s, sd_log S)\<rparr>)"
| drop: "turn_edit S (S\<lparr>sd_in_flight := filter P (sd_in_flight S)\<rparr>)"
| accepted: "turn_of tid S = Some t \<Longrightarrow> job_accepted (if_job_id t) (sd_store S) \<Longrightarrow>
    turn_edit S (change_turn tid (\<lambda>t. t\<lparr>if_engine_turn_id := x, if_accepted := True\<rparr>) S)"
| take_on: "if_cell t \<notin> (if_cell \<circ> snd) ` set (sd_in_flight S) \<Longrightarrow> \<not> if_accepted t \<Longrightarrow>
    turn_announced tid (sd_log S) \<Longrightarrow> turn_edit S (put_turn tid t S)"

abbreviation turn_edits :: "scheduler \<Rightarrow> scheduler \<Rightarrow> bool" where
  "turn_edits \<equiv> turn_edit\<^sup>*\<^sup>*"

section \<open>The refinement\<close>

lemma turn_edit_once: "turn_edits S0 S \<Longrightarrow> turn_edit S T \<Longrightarrow> turn_edits S0 T"
  by (rule rtranclp.rtrancl_into_rtrancl)

lemma edits_store:
  "turn_store_edit\<^sup>*\<^sup>* (sd_store S) s \<Longrightarrow> turn_edits S0 S \<Longrightarrow> turn_edits S0 (S\<lparr>sd_core := (s, sd_log S)\<rparr>)"
proof (induction rule: rtranclp_induct)
  case base
  then show ?case by simp
next
  case (step s t)
  from turn_edit_once [OF step(3) [OF step(4)], OF change_store [where s = t]] step(2) show ?case by simp
qed

lemma edits_with_store:
  "turn_edits S0 S \<Longrightarrow> turn_store_edit\<^sup>*\<^sup>* (sd_store S) (snd (f (sd_store S))) \<Longrightarrow>
   turn_edits S0 (snd (with_store f S))"
  by (auto simp: with_store_def edits_store split: prod.split)

lemma edits_engine: "turn_edits S0 S \<Longrightarrow> turn_edits S0 (snd (with_supervisor f S))"
  by (auto simp: with_supervisor_def intro: turn_edit_once use_engine split: prod.split)

lemma edits_engine_eq: "with_supervisor f S = (r, T) \<Longrightarrow> turn_edits S0 S \<Longrightarrow> turn_edits S0 T"
  using edits_engine [of S0 S f] by simp

lemma edits_audit: "turn_edits S0 S \<Longrightarrow> turn_edits S0 (snd (sched_audit dr S))"
  using turn_edit_once [OF _ record_event [of S dr]]
  by (simp add: sched_audit_def case_prod_beta)

lemma edits_stop: "turn_edits S0 S \<Longrightarrow> turn_edits S0 (stop_engine cell S)"
proof -
  assume a: "turn_edits S0 S"
  let ?U = "(sd_supervisor S)\<lparr>sp_engines := (sp_engines (sd_supervisor S))(cell := None)\<rparr>"
  let ?dr = "engine_draft ''engine_stopped'' None cell ''stopped'' None"
  have "turn_edits S0 (S\<lparr>sd_supervisor := ?U, sd_core := snd (audit_to ?dr (sd_core S))\<rparr>)"
    using turn_edit_once [OF turn_edit_once [OF a use_engine [of S ?U]], OF record_event [where dr = ?dr]] by simp
  then show ?thesis using a by (simp add: stop_engine_def sup_stop_def)
qed

lemma edits_drop: "turn_edits S0 S \<Longrightarrow> turn_edits S0 (drop_turn tid S)"
  unfolding drop_turn_def by (erule turn_edit_once) (rule drop)

lemma store_step: "turn_store_edit s t \<Longrightarrow> turn_store_edit\<^sup>*\<^sup>* s t"
  by (rule r_into_rtranclp)

lemma store_ops:
  "turn_store_edit\<^sup>*\<^sup>* s0 s \<Longrightarrow> turn_store_edit\<^sup>*\<^sup>* s0 (snd (job_finish i s))"
  "turn_store_edit\<^sup>*\<^sup>* s0 s \<Longrightarrow> turn_store_edit\<^sup>*\<^sup>* s0 (snd (requeue_job i s))"
  "turn_store_edit\<^sup>*\<^sup>* s0 s \<Longrightarrow> turn_store_edit\<^sup>*\<^sup>* s0 (snd (thread_transition now tid target s))"
  "turn_store_edit\<^sup>*\<^sup>* s0 s \<Longrightarrow> turn_store_edit\<^sup>*\<^sup>* s0 (snd (thread_set_engine_ids now tid p th tu se s))"
  "turn_store_edit\<^sup>*\<^sup>* s0 s \<Longrightarrow> turn_store_edit\<^sup>*\<^sup>* s0 (snd (write_journal now tid line s))"
  "turn_store_edit\<^sup>*\<^sup>* s0 s \<Longrightarrow> turn_store_edit\<^sup>*\<^sup>* s0 (snd (job_mark_accepted now i turn s))"
  by (auto simp: requeue_job_def write_journal_def
      intro: rtranclp.rtrancl_into_rtrancl finish give_back move note_ids append_line accept)

lemma edits_fail_turn:
  "turn_edits S0 S \<Longrightarrow> turn_edits S0 (snd (fail_turn now tid cell job acc err reason S))"
  unfolding fail_turn_def
  by (intro after_bind edits_with_store edits_audit) (auto intro: store_ops)

lemma edits_persist_ids: "turn_edits S0 S \<Longrightarrow> turn_edits S0 (snd (persist_engine_ids now tid cell S))"
  unfolding persist_engine_ids_def Let_def by (auto intro!: edits_with_store store_ops)

text \<open>Only the bookkeeping changes the turns in flight.\<close>

lemma with_store_turns [simp]: "sd_in_flight (snd (with_store f S)) = sd_in_flight S"
  by (simp add: with_store_def split: prod.split)

lemma with_supervisor_frame [simp]:
  "sd_in_flight (snd (with_supervisor f S)) = sd_in_flight S" "sd_core (snd (with_supervisor f S)) = sd_core S"
  "sd_cancels (snd (with_supervisor f S)) = sd_cancels S"
  by (simp_all add: with_supervisor_def split: prod.split)

lemma with_supervisor_frame_eq:
  "with_supervisor f S = (r, T) \<Longrightarrow> sd_in_flight T = sd_in_flight S \<and> sd_core T = sd_core S"
  using with_supervisor_frame [of f S] by simp

lemma sched_audit_turns [simp]: "sd_in_flight (snd (sched_audit dr S)) = sd_in_flight S"
  by (simp add: sched_audit_def split: prod.split)

lemma mark_accepted_ok:
  "job_mark_accepted now i turn s = (Inr u, t) \<Longrightarrow> job_accepted i t"
  by (auto simp: job_mark_accepted_def set_job_def job_accepted_def job_get_update split: if_splits)

lemma edits_accepted:
  assumes "turn_edits S0 S"
  shows "turn_edits S0 (snd (drain_event now tid cell (Accepted turn_id) S))"
proof (cases "turn_of tid S")
  case None
  then have "change_turn tid f S = S" for f
    by (auto simp: change_turn_def turn_of_def map_of_eq_None_iff dest: weak_map_of_SomeI
        intro!: scheduler.equality map_idI) (metis fst_conv image_eqI)+
  with None assms show ?thesis by simp
next
  case (Some t)
  let ?f = "\<lambda>s. bind_res (job_mark_accepted now (if_job_id t) turn_id s)
      (\<lambda>_ s. bind_res (thread_set_engine_ids now tid None None (Some turn_id) None s)
        (\<lambda>_. write_journal now tid (''accepted: '' @ turn_id)))"
  obtain r T where w: "with_store ?f S = (r, T)" by (metis prod.exhaust)
  have T: "turn_edits S0 T"
    using edits_with_store [OF assms, of ?f] unfolding w by (auto intro!: after_bind store_ops)
  have tn: "turn_of tid T = Some t" using with_store_turns [of ?f S] Some unfolding w by (simp add: turn_of_def)
  show ?thesis
  proof (cases r)
    case (Inr u)
    have "job_accepted (if_job_id t) (sd_store T)"
      using w Inr
      by (auto simp: with_store_def bind_res_Inr write_journal_def journal_append_def Let_def
          thread_set_engine_ids_def update_thread_def job_accepted_def job_get_def
          dest!: mark_accepted_ok split: prod.splits if_splits)
    from turn_edit_once [OF T accepted [OF tn this]] show ?thesis
      unfolding drain_event.simps Some option.case w Inr by simp
  next
    case (Inl e)
    with T show ?thesis unfolding drain_event.simps Some option.case w by simp
  qed
qed

lemma edits_drain_event: "turn_edits S0 S \<Longrightarrow> turn_edits S0 (snd (drain_event now tid cell ev S))"
proof (cases ev)
  case (Final answer)
  assume "turn_edits S0 S"
  then show ?thesis
    unfolding Final drain_event.simps Let_def
    by (intro after_bind edits_persist_ids edits_with_store edits_audit)
      (auto intro!: edits_drop intro: store_ops split: option.split)
qed (auto intro!: edits_accepted after_bind edits_with_store edits_drop edits_fail_turn store_ops
    simp del: drain_event.simps(1) split: option.split prod.split)

lemma edits_drain_events: "turn_edits S0 S \<Longrightarrow> turn_edits S0 (snd (drain_events now tid cell es S))"
proof (induction es arbitrary: S)
  case (Cons e es)
  show ?case
    unfolding drain_events.simps
    by (rule after_bind [OF edits_drain_event [OF Cons.prems]]) (auto intro: Cons.IH)
qed simp

lemma edits_drain_turn: "turn_edits S0 S \<Longrightarrow> turn_edits S0 (snd (drain_turn now tid S))"
  unfolding drain_turn_def
  by (auto intro!: edits_drain_events dest: edits_engine_eq split: option.split prod.split)

lemma edits_timeout: "turn_edits S0 S \<Longrightarrow> turn_edits S0 (snd (handle_timeout now tid S))"
  unfolding handle_timeout_def
  by (auto intro!: after_bind edits_with_store edits_audit edits_engine edits_drop intro: store_ops split: option.split)

lemma edits_death: "turn_edits S0 S \<Longrightarrow> turn_edits S0 (snd (check_death_and_timeout now nanos tid S))"
  unfolding check_death_and_timeout_def
  by (auto intro!: after_bind edits_fail_turn edits_engine edits_stop edits_drop edits_timeout split: option.split)


section \<open>Taking on a turn\<close>

lemma jobs_ok_cong: "s_jobs t = s_jobs s \<Longrightarrow> jobs_ok t = jobs_ok s"
  by (simp add: jobs_ok_def)

lemma thread_ops_jobs [simp]:
  "s_jobs (snd (thread_transition now tid target s)) = s_jobs s"
  "s_jobs (snd (thread_set_engine_ids now tid p th tu se s)) = s_jobs s"
  "s_jobs (snd (journal_append now tid line s)) = s_jobs s"
  by (simp_all add: thread_transition_def thread_set_engine_ids_def update_thread_def journal_append_def
      Let_def split: option.split)

lemma jobs_ok_update_job:
  "jobs_ok s \<Longrightarrow> (\<And>j. j_job_id (f j) = j_job_id j) \<Longrightarrow> (\<And>j. j_cell_name (f j) = j_cell_name j) \<Longrightarrow>
   (\<And>j. j_enqueue_seq (f j) = j_enqueue_seq j) \<Longrightarrow> jobs_ok (update_job i f s)"
  unfolding update_job_def by (rule jobs_ok_update)

lemma jobs_ok_set_job:
  "jobs_ok s \<Longrightarrow> (\<And>j. j_job_id (f j) = j_job_id j) \<Longrightarrow> (\<And>j. j_cell_name (f j) = j_cell_name j) \<Longrightarrow>
   (\<And>j. j_enqueue_seq (f j) = j_enqueue_seq j) \<Longrightarrow> jobs_ok (snd (set_job i f s))"
  by (simp add: set_job_def jobs_ok_update_job)

lemma lease_jobs_ok: "jobs_ok s \<Longrightarrow> jobs_ok (snd (job_lease_next now cell secs s))"
  unfolding job_lease_next_def Let_def by (auto intro!: jobs_ok_update_job split: list.split)

lemma store_edit_jobs_ok: "turn_store_edit s t \<Longrightarrow> jobs_ok s \<Longrightarrow> jobs_ok t"
proof (induction rule: turn_store_edit.induct)
  case (requeue_old s ts)
  then show ?case unfolding requeue_expired_eq by (rule jobs_ok_update) simp_all
next
  case (give_back s i)
  then show ?case by (simp add: job_requeue_def jobs_ok_update)
next
  case (lease s now cell secs)
  then show ?case by (rule lease_jobs_ok)
qed (simp_all add: job_mark_started_def job_mark_accepted_def job_finish_def jobs_ok_set_job jobs_ok_cong [OF thread_ops_jobs(1)]
    jobs_ok_cong [OF thread_ops_jobs(2)] jobs_ok_cong [OF thread_ops_jobs(3)])

lemma audit_to_store [simp]: "fst (snd (audit_to dr c)) = fst c"
  by (cases c) (simp add: audit_to_def split: prod.split sum.split)

lemma turn_edit_jobs_ok: "turn_edit S T \<Longrightarrow> jobs_ok (sd_store S) \<Longrightarrow> jobs_ok (sd_store T)"
  by (induction rule: turn_edit.induct) (auto simp: change_turn_def put_turn_def intro: store_edit_jobs_ok)

lemma turn_edits_jobs_ok: "turn_edits S T \<Longrightarrow> jobs_ok (sd_store S) \<Longrightarrow> jobs_ok (sd_store T)"
  by (induction rule: rtranclp_induct) (auto intro: turn_edit_jobs_ok)

lemma lease_facts:
  assumes "jobs_ok s" "job_lease_next now cell secs s = (Some j, t)"
  shows "job_get (j_job_id j) t = Some j \<and> j_cell_name j = cell \<and> \<not> cell_blocked cell t"
proof -
  let ?f = "\<lambda>j. j\<lparr>j_state := JLeased, j_lease_expires_at := Some (rfc3339_after now secs)\<rparr>"
  from assms(2) have nb: "\<not> cell_blocked cell s" by (auto simp: job_lease_next_def split: if_splits)
  obtain k ks where k: "queued_jobs cell s = k # ks"
    using assms(2) nb by (auto simp: job_lease_next_def split: list.splits)
  then have kin: "k \<in> set (s_jobs s)" "j_cell_name k = cell" using set_queued [of cell s] by auto
  have j: "j = ?f k" "t = update_job (j_job_id k) ?f s"
    using lease_next_spec [OF assms(1) nb, of now secs] k assms(2) by auto
  have "\<not> cell_blocked cell (update_job (j_job_id k) ?f s)" by (rule cell_blocked_update [OF _ nb]) simp
  with j kin show ?thesis by (simp add: job_get_update job_get_in [OF assms(1)])
qed

lemma maybe_resume_frame [simp]:
  "sd_in_flight (maybe_resume X d t S) = sd_in_flight S" "sd_core (maybe_resume X d t S) = sd_core S"
  by (simp_all add: maybe_resume_def split: option.split)

lemma edits_resume: "turn_edits S0 S \<Longrightarrow> turn_edits S0 (maybe_resume X d t S)"
  by (simp add: maybe_resume_def edits_engine split: option.split)

lemma edits_launch:
  assumes "turn_edits S0 S" "c_name d \<notin> (if_cell \<circ> snd) ` set (sd_in_flight S)"
    "turn_announced (j_crewd_thread_id job) (sd_log S)"
  shows "turn_edits S0 (snd (launch I d job t S))"
proof -
  obtain r S1 where e: "with_supervisor (ensure (ti_shell I) (c_name d) (c_engine d) (spawn_cfg_of S d)) S = (r, S1)"
    by (metis prod.exhaust)
  note S1 = edits_engine_eq [OF e assms(1)] and f1 = with_supervisor_frame_eq [OF e]
  obtain q S2 where g: "with_supervisor (sup_start_turn (ti_shell I) (c_name d) (j_payload job))
      (maybe_resume (ti_shell I) d t S1) = (q, S2)" by (metis prod.exhaust)
  note S2 = edits_engine_eq [OF g edits_resume [OF S1]] and f2 = with_supervisor_frame_eq [OF g]
  have "turn_edits S0 (put_turn (j_crewd_thread_id job)
      \<lparr>if_job_id = j_job_id job, if_cell = c_name d, if_started_at_nanos = ti_now_nanos I,
       if_engine_turn_id = None, if_accepted = False\<rparr> S2)"
    by (rule turn_edit_once [OF S2 take_on]) (use assms f1 f2 in auto)
  then show ?thesis
    using edits_fail_turn [OF S1] edits_fail_turn [OF S2]
    by (cases r; cases q) (simp_all add: launch_def Let_def e g)
qed

lemma sched_audit_announced:
  assumes "sched_audit (engine_draft ''cell_turn_started'' (Some tid) cell ''started'' None) S = (Inr u, T)"
  shows "turn_announced tid (sd_log T)"
proof -
  obtain s l where c: "sd_core S = (s, l)" by (metis prod.exhaust)
  show ?thesis
    using assms
    by (auto simp: sched_audit_def audit_to_def c turn_announced_def engine_draft_def
        split: prod.splits sum.splits dest!: audit_emit_cases)
qed


lemma edits_mark_started:
  assumes "turn_edits S0 S" "job_get i (sd_store S) = Some j" "\<not> cell_blocked (j_cell_name j) (sd_store S)"
  shows "turn_edits S0 (snd (with_store (\<lambda>s. bind_res (job_mark_started i s)
    (\<lambda>_. thread_transition now tid TRunning)) S))"
  using turn_store_edit.start [OF assms(2,3)]
  by (intro edits_with_store assms(1) after_bind) (auto intro: store_ops)

lemma edits_try_start:
  assumes "turn_edits S0 S" "jobs_ok (sd_store S)" "c_name d \<notin> (if_cell \<circ> snd) ` set (sd_in_flight S)"
  shows "turn_edits S0 (snd (try_start_turn I d S))"
proof -
  obtain q s where l: "job_lease_next (ti_now I) (c_name d) (sd_lease_secs S) (sd_store S) = (q, s)"
    by (metis prod.exhaust)
  let ?S1 = "S\<lparr>sd_core := (s, sd_log S)\<rparr>"
  have S1: "turn_edits S0 ?S1"
    using turn_edit_once [OF assms(1) change_store [OF lease [of _ "ti_now I" "c_name d" "sd_lease_secs S"]]] l by simp
  show ?thesis
  proof (cases q)
    case (Some job)
    note lf = lease_facts [OF assms(2) l [unfolded Some]]
    let ?tid = "j_crewd_thread_id job"
    let ?dr = "engine_draft ''cell_turn_started'' (Some ?tid) (c_name d) ''started'' None"
    let ?mark = "\<lambda>s. bind_res (job_mark_started (j_job_id job) s) (\<lambda>_. thread_transition (ti_now I) ?tid TRunning)"
    obtain r2 S2 where m: "with_store ?mark ?S1 = (r2, S2)" by (metis prod.exhaust)
    have "turn_edits S0 (snd (with_store ?mark ?S1))" 
      by (rule edits_mark_started [OF S1, where j = job]) (use lf in auto)
    then have S2: "turn_edits S0 S2" unfolding m by simp
    have f2: "sd_in_flight S2 = sd_in_flight S" using with_store_turns [of ?mark ?S1] unfolding m by simp
    obtain r3 S3 where a: "sched_audit ?dr S2 = (r3, S3)" by (metis prod.exhaust)
    have S3: "turn_edits S0 S3" using edits_audit [OF S2, of ?dr] unfolding a by simp
    have f3: "sd_in_flight S3 = sd_in_flight S" using sched_audit_turns [of ?dr S2] f2 unfolding a by simp
    have go: "turn_edits S0 (snd (launch I d job t S3))" if "r3 = Inr u" for t u
      using sched_audit_announced [OF a [unfolded that]] assms(3) f3 by (intro edits_launch S3) simp_all
    have "turn_edits S0 (snd (bind_res (with_store ?mark ?S1) (\<lambda>_ S. bind_res (sched_audit ?dr S) (\<lambda>_. launch I d job t))))" for t
      unfolding m using S2 S3 go by (cases r2; cases r3) (simp_all add: a)
    then show ?thesis
      using S1 unfolding try_start_turn_def l Some Let_def by (simp split: option.split)
  qed (use S1 l in \<open>simp add: try_start_turn_def\<close>)
qed

section \<open>A tick\<close>

lemma edits_for_each:
  assumes "\<And>x S. turn_edits S0 S \<Longrightarrow> turn_edits S0 (snd (f x S))" "turn_edits S0 S"
  shows "turn_edits S0 (snd (for_each f xs S))"
  using assms(2) by (induction xs arbitrary: S) (auto intro!: after_bind assms(1))

lemma edits_cancel_cell: "turn_edits S0 S \<Longrightarrow> turn_edits S0 (cancel_cell cell S)"
  unfolding cancel_cell_def Let_def
  by (rule turn_edit_once [OF _ drop]) (intro edits_stop edits_engine)

lemma edits_drain_cancels: "turn_edits S (drain_cancels S)"
proof -
  have "turn_edits S0 (fold cancel_cell cs S)" if "turn_edits S0 S" for S0 S cs
    using that by (induction cs arbitrary: S) (auto intro: edits_cancel_cell)
  moreover have "turn_edits S (S\<lparr>sd_cancels := []\<rparr>)" by (rule r_into_rtranclp) (rule take_cancels)
  ultimately show ?thesis by (simp add: drain_cancels_def)
qed

lemma edits_start_if_idle:
  "jobs_ok (sd_store S0) \<Longrightarrow> turn_edits S0 S \<Longrightarrow> turn_edits S0 (snd (start_if_idle I d S))"
  unfolding start_if_idle_def by (simp add: edits_try_start turn_edits_jobs_ok)

lemma edits_tick:
  assumes "jobs_ok (sd_store S)"
  shows "turn_edits S (snd (sched_tick I S))"
proof -
  have a: "turn_edits S (requeue_expired (ti_now I) (drain_cancels S))"
    unfolding requeue_expired_def
    by (rule turn_edit_once [OF edits_drain_cancels]) (rule change_store [OF requeue_old])
  then show ?thesis
    unfolding sched_tick_def Let_def
    by (intro after_bind edits_for_each edits_drain_turn edits_death edits_start_if_idle [OF assms] a)
qed

text \<open>C34: every tick of the scheduler, whatever the engines, the clock and the audit log do and wherever an
  error ends it, is a sequence of edits of the turn protocol: a turn is taken on only for a cell that
  has none in flight and only after its \<open>cell_turn_started\<close> event was acknowledged, a job is
  started only in a cell without a started job, and a turn counts as accepted only once the
  acceptance is in the store.\<close>

theorem tick_refines_turns:
  assumes "jobs_ok (sd_store S)"
  shows "turn_edits S (snd (sched_tick I S))"
  using assms by (rule edits_tick)

end
