(* ===== verification/TurnInvariant.thy ===== *)
theory TurnInvariant
  imports Turns
begin

text \<open>
  What the edits of the scheduler keep: at most one started job and one turn in flight per cell,
  every turn in flight was announced in the audit log, and the redelivery boundary: a job an
  engine has accepted is never handed out again.
\<close>

section \<open>What an edit does to a job\<close>

definition settled :: "cell_job \<Rightarrow> bool" where
  "settled j \<longleftrightarrow> j_accepted_by_engine_at j \<noteq> None \<and> j_state j \<in> {JStarted, JFinished, JCancelled}"

definition job_moves :: "cell_job \<Rightarrow> cell_job \<Rightarrow> bool" where
  "job_moves j k \<longleftrightarrow> j_job_id k = j_job_id j \<and> j_cell_name k = j_cell_name j \<and>
    (j_accepted_by_engine_at j \<noteq> None \<longrightarrow> j_accepted_by_engine_at k \<noteq> None) \<and> (settled j \<longrightarrow> settled k)"

lemma job_moves_refl [simp]: "job_moves j j"
  by (simp add: job_moves_def)

lemma job_moves_trans: "job_moves a b \<Longrightarrow> job_moves b c \<Longrightarrow> job_moves a c"
  by (auto simp: job_moves_def)

lemma find_list_all2:
  "list_all2 R xs ys \<Longrightarrow> (\<And>x y. R x y \<Longrightarrow> key y = key x) \<Longrightarrow>
   rel_option R (List.find (\<lambda>x. key x = k) xs) (List.find (\<lambda>x. key x = k) ys)"
  by (induction rule: list_all2_induct) auto

lemma unique_of:
  "jobs_ok s \<Longrightarrow> x \<in> set (s_jobs s) \<Longrightarrow> y \<in> set (s_jobs s) \<Longrightarrow> P y \<Longrightarrow> j_job_id x = j_job_id y \<Longrightarrow> P x"
  using unique_job by blast

lemma update_job_moves:
  assumes "\<And>j. j \<in> set (s_jobs s) \<Longrightarrow> j_job_id j = i \<Longrightarrow> job_moves j (f j)"
  shows "list_all2 job_moves (s_jobs s) (s_jobs (update_job i f s))"
  using assms by (simp add: update_job_def list_all2_update_rows)

lemma set_job_moves:
  assumes "\<And>j. job_moves j (f j)"
  shows "list_all2 job_moves (s_jobs s) (s_jobs (snd (set_job i f s)))"
  using assms by (simp add: set_job_def update_job_moves list_all2_same)

lemma store_edit_moves:
  assumes "turn_store_edit s t" "jobs_ok s"
  shows "list_all2 job_moves (s_jobs s) (s_jobs t)"
  using assms
proof (induction rule: turn_store_edit.induct)
  case (requeue_old s ts)
  have "\<not> settled j \<and> j_accepted_by_engine_at j = None"
    if jin: "j \<in> set (s_jobs s)" and ids: "j_job_id j \<in> j_job_id ` {x \<in> set (s_jobs s). Q x \<and> requeueable x}" for j Q
  proof -
    obtain x where "x \<in> set (s_jobs s)" "j_job_id j = j_job_id x" "requeueable x" using ids by auto
    then have "requeueable j" using unique_of [OF requeue_old jin] by blast
    then show ?thesis by (simp add: requeueable_def settled_def)
  qed
  then show ?case unfolding requeue_expired_eq by (simp add: job_moves_def list_all2_update_rows)
next
  case (lease s now cell secs)
  show ?case
  proof (cases "cell_blocked cell s \<or> queued_jobs cell s = []")
    case False
    then obtain j js where j: "queued_jobs cell s = j # js" by (cases "queued_jobs cell s") auto
    then have "j \<in> set (s_jobs s)" "j_state j = JQueued" using set_queued [of cell s] by auto
    then have "j_state x = JQueued" if "x \<in> set (s_jobs s)" "j_job_id x = j_job_id j" for x
      using unique_of [OF lease that(1), of j "\<lambda>x. j_state x = JQueued"] that(2) by simp
    then have "list_all2 job_moves (s_jobs s) (s_jobs (update_job (j_job_id j)
        (\<lambda>j. j\<lparr>j_state := JLeased, j_lease_expires_at := Some (rfc3339_after now secs)\<rparr>) s))"
      by (intro update_job_moves) (simp add: job_moves_def settled_def)
    then show ?thesis using False j by (simp add: job_lease_next_def Let_def)
  qed (auto simp: job_lease_next_def list_all2_same)
next
  case (give_back s i)
  then show ?case
    by (auto simp: job_requeue_def job_moves_def settled_def requeueable_def intro!: list_all2_update_rows)
qed (auto simp: job_mark_started_def job_mark_accepted_def job_finish_def set_job_moves job_moves_def settled_def
    list_all2_same)

lemma job_accepted_moves:
  assumes "list_all2 job_moves (s_jobs s) (s_jobs t)" "job_accepted i s"
  shows "job_accepted i t"
  using find_list_all2 [OF assms(1), of j_job_id i] assms(2)
  by (auto simp: job_accepted_def job_get_def job_moves_def rel_option_iff split: option.splits)

section \<open>One started job per cell\<close>

definition one_started :: "store \<Rightarrow> bool" where
  "one_started s \<longleftrightarrow> (\<forall>j \<in> set (s_jobs s). \<forall>k \<in> set (s_jobs s).
     j_state j = JStarted \<longrightarrow> j_state k = JStarted \<longrightarrow> j_cell_name j = j_cell_name k \<longrightarrow> j_job_id j = j_job_id k)"

text \<open>A change that starts no job.\<close>

definition starts_none :: "cell_job \<Rightarrow> cell_job \<Rightarrow> bool" where
  "starts_none j k \<longleftrightarrow> j_job_id k = j_job_id j \<and> j_cell_name k = j_cell_name j \<and>
    (j_state k = JStarted \<longrightarrow> j_state j = JStarted)"

lemma starts_none_refl [simp]: "starts_none j j"
  by (simp add: starts_none_def)

lemma one_started_none:
  assumes "one_started s" "list_all2 starts_none (s_jobs s) js" "s_jobs t = js @ new"
    "\<And>j. j \<in> set new \<Longrightarrow> j_state j \<noteq> JStarted"
  shows "one_started t"
proof -
  have old: "\<exists>j \<in> set (s_jobs s). j_state j = JStarted \<and> j_job_id j = j_job_id k \<and> j_cell_name j = j_cell_name k"
    if "k \<in> set (s_jobs t)" "j_state k = JStarted" for k
  proof -
    have "k \<in> set js" using that assms(3,4) by auto
    then obtain n where n: "n < length js" "k = js ! n" by (auto simp: in_set_conv_nth)
    with assms(2) have "starts_none (s_jobs s ! n) k" "s_jobs s ! n \<in> set (s_jobs s)"
      by (auto simp: list_all2_conv_all_nth)
    with that(2) show ?thesis by (auto simp: starts_none_def)
  qed
  show ?thesis
    unfolding one_started_def
  proof (intro ballI impI)
    fix j k assume j: "j \<in> set (s_jobs t)" "j_state j = JStarted" and k: "k \<in> set (s_jobs t)" "j_state k = JStarted"
      and c: "j_cell_name j = j_cell_name k"
    from old [OF j] obtain j' where j': "j' \<in> set (s_jobs s)" "j_state j' = JStarted" "j_job_id j' = j_job_id j"
      "j_cell_name j' = j_cell_name j" by blast
    from old [OF k] obtain k' where k': "k' \<in> set (s_jobs s)" "j_state k' = JStarted" "j_job_id k' = j_job_id k"
      "j_cell_name k' = j_cell_name k" by blast
    have "j_job_id j' = j_job_id k'"
      using assms(1) [unfolded one_started_def, rule_format, OF j'(1) k'(1) j'(2) k'(2)] c j'(4) k'(4) by simp
    with j' k' show "j_job_id j = j_job_id k" by simp
  qed
qed

lemma one_started_same: "one_started s \<Longrightarrow> list_all2 starts_none (s_jobs s) (s_jobs t) \<Longrightarrow> one_started t"
  using one_started_none [of s "s_jobs t" t "[]"] by simp

lemma store_edit_one_started:
  assumes "turn_store_edit s t" "one_started s" "jobs_ok s"
  shows "one_started t"
  using assms
proof (induction rule: turn_store_edit.induct)
  case (start i s j)
  then have j: "j \<in> set (s_jobs s)" "j_job_id j = i" by (auto simp: job_get_def dest: find_Some_in)
  have nb: "j_state k \<noteq> JStarted" if "k \<in> set (s_jobs s)" "j_cell_name k = j_cell_name j" for k
    using start(2) that by (auto simp: cell_blocked_def count_rows_zero_iff)
  let ?f = "\<lambda>j. j\<lparr>j_state := JStarted\<rparr>"
  have t: "s_jobs (snd (job_mark_started i s)) = update_rows (\<lambda>j. j_job_id j = i) ?f (s_jobs s)"
    using start(1) by (simp add: job_mark_started_def set_job_def update_job_def)
  have row: "j_cell_name k = j_cell_name j \<and> j_job_id k = i \<or> k \<in> set (s_jobs s)"
    if "k \<in> set (s_jobs (snd (job_mark_started i s)))" for k
    using that unfolding t
    by (elim in_update_rowsE) (use unique_of [OF start(4) _ j(1), of _ "\<lambda>x. j_cell_name x = j_cell_name j"] j(2) in auto)
  show ?case
    unfolding one_started_def
  proof (intro ballI impI)
    fix k l assume k: "k \<in> set (s_jobs (snd (job_mark_started i s)))" "j_state k = JStarted"
      and l: "l \<in> set (s_jobs (snd (job_mark_started i s)))" "j_state l = JStarted"
      and c: "j_cell_name k = j_cell_name l"
    show "j_job_id k = j_job_id l"
      using row [OF k(1)] row [OF l(1)] nb [of k] nb [of l] k(2) l(2) c start(3)
      by (auto simp: one_started_def)
  qed
next
  case (requeue_old s ts)
  then show ?case
    unfolding requeue_expired_eq
    by (elim one_started_same) (simp add: list_all2_update_rows starts_none_def)
next
  case (lease s now cell secs)
  then show ?case
    by (elim one_started_same)
      (auto simp: job_lease_next_def Let_def update_job_def list_all2_update_rows starts_none_def list_all2_same split: list.split)
next
  case (give_back s i)
  then show ?case
    by (elim one_started_same) (simp add: job_requeue_def list_all2_update_rows starts_none_def)
qed (auto elim!: one_started_same simp: job_mark_accepted_def job_finish_def set_job_def update_job_def
    list_all2_update_rows starts_none_def list_all2_same)


section \<open>The invariant\<close>

definition turn_ok :: "store \<Rightarrow> audit_log \<Rightarrow> string \<times> in_flight_turn \<Rightarrow> bool" where
  "turn_ok s l = (\<lambda>(tid, t). turn_announced tid l \<and> (if_accepted t \<longrightarrow> job_accepted (if_job_id t) s))"

definition turns_ok :: "scheduler \<Rightarrow> bool" where
  "turns_ok S \<longleftrightarrow> jobs_ok (sd_store S) \<and> one_started (sd_store S) \<and>
    distinct (map fst (sd_in_flight S)) \<and> distinct (map (if_cell \<circ> snd) (sd_in_flight S)) \<and>
    (\<forall>x \<in> set (sd_in_flight S). turn_ok (sd_store S) (sd_log S) x)"

definition log_extends :: "audit_log \<Rightarrow> audit_log \<Rightarrow> bool" where
  "log_extends l m \<longleftrightarrow> (\<exists>es. al_events m = al_events l @ es)"

lemma log_extends_refl [simp]: "log_extends l l"
  by (simp add: log_extends_def)

lemma log_extends_trans: "log_extends a b \<Longrightarrow> log_extends b c \<Longrightarrow> log_extends a c"
  by (auto simp: log_extends_def)

lemma audit_to_extends: "log_extends (snd c) (snd (snd (audit_to dr c)))"
  by (cases c) (auto simp: audit_to_def log_extends_def split: prod.split sum.split dest!: audit_emit_cases)

lemma turn_announced_mono: "log_extends l m \<Longrightarrow> turn_announced tid l \<Longrightarrow> turn_announced tid m"
  by (auto simp: log_extends_def turn_announced_def)

lemma turn_ok_mono:
  "list_all2 job_moves (s_jobs s) (s_jobs t) \<Longrightarrow> log_extends l m \<Longrightarrow> turn_ok s l x \<Longrightarrow> turn_ok t m x"
  by (auto simp: turn_ok_def intro: turn_announced_mono job_accepted_moves)

lemma turn_edit_ok:
  assumes "turn_edit S T" "turns_ok S"
  shows "turns_ok T"
  using assms
proof (induction rule: turn_edit.induct)
  case (record_event S dr)
  have "turn_ok (sd_store S) (snd (snd (audit_to dr (sd_core S)))) x" if "x \<in> set (sd_in_flight S)" for x
    using record_event that
    by (intro turn_ok_mono [OF list_all2_same audit_to_extends]) (auto simp: turns_ok_def)
  with record_event show ?case by (simp add: turns_ok_def)
next
  case (change_store S s)
  then have ok: "jobs_ok (sd_store S)" and one: "one_started (sd_store S)" by (simp_all add: turns_ok_def)
  note moves = store_edit_moves [OF change_store(1) ok]
  have "turn_ok s (sd_log S) x" if "x \<in> set (sd_in_flight S)" for x
    using change_store(2) that by (intro turn_ok_mono [OF moves log_extends_refl]) (simp add: turns_ok_def)
  then show ?case
    using change_store(2) store_edit_jobs_ok [OF change_store(1) ok]
      store_edit_one_started [OF change_store(1) one ok]
    by (simp add: turns_ok_def)
next
  case (drop S P)
  then show ?case by (auto simp: turns_ok_def intro: distinct_map_filter)
next
  case (accepted tid S t x)
  let ?f = "\<lambda>t. t\<lparr>if_engine_turn_id := x, if_accepted := True\<rparr>"
  have d: "map fst (sd_in_flight (change_turn tid ?f S)) = map fst (sd_in_flight S)"
    "map (if_cell \<circ> snd) (sd_in_flight (change_turn tid ?f S)) = map (if_cell \<circ> snd) (sd_in_flight S)"
    by (auto simp: change_turn_def)
  have "turn_ok (sd_store S) (sd_log S) (i, if i = tid then ?f u else u)" if "(i, u) \<in> set (sd_in_flight S)" for i u
  proof -
    have ok: "turn_ok (sd_store S) (sd_log S) (i, u)" using accepted(3) that by (simp add: turns_ok_def)
    have "u = t" if "i = tid"
      using accepted(1,3) \<open>(i, u) \<in> set (sd_in_flight S)\<close> that by (simp add: turn_of_def turns_ok_def)
    with ok accepted(2) show ?thesis by (auto simp: turn_ok_def)
  qed
  then have "\<forall>y \<in> set (sd_in_flight (change_turn tid ?f S)). turn_ok (sd_store S) (sd_log S) y"
    by (auto simp: change_turn_def)
  then show ?case using accepted(3) unfolding turns_ok_def d by (simp add: change_turn_def)
next
  case (take_on t S tid)
  have "distinct (map fst (sd_in_flight (put_turn tid t S)))"
    using take_on by (auto simp: put_turn_def turns_ok_def intro: distinct_map_filter)
  moreover have "distinct (map (if_cell \<circ> snd) (sd_in_flight (put_turn tid t S)))"
    using take_on by (auto simp: put_turn_def turns_ok_def intro: distinct_map_filter)
  ultimately show ?case using take_on by (auto simp: turns_ok_def put_turn_def turn_ok_def)
qed (simp_all add: turns_ok_def)

lemma turn_edits_ok: "turn_edits S T \<Longrightarrow> turns_ok S \<Longrightarrow> turns_ok T"
  by (induction rule: rtranclp_induct) (auto intro: turn_edit_ok)

lemma tick_turns_ok: "turns_ok S \<Longrightarrow> turns_ok (snd (sched_tick I S))"
  by (rule turn_edits_ok [OF edits_tick]) (simp_all add: turns_ok_def)

lemma engine_output_turns_ok [simp]: "turns_ok (engine_output X cell line S) = turns_ok S"
  by (simp add: engine_output_def turns_ok_def)

lemma engine_breaks_turns_ok [simp]: "turns_ok (engine_breaks cell msg S) = turns_ok S"
  by (simp add: engine_breaks_def turns_ok_def)

section \<open>What a tick leaves of the rest\<close>

text \<open>The tables the scheduler writes.\<close>

definition engine_tables_only :: "store \<Rightarrow> store \<Rightarrow> bool" where
  "engine_tables_only s t \<longleftrightarrow>
    t = s\<lparr>s_threads := s_threads t, s_jobs := s_jobs t, s_journal := s_journal t\<rparr>"

definition engine_work :: "core \<Rightarrow> core \<Rightarrow> bool" where
  "engine_work c d \<longleftrightarrow> list_all2 job_moves (s_jobs (fst c)) (s_jobs (fst d)) \<and>
    engine_tables_only (fst c) (fst d) \<and> threads_kept (fst c) (fst d) \<and> log_extends (snd c) (snd d)"

lemma engine_tables_only_refl [simp]: "engine_tables_only s s"
  by (simp add: engine_tables_only_def)

lemma engine_tables_only_trans: "engine_tables_only s t \<Longrightarrow> engine_tables_only t u \<Longrightarrow> engine_tables_only s u"
  by (cases s; cases t; cases u) (simp add: engine_tables_only_def)

lemma job_ops_threads [simp]:
  "s_threads (update_job i f s) = s_threads s" "s_threads (snd (set_job i f s)) = s_threads s"
  by (simp_all add: update_job_def set_job_def)

lemma store_edit_frame: "turn_store_edit s t \<Longrightarrow> engine_tables_only s t \<and> threads_kept s t"
proof (induction rule: turn_store_edit.induct)
  case (move s now tid target)
  show ?case
    using threads_kept_step [OF thread_step.intros(2), of s now tid target]
    by (simp add: thread_transition_def update_thread_def engine_tables_only_def split: option.split)
next
  case (note_ids s now tid p th tu se)
  show ?case
    using threads_kept_step [OF thread_step.intros(3), of s now tid p th tu se]
    by (simp add: thread_set_engine_ids_def update_thread_def engine_tables_only_def)
next
  case (requeue_old s ts)
  show ?case unfolding requeue_expired_eq by (simp add: engine_tables_only_def threads_kept_same)
qed (auto simp: job_lease_next_def Let_def job_requeue_def job_mark_started_def job_mark_accepted_def
    job_finish_def set_job_def update_job_def journal_append_def engine_tables_only_def threads_kept_same
    split: list.split)

lemma engine_work_refl [simp]: "engine_work c c"
  by (simp add: engine_work_def list_all2_same threads_kept_same)

lemma moves_trans: "list_all2 job_moves xs ys \<Longrightarrow> list_all2 job_moves ys zs \<Longrightarrow> list_all2 job_moves xs zs"
  by (rule list_all2_trans [OF job_moves_trans])

lemma engine_work_trans: "engine_work a b \<Longrightarrow> engine_work b c \<Longrightarrow> engine_work a c"
  unfolding engine_work_def
  by (blast intro: moves_trans engine_tables_only_trans threads_kept_trans log_extends_trans)

lemma turn_edit_work:
  assumes "turn_edit S T" "jobs_ok (sd_store S)"
  shows "engine_work (sd_core S) (sd_core T)"
  using assms
proof (induction rule: turn_edit.induct)
  case (record_event S dr)
  show ?case
    using audit_to_extends [of "sd_core S" dr] by (simp add: engine_work_def list_all2_same threads_kept_same)
next
  case (change_store S s)
  from store_edit_moves [OF change_store] store_edit_frame [OF change_store(1)] show ?case
    by (simp add: engine_work_def)
qed (simp_all add: change_turn_def put_turn_def)

lemma turn_edits_work:
  assumes "turn_edits S T" "jobs_ok (sd_store S)"
  shows "engine_work (sd_core S) (sd_core T)"
  using assms
proof (induction rule: rtranclp_induct)
  case (step T U)
  from turn_edit_work [OF step(2) turn_edits_jobs_ok [OF step(1,4)]] step(3) [OF step(4)] show ?case
    by (blast intro: engine_work_trans)
qed simp

text \<open>What a tick of the scheduler may do to the shared state.  It writes only the threads, the
  jobs and the journal; every thread keeps its identity, launch parameters and owner and moves
  along its state machine; the audit log only grows; and a job that an engine has accepted stays
  started or over, so that whatever the engines report, whatever times out or dies and whatever
  cannot be audited, it is never queued or leased again.\<close>

lemma tick_effect:
  assumes "jobs_ok (sd_store S)" "sched_tick I S = (r, T)"
  shows "engine_tables_only (sd_store S) (sd_store T) \<and> threads_kept (sd_store S) (sd_store T) \<and>
    log_extends (sd_log S) (sd_log T) \<and>
    (\<forall>i j. job_get i (sd_store S) = Some j \<and> settled j \<longrightarrow>
      (\<exists>k. job_get i (sd_store T) = Some k \<and> settled k \<and> j_cell_name k = j_cell_name j))"
proof -
  have w: "engine_work (sd_core S) (sd_core T)"
    using turn_edits_work [OF edits_tick [OF assms(1)] assms(1), of I] assms(2) by simp
  then have moves: "list_all2 job_moves (s_jobs (sd_store S)) (s_jobs (sd_store T))" by (simp add: engine_work_def)
  have "\<exists>k. job_get i (sd_store T) = Some k \<and> settled k \<and> j_cell_name k = j_cell_name j"
    if "job_get i (sd_store S) = Some j" "settled j" for i j
    using find_list_all2 [OF moves, of j_job_id i] that
    by (auto simp: job_get_def job_moves_def rel_option_iff split: option.splits)
  with w show ?thesis by (auto simp: engine_work_def)
qed

end
