(* ===== verification/Recovery.thy ===== *)
theory Recovery
  imports TurnInvariant
begin

text \<open>
  Boot recovery (\<open>boot_recovery\<close> in \<open>scheduler.rs\<close>): after a crash every thread that was
  running or spawning is settled, each behind its own audit event.  Jobs are left alone, which leaves
  the gap shown at the end: an acceptance recorded on a requeued job does not keep it from a second run.
\<close>

definition settle :: "nat \<Rightarrow> thread_state \<Rightarrow> cell_thread \<Rightarrow> cell_thread" where
  "settle now target t = t\<lparr>t_state := target, t_updated_at := now_rfc3339 now\<rparr>"

definition recovery_draft :: "string \<Rightarrow> string \<Rightarrow> cell_thread \<Rightarrow> audit_draft" where
  "recovery_draft outcome previous t =
    engine_draft ''cell_turn_failed'' (Some (t_crewd_thread_id t)) (t_cell_name t) outcome
      (Some (JObj [(''reason'', JStr ''boot_recovery''), (''previous_state'', JStr previous)]))"

lemma thread_get_in: "threads_ok s \<Longrightarrow> t \<in> set (s_threads s) \<Longrightarrow> thread_get (t_crewd_thread_id t) s = Some t"
  using distinct_find_unique [of t_crewd_thread_id "s_threads s" t] by (simp add: threads_ok_def thread_get_def)

lemma settle_simps [simp]:
  "t_crewd_thread_id (settle now x t) = t_crewd_thread_id t" "t_state (settle now x t) = x"
  "t_cell_name (settle now x t) = t_cell_name t"
  by (simp_all add: settle_def)

lemma recover_thread_Inr:
  assumes "recover_thread now outcome target previous t (s, l) = (Inr u, (s', l'))"
  shows "s' = s\<lparr>s_threads := update_rows (\<lambda>x. t_crewd_thread_id x = t_crewd_thread_id t) (settle now target) (s_threads s)\<rparr> \<and>
    al_events l' = al_events l @ [recovery_draft outcome previous t]"
  using assms
  by (auto simp: recover_thread_def bind_res_Inr audit_to_def thread_transition_def update_thread_def
      recovery_draft_def settle_def [abs_def]
      split: prod.splits sum.splits option.splits if_splits dest!: audit_emit_cases)

lemma recover_all_Inr:
  assumes "for_each (recover_thread now outcome target previous) ts (s, l) = (Inr u, (s', l'))"
  shows "s' = s\<lparr>s_threads := update_rows (\<lambda>x. t_crewd_thread_id x \<in> t_crewd_thread_id ` set ts) (settle now target) (s_threads s)\<rparr> \<and>
    al_events l' = al_events l @ map (recovery_draft outcome previous) ts"
  using assms
proof (induction ts arbitrary: s l)
  case (Cons t ts)
  from Cons(2) obtain v s1 l1 where 1: "recover_thread now outcome target previous t (s, l) = (Inr v, (s1, l1))"
    and 2: "for_each (recover_thread now outcome target previous) ts (s1, l1) = (Inr u, (s', l'))"
    by (auto simp: bind_res_Inr)
  have "update_rows (\<lambda>x. t_crewd_thread_id x \<in> K) (settle now target)
      (update_rows (\<lambda>x. t_crewd_thread_id x = k) (settle now target) rs) =
    update_rows (\<lambda>x. t_crewd_thread_id x = k \<or> t_crewd_thread_id x \<in> K) (settle now target) rs" for K k rs
    using update_rows_twice [of t_crewd_thread_id "settle now target" "\<lambda>x. x \<in> K" "\<lambda>x. x = k" rs]
    by (simp add: settle_def disj_commute)
  then show ?case using recover_thread_Inr [OF 1] Cons(1) [OF 2] by simp
qed (simp add: update_rows_id)

lemma threads_in_state: "set (threads_in_states [st] s) = {t \<in> set (s_threads s). t_state t = st}"
  by (auto simp: threads_in_states_def)

lemma update_rows_cong: "(\<And>x. x \<in> set rs \<Longrightarrow> p x = q x) \<Longrightarrow> update_rows p f rs = update_rows q f rs"
  by (simp add: update_rows_map)

lemma in_state_iff:
  assumes "threads_ok s" "x \<in> set (s_threads s)"
  shows "t_crewd_thread_id x \<in> t_crewd_thread_id ` set (threads_in_states [st] s) \<longleftrightarrow> t_state x = st"
proof
  assume "t_crewd_thread_id x \<in> t_crewd_thread_id ` set (threads_in_states [st] s)"
  then obtain y where y: "y \<in> set (s_threads s)" "t_state y = st" "t_crewd_thread_id x = t_crewd_thread_id y"
    by (auto simp: threads_in_state)
  have "Some x = Some y" using thread_get_in [OF assms] thread_get_in [OF assms(1) y(1)] unfolding y(3) by (rule trans [OF sym])
  with y(2) show "t_state x = st" by simp
qed (use assms(2) threads_in_state in auto)

lemma recover_state:
  assumes "threads_ok s" "for_each (recover_thread now outcome target previous) (threads_in_states [st] s) (s, l) = (Inr u, (s', l'))"
  shows "s' = s\<lparr>s_threads := update_rows (\<lambda>x. t_state x = st) (settle now target) (s_threads s)\<rparr> \<and>
    al_events l' = al_events l @ map (recovery_draft outcome previous) (threads_in_states [st] s)"
proof -
  have "update_rows (\<lambda>x. t_crewd_thread_id x \<in> t_crewd_thread_id ` set (threads_in_states [st] s)) (settle now target) (s_threads s) =
      update_rows (\<lambda>x. t_state x = st) (settle now target) (s_threads s)"
    by (rule update_rows_cong) (rule in_state_iff [OF assms(1)])
  with recover_all_Inr [OF assms(2)] show ?thesis by simp
qed

text \<open>What recovery makes of a thread.\<close>

definition recovered :: "nat \<Rightarrow> cell_thread \<Rightarrow> cell_thread" where
  "recovered now t =
    (case t_state t of TRunning \<Rightarrow> settle now TInterrupted t | TSpawning \<Rightarrow> settle now TFailedUnknown t | _ \<Rightarrow> t)"

lemma boot_recovery_settles_aux:
  assumes "threads_ok s" "boot_recovery now (s, l) = (Inr ids, (s', l'))"
  shows "s' = s\<lparr>s_threads := map (recovered now) (s_threads s)\<rparr> \<and>
    (\<forall>t \<in> set (s_threads s'). t_state t \<notin> {TRunning, TSpawning}) \<and>
    set ids = t_crewd_thread_id ` {t \<in> set (s_threads s). t_state t \<in> {TRunning, TSpawning}} \<and>
    al_events l' = al_events l @
      map (recovery_draft ''interrupted'' ''running'') (threads_in_states [TRunning] s) @
      map (recovery_draft ''failed_unknown'' ''spawning'') (threads_in_states [TSpawning] s)"
proof -
  let ?run = "threads_in_states [TRunning] s" and ?spawn = "threads_in_states [TSpawning] s"
  let ?f1 = "for_each (recover_thread now ''interrupted'' TInterrupted ''running'')"
  let ?f2 = "for_each (recover_thread now ''failed_unknown'' TFailedUnknown ''spawning'')"
  obtain r1 s1 l1 where 1: "?f1 ?run (s, l) = (r1, (s1, l1))" by (metis prod.exhaust)
  obtain r2 s2 l2 where 2: "?f2 (threads_in_states [TSpawning] s1) (s1, l1) = (r2, (s2, l2))" by (metis prod.exhaust)
  from assms(2) have ok: "r1 = Inr ()" "r2 = Inr ()" "s2 = s'" "l2 = l'"
    and ids: "ids = map t_crewd_thread_id ?run @ map t_crewd_thread_id (threads_in_states [TSpawning] s1)"
    unfolding boot_recovery_def Let_def fst_conv 1 by (cases r1; cases r2; simp add: 2)+
  note r1 = recover_state [OF assms(1) 1 [unfolded ok]]
  have s1: "threads_ok s1" using threads_ok_update [OF assms(1)] r1 by simp
  note r2 = recover_state [OF s1 2 [unfolded ok]]
  have "filter (\<lambda>t. t_state t = TSpawning) (update_rows (\<lambda>x. t_state x = TRunning) (settle now TInterrupted) ts) =
      filter (\<lambda>t. t_state t = TSpawning) ts" for ts
    by (induction ts) auto
  then have sp: "threads_in_states [TSpawning] s1 = ?spawn" using r1 by (simp add: threads_in_states_def)
  have "s' = s\<lparr>s_threads := update_rows (\<lambda>x. t_state x = TSpawning) (settle now TFailedUnknown)
      (update_rows (\<lambda>x. t_state x = TRunning) (settle now TInterrupted) (s_threads s))\<rparr>"
    using r1 r2 by simp
  moreover have "update_rows (\<lambda>x. t_state x = TSpawning) (settle now TFailedUnknown)
      (update_rows (\<lambda>x. t_state x = TRunning) (settle now TInterrupted) ts) = map (recovered now) ts" for ts
    by (induction ts) (auto simp: recovered_def split: thread_state.split)
  ultimately have s': "s' = s\<lparr>s_threads := map (recovered now) (s_threads s)\<rparr>" by simp
  have "t_state (recovered now t) \<notin> {TRunning, TSpawning}" for t
    by (cases "t_state t") (simp_all add: recovered_def)
  then show ?thesis
    using s' r1 r2 ids unfolding sp by (auto simp: threads_in_state)
qed

text \<open>C36: a boot recovery that succeeds settles every orphan and touches nothing else.  Afterwards no
  thread is running or spawning: the running ones are interrupted, the spawning ones have failed,
  every other thread is as it was, and so is every other table; the identifiers returned are exactly
  those threads, and the audit log grew by one \<open>cell_turn_failed\<close> event for each of them.\<close>

theorem boot_recovery_settles:
  assumes "threads_ok s" "boot_recovery now (s, l) = (Inr ids, (s', l'))"
  shows "s' = s\<lparr>s_threads := map (recovered now) (s_threads s)\<rparr> \<and>
    (\<forall>t \<in> set (s_threads s'). t_state t \<notin> {TRunning, TSpawning}) \<and>
    set ids = t_crewd_thread_id ` {t \<in> set (s_threads s). t_state t \<in> {TRunning, TSpawning}} \<and>
    al_events l' = al_events l @
      map (recovery_draft ''interrupted'' ''running'') (threads_in_states [TRunning] s) @
      map (recovery_draft ''failed_unknown'' ''spawning'') (threads_in_states [TSpawning] s)"
  using assms by (rule boot_recovery_settles_aux)

definition crashed_store :: store where
  "crashed_store = empty_store\<lparr>s_threads :=
     [example_thread, example_thread\<lparr>t_crewd_thread_id := ''run'', t_state := TRunning\<rparr>,
      example_thread\<lparr>t_crewd_thread_id := ''idle'', t_state := TIdle\<rparr>]\<rparr>"

lemma crashed_recovery:
  "\<exists>s l. boot_recovery 0 (crashed_store, \<lparr>al_events = [], al_faults = []\<rparr>) = (Inr [''run'', ''th''], (s, l))"
  by (simp add: boot_recovery_def Let_def threads_in_states_def crashed_store_def example_thread_def
      recover_thread_def audit_to_def audit_emit_def assert_kind_def AUDIT_KINDS_def engine_draft_def
      thread_transition_def thread_get_def update_thread_def)

theorem boot_recovery_settles_witness:
  "\<exists>s l. boot_recovery 0 (crashed_store, \<lparr>al_events = [], al_faults = []\<rparr>) = (Inr [''run'', ''th''], (s, l)) \<and>
     map t_state (s_threads s) = [TFailedUnknown, TInterrupted, TIdle] \<and> length (al_events l) = 2"
proof -
  obtain s l where b: "boot_recovery 0 (crashed_store, \<lparr>al_events = [], al_faults = []\<rparr>) = (Inr [''run'', ''th''], (s, l))"
    using crashed_recovery by blast
  have "threads_ok crashed_store" by (simp add: threads_ok_def crashed_store_def example_thread_def)
  from boot_recovery_settles [OF this b]
  have "s = crashed_store\<lparr>s_threads := map (recovered 0) (s_threads crashed_store)\<rparr>"
    "length (al_events l) = length (threads_in_states [TRunning] crashed_store) + length (threads_in_states [TSpawning] crashed_store)"
    by simp_all
  then show ?thesis
    using b by (simp add: crashed_store_def example_thread_def recovered_def threads_in_states_def)
qed

section \<open>What recovery leaves behind\<close>

text \<open>Recovery does not look at the jobs.  A job that was started and accepted when the daemon died
  stays started, no lease expiry gives it back, and its cell is never handed a job again.\<close>

lemma recovered_cell_stays_blocked:
  assumes "threads_ok s" "jobs_ok s" "boot_recovery now (s, l) = (Inr ids, (s', l'))"
    "j \<in> set (s_jobs s)" "j_state j = JStarted" "j_accepted_by_engine_at j \<noteq> None"
  shows "fst (job_lease_next now' (j_cell_name j) secs (snd (job_requeue_expired_leases ts s'))) = None"
proof -
  have jobs: "s_jobs s' = s_jobs s" using boot_recovery_settles_aux [OF assms(1,3)] by simp
  then have ok: "jobs_ok s'" using assms(2) jobs_ok_cong by blast
  let ?due = "j_job_id ` {x \<in> set (s_jobs s'). (case j_lease_expires_at x of None \<Rightarrow> False | Some e \<Rightarrow> e < ts) \<and> requeueable x}"
  have "j_job_id j \<notin> ?due"
  proof
    assume "j_job_id j \<in> ?due"
    then obtain x where x: "x \<in> set (s_jobs s')" "requeueable x" "j_job_id j = j_job_id x" by auto
    with unique_job [OF ok, of j x] assms(4) jobs have "requeueable j" by simp
    with assms(6) show False by (simp add: requeueable_def)
  qed
  then have "j \<in> set (s_jobs (snd (job_requeue_expired_leases ts s')))"
    using assms(4) jobs unfolding requeue_expired_eq by (auto simp: set_update_rows)
  then have "cell_blocked (j_cell_name j) (snd (job_requeue_expired_leases ts s'))"
    using assms(5) by (auto simp: cell_blocked_def count_rows_pos_iff)
  then show ?thesis by (simp add: job_lease_next_def)
qed

section \<open>A late acceptance\<close>

text \<open>The jobs after a requeue of the expired leases and a recorded acceptance of job \<open>i\<close>.\<close>

lemma recovery_keeps_jobs: "s_jobs (fst (snd (boot_recovery now c))) = s_jobs (fst c)"
proof -
  have one: "s_jobs (fst (snd (recover_thread now outcome target previous t c))) = s_jobs (fst c)" for outcome target previous t c
    by (cases c) (auto simp: recover_thread_def audit_to_def bind_res_def thread_transition_def update_thread_def
        split: prod.splits sum.splits option.splits)
  have all: "s_jobs (fst (snd (for_each (recover_thread now outcome target previous) ts c))) = s_jobs (fst c)"
    for outcome target previous ts c
  proof (induction ts arbitrary: c)
    case (Cons t ts)
    show ?case
      using one [of outcome target previous t c] Cons
      by (cases "recover_thread now outcome target previous t c") (auto simp: bind_res_def split: sum.splits)
  qed simp
  let ?f1 = "for_each (recover_thread now ''interrupted'' TInterrupted ''running'')"
  let ?f2 = "for_each (recover_thread now ''failed_unknown'' TFailedUnknown ''spawning'')"
  obtain r1 c1 where 1: "?f1 (threads_in_states [TRunning] (fst c)) c = (r1, c1)" by (metis prod.exhaust)
  obtain r2 c2 where 2: "?f2 (threads_in_states [TSpawning] (fst c1)) c1 = (r2, c2)" by (metis prod.exhaust)
  have "s_jobs (fst c1) = s_jobs (fst c)" using all 1 by (metis snd_conv)
  moreover have "s_jobs (fst c2) = s_jobs (fst c1)" using all 2 by (metis snd_conv)
  moreover have "snd (boot_recovery now c) \<in> {c1, c2}"
    unfolding boot_recovery_def Let_def 1 bind_res_def by (cases r1; cases r2; simp add: 2)
  ultimately show ?thesis by auto
qed

lemma accepted_event_store:
  assumes "turn_of tid S = Some t" "thread_get tid (sd_store S) \<noteq> None" "job_get (if_job_id t) (sd_store S) \<noteq> None"
  shows "\<exists>S'. drain_event now tid cell (Accepted turn) S = (Inr False, S') \<and>
    s_jobs (sd_store S') = update_rows (\<lambda>j. j_job_id j = if_job_id t)
      (\<lambda>j. j\<lparr>j_accepted_by_engine_at := Some (now_rfc3339 now), j_engine_turn_id := Some turn\<rparr>) (s_jobs (sd_store S))"
  using assms
  by (auto simp: with_store_def bind_res_def job_mark_accepted_def set_job_def thread_set_engine_ids_def
      update_job_def update_thread_def thread_get_def write_journal_def journal_append_def Let_def change_turn_def)

lemma requeued_job:
  assumes "jobs_ok s" "j \<in> set (s_jobs s)" "requeueable j" "j_lease_expires_at j = Some e" "e < ts"
  shows "j\<lparr>j_state := JQueued, j_lease_expires_at := None\<rparr> \<in> set (s_jobs (snd (job_requeue_expired_leases ts s)))"
  using assms(2-5) unfolding requeue_expired_eq by (force simp: set_update_rows)

lemma requeued_other:
  assumes "jobs_ok s" "k \<in> set (s_jobs (snd (job_requeue_expired_leases ts s)))"
  shows "\<exists>k0 \<in> set (s_jobs s). k = k0 \<or> requeueable k0 \<and> k = k0\<lparr>j_state := JQueued, j_lease_expires_at := None\<rparr>"
proof -
  let ?due = "{j \<in> set (s_jobs s). (case j_lease_expires_at j of None \<Rightarrow> False | Some e \<Rightarrow> e < ts) \<and> requeueable j}"
  let ?f = "\<lambda>j. j\<lparr>j_state := JQueued, j_lease_expires_at := None\<rparr>"
  have "k \<in> set (update_rows (\<lambda>j. j_job_id j \<in> j_job_id ` ?due) ?f (s_jobs s))"
    using assms(2) unfolding requeue_expired_eq by simp
  then show ?thesis
  proof (rule in_update_rowsE)
    fix r assume r: "r \<in> set (s_jobs s)" "j_job_id r \<in> j_job_id ` ?due" "k = ?f r"
    from r(2) obtain x where "x \<in> set (s_jobs s)" "requeueable x" "j_job_id r = j_job_id x" by auto
    with unique_job [OF assms(1) r(1)] have "requeueable r" by blast
    with r(1,3) show ?thesis by blast
  qed blast
qed

text \<open>C31: the gap in the redelivery boundary.  \<open>job_mark_accepted\<close> does not look at the state of the
  job.  A tick puts the started job of a turn in flight back into the queue when its lease has run
  out and no acceptance was recorded; when the engine's acceptance arrives with that same tick, the
  job is queued and accepted at once.  If the daemon is then restarted, the recovered store hands
  that job, if it is the oldest open one of its cell, out for a second run, although the engine has
  accepted it.\<close>

theorem late_acceptance_leased_again:
  assumes "jobs_ok (sd_store S)" "turn_of tid S = Some t" "thread_get tid (sd_store S) \<noteq> None"
    and "job_get (if_job_id t) (sd_store S) = Some j" "j_state j = JStarted" "j_accepted_by_engine_at j = None"
    and "j_lease_expires_at j = Some e" "e < now_rfc3339 now"
    and "\<forall>k \<in> set (s_jobs (sd_store S)). j_cell_name k = j_cell_name j \<and> k \<noteq> j \<longrightarrow>
      j_state k \<in> {JFinished, JCancelled} \<or> j_state k \<noteq> JStarted \<and> j_enqueue_seq j < j_enqueue_seq k"
  shows "\<exists>S'. drain_event now tid (if_cell t) (Accepted turn) (requeue_expired now S) = (Inr False, S') \<and>
    job_get (if_job_id t) (sd_store S') = Some (j\<lparr>j_state := JQueued, j_lease_expires_at := None,
      j_accepted_by_engine_at := Some (now_rfc3339 now), j_engine_turn_id := Some turn\<rparr>) \<and>
    fst (job_lease_next now' (j_cell_name j) secs (fst (snd (boot_recovery now' (sd_core S'))))) =
      Some (j\<lparr>j_state := JLeased, j_lease_expires_at := Some (rfc3339_after now' secs),
        j_accepted_by_engine_at := Some (now_rfc3339 now), j_engine_turn_id := Some turn\<rparr>)"
proof -
  let ?s = "sd_store S" and ?i = "if_job_id t"
  let ?q = "snd (job_requeue_expired_leases (now_rfc3339 now) ?s)"
  let ?f = "\<lambda>j. j\<lparr>j_accepted_by_engine_at := Some (now_rfc3339 now), j_engine_turn_id := Some turn\<rparr>"
  let ?queued = "j\<lparr>j_state := JQueued, j_lease_expires_at := None\<rparr>"
  let ?late = "?f ?queued"
  have j: "j \<in> set (s_jobs ?s)" "j_job_id j = ?i" using assms(4) by (auto simp: job_get_def dest: find_Some_in)
  have okq: "jobs_ok ?q" unfolding requeue_expired_eq by (rule jobs_ok_update [OF assms(1)]) simp_all
  have bk: "?queued \<in> set (s_jobs ?q)"
    using requeued_job [OF assms(1) j(1) _ assms(7,8)] assms(5,6) by (simp add: requeueable_def)
  have "turn_of tid (requeue_expired now S) = Some t" "thread_get tid (sd_store (requeue_expired now S)) \<noteq> None"
    using assms(2,3) by (simp_all add: requeue_expired_def turn_of_def requeue_expired_eq thread_get_def)
  moreover have gq: "job_get ?i ?q = Some ?queued" using job_get_in [OF okq bk] j(2) by simp
  then have "job_get ?i (sd_store (requeue_expired now S)) \<noteq> None" by (simp add: requeue_expired_def)
  ultimately obtain S' where S': "drain_event now tid (if_cell t) (Accepted turn) (requeue_expired now S) = (Inr False, S')"
    "s_jobs (sd_store S') = update_rows (\<lambda>j. j_job_id j = ?i) ?f (s_jobs ?q)"
    using accepted_event_store [of tid "requeue_expired now S" t] by (auto simp: requeue_expired_def)
  let ?r = "fst (snd (boot_recovery now' (sd_core S')))"
  have jr: "s_jobs ?r = update_rows (\<lambda>j. j_job_id j = ?i) ?f (s_jobs ?q)" using recovery_keeps_jobs S'(2) by simp
  have ok: "jobs_ok (?q\<lparr>s_jobs := update_rows (\<lambda>j. j_job_id j = ?i) ?f (s_jobs ?q)\<rparr>)"
    by (rule jobs_ok_update [OF okq]) simp_all
  have okr: "jobs_ok ?r" and ok': "jobs_ok (sd_store S')" using ok jobs_ok_cong jr S'(2) by (simp_all add: jobs_ok_def)
  have late: "?late \<in> set (s_jobs ?r)" unfolding jr set_update_rows using bk j(2) by (force simp del: cell_job.simps)
  have "j_state k \<noteq> JStarted \<and> (j_state k = JQueued \<longrightarrow> j_enqueue_seq j < j_enqueue_seq k)"
    if k: "k \<in> set (s_jobs ?r)" "j_cell_name k = j_cell_name j" "k \<noteq> ?late" for k
    using k(1) unfolding jr
  proof (rule in_update_rowsE)
    fix r assume r: "r \<in> set (s_jobs ?q)" "j_job_id r = ?i" "k = ?f r"
    then have "r = ?queued" using unique_job [OF okq r(1) bk] j(2) by simp
    with r(3) k(3) show ?thesis by simp
  next
    assume "k \<in> set (s_jobs ?q)" and other: "j_job_id k \<noteq> ?i"
    with requeued_other [OF assms(1)] obtain k0 where k0: "k0 \<in> set (s_jobs ?s)"
      "k = k0 \<or> requeueable k0 \<and> k = k0\<lparr>j_state := JQueued, j_lease_expires_at := None\<rparr>" by blast
    then have "j_cell_name k0 = j_cell_name j \<and> k0 \<noteq> j" using k(2) other j(2) by auto
    with assms(9) k0(1) have "j_state k0 \<in> {JFinished, JCancelled} \<or> j_state k0 \<noteq> JStarted \<and> j_enqueue_seq j < j_enqueue_seq k0"
      by blast
    with k0(2) show ?thesis by (auto simp: requeueable_def)
  qed
  then have "fst (job_lease_next now' (j_cell_name j) secs ?r) = Some (?late\<lparr>j_state := JLeased, j_lease_expires_at := Some (rfc3339_after now' secs)\<rparr>)"
    by (intro oldest_leased [OF okr late]) simp_all
  moreover have "job_get ?i (sd_store S') = Some ?late"
    using job_get_in [OF ok', of ?late] late jr S'(2) j(2) by simp
  ultimately show ?thesis using S'(1) by (intro exI [of _ S'] conjI) simp_all
qed

text \<open>A turn whose engine answers after a minute, with a lease of 30 seconds.\<close>

definition slow_job :: cell_job where
  "slow_job = queued_job\<lparr>j_crewd_thread_id := ''th'', j_state := JStarted, j_lease_expires_at := Some (rfc3339_after 0 30)\<rparr>"

definition slow_turn :: scheduler where
  "slow_turn = (scheduler_new (\<lambda>_. None)
      (empty_store\<lparr>s_threads := [example_thread\<lparr>t_state := TRunning\<rparr>], s_jobs := [slow_job]\<rparr>, \<lparr>al_events = [], al_faults = []\<rparr>))
    \<lparr>sd_in_flight := [(''th'', \<lparr>if_job_id = ''j1'', if_cell = ''w'', if_started_at_nanos = 0,
       if_engine_turn_id = None, if_accepted = False\<rparr>)]\<rparr>"

theorem late_acceptance_leased_again_witness:
  "\<exists>S' j. drain_event 60 ''th'' ''w'' (Accepted ''turn'') (requeue_expired 60 slow_turn) = (Inr False, S') \<and>
     fst (job_lease_next 90 ''w'' 30 (fst (snd (boot_recovery 90 (sd_core S'))))) = Some j \<and>
     j_job_id j = ''j1'' \<and> j_payload j = ''p'' \<and> j_accepted_by_engine_at j = Some (now_rfc3339 60)"
proof -
  let ?t = "\<lparr>if_job_id = ''j1'', if_cell = ''w'', if_started_at_nanos = 0, if_engine_turn_id = None, if_accepted = False\<rparr>"
  have s: "s_jobs (sd_store slow_turn) = [slow_job]" "turn_of ''th'' slow_turn = Some ?t"
    "thread_get ''th'' (sd_store slow_turn) \<noteq> None"
    by (simp_all add: slow_turn_def scheduler_new_def turn_of_def thread_get_def example_thread_def)
  have j: "j_job_id slow_job = ''j1''" "j_state slow_job = JStarted" "j_accepted_by_engine_at slow_job = None"
    "j_lease_expires_at slow_job = Some (rfc3339_after 0 30)" "j_cell_name slow_job = ''w''" "j_payload slow_job = ''p''"
    by (simp_all add: slow_job_def queued_job_def)
  have ok: "jobs_ok (sd_store slow_turn)" by (simp add: jobs_ok_def s)
  have g: "job_get (if_job_id ?t) (sd_store slow_turn) = Some slow_job" by (simp add: job_get_def s j)
  have e: "rfc3339_after 0 30 < now_rfc3339 60"
    using rfc3339_strict [of 30 60] by (simp add: rfc3339_after_def now_rfc3339_def U64_MAX_def YEAR_10000_def)
  from late_acceptance_leased_again [OF ok s(2,3) g j(2,3,4) e, of "''turn''" 90 30] s(1)
  show ?thesis by (auto simp: j)
qed

end
