(* ===== verification/Boot.thy ===== *)
theory Boot
  imports Server BusInvariant Recovery
begin

text \<open>
  The start of the daemon (\<open>main.rs\<close> of \<open>crewd\<close>): configuration, credentials, store, audit log, boot
  recovery, access control list, socket and scheduler, in this order, each with its exit.  What the
  files hold is the host; opening the store and the audit log gives what they hold, or fails.
\<close>

section \<open>Starting\<close>

record host =
  ho_config_toml :: "string \<Rightarrow> raw_config option"
  ho_acl_toml :: "string \<Rightarrow> (string \<times> raw_cell) list option"
  ho_config :: "string option"
  ho_read :: "string \<rightharpoonup> string"
  ho_tokens :: "string \<Rightarrow> string + (string \<rightharpoonup> string)"
  ho_store :: "string \<Rightarrow> bus_error + store"
  ho_audit :: "string \<Rightarrow> string + audit_log"
  ho_paths :: "string \<Rightarrow> path_kind"
  ho_env :: "string \<rightharpoonup> string"

datatype boot_error =
  BadConfig config_error | NoIssuer string | NoStore bus_error | NoAudit string |
  NoRecovery bus_error | NoAcl bus_error | NoSocket bind_result

definition fail_as :: "('e \<Rightarrow> 'f) \<Rightarrow> 'e + 'a \<Rightarrow> 'f + 'a" where
  "fail_as f x = (case x of Inl e \<Rightarrow> Inl (f e) | Inr a \<Rightarrow> Inr a)"

definition daemon_state :: "crewd_config \<Rightarrow> core \<Rightarrow> acl \<Rightarrow> daemon" where
  "daemon_state cfg c a =
    \<lparr>dm_core = c, dm_acl = a, dm_quota = quota_new default_quota_config, dm_graph = \<lparr>wg_edges = []\<rparr>,
     dm_wakers = [], dm_cancels = [], dm_revoked = {}, dm_cfg = cfg\<rparr>"

definition boot_scheduler :: "host \<Rightarrow> crewd_config \<Rightarrow> core \<Rightarrow> scheduler" where
  "boot_scheduler H cfg c =
    with_profiles (cf_profiles cfg) (with_keys_env_path (cf_keys_env_path cfg) (scheduler_new (ho_env H) c))"

definition boot :: "host \<Rightarrow> nat \<Rightarrow> boot_error + daemon \<times> scheduler \<times> issuer" where
  "boot H now =
    and_then (fail_as BadConfig (from_toml_file (ho_config_toml H) (ho_config H))) (\<lambda>cfg.
    and_then (fail_as NoIssuer (ho_tokens H (tokens_dir cfg))) (\<lambda>files.
    and_then (fail_as NoStore (ho_store H (db_path cfg))) (\<lambda>s.
    and_then (fail_as NoAudit (ho_audit H (audit_path cfg))) (\<lambda>l.
      (case boot_recovery now (s, l) of
        (Inl e, _) \<Rightarrow> Inl (NoRecovery e)
      | (Inr _, c) \<Rightarrow>
          (case reload_from_file (ho_acl_toml H) (ho_read H (cf_acl_path cfg)) [] of
            (Inl e, _) \<Rightarrow> Inl (NoAcl e)
          | (Inr _, a) \<Rightarrow>
              let b = fst (bootstrap_hardening (ho_paths H) cfg) in
              if b \<noteq> Bound then Inl (NoSocket b)
              else Inr (daemon_state cfg c a, boot_scheduler H cfg c,
                     (file_issuer (tokens_dir cfg))\<lparr>fi_files := files\<rparr>)))))))"

section \<open>What a start leaves of the tables\<close>

text \<open>Recovery writes threads and audit events only, also when it fails.\<close>

definition recovery_frame :: "core \<Rightarrow> core \<Rightarrow> bool" where
  "recovery_frame c d \<longleftrightarrow> fst d = (fst c)\<lparr>s_threads := s_threads (fst d)\<rparr> \<and> threads_kept (fst c) (fst d) \<and>
    log_extends (snd c) (snd d)"

lemma recovery_frame_refl [simp]: "recovery_frame c c"
  by (simp add: recovery_frame_def threads_kept_same)

lemma recovery_frame_trans: "recovery_frame a b \<Longrightarrow> recovery_frame b c \<Longrightarrow> recovery_frame a c"
  by (cases "fst a"; cases "fst b"; cases "fst c")
    (auto simp: recovery_frame_def intro: threads_kept_trans log_extends_trans)

lemma recover_thread_frame: "recovery_frame c (snd (recover_thread now outcome target previous t c))"
proof -
  have t: "recovery_frame (s, l) (snd (thread_transition now i x s), l)" for s l i x
    using threads_kept_step [OF thread_step.intros(2), of s now i x]
    by (simp add: recovery_frame_def thread_transition_def update_thread_def split: option.split)
  obtain r s l where a: "audit_to (engine_draft ''cell_turn_failed'' (Some (t_crewd_thread_id t)) (t_cell_name t) outcome
        (Some (JObj [(''reason'', JStr ''boot_recovery''), (''previous_state'', JStr previous)]))) c = (r, (s, l))"
    by (metis prod.exhaust)
  have e: "recovery_frame c (s, l)"
    using audit_to_extends [of c "engine_draft ''cell_turn_failed'' (Some (t_crewd_thread_id t)) (t_cell_name t) outcome
        (Some (JObj [(''reason'', JStr ''boot_recovery''), (''previous_state'', JStr previous)]))"]
      audit_to_store [of "engine_draft ''cell_turn_failed'' (Some (t_crewd_thread_id t)) (t_cell_name t) outcome
        (Some (JObj [(''reason'', JStr ''boot_recovery''), (''previous_state'', JStr previous)]))" c]
    unfolding a by (simp add: recovery_frame_def threads_kept_same)
  show ?thesis
    using recovery_frame_trans [OF e t [of s l "t_crewd_thread_id t" target]] e
    unfolding recover_thread_def a by (cases r) (auto split: prod.splits)
qed

lemma recover_each_frame: "recovery_frame c (snd (for_each (recover_thread now outcome target previous) ts c))"
proof (induction ts arbitrary: c)
  case (Cons t ts)
  obtain r d where r: "recover_thread now outcome target previous t c = (r, d)" by (metis prod.exhaust)
  have "recovery_frame c d" using recover_thread_frame [of c now outcome target previous t] unfolding r by simp
  then show ?case using recovery_frame_trans [OF _ Cons.IH [of d]] by (cases r) (simp_all add: r)
qed simp

lemma boot_recovery_frame: "recovery_frame c (snd (boot_recovery now c))"
proof -
  let ?f1 = "for_each (recover_thread now ''interrupted'' TInterrupted ''running'') (threads_in_states [TRunning] (fst c))"
  obtain r d where r: "?f1 c = (r, d)" by (metis prod.exhaust)
  let ?f2 = "for_each (recover_thread now ''failed_unknown'' TFailedUnknown ''spawning'') (threads_in_states [TSpawning] (fst d))"
  obtain q e where q: "?f2 d = (q, e)" by (metis prod.exhaust)
  have d: "recovery_frame c d" using recover_each_frame [of c] r by (metis snd_conv)
  have e: "recovery_frame d e" using recover_each_frame [of d] q by (metis snd_conv)
  show ?thesis
    using d recovery_frame_trans [OF d e] unfolding boot_recovery_def Let_def r
    by (cases r; cases q) (simp_all add: q)
qed

lemma frame_follows: "recovery_frame c d \<Longrightarrow> fabric_follows (fst c) (fst d)"
proof -
  assume a: "recovery_frame c d"
  then have "fst d = (fst c)\<lparr>s_threads := s_threads (fst d)\<rparr>" by (simp add: recovery_frame_def)
  then have "same_bus (fst c) (fst d)" "s_jobs (fst d) = s_jobs (fst c)"
    by (cases "fst c"; cases "fst d"; simp add: same_bus_def)+
  with a show ?thesis by (simp add: fabric_follows_def recovery_frame_def jobs_follow_same)
qed

lemma boot_Inr:
  assumes "boot H now = Inr (d, T, I)"
  obtains cfg files s l ids where "from_toml_file (ho_config_toml H) (ho_config H) = Inr cfg"
    "ho_tokens H (tokens_dir cfg) = Inr files" "ho_store H (db_path cfg) = Inr s" "ho_audit H (audit_path cfg) = Inr l"
    "boot_recovery now (s, l) = (Inr ids, dm_core d)" "d = daemon_state cfg (dm_core d) (dm_acl d)"
    "T = boot_scheduler H cfg (dm_core d)" "I = (file_issuer (tokens_dir cfg))\<lparr>fi_files := files\<rparr>"
  using assms
  by (auto simp: boot_def and_then_Inr fail_as_def daemon_state_def Let_def split: sum.splits prod.splits if_splits)

end
