(* ===== verification/Serving.thy ===== *)
theory Serving
  imports Boot
begin

text \<open>
  The daemon with its connections: any interleaving of handshakes, frames of authenticated sessions,
  suspended and resumed awaits, disconnections, phases of the delivery loop, credential changes,
  live revocations, ACL reloads, ticks of the scheduler, output of the engines, and restarts of the
  whole daemon, which keep only what is on disk.
\<close>

section \<open>Sessions and steps\<close>

record session =
  se_who :: cell_principal
  se_wait :: "(nat \<times> ask_row \<times> await_guard) option"

record server =
  sv_daemon :: daemon
  sv_issuer :: issuer
  sv_sessions :: "session list"
  sv_sched :: scheduler

text \<open>The scheduler shares the store, the log and the cancel channel with the handlers.\<close>

definition sched_view :: "server \<Rightarrow> scheduler" where
  "sched_view S = (sv_sched S)\<lparr>sd_core := dm_core (sv_daemon S), sd_cancels := dm_cancels (sv_daemon S)\<rparr>"

definition put_sched :: "scheduler \<Rightarrow> server \<Rightarrow> server" where
  "put_sched T S = S\<lparr>sv_daemon := (sv_daemon S)\<lparr>dm_core := sd_core T, dm_cancels := sd_cancels T\<rparr>, sv_sched := T\<rparr>"

definition server_init :: "server \<Rightarrow> bool" where
  "server_init S \<longleftrightarrow> dm_store (sv_daemon S) = empty_store \<and> wg_edges (dm_graph (sv_daemon S)) = [] \<and>
    sv_sessions S = [] \<and> sd_in_flight (sv_sched S) = []"

text \<open>What a restarted daemon finds: the tables and the acknowledged events of the one before, after any
  starts that failed in between, and its token files.\<close>

definition persisted :: "server \<Rightarrow> host \<Rightarrow> bool" where
  "persisted S H \<longleftrightarrow> (\<exists>attempts. let c = fold (\<lambda>n c. snd (boot_recovery n c)) attempts (dm_core (sv_daemon S)) in
    (\<forall>p s. ho_store H p = Inr s \<longrightarrow> s = fst c) \<and>
    (\<forall>p l. ho_audit H p = Inr l \<longrightarrow> al_events l = al_events (snd c)) \<and>
    (\<forall>p files. ho_tokens H p = Inr files \<longrightarrow> files = fi_files (sv_issuer S)))"

inductive server_step ::
  "codec \<Rightarrow> (string \<Rightarrow> wire_request option) \<Rightarrow> server \<Rightarrow> server \<Rightarrow> bool" for cd parse where
  connect:
    "handshake parse (authenticate cd now (sv_issuer S)) peer raw (sv_daemon S) = (handshake_result.Accepted r who, d) \<Longrightarrow>
     server_step cd parse S
       (S\<lparr>sv_daemon := d, sv_sessions := \<lparr>se_who = who, se_wait = None\<rparr> # sv_sessions S\<rparr>)"
| refuse:
    "handshake parse (authenticate cd now (sv_issuer S)) peer raw (sv_daemon S) = (Rejected r, d) \<Longrightarrow>
     server_step cd parse S (S\<lparr>sv_daemon := d\<rparr>)"
| serve:
    "se \<in> set (sv_sessions S) \<Longrightarrow> se_wait se = None \<Longrightarrow> fresh_ids C (sv_daemon S) \<Longrightarrow>
     session_frame parse C (se_who se) frame (sv_daemon S) = (Continue r, d) \<Longrightarrow>
     server_step cd parse S (S\<lparr>sv_daemon := d\<rparr>)"
| close:
    "se \<in> set (sv_sessions S) \<Longrightarrow> se_wait se = None \<Longrightarrow> fresh_ids C (sv_daemon S) \<Longrightarrow>
     session_frame parse C (se_who se) frame (sv_daemon S) = (Closed r, d) \<Longrightarrow>
     server_step cd parse S (S\<lparr>sv_daemon := d, sv_sessions := remove1 se (sv_sessions S)\<rparr>)"
| suspend:
    "se \<in> set (sv_sessions S) \<Longrightarrow> se_wait se = None \<Longrightarrow> fresh_ids C (sv_daemon S) \<Longrightarrow>
     session_frame parse C (se_who se) frame (sv_daemon S) = (Waiting i a gd, d) \<Longrightarrow>
     server_step cd parse S (S\<lparr>sv_daemon := d,
       sv_sessions := se\<lparr>se_wait := Some (i, a, gd)\<rparr> # remove1 se (sv_sessions S)\<rparr>)"
| register:
    "se \<in> set (sv_sessions S) \<Longrightarrow> se_wait se = Some (i, a, gd) \<Longrightarrow>
     server_step cd parse S (S\<lparr>sv_daemon := await_register (a_ask_id a) (sv_daemon S)\<rparr>)"
| resume:
    "se \<in> set (sv_sessions S) \<Longrightarrow> se_wait se = Some (i, a, gd) \<Longrightarrow>
     await_finish woken a gd (sv_daemon S) = (r, d) \<Longrightarrow>
     server_step cd parse S (S\<lparr>sv_daemon := d,
       sv_sessions := se\<lparr>se_wait := None\<rparr> # remove1 se (sv_sessions S)\<rparr>)"
| disconnect:
    "se \<in> set (sv_sessions S) \<Longrightarrow> se_wait se = Some (i, a, gd) \<Longrightarrow>
     server_step cd parse S (S\<lparr>sv_daemon := await_cancelled gd (sv_daemon S),
       sv_sessions := remove1 se (sv_sessions S)\<rparr>)"
| expire_asks: "server_step cd parse S (S\<lparr>sv_daemon := tick_asks now (sv_daemon S)\<rparr>)"
| expire_deliveries: "server_step cd parse S (S\<lparr>sv_daemon := tick_deliveries now (sv_daemon S)\<rparr>)"
| claim: "server_step cd parse S (S\<lparr>sv_daemon := snd (tick_claim now (sv_daemon S))\<rparr>)"
| outcome: "server_step cd parse S (S\<lparr>sv_daemon := apply_outcome now j mid rec out (sv_daemon S)\<rparr>)"
| credential: "server_step cd parse S (S\<lparr>sv_issuer := run_op cd x (sv_issuer S)\<rparr>)"
| revoke_live: "server_step cd parse S (S\<lparr>sv_daemon := registry_revoke tid (sv_daemon S)\<rparr>)"
| reload: "server_step cd parse S (S\<lparr>sv_daemon := (sv_daemon S)\<lparr>dm_acl := a\<rparr>\<rparr>)"
| sched_tick: "server_step cd parse S (put_sched (snd (sched_tick I (sched_view S))) S)"
| engine_line: "server_step cd parse S (put_sched (engine_output X cell line (sched_view S)) S)"
| engine_pipe: "server_step cd parse S (put_sched (engine_breaks cell msg (sched_view S)) S)"
| restart:
    "boot H now = Inr (d, T, I) \<Longrightarrow> persisted S H \<Longrightarrow>
     server_step cd parse S \<lparr>sv_daemon = d, sv_issuer = I, sv_sessions = [], sv_sched = T\<rparr>"

section \<open>The scheduler's view\<close>

text \<open>What the handlers and the delivery loop may do to the jobs, the threads and the log.\<close>

definition daemon_follows :: "daemon \<Rightarrow> daemon \<Rightarrow> bool" where
  "daemon_follows d d' \<longleftrightarrow> jobs_follow (dm_store d) (dm_store d') \<and> threads_kept (dm_store d) (dm_store d') \<and>
    log_extends (dm_log d) (dm_log d') \<and> (bus_keys (dm_store d) \<longrightarrow> bus_keys (dm_store d'))"

lemma daemon_follows_trans: "daemon_follows a b \<Longrightarrow> daemon_follows b c \<Longrightarrow> daemon_follows a c"
  unfolding daemon_follows_def by (blast intro: jobs_follow_trans threads_kept_trans log_extends_trans)

lemma follows_same_core [simp]: "dm_core d' = dm_core d \<Longrightarrow> daemon_follows d d'"
  by (simp add: daemon_follows_def jobs_follow_same threads_kept_same)

lemma follows_quiet:
  "s_jobs (dm_store d') = s_jobs (dm_store d) \<Longrightarrow> s_threads (dm_store d') = s_threads (dm_store d) \<Longrightarrow>
   audit_grows d d' \<Longrightarrow> (bus_keys (dm_store d) \<Longrightarrow> bus_keys (dm_store d')) \<Longrightarrow> daemon_follows d d'"
  by (simp add: daemon_follows_def jobs_follow_same threads_kept_same log_extends_def audit_grows_def)

lemma loop_follows: "loop_frame d d' \<Longrightarrow> daemon_follows d d'"
  by (rule follows_quiet) (auto simp: loop_frame_def bus_keys_def map_update_rows_inv [where key = a_ask_id])

lemma edit_bus_keys: "bus_edit A C sender d d' \<Longrightarrow> bus_keys (dm_store d) \<Longrightarrow> bus_keys (dm_store d')"
proof (induction rule: bus_edit.induct)
  case (record_event dr d r d')
  with audit_dm_store [OF record_event(1)] show ?case by simp
next
  case (fabric d s l)
  then show ?case by (simp add: fabric_follows_def same_bus_def bus_keys_def)
qed (auto simp: notify_def intro: bus.inv_step bus_step.intros)

lemma edit_follows: "bus_edit A C sender d d' \<Longrightarrow> daemon_follows d d'"
proof -
  assume e: "bus_edit A C sender d d'"
  have "jobs_follow (dm_store d) (dm_store d') \<and> threads_kept (dm_store d) (dm_store d') \<and> audit_grows d d'"
    using e
  proof (induction rule: bus_edit.induct)
    case (record_event dr d r d')
    from audit_dm_store [OF this] show ?case by (simp add: jobs_follow_same threads_kept_same)
  next
    case (fabric d s l)
    then show ?case by (simp add: fabric_follows_def)
  next
    case (pull a d n)
    show ?case by (simp add: inbox_eq Let_def jobs_follow_same threads_kept_same)
  qed (simp_all add: jobs_follow_same threads_kept_same next_seq_def insert_envelope_def insert_delivery_def
      insert_ask_def commit_reply_def dedupe_insert_def notify_def Let_def)
  with edit_bus_keys [OF e] show ?thesis by (simp add: daemon_follows_def audit_grows_def log_extends_def)
qed

lemma edits_follow: "edits A C sender d d' \<Longrightarrow> daemon_follows d d'"
  by (induction rule: rtranclp_induct) (auto intro: daemon_follows_trans edit_follows)

lemma one_started_follow:
  assumes "one_started s" "jobs_follow s t"
  shows "one_started t"
proof -
  obtain js new where "s_jobs t = js @ new" "list_all2 job_kept (s_jobs s) js"
    "list_all (\<lambda>j. j_state j \<in> {JQueued, JCancelled}) new" using assms(2) by (auto simp: jobs_follow_def)
  then show ?thesis
    by (intro one_started_none [OF assms(1), of js t new])
      (auto simp: job_kept_def starts_none_def list_all_iff elim!: list_all2_mono)
qed

lemma job_kept_moves: "job_kept j k \<Longrightarrow> job_moves j k"
  by (auto simp: job_kept_def job_moves_def settled_def)

text \<open>No row of the jobs disappears, none changes its identity or its cell, and no settled one opens again.\<close>

definition rows_kept :: "store \<Rightarrow> store \<Rightarrow> bool" where
  "rows_kept s t \<longleftrightarrow> (\<exists>js new. s_jobs t = js @ new \<and> list_all2 job_moves (s_jobs s) js)"

lemma rows_kept_follow: "jobs_follow s t \<Longrightarrow> rows_kept s t"
  unfolding jobs_follow_def rows_kept_def by (blast intro: list_all2_mono job_kept_moves)

lemma rows_kept_moves: "list_all2 job_moves (s_jobs s) (s_jobs t) \<Longrightarrow> rows_kept s t"
  unfolding rows_kept_def by (intro exI [of _ "s_jobs t"] exI [of _ "[]"]) simp

lemma rows_kept_trans:
  assumes "rows_kept s t" "rows_kept t u"
  shows "rows_kept s u"
proof -
  obtain js new where t: "s_jobs t = js @ new" "list_all2 job_moves (s_jobs s) js"
    using assms(1) by (auto simp: rows_kept_def)
  obtain ks more where u: "s_jobs u = ks @ more" "list_all2 job_moves (js @ new) ks"
    using assms(2) t(1) by (auto simp: rows_kept_def)
  obtain js' new' where k: "ks = js' @ new'" "list_all2 job_moves js js'"
    using u(2) by (auto simp: list_all2_append1)
  from moves_trans [OF t(2) k(2)] u(1) k(1) show ?thesis
    unfolding rows_kept_def by (intro exI [of _ js'] exI [of _ "new' @ more"]) simp
qed

lemma rows_kept_get:
  assumes "rows_kept s t" "job_get i s = Some j"
  shows "\<exists>k. job_get i t = Some k \<and> job_moves j k"
proof -
  obtain js new where t: "s_jobs t = js @ new" "list_all2 job_moves (s_jobs s) js"
    using assms(1) by (auto simp: rows_kept_def)
  from find_list_all2 [OF t(2), of j_job_id i] assms(2) show ?thesis
    by (auto simp: job_get_def t(1) find_append job_moves_def rel_option_iff split: option.splits)
qed

lemma turns_ok_cancels [simp]: "turns_ok (T\<lparr>sd_cancels := cs\<rparr>) = turns_ok T"
  by (simp add: turns_ok_def)

lemma turns_ok_follow:
  assumes "turns_ok T" "jobs_follow (sd_store T) s" "log_extends (sd_log T) l"
  shows "turns_ok (T\<lparr>sd_core := (s, l)\<rparr>)"
proof -
  have "turn_ok s l x" if "turn_ok (sd_store T) (sd_log T) x" for x
    using that rows_kept_get [OF rows_kept_follow [OF assms(2)]] turn_announced_mono [OF assms(3)]
    by (fastforce simp: turn_ok_def job_accepted_def job_moves_def)
  moreover have "one_started s" "jobs_ok s"
    using assms(1,2) one_started_follow by (auto simp: turns_ok_def jobs_follow_def)
  ultimately show ?thesis using assms(1) by (simp add: turns_ok_def)
qed

lemma sched_view_simps [simp]:
  "sched_view (S\<lparr>sv_sessions := ss\<rparr>) = sched_view S" "sched_view (S\<lparr>sv_issuer := I\<rparr>) = sched_view S"
  "sched_view (put_sched T S) = T" "sd_store (sched_view S) = dm_store (sv_daemon S)"
  "sd_log (sched_view S) = dm_log (sv_daemon S)"
  by (simp_all add: sched_view_def put_sched_def)

lemma turns_ok_daemon:
  assumes "turns_ok (sched_view S)" "daemon_follows (sv_daemon S) d"
  shows "turns_ok (sched_view (S\<lparr>sv_daemon := d\<rparr>))"
proof -
  have "turns_ok ((sched_view S)\<lparr>sd_core := (dm_store d, dm_log d)\<rparr>)"
    using assms by (intro turns_ok_follow) (simp_all add: daemon_follows_def)
  then have "turns_ok ((sched_view S)\<lparr>sd_core := (dm_store d, dm_log d), sd_cancels := dm_cancels d\<rparr>)" by simp
  then show ?thesis by (simp add: sched_view_def)
qed

end
