(* ===== verification/System.thy ===== *)
theory System
  imports Serving
begin

text \<open>
  The invariant of the running daemon, the properties that hold in every reachable state and along
  every run, and an example run.
\<close>

section \<open>The invariant\<close>

definition guards :: "session list \<Rightarrow> await_guard list" where
  "guards ss = List.map_filter (\<lambda>se. map_option (\<lambda>(i, a, gd). gd) (se_wait se)) ss"

lemma guards_simps [simp]:
  "guards [] = []"
  "guards (se # ss) = (case se_wait se of None \<Rightarrow> guards ss | Some (i, a, gd) \<Rightarrow> gd # guards ss)"
  by (simp_all add: guards_def List.map_filter_simps split: option.split)

lemma held_guards_pos:
  "se \<in> set ss \<Longrightarrow> se_wait se = Some (i, a, gd) \<Longrightarrow> 0 < held (guards ss) (guard_edge gd)"
  by (induction ss) (auto split: option.splits)

lemma held_guards_remove1:
  "se \<in> set ss \<Longrightarrow> held (guards (remove1 se ss)) e =
   held (guards ss) e - (case se_wait se of None \<Rightarrow> 0 | Some (i, a, gd) \<Rightarrow> if guard_edge gd = e then 1 else 0)"
proof (induction ss)
  case (Cons x ss)
  show ?case
  proof (cases "x = se")
    case False
    then have "se \<in> set ss" using Cons(2) by simp
    from Cons(1) [OF this] held_guards_pos [OF this] False show ?thesis
      by (cases "se_wait se"; cases "se_wait x") (auto simp: Suc_diff_le Suc_le_eq)
  qed (auto split: option.splits)
qed simp

text \<open>The graph counts exactly the guards of the suspended sessions.\<close>

definition graph_ok :: "daemon \<Rightarrow> session list \<Rightarrow> bool" where
  "graph_ok d ss \<longleftrightarrow> await_inv (dm_graph d, guards ss)"

lemma graph_ok_cong:
  "(\<And>e. held (guards ss) e = held gs e) \<Longrightarrow> graph_ok d ss \<longleftrightarrow> await_inv (dm_graph d, gs)"
  by (simp add: graph_ok_def await_inv_def)

text \<open>The keys of the tables are unique; those of the jobs are part of \<open>turns_ok\<close>.\<close>

definition tables_ok :: "store \<Rightarrow> bool" where
  "tables_ok s \<longleftrightarrow> bus_keys s \<and> threads_ok s"

definition server_ok :: "server \<Rightarrow> bool" where
  "server_ok S \<longleftrightarrow> bus_sound (sv_daemon S) \<and> graph_ok (sv_daemon S) (sv_sessions S) \<and> turns_ok (sched_view S) \<and>
    tables_ok (dm_store (sv_daemon S))"

lemma tables_ok_follow: "tables_ok (dm_store d) \<Longrightarrow> daemon_follows d d' \<Longrightarrow> tables_ok (dm_store d')"
  by (simp add: tables_ok_def daemon_follows_def threads_kept_def)

lemma tables_ok_fabric: "tables_ok s \<Longrightarrow> same_bus s t \<Longrightarrow> threads_kept s t \<Longrightarrow> tables_ok t"
  by (simp add: tables_ok_def threads_kept_def same_bus_def bus_keys_def)

lemma edit_graph: "bus_edit A C sender d d' \<Longrightarrow> dm_graph d' = dm_graph d"
  by (induction rule: bus_edit.induct) (auto simp: notify_def dest: audit_dm_frame)

lemma edits_graph: "edits A C sender d d' \<Longrightarrow> dm_graph d' = dm_graph d"
  by (induction rule: rtranclp_induct) (auto dest: edit_graph)

lemma handshake_frame: "handshake parse auth peer raw d = (x, d') \<Longrightarrow> loop_frame d d'"
  by (auto simp: handshake_def auth_rejected_def loop_frame_audit
      split: option.splits sum.splits if_splits)

text \<open>A frame that does not suspend is a sequence of protocol edits; one that does is an activation.\<close>

lemma frame_cases:
  assumes "session_frame parse C who frame d = (x, d')" "fresh_ids C d"
  shows "(case x of
      Waiting i a gd \<Rightarrow> d' = d\<lparr>dm_graph := dm_graph d'\<rparr> \<and>
        try_activate_await (dm_graph d) (pr_cell_id who) (a_to_cell a) = (Inr gd, dm_graph d')
    | _ \<Rightarrow> edits {dm_acl d} C (pr_cell_id who) d d')"
proof (cases frame)
  case (Some bytes)
  have rej: "edits {dm_acl d} C (pr_cell_id who) d (auth_rejected cell detail d)" for cell detail
    unfolding auth_rejected_def audit_best_effort_def by (rule edit_audit) simp
  show ?thesis
  proof (cases "bytes = [] \<or> parse bytes = None")
    case False
    then obtain req where req: "parse bytes = Some req" by auto
    show ?thesis
    proof (cases "token_revoked who d")
      case None
      obtain y d1 where y: "dispatch C who req d = (y, d1)" by (metis prod.exhaust)
      from dispatch_refines_protocol_aux [OF assms(2), of who req] show ?thesis
        using assms(1) Some False req None y
        by (cases y) (auto simp: session_frame_def)
    qed (use assms(1) Some False req rej in \<open>auto simp: session_frame_def\<close>)
  qed (use assms(1) Some in \<open>auto simp: session_frame_def split: if_splits\<close>)
qed (use assms(1) in \<open>auto simp: session_frame_def\<close>)

lemma await_activate:
  "await_inv (g, gs) \<Longrightarrow> try_activate_await g a b = (Inr gd, g') \<Longrightarrow> await_inv (g', gd # gs)"
  by (rule awaits.inv_step [OF _ await_step.activate])

lemma await_give_back: "await_inv (g, gs) \<Longrightarrow> gd \<in> set gs \<Longrightarrow> await_inv (release g gd, remove1 gd gs)"
  by (rule awaits.inv_step [OF _ await_step.give_back])

lemma guard_in: "se \<in> set ss \<Longrightarrow> se_wait se = Some (i, a, gd) \<Longrightarrow> gd \<in> set (guards ss)"
  by (induction ss) (auto split: option.splits)

lemma graph_ok_idle:
  "se \<in> set ss \<Longrightarrow> se_wait se = None \<Longrightarrow> graph_ok d (remove1 se ss) = graph_ok d ss"
  using graph_ok_cong [of "remove1 se ss" "guards ss" d] by (simp add: held_guards_remove1 graph_ok_def)

lemma graph_ok_release:
  assumes "graph_ok d ss" "se \<in> set ss" "se_wait se = Some (i, a, gd)" "dm_graph d' = release (dm_graph d) gd"
  shows "graph_ok d' (remove1 se ss)"
proof -
  have "await_inv (release (dm_graph d) gd, remove1 gd (guards ss))"
    using assms(1) guard_in [OF assms(2,3)] by (simp add: graph_ok_def await_give_back)
  moreover have "held (guards (remove1 se ss)) e = held (remove1 gd (guards ss)) e" for e
    using guard_in [OF assms(2,3)] by (simp add: held_guards_remove1 [OF assms(2)] assms(3) held_remove1)
  ultimately show ?thesis using graph_ok_cong [of "remove1 se ss"] assms(4) by simp
qed

lemma bus_sound_graph [simp]: "bus_sound (d\<lparr>dm_graph := g\<rparr>) = bus_sound d"
  "bus_sound (d\<lparr>dm_acl := a\<rparr>) = bus_sound d" "bus_sound (d\<lparr>dm_wakers := w\<rparr>) = bus_sound d"
  "bus_sound (d\<lparr>dm_revoked := v\<rparr>) = bus_sound d" "bus_sound (d\<lparr>dm_cancels := c\<rparr>) = bus_sound d"
  by (simp_all add: bus_sound_def delivery_sound_def ask_sound_def ask_opened_def ask_answer_def dedupe_sound_def
      message_def published_def)

lemma server_ok_loop: "server_ok S \<Longrightarrow> loop_frame (sv_daemon S) d \<Longrightarrow> server_ok (S\<lparr>sv_daemon := d\<rparr>)"
  using loop_follows [of "sv_daemon S" d]
  by (auto simp: server_ok_def graph_ok_def loop_frame_def intro: loop_sound [unfolded loop_frame_def] turns_ok_daemon tables_ok_follow)

lemma server_ok_edits:
  assumes "server_ok S" "edits A C sender (sv_daemon S) d"
  shows "server_ok (S\<lparr>sv_daemon := d\<rparr>)"
  using assms(1) edits_sound [OF assms(2)] edits_graph [OF assms(2)] turns_ok_daemon [OF _ edits_follow [OF assms(2)]]
    tables_ok_follow [OF _ edits_follow [OF assms(2)]]
  by (simp add: server_ok_def graph_ok_def)

text \<open>The bus part of the invariant looks at the store and the log only, and survives work on the other tables.\<close>

lemma bus_sound_core: "dm_core d = dm_core e \<Longrightarrow> bus_sound d = bus_sound e"
  by (simp add: bus_sound_def delivery_sound_def ask_sound_def ask_opened_def ask_answer_def dedupe_sound_def
      message_def published_def)

lemma fabric_extends:
  "same_bus (dm_store d) (dm_store e) \<Longrightarrow> log_extends (dm_log d) (dm_log e) \<Longrightarrow> extends d e"
  by (simp add: extends_def audit_grows_def log_extends_def same_bus_def get_envelope_def)

lemma bus_sound_fabric:
  assumes "bus_sound d" "same_bus (dm_store d) (dm_store e)" "log_extends (dm_log d) (dm_log e)"
  shows "bus_sound e"
  using bus_sound_frame [OF assms(1) fabric_extends [OF assms(2,3)]] assms(2) by (simp add: same_bus_def)

lemma tick_work:
  "turns_ok T \<Longrightarrow> engine_work (sd_core T) (sd_core (snd (sched_tick I T)))"
  by (rule turn_edits_work [OF edits_tick]) (simp_all add: turns_ok_def)

lemma tables_same_bus: "engine_tables_only s t \<Longrightarrow> same_bus s t"
  by (cases s; cases t) (simp add: engine_tables_only_def same_bus_def)

lemma work_parts:
  assumes "engine_work c d"
  shows "same_bus (fst c) (fst d)" "threads_kept (fst c) (fst d)" "log_extends (snd c) (snd d)"
    "list_all2 job_moves (s_jobs (fst c)) (s_jobs (fst d))"
  using assms tables_same_bus by (simp_all only: engine_work_def)

lemma put_sched_simps [simp]:
  "dm_core (sv_daemon (put_sched T S)) = sd_core T" "dm_graph (sv_daemon (put_sched T S)) = dm_graph (sv_daemon S)"
  "sv_sessions (put_sched T S) = sv_sessions S"
  by (simp_all add: put_sched_def)

lemma restart_frame:
  assumes "boot H now = Inr (d, T, I)" "persisted S H"
  shows "recovery_frame (dm_core (sv_daemon S)) (dm_core d)"
proof -
  obtain cfg files s l ids where b: "ho_store H (db_path cfg) = Inr s" "ho_audit H (audit_path cfg) = Inr l"
    "boot_recovery now (s, l) = (Inr ids, dm_core d)"
    using assms(1) by (rule boot_Inr)
  obtain attempts where c: "\<And>p s. ho_store H p = Inr s \<Longrightarrow> s = fst (fold (\<lambda>n c. snd (boot_recovery n c)) attempts (dm_core (sv_daemon S)))"
    "\<And>p l. ho_audit H p = Inr l \<Longrightarrow> al_events l = al_events (snd (fold (\<lambda>n c. snd (boot_recovery n c)) attempts (dm_core (sv_daemon S))))"
    using assms(2) by (auto simp: persisted_def Let_def)
  have f: "recovery_frame c (fold (\<lambda>n c. snd (boot_recovery n c)) ns c)" for ns c
  proof (induction ns arbitrary: c)
    case (Cons n ns)
    show ?case unfolding fold_simps by (rule recovery_frame_trans [OF boot_recovery_frame Cons.IH])
  qed simp
  have "recovery_frame (s, l) (dm_core d)" using boot_recovery_frame [of "(s, l)" now] b(3) by simp
  moreover have "recovery_frame (dm_core (sv_daemon S)) (s, l)"
    using f [of "dm_core (sv_daemon S)" attempts] c(1) [OF b(1)] c(2) [OF b(2)]
    by (simp add: recovery_frame_def log_extends_def)
  ultimately show ?thesis by (blast intro: recovery_frame_trans)
qed

lemma restart_state:
  assumes "boot H now = Inr (d, T, I)"
  shows "dm_graph d = \<lparr>wg_edges = []\<rparr> \<and> sd_in_flight T = [] \<and> sd_core T = dm_core d \<and> sd_cancels T = dm_cancels d"
proof -
  obtain cfg where d: "d = daemon_state cfg (dm_core d) (dm_acl d)" and t: "T = boot_scheduler H cfg (dm_core d)"
    using assms by (rule boot_Inr)
  have "dm_graph d = \<lparr>wg_edges = []\<rparr>" "dm_cancels d = []"
    using arg_cong [OF d, of dm_graph] arg_cong [OF d, of dm_cancels] by (simp_all add: daemon_state_def)
  then show ?thesis
    unfolding t by (simp add: boot_scheduler_def scheduler_new_def with_keys_env_path_def with_profiles_def)
qed

lemma recovery_log: "recovery_frame c d \<Longrightarrow> log_extends (snd c) (snd d)"
  by (simp only: recovery_frame_def)

lemma server_ok_restart:
  assumes "server_ok S" "boot H now = Inr (d, T, I)" "persisted S H"
  shows "server_ok \<lparr>sv_daemon = d, sv_issuer = I, sv_sessions = [], sv_sched = T\<rparr>"
proof -
  note fr = restart_frame [OF assms(2,3)] and st = restart_state [OF assms(2)]
  note fo = frame_follows [OF fr, unfolded fabric_follows_def]
  have "bus_sound d"
    using assms(1) fo fr by - (rule bus_sound_fabric [of "sv_daemon S"], simp_all add: server_ok_def recovery_log)
  moreover have "graph_ok d []" using st by (simp add: graph_ok_def await_inv_def active_def acyclic_def)
  moreover have "turns_ok (sched_view \<lparr>sv_daemon = d, sv_issuer = I, sv_sessions = [], sv_sched = T\<rparr>)"
    using assms(1) fo st one_started_follow by (auto simp: server_ok_def turns_ok_def sched_view_def jobs_follow_def)
  moreover have "tables_ok (dm_store d)"
    using assms(1) fo by (auto simp: server_ok_def intro: tables_ok_fabric)
  ultimately show ?thesis by (simp add: server_ok_def)
qed

lemma server_ok_sched:
  assumes "server_ok S" "engine_work (dm_core (sv_daemon S)) (sd_core T)" "turns_ok T"
  shows "server_ok (put_sched T S)"
proof -
  have "bus_sound (sv_daemon (put_sched T S))"
    using assms(1,2) by - (rule bus_sound_fabric [of "sv_daemon S"], simp_all add: server_ok_def work_parts)
  moreover have "tables_ok (sd_store T)"
    using assms(1) work_parts [OF assms(2)] by (auto simp: server_ok_def intro: tables_ok_fabric)
  ultimately show ?thesis using assms(1,3) by (simp add: server_ok_def graph_ok_def)
qed

interpretation serving: invariant_of server_init "server_step cd parse" server_ok for cd parse
proof unfold_locales
  fix S assume "server_init S"
  then show "server_ok S"
    by (cases "dm_graph (sv_daemon S)")
      (simp add: server_init_def server_ok_def bus_sound_def graph_ok_def await_inv_def active_def acyclic_def
        turns_ok_def one_started_def jobs_ok_def sched_view_def tables_ok_def bus_keys_def threads_ok_def)
next
  fix S T assume ok: "server_ok S" and st: "server_step cd parse S T"
  from ok have bs: "bus_sound (sv_daemon S)" and gr: "graph_ok (sv_daemon S) (sv_sessions S)"
    and tn: "turns_ok (sched_view S)" and tb: "tables_ok (dm_store (sv_daemon S))" by (simp_all add: server_ok_def)
  from st show "server_ok T"
  proof cases
    case (connect now peer raw r who d)
    from server_ok_loop [OF ok handshake_frame [OF connect(2)]] connect(1) show ?thesis
      by (simp add: server_ok_def graph_ok_def)
  next
    case (refuse now peer raw r d)
    from server_ok_loop [OF ok handshake_frame [OF refuse(2)]] refuse(1) show ?thesis by simp
  next
    case (serve se C frame r d)
    from frame_cases [OF serve(5,4)] have "edits {dm_acl (sv_daemon S)} C (pr_cell_id (se_who se)) (sv_daemon S) d" by simp
    from server_ok_edits [OF ok this] serve(1) show ?thesis by simp
  next
    case (close se C frame r d)
    from frame_cases [OF close(5,4)] have "edits {dm_acl (sv_daemon S)} C (pr_cell_id (se_who se)) (sv_daemon S) d" by simp
    from server_ok_edits [OF ok this] edits_graph [OF this] close(1) graph_ok_idle [OF close(2,3)] show ?thesis
      by (simp add: server_ok_def)
  next
    case (suspend se C frame i a gd d)
    from frame_cases [OF suspend(5,4)] have d: "d = (sv_daemon S)\<lparr>dm_graph := dm_graph d\<rparr>"
      and t: "try_activate_await (dm_graph (sv_daemon S)) (pr_cell_id (se_who se)) (a_to_cell a) = (Inr gd, dm_graph d)"
      by simp_all
    have c: "dm_core d = dm_core (sv_daemon S)" by (subst d) simp
    have "await_inv (dm_graph d, gd # guards (remove1 se (sv_sessions S)))"
      using gr graph_ok_idle [OF suspend(2,3), of "sv_daemon S"] await_activate [OF _ t] by (simp add: graph_ok_def)
    then show ?thesis
      using suspend(1) tb c bs bus_sound_core [OF c] turns_ok_daemon [OF tn follows_same_core [OF c]]
      by (simp add: server_ok_def graph_ok_def)
  next
    case (register se i a gd)
    then show ?thesis
      using bs gr tb turns_ok_daemon [OF tn, of "await_register (a_ask_id a) (sv_daemon S)"]
      by (simp add: server_ok_def graph_ok_def await_register_def)
  next
    case (resume se i a gd woken r d)
    have d: "dm_core d = dm_core (sv_daemon S)" "dm_graph d = release (dm_graph (sv_daemon S)) gd"
      using resume(4) by (auto simp: await_finish_def Let_def take_permit_def)
    from graph_ok_release [OF gr resume(2,3) d(2)] resume(1) tb d(1) bs bus_sound_core [OF d(1)]
      turns_ok_daemon [OF tn follows_same_core [OF d(1)]] show ?thesis
      by (simp add: server_ok_def graph_ok_def)
  next
    case (disconnect se i a gd)
    from graph_ok_release [OF gr disconnect(2,3), of "await_cancelled gd (sv_daemon S)"] bs tb disconnect(1)
      turns_ok_daemon [OF tn, of "await_cancelled gd (sv_daemon S)"] show ?thesis
      by (simp add: server_ok_def await_cancelled_def)
  next
    case (sched_tick I)
    from server_ok_sched [OF ok] tick_work [OF tn] tick_turns_ok [OF tn] sched_tick(1) show ?thesis
      by (simp add: sched_view_def)
  next
    case (engine_line X cell line)
    have "sd_core (engine_output X cell line (sched_view S)) = dm_core (sv_daemon S)"
      by (simp add: engine_output_def sched_view_def)
    with server_ok_sched [OF ok, of "engine_output X cell line (sched_view S)"] tn engine_line(1) show ?thesis by simp
  next
    case (engine_pipe cell msg)
    have "sd_core (engine_breaks cell msg (sched_view S)) = dm_core (sv_daemon S)"
      by (simp add: engine_breaks_def sched_view_def)
    with server_ok_sched [OF ok, of "engine_breaks cell msg (sched_view S)"] tn engine_pipe(1) show ?thesis by simp
  next
    case (restart H now d T I)
    from server_ok_restart [OF ok restart(2,3)] restart(1) show ?thesis by simp
  next
    case (reload a)
    with bs gr tb turns_ok_daemon [OF tn, of "(sv_daemon S)\<lparr>dm_acl := a\<rparr>"] show ?thesis
      by (simp add: server_ok_def graph_ok_def)
  next
    case (revoke_live tid)
    with bs gr tb turns_ok_daemon [OF tn, of "registry_revoke tid (sv_daemon S)"] show ?thesis
      by (simp add: server_ok_def graph_ok_def registry_revoke_def)
  next
    case (credential x)
    with ok show ?thesis by (simp add: server_ok_def)
  qed (auto intro!: server_ok_loop [OF ok] loop_frame_tick_asks loop_frame_tick_deliveries loop_frame_tick_claim
      loop_frame_outcome)
qed

section \<open>What holds in every reachable state\<close>

text \<open>C3: in every reachable state of the server, every delivery belongs to a stored, valid envelope that
  is addressed to its recipient or broadcast, and whose \<open>enqueued\<close> or \<open>broadcast_fanned_out\<close> event
  was acknowledged by the audit log: nothing is ever consumable without its audit event.  Every ask
  belongs to its asker's published message, an answered ask has a published reply from exactly the
  cell that was asked, and every idempotency key points to a published message of its owner.\<close>

theorem bus_always_sound:
  assumes "reachable server_init (server_step cd parse) S"
  shows "bus_sound (sv_daemon S)"
  using serving.inv_reachable [OF assms] by (simp add: server_ok_def)

text \<open>C8: the tables are well formed in every reachable state: message identifiers, deliveries, ask
  identifiers, idempotency keys and sequence counters, thread identifiers, job identifiers and queue
  positions are unique, and every stored envelope satisfies the envelope invariants.  The schema's
  keys are never violated, whatever identifiers the clients, engines and restarts bring about.\<close>

theorem tables_well_formed:
  assumes "reachable server_init (server_step cd parse) S"
  shows "bus_keys (dm_store (sv_daemon S)) \<and> threads_ok (dm_store (sv_daemon S)) \<and>
    jobs_ok (dm_store (sv_daemon S)) \<and> (\<forall>e \<in> set (s_envelopes (dm_store (sv_daemon S))). validate_invariants e = Inr ())"
  using serving.inv_reachable [OF assms] by (simp add: server_ok_def tables_ok_def turns_ok_def bus_sound_def)

definition waits_on :: "edge \<Rightarrow> session \<Rightarrow> bool" where
  "waits_on e se \<longleftrightarrow> (case se_wait se of None \<Rightarrow> False | Some (i, a, gd) \<Rightarrow> guard_edge gd = e)"

lemma held_guards: "held (guards ss) e = length (filter (waits_on e) ss)"
  by (induction ss) (auto simp: waits_on_def split: option.splits)

text \<open>C4: in every reachable state the graph of active awaits is acyclic, so no set of cells waits on
  each other, and the count of an edge is the number of suspended sessions that wait along it:
  an answer, a timeout, a disconnection or an expiry never leaks an edge.\<close>

theorem no_leaked_waits:
  assumes "reachable server_init (server_step cd parse) S"
  shows "acyclic (active (wg_edges (dm_graph (sv_daemon S)))) \<and>
    (\<forall>e. map_of (wg_edges (dm_graph (sv_daemon S))) e =
       (let n = length (filter (waits_on e) (sv_sessions S)) in if n = 0 then None else Some n))"
  using serving.inv_reachable [OF assms]
  by (simp add: server_ok_def graph_ok_def await_inv_def held_guards Let_def)

text \<open>C5: in every reachable state a cell has at most one turn in flight and at most one started job, and a
  thread at most one turn; every turn in flight was announced by a durable \<open>cell_turn_started\<close>
  event, and one that counts as accepted has its acceptance in the store.  This holds whatever the
  clients, the engines, the clock and the audit log do, and across restarts.\<close>

theorem one_turn_per_cell:
  assumes "reachable server_init (server_step cd parse) S"
  shows "distinct (map (if_cell \<circ> snd) (sd_in_flight (sv_sched S))) \<and>
    distinct (map fst (sd_in_flight (sv_sched S))) \<and> one_started (dm_store (sv_daemon S)) \<and>
    (\<forall>x \<in> set (sd_in_flight (sv_sched S)). turn_announced (fst x) (dm_log (sv_daemon S)) \<and>
       (if_accepted (snd x) \<longrightarrow> job_accepted (if_job_id (snd x)) (dm_store (sv_daemon S))))"
proof -
  have "turns_ok (sched_view S)" using serving.inv_reachable [OF assms] by (simp add: server_ok_def)
  moreover have "sd_in_flight (sched_view S) = sd_in_flight (sv_sched S)" by (simp add: sched_view_def)
  ultimately show ?thesis by (auto simp: turns_ok_def turn_ok_def case_prod_beta)
qed

section \<open>What holds along every run\<close>

definition kept :: "server \<Rightarrow> server \<Rightarrow> bool" where
  "kept S T \<longleftrightarrow> extends (sv_daemon S) (sv_daemon T) \<and>
    threads_kept (dm_store (sv_daemon S)) (dm_store (sv_daemon T)) \<and>
    rows_kept (dm_store (sv_daemon S)) (dm_store (sv_daemon T))"

lemma kept_trans: "kept S T \<Longrightarrow> kept T U \<Longrightarrow> kept S U"
  unfolding kept_def by (blast intro: extends_trans threads_kept_trans rows_kept_trans)

lemma kept_daemon:
  "extends (sv_daemon S) (sv_daemon T) \<Longrightarrow> daemon_follows (sv_daemon S) (sv_daemon T) \<Longrightarrow> kept S T"
  by (simp add: kept_def daemon_follows_def rows_kept_follow)

lemma kept_core: "dm_core (sv_daemon T) = dm_core (sv_daemon S) \<Longrightarrow> kept S T"
  by (rule kept_daemon) (simp_all add: fabric_extends)

lemma kept_edits: "edits A C sender (sv_daemon S) (sv_daemon T) \<Longrightarrow> kept S T"
  by (rule kept_daemon) (simp_all add: edits_extend edits_follow)

lemma kept_loop: "loop_frame (sv_daemon S) (sv_daemon T) \<Longrightarrow> kept S T"
  by (rule kept_daemon) (simp_all add: loop_follows loop_frame_def extends_def get_envelope_def)

lemma step_kept:
  assumes "server_step cd parse S T" "server_ok S"
  shows "kept S T"
  using assms(1)
proof cases
  case (connect now peer raw r who d)
  from handshake_frame [OF connect(2)] connect(1) show ?thesis by (simp add: kept_loop)
next
  case (refuse now peer raw r d)
  from handshake_frame [OF refuse(2)] refuse(1) show ?thesis by (simp add: kept_loop)
next
  case (serve se C frame r d)
  from frame_cases [OF serve(5,4)] serve(1) show ?thesis by (intro kept_edits) simp
next
  case (close se C frame r d)
  from frame_cases [OF close(5,4)] close(1) show ?thesis by (intro kept_edits) simp
next
  case (suspend se C frame i a gd d)
  from frame_cases [OF suspend(5,4)] have d: "d = (sv_daemon S)\<lparr>dm_graph := dm_graph d\<rparr>" by simp
  have "dm_core d = dm_core (sv_daemon S)" by (subst d) simp
  with suspend(1) show ?thesis by (intro kept_core) simp
next
  case (resume se i a gd woken r d)
  then show ?thesis by (intro kept_core) (auto simp: await_finish_def Let_def take_permit_def)
next
  case (sched_tick I)
  have "turns_ok (sched_view S)" using assms(2) by (simp add: server_ok_def)
  note w = work_parts [OF tick_work [OF this, of I]]
  from w(1,3) have "extends (sv_daemon S) (sv_daemon T)"
    by (intro fabric_extends) (simp_all add: sched_tick(1) sched_view_def)
  moreover have "threads_kept (dm_store (sv_daemon S)) (dm_store (sv_daemon T))"
    using w(2) by (simp add: sched_tick(1))
  moreover have "rows_kept (dm_store (sv_daemon S)) (dm_store (sv_daemon T))"
    using rows_kept_moves [OF w(4)] by (simp add: sched_tick(1))
  ultimately show ?thesis by (simp add: kept_def)
next
  case (engine_line X cell line)
  then show ?thesis by (intro kept_core) (simp add: engine_output_def sched_view_def)
next
  case (engine_pipe cell msg)
  then show ?thesis by (intro kept_core) (simp add: engine_breaks_def sched_view_def)
next
  case (restart H now d U I)
  note fr = restart_frame [OF restart(2,3)]
  note fo = frame_follows [OF fr, unfolded fabric_follows_def]
  from fo have "bus_keys (dm_store (sv_daemon S)) \<longrightarrow> bus_keys (dm_store d)"
    by (simp add: same_bus_def bus_keys_def)
  with fo recovery_log [OF fr] restart(1) show ?thesis
    by (intro kept_daemon) (simp_all add: fabric_extends daemon_follows_def)
qed (simp_all add: kept_core kept_loop await_register_def await_cancelled_def registry_revoke_def loop_frame_tick_asks
    loop_frame_tick_deliveries loop_frame_tick_claim loop_frame_outcome)

lemma run_kept: "(server_step cd parse)\<^sup>*\<^sup>* S T \<Longrightarrow> server_ok S \<Longrightarrow> kept S T \<and> server_ok T"
proof (induction rule: rtranclp_induct)
  case base
  then show ?case by (simp add: kept_core)
next
  case (step T U)
  then show ?case by (auto intro: kept_trans step_kept serving.inv_step)
qed

text \<open>C7: nothing is forgotten along a run.  From any reachable state on, through requests, deliveries,
  ticks, engine output, revocations and restarts, the audit log only grows, a stored message stays
  as it is, a thread keeps its identity, launch parameters and owner and moves along its state
  machine, and a job that an engine has accepted while it was started is never queued or leased
  again.\<close>

theorem nothing_forgotten:
  assumes "reachable server_init (server_step cd parse) S" "(server_step cd parse)\<^sup>*\<^sup>* S T"
  shows "log_extends (dm_log (sv_daemon S)) (dm_log (sv_daemon T)) \<and>
    (\<forall>m e. get_envelope m (dm_store (sv_daemon S)) = Some e \<longrightarrow> get_envelope m (dm_store (sv_daemon T)) = Some e) \<and>
    threads_kept (dm_store (sv_daemon S)) (dm_store (sv_daemon T)) \<and>
    (\<forall>i j. job_get i (dm_store (sv_daemon S)) = Some j \<and> settled j \<longrightarrow>
       (\<exists>k. job_get i (dm_store (sv_daemon T)) = Some k \<and> settled k \<and> j_cell_name k = j_cell_name j))"
proof -
  have k: "kept S T" using run_kept [OF assms(2) serving.inv_reachable [OF assms(1)]] by simp
  then have "\<exists>k. job_get i (dm_store (sv_daemon T)) = Some k \<and> settled k \<and> j_cell_name k = j_cell_name j"
    if "job_get i (dm_store (sv_daemon S)) = Some j" "settled j" for i j
    using rows_kept_get [of "dm_store (sv_daemon S)" "dm_store (sv_daemon T)", OF _ that(1)] that(2)
    by (auto simp: kept_def job_moves_def)
  with k show ?thesis by (auto simp: kept_def extends_def audit_grows_def log_extends_def)
qed

section \<open>Asks along a run\<close>

lemma edit_asks: "bus_edit A C sender d d' \<Longrightarrow> asks_settle (dm_store d) (dm_store d')"
proof (induction rule: bus_edit.induct)
  case (record_event dr d r d')
  with audit_dm_store [OF record_event(1)] show ?case by (simp add: asks_settle_same)
next
  case (open_ask d e t x)
  then show ?case by (simp add: asks_settle_insert)
next
  case (answer i d a e)
  then show ?case by (simp add: asks_settle_commit)
qed (simp_all add: asks_settle_same notify_def next_seq_frame inbox_frame insert_envelope_def insert_delivery_def
    dedupe_insert_def fabric_follows_def same_bus_def)

lemma edits_asks: "edits A C sender d d' \<Longrightarrow> asks_settle (dm_store d) (dm_store d')"
  by (induction rule: rtranclp_induct) (auto intro: asks_settle_trans edit_asks asks_settle_same)

lemma audit_asks: "s_asks (dm_store (audit_best_effort dr d)) = s_asks (dm_store d)"
  using audit_dm_quiet [of d dr] by (simp add: audit_best_effort_def bus_quiet_def)

lemma fold_asks:
  "(\<And>x d. s_asks (dm_store (f x d)) = s_asks (dm_store d)) \<Longrightarrow> s_asks (dm_store (fold f xs d)) = s_asks (dm_store d)"
  by (induction xs arbitrary: d) auto

lemma loop_asks:
  "s_asks (dm_store (tick_deliveries now d)) = s_asks (dm_store d)"
  "s_asks (dm_store (snd (tick_claim now d))) = s_asks (dm_store d)"
  "s_asks (dm_store (apply_outcome now j mid rec out d)) = s_asks (dm_store d)"
proof -
  show "s_asks (dm_store (tick_deliveries now d)) = s_asks (dm_store d)"
    by (auto simp: tick_deliveries_def expire_due_eq Let_def audit_asks intro!: fold_asks [THEN trans])
  show "s_asks (dm_store (snd (tick_claim now d))) = s_asks (dm_store d)"
    by (simp add: tick_claim_def claim_due_eq release_leases_def Let_def)
  show "s_asks (dm_store (apply_outcome now j mid rec out d)) = s_asks (dm_store d)"
    by (cases out) (auto simp: apply_outcome_def Let_def audit_asks transition_def record_attempt_failure_def
        update_delivery_def split: option.split prod.split)
qed

lemma tick_asks_settle:
  assumes "distinct (map a_ask_id (s_asks (dm_store d)))"
  shows "asks_settle (dm_store d) (dm_store (tick_asks now d))"
proof -
  have "s_asks (dm_store (expire_one_ask i d)) = s_asks (dm_store d)" for i d
    by (simp add: expire_one_ask_def notify_def audit_asks)
  then have "s_asks (dm_store (tick_asks now d)) = s_asks (snd (expire_asks_due (now_rfc3339 now) (dm_store d)))"
    unfolding tick_asks_def case_prod_beta by (simp add: fold_asks)
  then show ?thesis using asks_settle_trans [OF asks_settle_expire [OF assms] asks_settle_same] by blast
qed

lemma step_asks:
  assumes "server_step cd parse S T" "server_ok S"
  shows "asks_settle (dm_store (sv_daemon S)) (dm_store (sv_daemon T))"
  using assms(1)
proof cases
  case (connect now peer raw r who d)
  then show ?thesis
    by (intro asks_settle_same) (auto simp: handshake_def auth_rejected_def audit_asks split: option.splits sum.splits)
next
  case (refuse now peer raw r d)
  then show ?thesis
    by (intro asks_settle_same) (auto simp: handshake_def auth_rejected_def audit_asks split: option.splits sum.splits)
next
  case (serve se C frame r d)
  from frame_cases [OF serve(5,4)] serve(1) show ?thesis by (simp add: edits_asks)
next
  case (close se C frame r d)
  from frame_cases [OF close(5,4)] close(1) show ?thesis by (simp add: edits_asks)
next
  case (suspend se C frame i a gd d)
  from frame_cases [OF suspend(5,4)] have d: "d = (sv_daemon S)\<lparr>dm_graph := dm_graph d\<rparr>" by simp
  have "dm_core d = dm_core (sv_daemon S)" by (subst d) simp
  with suspend(1) show ?thesis by (simp add: asks_settle_same)
next
  case (resume se i a gd woken r d)
  then show ?thesis by (intro asks_settle_same) (auto simp: await_finish_def Let_def take_permit_def)
next
  case (expire_asks now)
  have "distinct (map a_ask_id (s_asks (dm_store (sv_daemon S))))"
    using assms(2) by (simp add: server_ok_def tables_ok_def bus_keys_def)
  from tick_asks_settle [OF this] expire_asks show ?thesis by simp
next
  case (sched_tick I)
  have "turns_ok (sched_view S)" using assms(2) by (simp add: server_ok_def)
  note w = work_parts(1) [OF tick_work [OF this, of I]]
  then show ?thesis by (intro asks_settle_same) (simp add: sched_tick(1) same_bus_def)
next
  case (engine_line X cell line)
  then show ?thesis by (intro asks_settle_same) (simp add: engine_output_def sched_view_def)
next
  case (engine_pipe cell msg)
  then show ?thesis by (intro asks_settle_same) (simp add: engine_breaks_def sched_view_def)
next
  case (restart H now d U I)
  note fo = frame_follows [OF restart_frame [OF restart(2,3)], unfolded fabric_follows_def]
  then show ?thesis using restart(1) by (intro asks_settle_same) (simp add: same_bus_def)
qed (simp_all add: asks_settle_same await_register_def await_cancelled_def registry_revoke_def loop_asks)

lemma run_asks: "(server_step cd parse)\<^sup>*\<^sup>* S T \<Longrightarrow> server_ok S \<Longrightarrow> asks_settle (dm_store (sv_daemon S)) (dm_store (sv_daemon T))"
proof (induction rule: rtranclp_induct)
  case base
  then show ?case by (simp add: asks_settle_same)
next
  case (step T U)
  then show ?case using run_kept [OF step(1)] step_asks by (blast intro: asks_settle_trans)
qed

text \<open>C19: an ask is settled once.  Along every run from a reachable state (requests of any cells, ticks,
  expiries, deliveries, restarts) an ask is never lost and never changes its message, asker,
  responder or deadline; a pending one may only expire, without a reply, or take one reply; and once
  it is answered or expired its row never changes again: no second reply, no reply to an expired ask,
  no expiry of an answered one.\<close>

theorem ask_settled_once:
  assumes "reachable server_init (server_step cd parse) S" "(server_step cd parse)\<^sup>*\<^sup>* S T"
    and "get_ask i (dm_store (sv_daemon S)) = Some a"
  shows "\<exists>b. get_ask i (dm_store (sv_daemon T)) = Some b \<and>
    (a_state a \<noteq> APending \<longrightarrow> b = a) \<and>
    (a_state a = APending \<longrightarrow> b = a \<or> b = a\<lparr>a_state := AExpired\<rparr> \<or>
      (\<exists>m h. b = a\<lparr>a_state := AAnswered, a_reply_message_id := Some m, a_reply_body_sha256 := Some h\<rparr>))"
proof -
  from run_asks [OF assms(2) serving.inv_reachable [OF assms(1)]] assms(3) obtain b where
    "get_ask i (dm_store (sv_daemon T)) = Some b" "ask_moves a b" by (auto simp: asks_settle_def)
  then show ?thesis unfolding ask_moves_def by blast
qed

section \<open>Sessions\<close>

lemma edit_acl: "bus_edit A C sender d d' \<Longrightarrow> dm_acl d' = dm_acl d"
  by (induction rule: bus_edit.induct) (auto simp: notify_def dest: audit_dm_frame)

lemma edits_acl: "edits A C sender d d' \<Longrightarrow> dm_acl d' = dm_acl d"
  by (induction rule: rtranclp_induct) (auto dest: edit_acl)

definition minted :: "request_ctx \<Rightarrow> string \<Rightarrow> acl set \<Rightarrow> envelope \<Rightarrow> bool" where
  "minted C sender A e \<longleftrightarrow> e_from_cell e = sender \<and> e_message_id e = rc_message_id C \<and>
     e_principal_capabilities e \<in> (\<lambda>a. capabilities_of a sender) ` A \<and> authorised A e \<and> e_taint e = TAINT"

lemma edit_new_envelope:
  "bus_edit A C sender d d' \<Longrightarrow> e \<in> set (s_envelopes (dm_store d')) \<Longrightarrow>
   e \<in> set (s_envelopes (dm_store d)) \<or> minted C sender A e"
proof (induction rule: bus_edit.induct)
  case (mint d x a)
  then show ?case
    by (auto simp: insert_envelope_def set_replace_row minted_def validate_invariants_def split: if_splits)
qed (auto simp: notify_def next_seq_frame inbox_frame insert_delivery_def insert_ask_def commit_reply_def
    dedupe_insert_def fabric_follows_def same_bus_def dest: audit_dm_store)

lemma edit_new_delivery:
  "bus_edit A C sender d d' \<Longrightarrow> k \<in> delivery_key ` set (s_deliveries (dm_store d')) \<Longrightarrow>
   k \<in> delivery_key ` set (s_deliveries (dm_store d)) \<or>
   (fst k = rc_message_id C \<and> message d' (fst k) (\<lambda>e. e_from_cell e = sender \<and> addressed A e (snd k)))"
proof (induction rule: bus_edit.induct)
  case (make_deliverable d e rec)
  have "k = (rc_message_id C, rec) \<or> k \<in> delivery_key ` set (s_deliveries (dm_store d))"
    using make_deliverable(5) by (auto simp: insert_delivery_def set_replace_row delivery_key_def)
  moreover have "message (set_store (insert_delivery (rc_message_id C) rec (dm_store d)) d) (rc_message_id C)
      (\<lambda>e. e_from_cell e = sender \<and> addressed A e rec)"
    using make_deliverable(1-4) by (auto simp: message_def)
  ultimately show ?case by auto
next
  case (pull a d n)
  have "delivery_key ` set (s_deliveries (snd (inbox sender n (dm_store d)))) = delivery_key ` set (s_deliveries (dm_store d))"
    using inbox_frame(4) [of sender n "dm_store d"] by (metis list.set_map)
  with pull show ?case by simp
qed (auto simp: notify_def next_seq_frame insert_envelope_def insert_ask_def commit_reply_def
    dedupe_insert_def fabric_follows_def same_bus_def dest: audit_dm_store)

lemma edits_new:
  assumes "edits A C sender d d'"
  shows "(\<forall>e \<in> set (s_envelopes (dm_store d')). e \<in> set (s_envelopes (dm_store d)) \<or> minted C sender A e) \<and>
    (\<forall>k \<in> delivery_key ` set (s_deliveries (dm_store d')). k \<in> delivery_key ` set (s_deliveries (dm_store d)) \<or>
       (fst k = rc_message_id C \<and> message d' (fst k) (\<lambda>e. e_from_cell e = sender \<and> addressed A e (snd k))))"
  using assms
proof (induction rule: rtranclp_induct)
  case (step y z)
  note x = edit_extends [OF step(2)]
  have "e \<in> set (s_envelopes (dm_store d)) \<or> minted C sender A e" if "e \<in> set (s_envelopes (dm_store z))" for e
    using edit_new_envelope [OF step(2) that] step(3) by auto
  moreover have "k \<in> delivery_key ` set (s_deliveries (dm_store d)) \<or> (fst k = rc_message_id C \<and>
      message z (fst k) (\<lambda>e. e_from_cell e = sender \<and> addressed A e (snd k)))"
    if "k \<in> delivery_key ` set (s_deliveries (dm_store z))" for k
    using edit_new_delivery [OF step(2) that] step(3) message_mono [OF x] by auto
  ultimately show ?case by blast
qed auto

text \<open>C9: what one frame of a session can add to the bus.  Every envelope that appears carries the
  authenticated cell as its sender, the daemon's identifier and taint, that cell's capabilities at
  the time, and was authorised for its kind, recipient, message type and attachments; every
  delivery that appears is of that one message, published before, to a recipient it is addressed to.\<close>

theorem frame_adds_only_own_messages:
  assumes "session_frame parse C who frame d = (x, d')" "fresh_ids C d"
  shows "(\<forall>e \<in> set (s_envelopes (dm_store d')). e \<in> set (s_envelopes (dm_store d)) \<or>
      minted C (pr_cell_id who) {dm_acl d} e) \<and>
    (\<forall>r \<in> set (s_deliveries (dm_store d')). delivery_key r \<in> delivery_key ` set (s_deliveries (dm_store d)) \<or>
      d_envelope_id r = rc_message_id C \<and> message d' (rc_message_id C)
        (\<lambda>e. e_from_cell e = pr_cell_id who \<and> addressed {dm_acl d} e (d_recipient r)))"
proof (cases "\<exists>i a gd. x = Waiting i a gd")
  case True
  with frame_cases [OF assms] have "d' = d\<lparr>dm_graph := dm_graph d'\<rparr>" by auto
  then have "dm_store d' = dm_store d" by (metis daemon.select_convs(1) daemon.surjective daemon.update_convs(4))
  then show ?thesis by simp
next
  case False
  with frame_cases [OF assms] have "edits {dm_acl d} C (pr_cell_id who) d d'" by (auto split: frame_outcome.splits)
  from edits_new [OF this] show ?thesis by (force simp: delivery_key_def)
qed

text \<open>The principal that a verified proof gives.\<close>

definition proven :: "peer_cred \<Rightarrow> client_proof \<Rightarrow> string \<Rightarrow> cell_principal" where
  "proven p pf tid = \<lparr>pr_cell_id = cp_cell_id pf, pr_auth_level = L0Token, pr_unix_uid = Some (pc_uid p),
     pr_unix_gid = Some (pc_gid p), pr_pid = pc_pid p, pr_pidfd_supported = False, pr_token_id = Some tid\<rparr>"

lemma authenticate_Inr:
  "authenticate cd now I p pf = Inr who \<longleftrightarrow> cp_spec_version pf = SPEC_VERSION \<and>
    (\<exists>tid. verify cd now (cp_cell_id pf) (cp_token pf) I = Inr tid \<and> who = proven p pf tid)"
  by (auto simp: authenticate_def and_then_Inr proven_def)

lemma handshake_accepts:
  "handshake parse (authenticate cd now I) peer raw d = (handshake_result.Accepted r who, d') \<longleftrightarrow>
    (\<exists>p bytes req pf tid. peer = Some p \<and> raw = Some bytes \<and> parse bytes = Some req \<and>
       parse_client_proof (wq_params req) = Inr pf \<and> cp_spec_version pf = SPEC_VERSION \<and>
       verify cd now (cp_cell_id pf) (cp_token pf) I = Inr tid \<and> tid \<notin> dm_revoked d \<and>
       who = proven p pf tid \<and> d' = d \<and>
       r = wire_ok (wq_id req) (JObj [(''cell'', JStr (cp_cell_id pf)), (''auth_level'', JStr ''L0Token'')]))"
  by (cases peer; cases raw)
    (auto simp: handshake_def authenticate_def and_then_def proven_def token_revoked_def is_revoked_def
      split: option.splits sum.splits if_splits)

text \<open>C10: authentication guards the store.  A handshake is accepted exactly when the peer's credentials
  are known and its frame is a request whose parameters are a proof for this version of the
  protocol, whose own token the issuer verifies for the cell it names and whose token identifier is
  not revoked; the principal of the session is the one of that proof, and neither outcome changes a
  table.  A session whose token is revoked changes no table and never has a request carried out: a
  frame that is a request is answered with \<open>E_AUTH_REJECTED\<close>, recorded and closes the session, an
  empty or unreadable frame closes it, and one that does not parse is answered as such.  The
  revocation stays, so the next request is refused too.\<close>

theorem only_live_sessions_act:
  "(handshake parse (authenticate cd now I) peer raw d = (handshake_result.Accepted r who, d') \<longleftrightarrow>
      (\<exists>p bytes req pf tid. peer = Some p \<and> raw = Some bytes \<and> parse bytes = Some req \<and>
         parse_client_proof (wq_params req) = Inr pf \<and> cp_spec_version pf = SPEC_VERSION \<and>
         verify cd now (cp_cell_id pf) (cp_token pf) I = Inr tid \<and> tid \<notin> dm_revoked d \<and>
         who = proven p pf tid \<and> d' = d \<and>
         r = wire_ok (wq_id req) (JObj [(''cell'', JStr (cp_cell_id pf)), (''auth_level'', JStr ''L0Token'')]))) \<and>
   dm_store (snd (handshake parse (authenticate cd now I) peer raw d)) = dm_store d \<and>
   (token_revoked ses d = Some tid \<longrightarrow>
     (case session_frame parse C ses frame d of (x, d'') \<Rightarrow>
        dm_store d'' = dm_store d \<and> token_revoked ses d'' = Some tid \<and>
        (case frame of None \<Rightarrow> x = Closed None \<and> d'' = d
         | Some bytes \<Rightarrow> if bytes = [] then x = Closed None \<and> d'' = d
             else case parse bytes of
               None \<Rightarrow> x = Continue (wire_err 0 Internal) \<and> d'' = d
             | Some req \<Rightarrow> x = Closed (Some (wire_err (wq_id req) AuthRejected)) \<and>
                 d'' = auth_rejected (Some (pr_cell_id ses)) (revoked_detail ''revoked_live_session'' tid) d)))"
proof -
  have rej: "dm_store (auth_rejected c j d) = dm_store d" "dm_store (audit_best_effort dr d) = dm_store d"
    "dm_revoked (auth_rejected c j d) = dm_revoked d" for c j dr
    using audit_dm_quiet [of d] audit_dm_frame [of _ d] 
    by (auto simp: auth_rejected_def audit_best_effort_def bus_quiet_def audit_dm_def split: prod.splits)
  have "dm_store (snd (handshake parse (authenticate cd now I) peer raw d)) = dm_store d"
    by (auto simp: handshake_def rej split: option.splits sum.splits)
  moreover have "token_revoked ses d = Some tid \<longrightarrow> token_revoked ses (auth_rejected c j d) = Some tid" for c j
    by (auto simp: token_revoked_def is_revoked_def rej split: option.splits)
  ultimately show ?thesis
    unfolding handshake_accepts by (auto simp: session_frame_def rej split: option.splits)
qed

section \<open>An example run\<close>

definition example_handshake :: wire_request where
  "example_handshake = \<lparr>wq_id = 0, wq_method = ''handshake'', wq_params = JObj
    [(''cell_id'', JStr ''dev''), (''token'', JStr (hex_encode [1])), (''spec_version'', JStr SPEC_VERSION)]\<rparr>"

definition example_parse :: "string \<Rightarrow> wire_request option" where
  "example_parse bytes = (if bytes = ''H'' then Some example_handshake else if bytes = ''S'' then Some example_request else None)"

definition example_issuer :: issuer where
  "example_issuer = run_op token_codec (Issue ''dev'' 60 0 [1] [7] Written) (file_issuer ''/t'')"

definition example_server :: server where
  "example_server = \<lparr>sv_daemon = example_daemon, sv_issuer = file_issuer ''/t'', sv_sessions = [],
     sv_sched = scheduler_new (\<lambda>_. None) (dm_core example_daemon)\<rparr>"

lemma example_authenticated:
  "authenticate token_codec 60 example_issuer \<lparr>pc_uid = 0, pc_gid = 0, pc_pid = None\<rparr>
     \<lparr>cp_cell_id = ''dev'', cp_token = hex_encode [1], cp_spec_version = SPEC_VERSION\<rparr> = Inr example_who"
proof -
  have "validate_cell_name ''dev'' = Inr ()"
    by (simp add: validate_cell_name_def is_ascii_lowercase_def is_ascii_digit_def)
  from token_codec_verify [OF this] show ?thesis
    by (simp add: authenticate_def example_issuer_def example_who_def del: run_op.simps)
qed

lemma example_accepted:
  "\<exists>r. handshake example_parse (authenticate token_codec 60 example_issuer) (Some \<lparr>pc_uid = 0, pc_gid = 0, pc_pid = None\<rparr>)
     (Some ''H'') example_daemon = (handshake_result.Accepted r example_who, example_daemon)"
  by (simp add: handshake_def example_parse_def example_handshake_def parse_client_proof_def struct_fields_def field_str_def
      example_authenticated token_revoked_def is_revoked_def)

lemma example_frame:
  "\<exists>r d. session_frame example_parse example_ctx example_who (Some ''S'') example_daemon = (Continue r, d) \<and>
     s_deliveries (dm_store d) = [\<lparr>d_envelope_id = ''m1'', d_recipient = ''audit'', d_state = DQueued, d_attempts = 0,
         d_lease_until = None, d_next_retry_at = 0\<rparr>]"
  using example_dispatch by (auto simp: session_frame_def example_parse_def token_revoked_def is_revoked_def)

lemma example_reached:
  "\<exists>S. reachable server_init (server_step token_codec example_parse) S \<and> length (sv_sessions S) = 1 \<and>
     length (s_deliveries (dm_store (sv_daemon S))) = 1"
proof -
  let ?S0 = example_server and ?S1 = "example_server\<lparr>sv_issuer := example_issuer\<rparr>"
  let ?S2 = "?S1\<lparr>sv_sessions := [\<lparr>se_who = example_who, se_wait = None\<rparr>]\<rparr>"
  have "reachable server_init (server_step token_codec example_parse) ?S0"
    by (rule reachable_init) (simp add: server_init_def example_server_def scheduler_new_def)
  moreover have "server_step token_codec example_parse ?S0 ?S1"
    using credential [of token_codec example_parse ?S0 "Issue ''dev'' 60 0 [1] [7] Written"]
    by (simp add: example_issuer_def example_server_def)
  moreover from example_accepted obtain r where "handshake example_parse (authenticate token_codec 60 example_issuer)
      (Some \<lparr>pc_uid = 0, pc_gid = 0, pc_pid = None\<rparr>) (Some ''H'') example_daemon = (handshake_result.Accepted r example_who, example_daemon)" by blast
  then have "server_step token_codec example_parse ?S1 ?S2"
    using connect [of example_parse token_codec 60 ?S1] by (simp add: example_server_def)
  ultimately have r2: "reachable server_init (server_step token_codec example_parse) ?S2"
    by (blast intro: reachable_step)
  obtain r d where f: "session_frame example_parse example_ctx example_who (Some ''S'') example_daemon = (Continue r, d)"
    "length (s_deliveries (dm_store d)) = 1" using example_frame by auto
  have "server_step token_codec example_parse ?S2 (?S2\<lparr>sv_daemon := d\<rparr>)"
    using serve [of "\<lparr>se_who = example_who, se_wait = None\<rparr>" ?S2 example_ctx example_parse "Some ''S''" r d] f example_fresh
    by (simp add: example_server_def)
  from reachable_step [OF r2 this] f(2) show ?thesis by (intro exI conjI) (assumption, simp_all)
qed

theorem bus_always_sound_witness:
  "\<exists>S. reachable server_init (server_step token_codec example_parse) S \<and>
     length (s_deliveries (dm_store (sv_daemon S))) = 1 \<and> bus_sound (sv_daemon S)"
proof -
  from example_reached obtain S where S: "reachable server_init (server_step token_codec example_parse) S"
    "length (s_deliveries (dm_store (sv_daemon S))) = 1" by auto
  with bus_always_sound [OF S(1)] show ?thesis by auto
qed

theorem no_leaked_waits_witness:
  "\<exists>S. reachable server_init (server_step token_codec example_parse) S \<and>
     length (sv_sessions S) = 1 \<and> acyclic (active (wg_edges (dm_graph (sv_daemon S))))"
proof -
  from example_reached obtain S where S: "reachable server_init (server_step token_codec example_parse) S"
    "length (sv_sessions S) = 1" by auto
  with no_leaked_waits [OF S(1)] show ?thesis by auto
qed

text \<open>A tick after the run still finds the message.\<close>

definition idle_input :: tick_input where
  "idle_input = \<lparr>ti_shell = \<lparr>sh_os = \<lparr>os_spawn = (\<lambda>_. Inl []), os_var = (\<lambda>_. None), os_read_file = (\<lambda>_. Inl []),
     os_canonicalize = (\<lambda>_. None)\<rparr>, sh_quote = (\<lambda>s. s), sh_parse = (\<lambda>_. None)\<rparr>,
     ti_now = 60, ti_now_nanos = 0, ti_order = (\<lambda>is. is)\<rparr>"

theorem nothing_forgotten_witness:
  "\<exists>S T m e. reachable server_init (server_step token_codec example_parse) S \<and>
     server_step token_codec example_parse S T \<and> get_envelope m (dm_store (sv_daemon S)) = Some e \<and>
     get_envelope m (dm_store (sv_daemon T)) = Some e"
proof -
  from example_reached obtain S where S: "reachable server_init (server_step token_codec example_parse) S"
    "length (s_deliveries (dm_store (sv_daemon S))) = 1" by auto
  let ?T = "put_sched (snd (sched_tick idle_input (sched_view S))) S"
  have st: "server_step token_codec example_parse S ?T" by (rule server_step.sched_tick)
  have "bus_sound (sv_daemon S)" using serving.inv_reachable [OF S(1)] by (simp add: server_ok_def)
  moreover obtain r where "r \<in> set (s_deliveries (dm_store (sv_daemon S)))"
    using S(2) by (cases "s_deliveries (dm_store (sv_daemon S))") auto
  ultimately obtain e where e: "get_envelope (fst (delivery_key r)) (dm_store (sv_daemon S)) = Some e"
    by (auto simp: bus_sound_def delivery_sound_def message_def)
  with nothing_forgotten [OF S(1) r_into_rtranclp [of "server_step token_codec example_parse", OF st]]
  have "get_envelope (fst (delivery_key r)) (dm_store (sv_daemon ?T)) = Some e" by blast
  with S(1) st e show ?thesis by blast
qed

theorem one_turn_per_cell_witness:
  "\<exists>S. reachable server_init (server_step token_codec example_parse) S \<and> length (sv_sessions S) = 1 \<and>
     one_started (dm_store (sv_daemon S))"
proof -
  from example_reached obtain S where S: "reachable server_init (server_step token_codec example_parse) S"
    "length (sv_sessions S) = 1" by auto
  with one_turn_per_cell [OF S(1)] show ?thesis by auto
qed

theorem tables_well_formed_witness:
  "\<exists>S. reachable server_init (server_step token_codec example_parse) S \<and>
     length (s_deliveries (dm_store (sv_daemon S))) = 1 \<and> bus_keys (dm_store (sv_daemon S))"
proof -
  from example_reached obtain S where S: "reachable server_init (server_step token_codec example_parse) S"
    "length (s_deliveries (dm_store (sv_daemon S))) = 1" by auto
  with tables_well_formed [OF S(1)] show ?thesis by auto
qed

theorem frame_adds_only_own_messages_witness:
  "\<exists>d. s_deliveries (dm_store d) \<noteq> [] \<and> (\<forall>r \<in> set (s_deliveries (dm_store d)). d_envelope_id r = ''m1'')"
proof -
  obtain r d where f: "session_frame example_parse example_ctx example_who (Some ''S'') example_daemon = (Continue r, d)"
    "s_deliveries (dm_store d) \<noteq> []" using example_frame by auto
  from frame_adds_only_own_messages [OF f(1) example_fresh] f(2) show ?thesis by (intro exI [of _ d]) auto
qed

theorem only_live_sessions_act_witness:
  "(\<exists>r d. handshake example_parse (authenticate token_codec 60 example_issuer) (Some \<lparr>pc_uid = 0, pc_gid = 0, pc_pid = None\<rparr>)
     (Some ''H'') example_daemon = (handshake_result.Accepted r example_who, d)) \<and>
   fst (session_frame example_parse example_ctx example_who (Some ''S'') (registry_revoke (hex_encode [7]) example_daemon)) =
     Closed (Some (wire_err (wq_id example_request) AuthRejected)) \<and>
   fst (session_frame example_parse example_ctx example_who (Some ''X'') (registry_revoke (hex_encode [7]) example_daemon)) =
     Continue (wire_err 0 Internal)"
proof -
  let ?d = "registry_revoke (hex_encode [7]) example_daemon"
  have t: "token_revoked example_who ?d = Some (hex_encode [7])"
    by (simp add: token_revoked_def is_revoked_def registry_revoke_def example_who_def)
  note law = only_live_sessions_act [where parse = example_parse and C = example_ctx and ses = example_who and d = ?d
      and tid = "hex_encode [7]", THEN conjunct2, THEN conjunct2, THEN mp, OF t]
  have "fst (session_frame example_parse example_ctx example_who (Some ''S'') ?d) = Closed (Some (wire_err (wq_id example_request) AuthRejected))"
    using law [of "Some ''S''"] by (auto simp: example_parse_def split: prod.splits)
  moreover have "fst (session_frame example_parse example_ctx example_who (Some ''X'') ?d) = Continue (wire_err 0 Internal)"
    using law [of "Some ''X''"] by (auto simp: example_parse_def split: prod.splits)
  ultimately show ?thesis using example_accepted by blast
qed

end
