(* ===== verification/Requests.thy ===== *)
theory Requests
  imports System
begin

text \<open>
  What single requests promise: private threads, idempotent submission, the way of an answer back
  to its asker, and the effect of an adapter's answer on a delivery.
\<close>

section \<open>Private threads\<close>

lemma parse_result_cancel: "parse_cell_cancel = parse_cell_result"
  by (simp add: fun_eq_iff parse_cell_cancel_def parse_cell_result_def)

lemma own_threads_only:
  "\<exists>ts. (\<forall>u \<in> set ts. t_created_by_principal u = sender) \<and>
    concat (map (own_active_thread sender s) cs) = map (thread_status_value s) ts"
proof (induction cs)
  case (Cons c cs)
  then obtain ts where ts: "\<forall>u \<in> set ts. t_created_by_principal u = sender"
    "concat (map (own_active_thread sender s) cs) = map (thread_status_value s) ts" by blast
  obtain xs where "\<forall>u \<in> set xs. t_created_by_principal u = sender"
    "own_active_thread sender s c = map (thread_status_value s) xs"
  proof (cases "own_active_thread sender s c = []")
    case False
    then obtain u where "own_active_thread sender s c = [thread_status_value s u]" "t_created_by_principal u = sender"
      by (auto simp: own_active_thread_def split: option.splits if_splits)
    then show thesis using that [of "[u]"] by simp
  qed (use that [of "[]"] in simp)
  with ts show ?case by (intro exI [of _ "xs @ ts"]) auto
qed simp

text \<open>A thread is private to the cell that created it.  For any other cell without the
  \<open>admin_registry\<close> capability, \<open>cell_status\<close>, \<open>cell_result\<close> and \<open>cell_cancel\<close> on it end in an error
  and leave the daemon as it was, and a \<open>cell_status\<close> that names no thread lists only threads of
  the caller.\<close>

theorem foreign_threads_private:
  assumes "thread_get tid (dm_store d) = Some t" "t_created_by_principal t \<noteq> sender"
    "acl_check (dm_acl d) sender CAdminRegistry \<noteq> Inr ()"
  shows "(parse_cell_result params = Inr tid \<longrightarrow>
      (\<exists>e. handle_result C sender params d = (Inl e, d)) \<and> (\<exists>e. handle_cancel C sender params d = (Inl e, d))) \<and>
    (parse_cell_status params = Inr (Some tid) \<longrightarrow> (\<exists>e. handle_status C sender params d = (Inl e, d))) \<and>
    (parse_cell_status params = Inr None \<longrightarrow> reject_client_identity_keys [] params = Inr () \<longrightarrow>
      (\<exists>ts. (\<forall>u \<in> set ts. t_created_by_principal u = sender) \<and> handle_status C sender params d =
        (Inr (JObj [(''threads'', JArr (map (thread_status_value (dm_store d)) ts))]), d)))"
proof -
  obtain e where "check_thread_owner (dm_acl d) sender t = Inl e"
    using assms(2,3) by (cases "acl_check (dm_acl d) sender CAdminRegistry") (auto simp: check_thread_owner_def)
  moreover obtain ts where "\<forall>u \<in> set ts. t_created_by_principal u = sender"
    "concat (map (own_active_thread sender (dm_store d)) (cell_list_defs (dm_store d))) =
      map (thread_status_value (dm_store d)) ts" using own_threads_only by blast
  ultimately show ?thesis
    using assms(1)
    by (auto simp: handle_result_def handle_cancel_def handle_status_def parse_result_cancel
        require_def split: sum.split)
qed

text \<open>What the answer of an adapter does to a claimed delivery: it is delivered, failed, or queued
  again until the attempts are used up, and left claimed when the adapter is not ready.  An adapter
  that also acknowledges leaves it claimed too, because the code tries the transition to \<open>acked\<close>,
  which is not allowed from \<open>claimed\<close>, and ignores the refusal.\<close>

theorem outcome_states:
  assumes "find_delivery mid rec (dm_store d) = Some r" "d_state r = DClaimed"
  shows "delivery_state_of mid rec (dm_store (apply_outcome now j mid rec out d)) =
    Inr (case out of
      ODelivered \<Rightarrow> DDelivered
    | OAcked \<Rightarrow> DClaimed
    | OPermanentFailure \<Rightarrow> DFailed
    | OTransientFailure \<Rightarrow> if cf_max_attempts (dm_cfg d) \<le> d_attempts r + 1 then DFailed else DQueued
    | ONotReady \<Rightarrow> DClaimed)"
proof -
  have st: "dm_store (audit_best_effort dr d') = dm_store d'" for dr d'
    using audit_dm_quiet [of d' dr] by (simp add: audit_best_effort_def bus_quiet_def)
  have up: "find_delivery mid rec (update_delivery mid rec f (dm_store d)) = Some (f r)"
    if "\<And>x. delivery_key (f x) = delivery_key x" for f
    using assms(1) find_update_rows_key [where key = delivery_key and f = f and k = "(mid, rec)", OF that]
      find_delivery_key [OF assms(1)]
    by (simp add: find_delivery_def update_delivery_def)
  show ?thesis
    using assms
    by (cases out) (simp_all add: apply_outcome_def Let_def st transition_def delivery_state_of_def up
        record_attempt_failure_def)
qed

section \<open>Idempotent submission\<close>

lemma dedupe_frames [simp]:
  "dedupe_lookup f k (insert_delivery m r s) = dedupe_lookup f k s"
  "dedupe_lookup f k (insert_envelope e s) = dedupe_lookup f k s"
  by (simp_all add: dedupe_lookup_def insert_delivery_def insert_envelope_def)

lemma dedupe_lookup_insert:
  "dedupe_lookup f k (dedupe_insert now f k m a h s) =
    Some \<lparr>dd_from_cell = f, dd_idempotency_key = k, dd_message_id = m, dd_ask_id = a,
       dd_body_sha256 = h, dd_created_at = now_rfc3339 now\<rparr>"
  by (simp add: dedupe_lookup_def dedupe_insert_def find_append find_filter_none replace_row_def dedupe_key_def)

lemma persist_send_remembers:
  assumes "persist_send C sender p mt key d = (Inr v, d')"
  shows "\<exists>hit. dedupe_lookup sender key (dm_store d') = Some hit \<and> v = enqueued_json (dd_message_id hit) \<and>
    dd_body_sha256 hit = body_sha256 C (snd_body p)"
proof (cases "dedupe_lookup sender key (dm_store d)")
  case None
  then show ?thesis
    using assms by (auto simp: persist_send_def Let_def bind_res_Inr dedupe_lookup_insert split: prod.splits)
qed (use assms in \<open>auto simp: persist_send_def Let_def split: if_splits\<close>)

lemma persist_send_again:
  "dedupe_lookup sender key (dm_store d) = Some hit \<Longrightarrow>
   persist_send C sender p mt key d =
     (if dd_body_sha256 hit = body_sha256 C (snd_body p) then Inr (enqueued_json (dd_message_id hit)) else Inl Dup, d)"
  by (simp add: persist_send_def Let_def)

lemma handle_send_cases:
  assumes "handle_send C sender params d = (r, d')" "parse_send params = Inr p"
  obtains (stopped) e where "r = Inl e" "dm_store d' = dm_store d"
  | (sent) d1 where "dm_store d1 = dm_store d"
      "persist_send C sender p (or_value MTask (snd_msg_type p)) (or_value (rc_key C) (snd_idempotency_key p)) d1 = (r, d')"
proof -
  have au: "dm_store d1 = dm_store d" if "authorize_outbound s t c v d = (x, d1)" for s t c v d d1 x
    using authorize_outbound_quiet [of d s t c v] that by (simp add: bus_quiet_def)
  have ad: "dm_store d1 = dm_store d" if "admit_outbound n s t c u d = (x, d1)" for n s t c u d d1 x
    using admit_outbound_quiet [of d n s t c u] that by (simp add: bus_quiet_def)
  have "(\<exists>e. r = Inl e \<and> dm_store d' = dm_store d) \<or> (\<exists>d1. dm_store d1 = dm_store d \<and>
      persist_send C sender p (or_value MTask (snd_msg_type p)) (or_value (rc_key C) (snd_idempotency_key p)) d1 = (r, d'))"
    using assms unfolding handle_send_def Let_def
    by (auto simp: require_def bind_res_def dest!: au ad split: sum.splits prod.splits)
  with stopped sent show ?thesis by blast
qed

text \<open>A send is idempotent under its key.  Once a send succeeded, whatever happened since as long as
  its key is still remembered, sending the same body under the same key answers with the same
  message identifier and stores nothing, and another body under that key is never accepted.\<close>

theorem send_idempotent:
  assumes "handle_send C sender params d = (Inr v, d1)"
    "parse_send params = Inr p" "snd_idempotency_key p = Some key"
    "dedupe_lookup sender key (dm_store d2) = dedupe_lookup sender key (dm_store d1)"
    "handle_send C' sender params' d2 = (r, d3)"
    "parse_send params' = Inr p'" "snd_idempotency_key p' = Some key"
  shows "dm_store d3 = dm_store d2 \<and>
    (\<forall>v'. r = Inr v' \<longrightarrow> v' = v \<and> body_sha256 C' (snd_body p') = body_sha256 C (snd_body p))"
proof -
  from assms(1,2) obtain hit where hit: "dedupe_lookup sender key (dm_store d1) = Some hit"
    "v = enqueued_json (dd_message_id hit)" "dd_body_sha256 hit = body_sha256 C (snd_body p)"
    by (cases rule: handle_send_cases)
      (use persist_send_remembers assms(3) in \<open>fastforce simp: or_value_def\<close>)+
  from assms(5,6) show ?thesis
    by (cases rule: handle_send_cases)
      (use hit assms(4,7) persist_send_again in \<open>auto simp: or_value_def split: if_splits\<close>)
qed


section \<open>Ask, reply, await\<close>

lemma get_ask_commit:
  "get_ask i s = Some a \<Longrightarrow> get_ask i (commit_reply sha i e s) =
    Some (a\<lparr>a_state := AAnswered, a_reply_message_id := Some (e_message_id e), a_reply_body_sha256 := Some (sha (e_body e))\<rparr>)"
  using find_update_rows_key [where key = a_ask_id and k = i and f = "\<lambda>a. a\<lparr>a_state := AAnswered,
      a_reply_message_id := Some (e_message_id e), a_reply_body_sha256 := Some (sha (e_body e))\<rparr>"
      and p = "\<lambda>a. a_ask_id a = i" and rs = "s_asks s"]
  by (auto simp: get_ask_def commit_reply_def dest: find_Some_in)

lemma handle_reply_Inr:
  assumes "handle_reply C responder params d = (Inr v, d1)" "parse_reply params = Inr p"
    "get_ask (rp_ask_id p) (dm_store d) = Some a" "a_state a = APending"
  shows "\<exists>e. a_to_cell a = responder \<and> e_kind e = Reply \<and> e_from_cell e = responder \<and> e_body e = rp_body p \<and>
    e_file_refs e = rp_file_refs p \<and> e_ask_id e = Some (rp_ask_id p) \<and>
    get_envelope (e_message_id e) (dm_store d1) = Some e \<and>
    get_ask (rp_ask_id p) (dm_store d1) = Some (a\<lparr>a_state := AAnswered, a_reply_message_id := Some (e_message_id e),
      a_reply_body_sha256 := Some (body_sha256 C (e_body e))\<rparr>)"
proof -
  have to: "a_to_cell a = responder"
    and p: "\<exists>key. persist_reply C responder p a key d = (Inr v, d1)"
    using assms unfolding handle_reply_def by (auto simp: require_def split: sum.splits if_splits)
  from p obtain key where p: "persist_reply C responder p a key d = (Inr v, d1)" by blast
  obtain seq s1 where sq: "next_seq responder (a_from_cell a) (dm_store d) = (seq, s1)" by (metis prod.exhaust)
  have s1: "s1 = snd (next_seq responder (a_from_cell a) (dm_store d))" by (simp add: sq)
  let ?e = "build_envelope_with_caps C (dm_acl d) Reply MReply responder (Some (a_from_cell a)) (rp_body p)
                 (rp_file_refs p) (Some (rp_ask_id p)) (Some (a_message_id a)) key (clamp_ttl Reply None) seq"
  have "reply_precheck (body_sha256 C) (rp_ask_id p) ?e s1 = Recorded"
    using assms(3,4) by (simp add: reply_precheck_def s1)
  with p obtain d2 u where a: "audit_dm (mk_draft ''enqueued'' (Some (e_message_id ?e)) (Some responder)
        (Some (a_from_cell a)) ''ok'' None) (set_store (insert_envelope ?e s1) d) = (Inr u, d2)"
    and d1: "d1 = notify (rp_ask_id p) (set_store (insert_delivery (e_message_id ?e) (a_from_cell a)
                     (commit_reply (body_sha256 C) (rp_ask_id p) ?e (dm_store d2))) d2)"
    by (auto simp: persist_reply_def store_reply_def Let_def sq bind_res_Inr)
  have d2: "dm_store d2 = insert_envelope ?e s1" using audit_dm_store [OF a] by simp
  have "get_ask (rp_ask_id p) (insert_envelope ?e s1) = Some a" using assms(3) by (simp add: s1)
  from get_ask_commit [OF this, of "body_sha256 C" ?e] show ?thesis
    using to get_envelope_insert [of ?e s1] by (intro exI [of _ ?e]) (simp add: d1 d2 notify_def)
qed

text \<open>An answer reaches the asker in full.  Once the responder's reply to a pending ask succeeded,
  and as long as the ask keeps that answer, an await by the asker returns at once with the complete
  reply envelope (sender, body, attachments), and so does one that was waiting and is woken; but one
  whose timeout fires first reports \<open>pending\<close> even though the answer is there.\<close>

theorem answer_reaches_asker:
  assumes "handle_reply C responder params d = (Inr v, d1)" "parse_reply params = Inr p"
    "get_ask (rp_ask_id p) (dm_store d) = Some a" "a_state a = APending"
    "extends d1 d2" "get_ask (rp_ask_id p) (dm_store d2) = get_ask (rp_ask_id p) (dm_store d1)"
    "reject_client_identity_keys [''ask_id''] aparams = Inr ()" "parse_await aparams = Inr ap" "aw_ask_id ap = rp_ask_id p"
  shows "\<exists>e. e_kind e = Reply \<and> e_from_cell e = a_to_cell a \<and> e_body e = rp_body p \<and> e_file_refs e = rp_file_refs p \<and>
    (let answer = JObj [(''status'', JStr ''answered''), (''reply'', envelope_json e)] in
     await_begin (a_from_cell a) aparams d2 = (Inr (AwaitDone answer), d2) \<and>
     fst (await_finish True a gd d2) = Inr answer \<and>
     fst (await_finish False a gd d2) = Inr still_pending_json)"
proof -
  from handle_reply_Inr [OF assms(1-4)] obtain e where e: "a_to_cell a = responder" "e_kind e = Reply"
    "e_from_cell e = responder" "e_body e = rp_body p" "e_file_refs e = rp_file_refs p"
    "get_envelope (e_message_id e) (dm_store d1) = Some e"
    and g: "get_ask (rp_ask_id p) (dm_store d1) = Some (a\<lparr>a_state := AAnswered, a_reply_message_id := Some (e_message_id e),
      a_reply_body_sha256 := Some (body_sha256 C (e_body e))\<rparr>)" by blast
  have x: "get_envelope (e_message_id e) (dm_store d2) = Some e" using assms(5) e(6) by (simp add: extends_def)
  have i: "a_ask_id a = rp_ask_id p" using assms(3) by (auto simp: get_ask_def dest: find_Some_in)
  show ?thesis
    using e assms(6-9) g x
    by (intro exI [of _ e]) (simp add: await_begin_def await_finish_def answered_def or_value_def i Let_def)
qed

section \<open>Witnesses\<close>

theorem foreign_threads_private_witness:
  "\<exists>e. handle_result example_ctx ''audit'' (JObj [(''crewd_thread_id'', JStr ''th'')])
     (set_store (empty_store\<lparr>s_threads := [example_thread]\<rparr>) example_daemon) =
     (Inl e, set_store (empty_store\<lparr>s_threads := [example_thread]\<rparr>) example_daemon)"
proof -
  have "thread_get ''th'' (dm_store (set_store (empty_store\<lparr>s_threads := [example_thread]\<rparr>) example_daemon)) = Some example_thread"
    "t_created_by_principal example_thread \<noteq> ''audit''"
    "acl_check (dm_acl (set_store (empty_store\<lparr>s_threads := [example_thread]\<rparr>) example_daemon)) ''audit'' CAdminRegistry \<noteq> Inr ()"
    "parse_cell_result (JObj [(''crewd_thread_id'', JStr ''th'')]) = Inr ''th''"
    by (simp_all add: thread_get_def example_thread_def acl_check_def example_acl_def parse_cell_result_def
        struct_fields_def field_str_def)
  then show ?thesis
    using foreign_threads_private [of "''th''" "set_store (empty_store\<lparr>s_threads := [example_thread]\<rparr>) example_daemon"
        example_thread "''audit''"] by blast
qed

definition claimed_daemon :: daemon where
  "claimed_daemon = set_store (empty_store\<lparr>s_deliveries := [\<lparr>d_envelope_id = ''m1'', d_recipient = ''audit'',
     d_state = DClaimed, d_attempts = 9, d_lease_until = Some 30, d_next_retry_at = 0\<rparr>]\<rparr>) example_daemon"

theorem outcome_states_witness:
  "delivery_state_of ''m1'' ''audit'' (dm_store (apply_outcome 0 0 ''m1'' ''audit'' OTransientFailure claimed_daemon)) = Inr DFailed \<and>
   delivery_state_of ''m1'' ''audit'' (dm_store (apply_outcome 0 0 ''m1'' ''audit'' OAcked claimed_daemon)) = Inr DClaimed"
proof -
  let ?r = "\<lparr>d_envelope_id = ''m1'', d_recipient = ''audit'', d_state = DClaimed, d_attempts = 9,
      d_lease_until = Some 30, d_next_retry_at = 0\<rparr>"
  have "find_delivery ''m1'' ''audit'' (dm_store claimed_daemon) = Some ?r" "cf_max_attempts (dm_cfg claimed_daemon) = 10"
    by (simp_all add: claimed_daemon_def find_delivery_def delivery_key_def) (simp add: example_daemon_def)
  with outcome_states [of "''m1''" "''audit''" claimed_daemon ?r] show ?thesis by simp
qed

theorem send_idempotent_witness:
  "\<exists>d1. handle_send example_ctx ''dev'' example_params example_daemon = (Inr (enqueued_json ''m1''), d1) \<and>
     dm_store (snd (handle_send example_ctx ''dev'' example_params d1)) = dm_store d1"
proof -
  obtain d1 where d1: "handle_send example_ctx ''dev'' example_params example_daemon = (Inr (enqueued_json ''m1''), d1)"
    using example_send by blast
  from send_idempotent [OF d1 parse_example _ refl _ parse_example, of "''k''" example_ctx]
  have "dm_store (snd (handle_send example_ctx ''dev'' example_params d1)) = dm_store d1"
    by (cases "handle_send example_ctx ''dev'' example_params d1") simp
  with d1 show ?thesis by blast
qed

definition asked_daemon :: daemon where
  "asked_daemon = (set_store (empty_store\<lparr>s_asks := [\<lparr>a_ask_id = ''q1'', a_message_id = ''m0'', a_from_cell = ''dev'',
       a_to_cell = ''audit'', a_expires_at = [], a_state = APending, a_reply_message_id = None,
       a_reply_body_sha256 = None\<rparr>]\<rparr>) example_daemon)
     \<lparr>dm_acl := [(''audit'', \<lparr>ca_capabilities = {CReply}, ca_protected = False, ca_send_to_protected = {},
        ca_ask_protected = {}, ca_engine = ''codex'', ca_order_preserving = False\<rparr>)]\<rparr>"

definition answer_params :: json where
  "answer_params = JObj [(''ask_id'', JStr ''q1''), (''body'', JStr ''yes'')]"

lemma parse_answer: "parse_reply answer_params = Inr \<lparr>rp_ask_id = ''q1'', rp_body = ''yes'', rp_file_refs = [], rp_idempotency_key = None\<rparr>"
  by (simp add: parse_reply_def answer_params_def struct_fields_def field_str_def field_strs_def field_opt_str_def)

lemma example_reply: "\<exists>v d. handle_reply example_ctx ''audit'' answer_params asked_daemon = (Inr v, d)"
proof -
  have r: "reject_client_identity_keys [''ask_id''] answer_params = Inr ()"
    by (simp add: reject_client_identity_keys_def answer_params_def FORBIDDEN_def)
  show ?thesis
    by (simp add: handle_reply_def parse_answer r Let_def or_value_def check_idem_def check_body_def
        MAX_IDEMPOTENCY_KEY_BYTES_def MAX_BODY_BYTES_def check_attach_def asked_daemon_def acl_check_def get_ask_def
        persist_reply_def store_reply_def next_seq_def reply_precheck_def audit_dm_def audit_to_def audit_emit_def assert_kind_def
        AUDIT_KINDS_def mk_draft_def set_store_def insert_envelope_def)
qed

theorem answer_reaches_asker_witness:
  "\<exists>d answer. await_begin ''dev'' (JObj [(''ask_id'', JStr ''q1'')]) d = (Inr (AwaitDone answer), d) \<and>
     fst (await_finish False (hd (s_asks (dm_store asked_daemon))) undefined d) = Inr still_pending_json \<and>
     answer \<noteq> still_pending_json"
proof -
  obtain v d where r: "handle_reply example_ctx ''audit'' answer_params asked_daemon = (Inr v, d)" using example_reply by blast
  have g: "get_ask ''q1'' (dm_store asked_daemon) = Some (hd (s_asks (dm_store asked_daemon)))"
    "a_state (hd (s_asks (dm_store asked_daemon))) = APending" "a_from_cell (hd (s_asks (dm_store asked_daemon))) = ''dev''"
    by (simp_all add: asked_daemon_def get_ask_def)
  have p: "reject_client_identity_keys [''ask_id''] (JObj [(''ask_id'', JStr ''q1'')]) = Inr ()"
    "parse_await (JObj [(''ask_id'', JStr ''q1'')]) = Inr \<lparr>aw_ask_id = ''q1'', aw_timeout_ms = None\<rparr>"
    by (simp_all add: reject_client_identity_keys_def FORBIDDEN_def parse_await_def struct_fields_def field_str_def
        field_opt_uint_def)
  from answer_reaches_asker [OF r parse_answer _ g(2) extends_refl refl p(1,2)] g
  show ?thesis by (fastforce simp: still_pending_json_def Let_def)
qed
end
