(* ===== verification/AdapterLaws.thy ===== *)
theory AdapterLaws
  imports Supervisor
begin

text \<open>
  What the adapters promise the supervisor, and properties of the single adapters: a stopped
  engine stays down, the environment of a claude child is the allowlist, codex never works under a
  weaker policy than the one asked for, which lines of pi end a turn, and the respawn backoff.
\<close>

section \<open>The adapter contract\<close>

locale engine_contract =
  fixes start :: "string \<Rightarrow> 'e \<Rightarrow> unit engine_res \<times> 'e"
    and poll :: "'e \<Rightarrow> engine_event list \<times> 'e"
    and others :: "('e \<Rightarrow> unit engine_res \<times> 'e) set"
    and state_of :: "'e \<Rightarrow> proc_state"
    and shutdown :: "'e \<Rightarrow> 'e"
    and stopped :: "'e \<Rightarrow> bool"
    and sent :: "'e \<Rightarrow> 'v list"
  assumes shutdown_stops: "stopped (shutdown e)"
    and shutdown_sent: "sent (shutdown e) = sent e"
    and stopped_down: "stopped e \<Longrightarrow> state_of e = Down"
    and stopped_start: "stopped e \<Longrightarrow> (\<exists>x. fst (start p e) = Inl x) \<and> stopped (snd (start p e)) \<and> sent (snd (start p e)) = sent e"
    and stopped_poll: "stopped e \<Longrightarrow> stopped (snd (poll e)) \<and> sent (snd (poll e)) = sent e"
    and stopped_other: "f \<in> others \<Longrightarrow> stopped e \<Longrightarrow> stopped (snd (f e)) \<and> sent (snd (f e)) = sent e"
    and poll_drains: "fst (poll (snd (poll e))) = []"
begin

inductive later :: "'e \<Rightarrow> 'e \<Rightarrow> bool" where
  later_refl: "later e e"
| later_start: "later e d \<Longrightarrow> later e (snd (start p d))"
| later_poll: "later e d \<Longrightarrow> later e (snd (poll d))"
| later_other: "later e d \<Longrightarrow> f \<in> others \<Longrightarrow> later e (snd (f d))"

lemma stopped_later: "later e d \<Longrightarrow> stopped e \<Longrightarrow> stopped d \<and> sent d = sent e"
  by (induction rule: later.induct) (auto simp: stopped_start stopped_poll stopped_other)

lemma stays_down:
  "later (shutdown e) d \<Longrightarrow> state_of d = Down \<and> sent d = sent e \<and> (\<exists>x. fst (start p d) = Inl x) \<and> sent (snd (start p d)) = sent e"
  using stopped_later [OF _ shutdown_stops] stopped_down stopped_start shutdown_sent by metis

end

fun engine_stopped :: "engine \<Rightarrow> bool" where
  "engine_stopped (EFake a) \<longleftrightarrow> fk_proc a = Down"
| "engine_stopped (EClaude a) \<longleftrightarrow> \<not> lc_stdin (cl_child a) \<and> \<not> lc_alive (cl_child a)"
| "engine_stopped (ECodex a) \<longleftrightarrow> \<not> cx_stdin a \<and> cx_proc a = Down"
| "engine_stopped (EPi a) \<longleftrightarrow> \<not> lc_stdin (pi_child a) \<and> \<not> lc_alive (pi_child a)"

text \<open>What an adapter has written to its process; the fake engine has none.\<close>

fun engine_sent :: "engine \<Rightarrow> json list" where
  "engine_sent (EFake a) = []"
| "engine_sent (EClaude a) = lc_sent (cl_child a)"
| "engine_sent (ECodex a) = cx_sent a"
| "engine_sent (EPi a) = lc_sent (pi_child a)"

text \<open>The other calls of the interface, and what the process does on its own: lines that its reader
  thread still finds, and a pipe that breaks.\<close>

definition engine_calls :: "engine_shell \<Rightarrow> (engine \<Rightarrow> unit engine_res \<times> engine) set" where
  "engine_calls X = insert engine_interrupt (range (engine_resume_thread X) \<union> range engine_resume_session \<union>
     range (\<lambda>l e. (Inr (), engine_read X l e)) \<union> range (\<lambda>msg e. (Inr (), engine_break msg e)))"

lemma codex_call_stopped:
  "\<not> cx_stdin a \<Longrightarrow> codex_call m p a = (Inl (Internal, ''codex stdin gone''), a\<lparr>cx_next_id := cx_next_id a + 1\<rparr>)"
  by (simp add: codex_call_def codex_send_def Let_def)

lemma read_stopped:
  "engine_stopped e \<Longrightarrow> engine_stopped (engine_read X l e) \<and> engine_sent (engine_read X l e) = engine_sent e"
  by (cases e) (auto simp: claude_read_def pi_read_def line_child_read_def codex_read_def codex_receive_def split: option.split)

lemma break_stopped:
  "engine_stopped e \<Longrightarrow> engine_stopped (engine_break msg e) \<and> engine_sent (engine_break msg e) = engine_sent e"
  by (cases e) simp_all

lemma call_stopped:
  assumes "f \<in> insert engine_interrupt (range (engine_resume_thread X) \<union> range engine_resume_session)" "engine_stopped e"
  shows "engine_stopped (snd (f e)) \<and> engine_sent (snd (f e)) = engine_sent e"
  using assms
  by (cases e) (auto simp: fake_interrupt_def fake_resume_session_def claude_interrupt_def claude_send_def
      line_child_send_def claude_resume_session_def codex_interrupt_def codex_send_def codex_resume_thread_def
      codex_call_stopped pi_interrupt_def pi_request_def Let_def split: option.split)

interpretation engines: engine_contract "engine_start_turn X" engine_poll_events "engine_calls X"
  engine_proc_state engine_shutdown engine_stopped engine_sent for X
proof (unfold_locales, goal_cases)
  case (1 e)
  show ?case by (cases e) (simp_all add: fake_shutdown_def line_child_shutdown_def codex_shutdown_def)
next
  case (2 e)
  show ?case by (cases e) (simp_all add: line_child_shutdown_def codex_shutdown_def)
next
  case (3 e)
  then show ?case by (cases e) (simp_all add: line_child_proc_state_def codex_proc_state_def)
next
  case (4 e p)
  then show ?case
    by (cases e) (auto simp: fake_start_turn_def claude_start_turn_def claude_send_def line_child_send_def
        codex_start_turn_def codex_call_stopped pi_start_turn_def pi_request_def Let_def split: option.split)
next
  case (5 e)
  then show ?case
    by (cases e) (simp_all add: fake_poll_events_def line_child_poll_def codex_poll_events_def Let_def)
next
  case (6 f e)
  from 6(1) consider "f \<in> insert engine_interrupt (range (engine_resume_thread X) \<union> range engine_resume_session)"
    | l where "f = (\<lambda>e. (Inr (), engine_read X l e))" | msg where "f = (\<lambda>e. (Inr (), engine_break msg e))"
    unfolding engine_calls_def by blast
  then show ?case
    using call_stopped [OF _ 6(2)] read_stopped [OF 6(2)] break_stopped [OF 6(2)] by cases auto
next
  case (7 e)
  show ?case
    by (cases e) (simp_all add: fake_poll_events_def line_child_poll_def codex_poll_events_def Let_def
        List.map_filter_def)
qed

text \<open>C37: a stopped engine stays down.  After \<open>shutdown\<close>, whatever is then called on the adapter of
  any engine (turns, polls, interrupts, resumes) and whatever its reader thread still reads, its
  process state is down, every attempt to start a turn fails, and nothing more is ever written to
  the process, neither by \<open>shutdown\<close> itself nor by that attempt.\<close>

theorem stopped_engine_stays_down:
  assumes "engines.later X (engine_shutdown e) d"
  shows "engine_proc_state d = Down \<and> engine_sent d = engine_sent e \<and>
    (\<exists>x. fst (engine_start_turn X p d) = Inl x) \<and> engine_sent (snd (engine_start_turn X p d)) = engine_sent e"
  using assms by (rule engines.stays_down)

text \<open>A claude adapter with a turn written to it, stopped and then interrupted.\<close>

definition written_claude :: engine where
  "written_claude = EClaude \<lparr>cl_child = \<lparr>lc_child = True, lc_stdin = True, lc_rx = [], lc_alive = True, lc_pid = 7,
     lc_pipe = None, lc_sent = [JNull]\<rparr>,
     cl_pending_resume = None, cl_session = None\<rparr>"

theorem stopped_engine_stays_down_witness:
  "engine_sent (snd (engine_interrupt written_claude)) \<noteq> engine_sent written_claude \<and>
   engine_proc_state (snd (engine_interrupt (engine_shutdown written_claude))) = Down \<and>
   engine_sent (snd (engine_interrupt (engine_shutdown written_claude))) = [JNull]"
proof -
  have "engine_sent (snd (engine_interrupt written_claude)) \<noteq> engine_sent written_claude"
    by (simp add: written_claude_def claude_interrupt_def claude_send_def line_child_send_def)
  moreover have "engine_sent written_claude = [JNull]" by (simp add: written_claude_def)
  ultimately show ?thesis
    using stopped_engine_stays_down [OF engines.later_other
        [OF engines.later_refl [of undefined "engine_shutdown written_claude"], of engine_interrupt]]
    by (simp add: engine_calls_def)
qed

section \<open>The environment of a claude child\<close>

lemma inherited_env_dom: "dom (inherited_env E) \<subseteq> set ENV_ALLOWLIST"
  by (auto simp: inherited_env_def split: if_splits)

lemma find_map_Some: "find_map f xs = Some y \<Longrightarrow> \<exists>x \<in> set xs. f x = Some y"
  by (induction xs) (auto split: option.splits)

lemma key_not_empty: "parse_key_file E path k = Inr v \<Longrightarrow> v \<noteq> []"
  by (auto simp: parse_key_file_def parse_key_line_def Let_def split: sum.splits option.splits prod.splits if_splits
      dest!: find_map_Some)

text \<open>C38: what a claude child inherits.  If the adapter comes up, the child was started with a cleared
  environment that binds allowlisted variables only; for the built-in profile they are the daemon's
  own non-empty values, and for any other profile the endpoint and the model come from the declared
  profile and the token is the non-empty entry of the keys file.  The command line does not depend
  on the environment, so no secret appears in it.\<close>

theorem claude_child_environment:
  assumes "claude_new quote E cfg = Inr a"
  shows "\<exists>cmd env p. os_spawn E cmd = Inr p \<and> ps_first p = FirstLine \<and> cmd_env cmd = Some env \<and>
    cmd_cwd cmd = sc_cwd cfg \<and> dom env \<subseteq> set ENV_ALLOWLIST \<and>
    (\<forall>env'. claude_command E cfg env' = Inr (cmd\<lparr>cmd_env := Some env'\<rparr>)) \<and>
    (if sc_profile cfg \<in> {None, Some ''max''} then (\<forall>k v. env k = Some v \<longrightarrow> os_var E k = Some v \<and> v \<noteq> [])
     else \<exists>def path key. sc_profile_def cfg = Some def \<and> sc_keys_env_path cfg = Some path \<and>
       parse_key_file E path (pf_api_key_env def) = Inr key \<and> key \<noteq> [] \<and>
       env ''ANTHROPIC_AUTH_TOKEN'' = Some key \<and> env ''ANTHROPIC_BASE_URL'' = Some (pf_base_url def) \<and>
       env ''ANTHROPIC_MODEL'' = Some (pf_model def))"
proof -
  from assms obtain env cmd c where env: "build_env quote E cfg = Inr env" and cmd: "claude_command E cfg env = Inr cmd"
    and c: "line_child_spawn E cmd True ''node'' = Inr c"
    by (auto simp: claude_new_def and_then_Inr)
  from c obtain p where p: "os_spawn E cmd = Inr p" "ps_first p = FirstLine"
    by (auto simp: line_child_spawn_def Let_def split: sum.splits first_read.splits)
  have cmd': "cmd_env cmd = Some env" "cmd_cwd cmd = sc_cwd cfg"
    "claude_command E cfg env' = Inr (cmd\<lparr>cmd_env := Some env'\<rparr>)" for env'
    using cmd by (auto simp: claude_command_def Let_def split: if_splits option.splits)
  have "dom env \<subseteq> set ENV_ALLOWLIST"
  proof -
    have "{''ANTHROPIC_BASE_URL'', ''ANTHROPIC_AUTH_TOKEN'', ''ANTHROPIC_MODEL''} \<subseteq> set ENV_ALLOWLIST"
      by (simp add: ENV_ALLOWLIST_def)
    with env inherited_env_dom [of E] show ?thesis
      by (auto simp: build_env_def and_then_Inr split: option.splits if_splits
          intro: inherited_env_dom [THEN subsetD, OF domI])
  qed
  moreover have "if sc_profile cfg \<in> {None, Some ''max''} then (\<forall>k v. env k = Some v \<longrightarrow> os_var E k = Some v \<and> v \<noteq> [])
     else \<exists>def path key. sc_profile_def cfg = Some def \<and> sc_keys_env_path cfg = Some path \<and>
       parse_key_file E path (pf_api_key_env def) = Inr key \<and> key \<noteq> [] \<and>
       env ''ANTHROPIC_AUTH_TOKEN'' = Some key \<and> env ''ANTHROPIC_BASE_URL'' = Some (pf_base_url def) \<and>
       env ''ANTHROPIC_MODEL'' = Some (pf_model def)"
    using env key_not_empty
    by (auto simp: build_env_def and_then_Inr inherited_env_def split: option.splits if_splits)
  ultimately show ?thesis using p cmd' by blast
qed

definition claude_os :: os_env where
  "claude_os = \<lparr>os_spawn = (\<lambda>_. Inr \<lparr>ps_pid = 7, ps_first = FirstLine, ps_answers = (\<lambda>_. ([], True))\<rparr>),
     os_var = [''PATH'' \<mapsto> ''/bin'', ''SECRET'' \<mapsto> ''x''], os_read_file = (\<lambda>_. Inr ''ACME_KEY=s3''),
     os_canonicalize = (\<lambda>_. None)\<rparr>"

definition acme_cfg :: spawn_cfg where
  "acme_cfg = default_cfg\<lparr>sc_profile := Some ''acme'', sc_keys_env_path := Some ''/keys'',
     sc_profile_def := Some \<lparr>pf_base_url = ''https://x'', pf_model = ''m'', pf_api_key_env = ''ACME_KEY''\<rparr>\<rparr>"

lemma claude_os_key: "parse_key_file claude_os ''/keys'' ''ACME_KEY'' = Inr ''s3''"
  by (simp add: parse_key_file_def claude_os_def parse_key_line_def str_trim_printable printable_def
      split_once_def trim_with_def strip_prefix_def or_value_def Let_def)

theorem claude_child_environment_witness:
  "\<exists>a (cmd :: command) env. claude_new (\<lambda>s. s) claude_os acme_cfg = Inr a \<and> cmd_env cmd = Some env \<and>
     env ''SECRET'' = None \<and> env ''ANTHROPIC_AUTH_TOKEN'' = Some ''s3''"
proof -
  have "sc_profile acme_cfg = Some ''acme''" "sc_keys_env_path acme_cfg = Some ''/keys''"
    "sc_profile_def acme_cfg = Some \<lparr>pf_base_url = ''https://x'', pf_model = ''m'', pf_api_key_env = ''ACME_KEY''\<rparr>"
    by (simp_all add: acme_cfg_def)
  note cfg = this
  have "\<exists>a. claude_new (\<lambda>s. s) claude_os acme_cfg = Inr a"
    by (simp add: claude_new_def build_env_def cfg claude_os_key claude_command_def line_child_spawn_def Let_def)
      (simp add: acme_cfg_def default_cfg_def claude_os_def)
  then obtain a where a: "claude_new (\<lambda>s. s) claude_os acme_cfg = Inr a" ..
  from claude_child_environment [OF a]
  have "\<exists>(cmd :: command) env. cmd_env cmd = Some env \<and> dom env \<subseteq> set ENV_ALLOWLIST \<and> env ''ANTHROPIC_AUTH_TOKEN'' = Some ''s3''"
    unfolding cfg by (simp add: claude_os_key) blast
  then obtain cmd :: command and env where e: "cmd_env cmd = Some env" "dom env \<subseteq> set ENV_ALLOWLIST"
    "env ''ANTHROPIC_AUTH_TOKEN'' = Some ''s3''" by blast
  have "''SECRET'' \<notin> set ENV_ALLOWLIST" by (simp add: ENV_ALLOWLIST_def)
  with e(2) have "env ''SECRET'' = None" by blast
  with a e show ?thesis by blast
qed

section \<open>The policy of codex\<close>

text \<open>The responses among the lines of a server, with the identifiers they carry.\<close>

definition codex_responses :: "json list \<Rightarrow> (int \<times> json) list" where
  "codex_responses = List.map_filter (\<lambda>v.
    if jget ''method'' v = None then map_option (\<lambda>i. (or_value 0 (as_i64 i), v)) (jget ''id'' v) else None)"

text \<open>
  The answer to a request of an adapter: the first response that carries the identifier of this very
  request, among those still queued and those that the server prints once the request was written
  behind everything written before.
\<close>

definition codex_answer :: "codex_adapter \<Rightarrow> string \<Rightarrow> json \<Rightarrow> json option" where
  "codex_answer a method params =
    (let i = cx_next_id a + 1
     in map_option snd (List.find (\<lambda>(rid, _). rid = i)
          (cx_resp a @ codex_responses (fst (cx_answers a (cx_sent a @ [rpc_request i method params]))))))"

lemma receive_all:
  "cx_resp (fold codex_receive vs a) = cx_resp a @ codex_responses vs \<and> cx_answers (fold codex_receive vs a) = cx_answers a \<and>
   cx_pending (fold codex_receive vs a) = cx_pending a \<and> cx_sent (fold codex_receive vs a) = cx_sent a \<and>
   cx_next_id (fold codex_receive vs a) = cx_next_id a"
  by (induction vs arbitrary: a)
    (auto simp: codex_receive_def codex_responses_def List.map_filter_simps split: option.split)

lemma find_dropWhile: "List.find P xs = (case dropWhile (\<lambda>x. \<not> P x) xs of [] \<Rightarrow> None | x # _ \<Rightarrow> Some x)"
  by (induction xs) auto

lemma codex_call_frame:
  assumes "codex_call m q a = (x, b)"
  shows "cx_pending b = cx_pending a \<and> cx_answers b = cx_answers a \<and> cx_next_id b = cx_next_id a + 1"
proof -
  let ?a = "a\<lparr>cx_next_id := cx_next_id a + 1\<rparr>"
  obtain y c where s: "codex_send (rpc_request (cx_next_id a + 1) m q) ?a = (y, c)" by (metis prod.exhaust)
  have c: "cx_pending c = cx_pending a" "cx_answers c = cx_answers a" "cx_next_id c = cx_next_id a + 1"
    using s by (auto simp: codex_send_def split: if_splits option.splits)
  then have w: "cx_pending (codex_wait c) = cx_pending a" "cx_answers (codex_wait c) = cx_answers a"
    "cx_next_id (codex_wait c) = cx_next_id a + 1"
    by (simp_all add: codex_wait_def receive_all split: prod.split)
  show ?thesis
  proof (cases y)
    case (Inl e)
    with assms s c show ?thesis by (auto simp: codex_call_def Let_def)
  next
    case (Inr u)
    with assms s have "take_response (cx_next_id a + 1) m (codex_wait c) = (x, b)"
      by (simp add: codex_call_def Let_def)
    with w show ?thesis by (auto simp: take_response_def split: list.splits prod.splits)
  qed
qed

text \<open>A call that succeeds returns the result of the answer to its own request.\<close>

lemma codex_call_answered:
  assumes "codex_call m q a = (Inr resp, b)"
  shows "cx_sent b = cx_sent a @ [rpc_request (cx_next_id a + 1) m q] \<and>
    (\<exists>v. codex_answer a m q = Some v \<and> jget ''error'' v = None \<and> resp = or_value JNull (jget ''result'' v))"
proof -
  let ?i = "cx_next_id a + 1"
  let ?c = "a\<lparr>cx_next_id := ?i, cx_sent := cx_sent a @ [rpc_request ?i m q]\<rparr>"
  have "codex_send (rpc_request ?i m q) (a\<lparr>cx_next_id := ?i\<rparr>) = (Inr (), ?c)"
    and t: "take_response ?i m (codex_wait ?c) = (Inr resp, b)"
    using assms by (auto simp: codex_call_def Let_def codex_send_def bind_res_Inr split: if_splits option.splits)
  obtain vs up where vs: "cx_answers a (cx_sent a @ [rpc_request ?i m q]) = (vs, up)" by (metis prod.exhaust)
  have w: "cx_resp (codex_wait ?c) = cx_resp a @ codex_responses vs" "cx_sent (codex_wait ?c) = cx_sent a @ [rpc_request ?i m q]"
    by (simp_all add: codex_wait_def vs receive_all)
  from t obtain rid msg rest where d: "dropWhile (\<lambda>(rid, _). rid \<noteq> ?i) (cx_resp (codex_wait ?c)) = (rid, msg) # rest"
    and r: "response_result m msg = Inr resp" and b: "b = (codex_wait ?c)\<lparr>cx_resp := rest\<rparr>"
    by (auto simp: take_response_def split: list.splits prod.splits)
  have "codex_answer a m q = Some msg"
    using d by (simp add: codex_answer_def Let_def vs w find_dropWhile case_prod_unfold)
  with r b w show ?thesis by (auto simp: response_result_def split: option.splits)
qed

definition full_access :: "json \<Rightarrow> bool" where
  "full_access r \<longleftrightarrow> str_at ''approvalPolicy'' r = Some ''never'' \<and>
    Option.bind (jget ''sandbox'' r) (str_at ''type'') = Some ''dangerFullAccess''"

lemma verify_yolo_iff: "verify_yolo quote r = Inr () \<longleftrightarrow> full_access r"
  by (simp add: verify_yolo_def full_access_def Let_def)

lemma full_access_null: "\<not> full_access JNull"
  by (simp add: full_access_def str_at_def jget_def)

lemma require_Inr: "require r s k = (Inr b, t) \<longleftrightarrow> (\<exists>a. r = Inr a \<and> k a = (Inr b, t))"
  by (cases r) auto

text \<open>The server's answer to a request grants full access in its result.\<close>

definition codex_granted :: "codex_adapter \<Rightarrow> string \<Rightarrow> json \<Rightarrow> json \<Rightarrow> bool" where
  "codex_granted a method params r \<longleftrightarrow>
    (\<exists>v. codex_answer a method params = Some v \<and> jget ''error'' v = None \<and> jget ''result'' v = Some r \<and> full_access r)"

lemma call_granted: "codex_call m q a = (Inr resp, b) \<Longrightarrow> full_access resp \<Longrightarrow> codex_granted a m q resp"
  using codex_call_answered [of m q a resp b] full_access_null
  by (auto simp: codex_granted_def or_value_def split: option.splits)

text \<open>What the adapter asks for.\<close>

definition start_params :: "spawn_cfg \<Rightarrow> json" where
  "start_params cfg = JObj [(''cwd'', JStr (sc_cwd cfg)), (''approvalPolicy'', JStr ''never''),
     (''sandbox'', JStr ''danger-full-access''), (''model'', json_opt (sc_model cfg))]"

definition resume_params :: "string \<Rightarrow> json" where
  "resume_params tid = JObj [(''threadId'', JStr tid), (''approvalPolicy'', JStr ''never''),
     (''sandbox'', JStr ''danger-full-access'')]"

definition turn_params :: "string \<Rightarrow> string \<Rightarrow> json" where
  "turn_params tid payload = JObj [(''threadId'', JStr tid),
     (''input'', JArr [JObj [(''type'', JStr ''text''), (''text'', JStr payload), (''text_elements'', JArr [])]]),
     (''approvalPolicy'', JStr ''never''), (''sandboxPolicy'', JObj [(''type'', JStr ''dangerFullAccess'')])]"

text \<open>The adapter of a server that was just spawned.\<close>

definition codex_spawned :: "process \<Rightarrow> codex_adapter" where
  "codex_spawned p = \<lparr>cx_child = True, cx_stdin = True, cx_resp = [], cx_notif = [], cx_alive = True,
     cx_proc = Up, cx_next_id = 0, cx_thread_id = None, cx_turn = None, cx_pending = [],
     cx_pipe = None, cx_sent = [], cx_answers = ps_answers p\<rparr>"

lemma codex_starts_granted:
  assumes n: "codex_new quote E cfg = Inr a"
  shows "\<exists>p a1 r. os_spawn E (codex_command cfg) = Inr p \<and> codex_initialize (codex_spawned p) = (Inr (), a1) \<and>
    cx_next_id a1 = 1 \<and> cx_answers a1 = ps_answers p \<and> codex_granted a1 ''thread/start'' (start_params cfg) r \<and>
    cx_sent a = cx_sent a1 @ [rpc_request 2 ''thread/start'' (start_params cfg)] \<and>
    cx_thread_id a = Option.bind (jget ''thread'' r) (str_at ''id'')"
proof -
  obtain p where p: "os_spawn E (codex_command cfg) = Inr p" using n by (auto simp: codex_new_def split: sum.splits)
  have "bind_res (codex_initialize (codex_spawned p)) (\<lambda>_. codex_thread_start quote cfg) = (Inr (), a)"
    using n p by (auto simp: codex_new_def codex_spawned_def split: prod.splits sum.splits)
  then obtain a1 where i: "codex_initialize (codex_spawned p) = (Inr (), a1)" and st: "codex_thread_start quote cfg a1 = (Inr (), a)"
    unfolding bind_res_Inr by auto
  obtain m q resp where c1: "codex_call m q (codex_spawned p) = (Inr resp, a1)"
    using i unfolding codex_initialize_def bind_res_Inr by blast
  have a1: "cx_next_id a1 = 1" "cx_answers a1 = ps_answers p"
    using codex_call_frame [OF c1] by (simp_all add: codex_spawned_def)
  obtain r c where c: "codex_call ''thread/start'' (start_params cfg) a1 = (Inr r, c)"
    and k: "require (verify_yolo quote r) c (\<lambda>_. (Inr (), c\<lparr>cx_thread_id := Option.bind (jget ''thread'' r) (str_at ''id'')\<rparr>)) = (Inr (), a)"
    using st unfolding codex_thread_start_def bind_res_Inr start_params_def by blast
  from k have "full_access r" "a = c\<lparr>cx_thread_id := Option.bind (jget ''thread'' r) (str_at ''id'')\<rparr>"
    by (auto simp: require_Inr verify_yolo_iff)
  with call_granted [OF c] codex_call_answered [OF c] a1 p i show ?thesis by auto
qed

lemma codex_resumes_granted:
  assumes "codex_resume_thread quote tid b = (Inr u, b')"
  shows "(\<exists>r. codex_granted b ''thread/resume'' (resume_params tid) r) \<and> cx_thread_id b' = Some tid \<and>
    cx_sent b' = cx_sent b @ [rpc_request (cx_next_id b + 1) ''thread/resume'' (resume_params tid)]"
proof -
  obtain r c where c: "codex_call ''thread/resume'' (resume_params tid) b = (Inr r, c)"
    and k: "require (verify_yolo quote r) c (\<lambda>_. (Inr (), c\<lparr>cx_thread_id := Some tid\<rparr>)) = (Inr u, b')"
    using assms unfolding codex_resume_thread_def bind_res_Inr resume_params_def by blast
  from k have "full_access r" "b' = c\<lparr>cx_thread_id := Some tid\<rparr>" by (auto simp: require_Inr verify_yolo_iff)
  with call_granted [OF c] codex_call_answered [OF c] show ?thesis by auto
qed

lemma codex_turn_granted:
  assumes "codex_start_turn quote payload b = (x, b'')"
  shows "case x of
      Inl _ \<Rightarrow> cx_pending b'' = cx_pending b
    | Inr _ \<Rightarrow> \<exists>t v turn. cx_thread_id b = Some t \<and> codex_answer b ''turn/start'' (turn_params t payload) = Some v \<and>
        jget ''error'' v = None \<and> cx_pending b'' = cx_pending b @ [Accepted turn] \<and>
        (\<forall>r. jget ''result'' v = Some r \<longrightarrow> full_access r \<or> jget ''approvalPolicy'' r = None \<and> jget ''sandbox'' r = None)"
proof (cases "cx_thread_id b")
  case None
  with assms show ?thesis by (auto simp: codex_start_turn_def)
next
  case (Some t)
  obtain y b1 where c: "codex_call ''turn/start'' (turn_params t payload) b = (y, b1)" by (metis prod.exhaust)
  note fr = codex_call_frame [OF c]
  show ?thesis
  proof (cases y)
    case (Inl e)
    with assms c Some have "x = Inl e" "b'' = b1" by (simp_all add: codex_start_turn_def turn_params_def)
    with fr show ?thesis by simp
  next
    case (Inr resp)
    from codex_call_answered [OF c [unfolded Inr]] obtain v where v: "codex_answer b ''turn/start'' (turn_params t payload) = Some v"
      "jget ''error'' v = None" "resp = or_value JNull (jget ''result'' v)" by blast
    have no: "x = Inl e \<and> b'' = b1" if "verify_yolo_if_present quote resp = Inl e" for e
      using assms c Some Inr that by (auto simp: codex_start_turn_def turn_params_def)
    have yes: "x = Inr () \<and> (\<exists>turn. cx_pending b'' = cx_pending b1 @ [Accepted turn])"
      if "verify_yolo_if_present quote resp = Inr ()"
      using assms c Some Inr that by (auto simp: codex_start_turn_def turn_params_def Let_def)
    have "\<forall>r. jget ''result'' v = Some r \<longrightarrow> full_access r \<or> jget ''approvalPolicy'' r = None \<and> jget ''sandbox'' r = None"
      if "verify_yolo_if_present quote resp = Inr ()"
      using that v(3) by (auto simp: verify_yolo_if_present_def verify_yolo_iff or_value_def split: if_splits)
    with no yes v Some fr show ?thesis by (cases "verify_yolo_if_present quote resp") auto
  qed
qed

text \<open>C39: codex works only under the policy that was asked for.  An adapter comes up only when the server
  answers its \<open>thread/start\<close> (the request with identifier 2, sent after the initialisation, which asks
  for \<open>approvalPolicy = never\<close> and full access), without an error, with a result that carries
  \<open>approvalPolicy = never\<close> and a full-access sandbox, and the engine thread is the one of that result; a
  thread is resumed only when the answer to that very \<open>thread/resume\<close> grants the same; a turn is
  reported as accepted only when the answer to that very \<open>turn/start\<close> is no error and names no weaker
  policy, and a refused turn leaves no event behind.  The answer to a request is the first response
  with its identifier, so an answer to another request never counts.\<close>

theorem codex_policy_enforced:
  "(codex_new quote E cfg = Inr a \<longrightarrow>
      (\<exists>p a1 r. os_spawn E (codex_command cfg) = Inr p \<and> codex_initialize (codex_spawned p) = (Inr (), a1) \<and>
         cx_next_id a1 = 1 \<and> cx_answers a1 = ps_answers p \<and> codex_granted a1 ''thread/start'' (start_params cfg) r \<and>
         cx_sent a = cx_sent a1 @ [rpc_request 2 ''thread/start'' (start_params cfg)] \<and>
         cx_thread_id a = Option.bind (jget ''thread'' r) (str_at ''id''))) \<and>
   (codex_resume_thread quote tid b = (Inr u, b') \<longrightarrow>
      (\<exists>r. codex_granted b ''thread/resume'' (resume_params tid) r) \<and> cx_thread_id b' = Some tid \<and>
      cx_sent b' = cx_sent b @ [rpc_request (cx_next_id b + 1) ''thread/resume'' (resume_params tid)]) \<and>
   (codex_start_turn quote payload b = (x, b'') \<longrightarrow>
      (case x of
        Inl _ \<Rightarrow> cx_pending b'' = cx_pending b
      | Inr _ \<Rightarrow> \<exists>t v turn. cx_thread_id b = Some t \<and> codex_answer b ''turn/start'' (turn_params t payload) = Some v \<and>
          jget ''error'' v = None \<and> cx_pending b'' = cx_pending b @ [Accepted turn] \<and>
          (\<forall>r. jget ''result'' v = Some r \<longrightarrow>
             full_access r \<or> jget ''approvalPolicy'' r = None \<and> jget ''sandbox'' r = None)))"
  using codex_starts_granted codex_resumes_granted codex_turn_granted by blast

text \<open>A server that grants full access to every request.\<close>

definition example_grant :: json where
  "example_grant = JObj [(''approvalPolicy'', JStr ''never''),
     (''sandbox'', JObj [(''type'', JStr ''dangerFullAccess'')]), (''thread'', JObj [(''id'', JStr ''T'')]),
     (''turn'', JObj [(''id'', JStr ''u1'')])]"

definition codex_server :: process where
  "codex_server = \<lparr>ps_pid = 7, ps_first = FirstEof, ps_answers = (\<lambda>sent.
     ([JObj [(''id'', JInt (int (length sent))), (''result'', example_grant)]], True))\<rparr>"

definition codex_os :: os_env where
  "codex_os = \<lparr>os_spawn = (\<lambda>_. Inr codex_server), os_var = (\<lambda>_. None),
     os_read_file = (\<lambda>_. Inl ''no such file''), os_canonicalize = (\<lambda>_. None)\<rparr>"

lemmas codex_eval = codex_new_def codex_initialize_def codex_thread_start_def codex_resume_thread_def
  codex_start_turn_def codex_call_def codex_send_def codex_wait_def codex_receive_def take_response_def
  response_result_def verify_yolo_def verify_yolo_if_present_def jget_def str_at_def as_str_def as_i64_def
  or_value_def codex_os_def codex_server_def example_grant_def Let_def

lemma example_codex:
  "\<exists>a b' b''. codex_new (\<lambda>s. s) codex_os default_cfg = Inr a \<and>
     codex_resume_thread (\<lambda>s. s) ''R'' a = (Inr (), b') \<and> codex_start_turn (\<lambda>s. s) ''p'' a = (Inr (), b'')"
  by (simp add: codex_eval)

theorem codex_policy_enforced_witness:
  "\<exists>a b' b''. codex_new (\<lambda>s. s) codex_os default_cfg = Inr a \<and>
     (\<exists>a1 r. codex_granted a1 ''thread/start'' (start_params default_cfg) r \<and>
        cx_thread_id a = Option.bind (jget ''thread'' r) (str_at ''id'')) \<and>
     codex_resume_thread (\<lambda>s. s) ''R'' a = (Inr (), b') \<and> (\<exists>r. codex_granted a ''thread/resume'' (resume_params ''R'') r) \<and>
     codex_start_turn (\<lambda>s. s) ''p'' a = (Inr (), b'') \<and> (\<exists>turn. cx_pending b'' = cx_pending a @ [Accepted turn])"
proof -
  from example_codex obtain a b' b'' where a: "codex_new (\<lambda>s. s) codex_os default_cfg = Inr a"
    "codex_resume_thread (\<lambda>s. s) ''R'' a = (Inr (), b')" "codex_start_turn (\<lambda>s. s) ''p'' a = (Inr (), b'')" by blast
  note c = codex_policy_enforced [where quote = "\<lambda>s. s" and E = codex_os and cfg = default_cfg and a = a and b = a and tid = "''R''"
      and u = "()" and b' = b' and payload = "''p''" and x = "Inr ()" and b'' = b'']
  from c [THEN conjunct1, THEN mp, OF a(1)] have 1: "\<exists>a1 r. codex_granted a1 ''thread/start'' (start_params default_cfg) r \<and>
      cx_thread_id a = Option.bind (jget ''thread'' r) (str_at ''id'')"
    by blast
  from c [THEN conjunct2, THEN conjunct1, THEN mp, OF a(2)] have 2: "\<exists>r. codex_granted a ''thread/resume'' (resume_params ''R'') r" by blast
  from c [THEN conjunct2, THEN conjunct2, THEN mp, OF a(3)]
  have 3: "\<exists>turn. cx_pending b'' = cx_pending a @ [Accepted turn]" by auto
  from a 1 2 3 show ?thesis by blast
qed

section \<open>Pi\<close>

definition turn_over :: "engine_event \<Rightarrow> bool" where
  "turn_over e \<longleftrightarrow> (case e of Final _ \<Rightarrow> True | Failed _ \<Rightarrow> True | _ \<Rightarrow> False)"

definition will_retry :: "json \<Rightarrow> bool" where
  "will_retry v \<longleftrightarrow> Option.bind (jget ''willRetry'' v) as_bool = Some True"

definition prompt_accepted :: "json \<Rightarrow> bool" where
  "prompt_accepted v \<longleftrightarrow> Option.bind (jget ''success'' v) as_bool = Some True"

lemma or_value_False: "or_value False x \<longleftrightarrow> x = Some True"
  by (cases x) (simp_all add: or_value_def)

text \<open>Which lines of pi end a turn.  A line gives an event that is over the turn exactly when it is an
  \<open>agent_end\<close> that will not be retried or a rejected prompt, so every turn that ends is closed by
  exactly one event and nothing else closes it; and a turn counts as accepted exactly by the
  acknowledgement of its prompt.\<close>

lemma pi_terminal_lines:
  "((\<exists>e. map_event v = Some e \<and> turn_over e) \<longleftrightarrow>
     str_at ''type'' v = Some ''agent_end'' \<and> \<not> will_retry v \<or>
     str_at ''type'' v = Some ''response'' \<and> str_at ''command'' v = Some ''prompt'' \<and> \<not> prompt_accepted v) \<and>
   ((\<exists>i. map_event v = Some (Accepted i)) \<longleftrightarrow>
     str_at ''type'' v = Some ''response'' \<and> str_at ''command'' v = Some ''prompt'' \<and> prompt_accepted v)"
proof (rule conjI)
  note defs = map_event_def pi_response_def pi_message_update_def pi_agent_end_def turn_over_def or_value_False
    will_retry_def prompt_accepted_def
  show "(\<exists>e. map_event v = Some e \<and> turn_over e) \<longleftrightarrow>
     str_at ''type'' v = Some ''agent_end'' \<and> \<not> will_retry v \<or>
     str_at ''type'' v = Some ''response'' \<and> str_at ''command'' v = Some ''prompt'' \<and> \<not> prompt_accepted v"
    by (cases "str_at ''type'' v") (auto simp: defs split: option.split)
  show "(\<exists>i. map_event v = Some (Accepted i)) \<longleftrightarrow>
     str_at ''type'' v = Some ''response'' \<and> str_at ''command'' v = Some ''prompt'' \<and> prompt_accepted v"
    by (cases "str_at ''type'' v") (auto simp: defs split: option.split)
qed

section \<open>The respawn backoff\<close>

fun backoffs :: "nat \<Rightarrow> string \<Rightarrow> supervisor \<Rightarrow> nat list" where
  "backoffs 0 cell U = []"
| "backoffs (Suc n) cell U = (case respawn_backoff_secs cell U of (d, U') \<Rightarrow> d # backoffs n cell U')"

lemma min_60: "min 60 (checked_shl_or_max 1 (min k (2 ^ 32 - 1))) = min 60 (2 ^ k)"
proof (cases "k < 64")
  case True
  then have "(2::nat) ^ k < 2 ^ 64" by (intro power_strict_increasing) simp_all
  moreover have "min k (2 ^ 32 - 1) = k" using True by simp
  ultimately show ?thesis using True by (simp add: checked_shl_or_max_def)
next
  case False
  then have "(2::nat) ^ 6 \<le> 2 ^ k" by (intro power_increasing) simp_all
  moreover have "\<not> min k (2 ^ 32 - 1) < 64" using False by simp
  ultimately show ?thesis by (simp add: checked_shl_or_max_def U64_MAX_def)
qed

lemma backoffs_from:
  "or_value 0 (sp_backoff U cell) = min k (2 ^ 32 - 1) \<Longrightarrow> backoffs n cell U = map (\<lambda>i. min 60 (2 ^ (k + i))) [0 ..< n]"
proof (induction n arbitrary: k U)
  case (Suc n)
  obtain d U' where r: "respawn_backoff_secs cell U = (d, U')" by (metis prod.exhaust)
  have d: "d = min 60 (2 ^ k)"
    using r Suc.prems min_60 [of k] by (simp add: respawn_backoff_secs_def RESPAWN_BACKOFF_CAP_SECS_def Let_def)
  have U': "or_value 0 (sp_backoff U' cell) = min (Suc k) (2 ^ 32 - 1)"
    using r Suc.prems by (auto simp: respawn_backoff_secs_def Let_def or_value_def [of _ "Some _"])
  show ?case
    unfolding backoffs.simps r prod.case Suc.IH [OF U'] d
    by (simp add: map_upt_Suc del: upt_Suc)
qed simp

text \<open>The respawn backoff of a cell, from its first death on, is 1, 2, 4, ... seconds and never more
  than a minute, for any number of deaths: neither the shift nor the saturating counter ever brings
  it down again, and the deaths of one cell do not count for another.\<close>

lemma respawn_backoff_sequence:
  "sp_backoff U cell = None \<Longrightarrow>
   backoffs n cell U = map (\<lambda>k. min 60 (2 ^ k)) [0 ..< n] \<and>
   (\<forall>other. other \<noteq> cell \<longrightarrow> sp_backoff (snd (respawn_backoff_secs cell U)) other = sp_backoff U other)"
  using backoffs_from [of U cell 0 n] by (simp add: or_value_def respawn_backoff_secs_def Let_def)

lemma respawn_backoff_sequence_witness:
  "backoffs 8 ''w'' supervisor_new = [1, 2, 4, 8, 16, 32, 60, 60]"
proof -
  have "sp_backoff supervisor_new ''w'' = None" by (simp add: supervisor_new_def)
  from respawn_backoff_sequence [OF this, of 8] show ?thesis by (simp add: upt_rec)
qed

end
