(* ===== verification/FakeProcess.thy ===== *)
theory FakeProcess
  imports Adapters
begin

text \<open>
  The fake engine program (\<open>bin/crewd-fake-engine.rs\<close>), which speaks the protocol of the claude
  shim: one JSON value per line each way.  Below, the claude adapter drives it through a turn.
\<close>

section \<open>The program\<close>

record fake_process =
  fp_hang :: bool
  fp_fail :: bool
  fp_turn_counter :: nat

definition fake_process_start :: "string list \<Rightarrow> json list \<times> fake_process" where
  "fake_process_start args =
    ([JObj [(''ev'', JStr ''ready''), (''session_id'', JNull)]],
     \<lparr>fp_hang = ''--hang'' \<in> set args, fp_fail = ''--fail'' \<in> set args, fp_turn_counter = 0\<rparr>)"

definition fake_error :: "string \<Rightarrow> json" where
  "fake_error e = JObj [(''ev'', JStr ''error''), (''error'', JStr e)]"

definition fake_turn :: "json \<Rightarrow> fake_process \<Rightarrow> json list \<times> fake_process" where
  "fake_turn msg p =
    (let n = fp_turn_counter p + 1;
         acc = JObj [(''ev'', JStr ''accepted''), (''engine_turn_id'', JStr (''t-'' @ dec n))];
         prompt = or_value [] (str_at ''prompt'' msg);
         sid = or_value ''fake-sess-1'' (str_at ''resume_session'' msg);
         final = JObj [(''ev'', JStr ''final''), (''final_answer'', JStr (''fake: '' @ prompt)),
                       (''session_id'', JStr sid)]
     in (acc # (if fp_hang p then [] else if fp_fail p then [fake_error ''engine-failure''] else [final]),
         p\<lparr>fp_turn_counter := n\<rparr>))"

text \<open>What one line makes it print, and whether it goes on.\<close>

definition fake_process_line ::
  "(string \<Rightarrow> json option) \<Rightarrow> string \<Rightarrow> fake_process \<Rightarrow> json list \<times> bool \<times> fake_process" where
  "fake_process_line parse line p =
    (case line_value parse line of
      None \<Rightarrow> ([], True, p)
    | Some msg \<Rightarrow>
        (let oper = or_value [] (str_at ''op'' msg) in
         if oper = ''turn'' then (case fake_turn msg p of (out, p) \<Rightarrow> (out, True, p))
         else if oper = ''abort'' then ([fake_error ''aborted''], True, p)
         else if oper = ''exit'' then ([], False, p)
         else ([], True, p)))"

fun fake_process_run :: "(string \<Rightarrow> json option) \<Rightarrow> string list \<Rightarrow> fake_process \<Rightarrow> json list" where
  "fake_process_run parse [] p = []"
| "fake_process_run parse (l # ls) p =
    (case fake_process_line parse l p of
      (out, on, p) \<Rightarrow> out @ (if on then fake_process_run parse ls p else []))"

section \<open>A turn through the claude adapter\<close>

text \<open>The JSON library prints the given values on lines that read back as the values.\<close>

definition lines_back :: "(json \<Rightarrow> string) \<Rightarrow> (string \<Rightarrow> json option) \<Rightarrow> json list \<Rightarrow> bool" where
  "lines_back ser parse vs \<longleftrightarrow> list_all (\<lambda>v. line_value parse (ser v) = Some v) vs"

definition can_write :: "claude_adapter \<Rightarrow> bool" where
  "can_write a \<longleftrightarrow> lc_stdin (cl_child a) \<and> lc_pipe (cl_child a) = None"

definition claude_poll :: "claude_adapter \<Rightarrow> engine_event list" where
  "claude_poll a = fst (line_child_poll (cl_child a))"

definition turn_op :: "string \<Rightarrow> claude_adapter \<Rightarrow> json" where
  "turn_op payload a = JObj [(''op'', JStr ''turn''), (''prompt'', JStr payload),
     (''resume_session'', json_opt (cl_pending_resume a))]"

lemma read_value:
  assumes "line_value parse (ser v) = Some v"
  shows "claude_read parse (Some (ser v)) a =
    a\<lparr>cl_child := (cl_child a)\<lparr>lc_rx := lc_rx (cl_child a) @ claude_events v\<rparr>,
      cl_session := coalesce (claude_session_of v) (cl_session a)\<rparr>"
  using assms by (simp add: claude_read_def line_child_read_def)

lemma turn_fields:
  "str_at ''op'' (turn_op payload a) = Some ''turn''" "str_at ''prompt'' (turn_op payload a) = Some payload"
  "str_at ''resume_session'' (turn_op payload a) = cl_pending_resume a"
  by (simp_all add: turn_op_def str_at_def jget_def as_str_def json_opt_def split: option.split)

lemma line_events:
  "claude_events (fake_error e) = [Failed e]" "claude_session_of (fake_error e) = None"
  "claude_events (JObj [(''ev'', JStr ''accepted''), (''engine_turn_id'', JStr i)]) = [Accepted i]"
  "claude_session_of (JObj [(''ev'', JStr ''accepted''), (''engine_turn_id'', JStr i)]) = None"
  "claude_events (JObj [(''ev'', JStr ''final''), (''final_answer'', JStr x), (''session_id'', JStr i)]) = [Final x]"
  "claude_session_of (JObj [(''ev'', JStr ''final''), (''final_answer'', JStr x), (''session_id'', JStr i)]) = Some i"
  by (simp_all add: fake_error_def claude_events_def claude_session_of_def str_at_def jget_def as_str_def or_value_def)

text \<open>The claude adapter and the fake engine program understand each other.  A turn started on an
  adapter that can write puts one line on the pipe; the program, whatever its flags, answers it by
  lines from which the adapter reads first the acceptance with the number of the turn and then,
  depending on the flags, nothing, the failure, or the answer to the very prompt, with the session
  that was to be resumed as the one to resume next.\<close>

theorem fake_process_turn:
  assumes "lines_back ser parse (turn_op payload a # fst (fake_turn (turn_op payload a) p))" "can_write a" "lc_rx (cl_child a) = []"
  shows "\<exists>b v outs q. claude_start_turn payload a = (Inr (), b) \<and>
    lc_sent (cl_child b) = lc_sent (cl_child a) @ [v] \<and> cl_pending_resume b = None \<and>
    fake_process_line parse (ser v) p = (outs, True, q) \<and> fp_turn_counter q = fp_turn_counter p + 1 \<and>
    (let c = fold (\<lambda>w. claude_read parse (Some (ser w))) outs b in
     claude_poll c = Accepted (''t-'' @ dec (fp_turn_counter p + 1)) #
       (if fp_hang p then [] else if fp_fail p then [Failed ''engine-failure''] else [Final (''fake: '' @ payload)]) \<and>
     cl_session c = (if fp_hang p \<or> fp_fail p then cl_session a
       else Some (or_value ''fake-sess-1'' (cl_pending_resume a))))"
proof -
  let ?v = "turn_op payload a" and ?n = "fp_turn_counter p + 1"
  let ?b = "a\<lparr>cl_pending_resume := None, cl_child := (cl_child a)\<lparr>lc_sent := lc_sent (cl_child a) @ [?v]\<rparr>\<rparr>"
  have s: "claude_start_turn payload a = (Inr (), ?b)"
    using assms(2) by (simp add: claude_start_turn_def claude_send_def line_child_send_def can_write_def turn_op_def)
  have l: "fake_process_line parse (ser ?v) p = (fst (fake_turn ?v p), True, snd (fake_turn ?v p))"
    using assms(1) unfolding fake_process_line_def lines_back_def by (simp add: turn_fields or_value_def case_prod_beta)
  have payload: "or_value [] (Some payload) = payload" by (simp add: or_value_def)
  have "(let c = fold (\<lambda>w. claude_read parse (Some (ser w))) (fst (fake_turn ?v p)) ?b in
     claude_poll c = Accepted (''t-'' @ dec ?n) #
       (if fp_hang p then [] else if fp_fail p then [Failed ''engine-failure''] else [Final (''fake: '' @ payload)]) \<and>
     cl_session c = (if fp_hang p \<or> fp_fail p then cl_session a
       else Some (or_value ''fake-sess-1'' (cl_pending_resume a))))"
    using assms(1,3) unfolding fake_turn_def turn_fields Let_def lines_back_def fst_conv
    by (cases "fp_hang p"; cases "fp_fail p")
      (simp_all add: read_value line_events claude_poll_def line_child_poll_def coalesce_def payload)
  moreover have "fp_turn_counter (snd (fake_turn ?v p)) = ?n" by (simp add: fake_turn_def Let_def)
  ultimately show ?thesis using s l by (intro exI conjI) (assumption | simp)+
qed

definition example_claude :: claude_adapter where
  "example_claude = \<lparr>cl_child = \<lparr>lc_child = True, lc_stdin = True, lc_rx = [], lc_alive = True, lc_pid = 7,
     lc_pipe = None, lc_sent = []\<rparr>, cl_pending_resume = Some ''s9'', cl_session = None\<rparr>"

definition table_ser :: "json list \<Rightarrow> json \<Rightarrow> string" where
  "table_ser vs v = CHR ''v'' # replicate (length (takeWhile (\<lambda>w. w \<noteq> v) vs)) (CHR ''v'')"

definition table_parse :: "json list \<Rightarrow> string \<Rightarrow> json option" where
  "table_parse vs l = (if length l - 1 < length vs then Some (vs ! (length l - 1)) else None)"

lemma table_lines: "lines_back (table_ser vs) (table_parse vs) vs"
proof -
  have "line_value (table_parse vs) (table_ser vs v) = Some v" if "v \<in> set vs" for v
  proof -
    let ?k = "length (takeWhile (\<lambda>w. w \<noteq> v) vs)"
    have "?k < length vs \<and> vs ! ?k = v" using that by (induction vs) auto
    moreover have "str_trim (table_ser vs v) = table_ser vs v"
      by (rule str_trim_printable) (simp add: table_ser_def printable_def list_all_iff)
    ultimately show ?thesis by (simp add: line_value_def table_parse_def) (simp add: table_ser_def)
  qed
  then show ?thesis by (simp add: lines_back_def list_all_iff)
qed

theorem fake_process_turn_witness:
  "\<exists>b v outs q. claude_start_turn ''hi'' example_claude = (Inr (), b) \<and>
    fst (fake_turn v (snd (fake_process_start []))) = outs \<and> length outs = 2 \<and>
    fake_process_line (table_parse (v # outs)) (table_ser (v # outs) v) (snd (fake_process_start [])) = (outs, True, q) \<and>
    cl_session (fold (\<lambda>w. claude_read (table_parse (v # outs)) (Some (table_ser (v # outs) w))) outs b) = Some ''s9''"
proof -
  let ?p = "snd (fake_process_start [])" and ?v = "turn_op ''hi'' example_claude"
  let ?o = "fst (fake_turn ?v ?p)"
  have w: "can_write example_claude" "lc_rx (cl_child example_claude) = []" "cl_pending_resume example_claude = Some ''s9''"
    by (simp_all add: example_claude_def can_write_def)
  have p: "\<not> fp_hang ?p" "\<not> fp_fail ?p" by (simp_all add: fake_process_start_def)
  have o: "length ?o = 2" by (simp add: fake_turn_def p Let_def)
  from fake_process_turn [OF table_lines w(1,2), where p = ?p and payload = "''hi''"]
  obtain b v outs q where t: "claude_start_turn ''hi'' example_claude = (Inr (), b)"
    "lc_sent (cl_child b) = lc_sent (cl_child example_claude) @ [v]"
    "fake_process_line (table_parse (?v # ?o)) (table_ser (?v # ?o) v) ?p = (outs, True, q)"
    "cl_session (fold (\<lambda>w. claude_read (table_parse (?v # ?o)) (Some (table_ser (?v # ?o) w))) outs b) = Some ''s9''"
    unfolding Let_def by (auto simp: p w(3) or_value_def)
  have v: "v = ?v"
    using t(1,2) w(1) by (auto simp: claude_start_turn_def claude_send_def line_child_send_def can_write_def turn_op_def)
  have "line_value (table_parse (?v # ?o)) (table_ser (?v # ?o) ?v) = Some ?v"
    using table_lines [of "?v # ?o"] by (simp add: lines_back_def)
  with t(3) have "outs = ?o" unfolding v by (auto simp: fake_process_line_def turn_fields or_value_def split: prod.splits)
  with t o v show ?thesis by blast
qed

end
