(* ===== verification/Completion.thy ===== *)
theory Completion
  imports TurnInvariant
begin

text \<open>
  The way of a turn that an engine completes: the events of one poll drain into the thread, the
  job, the journal and the audit log, and the recorded final answer is the one the engine gave.
\<close>

section \<open>The journal\<close>

definition journal_lines :: "string \<Rightarrow> store \<Rightarrow> string list" where
  "journal_lines tid s = map jr_line (thread_journal tid s)"

lemma append_line [simp]:
  "journal_lines tid (snd (journal_append now tid line s)) = journal_lines tid s @ [line]"
  "s_threads (snd (journal_append now tid line s)) = s_threads s"
  by (simp_all add: journal_lines_def thread_journal_def journal_append_def Let_def)

lemma journal_cong:
  "s_journal t = s_journal s \<Longrightarrow> journal_lines tid t = journal_lines tid s"
  "s_journal t = s_journal s \<Longrightarrow> journal_numbered t = journal_numbered s"
  by (simp_all add: journal_lines_def thread_journal_def journal_numbered_def)

lemma tail_final_answer:
  assumes "journal_numbered s" "journal_lines tid s = ls @ [''final: '' @ answer]" "0 < n"
  shows "journal_final_answer (journal_tail tid n s) = Some answer"
proof -
  let ?rs = "thread_journal tid s"
  have seq: "map jr_seq ?rs = [1 ..< Suc (length ?rs)]" using assms(1) by (simp add: journal_numbered_def del: upt_Suc)
  have "journal_tail tid n s = drop (length ?rs - n) (map (\<lambda>r. journal_line (jr_seq r) (jr_line r)) ?rs)"
    by (simp add: journal_tail_def drop_numbered [OF seq] drop_map)
  then have t: "journal_tail tid n s =
      map (\<lambda>(k, l). journal_line k l) (map (\<lambda>r. (jr_seq r, jr_line r)) (drop (length ?rs - n) ?rs))"
    by (simp add: drop_map)
  have "?rs \<noteq> []" using assms(2) by (auto simp: journal_lines_def)
  then have d: "drop (length ?rs - n) ?rs \<noteq> []" using assms(3) by (cases ?rs) auto
  then have "jr_line (last (drop (length ?rs - n) ?rs)) = ''final: '' @ answer"
    using assms(2) \<open>?rs \<noteq> []\<close> by (simp add: journal_lines_def last_map [symmetric])
  then obtain xs where "map jr_line (drop (length ?rs - n) ?rs) = xs @ [''final: '' @ answer]"
    using d by (metis (no_types) append_butlast_last_id last_map map_is_Nil_conv)
  then have "rev (map snd (map (\<lambda>r. (jr_seq r, jr_line r)) (drop (length ?rs - n) ?rs))) =
      (''final: '' @ answer) # rev xs" by (simp add: comp_def)
  moreover have "strip_prefix ''final: '' (''final: '' @ answer) = Some answer" by (simp add: strip_prefix_def)
  ultimately show ?thesis unfolding t final_answer_is_last by simp
qed

section \<open>A turn in progress\<close>

lemma update_frame [simp]:
  "s_jobs (update_thread i f s) = s_jobs s" "s_journal (update_thread i f s) = s_journal s"
  "s_journal (update_job i g s) = s_journal s"
  by (simp_all add: update_thread_def update_job_def)

text \<open>What is known of a turn after its acceptance, with the lines journalled so far.\<close>

definition in_progress :: "string \<Rightarrow> string \<Rightarrow> string \<Rightarrow> audit_log \<Rightarrow> string list \<Rightarrow> scheduler \<Rightarrow> bool" where
  "in_progress tid job turn l ls S \<longleftrightarrow>
    (\<exists>t. turn_of tid S = Some t \<and> if_job_id t = job) \<and>
    (\<exists>th. thread_get tid (sd_store S) = Some th \<and> t_state th = TRunning \<and> t_engine_turn_id th = Some turn) \<and>
    job_accepted job (sd_store S) \<and> journal_numbered (sd_store S) \<and> journal_lines tid (sd_store S) = ls \<and>
    sd_log S = l"

lemma turn_of_change [simp]:
  "turn_of tid (change_turn tid f S) = map_option f (turn_of tid S)"
  "sd_core (change_turn tid f S) = sd_core S"
proof -
  have "map_of (map (\<lambda>(i, t). (i, if i = tid then f t else t)) xs) tid = map_option f (map_of xs tid)" for xs
    by (induction xs) auto
  then show "turn_of tid (change_turn tid f S) = map_option f (turn_of tid S)"
    by (simp add: turn_of_def change_turn_def)
qed (simp add: change_turn_def)

lemma mark_accepted_frame:
  assumes "job_get i s = Some j"
  shows "job_mark_accepted now i turn s = (Inr (), snd (job_mark_accepted now i turn s)) \<and>
    s_threads (snd (job_mark_accepted now i turn s)) = s_threads s \<and>
    s_journal (snd (job_mark_accepted now i turn s)) = s_journal s \<and>
    job_accepted i (snd (job_mark_accepted now i turn s))"
  using assms by (simp add: job_mark_accepted_def set_job_def update_job_def job_accepted_def)
    (simp add: job_get_update [unfolded update_job_def])

lemma drain_accepted:
  assumes "turn_of tid S = Some t" "thread_get tid (sd_store S) = Some th" "t_state th = TRunning"
    "job_get (if_job_id t) (sd_store S) = Some j" "journal_numbered (sd_store S)"
  shows "\<exists>T. drain_event now tid cell (Accepted turn) S = (Inr False, T) \<and> sd_supervisor T = sd_supervisor S \<and>
    in_progress tid (if_job_id t) turn (sd_log S) (journal_lines tid (sd_store S) @ [''accepted: '' @ turn]) T"
proof -
  define s1 where "s1 = snd (job_mark_accepted now (if_job_id t) turn (sd_store S))"
  have m: "job_mark_accepted now (if_job_id t) turn (sd_store S) = (Inr (), s1)" "s_threads s1 = s_threads (sd_store S)"
    "s_journal s1 = s_journal (sd_store S)" "job_accepted (if_job_id t) s1"
    using mark_accepted_frame [OF assms(4), of now turn] by (simp_all add: s1_def)
  have g1: "thread_get tid s1 = Some th" using assms(2) m(2) by (simp add: thread_get_def)
  define s2 where "s2 = snd (thread_set_engine_ids now tid None None (Some turn) None s1)"
  have i: "thread_set_engine_ids now tid None None (Some turn) None s1 = (Inr (), s2)" "s_jobs s2 = s_jobs s1"
    "s_journal s2 = s_journal s1" using g1 by (simp_all add: s2_def thread_set_engine_ids_def update_thread_def)
  have g2: "\<exists>th'. thread_get tid s2 = Some th' \<and> t_state th' = TRunning \<and> t_engine_turn_id th' = Some turn"
    using g1 assms(3) by (simp add: s2_def thread_set_engine_ids_def thread_get_update coalesce_def)
  define s3 where "s3 = snd (journal_append now tid (''accepted: '' @ turn) s2)"
  define f :: "in_flight_turn \<Rightarrow> in_flight_turn" where
    "f = (\<lambda>t. t\<lparr>if_engine_turn_id := Some turn, if_accepted := True\<rparr>)"
  define T where "T = change_turn tid f (S\<lparr>sd_core := (s3, sd_log S)\<rparr>)"
  have "drain_event now tid cell (Accepted turn) S = (Inr False, T)"
    unfolding drain_event.simps assms(1) option.case with_store_def m(1) bind_res_simps i(1) write_journal_def s3_def [symmetric]
    by (simp add: T_def f_def)
  moreover have "in_progress tid (if_job_id t) turn (sd_log S) (journal_lines tid (sd_store S) @ [''accepted: '' @ turn]) T"
  proof -
    have tn: "turn_of tid T = Some (f t)" using assms(1) by (simp add: T_def turn_of_def [of tid "S\<lparr>sd_core := c\<rparr>" for c] turn_of_def [of tid S])
    have sT: "sd_store T = s3" "sd_log T = sd_log S" by (simp_all add: T_def)
    have "thread_get tid s3 = thread_get tid s2" "job_accepted (if_job_id t) s3"
      using m(4) i(2) by (simp_all add: s3_def thread_get_def job_accepted_def job_get_def)
    moreover have "journal_numbered s3"
      unfolding s3_def using journal_cong(2) [of s2 "sd_store S"] i(3) m(3) assms(5) by (intro append_numbered) simp
    moreover have "journal_lines tid s3 = journal_lines tid (sd_store S) @ [''accepted: '' @ turn]"
      unfolding s3_def append_line using journal_cong(1) [of s2 "sd_store S" tid] i(3) m(3) by simp
    ultimately show ?thesis unfolding in_progress_def sT tn using g2 by (simp add: f_def)
  qed
  ultimately show ?thesis by (intro exI [of _ T]) (simp add: T_def change_turn_def)
qed

lemma drain_note:
  assumes "in_progress tid job turn l ls S"
  shows "\<exists>T. drain_event now tid cell (Note line) S = (Inr False, T) \<and> sd_supervisor T = sd_supervisor S \<and>
    in_progress tid job turn l (ls @ [line]) T"
  using assms append_numbered [of "sd_store S" now tid line]
  by (simp add: with_store_def write_journal_def in_progress_def turn_of_def job_accepted_def job_get_def thread_get_def)

lemma persist_ids_progress:
  assumes "in_progress tid job turn l ls S"
  shows "\<exists>T. persist_engine_ids now tid cell S = (Inr (), T) \<and> in_progress tid job turn l ls T"
proof (cases "sup_session_id cell (sd_supervisor S) = None \<and> sup_thread_id cell (sd_supervisor S) = None")
  case False
  from assms obtain th where th: "thread_get tid (sd_store S) = Some th" "t_state th = TRunning" "t_engine_turn_id th = Some turn"
    by (auto simp: in_progress_def)
  have p: "persist_engine_ids now tid cell S = with_store (thread_set_engine_ids now tid None
      (sup_thread_id cell (sd_supervisor S)) None (sup_session_id cell (sd_supervisor S))) S"
    using False by (auto simp: persist_engine_ids_def Let_def)
  define s where "s = snd (thread_set_engine_ids now tid None
      (sup_thread_id cell (sd_supervisor S)) None (sup_session_id cell (sd_supervisor S)) (sd_store S))"
  have e: "thread_set_engine_ids now tid None (sup_thread_id cell (sd_supervisor S)) None
      (sup_session_id cell (sd_supervisor S)) (sd_store S) = (Inr (), s)"
    "s_jobs s = s_jobs (sd_store S)" "s_journal s = s_journal (sd_store S)"
    "\<exists>th'. thread_get tid s = Some th' \<and> t_state th' = TRunning \<and> t_engine_turn_id th' = Some turn"
    using th by (simp_all add: s_def thread_set_engine_ids_def thread_get_update coalesce_def)
  have "persist_engine_ids now tid cell S = (Inr (), S\<lparr>sd_core := (s, sd_log S)\<rparr>)"
    unfolding p by (simp add: with_store_def e)
  moreover have "in_progress tid job turn l ls (S\<lparr>sd_core := (s, sd_log S)\<rparr>)"
    using assms e journal_cong [of s "sd_store S"] by (simp add: in_progress_def turn_of_def job_accepted_def job_get_def)
  ultimately show ?thesis by blast
qed (use assms in \<open>simp add: persist_engine_ids_def\<close>)

text \<open>What is left of a completed turn.\<close>

definition completed :: "string \<Rightarrow> string \<Rightarrow> string \<Rightarrow> string list \<Rightarrow> scheduler \<Rightarrow> bool" where
  "completed tid job turn ls S \<longleftrightarrow>
    turn_of tid S = None \<and>
    (\<exists>th. thread_get tid (sd_store S) = Some th \<and> t_state th = TIdle \<and> t_engine_turn_id th = Some turn) \<and>
    (\<exists>j. job_get job (sd_store S) = Some j \<and> j_state j = JFinished \<and> j_accepted_by_engine_at j \<noteq> None) \<and>
    journal_numbered (sd_store S) \<and> journal_lines tid (sd_store S) = ls"

lemma turn_of_drop [simp]: "turn_of tid (drop_turn tid S) = None" "sd_core (drop_turn tid S) = sd_core S"
  by (auto simp: turn_of_def drop_turn_def map_of_eq_None_iff)

lemma drain_final:
  assumes "in_progress tid job turn l ls S" "al_faults l = []"
  shows "\<exists>T. drain_event now tid cell (Final answer) S = (Inr True, T) \<and>
    completed tid job turn (ls @ [''final: '' @ answer]) T \<and>
    al_events (sd_log T) = al_events l @ [engine_draft ''cell_turn_completed'' (Some tid) cell ''completed'' None]"
proof -
  from assms(1) obtain t where t: "turn_of tid S = Some t" "if_job_id t = job" by (auto simp: in_progress_def)
  obtain S1 where S1: "persist_engine_ids now tid cell S = (Inr (), S1)" "in_progress tid job turn l ls S1"
    using persist_ids_progress [OF assms(1)] by blast
  from S1(2) obtain th j where th: "thread_get tid (sd_store S1) = Some th" "t_state th = TRunning" "t_engine_turn_id th = Some turn"
    and j: "job_get job (sd_store S1) = Some j" "j_accepted_by_engine_at j \<noteq> None"
    and jn: "journal_numbered (sd_store S1)" "journal_lines tid (sd_store S1) = ls" and l: "sd_log S1 = l"
    by (auto simp: in_progress_def job_accepted_def)
  define s2 where "s2 = snd (journal_append now tid (''final: '' @ answer) (sd_store S1))"
  have g2: "job_get job s2 = Some j" "thread_get tid s2 = Some th"
    using j(1) th(1) by (simp_all add: s2_def job_get_def thread_get_def)
  have j2: "journal_numbered s2" "journal_lines tid s2 = ls @ [''final: '' @ answer]"
    using jn append_numbered [of "sd_store S1"] by (simp_all add: s2_def)
  define s3 where "s3 = snd (job_finish job s2)"
  have f: "job_finish job s2 = (Inr (), s3)" "thread_get tid s3 = Some th"
    "\<exists>k. job_get job s3 = Some k \<and> j_state k = JFinished \<and> j_accepted_by_engine_at k \<noteq> None"
    "s_journal s3 = s_journal s2"
    using g2 j(2) by (simp_all add: s3_def job_finish_def set_job_def job_get_update thread_get_def)
  define s4 where "s4 = snd (thread_transition now tid TIdle s3)"
  have m: "thread_transition now tid TIdle s3 = (Inr (), s4)" "s_jobs s4 = s_jobs s3" "s_journal s4 = s_journal s3"
    "\<exists>th'. thread_get tid s4 = Some th' \<and> t_state th' = TIdle \<and> t_engine_turn_id th' = Some turn"
    using f(2) th(2,3) by (simp_all add: s4_def thread_transition_def thread_get_update)
  let ?dr = "engine_draft ''cell_turn_completed'' (Some tid) cell ''completed'' None"
  define l' where "l' = l\<lparr>al_events := al_events l @ [?dr], al_faults := tl (al_faults l)\<rparr>"
  have a: "audit_to ?dr (s4, l) = (Inr (), (s4, l'))"
    using assms(2) by (simp add: audit_to_def audit_emit_def assert_kind_def engine_draft_def AUDIT_KINDS_def l'_def)
  define T where "T = drop_turn tid (S1\<lparr>sd_core := (s4, l')\<rparr>)"
  have core: "sd_core S1 = (sd_store S1, l)" using l by (metis prod.collapse)
  have "drain_event now tid cell (Final answer) S = (Inr True, T)"
    unfolding drain_event.simps Let_def t(1) option.map t(2) S1(1) bind_res_simps with_store_def write_journal_def
      s2_def [symmetric] option.case f(1) m(1)
    using l by (simp add: sched_audit_def a T_def)
  moreover have "completed tid job turn (ls @ [''final: '' @ answer]) T"
    using m f(3) j2 journal_cong [of s4 s2] f(4)
    by (simp add: completed_def T_def job_get_def)
  ultimately show ?thesis by (intro exI [of _ T]) (simp add: T_def l'_def)
qed

lemma drain_notes:
  assumes "in_progress tid job turn l ls S" "al_faults l = []"
  shows "\<exists>T. drain_events now tid cell (map Note ns @ Final answer # es) S = (Inr (), T) \<and>
    completed tid job turn (ls @ ns @ [''final: '' @ answer]) T \<and>
    al_events (sd_log T) = al_events l @ [engine_draft ''cell_turn_completed'' (Some tid) cell ''completed'' None]"
  using assms(1)
proof (induction ns arbitrary: S ls)
  case Nil
  obtain T where T: "drain_event now tid cell (Final answer) S = (Inr True, T)"
    "completed tid job turn (ls @ [''final: '' @ answer]) T"
    "al_events (sd_log T) = al_events l @ [engine_draft ''cell_turn_completed'' (Some tid) cell ''completed'' None]"
    using drain_final [OF Nil assms(2)] by blast
  then show ?case unfolding list.map append.simps drain_events.simps T(1) by simp
next
  case (Cons n ns)
  obtain S1 where S1: "drain_event now tid cell (Note n) S = (Inr False, S1)" "in_progress tid job turn l (ls @ [n]) S1"
    using drain_note [OF Cons.prems] by blast
  from Cons.IH [OF S1(2)] show ?case
    unfolding list.map append.simps drain_events.simps S1(1) by simp
qed

lemma turn_completes_aux:
  assumes "turn_of tid S = Some t" "thread_get tid (sd_store S) = Some th" "t_state th = TRunning"
    "job_get (if_job_id t) (sd_store S) = Some j" "journal_numbered (sd_store S)" "al_faults (sd_log S) = []"
    "sup_poll (if_cell t) (sd_supervisor S) = (Accepted turn # map Note ns @ Final answer # es, U)"
  shows "\<exists>T. drain_turn now tid S = (Inr (), T) \<and>
    completed tid (if_job_id t) turn
      (journal_lines tid (sd_store S) @ (''accepted: '' @ turn) # ns @ [''final: '' @ answer]) T \<and>
    al_events (sd_log T) = al_events (sd_log S) @
      [engine_draft ''cell_turn_completed'' (Some tid) (if_cell t) ''completed'' None] \<and>
    (0 < n \<longrightarrow> journal_final_answer (journal_tail tid n (sd_store T)) = Some answer)"
proof -
  let ?S = "S\<lparr>sd_supervisor := U\<rparr>"
  have pre: "turn_of tid ?S = Some t" "thread_get tid (sd_store ?S) = Some th" "job_get (if_job_id t) (sd_store ?S) = Some j"
    "journal_numbered (sd_store ?S)" using assms by (simp_all add: turn_of_def)
  obtain S1 where S1: "drain_event now tid (if_cell t) (Accepted turn) ?S = (Inr False, S1)"
    "in_progress tid (if_job_id t) turn (sd_log S) (journal_lines tid (sd_store S) @ [''accepted: '' @ turn]) S1"
    using drain_accepted [OF pre(1,2) assms(3) pre(3,4)] by fastforce
  obtain T where T: "drain_events now tid (if_cell t) (map Note ns @ Final answer # es) S1 = (Inr (), T)"
    "completed tid (if_job_id t) turn
      ((journal_lines tid (sd_store S) @ [''accepted: '' @ turn]) @ ns @ [''final: '' @ answer]) T"
    "al_events (sd_log T) = al_events (sd_log S) @ [engine_draft ''cell_turn_completed'' (Some tid) (if_cell t) ''completed'' None]"
    using drain_notes [OF S1(2) assms(6)] by blast
  have "drain_turn now tid S = (Inr (), T)"
    unfolding drain_turn_def assms(1) option.case with_supervisor_def assms(7) prod.case drain_events.simps S1(1)
      bind_res_simps by (simp add: T(1))
  moreover have "journal_final_answer (journal_tail tid n (sd_store T)) = Some answer" if "0 < n"
    using T(2) that by (intro tail_final_answer [where ls =
        "journal_lines tid (sd_store S) @ (''accepted: '' @ turn) # ns"]) (simp_all add: completed_def)
  ultimately show ?thesis using T(2,3) by (intro exI [of _ T]) simp
qed

text \<open>C35: a turn that the engine accepts and completes is recorded as such.  If one poll yields the
  acceptance, any notes and the final answer (and anything after it), and the audit log accepts the
  event, the turn leaves the scheduler, the thread is idle and holds the engine's turn identifier,
  its job is accepted and finished, the journal has gained exactly the acceptance, the notes and the
  answer in their order, one \<open>cell_turn_completed\<close> event was appended, and whoever reads the tail
  of the journal gets exactly the engine's final answer, whatever the notes say.\<close>

theorem turn_completes:
  assumes "turn_of tid S = Some t" "thread_get tid (sd_store S) = Some th" "t_state th = TRunning"
    "job_get (if_job_id t) (sd_store S) = Some j" "journal_numbered (sd_store S)" "al_faults (sd_log S) = []"
    "sup_poll (if_cell t) (sd_supervisor S) = (Accepted turn # map Note ns @ Final answer # es, U)"
  shows "\<exists>T. drain_turn now tid S = (Inr (), T) \<and>
    completed tid (if_job_id t) turn
      (journal_lines tid (sd_store S) @ (''accepted: '' @ turn) # ns @ [''final: '' @ answer]) T \<and>
    al_events (sd_log T) = al_events (sd_log S) @
      [engine_draft ''cell_turn_completed'' (Some tid) (if_cell t) ''completed'' None] \<and>
    (0 < n \<longrightarrow> journal_final_answer (journal_tail tid n (sd_store T)) = Some answer)"
  using assms by (rule turn_completes_aux)

section \<open>An example\<close>

definition example_shell :: engine_shell where
  "example_shell = \<lparr>sh_os = \<lparr>os_spawn = (\<lambda>_. Inl ''no such file''), os_var = (\<lambda>_. None),
     os_read_file = (\<lambda>_. Inl ''no such file''), os_canonicalize = (\<lambda>_. None)\<rparr>,
     sh_quote = (\<lambda>s. s), sh_parse = (\<lambda>_. None)\<rparr>"

definition example_input :: tick_input where
  "example_input = \<lparr>ti_shell = example_shell, ti_now = 0, ti_now_nanos = 0, ti_order = (\<lambda>xs. xs)\<rparr>"

text \<open>A scheduler that has just given a task to a fake engine.\<close>

definition example_turn :: in_flight_turn where
  "example_turn = \<lparr>if_job_id = ''j1'', if_cell = ''w'', if_started_at_nanos = 0, if_engine_turn_id = None,
     if_accepted = False\<rparr>"

definition example_job :: cell_job where
  "example_job = queued_job\<lparr>j_crewd_thread_id := ''th'', j_state := JStarted\<rparr>"

definition example_busy :: scheduler where
  "example_busy = (scheduler_new (\<lambda>_. None) (empty_store\<lparr>s_threads := [example_thread\<lparr>t_state := TRunning\<rparr>], s_jobs := [example_job]\<rparr>,
       \<lparr>al_events = [], al_faults = []\<rparr>))
     \<lparr>sd_supervisor := put_engine ''w'' (Fake, EFake (snd (fake_start_turn ''p'' fake_new))) supervisor_new,
      sd_in_flight := [(''th'', example_turn)]\<rparr>"

lemma example_busy_simps:
  "turn_of ''th'' example_busy = Some example_turn" "if_job_id example_turn = ''j1''" "if_cell example_turn = ''w''"
  "thread_get ''th'' (sd_store example_busy) = Some (example_thread\<lparr>t_state := TRunning\<rparr>)"
  "job_get ''j1'' (sd_store example_busy) = Some example_job" "sd_log example_busy = \<lparr>al_events = [], al_faults = []\<rparr>"
  "journal_lines ''th'' (sd_store example_busy) = []" "journal_numbered (sd_store example_busy)"
  by (simp_all add: example_busy_def turn_of_def example_turn_def scheduler_new_def thread_get_def example_thread_def
      job_get_def example_job_def queued_job_def journal_lines_def thread_journal_def journal_numbered_def)

lemma dec_one: "dec (Suc 0) = ''1''"
  by code_simp

lemma example_poll:
  "fst (sup_poll ''w'' (sd_supervisor example_busy)) = Accepted ''fake-turn-1'' # map Note [] @ Final ''done: p'' # []"
  by (simp add: example_busy_def sup_poll_def on_engine_def put_engine_def supervisor_new_def fake_start_turn_def
      fake_new_def fake_poll_events_def Let_def dec_one)

theorem turn_completes_witness:
  "\<exists>T. drain_turn 0 ''th'' example_busy = (Inr (), T) \<and>
     completed ''th'' ''j1'' ''fake-turn-1'' [''accepted: fake-turn-1'', ''final: done: p''] T \<and>
     journal_final_answer (journal_tail ''th'' 50 (sd_store T)) = Some ''done: p''"
proof -
  obtain U where U: "sup_poll (if_cell example_turn) (sd_supervisor example_busy) =
      (Accepted ''fake-turn-1'' # map Note [] @ Final ''done: p'' # [], U)"
    using example_poll unfolding example_busy_simps by (metis prod.collapse)
  have r: "t_state (example_thread\<lparr>t_state := TRunning\<rparr>) = TRunning" "al_faults (sd_log example_busy) = []"
    by (simp_all add: example_busy_simps)
  from turn_completes [OF example_busy_simps(1,4) r(1) _ example_busy_simps(8) r(2) U, of example_job 0 50]
  show ?thesis by (auto simp: example_busy_simps)
qed

theorem tick_refines_turns_witness:
  "turn_edits example_busy (snd (sched_tick example_input example_busy))"
proof -
  have "jobs_ok (sd_store example_busy)"
    by (simp add: jobs_ok_def example_busy_def scheduler_new_def)
  from tick_refines_turns [OF this] show ?thesis .
qed

text \<open>The same scheduler after the engine has accepted the job.\<close>

definition example_accepted :: scheduler where
  "example_accepted = example_busy\<lparr>sd_core := (empty_store\<lparr>s_threads := [example_thread\<lparr>t_state := TRunning\<rparr>],
     s_jobs := [example_job\<lparr>j_accepted_by_engine_at := Some (now_rfc3339 0)\<rparr>]\<rparr>, \<lparr>al_events = [], al_faults = []\<rparr>)\<rparr>"

lemma tick_effect_witness:
  "\<exists>k. job_get ''j1'' (sd_store (snd (sched_tick example_input example_accepted))) = Some k \<and> settled k"
proof -
  let ?j = "example_job\<lparr>j_accepted_by_engine_at := Some (now_rfc3339 0)\<rparr>"
  have ok: "jobs_ok (sd_store example_accepted)" by (simp add: jobs_ok_def example_accepted_def)
  obtain r T where T: "sched_tick example_input example_accepted = (r, T)" by (metis prod.exhaust)
  have "job_get ''j1'' (sd_store example_accepted) = Some ?j" "settled ?j"
    by (simp_all add: example_accepted_def job_get_def example_job_def queued_job_def settled_def)
  then show ?thesis using tick_effect [OF ok T] unfolding T snd_conv by blast
qed

end
