(* ===== verification/Client.thy ===== *)
theory Client
  imports Handlers Engines
begin

text \<open>
  The command line client (\<open>crates/crew\<close>): the connection to the daemon and the operator commands
  (\<open>ops.rs\<close>), the MCP shim of a cell (\<open>mcp_shim.rs\<close>) and the choice of the command (\<open>main.rs\<close>).  The
  socket is what arrives in chunks and what was sent; the JSON library is a parameter.
\<close>

section \<open>The connection\<close>

record client_error =
  ce_code :: string
  ce_message :: string

definition internal_error :: "string \<Rightarrow> client_error" where
  "internal_error msg = \<lparr>ce_code = ''E_INTERNAL'', ce_message = msg\<rparr>"

definition MAX_FRAME :: nat where "MAX_FRAME = 192 * 1024"

text \<open>
  The socket: the chunks the next reads give (a read error has its message, nothing left is the end
  of the stream), the error of the next write, and the requests sent so far.
\<close>

record socket =
  so_in :: "(string + string) list"
  so_broken :: "string option"
  so_sent :: "wire_request list"

text \<open>A response as the client reads it, or the message of the JSON library.\<close>

record client_codec =
  cc_response :: "string \<Rightarrow> string + (json option \<times> client_error option)"
  cc_value :: "string \<Rightarrow> json option"
  cc_print :: "json \<Rightarrow> string"
  cc_pretty :: "json \<Rightarrow> string"

type_synonym 'a client_res = "client_error + 'a"

fun client_read_line ::
  "string \<Rightarrow> (string + string) list \<Rightarrow> string client_res \<times> (string + string) list" where
  "client_read_line buf [] = (Inr buf, [])"
| "client_read_line buf (Inl msg # cs) = (Inl (internal_error msg), cs)"
| "client_read_line buf (Inr c # cs) =
    (if c = [] then (Inr buf, cs)
     else if NL \<in> set c then (Inr (buf @ takeWhile (\<lambda>x. x \<noteq> NL) c), cs)
     else if MAX_FRAME < length (buf @ c) then (Inl (internal_error ''frame too large''), cs)
     else client_read_line (buf @ c) cs)"

text \<open>One request and its response.\<close>

definition exchange :: "client_codec \<Rightarrow> wire_request \<Rightarrow> socket \<Rightarrow> json option client_res \<times> socket" where
  "exchange K req so =
    (case so_broken so of
      Some msg \<Rightarrow> (Inl (internal_error msg), so)
    | None \<Rightarrow>
        let so = so\<lparr>so_sent := so_sent so @ [req]\<rparr> in
        (case client_read_line [] (so_in so) of
          (Inl e, cs) \<Rightarrow> (Inl e, so\<lparr>so_in := cs\<rparr>)
        | (Inr raw, cs) \<Rightarrow>
            (case cc_response K raw of
              Inl msg \<Rightarrow> (Inl (internal_error msg), so\<lparr>so_in := cs\<rparr>)
            | Inr (_, Some e) \<Rightarrow> (Inl e, so\<lparr>so_in := cs\<rparr>)
            | Inr (v, None) \<Rightarrow> (Inr v, so\<lparr>so_in := cs\<rparr>))))"

definition ops_handshake :: "string \<Rightarrow> string \<Rightarrow> wire_request" where
  "ops_handshake cell token =
    \<lparr>wq_id = 1, wq_method = ''handshake'',
     wq_params = JObj [(''cell_id'', JStr cell), (''token'', JStr token), (''spec_version'', JStr SPEC_VERSION)]\<rparr>"

text \<open>\<open>dial\<close> opens the socket at a path.\<close>

definition ops_connect ::
  "client_codec \<Rightarrow> (string \<Rightarrow> string + socket) \<Rightarrow> string \<Rightarrow> string \<Rightarrow> string \<Rightarrow> socket client_res" where
  "ops_connect K dial runtime_dir cell token =
    (case dial (path_join runtime_dir ''crewd.sock'') of
      Inl msg \<Rightarrow> Inl (internal_error msg)
    | Inr so \<Rightarrow>
        (case exchange K (ops_handshake cell token) so of
          (Inl e, _) \<Rightarrow> Inl e
        | (Inr _, so) \<Rightarrow> Inr so))"

definition ops_call :: "client_codec \<Rightarrow> string \<Rightarrow> json \<Rightarrow> socket \<Rightarrow> json client_res \<times> socket" where
  "ops_call K method params so =
    (case exchange K \<lparr>wq_id = 2, wq_method = method, wq_params = params\<rparr> so of
      (Inl e, so) \<Rightarrow> (Inl e, so)
    | (Inr v, so) \<Rightarrow> (Inr (or_value JNull v), so))"

section \<open>Operator commands\<close>

definition error_line :: "client_error \<Rightarrow> string" where
  "error_line e = ce_code e @ '': '' @ ce_message e"

text \<open>Connect, call once, and show the result.\<close>

definition operate ::
  "client_codec \<Rightarrow> (string \<Rightarrow> string + socket) \<Rightarrow> string \<Rightarrow> string \<Rightarrow> string \<Rightarrow> string \<Rightarrow> json \<Rightarrow> string + json" where
  "operate K dial runtime_dir cell token method params =
    (case ops_connect K dial runtime_dir cell token of
      Inl e \<Rightarrow> Inl (error_line e)
    | Inr so \<Rightarrow>
        (case fst (ops_call K method params so) of
          Inl e \<Rightarrow> Inl (error_line e)
        | Inr v \<Rightarrow> Inr v))"

definition verify_line :: "json \<Rightarrow> string + string" where
  "verify_line res =
    (let status = or_value [] (str_at ''status'' res) in
     if status = ''ok'' then Inr (''OK '' @ or_value [] (str_at ''head_hash'' res))
     else if status = ''broken'' then Inr (''BROKEN at '' @ or_value [] (str_at ''event_id'' res))
     else Inl (''unexpected op_audit_verify status: '' @ status))"

definition ops_audit_verify ::
  "client_codec \<Rightarrow> (string \<Rightarrow> string + socket) \<Rightarrow> string \<Rightarrow> string \<Rightarrow> string \<Rightarrow> string + string" where
  "ops_audit_verify K dial runtime_dir cell token =
    and_then (operate K dial runtime_dir cell token ''op_audit_verify'' (JObj [])) verify_line"

definition ops_status ::
  "client_codec \<Rightarrow> (string \<Rightarrow> string + socket) \<Rightarrow> string \<Rightarrow> string \<Rightarrow> string \<Rightarrow> string + string" where
  "ops_status K dial runtime_dir cell token =
    and_then (operate K dial runtime_dir cell token ''op_status'' (JObj [])) (\<lambda>v. Inr (cc_pretty K v))"

definition ops_inspect ::
  "client_codec \<Rightarrow> (string \<Rightarrow> string + socket) \<Rightarrow> string \<Rightarrow> string \<Rightarrow> string \<Rightarrow> string \<Rightarrow> string + string" where
  "ops_inspect K dial runtime_dir cell token i =
    and_then (operate K dial runtime_dir cell token ''op_inspect'' (JObj [(''id'', JStr i)]))
      (\<lambda>v. Inr (cc_pretty K v))"

section \<open>The tools of the shim\<close>

definition PROTOCOL_VERSION :: string where "PROTOCOL_VERSION = ''2024-11-05''"

definition WORKER_HIDDEN :: "string list" where
  "WORKER_HIDDEN = [''cell_spawn'', ''cell_send_task'', ''cell_cancel'']"

definition is_worker_hidden :: "string \<Rightarrow> bool" where
  "is_worker_hidden name \<longleftrightarrow> name \<in> set WORKER_HIDDEN"

definition schema_of :: "string \<Rightarrow> json" where
  "schema_of ty = JObj [(''type'', JStr ty)]"

definition enum_of :: "string list \<Rightarrow> json" where
  "enum_of xs = JObj [(''type'', JStr ''string''), (''enum'', JArr (map JStr xs))]"

text \<open>A descriptor: name, description, properties, required properties and the read-only hint.\<close>

definition tool ::
  "string \<Rightarrow> string \<Rightarrow> (string \<times> json) list \<Rightarrow> string list option \<Rightarrow> bool \<Rightarrow> json" where
  "tool name descr props required read_only =
    JObj ([(''name'', JStr name), (''description'', JStr descr),
           (''inputSchema'', JObj ([(''type'', JStr ''object''), (''properties'', JObj props)] @
              (case required of None \<Rightarrow> [] | Some rs \<Rightarrow> [(''required'', JArr (map JStr rs))])))] @
      (if read_only then [(''annotations'', JObj [(''readOnlyHint'', JBool True)])] else []))"

definition bus_tools :: "json list" where
  "bus_tools =
    (let s = schema_of ''string''; num = schema_of ''integer'';
         arr_str = JObj [(''type'', JStr ''array''), (''items'', schema_of ''string'')] in
     [tool ''cell_send'' ''Send a fire-and-forget message to one cell.''
        [(''to_cell'', s), (''body'', s), (''file_refs'', arr_str), (''idempotency_key'', s),
         (''ttl_seconds'', num), (''msg_type'', s)] (Some [''to_cell'', ''body'']) False,
      tool ''cell_ask'' ''Open an ask ticket (non-blocking) expecting one reply.''
        [(''to_cell'', s), (''body'', s), (''file_refs'', arr_str), (''idempotency_key'', s),
         (''ttl_seconds'', num)] (Some [''to_cell'', ''body'']) False,
      tool ''cell_await'' ''Long-poll one ask reply (read-only).''
        [(''ask_id'', s), (''timeout_ms'', num)] (Some [''ask_id'']) True,
      tool ''cell_reply'' ''Post the single reply to an ask addressed to this cell.''
        [(''ask_id'', s), (''body'', s), (''file_refs'', arr_str), (''idempotency_key'', s)]
        (Some [''ask_id'', ''body'']) False,
      tool ''cell_inbox'' ''Pull pending messages addressed to this cell (read-only).''
        [(''limit'', num)] None True,
      tool ''cell_list'' ''List registered cells + fabric section (read-only).'' [] None True,
      tool ''cell_broadcast'' ''Fan-out to permitted recipients (explicit broadcast grant).''
        [(''body'', s), (''file_refs'', arr_str), (''idempotency_key'', s), (''ttl_seconds'', num),
         (''msg_type'', s)] (Some [''body'']) False,
      tool ''cell_status'' ''Thread state + jobs + engine_proc_state (read-only).''
        [(''crewd_thread_id'', s)] None True,
      tool ''cell_result'' ''Structured result of a thread, identity fields separate (read-only).''
        [(''crewd_thread_id'', s)] (Some [''crewd_thread_id'']) True])"

definition spawn_tools :: "json list" where
  "spawn_tools =
    (let s = schema_of ''string'';
         profile = JObj [(''type'', JStr ''string''), (''description'', JStr (''engine profile name defined in crewd.toml '' @
           ''[profile.<name>], or '' @ [CHR 0x22] @ ''max'' @ [CHR 0x22] @ '' for the host default credentials''))];
         mode = JObj [(''type'', JStr ''string''), (''enum'', JArr [JStr ''background'', JStr ''wait'']),
                      (''default'', JStr ''background'')] in
     [tool ''cell_spawn'' ''Spawn/launch a cell worker thread (engine + profile + task).''
        [(''cell'', s), (''engine'', enum_of [''codex'', ''claude'', ''pi'']), (''model'', s), (''profile'', profile),
         (''cwd'', s), (''worktree'', s), (''task'', s), (''idempotency_key'', s), (''mode'', mode)]
        (Some [''task'', ''idempotency_key'']) False,
      tool ''cell_send_task'' ''Send a follow-up task to an existing thread.''
        [(''crewd_thread_id'', s), (''message'', s), (''idempotency_key'', s)]
        (Some [''crewd_thread_id'', ''message'']) False,
      tool ''cell_cancel'' ''Cancel in-flight jobs + interrupt a thread.''
        [(''crewd_thread_id'', s)] (Some [''crewd_thread_id'']) False])"

definition tools_list :: "bool \<Rightarrow> json list" where
  "tools_list worker_mode = bus_tools @ (if worker_mode then [] else spawn_tools)"

section \<open>The shim\<close>

definition rpc_result :: "json \<Rightarrow> json \<Rightarrow> json" where
  "rpc_result i v = JObj [(''jsonrpc'', JStr ''2.0''), (''id'', i), (''result'', v)]"

definition not_found :: "json \<Rightarrow> string \<Rightarrow> json" where
  "not_found i method =
    JObj [(''jsonrpc'', JStr ''2.0''), (''id'', i),
          (''error'', JObj [(''code'', JInt (-32601)), (''message'', JStr (''method not found: '' @ method))])]"

definition tool_text :: "json \<Rightarrow> string \<Rightarrow> bool \<Rightarrow> json" where
  "tool_text i t is_error =
    rpc_result i (JObj [(''content'', JArr [JObj [(''type'', JStr ''text''), (''text'', JStr t)]]),
                        (''isError'', JBool is_error)])"

definition tool_error :: "client_codec \<Rightarrow> json \<Rightarrow> client_error \<Rightarrow> json" where
  "tool_error K i e =
    tool_text i (cc_print K (JObj [(''code'', JStr (ce_code e)), (''message'', JStr (ce_message e))])) True"

definition handle_tools_call :: "client_codec \<Rightarrow> bool \<Rightarrow> json \<Rightarrow> json \<Rightarrow> socket \<Rightarrow> json \<times> socket" where
  "handle_tools_call K worker_mode i params so =
    (let name = or_value [] (str_at ''name'' params) in
     if worker_mode \<and> is_worker_hidden name then (not_found i name, so)
     else let args = or_value (JObj []) (jget ''arguments'' params) in
       if jget ''from_cell'' args \<noteq> None
       then (tool_error K i (internal_error
               ''from_cell is daemon-derived and must not be supplied (SPEC I3.2)''), so)
       else case ops_call K name args so of
         (Inr v, so) \<Rightarrow> (tool_text i (cc_print K v) False, so)
       | (Inl e, so) \<Rightarrow> (tool_error K i e, so))"

text \<open>One request of the client; a notification gets no response.\<close>

definition shim_request :: "client_codec \<Rightarrow> bool \<Rightarrow> json \<Rightarrow> socket \<Rightarrow> json option \<times> socket" where
  "shim_request K worker_mode req so =
    (let i = jget ''id'' req; method = or_value [] (str_at ''method'' req);
         params = or_value JNull (jget ''params'' req); null_id = or_value JNull i in
     if method = ''initialize'' then
       (Some (rpc_result null_id (JObj [(''protocolVersion'', JStr PROTOCOL_VERSION),
          (''capabilities'', JObj [(''tools'', JObj [])]),
          (''serverInfo'', JObj [(''name'', JStr ''crew-mcp''), (''version'', JStr ''0.1'')])])), so)
     else if method = ''tools/list'' then
       (Some (rpc_result null_id (JObj [(''tools'', JArr (tools_list worker_mode))])), so)
     else if method = ''tools/call'' then
       (case i of
         None \<Rightarrow> (None, so)
       | Some v \<Rightarrow> (case handle_tools_call K worker_mode v params so of (r, so) \<Rightarrow> (Some r, so)))
     else (map_option (\<lambda>v. not_found v method) i, so))"

definition trim_end :: "string \<Rightarrow> string" where
  "trim_end s = concat (rev (dropWhile (\<lambda>c. c \<in> set white_space) (rev (utf8_chars s))))"

text \<open>The lines of the client until it closes its end; a malformed line is skipped.\<close>

fun shim_loop :: "client_codec \<Rightarrow> bool \<Rightarrow> string list \<Rightarrow> socket \<Rightarrow> json list \<times> socket" where
  "shim_loop K worker_mode [] so = ([], so)"
| "shim_loop K worker_mode (l # ls) so =
    (case cc_value K (trim_end l) of
      None \<Rightarrow> shim_loop K worker_mode ls so
    | Some req \<Rightarrow>
       (case shim_request K worker_mode req so of
         (r, so) \<Rightarrow> (case shim_loop K worker_mode ls so of
            (rs, so) \<Rightarrow> ((case r of None \<Rightarrow> rs | Some x \<Rightarrow> x # rs), so))))"

definition shim_serve ::
  "client_codec \<Rightarrow> (string \<Rightarrow> string + socket) \<Rightarrow> string \<Rightarrow> string \<Rightarrow> string \<Rightarrow> bool \<Rightarrow> string list
    \<Rightarrow> string + json list \<times> socket" where
  "shim_serve K dial runtime_dir cell token worker_mode ls =
    (case ops_connect K dial runtime_dir cell token of
      Inl e \<Rightarrow> Inl (error_line e)
    | Inr so \<Rightarrow> Inr (shim_loop K worker_mode ls so))"

section \<open>The command line\<close>

datatype cmd =
  Status string string string | Inspect string string string string | AuditVerify string string string |
  Mcp string string string bool

definition read_token :: "(string \<Rightarrow> string + string) \<Rightarrow> string \<Rightarrow> string + string" where
  "read_token read_file path =
    (case read_file path of Inl msg \<Rightarrow> Inl (''read token: '' @ msg) | Inr t \<Rightarrow> Inr (str_trim t))"

text \<open>The lines a command prints, or its error message.\<close>

fun run_cmd ::
  "client_codec \<Rightarrow> (string \<Rightarrow> string + socket) \<Rightarrow> (string \<Rightarrow> string + string) \<Rightarrow> string list \<Rightarrow> cmd
    \<Rightarrow> string + string list" where
  "run_cmd K dial read_file ls (Mcp dir cell file worker_mode) =
    and_then (read_token read_file file) (\<lambda>t.
    and_then (shim_serve K dial dir cell t worker_mode ls) (\<lambda>(rs, _). Inr (map (cc_print K) rs)))"
| "run_cmd K dial read_file ls (Status dir cell file) =
    and_then (read_token read_file file) (\<lambda>t. and_then (ops_status K dial dir cell t) (\<lambda>x. Inr [x]))"
| "run_cmd K dial read_file ls (Inspect i dir cell file) =
    and_then (read_token read_file file) (\<lambda>t. and_then (ops_inspect K dial dir cell t i) (\<lambda>x. Inr [x]))"
| "run_cmd K dial read_file ls (AuditVerify dir cell file) =
    and_then (read_token read_file file) (\<lambda>t. and_then (ops_audit_verify K dial dir cell t) (\<lambda>x. Inr [x]))"

end
