(* ===== verification/ClientLaws.thy ===== *)
theory ClientLaws
  imports Client
begin

text \<open>
  What the client promises: the shim of a worker never asks for a spawn and no shim forwards a
  sender, a response is read whatever its chunks, and what happens when it is too long.
\<close>

section \<open>What a shim can send\<close>

definition may_forward :: "bool \<Rightarrow> wire_request \<Rightarrow> bool" where
  "may_forward worker_mode q \<longleftrightarrow> wq_id q = 2 \<and> jget ''from_cell'' (wq_params q) = None \<and>
    (worker_mode \<longrightarrow> wq_method q \<notin> set WORKER_HIDDEN)"

definition forwards :: "bool \<Rightarrow> socket \<Rightarrow> socket \<Rightarrow> bool" where
  "forwards worker_mode so so' \<longleftrightarrow>
    (\<exists>qs. so_sent so' = so_sent so @ qs \<and> list_all (may_forward worker_mode) qs)"

lemma forwards_refl [simp]: "forwards w so so"
  by (simp add: forwards_def)

lemma forwards_trans: "forwards w a b \<Longrightarrow> forwards w b c \<Longrightarrow> forwards w a c"
  by (auto simp: forwards_def)

lemma exchange_sent: "exchange K q so = (r, so') \<Longrightarrow> so_sent so' = so_sent so \<or> so_sent so' = so_sent so @ [q]"
  by (auto simp: exchange_def Let_def split: option.splits prod.splits sum.splits)

lemma ops_call_forwards:
  assumes "ops_call K m p so = (r, so')" "may_forward w \<lparr>wq_id = 2, wq_method = m, wq_params = p\<rparr>"
  shows "forwards w so so'"
proof -
  obtain x s1 where x: "exchange K \<lparr>wq_id = 2, wq_method = m, wq_params = p\<rparr> so = (x, s1)" by (metis prod.exhaust)
  have "s1 = so'" using assms(1) x by (auto simp: ops_call_def split: sum.splits)
  with exchange_sent [OF x] assms(2) show ?thesis
    by (auto simp: forwards_def intro: exI [of _ "[]"] exI [of _ "[\<lparr>wq_id = 2, wq_method = m, wq_params = p\<rparr>]"])
qed

lemma tools_call_forwards: "handle_tools_call K w i params so = (r, so') \<Longrightarrow> forwards w so so'"
  by (auto simp: handle_tools_call_def Let_def may_forward_def is_worker_hidden_def
      split: if_splits prod.splits sum.splits dest!: ops_call_forwards [where w = w])

lemma request_forwards: "shim_request K w req so = (r, so') \<Longrightarrow> forwards w so so'"
  by (auto simp: shim_request_def Let_def split: if_splits option.splits prod.splits dest: tools_call_forwards)

lemma loop_forwards: "forwards w so (snd (shim_loop K w ls so))"
proof (induction ls arbitrary: so)
  case (Cons l ls)
  show ?case
  proof (cases "cc_value K (trim_end l)")
    case (Some req)
    obtain r s1 where s1: "shim_request K w req so = (r, s1)" by (metis prod.exhaust)
    from forwards_trans [OF request_forwards [OF s1] Cons.IH] show ?thesis
      by (simp add: Some s1 case_prod_beta)
  qed (simp add: Cons.IH)
qed simp

definition tool_name :: "json \<Rightarrow> string option" where
  "tool_name = str_at ''name''"

text \<open>C40: the shim confines the cell it fronts.  Whatever its client writes, the requests it sends to the
  daemon are the handshake with its own credentials and then calls whose arguments name no sender;
  the shim of a worker never calls a spawning tool, and does not list one either, while every
  other tool is listed in both modes.\<close>

theorem shim_confines_client:
  assumes "dial (path_join dir ''crewd.sock'') = Inr so" "so_sent so = []"
    "shim_serve K dial dir cell token worker_mode ls = Inr (rs, so')"
  shows "\<exists>qs. so_sent so' = ops_handshake cell token # qs \<and>
    list_all (\<lambda>q. jget ''from_cell'' (wq_params q) = None \<and>
      (worker_mode \<longrightarrow> wq_method q \<notin> {''cell_spawn'', ''cell_send_task'', ''cell_cancel''})) qs \<and>
    tool_name ` set (tools_list False) - tool_name ` set (tools_list True) =
      {Some ''cell_spawn'', Some ''cell_send_task'', Some ''cell_cancel''}"
proof -
  obtain x s1 where x: "exchange K (ops_handshake cell token) so = (Inr x, s1)"
    and l: "shim_loop K worker_mode ls s1 = (rs, so')"
    using assms(1,3) by (auto simp: shim_serve_def ops_connect_def split: sum.splits prod.splits)
  have "so_sent s1 = [ops_handshake cell token]"
    using x assms(2) by (auto simp: exchange_def Let_def split: option.splits prod.splits sum.splits)
  then obtain qs where q: "so_sent so' = ops_handshake cell token # qs" "list_all (may_forward worker_mode) qs"
    using loop_forwards [of worker_mode s1 K ls] unfolding l by (auto simp: forwards_def)
  have t: "tool_name (tool n d p r a) = Some n" for n d p r a
    by (simp add: tool_def tool_name_def str_at_def jget_def as_str_def)
  have "tool_name ` set (tools_list False) - tool_name ` set (tools_list True) =
      {Some ''cell_spawn'', Some ''cell_send_task'', Some ''cell_cancel''}"
    unfolding tools_list_def bus_tools_def spawn_tools_def Let_def by (simp add: t image_Un)
  moreover have "list_all (\<lambda>q. jget ''from_cell'' (wq_params q) = None \<and>
      (worker_mode \<longrightarrow> wq_method q \<notin> {''cell_spawn'', ''cell_send_task'', ''cell_cancel''})) qs"
    using q(2) unfolding list_all_iff may_forward_def WORKER_HIDDEN_def by simp
  ultimately show ?thesis using q(1) by blast
qed

section \<open>Reading a response\<close>

lemma read_line_whole:
  assumes "concat cs = f @ [NL]" "NL \<notin> set f" "list_all (\<lambda>c. c \<noteq> []) cs" "length (buf @ f) \<le> MAX_FRAME"
  shows "client_read_line buf (map Inr cs @ nxt) = (Inr (buf @ f), nxt)"
  using assms
proof (induction cs arbitrary: buf f)
  case (Cons c cs)
  show ?case
  proof (cases "NL \<in> set c")
    case True
    then have "c = f @ [NL] \<and> concat cs = []"
      using Cons.prems(1,2) by (auto simp: append_eq_append_conv2 append_eq_Cons_conv)
    moreover from this have "cs = []" using Cons.prems(3) by (cases cs) auto
    ultimately show ?thesis using Cons.prems(2) by (auto simp: takeWhile_tail)
  next
    case False
    obtain f' where f: "f = c @ f'" "concat cs = f' @ [NL]"
      using Cons.prems(1) False by (auto simp: append_eq_append_conv2 append_eq_Cons_conv)
    with Cons.IH [of f' "buf @ c"] Cons.prems(2-4) False show ?thesis by simp
  qed
qed simp

lemma read_line_oversized:
  assumes "list_all (\<lambda>c. c \<noteq> [] \<and> NL \<notin> set c) cs" "MAX_FRAME < length (buf @ concat cs)" "length buf \<le> MAX_FRAME"
  shows "\<exists>k \<le> length cs. client_read_line buf (map Inr cs @ nxt) =
    (Inl (internal_error ''frame too large''), map Inr (drop k cs) @ nxt)"
  using assms
proof (induction cs arbitrary: buf)
  case (Cons c cs)
  show ?case
  proof (cases "MAX_FRAME < length (buf @ c)")
    case True
    with Cons.prems show ?thesis by (intro exI [of _ 1]) auto
  next
    case False
    with Cons.IH [of "buf @ c"] Cons.prems obtain k where "k \<le> length cs"
      "client_read_line (buf @ c) (map Inr cs @ nxt) = (Inl (internal_error ''frame too large''), map Inr (drop k cs) @ nxt)"
      by auto
    with False Cons.prems show ?thesis by (intro exI [of _ "Suc k"]) auto
  qed
qed simp

text \<open>The response to a call.  When the daemon's line \<open>f\<close> arrives next, in whatever non-empty chunks
  (\<open>cs\<close> before the last one, which holds the line feed), a line of at most \<open>MAX_FRAME\<close> bytes is read
  in full and nothing of it is left.  A line that is longer already without its last chunk fails
  the call as too large, and its last chunk is still on the stream, where the next call takes it
  for its own response: from then on the connection is out of step.\<close>

theorem response_framing:
  assumes "so_in so = map Inr (cs @ [c]) @ nxt" "so_broken so = None" "concat (cs @ [c]) = f @ [NL]" "NL \<notin> set f"
    "list_all (\<lambda>x. x \<noteq> []) (cs @ [c])"
  shows "(length f \<le> MAX_FRAME \<longrightarrow> cc_response K f = Inr (v, None) \<longrightarrow>
      (\<exists>so'. ops_call K m p so = (Inr (or_value JNull v), so') \<and> so_in so' = nxt)) \<and>
    (MAX_FRAME < length (concat cs) \<longrightarrow>
      (\<exists>so' rest. ops_call K m p so = (Inl (internal_error ''frame too large''), so') \<and>
         so_in so' = map Inr (rest @ [c]) @ nxt))"
proof -
  let ?q = "\<lparr>wq_id = 2, wq_method = m, wq_params = p\<rparr>"
  have "\<exists>so'. ops_call K m p so = (Inr (or_value JNull v), so') \<and> so_in so' = nxt"
    if "length f \<le> MAX_FRAME" "cc_response K f = Inr (v, None)"
    using read_line_whole [OF assms(3-5), of "[]" nxt] that
    by (simp add: ops_call_def exchange_def assms(1,2) Let_def)
  moreover have "\<exists>so' rest. ops_call K m p so = (Inl (internal_error ''frame too large''), so') \<and>
         so_in so' = map Inr (rest @ [c]) @ nxt" if big: "MAX_FRAME < length (concat cs)"
  proof -
    have "c \<noteq> []" using assms(5) by simp
    then have "concat cs @ butlast c = f"
      using arg_cong [OF assms(3), of butlast] by (simp add: butlast_append)
    then have "NL \<notin> set (concat cs)" using assms(4) by auto
    then have "list_all (\<lambda>x. x \<noteq> [] \<and> NL \<notin> set x) cs" using assms(5) by (auto simp: list_all_iff)
    from read_line_oversized [OF this, of "[]" "Inr c # nxt"] big obtain k where
      "client_read_line [] (map Inr cs @ Inr c # nxt) =
        (Inl (internal_error ''frame too large''), map Inr (drop k cs) @ Inr c # nxt)" by auto
    then show ?thesis
      by (intro exI [of _ "so\<lparr>so_sent := so_sent so @ [?q], so_in := map Inr (drop k cs) @ Inr c # nxt\<rparr>"] exI [of _ "drop k cs"])
        (simp add: ops_call_def exchange_def assms(1,2) Let_def)
  qed
  ultimately show ?thesis by blast
qed

section \<open>The verify command\<close>

text \<open>What the operator reads is the daemon's verdict on the chain.\<close>

lemma verify_command:
  assumes "operate K dial dir cell token ''op_audit_verify'' (JObj []) = Inr (verify_json r)"
  shows "ops_audit_verify K dial dir cell token =
    Inr (case r of VerifyOk h n \<Rightarrow> ''OK '' @ h | VerifyBroken i n \<Rightarrow> ''BROKEN at '' @ i)"
  using assms
  by (cases r) (simp_all add: ops_audit_verify_def verify_json_def verify_line_def str_at_def jget_def as_str_def or_value_def)

section \<open>Examples\<close>

text \<open>A daemon that accepts the handshake and answers one call with \<open>null\<close>, in two chunks.\<close>

definition example_codec :: client_codec where
  "example_codec = \<lparr>cc_response = (\<lambda>raw. if raw = ''ok'' then Inr (None, None) else Inl ''bad''),
     cc_value = (\<lambda>l. if l = ''T'' then Some (JObj [(''id'', JInt 1), (''method'', JStr ''tools/call''),
       (''params'', JObj [(''name'', JStr ''cell_list'')])]) else if l = ''S'' then
       Some (JObj [(''id'', JInt 2), (''method'', JStr ''tools/call''),
       (''params'', JObj [(''name'', JStr ''cell_spawn'')])]) else None),
     cc_print = (\<lambda>_. []), cc_pretty = (\<lambda>_. [])\<rparr>"

definition example_socket :: socket where
  "example_socket = \<lparr>so_in = [Inr ''ok\<newline>'', Inr ''o'', Inr ''k\<newline>''], so_broken = None, so_sent = []\<rparr>"

lemma trim_end_printable:
  assumes "list_all printable s"
  shows "trim_end s = s"
proof -
  have "dropWhile (\<lambda>c. c \<in> set white_space) (rev (map (\<lambda>c. [c]) s)) = rev (map (\<lambda>c. [c]) s)"
    using white_space_not_printable assms
    by (subst dropWhile_eq_self_iff) (cases s rule: rev_cases, auto simp: list_all_iff dest!: bspec)
  then show ?thesis by (simp add: trim_end_def utf8_chars_printable [OF assms] concat_map_singleton)
qed

lemma example_exchange:
  "exchange example_codec q example_socket =
    (Inr None, \<lparr>so_in = [Inr ''o'', Inr ''k\<newline>''], so_broken = None, so_sent = [q]\<rparr>)"
  "exchange example_codec q \<lparr>so_in = [Inr ''o'', Inr ''k\<newline>''], so_broken = None, so_sent = qs\<rparr> =
    (Inr None, \<lparr>so_in = [], so_broken = None, so_sent = qs @ [q]\<rparr>)"
  by (simp_all add: exchange_def example_socket_def example_codec_def NL_def MAX_FRAME_def)

theorem shim_confines_client_witness:
  "\<exists>rs so. shim_serve example_codec (\<lambda>_. Inr example_socket) ''/r'' ''w'' ''t'' True [''S'', ''T''] = Inr (rs, so) \<and>
     map wq_method (so_sent so) = [''handshake'', ''cell_list''] \<and>
     list_all (\<lambda>q. wq_method q \<noteq> ''cell_spawn'') (tl (so_sent so))"
proof -
  have tr: "trim_end ''S'' = ''S''" "trim_end ''T'' = ''T''"
    by (rule trim_end_printable, simp add: printable_def)+
  have vals: "cc_value example_codec (trim_end ''S'') = Some (JObj [(''id'', JInt 2), (''method'', JStr ''tools/call''),
      (''params'', JObj [(''name'', JStr ''cell_spawn'')])])"
    "cc_value example_codec (trim_end ''T'') = Some (JObj [(''id'', JInt 1), (''method'', JStr ''tools/call''),
      (''params'', JObj [(''name'', JStr ''cell_list'')])])"
    unfolding tr by (simp_all add: example_codec_def)
  let ?q = "\<lparr>wq_id = 2, wq_method = ''cell_list'', wq_params = JObj []\<rparr>"
  obtain rs where s: "shim_serve example_codec (\<lambda>_. Inr example_socket) ''/r'' ''w'' ''t'' True [''S'', ''T''] =
      Inr (rs, \<lparr>so_in = [], so_broken = None, so_sent = [ops_handshake ''w'' ''t'', ?q]\<rparr>)"
    by (simp add: shim_serve_def ops_connect_def example_exchange vals shim_request_def handle_tools_call_def Let_def jget_def
        str_at_def as_str_def or_value_def is_worker_hidden_def WORKER_HIDDEN_def ops_call_def example_exchange)
  have e: "so_sent example_socket = []" by (simp add: example_socket_def)
  have d: "(\<lambda>_. Inr example_socket :: string + socket) (path_join ''/r'' ''crewd.sock'') = Inr example_socket" by simp
  obtain qs where qs: "[ops_handshake ''w'' ''t'', ?q] = ops_handshake ''w'' ''t'' # qs"
    "list_all (\<lambda>q. jget ''from_cell'' (wq_params q) = None \<and>
      (True \<longrightarrow> wq_method q \<notin> {''cell_spawn'', ''cell_send_task'', ''cell_cancel''})) qs"
    using shim_confines_client [OF d e s] unfolding socket.select_convs by blast
  from qs(2) have "list_all (\<lambda>q. wq_method q \<noteq> ''cell_spawn'') qs" by (auto elim!: list.pred_mono_strong)
  moreover have "qs = [?q]" using qs(1) by simp
  ultimately show ?thesis using s by (simp add: ops_handshake_def)
qed

theorem response_framing_witness:
  "\<exists>so'. ops_call example_codec ''cell_list'' (JObj [])
     \<lparr>so_in = [Inr ''o'', Inr ''k\<newline>''], so_broken = None, so_sent = []\<rparr> = (Inr JNull, so') \<and> so_in so' = []"
proof -
  let ?so = "\<lparr>so_in = [Inr ''o'', Inr ''k\<newline>''], so_broken = None, so_sent = []\<rparr> :: socket"
  have "so_in ?so = map Inr ([''o''] @ [''k\<newline>'']) @ []" "so_broken ?so = None" "concat ([''o''] @ [''k\<newline>'']) = ''ok'' @ [NL]"
    "NL \<notin> set ''ok''" "list_all (\<lambda>x. x \<noteq> []) ([''o''] @ [''k\<newline>''])"
    by (simp_all add: NL_def)
  from conjunct1 [OF response_framing [OF this, where K = example_codec and v = None and m = "''cell_list''" and p = "JObj []"]]
  show ?thesis by (simp add: MAX_FRAME_def example_codec_def or_value_def)
qed

end
