(* ===== verification/Retries.thy ===== *)
theory Retries
  imports Serving
begin

text \<open>
  Retries end.  Along any run of the delivery loop (\<open>delivery.rs\<close>) a delivery is handed to its
  adapter again after each transient failure, but the failed attempts counted on its row never
  exceed the configured maximum: the row is then failed and no claim takes it.
\<close>

section \<open>One row through a tick\<close>

definition fails :: "(string \<Rightarrow> adapter option) \<Rightarrow> envelope \<times> string \<Rightarrow> bool" where
  "fails ad x \<longleftrightarrow> (case ad (snd x) of Some a \<Rightarrow> a (fst x) = Some OTransientFailure | None \<Rightarrow> False)"

definition claims_of :: "nat \<Rightarrow> daemon \<Rightarrow> (envelope \<times> string) list" where
  "claims_of now d = fst (tick_claim now (tick_deliveries now (tick_asks now d)))"

text \<open>The failed attempts of a delivery during a run of the loop.\<close>

fun failures :: "string \<times> string \<Rightarrow> (string \<Rightarrow> adapter option) \<Rightarrow> (nat \<times> int) list \<Rightarrow> daemon \<Rightarrow> nat" where
  "failures k ad [] d = 0"
| "failures k ad ((now, j) # ts) d =
    length (filter (\<lambda>x. claim_key x = k \<and> fails ad x) (claims_of now d)) + failures k ad ts (tick now j ad d)"

definition row_of :: "string \<times> string \<Rightarrow> daemon \<Rightarrow> delivery_row option" where
  "row_of k d = find_delivery (fst k) (snd k) (dm_store d)"

text \<open>A row whose attempts are used up has failed.\<close>

definition retries_in :: "nat \<Rightarrow> delivery_row \<Rightarrow> bool" where
  "retries_in n r \<longleftrightarrow> d_attempts r \<le> n \<and> (d_attempts r = n \<longrightarrow> d_state r = DFailed)"

lemma row_of_store: "dm_store d = dm_store e \<Longrightarrow> row_of k d = row_of k e"
  by (simp add: row_of_def)

lemma row_update:
  assumes "\<And>r. delivery_key (f r) = delivery_key r" "s_deliveries (dm_store e) = update_rows p f (s_deliveries (dm_store d))"
  shows "row_of k e = map_option (\<lambda>r. if p r then f r else r) (row_of k d)"
  using find_update_rows_key [where key = delivery_key and f = f and k = k, OF assms(1)] assms(2)
  by (simp add: row_of_def find_delivery_def)

lemma audit_quiet [simp]: "dm_store (audit_best_effort dr d) = dm_store d" "dm_cfg (audit_best_effort dr d) = dm_cfg d"
  using audit_dm_quiet [of d dr] audit_dm_frame [of dr d "fst (audit_dm dr d)" "snd (audit_dm dr d)"]
  by (simp_all add: audit_best_effort_def bus_quiet_def)

lemma fold_keeps: "(\<And>x d. f (g x d) = f d) \<Longrightarrow> f (fold g xs d) = f d"
  by (induction xs arbitrary: d) simp_all

lemma fold_keeps_on: "(\<And>x d. x \<in> set xs \<Longrightarrow> f (g x d) = f d) \<Longrightarrow> f (fold g xs d) = f d"
  by (induction xs arbitrary: d) simp_all

lemma asks_row: "row_of k (tick_asks now d) = row_of k d" "dm_cfg (tick_asks now d) = dm_cfg d"
  by (simp_all add: tick_asks_def expire_one_ask_def notify_def case_prod_beta row_of_def fold_keeps
      fold_keeps [where f = dm_store] expire_asks_due_eq Let_def find_delivery_def)

lemma expiry_cfg: "dm_cfg (tick_deliveries now d) = dm_cfg d"
  by (simp add: tick_deliveries_def case_prod_beta fold_keeps [where f = dm_cfg])

lemma expiry_row:
  assumes "bus_keys (dm_store d)" "row_of k d = Some r" "retries_in n r"
  shows "\<exists>r'. row_of k (tick_deliveries now d) = Some r' \<and> d_attempts r' = d_attempts r \<and> retries_in n r'"
proof -
  let ?due = "{x \<in> set (s_deliveries (dm_store d)). d_state x \<noteq> DFailed}"
  define p where "p = (\<lambda>r. delivery_key r \<in> set (fst (expire_due (now_rfc3339 now) (dm_store d))))"
  have p: "s_deliveries (dm_store (tick_deliveries now d)) =
      update_rows p (\<lambda>d. d\<lparr>d_state := DExpired\<rparr>) (s_deliveries (dm_store d))"
    by (simp add: tick_deliveries_def case_prod_beta fold_keeps [where f = dm_store] expire_due_eq Let_def p_def)
  have "d_state r \<noteq> DFailed" if "p r"
  proof -
    from that have "delivery_key r \<in> delivery_key ` ?due" by (auto simp: p_def expire_due_eq Let_def)
    then obtain x where "x \<in> ?due" "delivery_key r = delivery_key x" by blast
    moreover have "r \<in> set (s_deliveries (dm_store d))"
      using assms(2) find_delivery_key [of "fst k" "snd k" "dm_store d" r] by (simp add: row_of_def)
    ultimately show ?thesis using unique_delivery [OF assms(1), of r x] by auto
  qed
  with row_update [OF delivery_key_update(1) p, of k] assms(2,3) show ?thesis by (auto simp: retries_in_def)
qed

lemma claim_cfg: "dm_cfg (snd (tick_claim now d)) = dm_cfg d"
  by (simp add: tick_claim_def case_prod_beta)

lemma claim_row:
  assumes "bus_keys (dm_store d)" "tick_claim now d = (out, e)" "row_of k d = Some r" "retries_in n r"
  shows "\<exists>r'. row_of k e = Some r' \<and> d_attempts r' = d_attempts r \<and> retries_in n r' \<and>
    (k \<in> claim_key ` set out \<longrightarrow> d_attempts r' < n)"
proof -
  obtain now' l where c: "claim_due now' l 50 (dm_store d) = (out, dm_store e)"
    using assms(2) by (auto simp: tick_claim_def split: prod.splits)
  let ?m = "set_store (release_leases now' (dm_store d)) d"
  let ?p = "\<lambda>d. d_state d = DClaimed \<and> (case d_lease_until d of None \<Rightarrow> False | Some l \<Rightarrow> l \<le> now')"
  have "row_of k ?m = map_option (\<lambda>r. if ?p r then r\<lparr>d_state := DQueued, d_lease_until := None\<rparr> else r) (row_of k d)"
    by (rule row_update) (simp_all add: release_leases_def)
  moreover have "row_of k e = map_option (\<lambda>r. if delivery_key r \<in> claim_key ` set out
      then r\<lparr>d_state := DClaimed, d_lease_until := Some (now' + l)\<rparr> else r) (row_of k ?m)"
    by (rule row_update [where p = "\<lambda>r. delivery_key r \<in> claim_key ` set out"]) (use c in \<open>auto simp: claim_due_eq Let_def dest: arg_cong [where f = s_deliveries]\<close>)
  moreover have "pending_delivery r" if "k \<in> claim_key ` set out"
  proof -
    from that obtain x where "x \<in> set out" "claim_key x = k" by auto
    with due_state [OF assms(1) c, of x r] assms(3) show ?thesis
      by (auto simp: row_of_def claim_key_def pending_delivery_def)
  qed
  moreover have "delivery_key r = k"
    using assms(3) find_delivery_key by (fastforce simp: row_of_def)
  ultimately show ?thesis using assms(3,4) by (auto simp: retries_in_def pending_delivery_def)
qed

lemma distinct_concat_joined:
  "distinct (map delivery_key rs) \<Longrightarrow> distinct (map claim_key (concat (map (join_envelope s) rs)))"
proof (induction rs)
  case (Cons r rs)
  have "claim_key x = delivery_key r'" if "x \<in> set (join_envelope s r')" for x r'
    using that by (auto simp: in_join claim_key_def delivery_key_def dest: get_envelope_id)
  with Cons show ?case
    by (auto simp: join_envelope_def claim_key_def delivery_key_def dest: get_envelope_id split: option.split)
qed simp

lemma claims_distinct: "bus_keys (dm_store d) \<Longrightarrow> distinct (map claim_key (fst (tick_claim now d)))"
proof -
  assume "bus_keys (dm_store d)"
  from release_leases_keys [OF this]
  have "distinct (map delivery_key (s_deliveries (release_leases n (dm_store d))))" for n
    by (simp add: bus_keys_def)
  then show ?thesis
    by (simp add: tick_claim_def case_prod_beta claim_due_eq Let_def due_deliveries_def take_map [symmetric]
        distinct_concat_joined distinct_map_filter)
qed

section \<open>The outcome of an attempt\<close>

lemma outcome_same: "claim_key x \<noteq> k \<Longrightarrow> row_of k (deliver_one now j ad x d) = row_of k d"
proof -
  assume x: "claim_key x \<noteq> k"
  have up: "find_delivery (fst k) (snd k) (update_delivery (e_message_id (fst x)) (snd x) f s) = find_delivery (fst k) (snd k) s"
    if "\<And>r. delivery_key (f r) = delivery_key r" for f s
    using find_update_rows_key [where key = delivery_key and f = f and k = k, OF that] x
    by (cases "find_delivery (fst k) (snd k) s")
      (auto simp: find_delivery_def update_delivery_def claim_key_def dest: find_Some_in)
  show ?thesis
    by (cases x) (use up in \<open>auto simp: deliver_one_def apply_outcome_def Let_def row_of_def transition_def
        record_attempt_failure_def split: delivery_outcome.split option.split\<close>)
qed

lemma outcome_row:
  assumes "row_of k d = Some r" "claim_key x = k" "d_attempts r < cf_max_attempts (dm_cfg d)"
  shows "\<exists>r'. row_of k (deliver_one now j ad x d) = Some r' \<and>
    d_attempts r' = d_attempts r + (if fails ad x then 1 else 0) \<and> retries_in (cf_max_attempts (dm_cfg d)) r'"
proof -
  obtain env rec where x: "x = (env, rec)" by (cases x)
  have k: "k = (e_message_id env, rec)" using assms(2) x by (simp add: claim_key_def)
  have fd: "find_delivery (e_message_id env) rec (dm_store d) = Some r" using assms(1) k by (simp add: row_of_def)
  have up: "find_delivery (e_message_id env) rec (update_delivery (e_message_id env) rec f (dm_store d)) = Some (f r)"
    if "\<And>r. delivery_key (f r) = delivery_key r" for f
    using find_update_rows_key [where key = delivery_key and f = f and k = k, OF that] fd find_delivery_key [OF fd]
    by (simp add: find_delivery_def update_delivery_def k)
  show ?thesis
    using fd assms(3)
    by (auto simp: x k deliver_one_def deliver_with_timeout_def apply_outcome_def Let_def row_of_def transition_def
        record_attempt_failure_def up fails_def retries_in_def
        split: delivery_outcome.split option.split)
qed

lemma deliver_cfg: "dm_cfg (deliver_one now j ad x d) = dm_cfg d"
  by (cases x) (auto simp: deliver_one_def apply_outcome_def Let_def case_prod_beta split: delivery_outcome.split)

lemma deliver_rows:
  assumes "distinct (map claim_key xs)" "row_of k d = Some r" "retries_in (cf_max_attempts (dm_cfg d)) r"
    and "k \<in> claim_key ` set xs \<Longrightarrow> d_attempts r < cf_max_attempts (dm_cfg d)"
  shows "\<exists>r'. row_of k (fold (deliver_one now j ad) xs d) = Some r' \<and>
    d_attempts r' = d_attempts r + length (filter (\<lambda>x. claim_key x = k \<and> fails ad x) xs) \<and>
    retries_in (cf_max_attempts (dm_cfg d)) r'"
  using assms
proof (induction xs arbitrary: d r)
  case (Cons x xs)
  show ?case
  proof (cases "claim_key x = k")
    case True
    have other: "claim_key y \<noteq> k" if "y \<in> set xs" for y
      using Cons.prems(1) True that by (metis distinct.simps(2) list.map(2) imageI list.set_map)
    then have rest: "row_of k (fold (deliver_one now j ad) xs e) = row_of k e" for e
      by (intro fold_keeps_on outcome_same)
    have "filter (\<lambda>x. claim_key x = k \<and> fails ad x) xs = []"
      using other by (auto simp: filter_empty_conv)
    with True outcome_row [OF Cons.prems(2) True, of now j ad] Cons.prems(4) show ?thesis by (auto simp: rest)
  next
    case False
    with Cons.IH [of "deliver_one now j ad x d" r] Cons.prems show ?thesis
      by (simp add: deliver_cfg outcome_same)
  qed
qed simp

lemma tick_row:
  assumes "bus_keys (dm_store d)" "row_of k d = Some r" "retries_in (cf_max_attempts (dm_cfg d)) r"
  shows "\<exists>r'. row_of k (tick now j ad d) = Some r' \<and>
    d_attempts r' = d_attempts r + length (filter (\<lambda>x. claim_key x = k \<and> fails ad x) (claims_of now d)) \<and>
    retries_in (cf_max_attempts (dm_cfg d)) r'"
proof -
  let ?e = "tick_deliveries now (tick_asks now d)"
  obtain out e where c: "tick_claim now ?e = (out, e)" by (metis prod.exhaust)
  have keys: "bus_keys (dm_store ?e)"
    using loop_follows [OF loop_frame_trans [OF loop_frame_tick_asks loop_frame_tick_deliveries]] assms(1)
    by (simp add: daemon_follows_def)
  have cfg: "dm_cfg ?e = dm_cfg d" "dm_cfg e = dm_cfg d"
    using claim_cfg [of now ?e] c by (simp_all add: asks_row expiry_cfg)
  have "bus_keys (dm_store (tick_asks now d))"
    using loop_follows [OF loop_frame_tick_asks] assms(1) by (simp add: daemon_follows_def)
  from expiry_row [OF this, of k r _ now] assms(2,3) obtain r1 where
    r1: "row_of k ?e = Some r1" "d_attempts r1 = d_attempts r" "retries_in (cf_max_attempts (dm_cfg d)) r1"
    by (auto simp: asks_row)
  from claim_row [OF keys c r1(1,3)] obtain r2 where r2: "row_of k e = Some r2" "d_attempts r2 = d_attempts r"
    "retries_in (cf_max_attempts (dm_cfg d)) r2" "k \<in> claim_key ` set out \<longrightarrow> d_attempts r2 < cf_max_attempts (dm_cfg d)"
    using r1(2) by auto
  have "distinct (map claim_key out)" using claims_distinct [OF keys, of now] c by simp
  from deliver_rows [OF this r2(1), of now j ad] r2(2-4) show ?thesis
    by (simp add: tick_def claims_of_def c cfg)
qed

section \<open>Runs\<close>

lemma tick_cfg: "dm_cfg (tick now j ad d) = dm_cfg d"
  by (simp add: tick_def case_prod_beta fold_keeps [where f = dm_cfg] deliver_cfg claim_cfg asks_row expiry_cfg)

lemma run_rows:
  assumes "bus_keys (dm_store d)" "row_of k d = Some r" "retries_in (cf_max_attempts (dm_cfg d)) r"
  shows "\<exists>r'. row_of k (fold (\<lambda>(now, j). tick now j ad) ts d) = Some r' \<and>
    d_attempts r' = d_attempts r + failures k ad ts d \<and> retries_in (cf_max_attempts (dm_cfg d)) r'"
  using assms
proof (induction ts arbitrary: d r)
  case (Cons t ts)
  obtain now j where t: "t = (now, j)" by (cases t)
  have keys: "bus_keys (dm_store (tick now j ad d))"
    using loop_follows [OF loop_frame_tick] Cons.prems(1) by (simp add: daemon_follows_def)
  from tick_row [OF Cons.prems, of now j ad] obtain r1 where r1: "row_of k (tick now j ad d) = Some r1"
    "d_attempts r1 = d_attempts r + length (filter (\<lambda>x. claim_key x = k \<and> fails ad x) (claims_of now d))"
    "retries_in (cf_max_attempts (dm_cfg d)) r1" by auto
  with Cons.IH [OF keys r1(1)] show ?case by (simp add: t tick_cfg add.assoc)
qed simp

text \<open>C22: retries end.  Whatever ticks the loop makes, at whatever times and with whatever jitter and
  answers of the other adapters, the transient failures a delivery meets are at most the attempts
  it has left, and when they use them up the delivery has failed.  In particular an adapter that
  always fails is called at most that often for one delivery.\<close>

theorem retries_end:
  assumes "bus_keys (dm_store d)" "find_delivery m rec (dm_store d) = Some r"
    and "d_attempts r < cf_max_attempts (dm_cfg d)"
  shows "d_attempts r + failures (m, rec) ad ts d \<le> cf_max_attempts (dm_cfg d) \<and>
    (d_attempts r + failures (m, rec) ad ts d = cf_max_attempts (dm_cfg d) \<longrightarrow>
      delivery_state_of m rec (dm_store (fold (\<lambda>(now, j). tick now j ad) ts d)) = Inr DFailed)"
  using run_rows [OF assms(1), of "(m, rec)" r ad ts] assms(2,3)
  by (auto simp: row_of_def retries_in_def delivery_state_of_def)

definition failing_daemon :: daemon where
  "failing_daemon = set_store (empty_store\<lparr>s_envelopes := [example_envelope],
     s_deliveries := [\<lparr>d_envelope_id = ''m1'', d_recipient = ''b'', d_state = DQueued, d_attempts = 9,
       d_lease_until = None, d_next_retry_at = 0\<rparr>]\<rparr>) example_daemon"

lemma not_expired: "rfc3339_from_unix_secs 60 \<le> now_rfc3339 5 \<longleftrightarrow> False"
  using rfc3339_strict [of 5 60] by (simp add: now_rfc3339_def YEAR_10000_def not_le)

lemma failing_tick: "failures (''m1'', ''b'') (\<lambda>_. Some (\<lambda>_. Some OTransientFailure)) [(5, 0)] failing_daemon = 1"
  by (simp add: claims_of_def failing_daemon_def tick_asks_def expire_asks_due_eq tick_deliveries_def expire_due_eq
      tick_claim_def claim_due_eq release_leases_def due_deliveries_def join_envelope_def get_envelope_def
      example_envelope_def empty_store_def Let_def not_expired claim_key_def fails_def)

theorem retries_end_witness:
  "delivery_state_of ''m1'' ''b'' (dm_store (fold (\<lambda>(now, j). tick now j (\<lambda>_. Some (\<lambda>_. Some OTransientFailure)))
     [(5, 0)] failing_daemon)) = Inr DFailed"
proof -
  let ?r = "\<lparr>d_envelope_id = ''m1'', d_recipient = ''b'', d_state = DQueued, d_attempts = 9,
      d_lease_until = None, d_next_retry_at = 0\<rparr>"
  have "bus_keys (dm_store failing_daemon)" "find_delivery ''m1'' ''b'' (dm_store failing_daemon) = Some ?r"
    "cf_max_attempts (dm_cfg failing_daemon) = 10"
    by (simp_all add: failing_daemon_def bus_keys_def empty_store_def find_delivery_def delivery_key_def)
      (simp_all add: example_daemon_def)
  with retries_end [of failing_daemon "''m1''" "''b''" ?r "\<lambda>_. Some (\<lambda>_. Some OTransientFailure)" "[(5, 0)]"]
  show ?thesis by (simp add: failing_tick del: failures.simps)
qed

end
