(* ===== verification/Tasks.thy ===== *)
theory Tasks
  imports System Completion
begin

text \<open>
  The way of a task through the whole daemon: \<open>cell_spawn\<close> puts a thread and a job into the store,
  the next tick of the scheduler gives the job to the engine of its cell and drains what the engine
  says, and \<open>cell_result\<close> hands the engine's answer to the cell that asked for the task.
\<close>

section \<open>The clock in SQL\<close>

text \<open>The query of the startable cells reads a timestamp as a number; any the daemon writes is not zero.\<close>

lemma dec_digits: "c \<in> set (dec n) \<Longrightarrow> is_ascii_digit c"
proof (induction n rule: dec.induct)
  case (1 n)
  have "is_ascii_digit (digit_char d)" if "d < 10" for d
    using that by (simp add: is_ascii_digit_def digit_char_def less_eq_char_def)
  with 1 show ?case by (subst (asm) (2) dec.simps) (auto split: if_splits)
qed

lemma epoch_year:
  assumes "civil_from_days (int n) = (y, m, d)"
  shows "1970 \<le> y"
proof -
  have "day_count 135080 = 134991" by (simp add: day_count_def)
  then have "march_date 135080 = (369, 10, 1)" by (simp add: march_date_def year_start_def)
  then have epoch: "civil_from_days 0 = (1970, 1, 1)" by (simp add: civil_from_days_march)
  show ?thesis
    using civil_strict [OF _ _ epoch assms] assms epoch by (cases "n = 0") auto
qed

lemma timestamp_nonzero:
  assumes "n < YEAR_10000"
  shows "sql_true (now_rfc3339 n)"
proof -
  obtain y m d where c: "civil_from_days (int (n div 86400)) = (y, m, d)" by (metis prod.exhaust)
  have y: "1970 \<le> y" "y \<le> 9999"
    using epoch_year [OF c] civil_year_bound [OF _ _ c] assms by (simp_all add: YEAR_10000_def)
  let ?y = "pad0 4 (dec (nat y))"
  obtain r where r: "now_rfc3339 n = ?y @ CHR ''-'' # r"
    using c y(1) by (simp add: now_rfc3339_def rfc3339_from_unix_secs_def Let_def fmt_year_def)
  have "\<forall>c \<in> set ?y. is_ascii_digit c"
    by (auto simp: pad0_def dec_digits) (simp add: is_ascii_digit_def)
  then have t: "takeWhile is_ascii_digit (now_rfc3339 n) = ?y"
    unfolding r by (simp add: takeWhile_append2) (simp add: is_ascii_digit_def less_eq_char_def)
  have "\<exists>c \<in> set ?y. c \<noteq> CHR ''0''"
  proof (rule ccontr)
    assume "\<not> ?thesis"
    then have "?y = replicate (length ?y) CHR ''0''" by (intro replicate_eqI) auto
    also have "\<dots> = pad0 4 (dec 0)"
    proof -
      have "length ?y = 4" using y by (intro length_pad0_dec) simp_all
      then show ?thesis by (simp only: pad0_def dec_small digit_char_0) (simp add: numeral_eq_Suc)
    qed
    finally show False using pad0_dec_eq_iff [of "nat y" 4 0] y by simp
  qed
  then show ?thesis by (simp add: sql_true_def t)
qed

section \<open>What a spawn request leaves\<close>

text \<open>A request for a task on an engine without a registered cell makes an ephemeral one.\<close>

lemma spawn_request_effect:
  assumes "handle_spawn C sender params d = (Inr (JObj [(''crewd_thread_id'', JStr tid), (''replayed'', JBool False)]), d1)"
    and p: "parse_cell_spawn params = Inr p" "cs_engine p = Some (engine_kind_as_str k)"
    "\<And>c. cs_cell p = Some c \<Longrightarrow> cell_get c (dm_store d) = None"
  shows "\<exists>t j. s_threads (dm_store d1) = s_threads (dm_store d) @ [t] \<and> thread_get tid (dm_store d1) = Some t \<and>
    t_state t = TSpawning \<and> t_created_by_principal t = sender \<and> t_engine_kind t = k \<and>
    t_cell_name t = ephemeral_cell_name (rc_cell_uuid C) \<and> t_updated_at t = now_rfc3339 (rc_now C) \<and>
    t_engine_thread_id t = None \<and> t_engine_session_id t = None \<and>
    s_jobs (dm_store d1) = s_jobs (dm_store d) @ [j] \<and> j_state j = JQueued \<and> j_crewd_thread_id j = tid \<and>
    j_cell_name j = ephemeral_cell_name (rc_cell_uuid C) \<and> j_payload j = cs_task p \<and>
    s_cells (dm_store d1) = s_cells (dm_store d) \<and> s_journal (dm_store d1) = s_journal (dm_store d) \<and>
    dm_cancels d1 = dm_cancels d"
proof -
  let ?n = "ephemeral_cell_name (rc_cell_uuid C)"
  let ?req = "\<lparr>sr_caller = sender, sr_cell_name = ?n, sr_idempotency_key = cs_idempotency_key p, sr_payload = cs_task p\<rparr>"
  let ?cwd = "case cs_cwd p of None \<Rightarrow> ''.'' | Some c \<Rightarrow> c"
  have named: "(case cs_cell p of Some c \<Rightarrow> cell_get c (dm_store d) | None \<Rightarrow> None) = None"
    using p(3) by (simp split: option.split)
  have rq: "requested_engine (cs_engine p) = Inr (Some k)" by (simp add: requested_engine_def p(2))
  have "\<exists>out. on_core (spawn_idempotent (rc_now C) (rc_thread_id C) (rc_job_id C) ?req k (cs_model p)
        (cs_profile p) ?cwd (cs_worktree p) QUEUE_DEPTH_DEFAULT) d = (Inr out, d1) \<and>
      spawned_json out = JObj [(''crewd_thread_id'', JStr tid), (''replayed'', JBool False)]"
    using assms(1)
    by (auto simp: handle_spawn_def require_def p(1) rq named resolve_spawn_target_def bind_res_Inr
        split: sum.splits if_splits)
  then obtain out where o: "on_core (spawn_idempotent (rc_now C) (rc_thread_id C) (rc_job_id C) ?req k
        (cs_model p) (cs_profile p) ?cwd (cs_worktree p) QUEUE_DEPTH_DEFAULT) d = (Inr out, d1)"
    and out: "spawned_json out = JObj [(''crewd_thread_id'', JStr tid), (''replayed'', JBool False)]" by blast
  from out obtain t where t: "out = Created t" "t_crewd_thread_id t = tid"
    by (cases out) (auto simp: spawned_json_def)
  obtain s l s' l' where sp: "spawn_idempotent (rc_now C) (rc_thread_id C) (rc_job_id C) ?req k (cs_model p)
      (cs_profile p) ?cwd (cs_worktree p) QUEUE_DEPTH_DEFAULT (s, l) = (Inr (Created t), (s', l'))"
    "dm_core d = (s, l)" "d1 = d\<lparr>dm_core := (s', l')\<rparr>"
    using o t(1) by (cases "dm_core d") (auto simp: on_core_def split: prod.splits)
  note cr = spawn_created [OF sp(1)]
  have t': "t = spawning_thread (rc_now C) (rc_thread_id C) ?req k (cs_model p) (cs_profile p) ?cwd (cs_worktree p)"
    and si: "spawn_inner (rc_now C) (rc_thread_id C) (rc_job_id C) ?req t QUEUE_DEPTH_DEFAULT s = (Inr t, s')"
    using cr by blast+
  from spawn_inner_Inr [OF si] obtain j where
    "s_threads s' = s_threads s @ [t]" "thread_get tid s = None" "s_jobs s' = s_jobs s @ [j]" "j_state j = JQueued"
    "j_crewd_thread_id j = rc_thread_id C" "j_cell_name j = ?n" "j_payload j = cs_task p"
    using t(2) by auto
  moreover have "s_cells s' = s_cells s" "s_journal s' = s_journal s"
    using si by (auto simp: spawn_inner_def Let_def bind_res_Inr thread_insert_def job_enqueue_inner_def split: if_splits)
  moreover have "rc_thread_id C = tid" using t(2) t' by (simp add: spawning_thread_def)
  ultimately show ?thesis
    using t(2) t' sp(2,3) by (auto simp: thread_get_def find_append spawning_thread_def)
qed

section \<open>Starting the queued job\<close>

lemma skip_cell:
  assumes "c_name e \<in> (if_cell \<circ> snd) ` set (sd_in_flight S) \<or> queued_jobs (c_name e) (sd_store S) = []"
  shows "start_if_idle I e S = (Inr (), S)"
  using assms by (cases "sd_core S") (auto simp: start_if_idle_def try_start_turn_def job_lease_next_def)

lemma for_each_one:
  assumes "\<And>x. x \<in> set xs \<Longrightarrow> x \<noteq> a \<Longrightarrow> f x S = (Inr (), S)" "f a S = (Inr (), T)"
    and "\<And>x. x \<in> set xs \<Longrightarrow> f x T = (Inr (), T)" "a \<in> set xs"
  shows "for_each f xs S = (Inr (), T)"
proof -
  have "for_each f ys T = (Inr (), T)" if "set ys \<subseteq> set xs" for ys
    using that by (induction ys) (simp_all add: assms(3))
  then show ?thesis
    using assms(1,4)
  proof (induction xs)
    case (Cons x xs)
    show ?case
      using Cons.prems(1) [of xs] Cons.IH Cons.prems assms(2) by (cases "x = a") auto
  qed simp
qed

lemma start_fake:
  assumes "sd_in_flight S = []" "queued_jobs (c_name e) (sd_store S) = [j]" "\<not> cell_blocked (c_name e) (sd_store S)"
    "job_get (j_job_id j) (sd_store S) = Some j" "thread_get (j_crewd_thread_id j) (sd_store S) = Some t"
    "t_state t = TSpawning" "t_engine_thread_id t = None" "t_engine_session_id t = None"
    "al_faults (sd_log S) = []" "c_engine e = Fake" "sp_engines (sd_supervisor S) (c_name e) = None"
  shows "\<exists>T x. start_if_idle I e S = (Inr (), T) \<and> sd_in_flight T = [(j_crewd_thread_id j, x)] \<and>
    if_job_id x = j_job_id j \<and> if_cell x = c_name e \<and>
    (\<exists>th. thread_get (j_crewd_thread_id j) (sd_store T) = Some th \<and> t_state th = TRunning) \<and>
    (\<exists>k. job_get (j_job_id j) (sd_store T) = Some k) \<and>
    (\<forall>k \<in> set (s_jobs (sd_store T)). j_state k = JQueued \<longrightarrow> k \<in> set (s_jobs (sd_store S)) \<and> j_job_id k \<noteq> j_job_id j) \<and>
    s_journal (sd_store T) = s_journal (sd_store S) \<and> al_faults (sd_log T) = [] \<and>
    fst (sup_poll (c_name e) (sd_supervisor T)) = engine_event.Accepted ''fake-turn-1'' # map Note [] @ [Final (''done: '' @ j_payload j)]"
proof -
  let ?tid = "j_crewd_thread_id j" and ?i = "j_job_id j" and ?dr = "engine_draft ''cell_turn_started'' (Some (j_crewd_thread_id j)) (c_name e) ''started'' None"
  define f where "f = (\<lambda>j :: cell_job. j\<lparr>j_state := JLeased, j_lease_expires_at := Some (rfc3339_after (ti_now I) (sd_lease_secs S))\<rparr>)"
  define g where "g = (\<lambda>j :: cell_job. j\<lparr>j_state := JStarted\<rparr>)"
  define h where "h = (\<lambda>t :: cell_thread. t\<lparr>t_state := TRunning, t_updated_at := now_rfc3339 (ti_now I)\<rparr>)"
  define s1 where "s1 = update_job ?i f (sd_store S)"
  define s2 where "s2 = update_job ?i g s1"
  define s3 where "s3 = update_thread ?tid h s2"
  define l where "l = (sd_log S)\<lparr>al_events := al_events (sd_log S) @ [?dr]\<rparr>"
  have lease: "job_lease_next (ti_now I) (c_name e) (sd_lease_secs S) (sd_store S) = (Some (f j), s1)"
    using assms(2,3,4) by (simp add: job_lease_next_def Let_def f_def [symmetric] s1_def [symmetric])
      (simp add: s1_def job_get_update f_def)
  have ids: "j_job_id (f j) = ?i" "j_crewd_thread_id (f j) = ?tid" "j_payload (f j) = j_payload j" by (simp_all add: f_def)
  have j1: "job_get ?i s1 = Some (f j)" using assms(4) by (simp add: s1_def job_get_update f_def)
  have mark: "job_mark_started ?i s1 = (Inr (), s2)"
    using j1 by (simp add: job_mark_started_def set_job_def s2_def g_def)
  have t2: "thread_get ?tid s2 = Some t" "thread_get ?tid s1 = Some t"
    using assms(5) by (simp_all add: s2_def s1_def update_job_def thread_get_def)
  have move: "thread_transition (ti_now I) ?tid TRunning s2 = (Inr (), s3)"
    using t2 assms(6) by (simp add: thread_transition_def s3_def h_def)
  have au: "audit_to ?dr (s3, sd_log S) = (Inr (), (s3, l))"
    using assms(9) by (simp add: audit_to_def audit_emit_def assert_kind_def engine_draft_def AUDIT_KINDS_def l_def)
  let ?a = "snd (fake_start_turn (j_payload j) fake_new)"
  define x where "x = \<lparr>if_job_id = ?i, if_cell = c_name e, if_started_at_nanos = ti_now_nanos I,
      if_engine_turn_id = None, if_accepted = False\<rparr>"
  define T where "T = S\<lparr>sd_core := (s3, l), sd_supervisor := put_engine (c_name e) (Fake, EFake ?a)
      (put_engine (c_name e) (Fake, EFake fake_new) (sd_supervisor S)), sd_in_flight := [(?tid, x)]\<rparr>"
  have la: "launch I e (f j) t (S\<lparr>sd_core := (s3, l)\<rparr>) = (Inr (), T)"
    using assms(1,7,8,10,11)
    by (simp add: launch_def Let_def with_supervisor_def ensure_def make_adapter_def maybe_resume_def sup_start_turn_def
        on_engine_def put_engine_def fake_start_turn_def fake_new_def put_turn_def T_def x_def ids)
  have "start_if_idle I e S = (Inr (), T)"
    using assms(1,6) lease t2 mark move au la
    by (simp add: start_if_idle_def try_start_turn_def Let_def ids with_store_def sched_audit_def bind_res_def)
  moreover have "fst (sup_poll (c_name e) (sd_supervisor T)) =
      engine_event.Accepted ''fake-turn-1'' # map Note [] @ [Final (''done: '' @ j_payload j)]"
    by (simp add: T_def sup_poll_def on_engine_def put_engine_def fake_start_turn_def fake_new_def fake_poll_events_def
        Let_def dec_one)
  moreover have "\<exists>th. thread_get ?tid s3 = Some th \<and> t_state th = TRunning"
    using t2 by (simp add: s3_def thread_get_update h_def)
  moreover have "s_jobs s3 = update_rows (\<lambda>k. j_job_id k = ?i) g (update_rows (\<lambda>k. j_job_id k = ?i) f (s_jobs (sd_store S)))"
    by (simp add: s3_def s2_def s1_def update_job_def)
  then have "\<forall>k \<in> set (s_jobs s3). j_state k = JQueued \<longrightarrow> k \<in> set (s_jobs (sd_store S)) \<and> j_job_id k \<noteq> ?i"
    by (auto simp: set_update_rows f_def g_def split: if_splits)
  moreover have "\<exists>k. job_get ?i s3 = Some k"
    using j1 by (simp add: s3_def job_get_def update_thread_def) (simp add: s2_def job_get_update [unfolded job_get_def] g_def)
  moreover have "sd_core T = (s3, l)" "sd_in_flight T = [(?tid, x)]" "if_job_id x = ?i" "if_cell x = c_name e"
    by (simp_all add: T_def x_def)
  moreover have "s_journal s3 = s_journal (sd_store S)" "al_faults l = []"
    using assms(9) by (simp_all add: s3_def s2_def s1_def update_thread_def update_job_def l_def)
  ultimately show ?thesis by (intro exI [of _ T] exI [of _ x]) simp
qed

section \<open>The tick after the spawn\<close>

text \<open>A store whose only active job is a queued one; everything else about it is arbitrary.\<close>

definition only_task :: "cell_job \<Rightarrow> store \<Rightarrow> bool" where
  "only_task j s \<longleftrightarrow> j \<in> set (s_jobs s) \<and> j_state j = JQueued \<and> (\<forall>k \<in> set (s_jobs s). job_active k \<longrightarrow> k = j)"

lemma filter_only:
  "distinct xs \<Longrightarrow> a \<in> set xs \<Longrightarrow> (\<And>x. x \<in> set xs \<Longrightarrow> P x \<longleftrightarrow> x = a) \<Longrightarrow> filter P xs = [a]"
  by (induction xs) (auto simp: filter_empty_conv)

lemma queue_of_task:
  assumes "jobs_ok s" "only_task j s"
  shows "queued_jobs c s = (if c = j_cell_name j then [j] else [])" "\<not> cell_blocked c s"
    "job_get (j_job_id j) s = Some j" "job_requeue_expired_leases ts s = ([], s)"
proof -
  have d: "distinct (map j_job_id (s_jobs s))" using assms(1) by (simp add: jobs_ok_def)
  then have u: "distinct (s_jobs s)" by (simp add: distinct_map)
  have q: "k = j" if "k \<in> set (s_jobs s)" "j_state k \<in> {JQueued, JLeased, JStarted}" for k
    using assms(2) that unfolding only_task_def job_active_def by blast
  have "filter (\<lambda>k. j_cell_name k = c \<and> j_state k = JQueued) (s_jobs s) = (if c = j_cell_name j then [j] else [])"
  proof (cases "c = j_cell_name j")
    case True
    with assms(2) q show ?thesis by (simp, intro filter_only [OF u]) (auto simp: only_task_def)
  qed (use q in \<open>auto simp: filter_empty_conv\<close>)
  then show "queued_jobs c s = (if c = j_cell_name j then [j] else [])" by (simp add: queued_jobs_def)
  have "j_state k \<noteq> JStarted \<and> \<not> requeueable k" if "k \<in> set (s_jobs s)" for k
    using q [OF that] assms(2) by (cases "j_state k") (auto simp: only_task_def requeueable_def)
  then show "\<not> cell_blocked c s" "job_requeue_expired_leases ts s = ([], s)"
    by (auto simp: cell_blocked_def count_rows_def job_requeue_expired_leases_def Let_def filter_empty_conv)
  show "job_get (j_job_id j) s = Some j"
    using distinct_find_unique [OF d] assms(2) by (simp add: job_get_def only_task_def)
qed

text \<open>Of the threads without a registered cell only the one with the queued job makes a cell startable.\<close>

definition ephemeral_def :: "cell_thread \<Rightarrow> cell_def" where
  "ephemeral_def t = \<lparr>c_name = t_cell_name t, c_engine = t_engine_kind t, c_model = t_model t, c_profile = t_profile t,
     c_cwd = t_cwd t, c_worktree_default = False, c_memory_device = None, c_created_at = t_created_at t\<rparr>"

lemma startable_task:
  assumes "only_task j s" "s_threads s = ts @ [t]" "t_cell_name t = j_cell_name j"
    "t_cell_name t \<notin> c_name ` set (s_cells s) \<union> t_cell_name ` set ts" "sql_true (t_updated_at t)"
  shows "ephemeral_startable_defs s = [ephemeral_def t]"
proof -
  have "(\<exists>k \<in> set (s_jobs s). j_cell_name k = n \<and> j_state k = JQueued) \<longleftrightarrow> n = t_cell_name t" for n
    using assms(1,3) by (auto simp: only_task_def job_active_def)
  moreover have "t_cell_name u \<noteq> t_cell_name t" if "u \<in> set ts" for u
    using assms(4) that by (metis UnI2 imageI)
  ultimately have "filter (\<lambda>u. t_cell_name u \<notin> c_name ` set (s_cells s) \<and>
      (\<exists>k \<in> set (s_jobs s). j_cell_name k = t_cell_name u \<and> j_state k = JQueued)) (s_threads s) = [t]"
    using assms(2,4) by (auto simp: filter_empty_conv)
  then show ?thesis
    using assms(5) by (simp add: ephemeral_startable_defs_def Let_def ephemeral_def_def map_filter_simps)
qed

lemma tick_runs_task:
  assumes "turns_ok V" "only_task j (sd_store V)" "sd_in_flight V = []" "sd_cancels V = []"
    and "e \<in> set (cell_list_defs (sd_store V) @ ephemeral_startable_defs (sd_store V))" "c_engine e = Fake" "j_cell_name j = c_name e"
    and "\<And>x. x \<in> set (cell_list_defs (sd_store V) @ ephemeral_startable_defs (sd_store V)) \<Longrightarrow> c_name x = c_name e \<Longrightarrow> x = e"
    and "\<not> has_engine (c_name e) (sd_supervisor V)"
    and "thread_get (j_crewd_thread_id j) (sd_store V) = Some t" "t_state t = TSpawning"
    and "t_engine_thread_id t = None" "t_engine_session_id t = None"
    and "journal_numbered (sd_store V)" "al_faults (sd_log V) = []" "\<And>xs. set (ti_order I xs) = set xs \<and> length (ti_order I xs) = length xs"
  shows "\<exists>T. sched_tick I V = (Inr (), T) \<and>
    completed (j_crewd_thread_id j) (j_job_id j) ''fake-turn-1'' (journal_lines (j_crewd_thread_id j) (sd_store V) @
      [''accepted: fake-turn-1'', ''final: done: '' @ j_payload j]) T \<and>
    journal_final_answer (journal_tail (j_crewd_thread_id j) 50 (sd_store T)) = Some (''done: '' @ j_payload j)"
proof -
  let ?tid = "j_crewd_thread_id j" and ?L = "cell_list_defs (sd_store V) @ ephemeral_startable_defs (sd_store V)"
  note ok = turns_ok_def [THEN iffD1, OF assms(1), THEN conjunct1]
  note qt = queue_of_task [OF ok assms(2)]
  have "ti_order I [] = []" using assms(16) [of "[]"] by simp
  then have ids: "turn_ids I V = []" by (simp add: turn_ids_def assms(3))
  have one: "ti_order I [i] = [i]" for i using assms(16) [of "[i]"] by (cases "ti_order I [i]") (auto simp: length_Suc_conv)
  have "drain_cancels V = V" using assms(4) by (cases V) (simp add: drain_cancels_def)
  moreover have "requeue_expired (ti_now I) V = V"
    unfolding requeue_expired_def qt(4) by (cases V) simp
  ultimately have pre: "requeue_expired (ti_now I) (drain_cancels V) = V" by simp
  have none: "sp_engines (sd_supervisor V) (c_name e) = None" using assms(9) unfolding has_engine_def by blast
  have queue: "queued_jobs (c_name e) (sd_store V) = [j]" using qt(1) assms(7) by simp
  obtain S1 x th k where S1: "start_if_idle I e V = (Inr (), S1)" "sd_in_flight S1 = [(?tid, x)]" "if_job_id x = j_job_id j"
    "if_cell x = c_name e" and th: "thread_get ?tid (sd_store S1) = Some th" "t_state th = TRunning"
    and k: "job_get (j_job_id j) (sd_store S1) = Some k" and S2:
    "\<forall>k \<in> set (s_jobs (sd_store S1)). j_state k = JQueued \<longrightarrow> k \<in> set (s_jobs (sd_store V)) \<and> j_job_id k \<noteq> j_job_id j"
    "s_journal (sd_store S1) = s_journal (sd_store V)" "al_faults (sd_log S1) = []"
    "fst (sup_poll (c_name e) (sd_supervisor S1)) = engine_event.Accepted ''fake-turn-1'' # map Note [] @ [Final (''done: '' @ j_payload j)]"
    using start_fake [OF assms(3) queue qt(2,3) assms(10-13,15,6) none, of I]
    by (elim exE conjE) (rule that, assumption+)
  have "j_state k \<noteq> JQueued" if "k \<in> set (s_jobs (sd_store S1))" for k
    using S2(1) assms(2) that unfolding only_task_def job_active_def by blast
  then have idle: "queued_jobs n (sd_store S1) = []" for n
    by (simp add: queued_jobs_def filter_empty_conv)
  have "start_if_idle I x V = (Inr (), V)" if "x \<in> set ?L" "x \<noteq> e" for x
    using that assms(7) assms(8) [of x] qt(1) [of "c_name x"] by (intro skip_cell) auto
  moreover have "start_if_idle I x S1 = (Inr (), S1)" for x by (intro skip_cell disjI2 idle)
  ultimately have starts: "for_each (start_if_idle I) ?L V = (Inr (), S1)"
    using S1(1) assms(5) by (intro for_each_one)
  obtain U where U: "sup_poll (if_cell x) (sd_supervisor S1) =
      (engine_event.Accepted ''fake-turn-1'' # map Note [] @ Final (''done: '' @ j_payload j) # [], U)"
    using S1(4) S2(4) by (metis prod.collapse)
  have "job_get (if_job_id x) (sd_store S1) = Some k" using S1(3) k by simp
  moreover have "turn_of ?tid S1 = Some x" "journal_numbered (sd_store S1)"
    using S1(2) journal_cong(2) [OF S2(2)] assms(14) by (simp_all add: turn_of_def)
  ultimately have "\<exists>T. drain_turn (ti_now I) ?tid S1 = (Inr (), T) \<and> completed ?tid (if_job_id x) ''fake-turn-1''
      (journal_lines ?tid (sd_store S1) @ (''accepted: '' @ ''fake-turn-1'') # [] @ [''final: '' @ ''done: '' @ j_payload j]) T \<and>
      (0 < (50 :: nat) \<longrightarrow> journal_final_answer (journal_tail ?tid 50 (sd_store T)) = Some (''done: '' @ j_payload j))"
    using turn_completes_aux [OF _ th _ _ S2(3) U, where now = "ti_now I" and n = 50] by blast
  then obtain T where
    T: "drain_turn (ti_now I) ?tid S1 = (Inr (), T)"
    "completed ?tid (j_job_id j) ''fake-turn-1'' (journal_lines ?tid (sd_store V) @
      [''accepted: fake-turn-1'', ''final: done: '' @ j_payload j]) T"
    "journal_final_answer (journal_tail ?tid 50 (sd_store T)) = Some (''done: '' @ j_payload j)"
    using S1(3) journal_cong(1) [OF S2(2)] by auto
  have "turn_ids I S1 = [?tid]" by (simp add: turn_ids_def S1(2) one)
  then have "sched_tick I V = (Inr (), T)"
    by (simp add: sched_tick_def pre ids starts T(1))
  with T(2,3) show ?thesis by blast
qed

section \<open>From the request to the answer\<close>

text \<open>What the owner of an idle thread is told.\<close>

lemma owner_gets_answer:
  assumes "thread_get tid (dm_store d) = Some u" "t_created_by_principal u = sender" "t_state u = TIdle"
    "journal_final_answer (journal_tail tid 50 (dm_store d)) = Some answer"
    "reject_client_identity_keys [] q = Inr ()" "parse_cell_result q = Inr tid"
  shows "\<exists>r. handle_result C sender q d = (Inr r, d) \<and> jget ''final_answer'' r = Some (JStr answer) \<and>
    jget ''exit_status'' r = Some (JStr ''done'')"
  using assms
  by (simp add: handle_result_def check_thread_owner_def cell_result_json_def result_of_def jget_def json_opt_def)

text \<open>C6: a task is answered.  In a running daemon, let a cell ask for a task on the fake engine without
  naming a registered cell, at a moment when no job is active and no turn is in flight.  If the
  request is accepted as a new thread, its generated cell name is new and the audit log works, then
  the next tick, whatever the order in which it visits its turns, starts an engine for it, runs the
  task and records it, and from then on \<open>cell_result\<close> gives the caller the engine's answer to the
  very task it sent, with the exit status \<open>done\<close>.\<close>

theorem spawned_task_answered:
  assumes "reachable server_init (server_step cd parse) S"
    and "handle_spawn C sender params (sv_daemon S) =
      (Inr (JObj [(''crewd_thread_id'', JStr tid), (''replayed'', JBool False)]), d)"
    and "parse_cell_spawn params = Inr p" "cs_engine p = Some ''fake''"
    and "\<And>c. cs_cell p = Some c \<Longrightarrow> cell_get c (dm_store (sv_daemon S)) = None"
    and "\<forall>j \<in> set (s_jobs (dm_store (sv_daemon S))). \<not> job_active j" "sd_in_flight (sv_sched S) = []"
    and "dm_cancels (sv_daemon S) = []" "\<not> has_engine n (sd_supervisor (sv_sched S))"
    and "n = ephemeral_cell_name (rc_cell_uuid C)" "rc_now C < YEAR_10000"
    and "n \<notin> c_name ` set (s_cells (dm_store (sv_daemon S))) \<union> t_cell_name ` set (s_threads (dm_store (sv_daemon S)))"
    and "journal_numbered (dm_store (sv_daemon S))" "al_faults (dm_log d) = []"
    and "\<And>xs. set (ti_order I xs) = set xs \<and> length (ti_order I xs) = length xs"
    and "reject_client_identity_keys [] q = Inr ()" "parse_cell_result q = Inr tid"
  shows "\<exists>T r. sched_tick I (sched_view (S\<lparr>sv_daemon := d\<rparr>)) = (Inr (), T) \<and>
    (let d' = sv_daemon (put_sched T (S\<lparr>sv_daemon := d\<rparr>)) in handle_result C' sender q d' = (Inr r, d')) \<and>
    jget ''final_answer'' r = Some (JStr (''done: '' @ cs_task p)) \<and> jget ''exit_status'' r = Some (JStr ''done'')"
proof -
  let ?V = "sched_view (S\<lparr>sv_daemon := d\<rparr>)"
  have "server_ok (S\<lparr>sv_daemon := d\<rparr>)"
    using server_ok_edits [OF serving.inv_reachable [OF assms(1)], of "{}" C sender d]
      edit_spawn [OF rtranclp.rtrancl_refl, of "{}" C sender "sv_daemon S" params] assms(2) by simp
  then have ok: "turns_ok ?V" by (simp add: server_ok_def)
  have "cs_engine p = Some (engine_kind_as_str Fake)" using assms(4) by simp
  from spawn_request_effect [OF assms(2,3) this assms(5)] obtain t j where
    t: "s_threads (dm_store d) = s_threads (dm_store (sv_daemon S)) @ [t]" "thread_get tid (dm_store d) = Some t"
      "t_state t = TSpawning" "t_created_by_principal t = sender" "t_engine_kind t = Fake" "t_cell_name t = n"
      "t_updated_at t = now_rfc3339 (rc_now C)" "t_engine_thread_id t = None" "t_engine_session_id t = None"
    and j: "s_jobs (dm_store d) = s_jobs (dm_store (sv_daemon S)) @ [j]" "j_state j = JQueued" "j_crewd_thread_id j = tid"
      "j_cell_name j = n" "j_payload j = cs_task p"
    and same: "s_cells (dm_store d) = s_cells (dm_store (sv_daemon S))"
      "s_journal (dm_store d) = s_journal (dm_store (sv_daemon S))" "dm_cancels d = dm_cancels (sv_daemon S)"
    unfolding assms(10) by blast
  have view: "sd_core ?V = dm_core d" "sd_in_flight ?V = []" "sd_cancels ?V = []"
    "sd_supervisor ?V = sd_supervisor (sv_sched S)"
    using assms(7,8) same(3) by (simp_all add: sched_view_def)
  have only: "only_task j (dm_store d)" using assms(6) j(1,2) by (auto simp: only_task_def)
  have eph: "ephemeral_startable_defs (dm_store d) = [ephemeral_def t]"
    using startable_task [OF only t(1)] t(6,7) j(4) timestamp_nonzero [OF assms(11)] assms(12) same(1) by simp
  have e: "c_engine (ephemeral_def t) = Fake" "c_name (ephemeral_def t) = n" using t(5,6) by (simp_all add: ephemeral_def_def)
  have new: "x = ephemeral_def t" if "x \<in> set (cell_list_defs (dm_store d) @ [ephemeral_def t])" "c_name x = n" for x
    using that assms(12) same(1) by (auto simp: cell_list_defs_def)
  have jn: "journal_numbered (dm_store d)" using assms(13) journal_cong(2) [OF same(2)] by simp
  obtain T where T: "sched_tick I ?V = (Inr (), T)"
    "completed tid (j_job_id j) ''fake-turn-1'' (journal_lines tid (dm_store d) @
      [''accepted: fake-turn-1'', ''final: done: '' @ j_payload j]) T"
    "journal_final_answer (journal_tail tid 50 (sd_store T)) = Some (''done: '' @ j_payload j)"
    using tick_runs_task [OF ok, of j "ephemeral_def t" t I] only new jn eph e assms(9,14,15) t(2,3,8,9) j(3,4)
    unfolding view by auto
  have "threads_kept (dm_store d) (sd_store T)"
    using work_parts(2) [OF tick_work [OF ok, of I]] T(1) view(1) by simp
  then obtain u where u: "thread_get tid (sd_store T) = Some u" "t_created_by_principal u = sender"
    using t(2,4) by (auto simp: threads_kept_def thread_later_def)
  have "t_state u = TIdle" using T(2) u(1) by (auto simp: completed_def)
  with u T(3) j(5) show ?thesis
    using T(1) owner_gets_answer [of tid "sv_daemon (put_sched T (S\<lparr>sv_daemon := d\<rparr>))" u sender, OF _ _ _ _ assms(16,17)]
    by (simp add: Let_def)
qed

section \<open>An example\<close>

definition task_ctx :: request_ctx where
  "task_ctx = example_ctx\<lparr>rc_cell_uuid := ''01234567''\<rparr>"

definition task_daemon :: daemon where
  "task_daemon = example_daemon\<lparr>dm_acl := [(''dev'', \<lparr>ca_capabilities = {CSpawn}, ca_protected = False,
     ca_send_to_protected = {}, ca_ask_protected = {}, ca_engine = ''codex'', ca_order_preserving = False\<rparr>)]\<rparr>"

definition task_server :: server where
  "task_server = \<lparr>sv_daemon = task_daemon, sv_issuer = file_issuer [], sv_sessions = [],
     sv_sched = scheduler_new (\<lambda>_. None) (empty_store, \<lparr>al_events = [], al_faults = []\<rparr>)\<rparr>"

definition task_request :: json where
  "task_request = JObj [(''engine'', JStr ''fake''), (''task'', JStr ''hi''), (''idempotency_key'', JStr ''k'')]"

definition task_question :: json where
  "task_question = JObj [(''crewd_thread_id'', JStr ''t1'')]"

lemma parse_task: "parse_cell_spawn task_request = Inr \<lparr>cs_cell = None, cs_engine = Some ''fake'', cs_model = None,
    cs_profile = None, cs_cwd = None, cs_worktree = None, cs_task = ''hi'', cs_idempotency_key = ''k'', cs_mode = None\<rparr>"
  by (simp add: parse_cell_spawn_def task_request_def struct_fields_def field_str_def field_opt_str_def)

lemma task_spawned:
  "\<exists>d. handle_spawn task_ctx ''dev'' task_request task_daemon =
      (Inr (JObj [(''crewd_thread_id'', JStr ''t1''), (''replayed'', JBool False)]), d) \<and> al_faults (dm_log d) = []"
proof -
  have n: "ephemeral_cell_name ''01234567'' = ''~ephemeral-01234567''"
    "validate_cell_name_allowing_ephemeral ''~ephemeral-01234567'' = Inr ()" by code_simp+
  have r: "reject_client_identity_keys [] task_request = Inr ()"
    by (simp add: reject_client_identity_keys_def task_request_def FORBIDDEN_def)
  show ?thesis
    by (simp add: handle_spawn_def r parse_task task_daemon_def acl_check_def check_idem_def MAX_IDEMPOTENCY_KEY_BYTES_def
        reserved_name_def requested_engine_def engine_kind_from_db_str_def resolve_spawn_target_def task_ctx_def n
        on_core_def spawn_idempotent_def validate_idempotency_key_def lookup_spawn_request_def empty_store_def
        audit_to_def audit_emit_def assert_kind_def spawn_draft_def AUDIT_KINDS_def in_tx_def spawn_inner_def Let_def
        thread_active_for_cell_def thread_insert_def thread_get_def job_enqueue_inner_def job_active_count_for_cell_def
        count_rows_def QUEUE_DEPTH_DEFAULT_def job_get_def spawned_json_def spawning_thread_def example_ctx_def)
qed

theorem spawned_task_answered_witness:
  "\<exists>d T r. handle_spawn task_ctx ''dev'' task_request task_daemon =
      (Inr (JObj [(''crewd_thread_id'', JStr ''t1''), (''replayed'', JBool False)]), d) \<and>
    sched_tick example_input (sched_view (task_server\<lparr>sv_daemon := d\<rparr>)) = (Inr (), T) \<and>
    fst (handle_result task_ctx ''dev'' task_question (sv_daemon (put_sched T (task_server\<lparr>sv_daemon := d\<rparr>)))) = Inr r \<and>
    jget ''final_answer'' r = Some (JStr ''done: hi'')"
proof -
  obtain d where d: "handle_spawn task_ctx ''dev'' task_request (sv_daemon task_server) =
      (Inr (JObj [(''crewd_thread_id'', JStr ''t1''), (''replayed'', JBool False)]), d)" "al_faults (dm_log d) = []"
    using task_spawned by (auto simp: task_server_def)
  have "server_init task_server"
    by (simp add: server_init_def task_server_def task_daemon_def scheduler_new_def)
  then have re: "reachable server_init (server_step token_codec example_parse) task_server"
    by (rule reachable.intros)
  have st: "dm_store (sv_daemon task_server) = empty_store" "sd_in_flight (sv_sched task_server) = []"
    "dm_cancels (sv_daemon task_server) = []" "\<not> has_engine n (sd_supervisor (sv_sched task_server))" for n
    by (simp_all add: task_server_def task_daemon_def scheduler_new_def supervisor_new_def has_engine_def)
      (simp add: example_daemon_def)
  have sql: "rc_now task_ctx < YEAR_10000" by (simp add: task_ctx_def YEAR_10000_def)
  have q: "reject_client_identity_keys [] task_question = Inr ()" "parse_cell_result task_question = Inr ''t1''"
    by (simp_all add: reject_client_identity_keys_def task_question_def FORBIDDEN_def parse_cell_result_def
        struct_fields_def field_str_def)
  have "\<exists>T r. sched_tick example_input (sched_view (task_server\<lparr>sv_daemon := d\<rparr>)) = (Inr (), T) \<and>
      (let d' = sv_daemon (put_sched T (task_server\<lparr>sv_daemon := d\<rparr>)) in
         handle_result task_ctx ''dev'' task_question d' = (Inr r, d')) \<and>
      jget ''final_answer'' r = Some (JStr (''done: '' @ ''hi'')) \<and> jget ''exit_status'' r = Some (JStr ''done'')"
    using spawned_task_answered [OF re d(1) parse_task _ _ _ st(2,3,4) refl sql _ _ d(2) _ q, of example_input task_ctx]
    by (simp add: st(1) empty_store_def journal_numbered_def thread_journal_def example_input_def)
  then obtain T r where "sched_tick example_input (sched_view (task_server\<lparr>sv_daemon := d\<rparr>)) = (Inr (), T)"
    "fst (handle_result task_ctx ''dev'' task_question (sv_daemon (put_sched T (task_server\<lparr>sv_daemon := d\<rparr>)))) = Inr r"
    "jget ''final_answer'' r = Some (JStr ''done: hi'')" by (auto simp: Let_def)
  then show ?thesis using d(1) by (auto simp: task_server_def)
qed

end
