(* ===== verification/Sections.thy ===== *)
theory Sections
  imports System
begin

text \<open>
  The handlers of \<open>handlers.rs\<close> at the granularity of their locks.  A request is a program whose steps
  are its lock sections: a snapshot of the access control list, a read of the store, a count against
  the quota, an appended event, the block that holds the store lock, and so on.  Between two sections
  other requests may run.  \<open>cell_await\<close> parks on the waker of its ask.  An event that the code appends
  while it holds another lock belongs to the section of that lock.
\<close>

section \<open>Programs of lock sections\<close>

datatype 'a prog =
    Ret 'a
  | Sec "daemon \<Rightarrow> 'a prog \<times> daemon"
  | Park string await_guard "bool \<Rightarrow> 'a prog"

primrec seq :: "'a prog \<Rightarrow> ('a \<Rightarrow> 'b prog) \<Rightarrow> 'b prog" where
  "seq (Ret a) k = k a"
| "seq (Sec f) k = Sec (\<lambda>d. map_prod (\<lambda>p. seq p k) id (f d))"
| "seq (Park i g h) k = Park i g (\<lambda>b. seq (h b) k)"

definition seq_ok :: "'a res prog \<Rightarrow> ('a \<Rightarrow> 'b res prog) \<Rightarrow> 'b res prog" where
  "seq_ok p k = seq p (\<lambda>r. case r of Inl e \<Rightarrow> Ret (Inl e) | Inr a \<Rightarrow> k a)"

text \<open>Single sections: a function of the daemon's state, a read of it, and a change without a result.\<close>

definition locked :: "(daemon \<Rightarrow> 'a \<times> daemon) \<Rightarrow> 'a prog" where
  "locked f = Sec (\<lambda>d. map_prod Ret id (f d))"

definition peek :: "(daemon \<Rightarrow> 'a) \<Rightarrow> 'a prog" where
  "peek f = locked (\<lambda>d. (f d, d))"

definition effect :: "(daemon \<Rightarrow> daemon) \<Rightarrow> unit prog" where
  "effect f = locked (\<lambda>d. ((), f d))"

definition checked :: "'a res \<Rightarrow> ('a \<Rightarrow> 'b res prog) \<Rightarrow> 'b res prog" where
  "checked r k = (case r of Inl e \<Rightarrow> Ret (Inl e) | Inr a \<Rightarrow> k a)"

text \<open>A check against the access control list takes a snapshot of it.\<close>

definition acl_snapshot :: "(acl \<Rightarrow> 'a res) \<Rightarrow> ('a \<Rightarrow> 'b res prog) \<Rightarrow> 'b res prog" where
  "acl_snapshot f k = seq (peek (\<lambda>d. f (dm_acl d))) (\<lambda>r. checked r k)"

definition audited_refusal :: "audit_draft \<Rightarrow> bus_error \<Rightarrow> 'a res prog" where
  "audited_refusal dr e = seq_ok (locked (audit_dm dr)) (\<lambda>_. Ret (Inl e))"

section \<open>Running a program alone\<close>

datatype 'a outcome = Finished 'a | Parked string await_guard "bool \<Rightarrow> 'a prog"

primrec run_alone :: "'a prog \<Rightarrow> daemon \<Rightarrow> 'a outcome \<times> daemon" where
  "run_alone (Ret a) = (\<lambda>d. (Finished a, d))"
| "run_alone (Sec f) = (\<lambda>d. case map_prod run_alone id (f d) of (go, d') \<Rightarrow> go d')"
| "run_alone (Park i g h) = (\<lambda>d. (Parked i g h, d))"

lemma prog_induct [case_names Ret Sec Park]:
  assumes "\<And>a. P (Ret a)" "\<And>f. (\<And>d. P (fst (f d))) \<Longrightarrow> P (Sec f)" "\<And>i g h. (\<And>b. P (h b)) \<Longrightarrow> P (Park i g h)"
  shows "P p"
proof (induction p)
  case (Sec f)
  have "P (fst (f d))" for d
    by (rule Sec [of "f d"]) (simp_all add: fsts.simps prod_eq_iff)
  then show ?case by (rule assms(2))
qed (use assms in \<open>auto\<close>)

lemma run_alone_seq:
  "run_alone (seq p k) d = (case run_alone p d of
     (Finished a, d') \<Rightarrow> run_alone (k a) d' | (Parked i g h, d') \<Rightarrow> (Parked i g (\<lambda>b. seq (h b) k), d'))"
proof (induction p arbitrary: d rule: prog_induct)
  case (Sec f)
  from Sec [of d "snd (f d)"] show ?case by (simp add: case_prod_beta)
qed simp_all

abbreviation finished :: "'a \<times> daemon \<Rightarrow> 'a outcome \<times> daemon" where
  "finished r \<equiv> (Finished (fst r), snd r)"

lemma run_alone_basic [simp]:
  "run_alone (locked f) d = finished (f d)"
  "run_alone (peek g) d = (Finished (g d), d)"
  "run_alone (effect h) d = (Finished (), h d)"
  by (simp_all add: locked_def peek_def effect_def case_prod_beta)

named_theorems run_rules \<open>programs that run to their end when nothing interferes\<close>

lemma run_checked [run_rules]:
  "(\<And>a. r = Inr a \<Longrightarrow> run_alone (k a) d = finished (k' a)) \<Longrightarrow> run_alone (checked r k) d = finished (require r d k')"
  by (simp add: checked_def require_def split: sum.split)

lemma run_acl [run_rules]:
  "(\<And>a. f (dm_acl d) = Inr a \<Longrightarrow> run_alone (k a) d = finished (k' a)) \<Longrightarrow>
   run_alone (acl_snapshot f k) d = finished (require (f (dm_acl d)) d k')"
  by (simp add: acl_snapshot_def run_alone_seq run_checked)

lemma run_seq_ok [run_rules]:
  "run_alone p d = finished r \<Longrightarrow> (\<And>a d'. r = (Inr a, d') \<Longrightarrow> run_alone (k a) d' = finished (k' a d')) \<Longrightarrow>
   run_alone (seq_ok p k) d = finished (bind_res r k')"
  by (cases r; cases "fst r") (auto simp: seq_ok_def run_alone_seq)

lemma run_peek [run_rules]:
  "run_alone (k (f d)) d = finished r \<Longrightarrow> run_alone (seq (peek f) k) d = finished r"
  by (simp add: run_alone_seq)

lemma run_effect [run_rules]:
  "run_alone (k ()) (f d) = finished r \<Longrightarrow> run_alone (seq (effect f) k) d = finished r"
  by (simp add: run_alone_seq)

lemma run_refusal [simp]:
  "run_alone (audited_refusal dr e) d = finished (bind_res (audit_dm dr d) (\<lambda>_ d. (Inl e, d)))"
  unfolding audited_refusal_def by (rule run_seq_ok) simp_all

section \<open>Authorisation and admission\<close>

definition prog_authorize :: "string \<Rightarrow> string \<Rightarrow> capability \<Rightarrow> reach_via \<Rightarrow> unit res prog" where
  "prog_authorize sender target cap via =
    seq (peek dm_acl) (\<lambda>a.
      checked (acl_check a sender cap) (\<lambda>_.
      if \<not> is_registered a target then Ret (Inl UnknownCell)
      else case check_reach a sender target via of
        Inl e \<Rightarrow> audited_refusal (mk_draft ''protected_access_denied'' None (Some sender) (Some target) ''denied'' None) e
      | Inr _ \<Rightarrow> Ret (Inr ())))"

abbreviation quota_draft :: "string \<Rightarrow> string option \<Rightarrow> audit_draft" where
  "quota_draft sender target \<equiv> mk_draft ''quota_exceeded'' None (Some sender) target ''rejected'' None"

definition prog_rate :: "nat \<Rightarrow> string \<Rightarrow> string option \<Rightarrow> capability \<Rightarrow> nat \<Rightarrow> unit res prog" where
  "prog_rate now_ms sender target cap units =
    seq (locked (\<lambda>d. case note_and_check_sender sender now_ms units (dm_quota d) of (r, q) \<Rightarrow> (r, d\<lparr>dm_quota := q\<rparr>)))
      (\<lambda>r. case r of Inl e \<Rightarrow> audited_refusal (quota_draft sender target) e
      | Inr _ \<Rightarrow>
    seq (locked (\<lambda>d. case note_and_check_capability sender cap now_ms (dm_quota d) of (r, q) \<Rightarrow> (r, d\<lparr>dm_quota := q\<rparr>)))
      (\<lambda>r. case r of Inl e \<Rightarrow> audited_refusal (quota_draft sender target) e | Inr _ \<Rightarrow> Ret (Inr ())))"

text \<open>The depth check keeps the quota lock while it appends the event of a refusal.\<close>

definition prog_admit :: "nat \<Rightarrow> string \<Rightarrow> string \<Rightarrow> capability \<Rightarrow> nat \<Rightarrow> unit res prog" where
  "prog_admit now_ms sender target cap units =
    seq (peek (\<lambda>d. pending_deliveries_count target (dm_store d))) (\<lambda>pending.
    seq_ok (locked (\<lambda>d. case check_queue_depth (dm_quota d) pending of
        Inl e \<Rightarrow> quota_exceeded sender (Some target) e d | Inr _ \<Rightarrow> (Inr (), d))) (\<lambda>_.
      prog_rate now_ms sender (Some target) cap units))"

lemma run_authorize [simp]:
  "run_alone (prog_authorize sender target cap via) d = finished (authorize_outbound sender target cap via d)"
  unfolding prog_authorize_def authorize_outbound_def
  by (intro run_peek run_checked) (simp split: sum.split)

lemma run_rate [simp]:
  "run_alone (prog_rate now sender target cap units) d = finished (admit_rate now sender target cap units d)"
  by (simp add: prog_rate_def admit_rate_def run_alone_seq quota_exceeded_def split: prod.split sum.split)

lemma bind_quota_exceeded: "bind_res (quota_exceeded sender target e d) k = quota_exceeded sender target e d"
  by (simp add: quota_exceeded_def bind_res_def split: prod.split sum.split)

lemma run_admit [simp]:
  "run_alone (prog_admit now sender target cap units) d = finished (admit_outbound now sender target cap units d)"
proof -
  let ?n = "pending_deliveries_count target (dm_store d)"
  have "admit_outbound now sender target cap units d =
      bind_res (case check_queue_depth (dm_quota d) ?n of Inl e \<Rightarrow> quota_exceeded sender (Some target) e d | Inr _ \<Rightarrow> (Inr (), d))
        (\<lambda>_ d. admit_rate now sender (Some target) cap units d)"
    by (simp add: admit_outbound_def bind_quota_exceeded split: sum.split)
  then show ?thesis
    unfolding prog_admit_def by (simp only:) (intro run_peek run_seq_ok; simp)
qed

section \<open>Messages\<close>

definition prog_send :: "request_ctx \<Rightarrow> string \<Rightarrow> json \<Rightarrow> json res prog" where
  "prog_send C sender params =
    checked (reject_client_identity_keys [] params) (\<lambda>_.
    checked (parse_send params) (\<lambda>p.
    let mt = or_value MTask (snd_msg_type p) in
    acl_snapshot (\<lambda>a. check_msg_type a sender mt) (\<lambda>_.
    seq_ok (prog_authorize sender (snd_to_cell p) CSend ViaSend) (\<lambda>_.
    checked (check_idem (or_value [] (snd_idempotency_key p))) (\<lambda>_.
    checked (check_body (snd_body p)) (\<lambda>_.
    acl_snapshot (\<lambda>a. check_attach a sender (snd_file_refs p)) (\<lambda>_.
    seq_ok (prog_admit (rc_now_ms C) sender (snd_to_cell p) CSend 1) (\<lambda>_.
      locked (persist_send C sender p mt (or_value (rc_key C) (snd_idempotency_key p)))))))))))"

lemma run_send: "run_alone (prog_send C sender params) d = finished (handle_send C sender params d)"
  unfolding prog_send_def handle_send_def Let_def by (intro run_rules) simp_all

text \<open>The cap on pending asks is checked against a count that was read in a section of its own.\<close>

definition check_ask_cap :: "string \<Rightarrow> string \<Rightarrow> nat \<Rightarrow> (unit, daemon) op" where
  "check_ask_cap sender target open_asks d =
    (case check_pending_ask_cap (dm_quota d) open_asks of
      Inl e \<Rightarrow> quota_exceeded sender (Some target) e d | Inr _ \<Rightarrow> (Inr (), d))"

definition prog_ask :: "request_ctx \<Rightarrow> string \<Rightarrow> json \<Rightarrow> json res prog" where
  "prog_ask C sender params =
    checked (reject_client_identity_keys [] params) (\<lambda>_.
    checked (parse_ask params) (\<lambda>p.
    seq_ok (prog_authorize sender (ask_to_cell p) CAsk ViaAsk) (\<lambda>_.
    checked (check_idem (or_value [] (ask_idempotency_key p))) (\<lambda>_.
    checked (check_body (ask_body p)) (\<lambda>_.
    acl_snapshot (\<lambda>a. check_attach a sender (ask_file_refs p)) (\<lambda>_.
    seq_ok (prog_admit (rc_now_ms C) sender (ask_to_cell p) CAsk 1) (\<lambda>_.
    seq (peek (\<lambda>d. pending_asks_count sender (dm_store d))) (\<lambda>open_asks.
    seq_ok (locked (check_ask_cap sender (ask_to_cell p) open_asks)) (\<lambda>_.
      locked (persist_ask C sender p (or_value (rc_key C) (ask_idempotency_key p))))))))))))"

lemma run_ask: "run_alone (prog_ask C sender params) d = finished (handle_ask C sender params d)"
proof -
  have "(case check_pending_ask_cap (dm_quota d) n of
      Inl e \<Rightarrow> quota_exceeded sender (Some target) e d
    | Inr _ \<Rightarrow> persist_ask C sender p key d) =
    bind_res (check_ask_cap sender target n d) (\<lambda>_. persist_ask C sender p key)" for n target p key d
    by (simp add: check_ask_cap_def bind_quota_exceeded split: sum.split)
  then show ?thesis
    unfolding prog_ask_def handle_ask_def Let_def by (simp only:) (intro run_rules; simp)
qed

section \<open>Replies\<close>

definition after_reply :: "string \<Rightarrow> reply_params \<Rightarrow> ask_row \<Rightarrow> reply_section \<Rightarrow> json res prog" where
  "after_reply sender p ask out =
    (case out of
      Stored v \<Rightarrow> seq (effect (notify (rp_ask_id p))) (\<lambda>_. Ret (Inr v))
    | Repeated v \<Rightarrow> Ret (Inr v)
    | Differs \<Rightarrow> audited_refusal
        (mk_draft ''duplicate_reply'' None (Some sender) (Some (a_from_cell ask)) ''dropped'' None) ReplyExists)"

definition prog_reply :: "request_ctx \<Rightarrow> string \<Rightarrow> json \<Rightarrow> json res prog" where
  "prog_reply C sender params =
    checked (reject_client_identity_keys [''ask_id''] params) (\<lambda>_.
    checked (parse_reply params) (\<lambda>p.
    checked (check_idem (or_value [] (rp_idempotency_key p))) (\<lambda>_.
    checked (check_body (rp_body p)) (\<lambda>_.
    acl_snapshot (\<lambda>a. check_attach a sender (rp_file_refs p)) (\<lambda>_.
    acl_snapshot (\<lambda>a. acl_check a sender CReply) (\<lambda>_.
    seq (peek (\<lambda>d. get_ask (rp_ask_id p) (dm_store d))) (\<lambda>found.
    case found of
      None \<Rightarrow> Ret (Inl AskNotFound)
    | Some ask \<Rightarrow>
        if a_to_cell ask \<noteq> sender then Ret (Inl AskNotFound)
        else seq_ok (locked (store_reply C sender p ask (or_value (rc_key C) (rp_idempotency_key p))))
               (after_reply sender p ask))))))))"

lemma persist_reply_sections:
  "finished (persist_reply C sender p ask key d) =
   run_alone (seq_ok (locked (store_reply C sender p ask key)) (after_reply sender p ask)) d"
  unfolding persist_reply_def
  by (rule run_seq_ok [symmetric]) (simp_all add: after_reply_def run_alone_seq split: reply_section.split)

lemma run_reply: "run_alone (prog_reply C sender params) d = finished (handle_reply C sender params d)"
  unfolding prog_reply_def handle_reply_def Let_def
  by (intro run_rules) (auto simp: persist_reply_sections split: option.split)

section \<open>Awaiting\<close>

text \<open>The full envelope of the reply is read in a section of its own.\<close>

definition prog_answered :: "ask_row \<Rightarrow> json prog" where
  "prog_answered ask =
    (case a_reply_message_id ask of
      None \<Rightarrow> peek (\<lambda>_. answered empty_store ask)
    | Some _ \<Rightarrow> peek (\<lambda>d. answered (dm_store d) ask))"

text \<open>The wait-for graph stays locked while a refused activation is audited.\<close>

definition activate_edge :: "string \<Rightarrow> ask_row \<Rightarrow> (await_guard, daemon) op" where
  "activate_edge sender ask d =
    (case try_activate_await (dm_graph d) sender (a_to_cell ask) of
      (Inl e, g) \<Rightarrow>
        bind_res (audit_dm (mk_draft ''deadlock_prevented'' None (Some sender) (Some (a_to_cell ask))
          ''rejected'' None) (d\<lparr>dm_graph := g\<rparr>)) (\<lambda>_ d. (Inl e, d))
    | (Inr guard, g) \<Rightarrow> (Inr guard, d\<lparr>dm_graph := g\<rparr>))"

text \<open>What a request does once its wait has ended, by a permit or by its timeout.\<close>

definition prog_resume :: "ask_row \<Rightarrow> await_guard \<Rightarrow> bool \<Rightarrow> json res prog" where
  "prog_resume ask guard woken =
    seq (peek (\<lambda>d. or_value ask (get_ask (a_ask_id ask) (dm_store d)))) (\<lambda>ask2.
    seq (if \<not> woken then Ret still_pending_json
         else case a_state ask2 of
           AAnswered \<Rightarrow> prog_answered ask2
         | AExpired \<Rightarrow> Ret expired_json
         | APending \<Rightarrow> Ret still_pending_json) (\<lambda>out.
    seq (effect (await_cancelled guard)) (\<lambda>_. Ret (Inr out))))"

definition prog_await :: "string \<Rightarrow> json \<Rightarrow> json res prog" where
  "prog_await sender params =
    checked (reject_client_identity_keys [''ask_id''] params) (\<lambda>_.
    checked (parse_await params) (\<lambda>p.
    seq (peek (\<lambda>d. get_ask (aw_ask_id p) (dm_store d))) (\<lambda>found.
    case found of
      None \<Rightarrow> Ret (Inl AskNotFound)
    | Some ask \<Rightarrow>
        if a_from_cell ask \<noteq> sender then Ret (Inl AskNotFound)
        else if a_state ask = AAnswered then seq (prog_answered ask) (\<lambda>v. Ret (Inr v))
        else if a_state ask = AExpired then Ret (Inr expired_json)
        else seq_ok (locked (activate_edge sender ask)) (\<lambda>guard.
             seq (effect (await_register (a_ask_id ask))) (\<lambda>_.
               Park (a_ask_id ask) guard (prog_resume ask guard))))))"

lemma run_answered [simp]: "run_alone (prog_answered ask) d = (Finished (answered (dm_store d) ask), d)"
  by (simp add: prog_answered_def answered_def split: option.split)

text \<open>Alone, an await is \<open>await_begin\<close>, the registration of its waker, and later \<open>await_finish\<close>.\<close>

lemma run_await:
  "run_alone (prog_await sender params) d = (case await_begin sender params d of
     (Inl e, d') \<Rightarrow> (Finished (Inl e), d')
   | (Inr (AwaitDone v), d') \<Rightarrow> (Finished (Inr v), d')
   | (Inr (AwaitWait ask guard), d') \<Rightarrow>
       (Parked (a_ask_id ask) guard (prog_resume ask guard), await_register (a_ask_id ask) d'))"
  by (auto simp: prog_await_def await_begin_def checked_def require_def run_alone_seq seq_ok_def activate_edge_def
      bind_res_def split: sum.split option.split prod.split)

lemma run_resume:
  "run_alone (prog_resume ask guard woken) (if woken then take_permit (a_ask_id ask) d else d) =
   finished (await_finish woken ask guard d)"
  by (auto simp: prog_resume_def await_finish_def Let_def run_alone_seq take_permit_def await_cancelled_def or_value_def
      split: ask_state.split option.split)

section \<open>Inbox, list and broadcast\<close>

definition pull_inbox :: "string \<Rightarrow> nat \<Rightarrow> (json, daemon) op" where
  "pull_inbox sender n d =
    (case inbox sender n (dm_store d) of
      ((msgs, has_more), s) \<Rightarrow>
        (Inr (JObj [(''messages'', JArr (map envelope_json msgs)), (''has_more'', JBool has_more)]), set_store s d))"

definition prog_inbox :: "request_ctx \<Rightarrow> string \<Rightarrow> json \<Rightarrow> json res prog" where
  "prog_inbox C sender params =
    checked (reject_client_identity_keys [] params) (\<lambda>_.
    checked (parse_inbox params) (\<lambda>p.
    acl_snapshot (\<lambda>a. acl_check a sender CReadInbox) (\<lambda>_.
      locked (pull_inbox sender (min (or_value 50 (ib_limit p)) 200)))))"

definition prog_list :: "request_ctx \<Rightarrow> string \<Rightarrow> json \<Rightarrow> json res prog" where
  "prog_list C sender params =
    checked (reject_client_identity_keys [] params) (\<lambda>_.
    acl_snapshot (\<lambda>a. acl_check a sender CListCells) (\<lambda>_.
    seq (peek (\<lambda>d. acl_cells (dm_acl d))) (\<lambda>cells.
    seq (peek (\<lambda>d. map (fabric_json (dm_store d)) (cell_list_defs (dm_store d)))) (\<lambda>fabric.
      Ret (Inr (JObj
        [(''cells'', JArr (map (\<lambda>(n, e). JObj [(''name'', JStr n), (''engine'', JStr e)]) cells)),
         (''fabric'', JArr fabric)]))))))"

definition prog_broadcast :: "request_ctx \<Rightarrow> string \<Rightarrow> json \<Rightarrow> json res prog" where
  "prog_broadcast C sender params =
    checked (reject_client_identity_keys [] params) (\<lambda>_.
    checked (parse_broadcast params) (\<lambda>p.
    let mt = or_value MNote (bc_msg_type p) in
    acl_snapshot (\<lambda>a. check_msg_type a sender mt) (\<lambda>_.
    checked (check_idem (or_value [] (bc_idempotency_key p))) (\<lambda>_.
    checked (check_body (bc_body p)) (\<lambda>_.
    acl_snapshot (\<lambda>a. check_attach a sender (bc_file_refs p)) (\<lambda>_.
    seq (peek dm_acl) (\<lambda>a.
    checked (acl_check a sender CBroadcast) (\<lambda>_.
    let (included, denied) = recipients_for_broadcast a sender in
    seq_ok (prog_rate (rc_now_ms C) sender None CBroadcast (max (length included) 1)) (\<lambda>_.
      locked (persist_broadcast C sender p mt included denied (or_value (rc_key C) (bc_idempotency_key p))))))))))))"

lemma run_inbox: "run_alone (prog_inbox C sender params) d = finished (handle_inbox C sender params d)"
  unfolding prog_inbox_def handle_inbox_def by (intro run_rules) (simp add: pull_inbox_def split: prod.split)

lemma run_list: "run_alone (prog_list C sender params) d = finished (handle_list C sender params d)"
  unfolding prog_list_def handle_list_def by (intro run_rules) simp

lemma run_broadcast: "run_alone (prog_broadcast C sender params) d = finished (handle_broadcast C sender params d)"
  unfolding prog_broadcast_def handle_broadcast_def Let_def case_prod_beta by (intro run_rules) simp_all

section \<open>Cells, threads and jobs\<close>

definition prog_spawn :: "request_ctx \<Rightarrow> string \<Rightarrow> json \<Rightarrow> json res prog" where
  "prog_spawn C sender params =
    checked (reject_client_identity_keys [] params) (\<lambda>_.
    checked (parse_cell_spawn params) (\<lambda>p.
    acl_snapshot (\<lambda>a. acl_check a sender CSpawn) (\<lambda>_.
    checked (check_idem (cs_idempotency_key p)) (\<lambda>_.
    if reserved_name (cs_cell p) then Ret (Inl PolicyDenied)
    else
    seq (peek (\<lambda>d. case cs_cell p of Some c \<Rightarrow> cell_get c (dm_store d) | None \<Rightarrow> None)) (\<lambda>named.
    checked (requested_engine (cs_engine p)) (\<lambda>engine.
    checked (resolve_spawn_target named engine (cs_model p) (cs_profile p) (cs_cwd p)) (\<lambda>target.
    let (cell, engine, model, profile, cwd) = launch_of (rc_cell_uuid C) target;
        req = \<lparr>sr_caller = sender, sr_cell_name = cell, sr_idempotency_key = cs_idempotency_key p,
               sr_payload = cs_task p\<rparr>
    in seq_ok (locked (on_core (spawn_idempotent (rc_now C) (rc_thread_id C) (rc_job_id C) req engine model
                   profile cwd (cs_worktree p) QUEUE_DEPTH_DEFAULT)))
         (\<lambda>out. Ret (Inr (spawned_json out))))))))))"

definition enqueue_task :: "request_ctx \<Rightarrow> cell_send_task_params \<Rightarrow> (json, daemon) op" where
  "enqueue_task C p d =
    (case thread_get (st_crewd_thread_id p) (dm_store d) of
      None \<Rightarrow> (Inl UnknownCell, d)
    | Some t \<Rightarrow>
        if thread_terminal t \<and> t_engine_kind t = Pi then (Inl ThreadNotResumable, d)
        else bind_res (on_store (job_enqueue (rc_now C) (rc_job_id C) (st_crewd_thread_id p) (t_cell_name t)
                 (st_message p) QUEUE_DEPTH_DEFAULT) d)
               (\<lambda>job d. (Inr (JObj [(''job_id'', JStr (j_job_id job))]), d)))"

definition prog_send_task :: "request_ctx \<Rightarrow> string \<Rightarrow> json \<Rightarrow> json res prog" where
  "prog_send_task C sender params =
    checked (reject_client_identity_keys [] params) (\<lambda>_.
    checked (parse_cell_send_task params) (\<lambda>p.
    acl_snapshot (\<lambda>a. acl_check a sender CSpawn) (\<lambda>_. locked (enqueue_task C p))))"

text \<open>The jobs and the thread change under the store lock; the event and the signal follow.\<close>

definition cancel_section :: "request_ctx \<Rightarrow> string \<Rightarrow> string \<Rightarrow> (nat \<times> string, daemon) op" where
  "cancel_section C sender tid d =
    (case thread_get tid (dm_store d) of
      None \<Rightarrow> (Inl UnknownCell, d)
    | Some t \<Rightarrow>
        require (check_thread_owner (dm_acl d) sender t) d (\<lambda>_.
        bind_res (on_store (cancel_thread C t) d) (\<lambda>n d. (Inr (n, t_cell_name t), d))))"

definition prog_cancel :: "request_ctx \<Rightarrow> string \<Rightarrow> json \<Rightarrow> json res prog" where
  "prog_cancel C sender params =
    checked (reject_client_identity_keys [] params) (\<lambda>_.
    checked (parse_cell_cancel params) (\<lambda>tid.
    acl_snapshot (\<lambda>a. acl_check a sender CSpawn) (\<lambda>_.
    seq_ok (locked (cancel_section C sender tid)) (\<lambda>(n, cell).
    seq_ok (locked (audit_dm (mk_draft ''cell_cancelled'' (Some tid) (Some sender) None ''cancelled'' None))) (\<lambda>_.
    seq (effect (\<lambda>d. d\<lparr>dm_cancels := dm_cancels d @ [cell]\<rparr>)) (\<lambda>_.
      Ret (Inr (JObj [(''cancelled_jobs'', JInt (int n))]))))))))"

lemma run_spawn: "run_alone (prog_spawn C sender params) d = finished (handle_spawn C sender params d)"
  unfolding prog_spawn_def handle_spawn_def
  by (intro run_rules) (auto simp: Let_def case_prod_beta intro!: run_rules)

lemma run_send_task: "run_alone (prog_send_task C sender params) d = finished (handle_send_task C sender params d)"
  unfolding prog_send_task_def handle_send_task_def by (intro run_rules) (simp add: enqueue_task_def)

lemma run_cancel: "run_alone (prog_cancel C sender params) d = finished (handle_cancel C sender params d)"
proof -
  have "(case thread_get tid (dm_store d) of None \<Rightarrow> (Inl UnknownCell, d)
      | Some t \<Rightarrow> require (check_thread_owner (dm_acl d) sender t) d (\<lambda>_.
          bind_res (on_store (cancel_thread C t) d) (\<lambda>n d.
          bind_res (audit_dm (mk_draft ''cell_cancelled'' (Some tid) (Some sender) None ''cancelled'' None) d) (\<lambda>_ d.
            (Inr (JObj [(''cancelled_jobs'', JInt (int n))]), d\<lparr>dm_cancels := dm_cancels d @ [t_cell_name t]\<rparr>))))) =
    bind_res (cancel_section C sender tid d) (\<lambda>(n, cell) d.
      bind_res (audit_dm (mk_draft ''cell_cancelled'' (Some tid) (Some sender) None ''cancelled'' None) d) (\<lambda>_ d.
        (Inr (JObj [(''cancelled_jobs'', JInt (int n))]), d\<lparr>dm_cancels := dm_cancels d @ [cell]\<rparr>)))" for tid d
    by (auto simp: cancel_section_def require_def bind_res_def split: option.split sum.split prod.split)
  then show ?thesis
    unfolding prog_cancel_def handle_cancel_def by (simp only:) (intro run_rules; auto intro!: run_rules)
qed

text \<open>A status or result request holds the store lock throughout.\<close>

definition status_section :: "string \<Rightarrow> string option \<Rightarrow> (json, daemon) op" where
  "status_section sender p d =
    (case p of
      Some tid \<Rightarrow>
        (case thread_get tid (dm_store d) of
          None \<Rightarrow> (Inl UnknownCell, d)
        | Some t \<Rightarrow> require (check_thread_owner (dm_acl d) sender t) d (\<lambda>_.
            (Inr (JObj [(''threads'', JArr [thread_status_value (dm_store d) t])]), d)))
    | None \<Rightarrow>
        (Inr (JObj [(''threads'', JArr (concat (map (own_active_thread sender (dm_store d))
            (cell_list_defs (dm_store d)))))]), d))"

definition result_section :: "string \<Rightarrow> string \<Rightarrow> (json, daemon) op" where
  "result_section sender tid d =
    (case thread_get tid (dm_store d) of
      None \<Rightarrow> (Inl UnknownCell, d)
    | Some t \<Rightarrow> require (check_thread_owner (dm_acl d) sender t) d (\<lambda>_.
        (Inr (cell_result_json (result_of t (journal_tail tid 50 (dm_store d)))), d)))"

definition prog_status :: "request_ctx \<Rightarrow> string \<Rightarrow> json \<Rightarrow> json res prog" where
  "prog_status C sender params =
    checked (reject_client_identity_keys [] params) (\<lambda>_.
    checked (parse_cell_status params) (\<lambda>p. locked (status_section sender p)))"

definition prog_result :: "request_ctx \<Rightarrow> string \<Rightarrow> json \<Rightarrow> json res prog" where
  "prog_result C sender params =
    checked (reject_client_identity_keys [] params) (\<lambda>_.
    checked (parse_cell_result params) (\<lambda>tid. locked (result_section sender tid)))"

lemma run_status: "run_alone (prog_status C sender params) d = finished (handle_status C sender params d)"
  unfolding prog_status_def handle_status_def status_section_def by (intro run_rules) simp

lemma run_result: "run_alone (prog_result C sender params) d = finished (handle_result C sender params d)"
  unfolding prog_result_def handle_result_def by (intro run_rules) (simp add: result_section_def)

section \<open>Correlation reports and operator calls\<close>

definition prog_report :: "request_ctx \<Rightarrow> string \<Rightarrow> json \<Rightarrow> json res prog" where
  "prog_report C sender params =
    checked (reject_client_identity_keys [''message_id''] params) (\<lambda>_.
    checked (parse_correlation params) (\<lambda>p.
    seq (peek (\<lambda>d. delivery_state_of (co_message_id p) sender (dm_store d))) (\<lambda>st.
    if st \<notin> {Inr DDelivered, Inr DAcked} then Ret (Inl AclDenied)
    else
    seq (peek (\<lambda>d. get_envelope (co_message_id p) (dm_store d))) (\<lambda>found.
    case found of
      None \<Rightarrow> Ret (Inl Internal)
    | Some env \<Rightarrow>
        seq_ok (locked (audit_dm (mk_draft ''acked'' (Some (co_message_id p)) (Some sender) None ''ok''
            (Some (JObj [(''causal'', JBool True), (''message_id'', JStr (co_message_id p)),
               (''tool'', JStr (co_tool p)), (''high_risk'', JBool (co_high_risk p)),
               (''outcome'', JStr (co_outcome p)),
               (''msg_type'', JStr (msg_type_as_str (e_msg_type env)))])))))
          (\<lambda>_. Ret (Inr (JObj [(''recorded'', JBool True)])))))))"

definition prog_op_status :: "request_ctx \<Rightarrow> string \<Rightarrow> json \<Rightarrow> json res prog" where
  "prog_op_status C sender params =
    checked (reject_client_identity_keys [] params) (\<lambda>_.
    acl_snapshot (\<lambda>a. acl_check a sender CReadAudit) (\<lambda>_.
    seq (peek (\<lambda>d. (pending_deliveries_total (dm_store d), open_asks_total (dm_store d)))) (\<lambda>(pending, open_asks).
      Ret (Inr (JObj [(''head_hash'', JStr (rc_head_hash C)), (''pending_deliveries'', JInt (int pending)),
        (''open_asks'', JInt (int open_asks))])))))"

definition prog_op_inspect :: "request_ctx \<Rightarrow> string \<Rightarrow> json \<Rightarrow> json res prog" where
  "prog_op_inspect C sender params =
    checked (reject_client_identity_keys [''id''] params) (\<lambda>_.
    acl_snapshot (\<lambda>a. acl_check a sender CReadAudit) (\<lambda>_.
    checked (parse_inspect params) (\<lambda>i.
    seq (peek (\<lambda>d. get_envelope i (dm_store d))) (\<lambda>env.
    seq (peek (\<lambda>d. get_ask i (dm_store d))) (\<lambda>ask.
    checked (read_audit_events_for (rc_codec C) (rc_audit_file C) i) (\<lambda>events.
      Ret (Inr (JObj
        [(''envelope'', case env of None \<Rightarrow> JNull | Some e \<Rightarrow> envelope_json e),
         (''ask'', case ask of None \<Rightarrow> JNull | Some a \<Rightarrow> ask_json a),
         (''audit_events'', JArr events)]))))))))"

definition prog_op_audit_verify :: "request_ctx \<Rightarrow> string \<Rightarrow> json \<Rightarrow> json res prog" where
  "prog_op_audit_verify C sender params =
    checked (reject_client_identity_keys [] params) (\<lambda>_.
    acl_snapshot (\<lambda>a. acl_check a sender CReadAudit) (\<lambda>_.
      Ret (Inr (verify_json (audit_verify (rc_codec C) (rc_audit_file C))))))"

lemma run_report:
  "run_alone (prog_report C sender params) d = finished (handle_report_tool_correlation C sender params d)"
  unfolding prog_report_def handle_report_tool_correlation_def
  by (intro run_rules) (auto simp: run_alone_seq intro!: run_seq_ok split: option.split)

lemma run_operator:
  "run_alone (prog_op_status C sender params) d = finished (handle_op_status C sender params d)"
  "run_alone (prog_op_inspect C sender params) d = finished (handle_op_inspect C sender params d)"
  "run_alone (prog_op_audit_verify C sender params) d = finished (handle_op_audit_verify C sender params d)"
  unfolding prog_op_status_def handle_op_status_def prog_op_inspect_def handle_op_inspect_def
    prog_op_audit_verify_def handle_op_audit_verify_def
  by (intro run_rules; simp)+

section \<open>Dispatch\<close>

definition programs :: "(string \<times> (request_ctx \<Rightarrow> string \<Rightarrow> json \<Rightarrow> json res prog)) list" where
  "programs =
    [(''cell_send'', prog_send), (''cell_ask'', prog_ask), (''cell_reply'', prog_reply),
     (''cell_inbox'', prog_inbox), (''cell_list'', prog_list), (''cell_broadcast'', prog_broadcast),
     (''cell_spawn'', prog_spawn), (''cell_send_task'', prog_send_task), (''cell_status'', prog_status),
     (''cell_result'', prog_result), (''cell_cancel'', prog_cancel),
     (''report_tool_correlation'', prog_report), (''op_status'', prog_op_status),
     (''op_inspect'', prog_op_inspect), (''op_audit_verify'', prog_op_audit_verify)]"

definition request_program :: "request_ctx \<Rightarrow> string \<Rightarrow> wire_request \<Rightarrow> json res prog" where
  "request_program C sender req =
    (if wq_method req = ''cell_await'' then prog_await sender (wq_params req)
     else case map_of programs (wq_method req) of
       Some p \<Rightarrow> p C sender (wq_params req)
     | None \<Rightarrow> Ret (Inl Internal))"

lemma programs_handlers:
  "rel_option (\<lambda>p h. \<forall>C sender params d. run_alone (p C sender params) d = finished (h C sender params d))
     (map_of programs m) (map_of handlers m)"
  by (simp add: programs_def handlers_def run_send run_ask run_reply run_inbox run_list run_broadcast run_spawn
      run_send_task run_status run_result run_cancel run_report run_operator)

lemma request_program_dispatch:
  "run_alone (request_program C (pr_cell_id who) req) d = (r, d') \<Longrightarrow>
   (case r of
      Finished v \<Rightarrow> dispatch C who req d = (Respond (respond (wq_id req) v), d')
    | Parked i g h \<Rightarrow> \<exists>a d1. dispatch C who req d = (Suspended (wq_id req) a g, d1) \<and> i = a_ask_id a \<and>
        h = prog_resume a g \<and> d' = await_register i d1)"
proof (cases "wq_method req = ''cell_await''")
  case True
  assume "run_alone (request_program C (pr_cell_id who) req) d = (r, d')"
  with True show ?thesis
    by (auto simp: request_program_def run_await dispatch_def respond_def Let_def
        split: sum.splits await_start.splits prod.splits)
next
  case False
  assume "run_alone (request_program C (pr_cell_id who) req) d = (r, d')"
  with False programs_handlers [of "wq_method req"] show ?thesis
    by (auto simp: request_program_def dispatch_def respond_def Let_def rel_option_iff
        split: option.splits prod.splits)
qed

section \<open>The delivery loop\<close>

text \<open>A tick of \<open>delivery.rs\<close> takes and releases the store lock once per phase and once per outcome; its
  events and notifications are sections of their own.\<close>

fun each :: "'a list \<Rightarrow> ('a \<Rightarrow> unit prog) \<Rightarrow> unit prog" where
  "each [] f = Ret ()"
| "each (x # xs) f = seq (f x) (\<lambda>_. each xs f)"

definition prog_outcome :: "nat \<Rightarrow> int \<Rightarrow> string \<Rightarrow> string \<Rightarrow> delivery_outcome \<Rightarrow> unit prog" where
  "prog_outcome now jitter mid rec out =
    (let move = effect (\<lambda>d. set_store (snd (transition mid rec (outcome_to_state out) (dm_store d))) d);
         event = (\<lambda>k res. effect (audit_best_effort (mk_draft k (Some mid) None (Some rec) res None)))
     in case out of
       ODelivered \<Rightarrow> seq move (\<lambda>_. event ''delivered'' ''ok'')
     | OAcked \<Rightarrow> seq move (\<lambda>_. event ''delivered'' ''ok'')
     | OPermanentFailure \<Rightarrow> seq move (\<lambda>_. event ''delivery_failed'' ''failed'')
     | OTransientFailure \<Rightarrow>
         seq (locked (\<lambda>d. map_prod id (\<lambda>s. set_store s d)
             (record_attempt_failure now jitter mid rec (cf_max_attempts (dm_cfg d))
                (cf_backoff_base_secs (dm_cfg d)) (cf_backoff_cap_secs (dm_cfg d)) (dm_store d))))
           (\<lambda>exhausted. if exhausted = Inr True then event ''delivery_failed'' ''failed'' else Ret ())
     | ONotReady \<Rightarrow> Ret ())"

definition prog_tick :: "nat \<Rightarrow> int \<Rightarrow> (string \<Rightarrow> adapter option) \<Rightarrow> unit prog" where
  "prog_tick now jitter adapters =
    seq (locked (\<lambda>d. map_prod id (\<lambda>s. set_store s d) (expire_asks_due (now_rfc3339 now) (dm_store d)))) (\<lambda>asks.
    seq (each asks (\<lambda>i.
      seq (effect (audit_best_effort (mk_draft ''ask_expired'' None None None ''expired''
        (Some (JObj [(''ask_id'', JStr i)]))))) (\<lambda>_. effect (notify i)))) (\<lambda>_.
    seq (locked (\<lambda>d. map_prod id (\<lambda>s. set_store s d) (expire_due (now_rfc3339 now) (dm_store d)))) (\<lambda>expired.
    seq (each expired (\<lambda>(mid, rec). effect (audit_best_effort
        (mk_draft ''expired'' (Some mid) None (Some rec) ''expired'' None)))) (\<lambda>_.
    seq (locked (tick_claim now)) (\<lambda>claimed.
      each claimed (\<lambda>(env, rec). prog_outcome now jitter (e_message_id env) rec
        (case adapters rec of Some a \<Rightarrow> deliver_with_timeout a env | None \<Rightarrow> ONotReady)))))))"

lemma run_each:
  "(\<And>x d. run_alone (f x) d = (Finished (), g x d)) \<Longrightarrow> run_alone (each xs f) d = (Finished (), fold g xs d)"
  by (induction xs arbitrary: d) (simp_all add: run_alone_seq)

lemma run_outcome:
  "run_alone (prog_outcome now jitter mid rec out) d = (Finished (), apply_outcome now jitter mid rec out d)"
  by (cases out) (auto simp: prog_outcome_def apply_outcome_def run_alone_seq Let_def case_prod_beta)

lemma run_tick: "run_alone (prog_tick now jitter adapters) d = (Finished (), tick now jitter adapters d)"
proof -
  have a: "run_alone (each asks (\<lambda>i. seq (effect (audit_best_effort (mk_draft ''ask_expired'' None None None ''expired''
        (Some (JObj [(''ask_id'', JStr i)]))))) (\<lambda>_. effect (notify i)))) d = (Finished (), fold expire_one_ask asks d)"
    for asks d by (rule run_each) (simp add: run_alone_seq expire_one_ask_def)
  have b: "run_alone (each out (\<lambda>(mid, rec). effect (audit_best_effort
        (mk_draft ''expired'' (Some mid) None (Some rec) ''expired'' None)))) d =
      (Finished (), fold (\<lambda>(mid, rec). audit_best_effort
          (mk_draft ''expired'' (Some mid) None (Some rec) ''expired'' None)) out d)" for out d
    by (rule run_each) (simp split: prod.split)
  have c: "run_alone (each claimed (\<lambda>(env, rec). prog_outcome now jitter (e_message_id env) rec
        (case adapters rec of Some a \<Rightarrow> deliver_with_timeout a env | None \<Rightarrow> ONotReady))) d =
      (Finished (), fold (deliver_one now jitter adapters) claimed d)" for claimed d
    by (rule run_each) (simp add: deliver_one_def run_outcome split: prod.split)
  show ?thesis
    by (simp add: prog_tick_def tick_def run_alone_seq a b c tick_asks_def tick_deliveries_def case_prod_beta)
qed

end
