(* ===== verification/Interleaving.thy ===== *)
theory Interleaving
  imports Sections Requests
begin

text \<open>
  Requests and delivery ticks in any interleaving of their lock sections, and a rely-guarantee
  argument for them: every section of a request is a sequence of protocol edits by its own cell, under
  access control lists that were in force while it ran, and what a request has found out between two
  sections stays true whatever the others do.
\<close>

section \<open>The concurrent daemon\<close>

text \<open>A request in progress.  Its program is \<open>None\<close> once its client has gone; the lists it ran under are
  recorded for the proof only.\<close>

record task =
  tk_ctx :: request_ctx
  tk_cell :: string
  tk_req :: wire_request
  tk_prog :: "json res prog option"
  tk_acls :: "acl set"

record conc =
  cc_daemon :: daemon
  cc_tasks :: "task list"
  cc_ticks :: "unit prog list"

definition new_ids :: "request_ctx \<Rightarrow> task list \<Rightarrow> bool" where
  "new_ids C ts \<longleftrightarrow> rc_message_id C \<notin> (rc_message_id \<circ> tk_ctx) ` set ts \<and> rc_ask_id C \<notin> (rc_ask_id \<circ> tk_ctx) ` set ts"

definition put_task :: "nat \<Rightarrow> json res prog option \<Rightarrow> daemon \<Rightarrow> conc \<Rightarrow> conc" where
  "put_task i p d S = S\<lparr>cc_daemon := d, cc_tasks := (cc_tasks S)[i := (cc_tasks S ! i)\<lparr>tk_prog := p\<rparr>]\<rparr>"

definition section_done :: "nat \<Rightarrow> json res prog \<Rightarrow> daemon \<Rightarrow> conc \<Rightarrow> conc" where
  "section_done i p d S = S\<lparr>cc_daemon := d, cc_tasks := (cc_tasks S)[i := (cc_tasks S ! i)
     \<lparr>tk_prog := Some p, tk_acls := insert (dm_acl (cc_daemon S)) (tk_acls (cc_tasks S ! i))\<rparr>]\<rparr>"

abbreviation at_prog :: "conc \<Rightarrow> nat \<Rightarrow> json res prog \<Rightarrow> bool" where
  "at_prog S i p \<equiv> i < length (cc_tasks S) \<and> tk_prog (cc_tasks S ! i) = Some p"

text \<open>A parked request goes on with the permit of its waker, or by its timeout when there is none.\<close>

inductive conc_step :: "conc \<Rightarrow> conc \<Rightarrow> bool" where
  begin_request: "fresh_ids C (cc_daemon S) \<Longrightarrow> new_ids C (cc_tasks S) \<Longrightarrow>
    conc_step S (S\<lparr>cc_tasks := cc_tasks S @
      [\<lparr>tk_ctx = C, tk_cell = sender, tk_req = req, tk_prog = Some (request_program C sender req), tk_acls = {}\<rparr>]\<rparr>)"
| run_section: "at_prog S i (Sec f) \<Longrightarrow> f (cc_daemon S) = (p, d) \<Longrightarrow> conc_step S (section_done i p d S)"
| wake_up: "at_prog S i (Park q g h) \<Longrightarrow> map_of (dm_wakers (cc_daemon S)) q = Some True \<Longrightarrow>
    conc_step S (put_task i (Some (h True)) (take_permit q (cc_daemon S)) S)"
| time_out: "at_prog S i (Park q g h) \<Longrightarrow> map_of (dm_wakers (cc_daemon S)) q \<noteq> Some True \<Longrightarrow>
    conc_step S (put_task i (Some (h False)) (cc_daemon S) S)"
| disconnected: "at_prog S i (Park q g h) \<Longrightarrow>
    conc_step S (put_task i None (await_cancelled g (cc_daemon S)) S)"
| begin_tick: "conc_step S (S\<lparr>cc_ticks := cc_ticks S @ [prog_tick now jitter adapters]\<rparr>)"
| tick_section: "i < length (cc_ticks S) \<Longrightarrow> cc_ticks S ! i = Sec f \<Longrightarrow> f (cc_daemon S) = (p, d) \<Longrightarrow>
    conc_step S (S\<lparr>cc_daemon := d, cc_ticks := (cc_ticks S)[i := p]\<rparr>)"
| reload_acl: "conc_step S (S\<lparr>cc_daemon := (cc_daemon S)\<lparr>dm_acl := a\<rparr>\<rparr>)"
| scheduler: "same_bus (dm_store (cc_daemon S)) s \<Longrightarrow> audit_grows (cc_daemon S) ((cc_daemon S)\<lparr>dm_core := (s, l)\<rparr>) \<Longrightarrow>
    conc_step S (S\<lparr>cc_daemon := (cc_daemon S)\<lparr>dm_core := (s, l), dm_cancels := cs\<rparr>\<rparr>)"

section \<open>What the others leave alone\<close>

definition same_ask :: "ask_row \<Rightarrow> ask_row \<Rightarrow> bool" where
  "same_ask a b \<longleftrightarrow> a_ask_id b = a_ask_id a \<and> a_message_id b = a_message_id a \<and> a_from_cell b = a_from_cell a \<and>
     a_to_cell b = a_to_cell a \<and> (a_state a \<noteq> APending \<longrightarrow> b = a)"

definition asks_kept :: "store \<Rightarrow> store \<Rightarrow> bool" where
  "asks_kept s t \<longleftrightarrow> (\<forall>i a. get_ask i s = Some a \<longrightarrow> (\<exists>b. get_ask i t = Some b \<and> same_ask a b))"

definition dedupe_kept :: "store \<Rightarrow> store \<Rightarrow> bool" where
  "dedupe_kept s t \<longleftrightarrow> (\<forall>f k r. dedupe_lookup f k s = Some r \<longrightarrow> dedupe_lookup f k t = Some r)"

definition harmless :: "daemon \<Rightarrow> daemon \<Rightarrow> bool" where
  "harmless d d' \<longleftrightarrow> extends d d' \<and> asks_kept (dm_store d) (dm_store d') \<and>
     dedupe_kept (dm_store d) (dm_store d') \<and> (bus_sound d \<longrightarrow> bus_sound d')"

definition rely :: "request_ctx \<Rightarrow> daemon \<Rightarrow> daemon \<Rightarrow> bool" where
  "rely C d d' \<longleftrightarrow> harmless d d' \<and> (fresh_ids C d \<longrightarrow> fresh_ids C d')"

definition stable :: "(daemon \<Rightarrow> daemon \<Rightarrow> bool) \<Rightarrow> (daemon \<Rightarrow> bool) \<Rightarrow> bool" where
  "stable R P \<longleftrightarrow> (\<forall>d d'. P d \<longrightarrow> R d d' \<longrightarrow> P d')"

text \<open>One section of a request.\<close>

definition request_move :: "request_ctx \<Rightarrow> string \<Rightarrow> acl set \<Rightarrow> daemon \<Rightarrow> daemon \<Rightarrow> bool" where
  "request_move C sender A d d' \<longleftrightarrow>
     (edits A C sender d d' \<or> (\<exists>g w. d' = d\<lparr>dm_graph := g, dm_wakers := w\<rparr>)) \<and>
     dedupe_kept (dm_store d) (dm_store d')"

definition tick_move :: "acl set \<Rightarrow> daemon \<Rightarrow> daemon \<Rightarrow> bool" where
  "tick_move A d d' \<longleftrightarrow> loop_frame d d' \<and> asks_kept (dm_store d) (dm_store d')"

section \<open>Rely-guarantee triples\<close>

text \<open>\<open>rg G R A P p Q\<close>: run from \<open>P\<close> with interference \<open>R\<close>, having consulted the lists \<open>A\<close> so far, every
  section of \<open>p\<close> satisfies \<open>G\<close>, and a result satisfies \<open>Q\<close>.\<close>

inductive rg ::
  "(acl set \<Rightarrow> daemon \<Rightarrow> daemon \<Rightarrow> bool) \<Rightarrow> (daemon \<Rightarrow> daemon \<Rightarrow> bool) \<Rightarrow> acl set \<Rightarrow> (daemon \<Rightarrow> bool) \<Rightarrow>
   'a prog \<Rightarrow> (acl set \<Rightarrow> 'a \<Rightarrow> daemon \<Rightarrow> bool) \<Rightarrow> bool" for G R where
  rg_Ret: "(\<And>d. P d \<Longrightarrow> Q A a d) \<Longrightarrow> rg G R A P (Ret a) Q"
| rg_Sec: "(\<And>d. P d \<Longrightarrow> bus_sound d \<Longrightarrow> G (insert (dm_acl d) A) d (snd (f d)) \<and>
      (\<exists>P'. stable R P' \<and> P' (snd (f d)) \<and> rg G R (insert (dm_acl d) A) P' (fst (f d)) Q)) \<Longrightarrow> rg G R A P (Sec f) Q"
| rg_Park: "(\<And>b. rg G R A P (h b) Q) \<Longrightarrow> rg G R A P (Park i g h) Q"

inductive_cases rg_RetE: "rg G R A P (Ret a) Q"
inductive_cases rg_SecE: "rg G R A P (Sec f) Q"
inductive_cases rg_ParkE: "rg G R A P (Park i g h) Q"

lemma rg_pre: "rg G R A P p Q \<Longrightarrow> (\<And>d. P' d \<Longrightarrow> P d) \<Longrightarrow> rg G R A P' p Q"
proof (induction arbitrary: P' rule: rg.induct)
  case (rg_Ret P Q A a)
  then show ?case by (intro rg.rg_Ret) simp
next
  case (rg_Sec P A f Q)
  show ?case
  proof (rule rg.rg_Sec)
    fix d assume "P' d" "bus_sound d"
    then have "P d" "bus_sound d" using rg_Sec.prems by simp_all
    from rg_Sec(1) [OF this] show "G (insert (dm_acl d) A) d (snd (f d)) \<and>
        (\<exists>P'. stable R P' \<and> P' (snd (f d)) \<and> rg G R (insert (dm_acl d) A) P' (fst (f d)) Q)" by blast
  qed
next
  case (rg_Park A P h Q i g)
  show ?case by (rule rg.rg_Park) (rule rg_Park.IH [OF rg_Park.prems])
qed

lemma rg_seq:
  assumes "rg G R A P p Q1" "\<And>A' a. A \<subseteq> A' \<Longrightarrow> rg G R A' (Q1 A' a) (k a) Q"
  shows "rg G R A P (seq p k) Q"
  using assms
proof (induction rule: rg.induct)
  case (rg_Ret P Q1 A a)
  from rg_pre [OF rg_Ret(2) [OF order_refl], OF rg_Ret(1)] show ?case by simp
next
  case (rg_Sec P A f Q1)
  have "G (insert (dm_acl d) A) d (snd (f d)) \<and> (\<exists>P'. stable R P' \<and> P' (snd (f d)) \<and>
      rg G R (insert (dm_acl d) A) P' (seq (fst (f d)) k) Q)" if "P d" "bus_sound d" for d
    using rg_Sec(1) [OF that] rg_Sec(2) by blast
  then show ?case by (auto intro!: rg.rg_Sec)
next
  case (rg_Park A P h Q1 i g)
  then show ?case by (auto intro!: rg.rg_Park)
qed

abbreviation any :: "acl set \<Rightarrow> 'a \<Rightarrow> daemon \<Rightarrow> bool" where
  "any \<equiv> \<lambda>_ _ _. True"

lemma stable_True [simp]: "stable R (\<lambda>_. True)"
  by (simp add: stable_def)

lemma stable_conj: "stable R P \<Longrightarrow> stable R Q \<Longrightarrow> stable R (\<lambda>d. P d \<and> Q d)"
  by (auto simp: stable_def)

lemma stable_const [simp]: "stable R (\<lambda>_. b)"
  by (simp add: stable_def)

lemma stable_fresh [simp]: "stable (rely C) (fresh_ids C)"
  by (simp add: stable_def rely_def)

lemma rg_locked:
  assumes "\<And>d. P d \<Longrightarrow> bus_sound d \<Longrightarrow> G (insert (dm_acl d) A) d (snd (f d)) \<and> Q (insert (dm_acl d) A) (fst (f d)) (snd (f d))"
    "\<And>A' a. stable R (Q A' a)"
  shows "rg G R A P (locked f) Q"
  unfolding locked_def
proof (rule rg_Sec, intro conjI)
  fix d assume d: "P d" "bus_sound d"
  from assms(1) [OF this] show "G (insert (dm_acl d) A) d (snd (map_prod Ret id (f d)))" by simp
  have "rg G R (insert (dm_acl d) A) (Q (insert (dm_acl d) A) (fst (f d))) (Ret (fst (f d))) Q"
    by (rule rg_Ret)
  with assms d show "\<exists>P'. stable R P' \<and> P' (snd (map_prod Ret id (f d))) \<and>
      rg G R (insert (dm_acl d) A) P' (fst (map_prod Ret id (f d))) Q" by auto
qed

section \<open>Sections of a request\<close>

abbreviation rgq ::
  "request_ctx \<Rightarrow> string \<Rightarrow> acl set \<Rightarrow> (daemon \<Rightarrow> bool) \<Rightarrow> 'a prog \<Rightarrow> (acl set \<Rightarrow> 'a \<Rightarrow> daemon \<Rightarrow> bool) \<Rightarrow> bool" where
  "rgq C sender \<equiv> rg (request_move C sender) (rely C)"

lemma dedupe_same: "s_dedupe t = s_dedupe s \<Longrightarrow> dedupe_kept s t"
  by (simp add: dedupe_kept_def dedupe_lookup_def)

lemma dedupe_kept_insert: "dedupe_lookup f k s = None \<Longrightarrow> dedupe_kept s (dedupe_insert now f k m a h s)"
  unfolding dedupe_kept_def
proof (intro allI impI)
  fix f' k' r assume l: "dedupe_lookup f k s = None" "dedupe_lookup f' k' s = Some r"
  then have "(f', k') \<noteq> dedupe_key \<lparr>dd_from_cell = f, dd_idempotency_key = k, dd_message_id = m,
      dd_ask_id = a, dd_body_sha256 = h, dd_created_at = now_rfc3339 now\<rparr>"
    by (auto simp: dedupe_key_def)
  from find_replace_row_other [where key = dedupe_key, OF this, of "s_dedupe s"] l(2)
  show "dedupe_lookup f' k' (dedupe_insert now f k m a h s) = Some r"
    by (simp add: dedupe_lookup_def dedupe_insert_def)
qed

lemma quiet_fresh: "bus_quiet d d' \<Longrightarrow> fresh_ids C d' = fresh_ids C d"
  by (simp add: bus_quiet_def fresh_ids_def)

lemma fresh_sel [simp]: "fresh_ids C (d\<lparr>dm_quota := q\<rparr>) = fresh_ids C d" "fresh_ids C (snd (audit_dm dr d)) = fresh_ids C d"
  "fresh_ids C (d\<lparr>dm_graph := g\<rparr>) = fresh_ids C d"
  using quiet_fresh [OF audit_dm_quiet] by (simp_all add: fresh_ids_def)

lemma move_quiet: "edits A C sender d d' \<Longrightarrow> bus_quiet d d' \<Longrightarrow> request_move C sender A d d'"
  by (simp add: request_move_def bus_quiet_def dedupe_same)

lemma move_basic [simp]:
  "request_move C sender A d d" "request_move C sender A d (snd (audit_dm dr d))"
  "request_move C sender A d (d\<lparr>dm_quota := q\<rparr>)" "request_move C sender A d (d\<lparr>dm_graph := g\<rparr>)"
  "request_move C sender A d (notify i d)" "request_move C sender A d (await_register i d)"
  "request_move C sender A d (await_cancelled gd d)"
  subgoal by (simp add: request_move_def dedupe_same)
  subgoal using edit_audit [OF rtranclp.rtrancl_refl] by (intro move_quiet audit_dm_quiet)
  subgoal by (intro move_quiet bus_quiet_set_quota) (rule edit_once [OF rtranclp.rtrancl_refl charge_quota])
  subgoal by (auto simp: request_move_def dedupe_same intro!: exI [of _ g] exI [of _ "dm_wakers d"])
  subgoal by (auto simp: request_move_def dedupe_same notify_def intro!: exI [of _ "dm_graph d"])
  subgoal by (auto simp: request_move_def dedupe_same await_register_def intro!: exI [of _ "dm_graph d"])
  subgoal by (auto simp: request_move_def dedupe_same await_cancelled_def intro!: exI [of _ "dm_wakers d"])
  done

text \<open>The pieces of a request, each with what it has established when it succeeds.\<close>

definition ok_fresh :: "request_ctx \<Rightarrow> (acl set \<Rightarrow> 'a \<Rightarrow> bool) \<Rightarrow> acl set \<Rightarrow> 'a res \<Rightarrow> daemon \<Rightarrow> bool" where
  "ok_fresh C F A r d \<longleftrightarrow> fresh_ids C d \<and> (\<forall>a. r = Inr a \<longrightarrow> F A a)"

lemma stable_ok_fresh [simp]: "stable (rely C) (ok_fresh C F A r)"
  unfolding ok_fresh_def by (intro stable_conj) simp_all

lemma ok_fresh_Inl [simp]: "ok_fresh C F A (Inl e) d = fresh_ids C d"
  by (simp add: ok_fresh_def)

lemma rq_checked:
  "(\<And>x. r = Inr x \<Longrightarrow> rgq C sender A P (k x) Q) \<Longrightarrow> (\<And>e d. P d \<Longrightarrow> Q A (Inl e) d) \<Longrightarrow> rgq C sender A P (checked r k) Q"
  by (auto simp: checked_def intro: rg_Ret split: sum.split)

lemma rg_False: "(\<And>d. \<not> P d) \<Longrightarrow> rg G R A P p Q"
  by (induction p rule: prog_induct) (auto intro: rg.intros)

lemma rg_known: "(\<And>d. P d \<Longrightarrow> F) \<Longrightarrow> (F \<Longrightarrow> rg G R A P p Q) \<Longrightarrow> rg G R A P p Q"
  using rg_False [of P G R A p Q] by blast

text \<open>A read leaves a value that some state gave; a snapshot is one of the lists consulted.\<close>

lemma rq_peek:
  assumes "\<And>A' d. A \<subseteq> A' \<Longrightarrow> dm_acl d \<in> A' \<Longrightarrow> P d \<Longrightarrow> rgq C sender A' P (k (g d)) Q" "stable (rely C) P"
  shows "rgq C sender A P (seq (peek g) k) Q"
proof (rule rg_seq [where ?Q1.0 = "\<lambda>A' x d. P d \<and> (\<exists>d0. P d0 \<and> dm_acl d0 \<in> A' \<and> x = g d0)"])
  show "rgq C sender A P (peek g) (\<lambda>A' x d. P d \<and> (\<exists>d0. P d0 \<and> dm_acl d0 \<in> A' \<and> x = g d0))"
    unfolding peek_def by (rule rg_locked) (auto intro!: stable_conj assms(2))
next
  fix A' x assume A: "A \<subseteq> A'"
  show "rgq C sender A' (\<lambda>d. P d \<and> (\<exists>d0. P d0 \<and> dm_acl d0 \<in> A' \<and> x = g d0)) (k x) Q"
  proof (rule rg_known [where F = "\<exists>d0. P d0 \<and> dm_acl d0 \<in> A' \<and> x = g d0"])
    assume "\<exists>d0. P d0 \<and> dm_acl d0 \<in> A' \<and> x = g d0"
    then obtain d0 where "P d0" "dm_acl d0 \<in> A'" "x = g d0" by blast
    with assms(1) [OF A] show "rgq C sender A' (\<lambda>d. P d \<and> (\<exists>d0. P d0 \<and> dm_acl d0 \<in> A' \<and> x = g d0)) (k x) Q"
      by (auto intro: rg_pre)
  qed simp
qed

lemma rq_acl:
  assumes "\<And>A' a x. A \<subseteq> A' \<Longrightarrow> a \<in> A' \<Longrightarrow> f a = Inr x \<Longrightarrow> rgq C sender A' P (k x) Q" "stable (rely C) P"
    "\<And>A' e d. P d \<Longrightarrow> Q A' (Inl e) d"
  shows "rgq C sender A P (acl_snapshot f k) Q"
  unfolding acl_snapshot_def by (rule rq_peek, rule rq_checked) (auto intro: assms)

lemma rq_locked:
  assumes "\<And>d. fresh_ids C d \<Longrightarrow> request_move C sender (insert (dm_acl d) A) d (snd (f d)) \<and> fresh_ids C (snd (f d)) \<and>
      (\<forall>a. fst (f d) = Inr a \<longrightarrow> F (insert (dm_acl d) A) a)"
  shows "rgq C sender A (fresh_ids C) (locked f) (ok_fresh C F)"
  by (rule rg_locked) (use assms in \<open>auto simp: ok_fresh_def stable_ok_fresh [unfolded ok_fresh_def]\<close>)

lemma rq_seq_ok:
  assumes "rgq C sender A P p (ok_fresh C F)"
    "\<And>A' a. A \<subseteq> A' \<Longrightarrow> F A' a \<Longrightarrow> rgq C sender A' (fresh_ids C) (k a) Q"
    "\<And>A' e d. fresh_ids C d \<Longrightarrow> Q A' (Inl e) d"
  shows "rgq C sender A P (seq_ok p k) Q"
  unfolding seq_ok_def
proof (rule rg_seq [OF assms(1)])
  fix A' r assume A: "A \<subseteq> A'"
  show "rgq C sender A' (ok_fresh C F A' r) (case r of Inl e \<Rightarrow> Ret (Inl e) | Inr a \<Rightarrow> k a) Q"
  proof (cases r)
    case (Inr a)
    have "rgq C sender A' (ok_fresh C F A' r) (k a) Q"
      by (rule rg_known [where F = "F A' a"]) (auto simp: ok_fresh_def Inr intro: rg_pre [OF assms(2) [OF A]])
    with Inr show ?thesis by simp
  next
    case (Inl e)
    then show ?thesis by (simp, intro rg_Ret assms(3)) simp
  qed
qed

lemma rq_refusal: "rgq C sender A (fresh_ids C) (audited_refusal dr e) (ok_fresh C F)"
  unfolding audited_refusal_def
  by (rule rq_seq_ok [where F = "\<lambda>_ _. True"], rule rq_locked) (auto intro: rg_Ret)

lemma rq_authorize:
  "rgq C sender A (fresh_ids C) (prog_authorize s t cap via) (ok_fresh C (\<lambda>A _. outbound_granted A s t cap via))"
  unfolding prog_authorize_def
  by (intro rq_peek rq_checked)
    (auto intro!: rg_Ret rq_refusal simp: ok_fresh_def outbound_granted_def split: sum.split)

lemma fresh_quota_exceeded [simp]: "fresh_ids C (snd (quota_exceeded s t e d)) = fresh_ids C d"
  by (rule quiet_fresh [OF quota_exceeded_quiet])

lemma move_quota_exceeded [simp]: "request_move C sender A d (snd (quota_exceeded s t e d))"
  by (intro move_quiet quota_exceeded_quiet edit_quota_exceeded) simp

text \<open>A count against the quota, and the refusal that may follow it.\<close>

lemma rq_count:
  assumes "\<And>A'. A \<subseteq> A' \<Longrightarrow> rgq C sender A' (fresh_ids C) k (ok_fresh C F)"
  shows "rgq C sender A (fresh_ids C)
    (seq (locked (\<lambda>d. case f (dm_quota d) of (r, q) \<Rightarrow> (r, d\<lparr>dm_quota := q\<rparr>)))
      (\<lambda>r. case r of Inl e \<Rightarrow> audited_refusal dr e | Inr (_ :: unit) \<Rightarrow> k)) (ok_fresh C F)"
  by (rule rg_seq [where ?Q1.0 = "\<lambda>_ _. fresh_ids C"], rule rg_locked)
    (auto intro: rq_refusal assms split: sum.split prod.split)

lemma rq_rate: "rgq C sender A (fresh_ids C) (prog_rate now s t cap units) (ok_fresh C (\<lambda>_ _. True))"
  unfolding prog_rate_def by (intro rq_count rg_Ret) (simp add: ok_fresh_def)

lemma rq_admit: "rgq C sender A (fresh_ids C) (prog_admit now s t cap units) (ok_fresh C (\<lambda>_ _. True))"
  unfolding prog_admit_def
  by (rule rq_peek, rule rq_seq_ok [where F = "\<lambda>_ _. True"], rule rq_locked) (auto intro: rq_rate split: sum.split)

section \<open>The store sections\<close>

lemma dedupe_remember:
  assumes "dedupe_lookup f k s = None" "s_dedupe t = s_dedupe s"
  shows "dedupe_kept s (dedupe_insert now f k m a h t)"
proof -
  have "dedupe_lookup f' k' t = dedupe_lookup f' k' s" for f' k' using assms(2) by (simp add: dedupe_lookup_def)
  with dedupe_kept_insert [of f k t] assms(1) show ?thesis by (simp add: dedupe_kept_def)
qed

lemma fold_delivery_dedupe: "s_dedupe (fold (insert_delivery m) rs s) = s_dedupe s"
  by (induction rs arbitrary: s) (simp_all add: insert_delivery_def)

lemma row_dedupe [simp]:
  "s_dedupe (insert_envelope e s) = s_dedupe s" "s_dedupe (insert_delivery m r s) = s_dedupe s"
  "s_dedupe (insert_ask i m f t x s) = s_dedupe s" "s_dedupe (commit_reply sha i e s) = s_dedupe s"
  by (simp_all add: insert_envelope_def insert_delivery_def insert_ask_def commit_reply_def)

lemma audit_store [simp]: "dm_store (snd (audit_dm dr d)) = dm_store d"
  using audit_dm_store [of dr d "fst (audit_dm dr d)" "snd (audit_dm dr d)"] by simp

lemma dedupe_bind:
  "dedupe_kept s (dm_store (snd r)) \<Longrightarrow> (\<And>a d. r = (Inr a, d) \<Longrightarrow> dedupe_kept s (dm_store (snd (k a d)))) \<Longrightarrow>
   dedupe_kept s (dm_store (snd (bind_res r k)))"
  by (cases r; cases "fst r") auto

lemma denials_store [simp]: "dm_store (snd (audit_denials mid s rs d)) = dm_store d"
  using denials_frame [of mid s rs d "fst (audit_denials mid s rs d)" "snd (audit_denials mid s rs d)"] by simp

lemma persist_dedupe:
  "dedupe_kept (dm_store d) (dm_store (snd (persist_send C sender ps mt key d)))"
  "dedupe_kept (dm_store d) (dm_store (snd (persist_ask C sender pa key d)))"
  "dedupe_kept (dm_store d) (dm_store (snd (persist_broadcast C sender pb mt included denied key d)))"
  "dedupe_kept (dm_store d) (dm_store (snd (store_reply C sender pr ask key d)))"
proof -
  show "dedupe_kept (dm_store d) (dm_store (snd (persist_send C sender ps mt key d)))"
    unfolding persist_send_def Let_def case_prod_beta
    by (cases "dedupe_lookup sender key (dm_store d)")
      (auto intro!: dedupe_bind dedupe_remember simp: dedupe_same next_seq_frame dest!: audit_dm_store)
  show "dedupe_kept (dm_store d) (dm_store (snd (persist_ask C sender pa key d)))"
    unfolding persist_ask_def Let_def case_prod_beta
    by (cases "dedupe_lookup sender key (dm_store d)")
      (auto intro!: dedupe_bind dedupe_remember simp: dedupe_same next_seq_frame dest!: audit_dm_store)
  show "dedupe_kept (dm_store d) (dm_store (snd (persist_broadcast C sender pb mt included denied key d)))"
    unfolding persist_broadcast_def Let_def
    by (cases "dedupe_lookup sender key (dm_store d)")
      (auto intro!: dedupe_bind dedupe_remember simp: dedupe_same fold_delivery_dedupe dest!: audit_dm_store denials_frame)
  show "dedupe_kept (dm_store d) (dm_store (snd (store_reply C sender pr ask key d)))"
    unfolding store_reply_def Let_def case_prod_beta
    by (auto intro!: dedupe_bind simp: next_seq_frame dedupe_same dest!: audit_dm_store split: reply_outcome.split)
qed

lemma move_store:
  "edits A C sender d d' \<Longrightarrow> dedupe_kept (dm_store d) (dm_store d') \<Longrightarrow> request_move C sender A d d'"
  by (simp add: request_move_def)

lemma granted_mono:
  "outbound_granted A s t cap via \<Longrightarrow> A \<subseteq> B \<Longrightarrow> outbound_granted B s t cap via"
  "attach_granted A s fr \<Longrightarrow> A \<subseteq> B \<Longrightarrow> attach_granted B s fr"
  by (auto simp: outbound_granted_def attach_granted_def)

lemma rq_last:
  "(\<And>d. P d \<Longrightarrow> request_move C sender (insert (dm_acl d) A) d (snd (f d))) \<Longrightarrow> rgq C sender A P (locked f) any"
  by (rule rg_locked) auto

section \<open>Requests keep to the protocol\<close>

text \<open>The rules of a request, in the order of its checks.\<close>

lemmas request_rules = rq_checked rq_acl rq_seq_ok [OF rq_authorize] rq_seq_ok [OF rq_admit]
  rq_seq_ok [OF rq_rate] rq_last stable_fresh TrueI

lemma rq_send: "rgq C sender A (fresh_ids C) (prog_send C sender params) any"
  unfolding prog_send_def Let_def
  by (intro request_rules move_store persist_dedupe edit_persist_send; simp; blast intro: granted_mono grants(2))

lemma rq_ask: "rgq C sender A (fresh_ids C) (prog_ask C sender params) any"
  unfolding prog_ask_def Let_def
  by (intro request_rules rq_peek rq_seq_ok [OF rq_locked [where F = "\<lambda>_ _. True"]] move_store persist_dedupe edit_persist_ask;
      simp add: check_ask_cap_def split: sum.split; blast intro: granted_mono grants(2))

lemma rq_broadcast: "rgq C sender A (fresh_ids C) (prog_broadcast C sender params) any"
  unfolding prog_broadcast_def Let_def case_prod_beta
  by (intro request_rules rq_peek move_store persist_dedupe edit_persist_broadcast; simp; blast intro: grants(2))

text \<open>What a request knows of an ask it has read: the parties and, once settled, the whole row.\<close>

definition ask_known :: "string \<Rightarrow> ask_row \<Rightarrow> daemon \<Rightarrow> bool" where
  "ask_known i a d \<longleftrightarrow> (\<exists>b. get_ask i (dm_store d) = Some b \<and> same_ask a b)"

lemma same_ask_refl [simp]: "same_ask a a"
  by (simp add: same_ask_def)

lemma same_ask_trans: "same_ask a b \<Longrightarrow> same_ask b c \<Longrightarrow> same_ask a c"
  by (auto simp: same_ask_def)

lemma stable_ask_known [simp]: "stable (rely C) (ask_known i a)"
  unfolding stable_def rely_def harmless_def asks_kept_def ask_known_def by (blast intro: same_ask_trans)

lemma stable_fresh_known [simp]: "stable (rely C) (\<lambda>d. fresh_ids C d \<and> ask_known i a d)"
  by (intro stable_conj) simp_all

lemma rq_found:
  assumes "\<And>A'. A \<subseteq> A' \<Longrightarrow> rgq C sender A' (fresh_ids C) (k None) Q"
    "\<And>A' a. A \<subseteq> A' \<Longrightarrow> rgq C sender A' (\<lambda>d. fresh_ids C d \<and> ask_known i a d) (k (Some a)) Q"
  shows "rgq C sender A (fresh_ids C) (seq (peek (\<lambda>d. get_ask i (dm_store d))) k) Q"
proof (rule rg_seq [where ?Q1.0 = "\<lambda>_ x d. fresh_ids C d \<and> (\<forall>a. x = Some a \<longrightarrow> ask_known i a d)"])
  show "rgq C sender A (fresh_ids C) (peek (\<lambda>d. get_ask i (dm_store d)))
      (\<lambda>_ x d. fresh_ids C d \<and> (\<forall>a. x = Some a \<longrightarrow> ask_known i a d))"
    unfolding peek_def
  proof (rule rg_locked)
    show "stable (rely C) (\<lambda>d. fresh_ids C d \<and> (\<forall>a. x = Some a \<longrightarrow> ask_known i a d))" for x
      by (cases x) (simp_all add: stable_conj)
  qed (auto simp: ask_known_def)
next
  fix A' x assume A: "A \<subseteq> A'"
  show "rgq C sender A' (\<lambda>d. fresh_ids C d \<and> (\<forall>a. x = Some a \<longrightarrow> ask_known i a d)) (k x) Q"
    using assms [OF A] by (cases x) auto
qed

lemma rq_loose:
  "rgq C sender A P p any \<Longrightarrow> (\<And>A' a. A \<subseteq> A' \<Longrightarrow> rgq C sender A' (\<lambda>_. True) (k a) any) \<Longrightarrow> rgq C sender A P (seq p k) any"
  by (rule rg_seq)

lemma rq_loose_ok:
  "rgq C sender A P p any \<Longrightarrow> (\<And>A' a. A \<subseteq> A' \<Longrightarrow> rgq C sender A' (\<lambda>_. True) (k a) any) \<Longrightarrow> rgq C sender A P (seq_ok p k) any"
  unfolding seq_ok_def by (rule rq_loose) (auto intro: rg_Ret split: sum.split)

lemma rq_effect: "(\<And>d. request_move C sender (insert (dm_acl d) A) d (f d)) \<Longrightarrow> rgq C sender A P (effect f) any"
  unfolding effect_def by (rule rq_last) simp

lemma rq_refused: "rgq C sender A P (audited_refusal dr e) any"
  unfolding audited_refusal_def by (intro rq_loose_ok rq_last rg_Ret) simp_all

lemma store_reply_same: "same_ask a b \<Longrightarrow> store_reply C sender p b key d = store_reply C sender p a key d"
  by (simp add: store_reply_def same_ask_def)

lemma reply_section_move:
  assumes "fresh_ids C d" "ask_known (rp_ask_id p) a d" "a_to_cell a = sender" "dm_acl d \<in> A"
    "\<exists>a \<in> A. acl_check a sender CReply = Inr ()" "check_body (rp_body p) = Inr ()" "attach_granted A sender (rp_file_refs p)"
  shows "request_move C sender A d (snd (store_reply C sender p a key d))"
proof -
  obtain b where b: "get_ask (rp_ask_id p) (dm_store d) = Some b" "same_ask a b"
    using assms(2) by (auto simp: ask_known_def)
  have "edits A C sender d (snd (store_reply C sender p b key d))"
    by (rule edit_store_reply [OF rtranclp.rtrancl_refl assms(1) b(1) _ assms(4-7)])
      (use b(2) assms(3) in \<open>simp add: same_ask_def\<close>)
  then show ?thesis by (intro move_store persist_dedupe) (simp add: store_reply_same [OF b(2)])
qed

lemma rq_after_reply: "rgq C sender A (\<lambda>_. True) (after_reply sender p a out) any"
  unfolding after_reply_def by (cases out) (auto intro!: rq_loose rq_effect rq_refused rg_Ret)

lemma rq_answer:
  assumes "\<exists>a \<in> A. acl_check a sender CReply = Inr ()" "check_body (rp_body p) = Inr ()" "attach_granted A sender (rp_file_refs p)"
  shows "rgq C sender A (\<lambda>d. fresh_ids C d \<and> ask_known (rp_ask_id p) a d)
    (if a_to_cell a \<noteq> sender then Ret (Inl AskNotFound)
     else seq_ok (locked (store_reply C sender p a key)) (after_reply sender p a)) any"
proof (cases "a_to_cell a = sender")
  case True
  have "rgq C sender A (\<lambda>d. fresh_ids C d \<and> ask_known (rp_ask_id p) a d) (locked (store_reply C sender p a key)) any"
    by (rule rq_last, rule reply_section_move)
      (use assms True granted_mono(2) [OF assms(3) subset_insertI] in auto)
  from rq_loose_ok [OF this rq_after_reply] True show ?thesis by simp
qed (simp add: rg_Ret)

lemma rq_reply: "rgq C sender A (fresh_ids C) (prog_reply C sender params) any"
  unfolding prog_reply_def
  by (intro request_rules rq_found; (simp only: option.case)?; (rule rq_answer rg_Ret)?; simp; blast intro: grants(2))

section \<open>The other requests\<close>

lemma move_fabric:
  "fabric_follows (dm_store d) s \<Longrightarrow> \<exists>es. al_events l = al_events (dm_log d) @ es \<Longrightarrow>
   request_move C sender A d (d\<lparr>dm_core := (s, l)\<rparr>)"
  by (intro move_store edit_fabric dedupe_same) (simp_all add: fabric_follows_def same_bus_def)

lemma move_on_store:
  "fabric_follows (dm_store d) (snd (f (dm_store d))) \<Longrightarrow> request_move C sender A d (snd (on_store f d))"
  by (cases "f (dm_store d)") (simp add: on_store_def set_store_def move_fabric)

lemma rq_spawn: "rgq C sender A (fresh_ids C) (prog_spawn C sender params) any"
proof -
  have core: "request_move C sender A d (snd (on_core (spawn_idempotent now tid jid req eng mo pr cwd wt cap) d))"
    for A now tid jid req eng mo pr cwd wt cap d
  proof -
    obtain r s l where p: "spawn_idempotent now tid jid req eng mo pr cwd wt cap (dm_store d, dm_log d) = (r, (s, l))"
      by (metis prod.exhaust)
    from spawn_frame [OF p] p show ?thesis by (simp add: on_core_def move_fabric)
  qed
  show ?thesis
    unfolding prog_spawn_def Let_def
    by (intro request_rules rq_peek)
      (auto intro!: rg_Ret rq_peek rq_checked rq_loose_ok rq_last core split: prod.split)
qed

lemma move_bind:
  "request_move C sender A d (snd r) \<Longrightarrow> (\<And>a d'. r = (Inr a, d') \<Longrightarrow> snd (k a d') = d') \<Longrightarrow>
   request_move C sender A d (snd (bind_res r k))"
  by (cases r; cases "fst r") auto

lemma rq_send_task: "rgq C sender A (fresh_ids C) (prog_send_task C sender params) any"
proof -
  have "request_move C sender A d (snd (enqueue_task C p d))" for A p d
    by (auto simp: enqueue_task_def intro!: move_bind move_on_store follows_jobs split: option.split)
  then show ?thesis unfolding prog_send_task_def by (intro request_rules) simp_all
qed

lemma rq_cancel: "rgq C sender A (fresh_ids C) (prog_cancel C sender params) any"
proof -
  have sec: "request_move C sender A d (snd (cancel_section C sender tid d))" for A tid d
    by (auto simp: cancel_section_def require_def intro!: move_bind move_on_store cancel_thread_follows
        split: option.split sum.split)
  have sig: "request_move C sender B d (d\<lparr>dm_cancels := dm_cancels d @ [cell]\<rparr>)"
    if "a \<in> B" "acl_check a sender CSpawn = Inr ()" for a B d cell
    by (intro move_store edit_once [OF rtranclp.rtrancl_refl signal_cancel [OF that]] dedupe_same) simp
  show ?thesis
    unfolding prog_cancel_def case_prod_beta
    by (intro request_rules rq_loose_ok rq_loose rq_effect rg_Ret) (auto intro: sec sig)
qed

lemma rq_inbox: "rgq C sender A (fresh_ids C) (prog_inbox C sender params) any"
proof -
  have own: "request_move C sender B d (snd (pull_inbox sender n d))" if "a \<in> B" "acl_check a sender CReadInbox = Inr ()" for a B n d
  proof -
    have "edits B C sender d (set_store (snd (inbox sender n (dm_store d))) d)"
      by (rule edit_once [OF rtranclp.rtrancl_refl pull [OF that]])
    then show ?thesis
      by (cases "inbox sender n (dm_store d)") (auto intro!: move_store simp: pull_inbox_def dedupe_same inbox_frame split: prod.split dest!: sndI)
  qed
  show ?thesis unfolding prog_inbox_def by (intro request_rules) (auto intro: own)
qed

lemma rq_reads:
  "rgq C sender A (fresh_ids C) (prog_list C sender params) any"
  "rgq C sender A (fresh_ids C) (prog_op_status C sender params) any"
  "rgq C sender A (fresh_ids C) (prog_op_inspect C sender params) any"
  "rgq C sender A (fresh_ids C) (prog_op_audit_verify C sender params) any"
  unfolding prog_list_def prog_op_status_def prog_op_inspect_def prog_op_audit_verify_def case_prod_beta
  by (intro request_rules rq_peek; (rule rg_Ret)?; simp)+

lemma rq_section: "rgq C sender A P (locked (section_fn :: daemon \<Rightarrow> 'a \<times> daemon)) any"
  if "\<And>d. snd (section_fn d) = d" for section_fn
  by (rule rq_last) (simp add: that)

lemma rq_status: "rgq C sender A (fresh_ids C) (prog_status C sender params) any"
proof -
  have "snd (status_section sender p d) = d" for p d
    by (auto simp: status_section_def require_def split: option.split sum.split)
  then show ?thesis unfolding prog_status_def by (intro request_rules rq_section) simp_all
qed

lemma rq_result: "rgq C sender A (fresh_ids C) (prog_result C sender params) any"
proof -
  have "snd (result_section sender p d) = d" for p d
    by (auto simp: result_section_def require_def split: option.split sum.split)
  then show ?thesis unfolding prog_result_def by (intro request_rules rq_section) simp_all
qed

lemma rq_report: "rgq C sender A (fresh_ids C) (prog_report C sender params) any"
  unfolding prog_report_def
  by (intro request_rules rq_peek)
    (auto intro!: rg_Ret rq_peek rq_loose_ok rq_last split: option.split)

lemma activate_move: "request_move C sender A d (snd (activate_edge s ask d))"
proof (cases "try_activate_await (dm_graph d) s (a_to_cell ask)")
  case (Pair r g)
  then have "r = Inl e \<Longrightarrow> d\<lparr>dm_graph := g\<rparr> = d" for e
    by (auto simp: try_activate_await_def split: option.splits if_splits)
  with Pair show ?thesis
    by (cases r) (auto simp: activate_edge_def intro!: move_bind)
qed

lemma rq_resume_any: "rgq C sender A P (prog_resume ask guard woken) any"
proof -
  have a: "rgq C sender A P (prog_answered b) any" for A P b
    unfolding prog_answered_def peek_def by (auto intro!: rq_last split: option.split)
  have "rgq C sender A P (peek f) any" for f :: "daemon \<Rightarrow> 'a" and A P
    unfolding peek_def by (auto intro!: rq_last)
  then show ?thesis
    unfolding prog_resume_def peek_def
    by (intro rq_loose rq_effect) (auto intro!: rq_last rg_Ret a split: ask_state.split)
qed

lemma rq_await: "rgq C sender A (fresh_ids C) (prog_await sender params) any"
proof -
  have a: "rgq C c A P (seq (prog_answered b) (\<lambda>v. Ret (Inr v))) any" for c A P b
    unfolding prog_answered_def peek_def by (auto intro!: rq_loose rq_last rg_Ret split: option.split)
  have w: "rgq C c A P (seq_ok (locked (activate_edge s ask)) (\<lambda>guard.
      seq (effect (await_register i)) (\<lambda>_. Park i guard (prog_resume ask guard)))) any" for c A P s ask i
    by (intro rq_loose_ok rq_loose rq_last rq_effect rg_Park rq_resume_any activate_move) simp
  show ?thesis
    unfolding prog_await_def
    by (intro request_rules rq_peek) (auto intro!: rg_Ret a w split: option.split)
qed

lemma rq_request: "rgq C sender A (fresh_ids C) (request_program C sender req) any"
  using rq_send rq_ask rq_reply rq_inbox rq_reads rq_broadcast rq_spawn rq_send_task rq_status rq_result rq_cancel
    rq_report rq_await
  by (auto simp: request_program_def programs_def intro: rg_Ret)

section \<open>Delivery ticks\<close>

abbreviation rgt :: "acl set \<Rightarrow> (daemon \<Rightarrow> bool) \<Rightarrow> 'a prog \<Rightarrow> bool" where
  "rgt A P p \<equiv> rg tick_move (\<lambda>_ _. True) A P p any"

lemma asks_same: "s_asks t = s_asks s \<Longrightarrow> asks_kept s t"
  by (auto simp: asks_kept_def get_ask_def)

lemma tick_quiet: "loop_frame d d' \<Longrightarrow> s_asks (dm_store d') = s_asks (dm_store d) \<Longrightarrow> tick_move A d d'"
  by (simp add: tick_move_def asks_same)

lemma rgt_locked: "(\<And>d. bus_sound d \<Longrightarrow> tick_move {} d (snd (f d))) \<Longrightarrow> rgt A (\<lambda>_. True) (locked f)"
  by (rule rg_locked) (auto simp: tick_move_def)

lemma rgt_effect: "(\<And>d. bus_sound d \<Longrightarrow> tick_move {} d (f d)) \<Longrightarrow> rgt A (\<lambda>_. True) (effect f)"
  unfolding effect_def by (rule rgt_locked) simp

lemma rgt_seq: "rgt A P p \<Longrightarrow> (\<And>A a. rgt A (\<lambda>_. True) (k a)) \<Longrightarrow> rgt A P (seq p k)"
  by (rule rg_seq)

lemma rgt_each: "(\<And>x A. rgt A (\<lambda>_. True) (f x)) \<Longrightarrow> rgt A (\<lambda>_. True) (each xs f)"
  by (induction xs arbitrary: A) (auto intro: rgt_seq rg_Ret)

lemma tick_audit: "tick_move A d (audit_best_effort dr d)"
  using audit_dm_store [of dr d] by (intro tick_quiet loop_frame_audit) (cases "audit_dm dr d", simp add: audit_best_effort_def)

lemma tick_notify: "tick_move A d (notify i d)"
  by (intro tick_quiet loop_frame_notify) (simp add: notify_def)

text \<open>Only pending asks expire.\<close>

lemma tick_expire_asks:
  assumes "bus_sound d"
  shows "tick_move A d (set_store (snd (expire_asks_due now (dm_store d))) d)"
proof -
  let ?s = "snd (expire_asks_due now (dm_store d))"
  have d: "distinct (map a_ask_id (s_asks (dm_store d)))" using assms by (simp add: bus_sound_def)
  have "\<exists>b. get_ask i ?s = Some b \<and> same_ask a b" if a: "get_ask i (dm_store d) = Some a" for i a
  proof -
    let ?p = "\<lambda>a. a_ask_id a \<in> set (map a_ask_id (filter (\<lambda>a. a_state a = APending \<and> a_expires_at a \<le> now) (s_asks (dm_store d))))"
    let ?f = "\<lambda>a. a\<lparr>a_state := AExpired\<rparr>"
    have in_a: "a \<in> set (s_asks (dm_store d))" "a_ask_id a = i" using a by (auto simp: get_ask_def dest: find_Some_in)
    have "get_ask i ?s = Some (if ?p a then ?f a else a)"
      using a find_update_rows_key [where key = a_ask_id and k = i and f = ?f and p = ?p and rs = "s_asks (dm_store d)"]
      by (simp add: get_ask_def expire_asks_due_eq Let_def)
    moreover have "?p a \<Longrightarrow> a_state a = APending"
      using d in_a by (auto simp: distinct_map inj_on_def)
    ultimately show ?thesis by (auto simp: same_ask_def)
  qed
  moreover have "loop_frame d (set_store ?s d)"
    unfolding loop_frame_def expire_asks_due_eq Let_def by (auto intro!: exI)
  ultimately show ?thesis by (simp add: tick_move_def asks_kept_def)
qed

lemma tick_stores:
  "tick_move A d (set_store (snd (expire_due now (dm_store d))) d)"
  "tick_move A d (snd (tick_claim n d))"
  "tick_move A d (set_store (snd (transition mid rec st (dm_store d))) d)"
  "tick_move A d (set_store (snd (record_attempt_failure n j mid rec x b c (dm_store d))) d)"
proof -
  show "tick_move A d (set_store (snd (expire_due now (dm_store d))) d)"
    by (intro tick_quiet loop_frame_deliveries) (simp_all add: expire_due_eq Let_def)
  show "tick_move A d (snd (tick_claim n d))"
    by (intro tick_quiet loop_frame_tick_claim) (simp add: tick_claim_def claim_due_eq release_leases_def Let_def)
  show "tick_move A d (set_store (snd (transition mid rec st (dm_store d))) d)"
    by (intro tick_quiet loop_frame_deliveries) (simp_all add: transition_def update_delivery_def split: option.split)
  show "tick_move A d (set_store (snd (record_attempt_failure n j mid rec x b c (dm_store d))) d)"
    by (intro tick_quiet loop_frame_deliveries)
      (simp_all add: record_attempt_failure_def update_delivery_def Let_def split: option.split)
qed

lemma rgt_outcome: "rgt A (\<lambda>_. True) (prog_outcome now jitter mid rec out)"
  unfolding prog_outcome_def Let_def
  by (cases out) (auto intro!: rgt_seq rgt_effect rgt_locked rg_Ret tick_stores tick_audit)

lemma rgt_tick: "rgt A (\<lambda>_. True) (prog_tick now jitter adapters)"
  unfolding prog_tick_def
  by (intro rgt_seq rgt_each rgt_effect rgt_locked)
    (auto intro!: rgt_outcome rgt_effect tick_stores tick_audit tick_notify tick_expire_asks)

section \<open>Interference\<close>

lemma edit_asks_kept: "bus_edit A C sender d d' \<Longrightarrow> asks_kept (dm_store d) (dm_store d')"
proof (induction rule: bus_edit.induct)
  case (record_event dr d r d')
  then show ?case using audit_dm_store by (auto intro: asks_same)
next
  case (open_ask d e t x)
  have "get_ask i (insert_ask (rc_ask_id C) m s t x (dm_store d)) = Some a"
    if "get_ask i (dm_store d) = Some a" for i a m s
  proof -
    from that open_ask(1) have "i \<noteq> rc_ask_id C" by auto
    with that show ?thesis
      by (simp add: get_ask_def insert_ask_def find_replace_row_other [where key = a_ask_id])
  qed
  then show ?case by (auto simp: asks_kept_def)
next
  case (answer i d a e)
  have "\<exists>c. get_ask k (commit_reply (body_sha256 C) i e (dm_store d)) = Some c \<and> same_ask b c"
    if b: "get_ask k (dm_store d) = Some b" for k b
  proof -
    let ?f = "\<lambda>r. r\<lparr>a_state := AAnswered, a_reply_message_id := Some (e_message_id e),
      a_reply_body_sha256 := Some (body_sha256 C (e_body e))\<rparr>"
    have "get_ask k (commit_reply (body_sha256 C) i e (dm_store d)) = Some (if a_ask_id b = i then ?f b else b)"
      using b find_update_rows_key [where key = a_ask_id and k = k and f = ?f and p = "\<lambda>r. a_ask_id r = i"
          and rs = "s_asks (dm_store d)"] by (simp add: get_ask_def commit_reply_def)
    moreover have "a_ask_id b = k" using b by (auto simp: get_ask_def dest: find_Some_in)
    ultimately show ?thesis using b answer(1,2) by (auto simp: same_ask_def)
  qed
  then show ?case by (simp add: asks_kept_def)
next
  case (fabric d s l)
  then show ?case by (simp add: fabric_follows_def same_bus_def asks_same)
qed (auto intro!: asks_same simp: next_seq_frame inbox_frame insert_envelope_def insert_delivery_def dedupe_insert_def notify_def)

lemma asks_kept_refl [simp]: "asks_kept s s"
  by (simp add: asks_kept_def)

lemma asks_kept_trans: "asks_kept s t \<Longrightarrow> asks_kept t u \<Longrightarrow> asks_kept s u"
  unfolding asks_kept_def by (blast intro: same_ask_trans)

lemma edits_asks_kept: "edits A C sender d d' \<Longrightarrow> asks_kept (dm_store d) (dm_store d')"
  by (induction rule: rtranclp_induct) (auto intro: asks_kept_trans edit_asks_kept)

lemma move_harmless:
  assumes "request_move C sender A d d'"
  shows "harmless d d'"
proof (cases "edits A C sender d d'")
  case True
  with assms show ?thesis
    using edits_extend [OF True] edits_asks_kept [OF True] edits_sound [OF True]
    by (simp add: harmless_def request_move_def)
next
  case False
  then obtain g w where d': "d' = d\<lparr>dm_graph := g, dm_wakers := w\<rparr>" using assms by (auto simp: request_move_def)
  have "bus_sound (d\<lparr>dm_graph := g, dm_wakers := w\<rparr>) = bus_sound d"
    using bus_sound_graph(1) bus_sound_graph(3) by metis
  with assms show ?thesis by (simp add: harmless_def request_move_def d' extends_def audit_grows_def)
qed

lemma tick_harmless: "tick_move A d d' \<Longrightarrow> harmless d d'"
  using loop_sound [of d d']
  by (auto simp: tick_move_def harmless_def loop_frame_def extends_def get_envelope_def dedupe_same)

lemma edit_fresh_other:
  "bus_edit A C sender d d' \<Longrightarrow> rc_message_id C' \<noteq> rc_message_id C \<Longrightarrow> rc_ask_id C' \<noteq> rc_ask_id C \<Longrightarrow>
   fresh_ids C' d \<Longrightarrow> fresh_ids C' d'"
proof (induction rule: bus_edit.induct)
  case (record_event dr d r d')
  then show ?case using audit_dm_store by (simp add: fresh_ids_def)
next
  case (fabric d s l)
  then show ?case by (simp add: fresh_ids_def fabric_follows_def same_bus_def get_envelope_def get_ask_def)
next
  case (mint d e a)
  then show ?case
    by (simp add: fresh_ids_def) (simp add: get_envelope_def insert_envelope_def find_replace_row_other [where key = e_message_id])
next
  case (open_ask d e t x)
  then show ?case
    by (simp add: fresh_ids_def) (simp add: get_ask_def insert_ask_def find_replace_row_other [where key = a_ask_id])
next
  case (answer i d a e)
  then show ?case
    by (simp add: fresh_ids_def) (simp add: get_ask_def commit_reply_def find_update_rows_key [where key = a_ask_id])
next
  case (remember d e now key x h)
  then show ?case by (simp add: fresh_ids_def) (simp add: get_ask_def dedupe_insert_def)
next
  case (pull a d n)
  then show ?case by (simp add: fresh_ids_def get_envelope_def get_ask_def inbox_frame)
qed (simp_all add: fresh_ids_def notify_def)

lemma edits_fresh_other:
  "edits A C sender d d' \<Longrightarrow> rc_message_id C' \<noteq> rc_message_id C \<Longrightarrow> rc_ask_id C' \<noteq> rc_ask_id C \<Longrightarrow>
   fresh_ids C' d \<Longrightarrow> fresh_ids C' d'"
  by (induction rule: rtranclp_induct) (auto intro: edit_fresh_other)

lemma move_rely:
  assumes "request_move C sender A d d'" "rc_message_id C' \<noteq> rc_message_id C" "rc_ask_id C' \<noteq> rc_ask_id C"
  shows "rely C' d d'"
  using assms move_harmless [OF assms(1)] edits_fresh_other [OF _ assms(2,3)]
  by (auto simp: rely_def request_move_def fresh_ids_def)

lemma tick_rely: "tick_move A d d' \<Longrightarrow> rely C d d'"
proof -
  assume t: "tick_move A d d'"
  obtain p where p: "s_asks (dm_store d') = update_rows p (\<lambda>a. a\<lparr>a_state := AExpired\<rparr>) (s_asks (dm_store d))"
    using t by (auto simp: tick_move_def loop_frame_def)
  have "fresh_ids C d \<Longrightarrow> fresh_ids C d'"
    using t p find_update_rows_key [where key = a_ask_id and k = "rc_ask_id C" and p = p
        and f = "\<lambda>a. a\<lparr>a_state := AExpired\<rparr>" and rs = "s_asks (dm_store d)"]
    by (simp add: fresh_ids_def tick_move_def loop_frame_def get_envelope_def get_ask_def)
  with tick_harmless [OF t] show ?thesis by (simp add: rely_def)
qed

lemma rely_same_bus:
  assumes "same_bus (dm_store d) (dm_store d')" "audit_grows d d'"
  shows "rely C d d'"
proof -
  have x: "extends d d'" using assms by (simp add: extends_def same_bus_def get_envelope_def)
  have "bus_sound d \<Longrightarrow> bus_sound d'"
    by (rule bus_sound_frame [OF _ x]) (use assms(1) in \<open>simp_all add: same_bus_def\<close>)
  with x assms show ?thesis
    by (simp add: rely_def harmless_def asks_same dedupe_same same_bus_def fresh_ids_def get_envelope_def get_ask_def)
qed

lemma rely_outside:
  assumes "dm_core d' = dm_core d"
  shows "rely C d d'"
  using assms by (intro rely_same_bus) (simp_all add: audit_grows_def)

end
