(* ===== verification/Promises.thy ===== *)
theory Promises
  imports Interleaving
begin

text \<open>
  What the answers of concurrent requests promise, whatever runs beside them, and the invariant of the
  concurrent daemon: every request in progress stands at an assertion that the others keep, and its
  remaining lock sections lead from there to its promise.
\<close>

section \<open>Promises\<close>

text \<open>What the answer to a request says, whatever ran beside it, and keeps saying afterwards.\<close>

definition remembered :: "request_ctx \<Rightarrow> string \<Rightarrow> string \<Rightarrow> string \<Rightarrow> (dedupe_row \<Rightarrow> bool) \<Rightarrow> daemon \<Rightarrow> bool" where
  "remembered C sender key body f d \<longleftrightarrow> (\<exists>hit. dedupe_lookup sender key (dm_store d) = Some hit \<and>
     dd_body_sha256 hit = body_sha256 C body \<and> f hit)"

definition send_promise :: "request_ctx \<Rightarrow> string \<Rightarrow> json \<Rightarrow> json \<Rightarrow> daemon \<Rightarrow> bool" where
  "send_promise C sender params v d \<longleftrightarrow> (\<forall>p key. parse_send params = Inr p \<longrightarrow> snd_idempotency_key p = Some key \<longrightarrow>
     remembered C sender key (snd_body p) (\<lambda>hit. v = enqueued_json (dd_message_id hit)) d)"

definition ask_promise :: "request_ctx \<Rightarrow> string \<Rightarrow> json \<Rightarrow> json \<Rightarrow> daemon \<Rightarrow> bool" where
  "ask_promise C sender params v d \<longleftrightarrow> (\<forall>p key. parse_ask params = Inr p \<longrightarrow> ask_idempotency_key p = Some key \<longrightarrow>
     remembered C sender key (ask_body p) (\<lambda>hit. v = pending_json (dd_ask_id hit) (dd_message_id hit)) d)"

definition broadcast_promise :: "request_ctx \<Rightarrow> string \<Rightarrow> json \<Rightarrow> json \<Rightarrow> daemon \<Rightarrow> bool" where
  "broadcast_promise C sender params v d \<longleftrightarrow> (\<forall>p key. parse_broadcast params = Inr p \<longrightarrow> bc_idempotency_key p = Some key \<longrightarrow>
     remembered C sender key (bc_body p) (\<lambda>hit. \<exists>included. v = broadcast_json (dd_message_id hit) included) d)"

definition answered_json :: "envelope \<Rightarrow> json" where
  "answered_json e = JObj [(''status'', JStr ''answered''), (''reply'', envelope_json e)]"

definition answered_with :: "ask_row \<Rightarrow> envelope \<Rightarrow> daemon \<Rightarrow> bool" where
  "answered_with a e d \<longleftrightarrow> get_ask (a_ask_id a) (dm_store d) = Some a \<and> a_state a = AAnswered \<and>
     a_reply_message_id a = Some (e_message_id e) \<and> get_envelope (e_message_id e) (dm_store d) = Some e"

definition reply_json :: "string \<Rightarrow> string \<Rightarrow> json" where
  "reply_json mid st = JObj [(''message_id'', JStr mid), (''status'', JStr st)]"

definition recorded_answer :: "request_ctx \<Rightarrow> string \<Rightarrow> reply_params \<Rightarrow> ask_row \<Rightarrow> envelope \<Rightarrow> bool" where
  "recorded_answer C sender p a e \<longleftrightarrow> e_message_id e = rc_message_id C \<and> e_kind e = Reply \<and>
     e_from_cell e = sender \<and> e_to_cell e = Some (a_from_cell a) \<and> e_body e = rp_body p \<and> e_file_refs e = rp_file_refs p"

definition reply_promise :: "request_ctx \<Rightarrow> string \<Rightarrow> json \<Rightarrow> json \<Rightarrow> daemon \<Rightarrow> bool" where
  "reply_promise C sender params v d \<longleftrightarrow> (\<forall>p. parse_reply params = Inr p \<longrightarrow> (\<exists>a.
     (get_ask (rp_ask_id p) (dm_store d) = Some a \<and> a_state a \<noteq> APending \<and> a_to_cell a = sender \<and>
        a_reply_body_sha256 a = Some (body_sha256 C (rp_body p))) \<and>
     (v = reply_json (or_value [] (a_reply_message_id a)) ''duplicate'' \<or>
      (\<exists>e. answered_with a e d \<and> recorded_answer C sender p a e \<and> v = reply_json (rc_message_id C) ''recorded''))))"

definition await_outcome :: "ask_row \<Rightarrow> json \<Rightarrow> daemon \<Rightarrow> bool" where
  "await_outcome a v d \<longleftrightarrow> v = still_pending_json \<or>
     (get_ask (a_ask_id a) (dm_store d) = Some a \<and> a_state a = AExpired \<and> v = expired_json) \<or>
     (\<exists>e. answered_with a e d \<and> v = answered_json e)"

definition await_promise :: "string \<Rightarrow> json \<Rightarrow> json \<Rightarrow> daemon \<Rightarrow> bool" where
  "await_promise sender params v d \<longleftrightarrow> (\<forall>p. parse_await params = Inr p \<longrightarrow>
     (\<exists>a. a_ask_id a = aw_ask_id p \<and> a_from_cell a = sender \<and> await_outcome a v d))"

definition promised :: "request_ctx \<Rightarrow> string \<Rightarrow> wire_request \<Rightarrow> json \<Rightarrow> daemon \<Rightarrow> bool" where
  "promised C sender req v d \<longleftrightarrow>
     (let m = wq_method req; params = wq_params req in
      (m = ''cell_send'' \<longrightarrow> send_promise C sender params v d) \<and>
      (m = ''cell_ask'' \<longrightarrow> ask_promise C sender params v d) \<and>
      (m = ''cell_broadcast'' \<longrightarrow> broadcast_promise C sender params v d) \<and>
      (m = ''cell_reply'' \<longrightarrow> reply_promise C sender params v d) \<and>
      (m = ''cell_await'' \<longrightarrow> await_promise sender params v d))"

definition on_success :: "(json \<Rightarrow> daemon \<Rightarrow> bool) \<Rightarrow> acl set \<Rightarrow> json res \<Rightarrow> daemon \<Rightarrow> bool" where
  "on_success F A r d \<longleftrightarrow> (\<forall>v. r = Inr v \<longrightarrow> F v d)"

section \<open>The promises are stable\<close>

lemma stableI: "(\<And>d d'. P d \<Longrightarrow> R d d' \<Longrightarrow> P d') \<Longrightarrow> stable R P"
  by (auto simp: stable_def)

lemma stable_all: "(\<And>x. stable R (P x)) \<Longrightarrow> stable R (\<lambda>d. \<forall>x. P x d)"
  unfolding stable_def by blast

lemma stable_ex: "(\<And>x. stable R (P x)) \<Longrightarrow> stable R (\<lambda>d. \<exists>x. P x d)"
  unfolding stable_def by blast

lemma stable_imp: "stable R P \<Longrightarrow> stable R (\<lambda>d. F \<longrightarrow> P d)"
  unfolding stable_def by blast

lemma stable_disj: "stable R P \<Longrightarrow> stable R Q \<Longrightarrow> stable R (\<lambda>d. P d \<or> Q d)"
  unfolding stable_def by blast

lemma stable_settled [simp]:
  "a_state a \<noteq> APending \<Longrightarrow> stable (rely C) (\<lambda>d. get_ask i (dm_store d) = Some a)"
  unfolding stable_def rely_def harmless_def asks_kept_def same_ask_def by force

lemma stable_envelope [simp]: "stable (rely C) (\<lambda>d. get_envelope m (dm_store d) = Some e)"
  by (simp add: stable_def rely_def harmless_def extends_def)

lemma stable_answered_with [simp]: "stable (rely C) (answered_with a e)"
proof (cases "a_state a = AAnswered")
  case True
  then show ?thesis unfolding answered_with_def by (intro stable_conj stable_settled stable_envelope stable_const) simp
qed (simp add: answered_with_def stable_def)

lemma stable_remembered [simp]: "stable (rely C) (remembered C' sender key body f)"
  unfolding stable_def rely_def harmless_def dedupe_kept_def remembered_def by blast

lemma stable_settled_row:
  "stable (rely C) (\<lambda>d. get_ask i (dm_store d) = Some a \<and> a_state a \<noteq> APending \<and> F)"
proof (cases "a_state a = APending")
  case False
  then show ?thesis by (intro stable_conj stable_settled stable_const)
qed (simp add: stable_def)

lemma stable_reply_promise [simp]: "stable (rely C) (reply_promise C' sender params v)"
  unfolding reply_promise_def
  by (intro stable_all stable_imp stable_ex stable_conj [OF stable_settled_row] stable_disj stable_const
      stable_conj [OF stable_answered_with])

lemma stable_await_outcome [simp]: "stable (rely C) (await_outcome a v)"
proof -
  have expired: "stable (rely C) (\<lambda>d. get_ask i (dm_store d) = Some a \<and> a_state a = AExpired \<and> F)" for i a F
    using stable_settled_row [of C i a "a_state a = AExpired \<and> F"] by (auto simp: stable_def)
  show ?thesis
    unfolding await_outcome_def
    by (intro stable_disj stable_const stable_ex expired stable_conj [OF stable_answered_with])
qed

lemma stable_await_promise [simp]: "stable (rely C) (await_promise sender params v)"
  unfolding await_promise_def by (intro stable_all stable_imp stable_ex stable_conj stable_const stable_await_outcome)

lemma stable_promised [simp]: "stable (rely C) (promised C' sender req v)"
  unfolding promised_def Let_def send_promise_def ask_promise_def broadcast_promise_def
  by (intro stable_conj stable_imp stable_all stable_remembered stable_reply_promise stable_await_promise)

lemma stable_on_success [simp]: "(\<And>v. stable (rely C) (F v)) \<Longrightarrow> stable (rely C) (on_success F A r)"
  unfolding on_success_def by (intro stable_all stable_imp)

lemma on_success_cases [simp]: "on_success F A (Inl e) d" "on_success F A (Inr v) d = F v d"
  by (simp_all add: on_success_def)

section \<open>Requests keep their promises\<close>

lemma rq_final:
  "(\<And>d. P d \<Longrightarrow> request_move C sender (insert (dm_acl d) A) d (snd (f d))) \<Longrightarrow>
   (\<And>d v. P d \<Longrightarrow> bus_sound d \<Longrightarrow> fst (f d) = Inr v \<Longrightarrow> F v (snd (f d))) \<Longrightarrow> (\<And>v. stable (rely C) (F v)) \<Longrightarrow>
   rgq C sender A P (locked f) (on_success F)"
  by (rule rg_locked) (auto simp: on_success_def stable_on_success [unfolded on_success_def])

lemma persist_ask_remembers:
  assumes "persist_ask C sender p key d = (Inr v, d')"
  shows "remembered C sender key (ask_body p) (\<lambda>hit. v = pending_json (dd_ask_id hit) (dd_message_id hit)) d'"
proof (cases "dedupe_lookup sender key (dm_store d)")
  case None
  then show ?thesis
    using assms by (auto simp: persist_ask_def Let_def bind_res_Inr dedupe_lookup_insert remembered_def split: prod.splits)
qed (use assms in \<open>auto simp: persist_ask_def Let_def remembered_def split: if_splits\<close>)

lemma persist_broadcast_remembers:
  assumes "persist_broadcast C sender p mt included denied key d = (Inr v, d')"
  shows "remembered C sender key (bc_body p) (\<lambda>hit. \<exists>included. v = broadcast_json (dd_message_id hit) included) d'"
proof (cases "dedupe_lookup sender key (dm_store d)")
  case None
  then show ?thesis
    using assms by (auto simp: persist_broadcast_def Let_def bind_res_Inr dedupe_lookup_insert remembered_def split: prod.splits)
qed (use assms in \<open>auto simp: persist_broadcast_def Let_def remembered_def split: if_splits\<close>)

lemma stable_submissions [simp]:
  "stable (rely C) (send_promise C' sender params v)" "stable (rely C) (ask_promise C' sender params v)"
  "stable (rely C) (broadcast_promise C' sender params v)"
  unfolding send_promise_def ask_promise_def broadcast_promise_def by (intro stable_all stable_imp stable_remembered)+

lemma persist_promises:
  "parse_send params = Inr ps \<Longrightarrow> fst (persist_send C sender ps mt (or_value (rc_key C) (snd_idempotency_key ps)) d) = Inr v \<Longrightarrow>
   send_promise C sender params v (snd (persist_send C sender ps mt (or_value (rc_key C) (snd_idempotency_key ps)) d))"
  "parse_ask params = Inr pa \<Longrightarrow> fst (persist_ask C sender pa (or_value (rc_key C) (ask_idempotency_key pa)) d) = Inr v \<Longrightarrow>
   ask_promise C sender params v (snd (persist_ask C sender pa (or_value (rc_key C) (ask_idempotency_key pa)) d))"
  "parse_broadcast params = Inr pb \<Longrightarrow>
   fst (persist_broadcast C sender pb mt inc den (or_value (rc_key C) (bc_idempotency_key pb)) d) = Inr v \<Longrightarrow>
   broadcast_promise C sender params v (snd (persist_broadcast C sender pb mt inc den (or_value (rc_key C) (bc_idempotency_key pb)) d))"
  subgoal using persist_send_remembers [of C sender ps mt _ d v "snd _"]
    by (fastforce simp: send_promise_def remembered_def or_value_def prod_eq_iff)
  subgoal using persist_ask_remembers [of C sender pa _ d v "snd _"] by (auto simp: ask_promise_def or_value_def prod_eq_iff)
  subgoal using persist_broadcast_remembers [of C sender pb mt inc den _ d v "snd _"]
    by (auto simp: broadcast_promise_def or_value_def prod_eq_iff)
  done

lemmas promise_rules = rq_checked rq_acl rq_seq_ok [OF rq_authorize] rq_seq_ok [OF rq_admit]
  rq_seq_ok [OF rq_rate] rq_final stable_fresh TrueI move_store persist_dedupe

lemma rq_send_promise: "rgq C sender A (fresh_ids C) (prog_send C sender params) (on_success (send_promise C sender params))"
  unfolding prog_send_def Let_def
  by (intro promise_rules edit_persist_send; (rule persist_promises; assumption)?; simp?; blast intro: granted_mono grants(2))

lemma rq_ask_promise: "rgq C sender A (fresh_ids C) (prog_ask C sender params) (on_success (ask_promise C sender params))"
  unfolding prog_ask_def Let_def
  by (intro promise_rules rq_peek rq_seq_ok [OF rq_locked [where F = "\<lambda>_ _. True"]] edit_persist_ask;
      (rule persist_promises; assumption)?; simp add: check_ask_cap_def split: sum.split; blast intro: granted_mono grants(2))

lemma rq_broadcast_promise:
  "rgq C sender A (fresh_ids C) (prog_broadcast C sender params) (on_success (broadcast_promise C sender params))"
  unfolding prog_broadcast_def Let_def case_prod_beta
  by (intro promise_rules rq_peek edit_persist_broadcast; (rule persist_promises; assumption)?; simp?; blast intro: grants(2))

lemma get_ask_id: "get_ask i s = Some a \<Longrightarrow> a_ask_id a = i"
  by (auto simp: get_ask_def dest: find_Some_in)

lemma rq_quiet_effect:
  assumes "\<And>d. request_move C sender (insert (dm_acl d) A) d (f d)" "\<And>d. dm_core (f d) = dm_core d" "stable (rely C) P"
  shows "rgq C sender A P (effect f) (\<lambda>_ _. P)"
  unfolding effect_def
proof (rule rg_locked)
  fix d assume "P d"
  with assms(3) rely_outside [OF assms(2), of C d] have "P (f d)" by (auto simp: stable_def)
  with assms(1) show "request_move C sender (insert (dm_acl d) A) d (snd ((), f d)) \<and> P (snd ((), f d))" by simp
qed (rule assms(3))

lemma rg_post: "rg G R A P p Q \<Longrightarrow> (\<And>A' a d. A \<subseteq> A' \<Longrightarrow> Q A' a d \<Longrightarrow> Q' A' a d) \<Longrightarrow> rg G R A P p Q'"
proof (induction arbitrary: Q' rule: rg.induct)
  case (rg_Ret P Q A a)
  then show ?case by (intro rg.rg_Ret) simp
next
  case (rg_Sec P A f Q)
  show ?case
  proof (rule rg.rg_Sec)
    fix d assume "P d" "bus_sound d"
    from rg_Sec(1) [OF this] obtain P' where P': "G (insert (dm_acl d) A) d (snd (f d))" "stable R P'" "P' (snd (f d))"
      and ih: "\<forall>Q'. (\<forall>A'. insert (dm_acl d) A \<subseteq> A' \<longrightarrow> (\<forall>a d'. Q A' a d' \<longrightarrow> Q' A' a d')) \<longrightarrow>
        rg G R (insert (dm_acl d) A) P' (fst (f d)) Q'"
      by (elim conjE exE) (rule that)
    moreover have "rg G R (insert (dm_acl d) A) P' (fst (f d)) Q'" using rg_Sec.prems by (intro ih [rule_format]) auto
    ultimately show "G (insert (dm_acl d) A) d (snd (f d)) \<and>
        (\<exists>P'. stable R P' \<and> P' (snd (f d)) \<and> rg G R (insert (dm_acl d) A) P' (fst (f d)) Q')" by blast
  qed
next
  case (rg_Park A P h Q i g)
  show ?case by (rule rg.rg_Park) (rule rg_Park.IH [OF rg_Park.prems])
qed

lemma rq_refused_any: "rgq C sender A P (audited_refusal dr e) (on_success F)"
  unfolding audited_refusal_def seq_ok_def
  by (rule rg_seq, rule rq_last) (auto intro: rg_Ret split: sum.split)

text \<open>A reply: what the store section leaves behind, and what the request makes of it.\<close>

definition section_promise :: "request_ctx \<Rightarrow> string \<Rightarrow> json \<Rightarrow> reply_section \<Rightarrow> daemon \<Rightarrow> bool" where
  "section_promise C sender params out d \<longleftrightarrow>
     (case out of Stored v \<Rightarrow> reply_promise C sender params v d | Repeated v \<Rightarrow> reply_promise C sender params v d
      | Differs \<Rightarrow> True)"

lemma stable_section_promise [simp]: "stable (rely C) (section_promise C' sender params out)"
  unfolding section_promise_def by (cases out) simp_all

lemma reply_promiseI:
  assumes "parse_reply params = Inr p" "get_ask (rp_ask_id p) (dm_store d) = Some c" "answered_with c e d"
    "recorded_answer C sender p c e" "a_state c \<noteq> APending" "a_to_cell c = sender"
    "a_reply_body_sha256 c = Some (body_sha256 C (rp_body p))"
  shows "reply_promise C sender params (reply_json (rc_message_id C) ''recorded'') d"
  using assms unfolding reply_promise_def by auto

lemma reply_promise_dupI:
  assumes "parse_reply params = Inr p" "get_ask (rp_ask_id p) (dm_store d) = Some c" "a_state c \<noteq> APending"
    "a_to_cell c = sender" "a_reply_body_sha256 c = Some (body_sha256 C (rp_body p))"
  shows "reply_promise C sender params (reply_json (or_value [] (a_reply_message_id c)) ''duplicate'') d"
  using assms unfolding reply_promise_def by auto

lemma store_reply_promise:
  assumes "parse_reply params = Inr p" "get_ask (rp_ask_id p) (dm_store d) = Some b" "same_ask a b" "a_to_cell a = sender"
    "store_reply C sender p a key d = (Inr out, d')"
  shows "section_promise C sender params out d'"
proof -
  obtain seq s1 where sq: "next_seq sender (a_from_cell a) (dm_store d) = (seq, s1)" by (metis prod.exhaust)
  have s1: "s1 = snd (next_seq sender (a_from_cell a) (dm_store d))" by (simp add: sq)
  have g: "get_ask (rp_ask_id p) s1 = Some b" using assms(2) by (simp add: s1)
  let ?e = "build_envelope_with_caps C (dm_acl d) Reply MReply sender (Some (a_from_cell a)) (rp_body p)
                 (rp_file_refs p) (Some (rp_ask_id p)) (Some (a_message_id a)) key (clamp_ttl Reply None) seq"
  have b: "a_to_cell b = sender" "a_from_cell b = a_from_cell a" using assms(3,4) by (simp_all add: same_ask_def)
  have e: "e_body ?e = rp_body p" "e_message_id ?e = rc_message_id C" by simp_all
  show ?thesis
  proof (cases "a_state b = APending")
    case True
    then have "reply_precheck (body_sha256 C) (rp_ask_id p) ?e s1 = Recorded" using g by (simp add: reply_precheck_def)
    with assms(5) obtain d2 u where x: "audit_dm (mk_draft ''enqueued'' (Some (e_message_id ?e)) (Some sender)
          (Some (a_from_cell a)) ''ok'' None) (set_store (insert_envelope ?e s1) d) = (Inr u, d2)"
      and d': "d' = set_store (insert_delivery (e_message_id ?e) (a_from_cell a)
          (commit_reply (body_sha256 C) (rp_ask_id p) ?e (dm_store d2))) d2"
      and out: "out = Stored (reply_json (rc_message_id C) ''recorded'')"
      by (auto simp: store_reply_def Let_def sq bind_res_Inr reply_json_def)
    have d2: "dm_store d2 = insert_envelope ?e s1" using audit_dm_store [OF x] by simp
    define c where "c = b\<lparr>a_state := AAnswered, a_reply_message_id := Some (e_message_id ?e),
        a_reply_body_sha256 := Some (body_sha256 C (e_body ?e))\<rparr>"
    have "get_ask (rp_ask_id p) (insert_envelope ?e s1) = Some b" using g by simp
    from get_ask_commit [OF this, of "body_sha256 C" ?e] have c: "get_ask (rp_ask_id p) (dm_store d') = Some c"
      by (simp add: d' d2 c_def)
    moreover have "answered_with c ?e d'"
      using c get_ask_id [OF c] get_envelope_insert [of ?e s1] by (simp add: answered_with_def d' d2) (simp add: c_def)
    moreover have "recorded_answer C sender p c ?e" using b(2) by (simp add: recorded_answer_def c_def)
    moreover have "a_state c \<noteq> APending" "a_to_cell c = sender" "a_reply_body_sha256 c = Some (body_sha256 C (rp_body p))"
      using b(1) by (simp_all add: c_def)
    ultimately have "reply_promise C sender params (reply_json (rc_message_id C) ''recorded'') d'"
      by (intro reply_promiseI [OF assms(1)])
    with out show ?thesis by (simp add: section_promise_def)
  next
    case False
    then have "reply_precheck (body_sha256 C) (rp_ask_id p) ?e s1 =
        (if a_reply_body_sha256 b = Some (body_sha256 C (rp_body p))
         then DuplicateIdentical (or_value [] (a_reply_message_id b)) else Conflict)"
      using g by (simp add: reply_precheck_def or_value_def)
    with assms(5) have d': "d' = set_store s1 d"
      and out: "if a_reply_body_sha256 b = Some (body_sha256 C (rp_body p))
        then out = Repeated (reply_json (or_value [] (a_reply_message_id b)) ''duplicate'') else out = Differs"
      by (simp_all add: store_reply_def Let_def sq reply_json_def split: if_splits)
    have "reply_promise C sender params (reply_json (or_value [] (a_reply_message_id b)) ''duplicate'') d'"
      if "a_reply_body_sha256 b = Some (body_sha256 C (rp_body p))"
      by (rule reply_promise_dupI [OF assms(1)]) (use that False b g in \<open>simp_all add: d'\<close>)
    with out show ?thesis by (cases "a_reply_body_sha256 b = Some (body_sha256 C (rp_body p))") (simp_all add: section_promise_def)
  qed
qed

lemma rq_reply_answer:
  assumes "\<exists>a \<in> A. acl_check a sender CReply = Inr ()" "check_body (rp_body p) = Inr ()" "attach_granted A sender (rp_file_refs p)"
    "parse_reply params = Inr p"
  shows "rgq C sender A (\<lambda>d. fresh_ids C d \<and> ask_known (rp_ask_id p) a d)
    (if a_to_cell a \<noteq> sender then Ret (Inl AskNotFound)
     else seq_ok (locked (store_reply C sender p a key)) (after_reply sender p a)) (on_success (reply_promise C sender params))"
proof (cases "a_to_cell a = sender")
  case True
  have "rgq C sender A (\<lambda>d. fresh_ids C d \<and> ask_known (rp_ask_id p) a d) (locked (store_reply C sender p a key))
      (\<lambda>A r d. \<forall>out. r = Inr out \<longrightarrow> section_promise C sender params out d)"
  proof (rule rg_locked, intro conjI)
    fix d assume d: "fresh_ids C d \<and> ask_known (rp_ask_id p) a d" "bus_sound d"
    show "request_move C sender (insert (dm_acl d) A) d (snd (store_reply C sender p a key d))"
      by (rule reply_section_move) (use d assms True granted_mono(2) [OF assms(3) subset_insertI] in auto)
    show "\<forall>out. fst (store_reply C sender p a key d) = Inr out \<longrightarrow>
        section_promise C sender params out (snd (store_reply C sender p a key d))"
      using d(1) store_reply_promise [OF assms(4) _ _ True] by (auto simp: ask_known_def prod_eq_iff)
  qed (intro stable_all stable_imp stable_section_promise)
  moreover have "rgq C sender A' (section_promise C sender params out) (after_reply sender p a out)
      (on_success (reply_promise C sender params))" for A' out
  proof (cases out)
    case (Stored v)
    have "rgq C sender A' (section_promise C sender params out) (effect (notify (rp_ask_id p)))
        (\<lambda>_ _. section_promise C sender params out)"
      by (rule rq_quiet_effect) (simp, simp add: notify_def, simp)
    then show ?thesis
      unfolding after_reply_def Stored by (simp, rule rg_seq) (auto intro: rg_Ret simp: section_promise_def)
  qed (auto simp: after_reply_def section_promise_def intro: rg_Ret rq_refused_any)
  ultimately show ?thesis
    using True unfolding seq_ok_def
    by simp (erule rg_seq, auto intro: rg_Ret rg_pre split: sum.split)
qed (simp add: rg_Ret)

lemma rq_reply_promise: "rgq C sender A (fresh_ids C) (prog_reply C sender params) (on_success (reply_promise C sender params))"
  unfolding prog_reply_def
  by (intro promise_rules rq_found; (simp only: option.case)?; (rule rq_reply_answer rg_Ret)?; simp?; blast intro: grants(2))

text \<open>An await: the reply of a settled ask, and the resumption after a wait.\<close>

lemma ask_known_settled: "ask_known i a d \<Longrightarrow> a_state a \<noteq> APending \<Longrightarrow> get_ask i (dm_store d) = Some a"
  by (auto simp: ask_known_def same_ask_def)

lemma rq_answered:
  assumes "a_state a = AAnswered" "\<And>d. P d \<Longrightarrow> ask_known (a_ask_id a) a d"
  shows "rgq C sender A P (prog_answered a) (\<lambda>_ v d. \<exists>e. answered_with a e d \<and> v = answered_json e)"
proof -
  have e: "\<exists>e. answered_with a e d \<and> answered (dm_store d) a = answered_json e \<and> a_reply_message_id a \<noteq> None"
    if d: "P d" "bus_sound d" for d
  proof -
    have g: "get_ask (a_ask_id a) (dm_store d) = Some a" using assms d by (simp add: ask_known_settled)
    then have "ask_answer d a"
      using d(2) assms(1) by (auto simp: bus_sound_def ask_sound_def get_ask_def dest!: find_Some_in)
    then obtain m e where m: "a_reply_message_id a = Some m" "get_envelope m (dm_store d) = Some e"
      by (auto simp: ask_answer_def message_def)
    moreover from m(2) have "e_message_id e = m" by (rule get_envelope_id)
    ultimately show ?thesis using g assms(1) by (auto simp: answered_with_def answered_def answered_json_def)
  qed
  have st: "stable (rely C) (\<lambda>d. \<exists>e. answered_with a e d \<and> v = answered_json e)" for v
    by (intro stable_ex stable_conj stable_answered_with stable_const)
  show ?thesis
  proof (cases "a_reply_message_id a")
    case None
    show ?thesis unfolding prog_answered_def None option.case peek_def by (rule rg_locked) (use e None st in auto)
  next
    case (Some m)
    show ?thesis
      unfolding prog_answered_def Some option.case peek_def
      by (rule rg_locked) (use e st in \<open>auto dest!: e\<close>)
  qed
qed

lemma known_read:
  "ask_known i a d \<Longrightarrow> same_ask a (or_value a (get_ask i (dm_store d))) \<and> ask_known i (or_value a (get_ask i (dm_store d))) d"
  by (auto simp: ask_known_def or_value_def)

lemma activate_store [simp]: "dm_store (snd (activate_edge sender a d)) = dm_store d"
  by (auto simp: activate_edge_def bind_res_def split: prod.split sum.split dest: audit_dm_store)

lemma await_outcomeI:
  "answered_with a e d \<Longrightarrow> await_outcome a (answered_json e) d"
  "get_ask (a_ask_id a) (dm_store d) = Some a \<Longrightarrow> a_state a = AExpired \<Longrightarrow> await_outcome a expired_json d"
  "await_outcome a still_pending_json d"
  by (auto simp: await_outcome_def)

lemma rq_resume:
  "rgq C sender A (ask_known (a_ask_id a) a) (prog_resume a guard woken)
     (on_success (\<lambda>v d. \<exists>b. a_ask_id b = a_ask_id a \<and> a_from_cell b = a_from_cell a \<and> await_outcome b v d))"
proof -
  let ?out = "\<lambda>v d. \<exists>b. a_ask_id b = a_ask_id a \<and> a_from_cell b = a_from_cell a \<and> await_outcome b v d"
  have st: "stable (rely C) (?out v)" for v by (intro stable_ex stable_conj stable_const stable_await_outcome)
  have fin: "rgq C sender A' (?out v) (seq (effect (await_cancelled guard)) (\<lambda>_. Ret (Inr v))) (on_success ?out)" for A' v
  proof (rule rg_seq [OF rq_quiet_effect [OF _ _ st]])
    show "rgq C sender B (?out v) (Ret (Inr v)) (on_success ?out)" for B by (rule rg_Ret) simp
  qed (simp_all add: await_cancelled_def)
  have body: "rgq C sender A' (\<lambda>d. same_ask a b \<and> ask_known (a_ask_id a) b d)
      (if \<not> woken then Ret still_pending_json
       else case a_state b of AAnswered \<Rightarrow> prog_answered b | AExpired \<Rightarrow> Ret expired_json | APending \<Rightarrow> Ret still_pending_json)
      (\<lambda>_. ?out)" for A' b
  proof (rule rg_known [where F = "same_ask a b"])
    assume b: "same_ask a b"
    then have i: "a_ask_id b = a_ask_id a" "a_from_cell b = a_from_cell a" by (simp_all add: same_ask_def)
    have out: "await_outcome b v d \<Longrightarrow> ?out v d" for v d using i by blast
    show ?thesis
    proof (cases "woken \<and> a_state b = AAnswered")
      case True
      have "rgq C sender A' (\<lambda>d. same_ask a b \<and> ask_known (a_ask_id a) b d) (prog_answered b)
          (\<lambda>_ v d. \<exists>e. answered_with b e d \<and> v = answered_json e)"
        by (rule rq_answered) (use True i in auto)
      then have "rgq C sender A' (\<lambda>d. same_ask a b \<and> ask_known (a_ask_id a) b d) (prog_answered b) (\<lambda>_. ?out)"
        by (rule rg_post) (use i in \<open>blast intro: await_outcomeI\<close>)
      with True show ?thesis by simp
    next
      case False
      have "?out (if woken \<and> a_state b = AExpired then expired_json else still_pending_json) d"
        if "ask_known (a_ask_id a) b d" for d
        using ask_known_settled [OF that] i by (intro out) (auto simp: await_outcome_def)
      with False show ?thesis by (auto intro!: rg_Ret split: ask_state.split)
    qed
  qed simp
  show ?thesis
    unfolding prog_resume_def
  proof (rule rg_seq [where ?Q1.0 = "\<lambda>_ b d. same_ask a b \<and> ask_known (a_ask_id a) b d"])
    show "rgq C sender A (ask_known (a_ask_id a) a) (peek (\<lambda>d. or_value a (get_ask (a_ask_id a) (dm_store d))))
        (\<lambda>_ b d. same_ask a b \<and> ask_known (a_ask_id a) b d)"
      unfolding peek_def
      by (rule rg_locked) (auto dest: known_read intro!: stable_conj)
  qed (rule rg_seq [OF body fin])
qed

lemma rq_await_found:
  assumes "parse_await params = Inr p"
  shows "rgq C sender A (\<lambda>d. fresh_ids C d \<and> ask_known (aw_ask_id p) a d)
     (if a_from_cell a \<noteq> sender then Ret (Inl AskNotFound)
      else if a_state a = AAnswered then seq (prog_answered a) (\<lambda>v. Ret (Inr v))
      else if a_state a = AExpired then Ret (Inr expired_json)
      else seq_ok (locked (activate_edge sender a)) (\<lambda>guard.
           seq (effect (await_register (a_ask_id a))) (\<lambda>_. Park (a_ask_id a) guard (prog_resume a guard))))
     (on_success (await_promise sender params))" (is "rgq C sender A ?P ?p ?Q")
proof (rule rg_known [where F = "a_ask_id a = aw_ask_id p"])
  assume i: "a_ask_id a = aw_ask_id p"
  let ?known = "ask_known (a_ask_id a) a"
  show ?thesis
  proof (cases "a_from_cell a = sender")
    case False
    then show ?thesis by (simp add: rg_Ret)
  next
    case own: True
    have out: "await_promise sender params v d" if "a_ask_id b = a_ask_id a" "a_from_cell b = a_from_cell a" "await_outcome b v d" for b v d
      using that i own assms by (auto simp: await_promise_def)
    consider "a_state a = AAnswered" | "a_state a = AExpired" | "a_state a = APending" by (cases "a_state a") simp_all
    then show ?thesis
    proof cases
      case 1
      have "rgq C sender A ?P (prog_answered a) (\<lambda>_ v d. \<exists>e. answered_with a e d \<and> v = answered_json e)"
        by (rule rq_answered) (use 1 i in simp_all)
      then have "rgq C sender A ?P (seq (prog_answered a) (\<lambda>v. Ret (Inr v))) ?Q"
        by (rule rg_seq) (rule rg_Ret, use out await_outcomeI(1) in auto)
      with 1 own show ?thesis by simp
    next
      case 2
      have "rgq C sender A ?P (Ret (Inr expired_json)) ?Q"
        by (rule rg_Ret, simp) (rule out [of a], use 2 i ask_known_settled [of "a_ask_id a" a] in \<open>auto intro!: await_outcomeI(2)\<close>)
      with 2 own show ?thesis by simp
    next
      case 3
      have park: "rgq C sender A' ?known (Park (a_ask_id a) guard (prog_resume a guard)) ?Q" for A' guard
        by (rule rg_Park, rule rg_post [OF rq_resume]) (auto simp: on_success_def intro: out)
      have "rgq C sender A' ?known (seq (effect (await_register (a_ask_id a))) (\<lambda>_. Park (a_ask_id a) guard (prog_resume a guard))) ?Q"
        for A' guard
        by (rule rg_seq [OF rq_quiet_effect park]) (simp, simp add: await_register_def, simp)
      moreover have "rgq C sender A ?P (locked (activate_edge sender a)) (\<lambda>_ _. ?known)"
      proof (rule rg_locked)
        fix d assume "?P d"
        then have "?known (snd (activate_edge sender a d))" using i by (simp add: ask_known_def)
        then show "request_move C sender (insert (dm_acl d) A) d (snd (activate_edge sender a d)) \<and>
            ?known (snd (activate_edge sender a d))" using activate_move by simp
      qed simp
      ultimately have "rgq C sender A ?P (seq_ok (locked (activate_edge sender a)) (\<lambda>guard.
           seq (effect (await_register (a_ask_id a))) (\<lambda>_. Park (a_ask_id a) guard (prog_resume a guard)))) ?Q"
        unfolding seq_ok_def by (elim rg_seq) (auto intro: rg_Ret split: sum.split)
      with 3 own show ?thesis by simp
    qed
  qed
qed (use get_ask_id in \<open>fastforce simp: ask_known_def same_ask_def\<close>)

lemma rq_await_promise: "rgq C sender A (fresh_ids C) (prog_await sender params) (on_success (await_promise sender params))"
  unfolding prog_await_def
  by (intro promise_rules rq_found; (simp only: option.case)?; (rule rq_await_found rg_Ret)?; simp)

text \<open>The promise a request of the given method makes; the other methods promise nothing here.\<close>

definition promise :: "request_ctx \<Rightarrow> string \<Rightarrow> wire_request \<Rightarrow> acl set \<Rightarrow> json res \<Rightarrow> daemon \<Rightarrow> bool" where
  "promise C sender req = on_success (promised C sender req)"

lemma rq_request_promise: "rgq C sender A (fresh_ids C) (request_program C sender req) (promise C sender req)"
proof -
  have one: "rgq C sender A (fresh_ids C) p (promise C sender req)"
    if "rgq C sender A (fresh_ids C) p (on_success F)" "\<And>v d. F v d \<Longrightarrow> promised C sender req v d" for p F
    using rg_post [OF that(1)] that(2) by (auto simp: promise_def on_success_def)
  let ?x = "wq_params req"
  consider "wq_method req = ''cell_send''" | "wq_method req = ''cell_ask''" | "wq_method req = ''cell_broadcast''"
    | "wq_method req = ''cell_reply''" | "wq_method req = ''cell_await''"
    | "wq_method req \<notin> {''cell_send'', ''cell_ask'', ''cell_broadcast'', ''cell_reply'', ''cell_await''}" by auto
  then show ?thesis
  proof cases
    case 1
    with one [OF rq_send_promise, of ?x] show ?thesis by (simp add: promised_def request_program_def programs_def)
  next
    case 2
    with one [OF rq_ask_promise, of ?x] show ?thesis by (simp add: promised_def request_program_def programs_def)
  next
    case 3
    with one [OF rq_broadcast_promise, of ?x] show ?thesis by (simp add: promised_def request_program_def programs_def)
  next
    case 4
    with one [OF rq_reply_promise, of ?x] show ?thesis by (simp add: promised_def request_program_def programs_def)
  next
    case 5
    with one [OF rq_await_promise, of ?x] show ?thesis by (simp add: promised_def request_program_def)
  next
    case 6
    then have "promised C sender req v d" for v d by (simp add: promised_def)
    with rg_post [OF rq_request [of C sender A req]] show ?thesis by (auto simp: promise_def on_success_def)
  qed
qed

section \<open>The invariant of the concurrent daemon\<close>

text \<open>A request in progress is at an assertion that the others keep, and from there on it meets its
  triple; \<open>Q\<close> is what is wanted of its result.\<close>

type_synonym goal = "request_ctx \<Rightarrow> string \<Rightarrow> wire_request \<Rightarrow> acl set \<Rightarrow> json res \<Rightarrow> daemon \<Rightarrow> bool"

definition task_ok :: "goal \<Rightarrow> daemon \<Rightarrow> task \<Rightarrow> bool" where
  "task_ok Q d t \<longleftrightarrow> (\<forall>p. tk_prog t = Some p \<longrightarrow>
     (\<exists>P. stable (rely (tk_ctx t)) P \<and> P d \<and>
        rgq (tk_ctx t) (tk_cell t) (tk_acls t) P p (Q (tk_ctx t) (tk_cell t) (tk_req t))))"

definition conc_inv :: "(nat \<Rightarrow> goal) \<Rightarrow> conc \<Rightarrow> bool" where
  "conc_inv Q S \<longleftrightarrow> bus_sound (cc_daemon S) \<and>
     (\<forall>i < length (cc_tasks S). task_ok (Q i) (cc_daemon S) (cc_tasks S ! i)) \<and>
     (\<forall>i \<ge> length (cc_tasks S). Q i = promise) \<and>
     (\<forall>p \<in> set (cc_ticks S). \<exists>A. rgt A (\<lambda>_. True) p) \<and>
     distinct (map (rc_message_id \<circ> tk_ctx) (cc_tasks S)) \<and> distinct (map (rc_ask_id \<circ> tk_ctx) (cc_tasks S))"

abbreviation goal_of :: "(nat \<Rightarrow> goal) \<Rightarrow> nat \<Rightarrow> task \<Rightarrow> acl set \<Rightarrow> json res \<Rightarrow> daemon \<Rightarrow> bool" where
  "goal_of Q i t \<equiv> Q i (tk_ctx t) (tk_cell t) (tk_req t)"

lemma task_ok_rely: "task_ok Q d t \<Longrightarrow> rely (tk_ctx t) d d' \<Longrightarrow> task_ok Q d' t"
  unfolding task_ok_def stable_def by blast

lemma conc_inv_at:
  assumes "conc_inv Q S" "at_prog S i p"
  obtains P where "stable (rely (tk_ctx (cc_tasks S ! i))) P" "P (cc_daemon S)"
    "rgq (tk_ctx (cc_tasks S ! i)) (tk_cell (cc_tasks S ! i)) (tk_acls (cc_tasks S ! i)) P p (goal_of Q i (cc_tasks S ! i))"
proof -
  have "task_ok (Q i) (cc_daemon S) (cc_tasks S ! i)" using assms by (simp add: conc_inv_def)
  then show thesis using assms(2) that unfolding task_ok_def by blast
qed

text \<open>A step of one request: it meets its own triple, and the others are still where they were.\<close>

lemma conc_inv_task:
  assumes inv: "conc_inv Q S" and i: "i < length (cc_tasks S)"
    and move: "request_move (tk_ctx (cc_tasks S ! i)) (tk_cell (cc_tasks S ! i)) A (cc_daemon S) d"
    and t: "tk_ctx t = tk_ctx (cc_tasks S ! i)" "task_ok (Q i) d t"
  shows "conc_inv Q (S\<lparr>cc_daemon := d, cc_tasks := (cc_tasks S)[i := t]\<rparr>)"
proof -
  have "task_ok (Q j) d ((cc_tasks S)[i := t] ! j)" if j: "j < length (cc_tasks S)" for j
  proof (cases "j = i")
    case False
    have "rc_message_id (tk_ctx (cc_tasks S ! j)) \<noteq> rc_message_id (tk_ctx (cc_tasks S ! i))"
      "rc_ask_id (tk_ctx (cc_tasks S ! j)) \<noteq> rc_ask_id (tk_ctx (cc_tasks S ! i))"
      using inv i j False by (auto simp: conc_inv_def distinct_conv_nth)
    from move_rely [OF move this] inv j False show ?thesis
      by (auto simp: conc_inv_def intro: task_ok_rely)
  qed (use t i in simp)
  moreover have "bus_sound d" using inv move_harmless [OF move] by (simp add: conc_inv_def harmless_def)
  moreover have "map f ((cc_tasks S)[i := t]) = map f (cc_tasks S)" if "f t = f (cc_tasks S ! i)" for f :: "task \<Rightarrow> string"
    using that i by (metis list_update_id map_update)
  ultimately show ?thesis using inv t(1) by (simp add: conc_inv_def)
qed

text \<open>A step of the daemon itself.\<close>

lemma conc_inv_other:
  assumes "conc_inv Q S" "\<And>C. rely C (cc_daemon S) d" "\<forall>p \<in> set ps. \<exists>A. rgt A (\<lambda>_. True) p"
  shows "conc_inv Q (S\<lparr>cc_daemon := d, cc_ticks := ps\<rparr>)"
proof -
  have "bus_sound d" using assms(1,2) by (auto simp: conc_inv_def rely_def harmless_def)
  with assms show ?thesis by (auto simp: conc_inv_def intro: task_ok_rely)
qed

lemma rgt_section:
  assumes "rgt A (\<lambda>_. True) (Sec f)" "bus_sound d"
  shows "tick_move (insert (dm_acl d) A) d (snd (f d)) \<and> (\<exists>A. rgt A (\<lambda>_. True) (fst (f d)))"
proof -
  from assms obtain P' where "tick_move (insert (dm_acl d) A) d (snd (f d))" "stable (\<lambda>_ _. True) P'" "P' (snd (f d))"
    "rgt (insert (dm_acl d) A) P' (fst (f d))" by (auto elim!: rg_SecE)
  moreover from this have "P' x" for x by (auto simp: stable_def)
  ultimately show ?thesis by (auto intro: rg_pre)
qed

lemma conc_step_inv: "conc_step S S' \<Longrightarrow> conc_inv Q S \<Longrightarrow> conc_inv Q S'"
proof (induction rule: conc_step.induct)
  case (begin_request C S sender req)
  have "task_ok promise (cc_daemon S) \<lparr>tk_ctx = C, tk_cell = sender, tk_req = req, tk_prog = Some (request_program C sender req), tk_acls = {}\<rparr>"
    using begin_request(1) rq_request_promise [of C sender "{}" req] by (auto simp: task_ok_def intro!: exI [of _ "fresh_ids C"])
  with begin_request(2,3) show ?case
    by (auto simp: conc_inv_def nth_append new_ids_def less_Suc_eq)
next
  case (run_section S i f p d)
  let ?t = "cc_tasks S ! i"
  from conc_inv_at [OF run_section(3,1)] obtain P where P: "P (cc_daemon S)"
    "rgq (tk_ctx ?t) (tk_cell ?t) (tk_acls ?t) P (Sec f) (goal_of Q i ?t)" by blast
  have "bus_sound (cc_daemon S)" using run_section(3) by (simp add: conc_inv_def)
  with P run_section(2) obtain P' where
    "request_move (tk_ctx ?t) (tk_cell ?t) (insert (dm_acl (cc_daemon S)) (tk_acls ?t)) (cc_daemon S) d"
    "stable (rely (tk_ctx ?t)) P'" "P' d" "rgq (tk_ctx ?t) (tk_cell ?t) (insert (dm_acl (cc_daemon S)) (tk_acls ?t)) P' p (goal_of Q i ?t)"
    by (auto elim!: rg_SecE)
  with run_section(1,3) show ?case
    unfolding section_done_def by (intro conc_inv_task) (auto simp: task_ok_def)
next
  case (wake_up S i q g h)
  let ?t = "cc_tasks S ! i"
  have m: "request_move (tk_ctx ?t) (tk_cell ?t) {} (cc_daemon S) (take_permit q (cc_daemon S))"
    by (auto simp: request_move_def take_permit_def dedupe_same intro!: exI [of _ "dm_graph (cc_daemon S)"])
  have r: "rely (tk_ctx ?t) (cc_daemon S) (take_permit q (cc_daemon S))" by (rule rely_outside) (simp add: take_permit_def)
  from conc_inv_at [OF wake_up(3,1)] obtain P where P: "stable (rely (tk_ctx ?t)) P" "P (cc_daemon S)"
    "rgq (tk_ctx ?t) (tk_cell ?t) (tk_acls ?t) P (Park q g h) (goal_of Q i ?t)" by blast
  moreover from P(3) have "rgq (tk_ctx ?t) (tk_cell ?t) (tk_acls ?t) P (h True) (goal_of Q i ?t)" by (auto elim: rg_ParkE)
  ultimately have "task_ok (Q i) (take_permit q (cc_daemon S)) (?t\<lparr>tk_prog := Some (h True)\<rparr>)"
    using r by (auto simp: task_ok_def stable_def)
  then show ?case
    unfolding put_task_def using wake_up(1,3) by (intro conc_inv_task [OF _ _ m]) auto
next
  case (time_out S i q g h)
  let ?t = "cc_tasks S ! i"
  have m: "request_move (tk_ctx ?t) (tk_cell ?t) {} (cc_daemon S) (cc_daemon S)" by simp
  from conc_inv_at [OF time_out(3,1)] obtain P where P: "stable (rely (tk_ctx ?t)) P" "P (cc_daemon S)"
    "rgq (tk_ctx ?t) (tk_cell ?t) (tk_acls ?t) P (Park q g h) (goal_of Q i ?t)" by blast
  moreover from P(3) have "rgq (tk_ctx ?t) (tk_cell ?t) (tk_acls ?t) P (h False) (goal_of Q i ?t)" by (auto elim: rg_ParkE)
  ultimately have "task_ok (Q i) (cc_daemon S) (?t\<lparr>tk_prog := Some (h False)\<rparr>)"
    by (auto simp: task_ok_def)
  then show ?case
    unfolding put_task_def using time_out(1,3) by (intro conc_inv_task [OF _ _ m]) auto
next
  case (disconnected S i q g h)
  have m: "request_move (tk_ctx (cc_tasks S ! i)) (tk_cell (cc_tasks S ! i)) {} (cc_daemon S) (await_cancelled g (cc_daemon S))"
    by simp
  show ?case
    unfolding put_task_def using disconnected by (intro conc_inv_task [OF _ _ m]) (auto simp: task_ok_def)
next
  case (begin_tick S now jitter adapters)
  then show ?case
    using conc_inv_other [OF begin_tick, of "cc_daemon S" "cc_ticks S @ [prog_tick now jitter adapters]"] rgt_tick
    by (auto simp: conc_inv_def rely_outside)
next
  case (tick_section i S f p d)
  then have "Sec f \<in> set (cc_ticks S)" by (metis nth_mem)
  with tick_section(4) obtain A where "rgt A (\<lambda>_. True) (Sec f)" by (auto simp: conc_inv_def)
  moreover have "bus_sound (cc_daemon S)" using tick_section(4) by (simp add: conc_inv_def)
  ultimately have "\<exists>A. tick_move A (cc_daemon S) d" and p: "\<exists>A. rgt A (\<lambda>_. True) p"
    using rgt_section [of A f "cc_daemon S"] tick_section(3) by auto
  moreover have "\<forall>q \<in> set ((cc_ticks S)[i := p]). \<exists>A. rgt A (\<lambda>_. True) q"
    using tick_section(4) p set_update_subset_insert [of "cc_ticks S" i p] by (auto simp: conc_inv_def)
  ultimately show ?case
    using tick_section(4) by (intro conc_inv_other) (auto intro: tick_rely)
next
  case (reload_acl S a)
  have "conc_inv Q (S\<lparr>cc_daemon := (cc_daemon S)\<lparr>dm_acl := a\<rparr>, cc_ticks := cc_ticks S\<rparr>)"
    using reload_acl by (intro conc_inv_other rely_outside) (auto simp: conc_inv_def)
  then show ?case by simp
next
  case (scheduler S s l cs)
  have "conc_inv Q (S\<lparr>cc_daemon := (cc_daemon S)\<lparr>dm_core := (s, l), dm_cancels := cs\<rparr>, cc_ticks := cc_ticks S\<rparr>)"
    using scheduler by (intro conc_inv_other rely_same_bus) (auto simp: conc_inv_def audit_grows_def)
  then show ?case by simp
qed

interpretation concurrent: invariant_of "conc_inv Q" conc_step "conc_inv Q" for Q
  by unfold_locales (auto intro: conc_step_inv)

end
