(* ===== verification/Races.thy ===== *)
theory Races
  imports Promises
begin

text \<open>
  What holds for concurrent requests in any interleaving of their lock sections, and the races that
  the sections leave open.
\<close>

section \<open>Reachable states\<close>

definition conc_start :: "conc \<Rightarrow> bool" where
  "conc_start S \<longleftrightarrow> cc_tasks S = [] \<and> cc_ticks S = [] \<and> bus_sound (cc_daemon S)"

lemma conc_start_inv: "conc_start S \<Longrightarrow> conc_inv (\<lambda>_. promise) S"
  by (simp add: conc_start_def conc_inv_def)

interpretation started: invariant_of conc_start conc_step "conc_inv (\<lambda>_. promise)"
  by unfold_locales (rule conc_start_inv, assumption, rule conc_step_inv)

abbreviation running :: "conc \<Rightarrow> bool" where
  "running \<equiv> reachable conc_start conc_step"

lemma running_steps: "conc_step\<^sup>*\<^sup>* S T \<Longrightarrow> running S \<Longrightarrow> running T"
  by (induction rule: rtranclp_induct) (auto intro: reachable.reachable_step)

text \<open>A request that has ended, with the promise it made.\<close>

definition ended_with :: "conc \<Rightarrow> nat \<Rightarrow> json res \<Rightarrow> bool" where
  "ended_with S i r \<longleftrightarrow> at_prog S i (Ret r)"

lemma ended_goal:
  assumes "conc_inv Q S" "ended_with S i r"
  shows "goal_of Q i (cc_tasks S ! i) (tk_acls (cc_tasks S ! i)) r (cc_daemon S)"
  using assms(2) unfolding ended_with_def by (rule conc_inv_at [OF assms(1)]) (auto elim: rg_RetE)

lemma ended_promised:
  assumes "running S" "ended_with S i (Inr v)"
  shows "promised (tk_ctx (cc_tasks S ! i)) (tk_cell (cc_tasks S ! i)) (tk_req (cc_tasks S ! i)) v (cc_daemon S)"
  using ended_goal [OF started.inv_reachable [OF assms(1)] assms(2)] by (simp add: promise_def)

section \<open>One request alone\<close>

lemma stay:
  "at_prog S i p \<Longrightarrow> \<exists>A. conc_step\<^sup>*\<^sup>* S
    (S\<lparr>cc_daemon := cc_daemon S, cc_tasks := (cc_tasks S)[i := (cc_tasks S ! i)\<lparr>tk_prog := Some p, tk_acls := A\<rparr>]\<rparr>)"
proof -
  assume "at_prog S i p"
  then have "(cc_tasks S)[i := (cc_tasks S ! i)\<lparr>tk_prog := Some p, tk_acls := tk_acls (cc_tasks S ! i)\<rparr>] = cc_tasks S"
    by (simp add: list_update_same_conv)
  then show ?thesis by (intro exI [of _ "tk_acls (cc_tasks S ! i)"]) simp
qed

text \<open>A request whose sections run in a row.\<close>

lemma run_in_a_row:
  "run_alone p (cc_daemon S) = (Finished r, d') \<Longrightarrow> at_prog S i p \<Longrightarrow>
   \<exists>A. conc_step\<^sup>*\<^sup>* S (S\<lparr>cc_daemon := d', cc_tasks := (cc_tasks S)[i := (cc_tasks S ! i)\<lparr>tk_prog := Some (Ret r), tk_acls := A\<rparr>]\<rparr>)"
proof (induction p arbitrary: S rule: prog_induct)
  case (Ret a)
  then show ?case using stay [where S = S and i = i and p = "Ret a"] by auto
next
  case (Sec f)
  obtain p d where f: "f (cc_daemon S) = (p, d)" by (metis prod.exhaust)
  let ?S = "section_done i p d S"
  have "run_alone p (cc_daemon ?S) = (Finished r, d')" "at_prog ?S i p"
    using Sec.prems f by (simp_all add: section_done_def)
  from Sec.IH [of "cc_daemon S", unfolded f fst_conv, OF this] Sec.prems(2) obtain A where
    "conc_step\<^sup>*\<^sup>* ?S (S\<lparr>cc_daemon := d', cc_tasks := (cc_tasks S)[i := (cc_tasks S ! i)\<lparr>tk_prog := Some (Ret r), tk_acls := A\<rparr>]\<rparr>)"
    by (auto simp: section_done_def)
  moreover have "conc_step S ?S" by (rule run_section [OF Sec.prems(2) f])
  ultimately show ?case by (meson converse_rtranclp_into_rtranclp)
qed simp

text \<open>C17: a request that runs its lock sections with nothing in between does what \<open>dispatch\<close> does, and a
  delivery tick what \<open>tick\<close> does: the sections are the handlers of the sequential model, cut where
  the code releases its locks.  A request that parks is the one that \<open>dispatch\<close> suspends, with its
  waker registered, and its resumption is \<open>await_finish\<close>.\<close>

theorem lock_sections_equivalent:
  "(case run_alone (request_program C (pr_cell_id who) req) d of
      (Finished v, d') \<Rightarrow> dispatch C who req d = (Respond (respond (wq_id req) v), d')
    | (Parked i g h, d') \<Rightarrow> \<exists>a d1. dispatch C who req d = (Suspended (wq_id req) a g, d1) \<and> i = a_ask_id a \<and>
        d' = await_register i d1 \<and>
        (\<forall>woken d2. run_alone (h woken) (if woken then take_permit i d2 else d2) = finished (await_finish woken a g d2))) \<and>
   run_alone (prog_tick now jitter adapters) d = (Finished (), tick now jitter adapters d)"
proof -
  obtain r d' where r: "run_alone (request_program C (pr_cell_id who) req) d = (r, d')" by (metis prod.exhaust)
  show ?thesis
  proof (cases r)
    case (Finished v)
    then show ?thesis using request_program_dispatch [OF r] by (simp add: r run_tick)
  next
    case (Parked i g h)
    with request_program_dispatch [OF r] obtain a d1 where a: "dispatch C who req d = (Suspended (wq_id req) a g, d1)"
      "i = a_ask_id a" "h = prog_resume a g" "d' = await_register i d1" by auto
    with run_resume [of a g] have "\<forall>woken d2. run_alone (h woken) (if woken then take_permit i d2 else d2) =
        finished (await_finish woken a g d2)" by blast
    with a show ?thesis by (simp only: r Parked run_tick prod.case outcome.case) blast
  qed
qed

section \<open>The protocol under interleaving\<close>

text \<open>C2: requests stay within the protocol in every interleaving.  Whatever requests and delivery ticks
  are in progress, with the access control list replaced and scheduler and clients interfering at any
  point between two lock sections, the bus tables and the log stay sound, and the next section of a
  request is a sequence of protocol edits by the cell that made it (or only touches the wait-for graph
  and the wakers), each with a right that one of the lists the request has consulted grants; no section
  forgets or changes a remembered submission.\<close>

theorem interleaved_requests_keep_protocol:
  assumes "running S" "at_prog S i (Sec f)"
  shows "bus_sound (cc_daemon S) \<and>
    (let t = cc_tasks S ! i; d = cc_daemon S; d' = snd (f d) in
     (edits (insert (dm_acl d) (tk_acls t)) (tk_ctx t) (tk_cell t) d d' \<or>
       (\<exists>g w. d' = d\<lparr>dm_graph := g, dm_wakers := w\<rparr>)) \<and> dedupe_kept (dm_store d) (dm_store d') \<and> bus_sound d')"
proof -
  have inv: "conc_inv (\<lambda>_. promise) S" by (rule started.inv_reachable [OF assms(1)])
  then have b: "bus_sound (cc_daemon S)" by (simp add: conc_inv_def)
  have m: "request_move (tk_ctx (cc_tasks S ! i)) (tk_cell (cc_tasks S ! i))
      (insert (dm_acl (cc_daemon S)) (tk_acls (cc_tasks S ! i))) (cc_daemon S) (snd (f (cc_daemon S)))"
    by (rule conc_inv_at [OF inv assms(2)]) (use b in \<open>auto elim!: rg_SecE\<close>)
  from move_harmless [OF m] m b show ?thesis by (auto simp: request_move_def harmless_def Let_def)
qed

section \<open>Submissions under one key\<close>

text \<open>The explicit idempotency key of a submission, with its body.\<close>

definition submission :: "wire_request \<Rightarrow> (string \<times> string) option" where
  "submission req =
    (if wq_method req = ''cell_send'' then
       (case parse_send (wq_params req) of Inr p \<Rightarrow> map_option (\<lambda>k. (k, snd_body p)) (snd_idempotency_key p) | Inl _ \<Rightarrow> None)
     else if wq_method req = ''cell_ask'' then
       (case parse_ask (wq_params req) of Inr p \<Rightarrow> map_option (\<lambda>k. (k, ask_body p)) (ask_idempotency_key p) | Inl _ \<Rightarrow> None)
     else if wq_method req = ''cell_broadcast'' then
       (case parse_broadcast (wq_params req) of Inr p \<Rightarrow> map_option (\<lambda>k. (k, bc_body p)) (bc_idempotency_key p) | Inl _ \<Rightarrow> None)
     else None)"

definition names_message :: "string \<Rightarrow> json \<Rightarrow> bool" where
  "names_message m v \<longleftrightarrow> v = enqueued_json m \<or> (\<exists>a. v = pending_json a m) \<or> (\<exists>rs. v = broadcast_json m rs)"

definition hit_answer :: "wire_request \<Rightarrow> dedupe_row \<Rightarrow> json \<Rightarrow> bool" where
  "hit_answer req hit v \<longleftrightarrow>
     (wq_method req = ''cell_send'' \<longrightarrow> v = enqueued_json (dd_message_id hit)) \<and>
     (wq_method req = ''cell_ask'' \<longrightarrow> v = pending_json (dd_ask_id hit) (dd_message_id hit)) \<and>
     (wq_method req = ''cell_broadcast'' \<longrightarrow> (\<exists>rs. v = broadcast_json (dd_message_id hit) rs))"

lemma submission_promise:
  assumes "promised C sender req v d" "submission req = Some (key, b)"
  shows "remembered C sender key b (\<lambda>hit. hit_answer req hit v) d"
  using assms
  by (auto simp: submission_def promised_def hit_answer_def send_promise_def ask_promise_def broadcast_promise_def
      split: if_splits sum.splits)

text \<open>C16: submissions are idempotent under concurrency.  If two submissions of one cell under the same
  explicit key (sends, asks or broadcasts, started and run in any order and interleaving) have both
  succeeded, their bodies have the same hash, both answers name the same message, which is stored under
  the cell's name and has its durable event, and answers of the same kind are equal (for broadcasts up
  to the recipients listed).\<close>

theorem submissions_agree:
  assumes "running S" "ended_with S i (Inr v)" "ended_with S j (Inr w)"
    "submission (tk_req (cc_tasks S ! i)) = Some (key, b)" "submission (tk_req (cc_tasks S ! j)) = Some (key, b')"
    "tk_cell (cc_tasks S ! i) = sender" "tk_cell (cc_tasks S ! j) = sender"
  shows "body_sha256 (tk_ctx (cc_tasks S ! i)) b = body_sha256 (tk_ctx (cc_tasks S ! j)) b' \<and>
    (\<exists>m. names_message m v \<and> names_message m w \<and> message (cc_daemon S) m (\<lambda>e. e_from_cell e = sender)) \<and>
    (wq_method (tk_req (cc_tasks S ! i)) = wq_method (tk_req (cc_tasks S ! j)) \<longrightarrow>
      wq_method (tk_req (cc_tasks S ! i)) \<noteq> ''cell_broadcast'' \<longrightarrow> v = w)"
proof -
  from submission_promise [OF ended_promised [OF assms(1,2)] assms(4)]
    submission_promise [OF ended_promised [OF assms(1,3)] assms(5)]
  obtain hit where hit: "dedupe_lookup sender key (dm_store (cc_daemon S)) = Some hit"
    "dd_body_sha256 hit = body_sha256 (tk_ctx (cc_tasks S ! i)) b" "dd_body_sha256 hit = body_sha256 (tk_ctx (cc_tasks S ! j)) b'"
    and ans: "hit_answer (tk_req (cc_tasks S ! i)) hit v" "hit_answer (tk_req (cc_tasks S ! j)) hit w"
    using assms(6,7) by (auto simp: remembered_def)
  have m: "wq_method req \<in> {''cell_send'', ''cell_ask'', ''cell_broadcast''}" if "submission req = Some x" for req x
    using that by (auto simp: submission_def split: if_splits)
  have names: "names_message (dd_message_id hit) u" if "hit_answer req hit u" "submission req = Some x" for req u x
    using m [OF that(2)] that(1) by (auto simp: hit_answer_def names_message_def)
  have "dedupe_sound (cc_daemon S) hit" "dd_from_cell hit = sender"
    using hit(1) started.inv_reachable [OF assms(1)]
    by (auto simp: dedupe_lookup_def dedupe_key_def conc_inv_def bus_sound_def dest: find_Some_in)
  with names [OF ans(1) assms(4)] names [OF ans(2) assms(5)] have
    "\<exists>m. names_message m v \<and> names_message m w \<and> message (cc_daemon S) m (\<lambda>e. e_from_cell e = sender)"
    by (auto simp: dedupe_sound_def)
  moreover have "v = w" if "wq_method (tk_req (cc_tasks S ! i)) = wq_method (tk_req (cc_tasks S ! j))"
    "wq_method (tk_req (cc_tasks S ! i)) \<noteq> ''cell_broadcast''"
    using that m [OF assms(4)] ans by (auto simp: hit_answer_def)
  ultimately show ?thesis using hit(2,3) by simp
qed

section \<open>Replies and awaits\<close>

definition reply_task :: "conc \<Rightarrow> nat \<Rightarrow> reply_params \<Rightarrow> json \<Rightarrow> bool" where
  "reply_task S i p v \<longleftrightarrow> ended_with S i (Inr v) \<and> wq_method (tk_req (cc_tasks S ! i)) = ''cell_reply'' \<and>
     parse_reply (wq_params (tk_req (cc_tasks S ! i))) = Inr p"

lemma reply_task_promise:
  assumes "running S" "reply_task S i p v"
  shows "\<exists>a. get_ask (rp_ask_id p) (dm_store (cc_daemon S)) = Some a \<and> a_state a \<noteq> APending \<and>
     a_to_cell a = tk_cell (cc_tasks S ! i) \<and>
     a_reply_body_sha256 a = Some (body_sha256 (tk_ctx (cc_tasks S ! i)) (rp_body p)) \<and>
     (v = reply_json (or_value [] (a_reply_message_id a)) ''duplicate'' \<or>
      (\<exists>e. answered_with a e (cc_daemon S) \<and> recorded_answer (tk_ctx (cc_tasks S ! i)) (tk_cell (cc_tasks S ! i)) p a e \<and>
        v = reply_json (rc_message_id (tk_ctx (cc_tasks S ! i))) ''recorded''))"
  using ended_promised [OF assms(1), of i v] assms(2) by (simp add: reply_task_def promised_def reply_promise_def)

lemma running_distinct:
  assumes "running S" "i < length (cc_tasks S)" "j < length (cc_tasks S)"
    "rc_message_id (tk_ctx (cc_tasks S ! i)) = rc_message_id (tk_ctx (cc_tasks S ! j))"
  shows "i = j"
  using started.inv_reachable [OF assms(1)] assms(2-4)
  by (auto simp: conc_inv_def distinct_conv_nth)

lemma reply_json_eq: "reply_json m st = reply_json m' st' \<longleftrightarrow> m = m' \<and> st = st'"
  by (auto simp: reply_json_def)

text \<open>C14: an ask takes one answer, whatever the interleaving.  Any two replies to the same ask that have
  succeeded come from the cell it was addressed to, agree on the hash of the body, which is the one stored with
  the ask, and on the message named; and only one request can have been told that its answer was recorded.\<close>

theorem one_reply_recorded:
  assumes "running S" "reply_task S i p v" "reply_task S j q w" "rp_ask_id p = rp_ask_id q"
  shows "\<exists>a. get_ask (rp_ask_id p) (dm_store (cc_daemon S)) = Some a \<and> a_state a \<noteq> APending \<and>
    tk_cell (cc_tasks S ! i) = a_to_cell a \<and> tk_cell (cc_tasks S ! j) = a_to_cell a \<and>
    a_reply_body_sha256 a = Some (body_sha256 (tk_ctx (cc_tasks S ! i)) (rp_body p)) \<and>
    a_reply_body_sha256 a = Some (body_sha256 (tk_ctx (cc_tasks S ! j)) (rp_body q)) \<and>
    {v, w} \<subseteq> reply_json (or_value [] (a_reply_message_id a)) ` {''recorded'', ''duplicate''} \<and>
    (v = w \<longrightarrow> i = j \<or> v = reply_json (or_value [] (a_reply_message_id a)) ''duplicate'')"
proof -
  obtain a where a: "get_ask (rp_ask_id p) (dm_store (cc_daemon S)) = Some a"
    using reply_task_promise [OF assms(1,2)] by blast
  have ij: "i < length (cc_tasks S)" "j < length (cc_tasks S)" using assms(2,3) by (simp_all add: reply_task_def ended_with_def)
  have told: "a_state a \<noteq> APending \<and> a_to_cell a = tk_cell (cc_tasks S ! k) \<and>
      a_reply_body_sha256 a = Some (body_sha256 (tk_ctx (cc_tasks S ! k)) (rp_body r)) \<and>
      (u = reply_json (or_value [] (a_reply_message_id a)) ''duplicate'' \<or>
       u = reply_json (or_value [] (a_reply_message_id a)) ''recorded'' \<and>
       or_value [] (a_reply_message_id a) = rc_message_id (tk_ctx (cc_tasks S ! k)))"
    if "reply_task S k r u" "rp_ask_id r = rp_ask_id p" for k r u
    using reply_task_promise [OF assms(1) that(1)] a that(2)
    by (auto simp: answered_with_def recorded_answer_def or_value_def)
  show ?thesis
    using told [OF assms(2) refl] told [OF assms(3) assms(4) [symmetric]] a running_distinct [OF assms(1) ij]
    by (intro exI [of _ a]) (auto simp: reply_json_eq)
qed




section \<open>Schedules\<close>

text \<open>The first sections of a program, in a row.\<close>

fun run_for :: "nat \<Rightarrow> 'a prog \<Rightarrow> daemon \<Rightarrow> 'a prog \<times> daemon" where
  "run_for (Suc n) (Sec f) d = (case f d of (p, d') \<Rightarrow> run_for n p d')"
| "run_for n p d = (p, d)"

lemma run_for_steps:
  "at_prog S i p \<Longrightarrow> run_for n p (cc_daemon S) = (q, d) \<Longrightarrow>
   \<exists>A. conc_step\<^sup>*\<^sup>* S (S\<lparr>cc_daemon := d, cc_tasks := (cc_tasks S)[i := (cc_tasks S ! i)\<lparr>tk_prog := Some q, tk_acls := A\<rparr>]\<rparr>)"
proof (induction n arbitrary: S p)
  case (Suc n)
  show ?case
  proof (cases p)
    case (Sec f)
    obtain p' d' where f: "f (cc_daemon S) = (p', d')" by (metis prod.exhaust)
    let ?S = "section_done i p' d' S"
    have "conc_step S ?S" using Suc.prems(1) Sec f by (auto intro: run_section)
    moreover have "at_prog ?S i p'" "run_for n p' (cc_daemon ?S) = (q, d)"
      using Suc.prems Sec f by (simp_all add: section_done_def)
    from Suc.IH [OF this] Suc.prems(1) obtain A where
      "conc_step\<^sup>*\<^sup>* ?S (S\<lparr>cc_daemon := d, cc_tasks := (cc_tasks S)[i := (cc_tasks S ! i)\<lparr>tk_prog := Some q, tk_acls := A\<rparr>]\<rparr>)"
      by (auto simp: section_done_def)
    ultimately show ?thesis by (meson converse_rtranclp_into_rtranclp)
  qed (use Suc.prems stay in auto)
qed (use stay in auto)

text \<open>A request begun and run to its end before anything else moves.\<close>

abbreviation ran :: "request_ctx \<Rightarrow> string \<Rightarrow> wire_request \<Rightarrow> json res prog \<Rightarrow> acl set \<Rightarrow> task" where
  "ran C c req p A \<equiv> \<lparr>tk_ctx = C, tk_cell = c, tk_req = req, tk_prog = Some p, tk_acls = A\<rparr>"

lemma begun:
  assumes "running S" "fresh_ids C (cc_daemon S)" "new_ids C (cc_tasks S)"
  shows "running (S\<lparr>cc_tasks := cc_tasks S @ [ran C c req (request_program C c req) {}]\<rparr>)"
  using reachable_step [OF assms(1) begin_request [OF assms(2,3)]] .

lemma run_request:
  assumes "running S" "fresh_ids C (cc_daemon S)" "new_ids C (cc_tasks S)"
    "run_alone (request_program C c req) (cc_daemon S) = (Finished r, d')"
  shows "\<exists>A. running (S\<lparr>cc_daemon := d', cc_tasks := cc_tasks S @ [ran C c req (Ret r) A]\<rparr>)"
proof -
  let ?S = "S\<lparr>cc_tasks := cc_tasks S @ [ran C c req (request_program C c req) {}]\<rparr>"
  have "run_alone (request_program C c req) (cc_daemon ?S) = (Finished r, d')" using assms(4) by simp
  from run_in_a_row [OF this, of "length (cc_tasks S)"] obtain A where "conc_step\<^sup>*\<^sup>* ?S
      (S\<lparr>cc_daemon := d', cc_tasks := cc_tasks S @ [ran C c req (Ret r) A]\<rparr>)" by auto
  from running_steps [OF this begun [OF assms(1-3)]] show ?thesis by blast
qed

lemma run_part:
  assumes "running S" "at_prog S i p" "run_for n p (cc_daemon S) = (q, d)"
  shows "\<exists>A. running (S\<lparr>cc_daemon := d, cc_tasks := (cc_tasks S)[i := (cc_tasks S ! i)\<lparr>tk_prog := Some q, tk_acls := A\<rparr>]\<rparr>)"
  using run_for_steps [OF assms(2,3)] running_steps [OF _ assms(1)] by blast

section \<open>An ask with its answer\<close>

definition race_acl :: acl where
  "race_acl = [(''dev'', \<lparr>ca_capabilities = {CSend, CAsk}, ca_protected = False, ca_send_to_protected = {},
       ca_ask_protected = {}, ca_engine = ''codex'', ca_order_preserving = False\<rparr>),
     (''audit'', \<lparr>ca_capabilities = {CReply}, ca_protected = False, ca_send_to_protected = {},
       ca_ask_protected = {}, ca_engine = ''codex'', ca_order_preserving = False\<rparr>)]"

definition race_start :: conc where
  "race_start = \<lparr>cc_daemon = example_daemon\<lparr>dm_acl := race_acl\<rparr>, cc_tasks = [], cc_ticks = []\<rparr>"

definition race_ctx :: "char \<Rightarrow> request_ctx" where
  "race_ctx c = example_ctx\<lparr>rc_message_id := [CHR ''m'', c], rc_ask_id := [CHR ''q'', c], rc_key := [CHR ''k'', c]\<rparr>"

lemma race_ctx_sel [simp]:
  "rc_message_id (race_ctx c) = [CHR ''m'', c]" "rc_ask_id (race_ctx c) = [CHR ''q'', c]" "rc_key (race_ctx c) = [CHR ''k'', c]"
  "rc_now (race_ctx c) = 0" "rc_now_ms (race_ctx c) = 0"
  by (simp_all add: race_ctx_def)

lemma race_starts: "running race_start"
  by (rule reachable_init) (simp add: conc_start_def race_start_def bus_sound_def)

definition ask_request :: wire_request where
  "ask_request = \<lparr>wq_id = 1, wq_method = ''cell_ask'',
     wq_params = JObj [(''to_cell'', JStr ''audit''), (''body'', JStr ''why'')]\<rparr>"

definition reply_request :: wire_request where
  "reply_request = \<lparr>wq_id = 2, wq_method = ''cell_reply'', wq_params = answer_params\<rparr>"

definition await_request :: wire_request where
  "await_request = \<lparr>wq_id = 3, wq_method = ''cell_await'', wq_params = JObj [(''ask_id'', JStr ''q1'')]\<rparr>"

lemma parse_race_ask:
  "parse_ask (wq_params ask_request) = Inr \<lparr>ask_to_cell = ''audit'', ask_body = ''why'', ask_file_refs = [],
     ask_idempotency_key = None, ask_ttl_seconds = None\<rparr>"
  by (simp add: parse_ask_def ask_request_def struct_fields_def field_str_def field_strs_def field_opt_str_def
      field_opt_uint_def)

definition race_ask :: "char \<Rightarrow> ask_row" where
  "race_ask c = \<lparr>a_ask_id = [CHR ''q'', c], a_message_id = [CHR ''m'', c], a_from_cell = ''dev'', a_to_cell = ''audit'',
     a_expires_at = rfc3339_after 0 (clamp_ttl Ask None), a_state = APending, a_reply_message_id = None, a_reply_body_sha256 = None\<rparr>"

lemmas race_eval = or_value_def check_idem_def check_body_def MAX_IDEMPOTENCY_KEY_BYTES_def MAX_BODY_BYTES_def
  check_attach_def acl_check_def is_registered_def check_reach_def is_protected_def
  audit_dm_def audit_to_def audit_emit_def assert_kind_def AUDIT_KINDS_def mk_draft_def set_store_def

definition race_params :: ask_params where
  "race_params = \<lparr>ask_to_cell = ''audit'', ask_body = ''why'', ask_file_refs = [], ask_idempotency_key = None, ask_ttl_seconds = None\<rparr>"

lemma race_params_sel [simp]:
  "ask_to_cell race_params = ''audit''" "ask_body race_params = ''why''" "ask_file_refs race_params = []"
  "ask_idempotency_key race_params = None"
  by (simp_all add: race_params_def)

lemma race_rights: "acl_check race_acl ''audit'' CReply = Inr ()"
  by (simp add: race_acl_def acl_check_def)

text \<open>The store section of the example ask.\<close>

lemma race_persist:
  assumes "dedupe_lookup ''dev'' key (dm_store d) = None" "get_ask [CHR ''q'', c] (dm_store d) = None" "al_faults (dm_log d) = []"
  shows "\<exists>d'. persist_ask (race_ctx c) ''dev'' race_params key d = (Inr (pending_json (Some [CHR ''q'', c]) [CHR ''m'', c]), d') \<and>
     s_asks (dm_store d') = s_asks (dm_store d) @ [race_ask c] \<and>
     set (map e_message_id (s_envelopes (dm_store d'))) \<subseteq> insert [CHR ''m'', c] (set (map e_message_id (s_envelopes (dm_store d)))) \<and>
     (\<forall>k. k \<noteq> key \<longrightarrow> dedupe_lookup ''dev'' k (dm_store d') = dedupe_lookup ''dev'' k (dm_store d)) \<and>
     dm_acl d' = dm_acl d \<and> dm_wakers d' = dm_wakers d \<and> dm_graph d' = dm_graph d \<and> dm_quota d' = dm_quota d \<and>
     al_faults (dm_log d') = []"
proof -
  have n: "filter (\<lambda>r. a_ask_id r \<noteq> [CHR ''q'', c]) (s_asks (dm_store d)) = s_asks (dm_store d)"
    using assms(2) by (auto simp: get_ask_def find_None_iff intro: filter_True)
  have dd: "dedupe_lookup ''dev'' k (dedupe_insert 0 ''dev'' key m x h s) = dedupe_lookup ''dev'' k s" if "k \<noteq> key" for k m x h s
  proof -
    have "(''dev'', k) \<noteq> dedupe_key \<lparr>dd_from_cell = ''dev'', dd_idempotency_key = key, dd_message_id = m,
        dd_ask_id = x, dd_body_sha256 = h, dd_created_at = now_rfc3339 0\<rparr>" using that by (simp add: dedupe_key_def)
    from find_replace_row_other [where key = dedupe_key, OF this, of "s_dedupe s"]
    show ?thesis by (simp add: dedupe_lookup_def dedupe_insert_def)
  qed
  have dn: "dedupe_lookup f k (insert_ask i m s t x st) = dedupe_lookup f k st"
    "dedupe_lookup f k (snd (next_seq s t st)) = dedupe_lookup f k st" for f k i m s t x st
    by (simp_all add: dedupe_lookup_def insert_ask_def next_seq_frame)
  obtain seq s1 where sq: "next_seq ''dev'' ''audit'' (dm_store d) = (seq, s1)" by (metis prod.exhaust)
  then have s1: "s_asks s1 = s_asks (dm_store d)" "s_envelopes s1 = s_envelopes (dm_store d)" "dedupe_lookup f k s1 = dedupe_lookup f k (dm_store d)" for f k
    using next_seq_frame [of "''dev''" "''audit''" "dm_store d"] by (simp_all add: dedupe_lookup_def)
  show ?thesis
    using assms
    by (simp add: persist_ask_def race_params_def Let_def sq race_eval dd dn s1)
      (auto simp: dedupe_insert_def insert_ask_def insert_delivery_def insert_envelope_def s1 replace_row_def n race_ask_def)
qed

lemma race_asked:
  "\<exists>d. handle_ask (race_ctx CHR ''1'') ''dev'' (wq_params ask_request) (cc_daemon race_start) =
      (Inr (pending_json (Some ''q1'') ''m1''), d) \<and>
     s_asks (dm_store d) = [race_ask CHR ''1''] \<and> set (map e_message_id (s_envelopes (dm_store d))) \<subseteq> {''m1''} \<and>
     dm_acl d = race_acl \<and> dm_wakers d = [] \<and> dm_graph d = \<lparr>wg_edges = []\<rparr> \<and> al_faults (dm_log d) = []"
proof -
  let ?d = "cc_daemon race_start"
  obtain q where q: "admit_outbound 0 ''dev'' ''audit'' CAsk (Suc 0) ?d = (Inr (), ?d\<lparr>dm_quota := q\<rparr>)"
    "qt_config q = default_quota_config"
    by (auto simp: admit_outbound_def check_queue_depth_def pending_deliveries_count_def admit_rate_def race_start_def
      note_and_check_sender_def note_and_check_capability_def capability_ceiling_def or_default_def
      quota_new_def default_quota_config_def Let_def)
  have r: "reject_client_identity_keys [] (wq_params ask_request) = Inr ()"
    by (simp add: reject_client_identity_keys_def ask_request_def FORBIDDEN_def)
  have a: "authorize_outbound ''dev'' ''audit'' CAsk ViaAsk ?d = (Inr (), ?d)"
    by (simp add: authorize_outbound_def race_start_def race_acl_def race_eval)
  have c: "check_pending_ask_cap q (pending_asks_count ''dev'' (dm_store (?d\<lparr>dm_quota := q\<rparr>))) = Inr ()"
    by (simp add: check_pending_ask_cap_def q(2) default_quota_config_def pending_asks_count_def race_start_def)
  have p: "parse_ask (wq_params ask_request) = Inr race_params" by (simp add: parse_race_ask race_params_def)
  have "dedupe_lookup ''dev'' ''k1'' (dm_store (?d\<lparr>dm_quota := q\<rparr>)) = None" "get_ask ''q1'' (dm_store (?d\<lparr>dm_quota := q\<rparr>)) = None"
    "al_faults (dm_log (?d\<lparr>dm_quota := q\<rparr>)) = []"
    by (simp_all add: race_start_def dedupe_lookup_def get_ask_def)
  from race_persist [OF this] obtain d' where d':
    "persist_ask (race_ctx CHR ''1'') ''dev'' race_params ''k1'' (?d\<lparr>dm_quota := q\<rparr>) = (Inr (pending_json (Some ''q1'') ''m1''), d')"
    "s_asks (dm_store d') = [race_ask CHR ''1'']" "set (map e_message_id (s_envelopes (dm_store d'))) \<subseteq> {''m1''}"
    "dm_acl d' = race_acl" "dm_wakers d' = []" "dm_graph d' = \<lparr>wg_edges = []\<rparr>" "al_faults (dm_log d') = []"
    by (auto simp: race_start_def example_daemon_def)
  have "handle_ask (race_ctx CHR ''1'') ''dev'' (wq_params ask_request) ?d = (Inr (pending_json (Some ''q1'') ''m1''), d')"
    using a q(1) c d'(1) by (simp add: handle_ask_def p r check_idem_def check_body_def check_attach_def or_value_def
        MAX_IDEMPOTENCY_KEY_BYTES_def MAX_BODY_BYTES_def)
  with d' show ?thesis by blast
qed

definition askers :: "store \<Rightarrow> (string \<times> string) list" where
  "askers s = map (\<lambda>a. (a_ask_id a, a_from_cell a)) (s_asks s)"

lemma race_reply:
  assumes "get_ask ''q1'' (dm_store d) = Some a" "a_to_cell a = ''audit''" "dm_acl d = race_acl" "al_faults (dm_log d) = []"
  shows "\<exists>d'. handle_reply (race_ctx c) ''audit'' answer_params d =
      (if a_state a = APending then Inr (reply_json [CHR ''m'', c] ''recorded'')
       else if a_reply_body_sha256 a = Some (body_sha256 (race_ctx c) ''yes'')
       then Inr (reply_json (or_value [] (a_reply_message_id a)) ''duplicate'') else Inl ReplyExists, d') \<and>
     dm_acl d' = race_acl \<and> al_faults (dm_log d') = [] \<and> dm_graph d' = dm_graph d \<and>
     (dm_wakers d = [] \<longrightarrow> dm_wakers d' = []) \<and>
     set (map e_message_id (s_envelopes (dm_store d'))) \<subseteq> insert [CHR ''m'', c] (set (map e_message_id (s_envelopes (dm_store d)))) \<and>
     askers (dm_store d') = askers (dm_store d)"
proof -
  have r: "reject_client_identity_keys [''ask_id''] answer_params = Inr ()"
    by (simp add: reject_client_identity_keys_def answer_params_def FORBIDDEN_def)
  obtain seq s1 where sq: "next_seq ''audit'' (a_from_cell a) (dm_store d) = (seq, s1)" by (metis prod.exhaust)
  then have s1: "s_asks s1 = s_asks (dm_store d)" "s_envelopes s1 = s_envelopes (dm_store d)"
    using next_seq_frame [of "''audit''" "a_from_cell a" "dm_store d"] by simp_all
  then have g: "get_ask ''q1'' s1 = Some a" using assms(1) by (simp add: get_ask_def)
  have i: "askers (commit_reply h k e s) = askers s" for h k e s
    by (simp add: askers_def commit_reply_def map_update_rows_inv)
  have o1: "askers (insert_delivery m r s) = askers s" "askers (insert_envelope e s) = askers s" "askers s1 = askers (dm_store d)"
    for m r e s by (simp_all add: askers_def s1 insert_delivery_def insert_envelope_def)
  have v: "s_envelopes (commit_reply h k e s) = s_envelopes s" for h k e s by (simp add: commit_reply_def)
  show ?thesis
    using assms
    apply (simp add: handle_reply_def parse_answer r persist_reply_def store_reply_def sq reply_precheck_def g Let_def race_rights
        check_idem_def check_body_def check_attach_def or_value_def MAX_IDEMPOTENCY_KEY_BYTES_def MAX_BODY_BYTES_def)
    apply (simp add: audit_dm_def audit_to_def audit_emit_def assert_kind_def AUDIT_KINDS_def mk_draft_def set_store_def
        reply_json_def notify_def i o1 v)
    by (auto simp: insert_envelope_def insert_delivery_def s1 replace_row_def v)
qed

text \<open>The state after the ask has been asked and answered.\<close>

lemma asked_running:
  "\<exists>S. running S \<and> length (cc_tasks S) = 1 \<and> tk_ctx (cc_tasks S ! 0) = race_ctx CHR ''1'' \<and>
     s_asks (dm_store (cc_daemon S)) = [race_ask CHR ''1''] \<and>
     set (map e_message_id (s_envelopes (dm_store (cc_daemon S)))) \<subseteq> {''m1''} \<and>
     dm_acl (cc_daemon S) = race_acl \<and> dm_wakers (cc_daemon S) = [] \<and> dm_graph (cc_daemon S) = \<lparr>wg_edges = []\<rparr> \<and>
     al_faults (dm_log (cc_daemon S)) = []"
proof -
  from race_asked obtain d where d: "handle_ask (race_ctx CHR ''1'') ''dev'' (wq_params ask_request) (cc_daemon race_start) =
      (Inr (pending_json (Some ''q1'') ''m1''), d)"
    "s_asks (dm_store d) = [race_ask CHR ''1'']" "set (map e_message_id (s_envelopes (dm_store d))) \<subseteq> {''m1''}"
    "dm_acl d = race_acl" "dm_wakers d = []" "dm_graph d = \<lparr>wg_edges = []\<rparr>" "al_faults (dm_log d) = []" by blast
  have "run_alone (request_program (race_ctx CHR ''1'') ''dev'' ask_request) (cc_daemon race_start) =
      (Finished (Inr (pending_json (Some ''q1'') ''m1'')), d)"
    using run_ask [of "race_ctx CHR ''1''" "''dev''" "wq_params ask_request"] d(1)
    by (simp add: request_program_def programs_def ask_request_def)
  from run_request [OF race_starts _ _ this] obtain A where
    "running (race_start\<lparr>cc_daemon := d, cc_tasks := [ran (race_ctx CHR ''1'') ''dev'' ask_request
       (Ret (Inr (pending_json (Some ''q1'') ''m1''))) A]\<rparr>)" (is "running ?S")
    by (auto simp: race_start_def fresh_ids_def get_envelope_def get_ask_def new_ids_def)
  then show ?thesis by (intro exI [of _ ?S]) (use d(2-) in simp)
qed

lemma race_get_ask: "s_asks s = [race_ask CHR ''1''] \<Longrightarrow> get_ask ''q1'' s = Some (race_ask CHR ''1'')"
  by (simp add: get_ask_def race_ask_def)

lemma race_ask_sel [simp]:
  "a_ask_id (race_ask c) = [CHR ''q'', c]" "a_from_cell (race_ask c) = ''dev''" "a_to_cell (race_ask c) = ''audit''"
  "a_state (race_ask c) = APending"
  by (simp_all add: race_ask_def)

lemma race_fresh:
  "set (map e_message_id (s_envelopes s)) \<subseteq> M \<Longrightarrow> m \<notin> M \<Longrightarrow> get_envelope m s = None"
  "askers s = [(i, c)] \<Longrightarrow> k \<noteq> i \<Longrightarrow> get_ask k s = None"
  "askers s = [(i, c)] \<Longrightarrow> get_ask k s = Some b \<Longrightarrow> a_from_cell b = c"
  by (force simp: get_envelope_def get_ask_def askers_def find_None_iff dest: find_Some_in)+

lemma run_reply_request:
  "run_alone (request_program C sender reply_request) d = finished (handle_reply C sender answer_params d)"
  using run_reply [of C sender answer_params d] by (simp add: request_program_def programs_def reply_request_def)

text \<open>The state after the ask, its answer and a repetition of the answer.\<close>

lemma replied_running:
  "\<exists>S a. running S \<and> length (cc_tasks S) = 3 \<and> tk_ctx (cc_tasks S ! 1) = race_ctx CHR ''2'' \<and>
     reply_task S 1 \<lparr>rp_ask_id = ''q1'', rp_body = ''yes'', rp_file_refs = [], rp_idempotency_key = None\<rparr> (reply_json ''m2'' ''recorded'') \<and>
     reply_task S 2 \<lparr>rp_ask_id = ''q1'', rp_body = ''yes'', rp_file_refs = [], rp_idempotency_key = None\<rparr> (reply_json ''m2'' ''duplicate'') \<and>
     get_ask ''q1'' (dm_store (cc_daemon S)) = Some a \<and> a_from_cell a = ''dev'' \<and>
     fresh_ids (race_ctx CHR ''4'') (cc_daemon S) \<and> new_ids (race_ctx CHR ''4'') (cc_tasks S)"
proof -
  obtain S where S: "running S" "length (cc_tasks S) = 1" "tk_ctx (cc_tasks S ! 0) = race_ctx CHR ''1''"
    "s_asks (dm_store (cc_daemon S)) = [race_ask CHR ''1'']" "set (map e_message_id (s_envelopes (dm_store (cc_daemon S)))) \<subseteq> {''m1''}"
    "dm_acl (cc_daemon S) = race_acl" "al_faults (dm_log (cc_daemon S)) = []"
    using asked_running by blast
  then obtain t where t: "cc_tasks S = [t]" "tk_ctx t = race_ctx CHR ''1''" by (auto simp: length_Suc_conv)
  let ?C = "race_ctx CHR ''2''" and ?D = "race_ctx CHR ''3''"
  have g: "get_ask ''q1'' (dm_store (cc_daemon S)) = Some (race_ask CHR ''1'')" by (rule race_get_ask [OF S(4)])
  from race_reply [OF g _ S(6,7), of "CHR ''2''"] obtain d where d:
    "handle_reply ?C ''audit'' answer_params (cc_daemon S) = (Inr (reply_json ''m2'' ''recorded''), d)"
    "dm_acl d = race_acl" "al_faults (dm_log d) = []"
    "set (map e_message_id (s_envelopes (dm_store d))) \<subseteq> insert ''m2'' (set (map e_message_id (s_envelopes (dm_store (cc_daemon S)))))"
    "askers (dm_store d) = askers (dm_store (cc_daemon S))"
    by auto
  have i0: "askers (dm_store (cc_daemon S)) = [(''q1'', ''dev'')]" using S(4) by (simp add: askers_def)
  have "fresh_ids ?C (cc_daemon S)" "new_ids ?C (cc_tasks S)"
    using race_fresh(1) [OF S(5), of "''m2''"] race_fresh(2) [OF i0, of "''q2''"] by (simp_all add: fresh_ids_def new_ids_def t)
  moreover have "run_alone (request_program ?C ''audit'' reply_request) (cc_daemon S) = (Finished (Inr (reply_json ''m2'' ''recorded'')), d)"
    by (simp add: run_reply_request d(1))
  ultimately obtain A where S2: "running (S\<lparr>cc_daemon := d, cc_tasks := [t,
      ran ?C ''audit'' reply_request (Ret (Inr (reply_json ''m2'' ''recorded''))) A]\<rparr>)" (is "running ?S2")
    using run_request [OF S(1), of ?C "''audit''" reply_request] t by fastforce
  have "reply_task ?S2 1 \<lparr>rp_ask_id = ''q1'', rp_body = ''yes'', rp_file_refs = [], rp_idempotency_key = None\<rparr> (reply_json ''m2'' ''recorded'')"
    by (simp add: reply_task_def ended_with_def reply_request_def parse_answer)
  from reply_task_promise [OF S2 this] obtain a where a: "get_ask ''q1'' (dm_store d) = Some a" "a_state a \<noteq> APending"
    "a_to_cell a = ''audit''" "a_reply_body_sha256 a = Some (body_sha256 ?C ''yes'')" "or_value [] (a_reply_message_id a) = ''m2''"
    by (auto simp: reply_json_eq answered_with_def recorded_answer_def or_value_def)
  from race_reply [OF a(1,3) d(2,3), of "CHR ''3''"] a(2,4,5) obtain d3 where d3:
    "handle_reply ?D ''audit'' answer_params d = (Inr (reply_json ''m2'' ''duplicate''), d3)"
    "set (map e_message_id (s_envelopes (dm_store d3))) \<subseteq> insert ''m3'' (set (map e_message_id (s_envelopes (dm_store d))))"
    "askers (dm_store d3) = askers (dm_store d)"
    by (auto simp: body_sha256_def race_ctx_def)
  have m: "set (map e_message_id (s_envelopes (dm_store d))) \<subseteq> {''m1'', ''m2''}"
    "set (map e_message_id (s_envelopes (dm_store d3))) \<subseteq> {''m1'', ''m2'', ''m3''}"
    using S(5) d(4) d3(2) by blast+
  have i: "askers (dm_store d) = [(''q1'', ''dev'')]" "askers (dm_store d3) = [(''q1'', ''dev'')]"
    using d(5) d3(3) i0 by simp_all
  have "fresh_ids ?D (cc_daemon ?S2)" "new_ids ?D (cc_tasks ?S2)"
    using race_fresh(1) [OF m(1), of "''m3''"] race_fresh(2) [OF i(1), of "''q3''"] by (simp_all add: fresh_ids_def new_ids_def t)
  moreover have "run_alone (request_program ?D ''audit'' reply_request) (cc_daemon ?S2) =
      (Finished (Inr (reply_json ''m2'' ''duplicate'')), d3)"
    by (simp add: run_reply_request d3(1))
  ultimately obtain B where S3: "running (S\<lparr>cc_daemon := d3, cc_tasks := [t,
      ran ?C ''audit'' reply_request (Ret (Inr (reply_json ''m2'' ''recorded''))) A,
      ran ?D ''audit'' reply_request (Ret (Inr (reply_json ''m2'' ''duplicate''))) B]\<rparr>)" (is "running ?S3")
    using run_request [OF S2, of ?D "''audit''" reply_request] by fastforce
  have tasks: "reply_task ?S3 1 \<lparr>rp_ask_id = ''q1'', rp_body = ''yes'', rp_file_refs = [], rp_idempotency_key = None\<rparr> (reply_json ''m2'' ''recorded'')"
    "reply_task ?S3 2 \<lparr>rp_ask_id = ''q1'', rp_body = ''yes'', rp_file_refs = [], rp_idempotency_key = None\<rparr> (reply_json ''m2'' ''duplicate'')"
    by (simp_all add: reply_task_def ended_with_def reply_request_def parse_answer)
  from reply_task_promise [OF S3 tasks(1)] obtain b where b: "get_ask ''q1'' (dm_store d3) = Some b" by auto
  from race_fresh(3) [OF i(2) b] have "a_from_cell b = ''dev''" .
  moreover have "fresh_ids (race_ctx CHR ''4'') d3" "new_ids (race_ctx CHR ''4'') (cc_tasks ?S3)"
    using race_fresh(1) [OF m(2), of "''m4''"] race_fresh(2) [OF i(2), of "''q4''"] by (simp_all add: fresh_ids_def new_ids_def t)
  ultimately show ?thesis using S3 tasks b by (intro exI [of _ ?S3] exI [of _ b]) simp
qed

section \<open>Witnesses\<close>

theorem one_reply_recorded_witness:
  "\<exists>S p a. running S \<and> reply_task S 1 p (reply_json ''m2'' ''recorded'') \<and> reply_task S 2 p (reply_json ''m2'' ''duplicate'') \<and>
     get_ask (rp_ask_id p) (dm_store (cc_daemon S)) = Some a \<and> a_to_cell a = tk_cell (cc_tasks S ! 2)"
proof -
  from replied_running obtain S where S: "running S"
    "reply_task S 1 \<lparr>rp_ask_id = ''q1'', rp_body = ''yes'', rp_file_refs = [], rp_idempotency_key = None\<rparr> (reply_json ''m2'' ''recorded'')"
    "reply_task S 2 \<lparr>rp_ask_id = ''q1'', rp_body = ''yes'', rp_file_refs = [], rp_idempotency_key = None\<rparr> (reply_json ''m2'' ''duplicate'')"
    by blast
  from one_reply_recorded [OF S refl] S show ?thesis by metis
qed

lemma parse_race_await:
  "wq_method await_request = ''cell_await''"
  "reject_client_identity_keys [''ask_id''] (wq_params await_request) = Inr ()"
  "parse_await (wq_params await_request) = Inr \<lparr>aw_ask_id = ''q1'', aw_timeout_ms = None\<rparr>"
  by (simp_all add: await_request_def reject_client_identity_keys_def FORBIDDEN_def parse_await_def struct_fields_def field_str_def
      field_opt_uint_def)


theorem interleaved_requests_keep_protocol_witness:
  "\<exists>S f g. running S \<and> at_prog S 0 (Sec f) \<and> at_prog S 1 (Sec g) \<and>
     bus_sound (snd (f (cc_daemon S))) \<and> bus_sound (snd (g (cc_daemon S)))"
proof -
  let ?C = "race_ctx CHR ''1''" and ?D = "race_ctx CHR ''2''"
  obtain f where f: "request_program ?C ''dev'' ask_request = Sec f"
    by (simp add: request_program_def programs_def ask_request_def prog_ask_def)
      (simp add: parse_race_ask [unfolded ask_request_def, simplified] reject_client_identity_keys_def FORBIDDEN_def checked_def seq_ok_def prog_authorize_def peek_def locked_def)
  obtain g where g: "request_program ?D ''audit'' reply_request = Sec g"
    by (simp add: request_program_def programs_def prog_reply_def reply_request_def)
      (simp add: reject_client_identity_keys_def FORBIDDEN_def parse_answer [unfolded answer_params_def] checked_def check_idem_def check_body_def
        or_value_def MAX_IDEMPOTENCY_KEY_BYTES_def MAX_BODY_BYTES_def acl_snapshot_def peek_def locked_def answer_params_def)
  have "running (race_start\<lparr>cc_tasks := cc_tasks race_start @ [ran ?C ''dev'' ask_request (Sec f) {}]\<rparr>)"
    using begun [OF race_starts, of ?C "''dev''" ask_request] f
    by (simp add: race_start_def fresh_ids_def get_envelope_def get_ask_def new_ids_def)
  from begun [OF this, of ?D "''audit''" reply_request] g obtain S where S: "running S" "at_prog S 0 (Sec f)" "at_prog S 1 (Sec g)"
    by (fastforce simp: race_start_def fresh_ids_def get_envelope_def get_ask_def new_ids_def)
  from interleaved_requests_keep_protocol [OF S(1,2)] interleaved_requests_keep_protocol [OF S(1,3)] S show ?thesis
    by (auto simp: Let_def)
qed

theorem submissions_agree_witness:
  "\<exists>S v m. running S \<and> ended_with S 0 (Inr v) \<and> submission (tk_req (cc_tasks S ! 0)) = Some (''k'', ''hi'') \<and>
     names_message m v \<and> message (cc_daemon S) m (\<lambda>e. e_from_cell e = ''dev'')"
proof -
  let ?S = "\<lparr>cc_daemon = example_daemon, cc_tasks = [], cc_ticks = []\<rparr>"
  have st: "running ?S" by (rule reachable_init) (simp add: conc_start_def bus_sound_def)
  obtain d where d: "handle_send example_ctx ''dev'' example_params example_daemon = (Inr (enqueued_json ''m1''), d)"
    using example_send by blast
  have "run_alone (request_program example_ctx ''dev'' example_request) example_daemon = (Finished (Inr (enqueued_json ''m1'')), d)"
    using run_send [of example_ctx "''dev''" example_params example_daemon] d
    by (simp add: request_program_def programs_def example_request_def)
  from run_request [OF st, of example_ctx, simplified] this obtain A where S:
    "running \<lparr>cc_daemon = d, cc_tasks = [ran example_ctx ''dev'' example_request (Ret (Inr (enqueued_json ''m1''))) A], cc_ticks = []\<rparr>"
    (is "running ?T")
    using example_fresh by (fastforce simp: new_ids_def)
  have e: "ended_with ?T 0 (Inr (enqueued_json ''m1''))" by (simp add: ended_with_def)
  have s: "submission (tk_req (cc_tasks ?T ! 0)) = Some (''k'', ''hi'')"
    by (simp add: submission_def example_request_def parse_example)
  from submissions_agree [OF S e e s s refl refl] S e s show ?thesis by fastforce
qed

section \<open>A lost wake-up\<close>

text \<open>What is left of the example await once it has read its ask.\<close>

definition unparked :: "ask_row \<Rightarrow> json res prog" where
  "unparked a = seq_ok (locked (activate_edge ''dev'' a)) (\<lambda>guard.
     seq (effect (await_register (a_ask_id a))) (\<lambda>_. Park (a_ask_id a) guard (prog_resume a guard)))"

lemma race_read:
  assumes "get_ask ''q1'' (dm_store d) = Some (race_ask CHR ''1'')"
  shows "run_for (Suc 0) (request_program C ''dev'' await_request) d = (unparked (race_ask CHR ''1''), d)"
  using assms parse_race_await(2,3)
  by (simp add: request_program_def parse_race_await(1) prog_await_def checked_def peek_def locked_def unparked_def)

lemma race_no_cycle: "closes_cycle [] ''dev'' ''audit'' = None"
  by code_simp

lemma race_park:
  assumes "dm_graph d = \<lparr>wg_edges = []\<rparr>" "dm_wakers d = []"
  shows "\<exists>guard g. run_for (Suc (Suc 0)) (unparked (race_ask CHR ''1'')) d =
    (Park ''q1'' guard (prog_resume (race_ask CHR ''1'') guard), d\<lparr>dm_graph := g, dm_wakers := [(''q1'', False)]\<rparr>)"
proof -
  obtain guard g where "activate_edge ''dev'' (race_ask CHR ''1'') d = (Inr guard, d\<lparr>dm_graph := g\<rparr>)"
    using assms(1) by (simp add: activate_edge_def try_activate_await_def race_no_cycle)
  then show ?thesis
    using assms(2)
    by (intro exI [of _ guard] exI [of _ g]) (simp add: unparked_def seq_ok_def locked_def effect_def await_register_def)
qed

lemma parked_too_late:
  "\<exists>S a guard. running S \<and> at_prog S 1 (Park ''q1'' guard (prog_resume (race_ask CHR ''1'') guard)) \<and>
     dm_wakers (cc_daemon S) = [(''q1'', False)] \<and> get_ask ''q1'' (dm_store (cc_daemon S)) = Some a \<and> a_state a = AAnswered"
proof -
  obtain S1 where S1: "running S1" "length (cc_tasks S1) = 1" "tk_ctx (cc_tasks S1 ! 0) = race_ctx CHR ''1''"
    "s_asks (dm_store (cc_daemon S1)) = [race_ask CHR ''1'']" "set (map e_message_id (s_envelopes (dm_store (cc_daemon S1)))) \<subseteq> {''m1''}"
    "dm_acl (cc_daemon S1) = race_acl" "dm_wakers (cc_daemon S1) = []" "dm_graph (cc_daemon S1) = \<lparr>wg_edges = []\<rparr>"
    "al_faults (dm_log (cc_daemon S1)) = []"
    using asked_running by blast
  then obtain t where t: "cc_tasks S1 = [t]" "tk_ctx t = race_ctx CHR ''1''" by (auto simp: length_Suc_conv)
  let ?C = "race_ctx CHR ''3''" and ?D = "race_ctx CHR ''2''"
  have g: "get_ask ''q1'' (dm_store (cc_daemon S1)) = Some (race_ask CHR ''1'')" by (rule race_get_ask [OF S1(4)])
  have i: "askers (dm_store (cc_daemon S1)) = [(''q1'', ''dev'')]" using S1(4) by (simp add: askers_def)
  have f: "fresh_ids ?C (cc_daemon S1)" "new_ids ?C (cc_tasks S1)" "fresh_ids ?D (cc_daemon S1)"
    using race_fresh(1) [OF S1(5)] race_fresh(2) [OF i] by (simp_all add: fresh_ids_def new_ids_def t)
  have "at_prog (S1\<lparr>cc_tasks := cc_tasks S1 @ [ran ?C ''dev'' await_request (request_program ?C ''dev'' await_request) {}]\<rparr>) 1
      (request_program ?C ''dev'' await_request)" by (simp add: t)
  from run_part [OF begun [OF S1(1) f(1,2)] this, of "Suc 0"] race_read [OF g, of ?C] obtain A where
    S2: "running (S1\<lparr>cc_tasks := [t, ran ?C ''dev'' await_request (unparked (race_ask CHR ''1'')) A]\<rparr>)" (is "running ?S2")
    by (auto simp: t)
  from race_reply [OF g _ S1(6,9), of "CHR ''2''"] obtain d where d:
    "handle_reply ?D ''audit'' answer_params (cc_daemon S1) = (Inr (reply_json ''m2'' ''recorded''), d)"
    "dm_wakers d = []" "dm_graph d = \<lparr>wg_edges = []\<rparr>" using S1(7,8) by auto
  have "run_alone (request_program ?D ''audit'' reply_request) (cc_daemon ?S2) = (Finished (Inr (reply_json ''m2'' ''recorded'')), d)"
    by (simp add: run_reply_request d(1))
  moreover have "fresh_ids ?D (cc_daemon ?S2)" "new_ids ?D (cc_tasks ?S2)" using f(3) by (simp_all add: new_ids_def t)
  ultimately obtain B where S3: "running (S1\<lparr>cc_daemon := d, cc_tasks := [t, ran ?C ''dev'' await_request (unparked (race_ask CHR ''1'')) A,
      ran ?D ''audit'' reply_request (Ret (Inr (reply_json ''m2'' ''recorded''))) B]\<rparr>)" (is "running ?S3")
    using run_request [OF S2, of ?D "''audit''" reply_request] by fastforce
  from race_park [OF d(3,2)] obtain guard gr where p: "run_for (Suc (Suc 0)) (unparked (race_ask CHR ''1'')) (cc_daemon ?S3) =
    (Park ''q1'' guard (prog_resume (race_ask CHR ''1'') guard), d\<lparr>dm_graph := gr, dm_wakers := [(''q1'', False)]\<rparr>)" by auto
  let ?d = "d\<lparr>dm_graph := gr, dm_wakers := [(''q1'', False)]\<rparr>"
  from run_part [OF S3 _ p, of 1] obtain B' where S4: "running (S1\<lparr>cc_daemon := ?d, cc_tasks := [t,
      ran ?C ''dev'' await_request (Park ''q1'' guard (prog_resume (race_ask CHR ''1'') guard)) B',
      ran ?D ''audit'' reply_request (Ret (Inr (reply_json ''m2'' ''recorded''))) B]\<rparr>)" (is "running ?S4")
    by auto
  have "reply_task ?S4 2 \<lparr>rp_ask_id = ''q1'', rp_body = ''yes'', rp_file_refs = [], rp_idempotency_key = None\<rparr> (reply_json ''m2'' ''recorded'')"
    by (simp add: reply_task_def ended_with_def reply_request_def parse_answer)
  from reply_task_promise [OF S4 this] obtain a where a: "get_ask ''q1'' (dm_store (cc_daemon ?S4)) = Some a" "a_state a = AAnswered"
    by (auto simp: reply_json_eq answered_with_def)
  then show ?thesis using S4 by (intro exI [of _ ?S4] exI [of _ a] exI [of _ guard]) simp
qed

text \<open>C29: a wake-up can be lost.  There is a schedule in which an await reads its ask as pending, the reply
  is recorded and notifies before the await has registered its waker, and the await then parks without a
  permit: nothing is left to wake it, and when its timeout fires it answers \<open>pending\<close> although the
  answer is stored.\<close>

theorem lost_wakeup:
  "\<exists>S T a guard h. running S \<and> at_prog S 1 (Park ''q1'' guard h) \<and> map_of (dm_wakers (cc_daemon S)) ''q1'' = Some False \<and>
     get_ask ''q1'' (dm_store (cc_daemon S)) = Some a \<and> a_state a = AAnswered \<and>
     conc_step\<^sup>*\<^sup>* S T \<and> ended_with T 1 (Inr still_pending_json) \<and> get_ask ''q1'' (dm_store (cc_daemon T)) = Some a"
proof -
  obtain S a guard where S: "running S" "at_prog S 1 (Park ''q1'' guard (prog_resume (race_ask CHR ''1'') guard))"
    "dm_wakers (cc_daemon S) = [(''q1'', False)]" "get_ask ''q1'' (dm_store (cc_daemon S)) = Some a" "a_state a = AAnswered"
    using parked_too_late by blast
  let ?S5 = "put_task 1 (Some (prog_resume (race_ask CHR ''1'') guard False)) (cc_daemon S) S"
  have s5: "conc_step S ?S5" by (rule time_out [OF S(2)]) (simp add: S(3))
  have "run_alone (prog_resume (race_ask CHR ''1'') guard False) (cc_daemon ?S5) =
      (Finished (Inr still_pending_json), snd (await_finish False (race_ask CHR ''1'') guard (cc_daemon ?S5)))"
    using run_resume [of "race_ask CHR ''1''" guard False "cc_daemon ?S5"] by (simp add: await_finish_def Let_def)
  from run_in_a_row [OF this, of 1] S(2) obtain E where T: "conc_step\<^sup>*\<^sup>* ?S5 (?S5\<lparr>
      cc_daemon := snd (await_finish False (race_ask CHR ''1'') guard (cc_daemon ?S5)),
      cc_tasks := (cc_tasks ?S5)[1 := (cc_tasks ?S5 ! 1)\<lparr>tk_prog := Some (Ret (Inr still_pending_json)), tk_acls := E\<rparr>]\<rparr>)"
    (is "conc_step\<^sup>*\<^sup>* _ ?T") by (auto simp: put_task_def)
  have "conc_step\<^sup>*\<^sup>* S ?T" by (rule converse_rtranclp_into_rtranclp [OF s5 T])
  moreover have "ended_with ?T 1 (Inr still_pending_json)" using S(2) by (simp add: ended_with_def put_task_def)
  moreover have "get_ask ''q1'' (dm_store (cc_daemon ?T)) = Some a" using S(4) by (simp add: await_finish_def Let_def put_task_def)
  ultimately show ?thesis
    using S by (intro exI [of _ S] exI [of _ ?T] exI [of _ a] exI [of _ guard]) auto
qed

section \<open>An overrun of the cap on open asks\<close>

definition reaches :: "'a prog \<Rightarrow> daemon \<Rightarrow> 'a prog \<Rightarrow> daemon \<Rightarrow> bool" where
  "reaches p d q d' \<longleftrightarrow> (\<exists>n. run_for n p d = (q, d'))"

lemma run_for_add: "run_for (n + m) p d = (case run_for n p d of (q, d') \<Rightarrow> run_for m q d')"
proof (induction n arbitrary: p d)
  case (Suc n)
  then show ?case by (cases p; cases m) (auto split: prod.split)
qed simp

lemma reaches_refl: "reaches p d p d"
  unfolding reaches_def by (rule exI [of _ 0]) simp

lemma reaches_trans: "reaches p d q e \<Longrightarrow> reaches q e r f \<Longrightarrow> reaches p d r f"
  unfolding reaches_def by (metis run_for_add prod.case)

lemma reaches_done: "run_alone p d = (Finished r, d') \<Longrightarrow> reaches (seq p k) d (k r) d'"
proof (induction p arbitrary: d rule: prog_induct)
  case (Sec f)
  obtain p e where f: "f d = (p, e)" by (metis prod.exhaust)
  have "run_alone p e = (Finished r, d')" using Sec.prems f by simp
  from Sec.IH [of d, unfolded f fst_conv, OF this] obtain n where "run_for n (seq p k) e = (k r, d')"
    by (auto simp: reaches_def)
  then show ?case unfolding reaches_def by (intro exI [of _ "Suc n"]) (simp add: f)
qed (simp_all add: reaches_refl)

lemma reaches_seq: "run_alone p d = (Finished r, d') \<Longrightarrow> reaches (k r) d' q e \<Longrightarrow> reaches (seq p k) d q e"
  by (blast intro: reaches_trans reaches_done)

lemma reaches_rules:
  "run_alone p1 d = (Finished (Inr a), d') \<Longrightarrow> reaches (k a) d' q e \<Longrightarrow> reaches (seq_ok p1 k) d q e"
  "r = Inr a \<Longrightarrow> reaches (k a) d q e \<Longrightarrow> reaches (checked r k) d q e"
  "f (dm_acl d) = Inr a \<Longrightarrow> reaches (k a) d q e \<Longrightarrow> reaches (acl_snapshot f k) d q e"
  subgoal unfolding seq_ok_def by (erule reaches_seq) simp
  subgoal by (simp add: checked_def)
  subgoal unfolding acl_snapshot_def by (rule reaches_seq [where r = "Inr a" and d' = d]) (simp_all add: checked_def)
  done

text \<open>An ask up to the section that stores it.\<close>

lemma race_admitted:
  assumes "dm_acl d = race_acl" "admit_outbound 0 ''dev'' ''audit'' CAsk 1 d = (Inr (), d\<lparr>dm_quota := q\<rparr>)"
    "check_pending_ask_cap q (pending_asks_count ''dev'' (dm_store d)) = Inr ()"
  shows "reaches (request_program (race_ctx c) ''dev'' ask_request) d
    (locked (persist_ask (race_ctx c) ''dev'' race_params [CHR ''k'', c])) (d\<lparr>dm_quota := q\<rparr>)"
proof -
  have p: "parse_ask (wq_params ask_request) = Inr race_params" by (simp add: parse_race_ask race_params_def)
  have "request_program (race_ctx c) ''dev'' ask_request = prog_ask (race_ctx c) ''dev'' (wq_params ask_request)"
    by (simp add: request_program_def programs_def ask_request_def)
  moreover have "reaches (prog_ask (race_ctx c) ''dev'' (wq_params ask_request)) d
    (locked (persist_ask (race_ctx c) ''dev'' race_params [CHR ''k'', c])) (d\<lparr>dm_quota := q\<rparr>)"
    unfolding prog_ask_def
    apply (rule reaches_rules(2) [where a = "()"])
     apply (simp add: reject_client_identity_keys_def ask_request_def FORBIDDEN_def)
    apply (rule reaches_rules(2) [OF p])
    apply (rule reaches_rules(1) [where a = "()" and d' = d])
     apply (simp add: authorize_outbound_def assms(1)) 
     apply (simp add: race_acl_def race_eval)
    apply (rule reaches_rules(2) [where a = "()"], simp add: check_idem_def or_value_def MAX_IDEMPOTENCY_KEY_BYTES_def)
    apply (rule reaches_rules(2) [where a = "()"], simp add: check_body_def MAX_BODY_BYTES_def)
    apply (rule reaches_rules(3) [where a = "()"], simp add: check_attach_def)
    apply (rule reaches_rules(1) [where a = "()" and d' = "d\<lparr>dm_quota := q\<rparr>"], simp add: assms(2) [simplified])
    apply (rule reaches_seq, simp)
    apply (rule reaches_rules(1) [where a = "()" and d' = "d\<lparr>dm_quota := q\<rparr>"], simp add: check_ask_cap_def assms(3))
    apply (simp add: or_value_def reaches_refl)
    done
  ultimately show ?thesis by simp
qed

lemma running_reaches:
  assumes "running S" "at_prog S i p" "reaches p (cc_daemon S) q d"
  shows "\<exists>A. running (S\<lparr>cc_daemon := d, cc_tasks := (cc_tasks S)[i := (cc_tasks S ! i)\<lparr>tk_prog := Some q, tk_acls := A\<rparr>]\<rparr>)"
  using assms(3) run_part [OF assms(1,2)] by (auto simp: reaches_def)

text \<open>A cap of one open ask.\<close>

definition capped_start :: conc where
  "capped_start = \<lparr>cc_daemon = (example_daemon\<lparr>dm_acl := race_acl\<rparr>)
     \<lparr>dm_quota := quota_new (default_quota_config\<lparr>pending_ask_cap := 1\<rparr>)\<rparr>, cc_tasks = [], cc_ticks = []\<rparr>"

lemma capped_quota:
  "\<exists>q1 q2. admit_outbound 0 ''dev'' ''audit'' CAsk 1 (cc_daemon capped_start) = (Inr (), cc_daemon capped_start\<lparr>dm_quota := q1\<rparr>) \<and>
     admit_outbound 0 ''dev'' ''audit'' CAsk 1 (cc_daemon capped_start\<lparr>dm_quota := q1\<rparr>) = (Inr (), cc_daemon capped_start\<lparr>dm_quota := q2\<rparr>) \<and>
     qt_config q1 = default_quota_config\<lparr>pending_ask_cap := 1\<rparr> \<and> qt_config q2 = default_quota_config\<lparr>pending_ask_cap := 1\<rparr>"
proof -
  let ?q = "\<lambda>ts. \<lparr>qt_config = default_quota_config\<lparr>pending_ask_cap := 1\<rparr>, qt_per_sender = [''dev'' \<mapsto> ts],
      qt_per_capability = [(''dev'', CAsk) \<mapsto> ts]\<rparr>"
  show ?thesis
    by (intro exI [of _ "?q [0]"] exI [of _ "?q [0, 0]"])
      (simp add: admit_outbound_def check_queue_depth_def pending_deliveries_count_def admit_rate_def capped_start_def
        note_and_check_sender_def note_and_check_capability_def capability_ceiling_def or_default_def WINDOW_MS_def
        quota_new_def default_quota_config_def Let_def)
qed

text \<open>Two asks of one cell pass the check of the cap before either is stored, and then both are.\<close>

theorem ask_cap_overrun:
  "\<exists>S. running S \<and> ended_with S 0 (Inr (pending_json (Some ''q1'') ''m1'')) \<and> ended_with S 1 (Inr (pending_json (Some ''q2'') ''m2'')) \<and>
     pending_ask_cap (qt_config (dm_quota (cc_daemon S))) = 1 \<and> pending_asks_count ''dev'' (dm_store (cc_daemon S)) = 2"
proof -
  let ?C = "race_ctx CHR ''1''" and ?D = "race_ctx CHR ''2''" and ?S0 = capped_start
  let ?d = "cc_daemon ?S0"
  let ?run = "\<lambda>d p1 A p2 B. running \<lparr>cc_daemon = d, cc_tasks = [ran ?C ''dev'' ask_request p1 A, ran ?D ''dev'' ask_request p2 B], cc_ticks = []\<rparr>"
  obtain q1 q2 where q: "admit_outbound 0 ''dev'' ''audit'' CAsk 1 ?d = (Inr (), ?d\<lparr>dm_quota := q1\<rparr>)"
    "admit_outbound 0 ''dev'' ''audit'' CAsk 1 (?d\<lparr>dm_quota := q1\<rparr>) = (Inr (), ?d\<lparr>dm_quota := q1\<rparr>\<lparr>dm_quota := q2\<rparr>)"
    "qt_config q1 = default_quota_config\<lparr>pending_ask_cap := 1\<rparr>" "qt_config q2 = default_quota_config\<lparr>pending_ask_cap := 1\<rparr>"
    using capped_quota by auto
  have d: "dm_acl ?d = race_acl" "dm_store ?d = empty_store" "al_faults (dm_log ?d) = []" "cc_tasks ?S0 = []" "cc_ticks ?S0 = []"
    by (simp_all add: capped_start_def)
  have st: "running ?S0" by (rule reachable_init) (simp add: conc_start_def capped_start_def bus_sound_def)
  let ?P = "\<lambda>c. locked (persist_ask (race_ctx c) ''dev'' race_params [CHR ''k'', c])"
  have r: "reaches (request_program ?C ''dev'' ask_request) ?d (?P CHR ''1'') (?d\<lparr>dm_quota := q1\<rparr>)"
    "reaches (request_program ?D ''dev'' ask_request) (?d\<lparr>dm_quota := q1\<rparr>) (?P CHR ''2'') (?d\<lparr>dm_quota := q2\<rparr>)"
    using race_admitted [of ?d q1] race_admitted [of "?d\<lparr>dm_quota := q1\<rparr>" q2] q d
    by (simp_all add: check_pending_ask_cap_def pending_asks_count_def)
  have f: "fresh_ids (race_ctx c) ?d" for c by (simp add: fresh_ids_def d get_envelope_def get_ask_def)
  have s0: "?S0\<lparr>cc_tasks := ts\<rparr> = \<lparr>cc_daemon = ?d, cc_tasks = ts, cc_ticks = []\<rparr>" for ts by (simp add: capped_start_def)
  have "?run ?d (request_program ?C ''dev'' ask_request) {} (request_program ?D ''dev'' ask_request) {}"
    using begun [OF begun [OF st f, of "CHR ''1''" "''dev''" ask_request], of "race_ctx CHR ''2''" "''dev''" ask_request] f
    by (simp add: new_ids_def d(4) s0)
  from running_reaches [OF this, of 0, simplified, OF refl r(1)] obtain A where
    "?run (?d\<lparr>dm_quota := q1\<rparr>) (?P CHR ''1'') A (request_program ?D ''dev'' ask_request) {}" by blast
  from running_reaches [OF this, of 1, simplified, OF refl r(2)] obtain B where
    S2: "?run (?d\<lparr>dm_quota := q2\<rparr>) (?P CHR ''1'') A (?P CHR ''2'') B" by blast
  obtain d1 where d1: "persist_ask ?C ''dev'' race_params ''k1'' (?d\<lparr>dm_quota := q2\<rparr>) = (Inr (pending_json (Some ''q1'') ''m1''), d1)"
    "s_asks (dm_store d1) = [race_ask CHR ''1'']" "dedupe_lookup ''dev'' ''k2'' (dm_store d1) = None" "dm_quota d1 = q2" "al_faults (dm_log d1) = []"
    using race_persist [of "''k1''" "?d\<lparr>dm_quota := q2\<rparr>" "CHR ''1''"] d by (auto simp: dedupe_lookup_def get_ask_def)
  obtain d2 where d2: "persist_ask ?D ''dev'' race_params ''k2'' d1 = (Inr (pending_json (Some ''q2'') ''m2''), d2)"
    "s_asks (dm_store d2) = [race_ask CHR ''1'', race_ask CHR ''2'']" "dm_quota d2 = q2"
    using race_persist [of "''k2''" d1 "CHR ''2''"] d1(2-) by (auto simp: get_ask_def)
  have l: "reaches (locked f) d (Ret (fst (f d))) (snd (f d))" for f :: "daemon \<Rightarrow> json res \<times> daemon" and d
    unfolding reaches_def by (rule exI [of _ "Suc 0"]) (simp add: locked_def case_prod_beta)
  from running_reaches [OF S2, of 0, simplified, OF refl l [of "persist_ask ?C ''dev'' race_params ''k1''", simplified]] obtain A' where
    S3: "?run d1 (Ret (Inr (pending_json (Some ''q1'') ''m1''))) A' (?P CHR ''2'') B" by (auto simp: d1(1))
  from running_reaches [OF this, of 1, simplified, OF refl l [of "persist_ask ?D ''dev'' race_params ''k2''", simplified]] obtain B' where
    S4: "?run d2 (Ret (Inr (pending_json (Some ''q1'') ''m1''))) A' (Ret (Inr (pending_json (Some ''q2'') ''m2''))) B'" (is "running ?S4")
    by (auto simp: d2(1))
  have "pending_asks_count ''dev'' (dm_store d2) = 2" by (simp add: pending_asks_count_def d2(2) count_rows_def)
  with S4 d2(3) q(4) show ?thesis
    by (intro exI [of _ ?S4]) (simp add: ended_with_def)
qed

section \<open>An ask of a running server\<close>

definition asking_parse :: "string \<Rightarrow> wire_request option" where
  "asking_parse bytes = (if bytes = ''H'' then Some example_handshake else if bytes = ''A'' then Some ask_request else None)"

lemma asking_server:
  "\<exists>S. reachable server_init (server_step token_codec asking_parse) S \<and>
     get_ask ''q1'' (dm_store (sv_daemon S)) = Some (race_ask CHR ''1'')"
proof -
  let ?st = "server_step token_codec asking_parse"
  let ?S1 = "example_server\<lparr>sv_issuer := example_issuer\<rparr>"
  let ?S2 = "?S1\<lparr>sv_sessions := [\<lparr>se_who = example_who, se_wait = None\<rparr>]\<rparr>"
  let ?S3 = "?S2\<lparr>sv_daemon := (sv_daemon ?S2)\<lparr>dm_acl := race_acl\<rparr>\<rparr>"
  have r0: "reachable server_init ?st example_server"
    by (rule reachable_init) (simp add: server_init_def example_server_def scheduler_new_def)
  have s1: "?st example_server ?S1"
    using credential [of token_codec asking_parse example_server "Issue ''dev'' 60 0 [1] [7] Written"]
    by (simp add: example_issuer_def example_server_def)
  have "\<exists>r. handshake asking_parse (authenticate token_codec 60 example_issuer) (Some \<lparr>pc_uid = 0, pc_gid = 0, pc_pid = None\<rparr>)
      (Some ''H'') example_daemon = (handshake_result.Accepted r example_who, example_daemon)"
    using example_accepted by (auto simp: handshake_def example_parse_def asking_parse_def)
  then have s2: "?st ?S1 ?S2"
    using connect [of asking_parse token_codec 60 ?S1] by (force simp: example_server_def)
  have s3: "?st ?S2 ?S3" by (rule server_step.reload)
  from r0 s1 s2 s3 have r3: "reachable server_init ?st ?S3" by (blast intro: reachable_step)
  have d3: "sv_daemon ?S3 = cc_daemon race_start" by (simp add: example_server_def race_start_def)
  obtain d where d: "handle_ask (race_ctx CHR ''1'') ''dev'' (wq_params ask_request) (cc_daemon race_start) =
      (Inr (pending_json (Some ''q1'') ''m1''), d)" "s_asks (dm_store d) = [race_ask CHR ''1'']" using race_asked by blast
  have m: "wq_method ask_request = ''cell_ask''" by (simp add: ask_request_def)
  have "\<exists>r. session_frame asking_parse (race_ctx CHR ''1'') example_who (Some ''A'') (cc_daemon race_start) = (Continue r, d)"
    using d(1) by (simp add: session_frame_def asking_parse_def token_revoked_def is_revoked_def race_start_def dispatch_def
        m handlers_def respond_def Let_def)
  then obtain r where f: "session_frame asking_parse (race_ctx CHR ''1'') example_who (Some ''A'') (sv_daemon ?S3) = (Continue r, d)"
    unfolding d3 by blast
  have fresh: "fresh_ids (race_ctx CHR ''1'') (sv_daemon ?S3)"
    unfolding d3 by (simp add: race_start_def fresh_ids_def get_envelope_def get_ask_def)
  have "?st ?S3 (?S3\<lparr>sv_daemon := d\<rparr>)"
    by (rule serve [OF _ _ fresh, of "\<lparr>se_who = example_who, se_wait = None\<rparr>"]) (use f in simp_all)
  from reachable_step [OF r3 this] race_get_ask [OF d(2)] show ?thesis by (intro exI conjI) (assumption, simp)
qed

text \<open>The asks of the delivery loop run on that server; the ask is still there.\<close>

theorem ask_settled_once_witness:
  "\<exists>S T b. reachable server_init (server_step token_codec asking_parse) S \<and>
     get_ask ''q1'' (dm_store (sv_daemon S)) = Some (race_ask CHR ''1'') \<and>
     server_step token_codec asking_parse S T \<and> get_ask ''q1'' (dm_store (sv_daemon T)) = Some b \<and>
     a_from_cell b = ''dev'' \<and> a_to_cell b = ''audit''"
proof -
  from asking_server obtain S where S: "reachable server_init (server_step token_codec asking_parse) S"
    "get_ask ''q1'' (dm_store (sv_daemon S)) = Some (race_ask CHR ''1'')" by blast
  let ?T = "S\<lparr>sv_daemon := tick_asks 100000 (sv_daemon S)\<rparr>"
  have t: "server_step token_codec asking_parse S ?T" by (rule expire_asks)
  from ask_settled_once [OF S(1) r_into_rtranclp [of "server_step token_codec asking_parse", OF t] S(2)]
  obtain b where "get_ask ''q1'' (dm_store (sv_daemon ?T)) = Some b" "a_from_cell b = ''dev''" "a_to_cell b = ''audit''"
    by (auto simp: race_ask_def)
  with S t show ?thesis by (intro exI conjI)
qed

end
