(* ===== verification/TestKit.thy ===== *)
theory TestKit
  imports Serving Client
begin

text \<open>
  The in-process harness (\<open>testkit.rs\<close>): a daemon started on a fixed access control list, with a
  token for every cell of it, and the connection the tests call it through.  The steps of the start
  are those of the daemon's own start; files, clock and random bytes are the host.
\<close>

section \<open>The access control list of the tests\<close>

definition text_lines :: "string list \<Rightarrow> string" where
  "text_lines ls = concat (map (\<lambda>l. l @ [NL]) ls)"

definition TEST_ACL :: string where
  "TEST_ACL = text_lines
    ['''',
     ''[cell.dev-senior]'',
     ''engine = \"claude\"'',
     ''capabilities = [\"send\",\"ask\",\"reply\",\"broadcast\",\"read_inbox\",\"list_cells\",\"read_audit\",\"spawn\"]'',
     ''send_to_protected = [\"coordinator\",\"vault\"]'',
     ''ask_protected = [\"coordinator\"]'',
     ''[cell.codex-audit]'',
     ''engine = \"codex\"'',
     ''capabilities = [\"send\",\"ask\",\"reply\",\"read_inbox\",\"list_cells\",\"attach_files\",\"spawn\"]'',
     ''[cell.coordinator]'',
     ''engine = \"claude\"'',
     ''protected = true'',
     ''capabilities = [\"send\",\"ask\",\"reply\",\"broadcast\",\"read_inbox\",\"list_cells\",\"attach_files\",\"admin_registry\",\"read_audit\"]'',
     ''[cell.vault]'',
     ''engine = \"claude\"'',
     ''protected = true'',
     ''capabilities = [\"send\",\"ask\",\"reply\",\"read_inbox\",\"list_cells\"]'']"

text \<open>The table this text holds, in key order: what the TOML decoder gives for it.\<close>

definition test_acl_table :: "(string \<times> raw_cell) list" where
  "test_acl_table =
    [(''codex-audit'', \<lparr>rc_engine = ''codex'',
        rc_capabilities = [''send'', ''ask'', ''reply'', ''read_inbox'', ''list_cells'', ''attach_files'', ''spawn''],
        rc_protected = False, rc_send_to_protected = [], rc_ask_protected = [], rc_order_preserving = False\<rparr>),
     (''coordinator'', \<lparr>rc_engine = ''claude'',
        rc_capabilities = [''send'', ''ask'', ''reply'', ''broadcast'', ''read_inbox'', ''list_cells'', ''attach_files'',
          ''admin_registry'', ''read_audit''],
        rc_protected = True, rc_send_to_protected = [], rc_ask_protected = [], rc_order_preserving = False\<rparr>),
     (''dev-senior'', \<lparr>rc_engine = ''claude'',
        rc_capabilities = [''send'', ''ask'', ''reply'', ''broadcast'', ''read_inbox'', ''list_cells'', ''read_audit'', ''spawn''],
        rc_protected = False, rc_send_to_protected = [''coordinator'', ''vault''], rc_ask_protected = [''coordinator''],
        rc_order_preserving = False\<rparr>),
     (''vault'', \<lparr>rc_engine = ''claude'',
        rc_capabilities = [''send'', ''ask'', ''reply'', ''read_inbox'', ''list_cells''],
        rc_protected = True, rc_send_to_protected = [], rc_ask_protected = [], rc_order_preserving = False\<rparr>)]"

definition TEST_CELLS :: "string list" where
  "TEST_CELLS = [''dev-senior'', ''codex-audit'', ''coordinator'', ''vault'']"

definition test_acl :: acl where
  "test_acl =
    (case parse_cells test_acl_table of Inl _ \<Rightarrow> [] | Inr a \<Rightarrow> a)"

section \<open>Starting\<close>

record daemon_handle =
  dh_tokens :: "string \<rightharpoonup> string"
  dh_fake :: fake_adapter
  dh_state :: daemon
  dh_adapters :: "string \<rightharpoonup> adapter"
  dh_issuer :: issuer
  dh_serving :: bool
  dh_delivering :: bool
  dh_sched :: "scheduler option"
  dh_runtime_dir :: string
  dh_paths :: "string \<Rightarrow> path_kind"

text \<open>
  The host of a start: the files of the daemon's start, the error of creating the directory and of
  writing the access control list, the clock, and for every cell the random bytes of its credential
  and the fault of writing it.
\<close>

record kit_host =
  kh_host :: host
  kh_create_dir :: "string option"
  kh_write_acl :: "string option"
  kh_now :: nat
  kh_secret :: "string \<Rightarrow> 8 word list"
  kh_ident :: "string \<Rightarrow> 8 word list"
  kh_fault :: "string \<Rightarrow> write_fault"

datatype kit_error = NoDirectory string | NoAclFile string | NoToken bus_error | NoStart boot_error

definition test_config :: "string \<Rightarrow> nat \<Rightarrow> nat \<Rightarrow> nat \<Rightarrow> crewd_config" where
  "test_config dir attempts base cap =
    \<lparr>cf_runtime_dir = dir, cf_acl_path = path_join dir ''acl.toml'', cf_lease_secs = 30, cf_max_attempts = attempts,
     cf_backoff_base_secs = base, cf_backoff_cap_secs = cap, cf_keys_env_path = None, cf_profiles = (\<lambda>_. None)\<rparr>"

text \<open>The loop that issues the credentials: the first failure ends it.\<close>

fun issue_tokens ::
  "codec \<Rightarrow> kit_host \<Rightarrow> string list \<Rightarrow> (string \<rightharpoonup> string) \<Rightarrow> (string \<rightharpoonup> string, issuer) op" where
  "issue_tokens C K [] tokens I = (Inr tokens, I)"
| "issue_tokens C K (cell # cells) tokens I =
    bind_res (issue C (kh_now K) (kh_secret K cell) (kh_ident K cell) (kh_fault K cell) cell 86400 I)
      (\<lambda>c I. issue_tokens C K cells (tokens(cell \<mapsto> ic_token c)) I)"

definition build_and_start_full ::
  "codec \<Rightarrow> kit_host \<Rightarrow> string \<Rightarrow> quota_config \<Rightarrow> nat \<Rightarrow> nat \<Rightarrow> nat \<Rightarrow> bool \<Rightarrow> kit_error + daemon_handle" where
  "build_and_start_full C K dir quota attempts base cap with_scheduler =
    (let H = kh_host K; cfg = test_config dir attempts base cap in
     case kh_create_dir K of Some msg \<Rightarrow> Inl (NoDirectory msg)
     | None \<Rightarrow>
    (case kh_write_acl K of Some msg \<Rightarrow> Inl (NoAclFile msg)
     | None \<Rightarrow>
     and_then (fail_as (NoStart \<circ> NoIssuer) (ho_tokens H (tokens_dir cfg))) (\<lambda>files.
     (case issue_tokens C K TEST_CELLS Map.empty ((file_issuer (tokens_dir cfg))\<lparr>fi_files := files\<rparr>) of
       (Inl e, _) \<Rightarrow> Inl (NoToken e)
     | (Inr tokens, I) \<Rightarrow>
     and_then (fail_as (NoStart \<circ> NoStore) (ho_store H (db_path cfg))) (\<lambda>s.
     and_then (fail_as (NoStart \<circ> NoAudit) (ho_audit H (audit_path cfg))) (\<lambda>l.
     (case boot_recovery (kh_now K) (s, l) of
       (Inl e, _) \<Rightarrow> Inl (NoStart (NoRecovery e))
     | (Inr _, c) \<Rightarrow>
     (case reload_from_file (ho_acl_toml H) (((ho_read H)(cf_acl_path cfg \<mapsto> TEST_ACL)) (cf_acl_path cfg)) [] of
       (Inl e, _) \<Rightarrow> Inl (NoStart (NoAcl e))
     | (Inr _, a) \<Rightarrow>
     (case bootstrap_hardening (ho_paths H) cfg of (b, paths) \<Rightarrow>
       if b \<noteq> Bound then Inl (NoStart (NoSocket b))
       else Inr
         \<lparr>dh_tokens = tokens, dh_fake = fake_adapter_new,
          dh_state = (daemon_state cfg c a)\<lparr>dm_quota := quota_new quota\<rparr>, dh_adapters = (\<lambda>_. None), dh_issuer = I,
          dh_serving = True, dh_delivering = True,
          dh_sched = (if with_scheduler then Some (scheduler_new (ho_env H) c) else None),
          dh_runtime_dir = cf_runtime_dir cfg, dh_paths = paths\<rparr>)))))))))"

text \<open>The entry points; where the code panics on a failed start the error is the message of the panic.\<close>

definition build_and_start_with_quota :: "codec \<Rightarrow> kit_host \<Rightarrow> string \<Rightarrow> quota_config \<Rightarrow> kit_error + daemon_handle" where
  "build_and_start_with_quota C K dir quota = build_and_start_full C K dir quota 10 1 60 False"

definition build_and_start :: "codec \<Rightarrow> kit_host \<Rightarrow> string \<Rightarrow> kit_error + daemon_handle" where
  "build_and_start C K dir = build_and_start_with_quota C K dir default_quota_config"

definition try_spawn_daemon :: "codec \<Rightarrow> kit_host \<Rightarrow> string \<Rightarrow> kit_error + daemon_handle" where
  "try_spawn_daemon C K dir = build_and_start C K dir"

definition spawn_daemon :: "codec \<Rightarrow> kit_host \<Rightarrow> string \<Rightarrow> kit_error + daemon_handle" where
  "spawn_daemon C K dir = build_and_start C K dir"

definition spawn_daemon_with_scheduler :: "codec \<Rightarrow> kit_host \<Rightarrow> string \<Rightarrow> kit_error + daemon_handle" where
  "spawn_daemon_with_scheduler C K dir = build_and_start_full C K dir default_quota_config 10 1 60 True"

definition spawn_daemon_with_quota :: "codec \<Rightarrow> kit_host \<Rightarrow> string \<Rightarrow> quota_config \<Rightarrow> kit_error + daemon_handle" where
  "spawn_daemon_with_quota C K dir quota = build_and_start_with_quota C K dir quota"

definition spawn_daemon_with_delivery ::
  "codec \<Rightarrow> kit_host \<Rightarrow> string \<Rightarrow> nat \<Rightarrow> nat \<Rightarrow> nat \<Rightarrow> kit_error + daemon_handle" where
  "spawn_daemon_with_delivery C K dir attempts base cap =
    build_and_start_full C K dir default_quota_config attempts base cap False"

section \<open>Operations on a running harness\<close>

definition install_adapter :: "string \<Rightarrow> adapter \<Rightarrow> daemon_handle \<Rightarrow> daemon_handle" where
  "install_adapter cell a h = h\<lparr>dh_adapters := (dh_adapters h)(cell \<mapsto> a)\<rparr>"

definition kit_revoke :: "codec \<Rightarrow> write_fault \<Rightarrow> string \<Rightarrow> (unit, daemon_handle) op" where
  "kit_revoke C fault cell h =
    (case current_token_id C cell (dh_issuer h) of
      None \<Rightarrow> (Inl Internal, h)
    | Some tid \<Rightarrow>
       (case revoke C fault cell tid (dh_issuer h) of
         (Inl e, I) \<Rightarrow> (Inl e, h\<lparr>dh_issuer := I\<rparr>)
       | (Inr _, I) \<Rightarrow>
          (case audit_dm (mk_draft ''token_revoked'' None (Some cell) None ''revoked''
                (Some (JObj [(''token_id'', JStr tid)]))) (registry_revoke tid (dh_state h)) of
            (r, d) \<Rightarrow> (r, h\<lparr>dh_issuer := I, dh_state := d\<rparr>))))"

text \<open>The three loops are told to stop and joined, then the socket file is removed, if it can be.\<close>

definition kit_shutdown :: "daemon_handle \<Rightarrow> daemon_handle" where
  "kit_shutdown h =
    h\<lparr>dh_serving := False, dh_delivering := False, dh_sched := None,
      dh_paths := (dh_paths h)(path_join (dh_runtime_dir h) ''crewd.sock'' := NoFile)\<rparr>"

section \<open>The connection of a test\<close>

record cell_conn =
  cn_stream :: socket
  cn_next_id :: nat

fun read_response_bytes :: "string \<Rightarrow> (string + string) list \<Rightarrow> (string + string) \<times> (string + string) list" where
  "read_response_bytes buf [] = (Inr buf, [])"
| "read_response_bytes buf (Inl msg # cs) = (Inl msg, cs)"
| "read_response_bytes buf (Inr c # cs) =
    (if c = [] then (Inr buf, cs)
     else if NL \<in> set c then (Inr (buf @ takeWhile (\<lambda>x. x \<noteq> NL) c), cs)
     else if 192 * 1024 < length (buf @ c) then (Inl ''response too large'', cs)
     else read_response_bytes (buf @ c) cs)"

definition read_response ::
  "client_codec \<Rightarrow> socket \<Rightarrow> (string + json option \<times> client_error option) \<times> socket" where
  "read_response K so =
    (case read_response_bytes [] (so_in so) of
      (Inl msg, cs) \<Rightarrow> (Inl msg, so\<lparr>so_in := cs\<rparr>)
    | (Inr raw, cs) \<Rightarrow> (cc_response K raw, so\<lparr>so_in := cs\<rparr>))"

text \<open>\<open>write_all\<close>, then the response, an error of either as \<open>E_INTERNAL\<close>.\<close>

definition kit_exchange :: "client_codec \<Rightarrow> wire_request \<Rightarrow> socket \<Rightarrow> json option client_res \<times> socket" where
  "kit_exchange K req so =
    (case so_broken so of
      Some msg \<Rightarrow> (Inl (internal_error msg), so)
    | None \<Rightarrow>
       (case read_response K (so\<lparr>so_sent := so_sent so @ [req]\<rparr>) of
         (Inl msg, so) \<Rightarrow> (Inl (internal_error msg), so)
       | (Inr (_, Some e), so) \<Rightarrow> (Inl e, so)
       | (Inr (v, None), so) \<Rightarrow> (Inr v, so)))"

definition cell_call :: "client_codec \<Rightarrow> string \<Rightarrow> json \<Rightarrow> cell_conn \<Rightarrow> json client_res \<times> cell_conn" where
  "cell_call K method params c =
    (case kit_exchange K \<lparr>wq_id = cn_next_id c, wq_method = method, wq_params = params\<rparr> (cn_stream c) of
      (r, so) \<Rightarrow>
        (case r of Inl e \<Rightarrow> Inl e | Inr v \<Rightarrow> Inr (or_value JNull v), \<lparr>cn_stream = so, cn_next_id = cn_next_id c + 1\<rparr>))"

definition connect_as ::
  "client_codec \<Rightarrow> (string \<Rightarrow> string + socket) \<Rightarrow> string \<Rightarrow> string \<Rightarrow> string \<Rightarrow> cell_conn client_res" where
  "connect_as K dial runtime_dir cell token =
    (case dial (path_join runtime_dir ''crewd.sock'') of
      Inl msg \<Rightarrow> Inl (internal_error msg)
    | Inr so \<Rightarrow>
       (case kit_exchange K
          \<lparr>wq_id = 1, wq_method = ''handshake'',
           wq_params = JObj [(''cell_id'', JStr cell), (''token'', JStr token), (''spec_version'', JStr SPEC_VERSION)]\<rparr> so of
         (Inl e, _) \<Rightarrow> Inl e
       | (Inr _, so) \<Rightarrow> Inr \<lparr>cn_stream = so, cn_next_id = 2\<rparr>))"

section \<open>What the matrix grants\<close>

lemma test_acl_table_parses: "parse_cells test_acl_table = Inr test_acl"
  by (simp add: test_acl_def test_acl_table_def capability_parse_def)

lemma test_acl_from_text:
  assumes "toml TEST_ACL = Some test_acl_table"
  shows "acl_parse toml TEST_ACL = Inr test_acl"
  using assms by (simp add: acl_parse_def test_acl_def test_acl_table_def capability_parse_def)

text \<open>Cells of the matrix, and who reaches the protected ones, by a send and by an ask.\<close>

lemma test_acl_names: "map fst test_acl = [''codex-audit'', ''coordinator'', ''dev-senior'', ''vault'']"
  by (simp add: test_acl_def test_acl_table_def capability_parse_def)

lemma test_acl_reach:
  "filter (\<lambda>(s, t). check_reach test_acl s t ViaSend = Inr ()) (List.product TEST_CELLS [''coordinator'', ''vault'']) =
     [(''dev-senior'', ''coordinator''), (''dev-senior'', ''vault'')]"
  "filter (\<lambda>(s, t). check_reach test_acl s t ViaAsk = Inr ()) (List.product TEST_CELLS [''coordinator'', ''vault'']) =
     [(''dev-senior'', ''coordinator'')]"
  by (simp_all add: test_acl_def test_acl_table_def capability_parse_def TEST_CELLS_def check_reach_def is_protected_def)

lemma test_acl_broadcast:
  "filter (\<lambda>c. acl_check test_acl c CBroadcast = Inr ()) TEST_CELLS = [''dev-senior'', ''coordinator'']"
  by (simp add: test_acl_def test_acl_table_def capability_parse_def TEST_CELLS_def acl_check_def)

lemma test_cells_valid: "list_all (\<lambda>c. validate_cell_name c = Inr ()) TEST_CELLS" "distinct TEST_CELLS"
  by (simp_all add: TEST_CELLS_def validate_cell_name_def is_ascii_lowercase_def is_ascii_digit_def)

section \<open>The credentials of a start\<close>

definition kit_record :: "codec \<Rightarrow> kit_host \<Rightarrow> string \<Rightarrow> token_record" where
  "kit_record C K cell = issue_record C (kh_now K) (kh_secret K cell) (kh_ident K cell) 86400"

lemma issue_Inr:
  assumes "issue C now secret ident fault cell ttl I = (Inr c, J)"
  shows "fault = Written" "ic_token c = hex_encode secret"
    "J = snd (write_record C Written cell (issue_record C now secret ident ttl) I)"
  using assms by (cases fault; auto simp: issue_def write_record_def Let_def)+

text \<open>Every cell of the loop has its record on disk and its token in the table.\<close>

lemma issue_tokens_Inr:
  assumes "issue_tokens C K cells tokens I = (Inr m, J)"
    "list_all (\<lambda>c. validate_cell_name c = Inr ()) cells" "distinct cells"
    "list_all (\<lambda>c. text_ok C (kit_record C K c)) cells" "validate_cell_name b = Inr ()"
  shows "read_record C b J = (if b \<in> set cells then Some (kit_record C K b) else read_record C b I) \<and>
    m b = (if b \<in> set cells then Some (hex_encode (kh_secret K b)) else tokens b) \<and>
    fi_revoked J = fi_revoked I \<and> (\<forall>c \<in> set cells. kh_fault K c = Written)"
  using assms(1-4)
proof (induction cells arbitrary: tokens I)
  case (Cons a cells)
  obtain r I' where i: "issue C (kh_now K) (kh_secret K a) (kh_ident K a) (kh_fault K a) a 86400 I = (r, I')"
    by (metis prod.exhaust)
  with Cons.prems(1) obtain c where r: "r = Inr c" and rest: "issue_tokens C K cells (tokens(a \<mapsto> ic_token c)) I' = (Inr m, J)"
    by (cases r) auto
  note w = issue_Inr [OF i [unfolded r]]
  have a: "validate_cell_name a = Inr ()" "text_ok C (kit_record C K a)" "a \<notin> set cells" using Cons.prems by simp_all
  have "read_record C b I' = (if b = a then Some (kit_record C K a) else read_record C b I)"
    using read_write_record [OF a(1) assms(5) a(2), of Written I] w(3) by (simp add: kit_record_def)
  moreover have "fi_revoked I' = fi_revoked I" using w(3) by (simp add: write_record_def Let_def)
  ultimately show ?case using Cons.IH [OF rest] Cons.prems a(3) w(1,2) by auto
qed simp

section \<open>What a start gives\<close>

text \<open>The parts of a handle, and the steps that gave them.\<close>

lemma build_Inr:
  assumes "build_and_start_full C K dir quota attempts base cap sched = Inr h"
  obtains cfg files s l ids where "cfg = test_config dir attempts base cap"
    "issue_tokens C K TEST_CELLS Map.empty ((file_issuer (tokens_dir cfg))\<lparr>fi_files := files\<rparr>) = (Inr (dh_tokens h), dh_issuer h)"
    "ho_tokens (kh_host K) (tokens_dir cfg) = Inr files" "ho_store (kh_host K) (db_path cfg) = Inr s"
    "ho_audit (kh_host K) (audit_path cfg) = Inr l" "boot_recovery (kh_now K) (s, l) = (Inr ids, dm_core (dh_state h))"
    "dh_state h = (daemon_state cfg (dm_core (dh_state h)) (dm_acl (dh_state h)))\<lparr>dm_quota := quota_new quota\<rparr>"
    "acl_parse (ho_acl_toml (kh_host K)) TEST_ACL = Inr (dm_acl (dh_state h))"
    "fst (bootstrap_hardening (ho_paths (kh_host K)) cfg) = Bound"
    "dh_sched h = (if sched then Some (scheduler_new (ho_env (kh_host K)) (dm_core (dh_state h))) else None)"
  using assms
  by (auto simp: build_and_start_full_def and_then_Inr fail_as_def daemon_state_def Let_def reload_from_file_def
      split: sum.splits prod.splits if_splits option.splits)

text \<open>The token of a cell of the matrix opens its sessions until it expires.\<close>

theorem kit_tokens_authenticate:
  assumes "build_and_start_full C K dir quota attempts base cap sched = Inr h" "cell \<in> set TEST_CELLS"
    "list_all (\<lambda>c. text_ok C (kit_record C K c)) TEST_CELLS"
    "now_rfc3339 now \<le> rfc3339_after (kh_now K) 86400"
  shows "dh_tokens h cell = Some (hex_encode (kh_secret K cell)) \<and>
    authenticate C now (dh_issuer h) peer
      \<lparr>cp_cell_id = cell, cp_token = hex_encode (kh_secret K cell), cp_spec_version = SPEC_VERSION\<rparr> =
    Inr \<lparr>pr_cell_id = cell, pr_auth_level = L0Token, pr_unix_uid = Some (pc_uid peer), pr_unix_gid = Some (pc_gid peer),
         pr_pid = pc_pid peer, pr_pidfd_supported = False, pr_token_id = Some (hex_encode (kh_ident K cell))\<rparr>"
proof -
  obtain dir' files where i: "issue_tokens C K TEST_CELLS Map.empty ((file_issuer dir')\<lparr>fi_files := files\<rparr>) =
      (Inr (dh_tokens h), dh_issuer h)" using assms(1) by (rule build_Inr)
  have v: "validate_cell_name cell = Inr ()" using test_cells_valid(1) assms(2) by (simp add: list_all_iff)
  have "read_record C cell (dh_issuer h) = Some (kit_record C K cell)" "fi_revoked (dh_issuer h) = {}"
    "dh_tokens h cell = Some (hex_encode (kh_secret K cell))"
    using issue_tokens_Inr [OF i test_cells_valid assms(3) v] assms(2) by (simp_all add: file_issuer_def)
  then show ?thesis using assms(4)
    by (simp add: authenticate_def verify_def kit_record_def issue_record_def and_then_def leD)
qed

text \<open>A start on an empty store is an initial state of the daemon with its connections.\<close>

definition kit_server :: "daemon_handle \<Rightarrow> server" where
  "kit_server h = \<lparr>sv_daemon = dh_state h, sv_issuer = dh_issuer h, sv_sessions = [],
    sv_sched = or_value (scheduler_new (\<lambda>_. None) (dm_core (dh_state h))) (dh_sched h)\<rparr>"

lemma recovery_of_empty: "boot_recovery now (empty_store, l) = (Inr [], (empty_store, l))"
  by (simp add: boot_recovery_def Let_def threads_in_states_def empty_store_def)

theorem kit_start_init:
  assumes "build_and_start_full C K dir quota attempts base cap sched = Inr h"
    "\<And>p. ho_store (kh_host K) p = Inr empty_store"
  shows "server_init (kit_server h)"
proof -
  obtain cfg s l ids where "ho_store (kh_host K) (db_path cfg) = Inr s"
    "boot_recovery (kh_now K) (s, l) = (Inr ids, dm_core (dh_state h))"
    and d: "dh_state h = (daemon_state cfg (dm_core (dh_state h)) (dm_acl (dh_state h)))\<lparr>dm_quota := quota_new quota\<rparr>"
    and T: "dh_sched h = (if sched then Some (scheduler_new (ho_env (kh_host K)) (dm_core (dh_state h))) else None)"
    using assms(1) by (rule build_Inr)
  then have c: "dm_store (dh_state h) = empty_store" using assms(2) by (simp add: recovery_of_empty prod_eq_iff)
  have "dm_graph (dh_state h) = \<lparr>wg_edges = []\<rparr>" by (subst d) (simp add: daemon_state_def)
  then show ?thesis
    by (simp add: server_init_def kit_server_def c T or_value_def scheduler_new_def)
qed

text \<open>When nothing of the host fails there is a handle.\<close>

lemma issue_tokens_starts:
  "\<forall>c. kh_fault K c = Written \<Longrightarrow> \<exists>m J. issue_tokens C K cells tokens I = (Inr m, J)"
  by (induction cells arbitrary: tokens I) (simp_all add: issue_def write_record_def Let_def)

theorem kit_starts:
  fixes dir attempts base cap
  defines "cfg \<equiv> test_config dir attempts base cap"
  assumes "kh_create_dir K = None" "kh_write_acl K = None" "\<forall>c. kh_fault K c = Written"
    "ho_tokens (kh_host K) (tokens_dir cfg) = Inr files" "ho_store (kh_host K) (db_path cfg) = Inr s"
    "ho_audit (kh_host K) (audit_path cfg) = Inr l" "boot_recovery (kh_now K) (s, l) = (Inr ids, c)"
    "acl_parse (ho_acl_toml (kh_host K)) TEST_ACL = Inr a" "fst (bootstrap_hardening (ho_paths (kh_host K)) cfg) = Bound"
  shows "\<exists>h. build_and_start_full C K dir quota attempts base cap sched = Inr h"
proof -
  let ?I = "(file_issuer (tokens_dir cfg))\<lparr>fi_files := files\<rparr>"
  obtain m J where i: "issue_tokens C K TEST_CELLS Map.empty ?I = (Inr m, J)"
    using issue_tokens_starts [OF assms(4)] by blast
  obtain paths where b: "bootstrap_hardening (ho_paths (kh_host K)) cfg = (Bound, paths)"
    using assms(10) by (cases "bootstrap_hardening (ho_paths (kh_host K)) cfg") simp
  show ?thesis
    unfolding build_and_start_full_def Let_def assms(2,3) cfg_def [symmetric] assms(5,6,7) fail_as_def
    by (simp add: and_then_def i assms(8,9) b reload_from_file_def)
qed

text \<open>Its access control list is the matrix.\<close>

lemma kit_acl:
  assumes "build_and_start_full C K dir quota attempts base cap sched = Inr h"
    "ho_acl_toml (kh_host K) TEST_ACL = Some test_acl_table"
  shows "dm_acl (dh_state h) = test_acl"
proof -
  have "acl_parse (ho_acl_toml (kh_host K)) TEST_ACL = Inr (dm_acl (dh_state h))"
    using assms(1) by (rule build_Inr)
  moreover have "acl_parse (ho_acl_toml (kh_host K)) TEST_ACL = Inr test_acl"
    by (rule test_acl_from_text) (rule assms(2))
  ultimately show ?thesis by simp
qed

section \<open>Revocation\<close>

text \<open>A revocation that succeeded refuses every later handshake of the cell and closes its live
  sessions at their next request.\<close>

theorem kit_revoke_closes:
  assumes "kit_revoke C fault cell h = (Inr (), h')" "current_token_id C cell (dh_issuer h) = Some tid"
    "validate_cell_name cell = Inr ()"
    "\<And>r. read_record C cell (dh_issuer h) = Some r \<Longrightarrow> text_ok C (r\<lparr>tk_revoked := True\<rparr>)"
  shows "verify C now cell token (dh_issuer h') = Inl AuthRejected"
    "pr_token_id who = Some tid \<Longrightarrow> parse bytes = Some req \<Longrightarrow> bytes \<noteq> [] \<Longrightarrow>
      fst (session_frame parse X who (Some bytes) (dh_state h')) = Closed (Some (wire_err (wq_id req) AuthRejected))"
proof -
  obtain r where r: "read_record C cell (dh_issuer h) = Some r" "tk_token_id r = tid"
    using assms(2) by (auto simp: current_token_id_def)
  obtain q I where q: "revoke C fault cell tid (dh_issuer h) = (q, I)" by (metis prod.exhaust)
  let ?dr = "mk_draft ''token_revoked'' None (Some cell) None ''revoked'' (Some (JObj [(''token_id'', JStr tid)]))"
  obtain a d where a: "audit_dm ?dr (registry_revoke tid (dh_state h)) = (a, d)" by (metis prod.exhaust)
  have h: "q = Inr ()" "a = Inr ()" "h' = h\<lparr>dh_issuer := I, dh_state := d\<rparr>"
    using assms(1) unfolding kit_revoke_def assms(2) by (auto simp: q a split: sum.splits)
  have f: "fault = Written" "I = (snd (write_record C Written cell (r\<lparr>tk_revoked := True\<rparr>) (dh_issuer h)))
      \<lparr>fi_revoked := insert tid (fi_revoked (dh_issuer h))\<rparr>"
    using q unfolding h(1) revoke_def r(1) by (cases fault; auto simp: write_record_def Let_def)+
  have "read_record C cell I = Some (r\<lparr>tk_revoked := True\<rparr>)"
    using read_write_record [OF assms(3,3) assms(4) [OF r(1)], of Written "dh_issuer h"] by (simp add: f(2))
  then show "verify C now cell token (dh_issuer h') = Inl AuthRejected" by (simp add: verify_def h(3))
  have "dm_revoked d = insert tid (dm_revoked (dh_state h))"
    using audit_dm_frame [OF a] by (simp add: registry_revoke_def)
  then show "fst (session_frame parse X who (Some bytes) (dh_state h')) = Closed (Some (wire_err (wq_id req) AuthRejected))"
    if "pr_token_id who = Some tid" "parse bytes = Some req" "bytes \<noteq> []"
    using that by (simp add: session_frame_def token_revoked_def is_revoked_def h(3))
qed

section \<open>The connection\<close>

text \<open>The reader of the tests and the reader of the command line client leave the same socket, and
  agree on every response; only the message about an oversized one differs.\<close>

lemma read_response_bytes_agrees:
  "snd (read_response_bytes buf cs) = snd (client_read_line buf cs) \<and>
   (fst (read_response_bytes buf cs) = Inr raw \<longleftrightarrow> fst (client_read_line buf cs) = Inr raw)"
  by (induction buf cs rule: read_response_bytes.induct) (auto simp: MAX_FRAME_def)

lemma read_response_agrees:
  "fst (read_response_bytes buf cs) = Inr raw \<Longrightarrow> client_read_line buf cs = (Inr raw, snd (read_response_bytes buf cs))"
  "fst (read_response_bytes buf cs) = Inl msg \<Longrightarrow> \<exists>e. client_read_line buf cs = (Inl e, snd (read_response_bytes buf cs))"
proof -
  show "client_read_line buf cs = (Inr raw, snd (read_response_bytes buf cs))"
    if "fst (read_response_bytes buf cs) = Inr raw"
    using read_response_bytes_agrees [of buf cs raw] that by (simp add: prod_eq_iff)
  show "\<exists>e. client_read_line buf cs = (Inl e, snd (read_response_bytes buf cs))"
    if "fst (read_response_bytes buf cs) = Inl msg"
    using read_response_bytes_agrees [of buf cs] that by (cases "fst (client_read_line buf cs)") (auto simp: prod_eq_iff)
qed

lemma kit_exchange_agrees:
  "snd (kit_exchange K req so) = snd (exchange K req so) \<and>
   (fst (kit_exchange K req so) = Inr v \<longleftrightarrow> fst (exchange K req so) = Inr v)"
proof -
  obtain r cs where r: "read_response_bytes [] (so_in so) = (r, cs)" by (metis prod.exhaust)
  show ?thesis
  proof (cases r)
    case (Inl msg)
    then obtain e where "client_read_line [] (so_in so) = (Inl e, cs)"
      using read_response_agrees(2) [of "[]" "so_in so" msg] r by auto
    with Inl r show ?thesis
      by (simp add: kit_exchange_def exchange_def read_response_def Let_def split: option.split)
  next
    case (Inr raw)
    then have "client_read_line [] (so_in so) = (Inr raw, cs)"
      using read_response_agrees(1) [of "[]" "so_in so" raw] r by simp
    with Inr r show ?thesis
      by (auto simp: kit_exchange_def exchange_def read_response_def Let_def split: option.split sum.split)
  qed
qed

theorem connect_as_agrees:
  "connect_as K dial dir cell token = Inr c \<longleftrightarrow>
   ops_connect K dial dir cell token = Inr (cn_stream c) \<and> cn_next_id c = 2"
proof (cases "dial (path_join dir ''crewd.sock'')")
  case (Inr so)
  let ?req = "\<lparr>wq_id = 1, wq_method = ''handshake'',
      wq_params = JObj [(''cell_id'', JStr cell), (''token'', JStr token), (''spec_version'', JStr SPEC_VERSION)]\<rparr>"
  obtain r s where k: "kit_exchange K ?req so = (r, s)" by (metis prod.exhaust)
  have e: "snd (exchange K ?req so) = s" "r = Inr v \<longleftrightarrow> fst (exchange K ?req so) = Inr v" for v
    using kit_exchange_agrees [of K ?req so v] k by simp_all
  then obtain q where q: "exchange K ?req so = (q, s)" by (metis prod.collapse)
  have c: "\<lparr>cn_stream = s, cn_next_id = 2\<rparr> = c \<longleftrightarrow> s = cn_stream c \<and> cn_next_id c = 2" by (cases c) auto
  show ?thesis
  proof (cases r)
    case (Inl x)
    then obtain y where "q = Inl y" using e(2) q by (cases q) auto
    with Inl show ?thesis by (simp add: connect_as_def ops_connect_def ops_handshake_def Inr k q del: One_nat_def)
  next
    case i: (Inr v)
    then have "q = Inr v" using e(2) q by simp
    with i show ?thesis by (simp add: connect_as_def ops_connect_def ops_handshake_def Inr k q c del: One_nat_def)
  qed
qed (simp add: connect_as_def ops_connect_def)

text \<open>The requests of a connection that can be written carry the numbers from 1 on, none twice.\<close>

definition cell_calls :: "client_codec \<Rightarrow> (string \<times> json) list \<Rightarrow> cell_conn \<Rightarrow> cell_conn" where
  "cell_calls K cs c = fold (\<lambda>(m, p) c. snd (cell_call K m p c)) cs c"

lemma kit_exchange_sends:
  "so_broken (snd (kit_exchange K req so)) = so_broken so"
  "so_sent (snd (kit_exchange K req so)) = so_sent so @ (if so_broken so = None then [req] else [])"
  by (simp_all add: kit_exchange_def read_response_def split: option.split prod.split sum.split)

lemma cell_call_ids:
  "so_broken (cn_stream c) = None \<Longrightarrow> cell_call K m p c = (r, c') \<Longrightarrow>
   so_broken (cn_stream c') = None \<and> cn_next_id c' = Suc (cn_next_id c) \<and>
   map wq_id (so_sent (cn_stream c')) = map wq_id (so_sent (cn_stream c)) @ [cn_next_id c]"
  using kit_exchange_sends [of K "\<lparr>wq_id = cn_next_id c, wq_method = m, wq_params = p\<rparr>" "cn_stream c"]
  by (auto simp: cell_call_def split: prod.splits)

lemma cell_calls_ids:
  "so_broken (cn_stream c) = None \<Longrightarrow>
   map wq_id (so_sent (cn_stream (cell_calls K cs c))) =
     map wq_id (so_sent (cn_stream c)) @ [cn_next_id c..<cn_next_id c + length cs]"
proof (induction cs arbitrary: c)
  case (Cons x cs)
  obtain m p where x: "x = (m, p)" by (cases x)
  obtain r c' where c: "cell_call K m p c = (r, c')" by (metis prod.exhaust)
  note k = cell_call_ids [OF Cons.prems c]
  have "[cn_next_id c..<cn_next_id c + length (x # cs)] =
      cn_next_id c # [Suc (cn_next_id c)..<Suc (cn_next_id c) + length cs]"
    by (simp add: upt_conv_Cons del: upt_Suc)
  then show ?case using k Cons.IH [of c'] by (simp add: cell_calls_def x c del: upt_Suc)
qed (simp add: cell_calls_def)

theorem connection_ids:
  assumes "connect_as K dial dir cell token = Inr c" "dial (path_join dir ''crewd.sock'') = Inr so"
    "so_sent so = []" "so_broken so = None"
  shows "map wq_id (so_sent (cn_stream (cell_calls K cs c))) = [1..<2 + length cs]"
proof -
  let ?req = "\<lparr>wq_id = 1, wq_method = ''handshake'',
      wq_params = JObj [(''cell_id'', JStr cell), (''token'', JStr token), (''spec_version'', JStr SPEC_VERSION)]\<rparr>"
  have "cn_stream c = snd (kit_exchange K ?req so)" "cn_next_id c = 2"
    using assms(1,2) by (auto simp: connect_as_def split: prod.splits sum.splits)
  moreover have "[1..<2 + length cs] = 1 # [2..<2 + length cs]"
    by (simp add: upt_conv_Cons numeral_2_eq_2 del: upt_Suc)
  ultimately show ?thesis
    using cell_calls_ids [of c K cs] kit_exchange_sends [of K ?req so] assms(3,4) by (simp add: numeral_2_eq_2 del: upt_Suc)
qed

section \<open>After a shutdown\<close>

text \<open>The socket path is free again, so a start on the same directory binds it.\<close>

lemma kit_shutdown_frees:
  "cf_runtime_dir cfg = dh_runtime_dir h \<Longrightarrow> fst (bootstrap_hardening (dh_paths (kit_shutdown h)) cfg) = Bound"
  by (simp add: bootstrap_hardening_def kit_shutdown_def socket_path_def)

text \<open>A codec whose JSON text is the record, and a harness started with it.\<close>

definition kit_codec :: codec where
  "kit_codec =
    \<lparr>cd_sha = (\<lambda>x. replicate 32 (of_nat (length x))), cd_esc = id, cd_num = (\<lambda>_. []),
     cd_ser = (\<lambda>v. case v of JObj kvs \<Rightarrow> if map_of kvs ''revoked'' = Some (JBool True) then ''R'' else ''L'' | _ \<Rightarrow> []),
     cd_parse = (\<lambda>t.
       let r = \<lparr>tk_token_id = hex_encode [7], tk_token_hash = hex_encode (replicate 32 2),
                tk_expires_at = rfc3339_after 0 86400, tk_revoked = t = ''R''\<rparr>
       in if t = ''L'' \<or> t = ''R'' then Some (token_json r) else None)\<rparr>"

definition example_kit :: kit_host where
  "example_kit =
    \<lparr>kh_host = \<lparr>ho_config_toml = (\<lambda>_. None), ho_acl_toml = (\<lambda>_. Some test_acl_table), ho_config = None,
       ho_read = (\<lambda>_. None), ho_tokens = (\<lambda>_. Inr (\<lambda>_. None)), ho_store = (\<lambda>_. Inr empty_store),
       ho_audit = (\<lambda>_. Inr \<lparr>al_events = [], al_faults = []\<rparr>),
       ho_paths = (\<lambda>_. NoFile), ho_env = (\<lambda>_. None)\<rparr>,
     kh_create_dir = None, kh_write_acl = None, kh_now = 0, kh_secret = (\<lambda>_. [1]), kh_ident = (\<lambda>_. [7]),
     kh_fault = (\<lambda>_. Written)\<rparr>"

lemma kit_codec_simps:
  "cd_ser kit_codec (token_json r) = (if tk_revoked r then ''R'' else ''L'')"
  "cd_parse kit_codec t = (if t = ''L'' \<or> t = ''R''
      then Some (token_json \<lparr>tk_token_id = hex_encode [7], tk_token_hash = hex_encode (replicate 32 2),
        tk_expires_at = rfc3339_after 0 86400, tk_revoked = t = ''R''\<rparr>) else None)"
  "hex_sha256 kit_codec (hex_encode [1]) = hex_encode (replicate 32 2)"
  by (simp_all add: kit_codec_def token_json_def Let_def hex_sha256_def hex_encode_def)

lemma kit_codec_record:
  "kit_record kit_codec example_kit cell = \<lparr>tk_token_id = hex_encode [7],
      tk_token_hash = hex_encode (replicate 32 2), tk_expires_at = rfc3339_after 0 86400, tk_revoked = False\<rparr>"
  by (simp add: kit_record_def issue_record_def example_kit_def kit_codec_simps)

lemma kit_codec_text: "list_all (\<lambda>c. text_ok kit_codec (kit_record kit_codec example_kit c)) TEST_CELLS"
  by (simp add: list_all_iff text_ok_def kit_codec_record kit_codec_simps)

lemma example_kit_starts: "\<exists>h. spawn_daemon kit_codec example_kit ''/r'' = Inr h"
proof -
  have "\<exists>h. build_and_start_full kit_codec example_kit ''/r'' default_quota_config 10 1 60 False = Inr h"
  proof (rule kit_starts [where s = empty_store and ids = "[]" and a = test_acl and files = "\<lambda>_. None"
        and l = "\<lparr>al_events = [], al_faults = []\<rparr>" and c = "(empty_store, \<lparr>al_events = [], al_faults = []\<rparr>)"])
    show "acl_parse (ho_acl_toml (kh_host example_kit)) TEST_ACL = Inr test_acl"
      by (rule test_acl_from_text) (simp add: example_kit_def)
  qed (simp_all add: example_kit_def recovery_of_empty bootstrap_hardening_def)
  then show ?thesis by (simp add: spawn_daemon_def build_and_start_def build_and_start_with_quota_def)
qed

text \<open>All hypotheses of the two theorems above hold of it.\<close>

lemma example_kit_authenticates:
  "\<exists>h r. spawn_daemon kit_codec example_kit ''/r'' = Inr h \<and> server_init (kit_server h) \<and> dm_acl (dh_state h) = test_acl \<and>
     authenticate kit_codec 86400 (dh_issuer h) \<lparr>pc_uid = 0, pc_gid = 0, pc_pid = None\<rparr>
       \<lparr>cp_cell_id = ''vault'', cp_token = hex_encode [1], cp_spec_version = SPEC_VERSION\<rparr> = Inr r"
proof -
  obtain h where h: "spawn_daemon kit_codec example_kit ''/r'' = Inr h" using example_kit_starts by blast
  then have b: "build_and_start_full kit_codec example_kit ''/r'' default_quota_config 10 1 60 False = Inr h"
    by (simp add: spawn_daemon_def build_and_start_def build_and_start_with_quota_def)
  have "ho_store (kh_host example_kit) p = Inr empty_store" "ho_acl_toml (kh_host example_kit) TEST_ACL = Some test_acl_table"
    for p by (simp_all add: example_kit_def)
  then have "server_init (kit_server h)" "dm_acl (dh_state h) = test_acl" by (auto intro: kit_start_init [OF b] kit_acl [OF b])
  moreover have "''vault'' \<in> set TEST_CELLS" "now_rfc3339 86400 \<le> rfc3339_after (kh_now example_kit) 86400"
    "kh_secret example_kit ''vault'' = [1]"
    by (simp_all add: TEST_CELLS_def example_kit_def now_rfc3339_def rfc3339_after_def U64_MAX_def)
  ultimately show ?thesis
    using h kit_tokens_authenticate [OF b _ kit_codec_text, of "''vault''" 86400 "\<lparr>pc_uid = 0, pc_gid = 0, pc_pid = None\<rparr>"]
    by auto
qed

end
