(* ===== verification/CoreTests.thy ===== *)
theory CoreTests
  imports Delivery
begin

text \<open>
  The unit tests of the core modules (\<open>#[cfg(test)]\<close> in \<open>crewd-core\<close>), each as the check it makes on
  the definitions of the model, and the proof that it passes: \<open>types.rs\<close>, \<open>error.rs\<close>, \<open>adapter.rs\<close>,
  \<open>canonical.rs\<close>, \<open>validators.rs\<close>, \<open>tickets.rs\<close>, \<open>quota.rs\<close>, \<open>acl.rs\<close> and \<open>wire.rs\<close>.  A test is a boolean: the
  conjunction of its assertions, with the state passed from call to call.
\<close>

definition fails_with :: "string \<Rightarrow> 'a res \<Rightarrow> bool" where
  "fails_with c r = (case r of Inl e \<Rightarrow> code e = c | Inr _ \<Rightarrow> False)"

lemma fails_with_simps [simp]: "fails_with c (Inl e) = (code e = c)" "\<not> fails_with c (Inr a)"
  by (simp_all add: fails_with_def)

section \<open>Types and errors\<close>

definition error_codes_are_exact_set :: bool where
  "error_codes_are_exact_set =
    (map code [AclDenied, AuthRejected, UnknownCell, TtlExpired, WouldDeadlock, Quota, BodyTooLarge, Dup, AskNotFound,
       ReplyExists, UnsupportedSpecVersion, Internal] =
     [''E_ACL_DENIED'', ''E_AUTH_REJECTED'', ''E_UNKNOWN_CELL'', ''E_TTL_EXPIRED'', ''E_WOULD_DEADLOCK'', ''E_QUOTA'',
      ''E_BODY_TOO_LARGE'', ''E_DUP'', ''E_ASK_NOT_FOUND'', ''E_REPLY_EXISTS'', ''E_UNSUPPORTED_SPEC_VERSION'', ''E_INTERNAL''])"

definition phase2_error_codes_exact :: bool where
  "phase2_error_codes_exact =
    list_all (\<lambda>(e, s). code e = s)
      [(CellBusy, ''E_CELL_BUSY''), (QueueFull, ''E_QUEUE_FULL''), (EngineDown, ''E_ENGINE_DOWN''),
       (ThreadNotResumable, ''E_THREAD_NOT_RESUMABLE''), (PolicyDenied, ''E_POLICY_DENIED''), (Timeout_err, ''E_TIMEOUT''),
       (Cancelled_err, ''E_CANCELLED'')]"

definition ttl_clamped_never_rejected :: bool where
  "ttl_clamped_never_rejected \<longleftrightarrow>
    clamp_ttl Ask (Some 999999) = TTL_CEILING_ASK_SECS \<and> clamp_ttl Ask (Some 60) = 60 \<and>
    clamp_ttl Send None = TTL_CEILING_SEND_SECS \<and> clamp_ttl Broadcast None = TTL_CEILING_BROADCAST_SECS"

text \<open>\<open>Envelope::test_fixture\<close>; the fresh identifiers and the clock are fixed.\<close>

definition test_fixture :: "kind \<Rightarrow> envelope" where
  "test_fixture k =
    \<lparr>e_spec_version = SPEC_VERSION, e_message_id = ''u1'',
     e_ask_id = (case k of Reply \<Rightarrow> Some ''u2'' | Ask \<Rightarrow> Some ''u2'' | _ \<Rightarrow> None), e_from_cell = ''dev-senior'',
     e_to_cell = (if k = Broadcast then None else Some ''codex-audit''), e_kind = k, e_msg_type = MTask,
     e_principal_capabilities = [''send'', ''ask''], e_created_at = now_rfc3339 0, e_expires_at = rfc3339_after 0 3600,
     e_seq = 1, e_idempotency_key = ''u4'', e_body = ''hello'', e_file_refs = [], e_taint = TAINT,
     e_reply_to = (case k of Reply \<Rightarrow> Some ''u3'' | _ \<Rightarrow> None)\<rparr>"

definition broadcast_must_have_null_to_cell :: bool where
  "broadcast_must_have_null_to_cell =
    fails_with ''E_INTERNAL'' (validate_invariants ((test_fixture Broadcast)\<lparr>e_to_cell := Some ''x''\<rparr>))"

definition reply_requires_reply_to :: bool where
  "reply_requires_reply_to =
    fails_with ''E_ASK_NOT_FOUND'' (validate_invariants ((test_fixture Reply)\<lparr>e_reply_to := None\<rparr>))"

definition body_over_64k_rejected :: bool where
  "body_over_64k_rejected =
    fails_with ''E_BODY_TOO_LARGE''
      (validate_invariants ((test_fixture Send)\<lparr>e_body := replicate (MAX_BODY_BYTES + 1) (CHR ''x'')\<rparr>))"

definition now_rfc3339_ends_with_z :: "nat \<Rightarrow> bool" where
  "now_rfc3339_ends_with_z now \<longleftrightarrow> last (now_rfc3339 now) = CHR ''Z''"

lemma passes_types:
  error_codes_are_exact_set phase2_error_codes_exact ttl_clamped_never_rejected
  by (simp_all add: error_codes_are_exact_set_def phase2_error_codes_exact_def ttl_clamped_never_rejected_def
      clamp_ttl_def TTL_CEILING_ASK_SECS_def TTL_CEILING_SEND_SECS_def TTL_CEILING_BROADCAST_SECS_def)

lemma passes_envelope: broadcast_must_have_null_to_cell reply_requires_reply_to body_over_64k_rejected
  by (simp_all add: broadcast_must_have_null_to_cell_def reply_requires_reply_to_def body_over_64k_rejected_def
      test_fixture_def validate_invariants_def TAINT_def)

lemma passes_now_rfc3339: "now_rfc3339_ends_with_z now"
  by (simp add: now_rfc3339_ends_with_z_def now_rfc3339_def rfc3339_from_unix_secs_def Let_def split: prod.split)

section \<open>Adapters and canonical JSON\<close>

definition outcome_state_mapping_is_normative :: bool where
  "outcome_state_mapping_is_normative \<longleftrightarrow>
    outcome_to_state ODelivered = DDelivered \<and> outcome_to_state OAcked = DAcked \<and>
    outcome_to_state OTransientFailure = DQueued \<and> outcome_to_state ONotReady = DQueued \<and>
    outcome_to_state OPermanentFailure = DFailed"

definition fake_adapter_scripts_and_records :: bool where
  "fake_adapter_scripts_and_records =
    (let e = test_fixture Send;
         (o1, a) = fake_deliver e (push_script OTransientFailure fake_adapter_new);
         (o2, a) = fake_deliver e a
     in o1 = OTransientFailure \<and> o2 = ODelivered \<and> length (fa_delivered a) = 1 \<and> fa_attempts a = 2)"

definition canonical_sorts_keys_recursively :: bool where
  "canonical_sorts_keys_recursively \<longleftrightarrow>
    to_canonical_json plain_esc plain_num
      (JObj [(''b'', JInt 1), (''a'', JObj [(''z'', JBool True), (''y'', JArr [JObj [(''k'', JInt 2), (''a'', JInt 1)]])])]) =
    ''{\"a\":{\"y\":[{\"a\":1,\"k\":2}],\"z\":true},\"b\":1}''"

lemma passes_adapter: outcome_state_mapping_is_normative fake_adapter_scripts_and_records
  by (simp_all add: outcome_state_mapping_is_normative_def fake_adapter_scripts_and_records_def fake_adapter_new_def
      push_script_def fake_deliver_def)

lemma dec_1_2: "dec (Suc 0) = [CHR 0x31]" "dec 2 = [CHR 0x32]"
  by (code_simp, code_simp)

lemma passes_canonical: canonical_sorts_keys_recursively
  by (simp add: dec_1_2 canonical_sorts_keys_recursively_def to_canonical_json_def plain_esc_def plain_num_def esc_char_def
      intersperse_comma_def sort_key_def)

section \<open>Validators\<close>

definition cell_name_valid_forms :: bool where
  "cell_name_valid_forms =
    list_all (\<lambda>n. is_ok (validate_cell_name n)) [''a'', ''worker-a'', ''c1_x-2'', replicate 64 (CHR ''a'')]"

text \<open>The letter with the accent is two bytes.\<close>

definition cell_name_invalid_forms :: bool where
  "cell_name_invalid_forms =
    list_all (\<lambda>bad. fails_with ''E_POLICY_DENIED'' (validate_cell_name bad))
      ['''', ''Up'', ''a/b'', ''a.b'', ''a b'', replicate 65 (CHR ''a''), [CHR 0xC3, CHR 0xA0], ''a!b'']"

definition ephemeral_name_accepted_only_via_dedicated_validator :: bool where
  "ephemeral_name_accepted_only_via_dedicated_validator \<longleftrightarrow>
    is_ok (validate_cell_name_allowing_ephemeral ''~ephemeral-0190a1b2'') \<and>
    fails_with ''E_POLICY_DENIED'' (validate_cell_name ''~ephemeral-0190a1b2'') \<and>
    list_all (\<lambda>bad. fails_with ''E_POLICY_DENIED'' (validate_cell_name_allowing_ephemeral bad))
      [''~ephemeral-'', ''~ephemeral-UP'', ''~ephemeral-a/b'', ''~ephemeral- x''] \<and>
    is_ok (validate_cell_name_allowing_ephemeral ''worker-a'')"

definition idempotency_key_bounds :: bool where
  "idempotency_key_bounds \<longleftrightarrow>
    is_ok (validate_idempotency_key ''k'') \<and> is_ok (validate_idempotency_key (replicate 128 (CHR ''k''))) \<and>
    fails_with ''E_POLICY_DENIED'' (validate_idempotency_key '''') \<and>
    fails_with ''E_POLICY_DENIED'' (validate_idempotency_key (replicate 129 (CHR ''k'')))"

lemma passes_validators: cell_name_valid_forms cell_name_invalid_forms idempotency_key_bounds
  by (simp_all add: cell_name_valid_forms_def cell_name_invalid_forms_def idempotency_key_bounds_def
      validate_cell_name_def validate_idempotency_key_def is_ascii_lowercase_def is_ascii_digit_def is_ok_def
      MAX_IDEMPOTENCY_KEY_BYTES_def list_all_iff)

lemma passes_ephemeral: ephemeral_name_accepted_only_via_dedicated_validator
  by (simp add: ephemeral_name_accepted_only_via_dedicated_validator_def validate_cell_name_allowing_ephemeral_def
      validate_cell_name_def strip_prefix_def EPHEMERAL_PREFIX_def is_ascii_lowercase_def is_ascii_digit_def is_ok_def)

section \<open>The wait-for graph\<close>

definition empty_graph :: wait_graph where
  "empty_graph = \<lparr>wg_edges = []\<rparr>"

definition open_ask_without_await_adds_no_edge :: bool where
  "open_ask_without_await_adds_no_edge \<longleftrightarrow> edge_count empty_graph = 0"

definition direct_cycle_rejected_at_await :: bool where
  "direct_cycle_rejected_at_await =
    (let (ab, g) = try_activate_await empty_graph ''a'' ''b''; (ba, g) = try_activate_await g ''b'' ''a''
     in is_ok ab \<and> fails_with ''E_WOULD_DEADLOCK'' ba)"

definition transitive_cycle_rejected :: bool where
  "transitive_cycle_rejected =
    (let (ab, g) = try_activate_await empty_graph ''a'' ''b''; (bc, g) = try_activate_await g ''b'' ''c'';
         (ca, g) = try_activate_await g ''c'' ''a''
     in is_ok ab \<and> is_ok bc \<and> fails_with ''E_WOULD_DEADLOCK'' ca)"

definition released_edge_unblocks :: bool where
  "released_edge_unblocks =
    (case try_activate_await empty_graph ''a'' ''b'' of
      (Inr ab, g) \<Rightarrow> is_ok (fst (try_activate_await (release g ab) ''b'' ''a''))
    | _ \<Rightarrow> False)"

definition parallel_awaits_same_pair_counted :: bool where
  "parallel_awaits_same_pair_counted =
    (case try_activate_await empty_graph ''a'' ''b'' of
      (Inr e1, g) \<Rightarrow>
        (let (e2, g) = try_activate_await g ''a'' ''b''
         in is_ok e2 \<and> fails_with ''E_WOULD_DEADLOCK'' (fst (try_activate_await (release g e1) ''b'' ''a'')))
    | _ \<Rightarrow> False)"

definition self_await_is_a_cycle :: bool where
  "self_await_is_a_cycle = fails_with ''E_WOULD_DEADLOCK'' (fst (try_activate_await empty_graph ''a'' ''a''))"

lemmas graph_defs = try_activate_await_def closes_cycle_def bump_edge_def release_def empty_graph_def is_ok_def

lemma passes_tickets:
  open_ask_without_await_adds_no_edge direct_cycle_rejected_at_await transitive_cycle_rejected released_edge_unblocks
  parallel_awaits_same_pair_counted self_await_is_a_cycle
  by (simp_all add: open_ask_without_await_adds_no_edge_def direct_cycle_rejected_at_await_def
      transitive_cycle_rejected_def released_edge_unblocks_def parallel_awaits_same_pair_counted_def
      self_await_is_a_cycle_def edge_count_def graph_defs)

section \<open>Quotas\<close>

text \<open>One unit at each of the times, all admitted.\<close>

fun senders_admitted :: "string \<Rightarrow> nat list \<Rightarrow> quota_tracker \<Rightarrow> bool \<times> quota_tracker" where
  "senders_admitted a [] q = (True, q)"
| "senders_admitted a (t # ts) q =
    (let (r, q) = note_and_check_sender a t 1 q; (ok, q) = senders_admitted a ts q in (is_ok r \<and> ok, q))"

fun capabilities_admitted :: "string \<Rightarrow> capability \<Rightarrow> nat list \<Rightarrow> quota_tracker \<Rightarrow> bool \<times> quota_tracker" where
  "capabilities_admitted a cap [] q = (True, q)"
| "capabilities_admitted a cap (t # ts) q =
    (let (r, q) = note_and_check_capability a cap t q; (ok, q) = capabilities_admitted a cap ts q in (is_ok r \<and> ok, q))"

definition sender_rate_60_per_min_sliding :: bool where
  "sender_rate_60_per_min_sliding =
    (let t0 = 1000000;
         (all_ok, q) = senders_admitted ''a'' (map (\<lambda>i. t0 + i) [0..<60]) (quota_new default_quota_config);
         (over, q) = note_and_check_sender ''a'' (t0 + 60) 1 q;
         (later, q) = note_and_check_sender ''a'' (t0 + 61000) 1 q;
         (other, q) = note_and_check_sender ''b'' t0 1 q
     in all_ok \<and> fails_with ''E_QUOTA'' over \<and> is_ok later \<and> is_ok other)"

definition capability_ceiling_independent_from_sender :: bool where
  "capability_ceiling_independent_from_sender =
    (let (all_ok, q) = capabilities_admitted ''a'' CAsk [0..<20] (quota_new default_quota_config);
         (over, q) = note_and_check_capability ''a'' CAsk 20 q;
         (other, q) = note_and_check_capability ''a'' CBroadcast 0 q
     in all_ok \<and> fails_with ''E_QUOTA'' over \<and> is_ok other)"

definition broadcast_fanout_counts_units :: bool where
  "broadcast_fanout_counts_units =
    (let (r, q) = note_and_check_sender ''a'' 0 59 (quota_new default_quota_config)
     in is_ok r \<and> fails_with ''E_QUOTA'' (fst (note_and_check_sender ''a'' 1 2 q)))"

definition queue_overflow_rejects_never_drops :: bool where
  "queue_overflow_rejects_never_drops =
    (let q = quota_new (default_quota_config\<lparr>queue_depth := 5\<rparr>)
     in is_ok (check_queue_depth q 4) \<and> fails_with ''E_QUOTA'' (check_queue_depth q 5))"

definition pending_ask_cap_10 :: bool where
  "pending_ask_cap_10 =
    (let q = quota_new default_quota_config
     in is_ok (check_pending_ask_cap q 9) \<and> fails_with ''E_QUOTA'' (check_pending_ask_cap q 10))"

text \<open>Within one window nothing is pruned, so the loops run up to the limit.\<close>

lemma prune_fresh: "\<forall>x \<in> set w. now - x < WINDOW_MS \<Longrightarrow> prune w now = w"
  by (cases w) auto

lemma prune_stale: "\<forall>x \<in> set w. WINDOW_MS \<le> now - x \<Longrightarrow> prune w now = []"
  by (induction w) auto

lemma senders_admitted_fresh:
  assumes "or_default (qt_per_sender q a) = w" "\<And>x t. x \<in> set (w @ ts) \<Longrightarrow> t \<in> set ts \<Longrightarrow> t - x < WINDOW_MS"
    "length w + length ts \<le> sender_per_min (qt_config q)"
  shows "senders_admitted a ts q = (True, if ts = [] then q else q\<lparr>qt_per_sender := (qt_per_sender q)(a \<mapsto> w @ ts)\<rparr>)"
  using assms
proof (induction ts arbitrary: q w)
  case (Cons t ts)
  have p: "prune w t = w" using Cons.prems(2) by (intro prune_fresh) simp
  let ?q = "q\<lparr>qt_per_sender := (qt_per_sender q)(a \<mapsto> w @ [t])\<rparr>"
  have n: "note_and_check_sender a t 1 q = (Inr (), ?q)"
    using Cons.prems(1,3) by (simp add: note_and_check_sender_def Let_def p)
  have "senders_admitted a ts ?q = (True, if ts = [] then ?q else ?q\<lparr>qt_per_sender := (qt_per_sender ?q)(a \<mapsto> (w @ [t]) @ ts)\<rparr>)"
    using Cons.prems by (intro Cons.IH) (auto simp: or_default_def)
  with n show ?case by (simp add: is_ok_def)
qed simp

lemma capabilities_admitted_fresh:
  assumes "or_default (qt_per_capability q (a, cap)) = w" "capability_ceiling (qt_config q) cap = Some n"
    "\<And>x t. x \<in> set (w @ ts) \<Longrightarrow> t \<in> set ts \<Longrightarrow> t - x < WINDOW_MS" "length w + length ts \<le> n"
  shows "capabilities_admitted a cap ts q =
    (True, if ts = [] then q else q\<lparr>qt_per_capability := (qt_per_capability q)((a, cap) \<mapsto> w @ ts)\<rparr>)"
  using assms
proof (induction ts arbitrary: q w)
  case (Cons t ts)
  have p: "prune w t = w" using Cons.prems(3) by (intro prune_fresh) simp
  let ?q = "q\<lparr>qt_per_capability := (qt_per_capability q)((a, cap) \<mapsto> w @ [t])\<rparr>"
  have n: "note_and_check_capability a cap t q = (Inr (), ?q)"
    using Cons.prems(1,2,4) by (simp add: note_and_check_capability_def Let_def p)
  have "capabilities_admitted a cap ts ?q =
      (True, if ts = [] then ?q else ?q\<lparr>qt_per_capability := (qt_per_capability ?q)((a, cap) \<mapsto> (w @ [t]) @ ts)\<rparr>)"
    using Cons.prems by (intro Cons.IH) (auto simp: or_default_def)
  with n show ?case by (simp add: is_ok_def)
qed simp

lemmas quota_test_defs = default_quota_config_def quota_new_def or_default_def is_ok_def WINDOW_MS_def

lemma passes_sender_rate: sender_rate_60_per_min_sliding
proof -
  let ?ts = "map (\<lambda>i. 1000000 + i) [0..<60::nat]"
  let ?q = "(quota_new default_quota_config)\<lparr>qt_per_sender := [''a'' \<mapsto> ?ts]\<rparr>"
  have "senders_admitted ''a'' ?ts (quota_new default_quota_config) = (True, ?q)"
    by (subst senders_admitted_fresh [where w = "[]"]) (auto simp: quota_test_defs)
  moreover have "prune ?ts 1000060 = ?ts" by (intro prune_fresh) (auto simp: WINDOW_MS_def)
  moreover have "prune ?ts 1061000 = []" by (intro prune_stale) (auto simp: WINDOW_MS_def)
  ultimately show ?thesis
    unfolding sender_rate_60_per_min_sliding_def Let_def
    by (simp add: note_and_check_sender_def Let_def quota_test_defs del: upt_Suc)
qed

lemma passes_capability_ceiling: capability_ceiling_independent_from_sender
proof -
  let ?q = "(quota_new default_quota_config)\<lparr>qt_per_capability := [(''a'', CAsk) \<mapsto> [0..<20]]\<rparr>"
  have "capabilities_admitted ''a'' CAsk [0..<20] (quota_new default_quota_config) = (True, ?q)"
    by (subst capabilities_admitted_fresh [where w = "[]" and n = 20]) (auto simp: quota_test_defs capability_ceiling_def)
  moreover have "prune [0..<20] 20 = [0..<20]" by (intro prune_fresh) (auto simp: WINDOW_MS_def)
  ultimately show ?thesis
    unfolding capability_ceiling_independent_from_sender_def Let_def
    by (simp add: note_and_check_capability_def Let_def quota_test_defs capability_ceiling_def del: upt_Suc)
qed

lemma passes_quota_caps: broadcast_fanout_counts_units queue_overflow_rejects_never_drops pending_ask_cap_10
  by (simp_all add: broadcast_fanout_counts_units_def queue_overflow_rejects_never_drops_def pending_ask_cap_10_def
      note_and_check_sender_def Let_def check_queue_depth_def check_pending_ask_cap_def quota_test_defs prune_fresh)

section \<open>The access control list\<close>

text \<open>The file of the tests, as the TOML decoder gives it; the edits of its text are edits of this table.\<close>

definition ACL_table :: "(string \<times> raw_cell) list" where
  "ACL_table =
    [(''codex-audit'', \<lparr>rc_engine = ''codex'',
        rc_capabilities = [''send'', ''ask'', ''reply'', ''read_inbox'', ''list_cells'', ''attach_files''],
        rc_protected = False, rc_send_to_protected = [], rc_ask_protected = [], rc_order_preserving = False\<rparr>),
     (''coordinator'', \<lparr>rc_engine = ''claude'',
        rc_capabilities = [''send'', ''ask'', ''reply'', ''broadcast'', ''read_inbox'', ''list_cells'', ''attach_files'',
          ''admin_registry'', ''read_audit''],
        rc_protected = True, rc_send_to_protected = [], rc_ask_protected = [], rc_order_preserving = False\<rparr>),
     (''dev-senior'', \<lparr>rc_engine = ''claude'',
        rc_capabilities = [''send'', ''ask'', ''reply'', ''read_inbox'', ''list_cells'', ''read_audit''],
        rc_protected = False, rc_send_to_protected = [''coordinator''], rc_ask_protected = [''coordinator''],
        rc_order_preserving = False\<rparr>)]"

definition parse_table :: "(string \<times> raw_cell) list \<Rightarrow> acl res" where
  "parse_table t = acl_parse (\<lambda>_. Some t) []"

definition on_capabilities :: "(string list \<Rightarrow> string list) \<Rightarrow> (string \<times> raw_cell) list \<Rightarrow> (string \<times> raw_cell) list" where
  "on_capabilities f t = map (\<lambda>(n, c). (n, c\<lparr>rc_capabilities := f (rc_capabilities c)\<rparr>)) t"

definition on_grants :: "(string list \<Rightarrow> string list) \<Rightarrow> (string \<times> raw_cell) list \<Rightarrow> (string \<times> raw_cell) list" where
  "on_grants f t = map (\<lambda>(n, c). (n, c\<lparr>rc_send_to_protected := f (rc_send_to_protected c),
     rc_ask_protected := f (rc_ask_protected c)\<rparr>)) t"

definition parse_and_check_capability :: bool where
  "parse_and_check_capability =
    (case parse_table ACL_table of
      Inl _ \<Rightarrow> False
    | Inr acl \<Rightarrow> is_ok (acl_check acl ''dev-senior'' CSend) \<and>
        fails_with ''E_ACL_DENIED'' (acl_check acl ''dev-senior'' CBroadcast) \<and>
        fails_with ''E_ACL_DENIED'' (acl_check acl ''ghost'' CSend))"

definition unknown_capability_aborts_whole_file :: bool where
  "unknown_capability_aborts_whole_file =
    fails_with ''E_INTERNAL'' (parse_table (on_capabilities (map (\<lambda>c. if c = ''send'' then ''sendz'' else c)) ACL_table))"

definition duplicate_capability_fails :: bool where
  "duplicate_capability_fails \<longleftrightarrow>
    \<not> is_ok (parse_table (on_capabilities (\<lambda>cs. if last cs = ''read_audit'' then cs @ [''send''] else cs) ACL_table))"

definition protected_reach_requires_per_target_grant :: bool where
  "protected_reach_requires_per_target_grant =
    (case parse_table ACL_table of
      Inl _ \<Rightarrow> False
    | Inr acl \<Rightarrow> is_ok (check_reach acl ''dev-senior'' ''coordinator'' ViaAsk) \<and>
        fails_with ''E_ACL_DENIED'' (check_reach acl ''codex-audit'' ''coordinator'' ViaSend) \<and>
        is_ok (check_reach acl ''codex-audit'' ''dev-senior'' ViaSend))"

definition broadcast_fanout_omits_ungranted_protected :: bool where
  "broadcast_fanout_omits_ungranted_protected =
    (case parse_table ACL_table of
      Inl _ \<Rightarrow> False
    | Inr acl \<Rightarrow>
        (let (included, denied) = recipients_for_broadcast acl ''codex-audit'';
             (inc2, den2) = recipients_for_broadcast acl ''dev-senior''
         in ''dev-senior'' \<in> set included \<and> ''coordinator'' \<notin> set included \<and> denied = [''coordinator''] \<and>
            ''coordinator'' \<in> set inc2 \<and> den2 = []))"

definition grant_to_unregistered_name_fails_validation :: bool where
  "grant_to_unregistered_name_fails_validation \<longleftrightarrow>
    \<not> is_ok (parse_table (on_grants (\<lambda>g. if g = [''coordinator''] then [''nonexistent''] else g) ACL_table))"

definition atomic_reload_keeps_previous_on_invalid :: bool where
  "atomic_reload_keeps_previous_on_invalid =
    (let toml = (\<lambda>t. if t = ''ACL'' then Some ACL_table else None);
         (r1, acl) = reload_from_file toml (Some ''ACL'') [];
         (r2, acl) = reload_from_file toml (Some ''not valid toml [[['') acl
     in is_ok r1 \<and> \<not> is_ok r2 \<and> is_ok (acl_check acl ''dev-senior'' CSend))"

lemmas acl_test_defs = parse_table_def ACL_table_def on_capabilities_def on_grants_def acl_parse_def capability_parse_def
  acl_check_def check_reach_def is_protected_def recipients_for_broadcast_def reload_from_file_def is_ok_def

lemma passes_acl:
  parse_and_check_capability unknown_capability_aborts_whole_file duplicate_capability_fails
  protected_reach_requires_per_target_grant broadcast_fanout_omits_ungranted_protected
  grant_to_unregistered_name_fails_validation atomic_reload_keeps_previous_on_invalid
  by (simp_all add: parse_and_check_capability_def unknown_capability_aborts_whole_file_def
      duplicate_capability_fails_def protected_reach_requires_per_target_grant_def
      broadcast_fanout_omits_ungranted_protected_def grant_to_unregistered_name_fails_validation_def
      atomic_reload_keeps_previous_on_invalid_def acl_test_defs)

section \<open>The wire\<close>

definition wire_error_carries_stable_code :: bool where
  "wire_error_carries_stable_code \<longleftrightarrow>
    ws_error (wire_err 7 Quota) = Some ''E_QUOTA'' \<and> ws_id (wire_err 7 Quota) = 7"

text \<open>For every printer that writes no newline and not nothing, and a parser that reads it back.\<close>

definition frame_roundtrip :: "(wire_request \<Rightarrow> string) \<Rightarrow> (string \<Rightarrow> wire_request option) \<Rightarrow> bool" where
  "frame_roundtrip ser parse =
    (let req = \<lparr>wq_id = 1, wq_method = ''cell_send'', wq_params = JObj [(''to_cell'', JStr ''b''), (''body'', JStr ''hi'')]\<rparr>;
         buf = write_frame ser req
     in last buf = NL \<and> map_option wq_method (fst (read_frame parse buf)) = Some ''cell_send'')"

definition send_params_defaults :: bool where
  "send_params_defaults =
    (case parse_send (JObj [(''to_cell'', JStr ''b''), (''body'', JStr ''x'')]) of
      Inl _ \<Rightarrow> False
    | Inr p \<Rightarrow> snd_file_refs p = [] \<and> snd_idempotency_key p = None \<and> snd_ttl_seconds p = None)"

definition ask_params_defaults :: bool where
  "ask_params_defaults =
    (case parse_ask (JObj [(''to_cell'', JStr ''b''), (''body'', JStr ''?'')]) of
      Inl _ \<Rightarrow> False
    | Inr p \<Rightarrow> ask_file_refs p = [] \<and> ask_idempotency_key p = None \<and> ask_ttl_seconds p = None)"

definition await_params_defaults :: bool where
  "await_params_defaults =
    (case parse_await (JObj [(''ask_id'', JStr ''a1'')]) of Inl _ \<Rightarrow> False | Inr p \<Rightarrow> aw_timeout_ms p = None)"

definition reply_params_defaults :: bool where
  "reply_params_defaults =
    (case parse_reply (JObj [(''ask_id'', JStr ''a1''), (''body'', JStr ''ok'')]) of
      Inl _ \<Rightarrow> False
    | Inr p \<Rightarrow> rp_file_refs p = [] \<and> rp_idempotency_key p = None)"

definition inbox_params_defaults :: bool where
  "inbox_params_defaults = (case parse_inbox (JObj []) of Inl _ \<Rightarrow> False | Inr p \<Rightarrow> ib_limit p = None)"

definition broadcast_params_defaults :: bool where
  "broadcast_params_defaults =
    (case parse_broadcast (JObj [(''body'', JStr ''hi'')]) of
      Inl _ \<Rightarrow> False
    | Inr p \<Rightarrow> bc_file_refs p = [] \<and> bc_idempotency_key p = None \<and> bc_ttl_seconds p = None)"

lemma passes_wire:
  wire_error_carries_stable_code send_params_defaults ask_params_defaults await_params_defaults reply_params_defaults
  inbox_params_defaults broadcast_params_defaults
  by (simp_all add: wire_error_carries_stable_code_def wire_err_def send_params_defaults_def ask_params_defaults_def
      await_params_defaults_def reply_params_defaults_def inbox_params_defaults_def broadcast_params_defaults_def
      parse_send_def parse_ask_def parse_await_def parse_reply_def parse_inbox_def parse_broadcast_def
      struct_fields_def field_str_def field_strs_def field_opt_str_def field_opt_uint_def field_opt_msg_type_def)

lemma passes_frame_roundtrip:
  assumes "\<And>r. NL \<notin> set (ser r) \<and> ser r \<noteq> []" "\<And>r. parse (ser r) = Some r"
  shows "frame_roundtrip ser parse"
proof -
  have "takeWhile (\<lambda>c. c \<noteq> NL) (ser r @ [NL]) = ser r" for r
    using assms(1) [of r] by (metis (mono_tags, lifting) takeWhile_append2 takeWhile.simps append_Nil2)
  then show ?thesis using assms by (simp add: frame_roundtrip_def write_frame_def read_frame_def Let_def)
qed

end
