(* ===== verification/StoreTests.thy ===== *)
theory StoreTests
  imports CoreTests Spawn Journal
begin

text \<open>
  The unit tests of the store (\<open>#[cfg(test)]\<close> in \<open>store.rs\<close>, \<open>cells.rs\<close>, \<open>threads.rs\<close>, \<open>jobs.rs\<close>,
  \<open>spawn.rs\<close> and \<open>engine.rs\<close>), each as the check it makes on the model, and the proof that it passes.
  Fresh identifiers are fixed and distinct; the clock is fixed, or a parameter where a test compares with
  the time of day.
\<close>

section \<open>The bus tables\<close>

definition transition_table_is_exact :: bool where
  "transition_table_is_exact \<longleftrightarrow>
    list_all (\<lambda>(f, t). delivery_transition_allowed f t)
      [(DQueued, DClaimed), (DClaimed, DDelivered), (DClaimed, DQueued), (DClaimed, DFailed), (DDelivered, DAcked),
       (DQueued, DFailed), (DQueued, DExpired), (DClaimed, DExpired)] \<and>
    list_all (\<lambda>f. list_all (\<lambda>t. \<not> delivery_transition_allowed f t) [DQueued, DClaimed, DDelivered, DAcked, DFailed, DExpired])
      [DAcked, DFailed, DExpired] \<and>
    \<not> delivery_transition_allowed DQueued DDelivered \<and> \<not> delivery_transition_allowed DDelivered DQueued"

definition seq_is_per_pair_monotonic :: bool where
  "seq_is_per_pair_monotonic =
    (let (n1, s) = next_seq ''a'' ''b'' empty_store; (n2, s) = next_seq ''a'' ''b'' s; (n3, s) = next_seq ''a'' ''c'' s
     in n1 = 1 \<and> n2 = 2 \<and> n3 = 1)"

text \<open>The loop body of the inbox test: a fresh message to bob with its delivery.\<close>

definition queue_for_bob :: "string \<Rightarrow> store \<Rightarrow> store" where
  "queue_for_bob u s =
    (let (n, s) = next_seq ''alice'' ''bob'' s;
         e = (test_fixture Send)\<lparr>e_message_id := u, e_to_cell := Some ''bob'', e_seq := n\<rparr>
     in insert_delivery (e_message_id e) ''bob'' (insert_envelope e s))"

definition inbox_pull_marks_delivered_and_orders_by_seq :: bool where
  "inbox_pull_marks_delivered_and_orders_by_seq =
    (let s = fold queue_for_bob [''u1'', ''u2'', ''u3''] empty_store;
         ((msgs, more), s) = inbox ''bob'' 10 s;
         ((again, _), _) = inbox ''bob'' 10 s
     in length msgs = 3 \<and> \<not> more \<and> list_all (\<lambda>(a, b). e_seq a < e_seq b) (zip msgs (tl msgs)) \<and> again = [])"

text \<open>The single message to bob of the next two tests.\<close>

definition to_bob :: envelope where
  "to_bob = (test_fixture Send)\<lparr>e_message_id := ''u1'', e_to_cell := Some ''bob''\<rparr>"

definition store_to_bob :: store where
  "store_to_bob = insert_delivery (e_message_id to_bob) ''bob'' (insert_envelope to_bob empty_store)"

definition lease_lapse_releases_for_redelivery :: bool where
  "lease_lapse_releases_for_redelivery =
    (let now = 1000000;
         (c1, s) = claim_due now 30 10 store_to_bob; (c2, s) = claim_due (now + 5) 30 10 s;
         (c3, s) = claim_due (now + 31) 30 10 s
     in length c1 = 1 \<and> c2 = [] \<and> length c3 = 1)"

text \<open>The failing attempts, with the clock and the jitter of each.\<close>

fun attempts_fail :: "(nat \<times> int) list \<Rightarrow> bool \<Rightarrow> (bool, store) op" where
  "attempts_fail [] exhausted s = (Inr exhausted, s)"
| "attempts_fail ((now, jitter) # xs) exhausted s =
    bind_res (record_attempt_failure now jitter (e_message_id to_bob) ''bob'' 10 1 60 s) (attempts_fail xs)"

definition retry_budget_exhaustion_fails :: "(nat \<times> int) list \<Rightarrow> bool" where
  "retry_budget_exhaustion_fails runs =
    (let (r, s) = attempts_fail runs False store_to_bob
     in r = Inr True \<and> delivery_state_of (e_message_id to_bob) ''bob'' s = Inr DFailed)"

definition single_reply_per_ask :: "(string \<Rightarrow> string) \<Rightarrow> bool" where
  "single_reply_per_ask sha =
    (let s = insert_ask ''ask1'' ''m1'' ''alice'' ''bob'' ''2999-01-01T00:00:00Z'' empty_store;
         r = (test_fixture Reply)\<lparr>e_message_id := ''u7'', e_ask_id := Some ''ask1'', e_reply_to := Some ''m1''\<rparr>;
         (o1, s) = record_reply sha ''ask1'' r s;
         r2 = r\<lparr>e_message_id := ''u8'', e_body := ''different''\<rparr>;
         (o2, s) = record_reply sha ''ask1'' r2 s;
         (o3, s) = record_reply sha ''ask1'' r s
     in o1 = Recorded \<and> o2 = Conflict \<and> (case o3 of DuplicateIdentical _ \<Rightarrow> True | _ \<Rightarrow> False))"

definition dedupe_binds_key_to_content :: bool where
  "dedupe_binds_key_to_content =
    (let s = dedupe_insert 0 ''alice'' ''key1'' ''m1'' None ''hashA'' empty_store
     in map_option dd_message_id (dedupe_lookup ''alice'' ''key1'' s) = Some ''m1'' \<and> dedupe_lookup ''bob'' ''key1'' s = None)"

lemma passes_transition_table: transition_table_is_exact
  by (simp add: transition_table_is_exact_def)

lemma passes_seq: seq_is_per_pair_monotonic
  by (simp add: seq_is_per_pair_monotonic_def next_seq_def Let_def)

lemmas bus_test_defs = insert_delivery_def insert_envelope_def replace_row_def test_fixture_def to_bob_def store_to_bob_def
  delivery_key_def join_envelope_def get_envelope_def pending_delivery_def update_delivery_def find_delivery_def

lemma passes_inbox: inbox_pull_marks_delivered_and_orders_by_seq
  by (simp add: inbox_pull_marks_delivered_and_orders_by_seq_def queue_for_bob_def inbox_def next_seq_def Let_def bus_test_defs)

lemma passes_lease_lapse: lease_lapse_releases_for_redelivery
  by (auto simp: lease_lapse_releases_for_redelivery_def claim_due_def release_leases_def due_deliveries_def Let_def bus_test_defs)

lemma passes_single_reply:
  assumes "sha ''hello'' \<noteq> sha ''different''"
  shows "single_reply_per_ask sha"
  using assms by (simp add: single_reply_per_ask_def record_reply_def reply_precheck_def commit_reply_def get_ask_def
      insert_ask_def replace_row_def test_fixture_def Let_def)

lemma passes_dedupe: dedupe_binds_key_to_content
  by (simp add: dedupe_binds_key_to_content_def dedupe_insert_def dedupe_lookup_def dedupe_key_def replace_row_def)

lemma find_updated:
  assumes "find_delivery m r s = Some d" "delivery_key (f d) = delivery_key d"
  shows "find_delivery m r (update_delivery m r f s) = Some (f d)"
proof -
  have "List.find P (update_rows P f rs) = Some (f d)" if "List.find P rs = Some d" "P (f d)" for P and rs :: "delivery_row list"
    using that by (induction rs) (auto split: if_splits)
  then show ?thesis
    using assms find_delivery_key [OF assms(1)] by (simp add: find_delivery_def update_delivery_def)
qed

lemma attempts_fail_run:
  "find_delivery (e_message_id to_bob) ''bob'' s = Some d \<Longrightarrow> d_attempts d + length runs = 10 \<Longrightarrow> runs \<noteq> [] \<Longrightarrow>
   \<exists>s'. attempts_fail runs b s = (Inr True, s') \<and> delivery_state_of (e_message_id to_bob) ''bob'' s' = Inr DFailed"
proof (induction runs arbitrary: b s d)
  case (Cons x runs)
  obtain now jitter where x: "x = (now, jitter)" by (cases x)
  let ?f = "\<lambda>d. d\<lparr>d_state := DFailed, d_attempts := 10\<rparr>"
  let ?g = "\<lambda>e. e\<lparr>d_state := DQueued, d_attempts := d_attempts d + 1, d_lease_until := None,
      d_next_retry_at := int now + int (min 60 (checked_shl_or_max 1 (d_attempts d))) + jitter\<rparr>"
  show ?case
  proof (cases "runs = []")
    case True
    then have "d_attempts d + 1 = 10" using Cons.prems(2) by simp
    then show ?thesis
      using find_updated [OF Cons.prems(1), of ?f] True
      by (simp add: x record_attempt_failure_def Cons.prems(1) Let_def delivery_state_of_def delivery_key_def)
  next
    case False
    then have "\<not> 10 \<le> d_attempts d + 1" using Cons.prems(2) by (cases runs) auto
    then have r: "record_attempt_failure now jitter (e_message_id to_bob) ''bob'' 10 1 60 s =
        (Inr False, update_delivery (e_message_id to_bob) ''bob'' ?g s)"
      by (simp add: record_attempt_failure_def Cons.prems(1) Let_def)
    have "find_delivery (e_message_id to_bob) ''bob'' (update_delivery (e_message_id to_bob) ''bob'' ?g s) = Some (?g d)"
      by (rule find_updated [OF Cons.prems(1)]) (simp add: delivery_key_def)
    from Cons.IH [OF this _ False, of False] Cons.prems(2) show ?thesis
      unfolding x attempts_fail.simps r by (simp del: One_nat_def)
  qed
qed simp

lemma passes_retry_budget:
  assumes "length runs = 10"
  shows "retry_budget_exhaustion_fails runs"
proof -
  have f: "find_delivery (e_message_id to_bob) ''bob'' store_to_bob = Some
      \<lparr>d_envelope_id = e_message_id to_bob, d_recipient = ''bob'', d_state = DQueued, d_attempts = 0,
       d_lease_until = None, d_next_retry_at = 0\<rparr>"
    by (simp add: bus_test_defs)
  have "runs \<noteq> []" using assms by auto
  with attempts_fail_run [OF f, of runs False] assms show ?thesis
    by (auto simp: retry_budget_exhaustion_fails_def)
qed

section \<open>The cell registry\<close>

definition sample_def :: "string \<Rightarrow> cell_def" where
  "sample_def name =
    \<lparr>c_name = name, c_engine = Claude, c_model = Some ''example-model'', c_profile = Some ''example-profile'',
     c_cwd = ''/tmp/w'', c_worktree_default = True, c_memory_device = Some ''dev-agent'', c_created_at = now_rfc3339 0\<rparr>"

text \<open>A log whose next append fails: its file cannot be created.\<close>

definition broken_log :: audit_log where
  "broken_log = \<lparr>al_events = [], al_faults = [True]\<rparr>"

definition registry_roundtrip_and_immutability :: bool where
  "registry_roundtrip_and_immutability =
    (let def = sample_def ''worker-a'';
         (r1, c) = cell_register def (empty_store, empty_log);
         (r2, c) = cell_register def c
     in is_ok r1 \<and> \<not> is_ok r2 \<and>
        (case cell_get ''worker-a'' (fst c) of
          None \<Rightarrow> False
        | Some got \<Rightarrow> c_model got = Some ''example-model'' \<and>
            fails_with ''E_POLICY_DENIED'' (resolve_spawn_target (Some got) None (Some ''other-model'') None None)) \<and>
        (case resolve_spawn_target None (Some Codex) None None (Some ''/tmp/x'') of
          Inr (Ephemeral engine _ _ _) \<Rightarrow> engine = Codex
        | _ \<Rightarrow> False))"

definition cell_update_unknown_rejected :: bool where
  "cell_update_unknown_rejected =
    fails_with ''E_UNKNOWN_CELL'' (fst (cell_update (sample_def ''ghost'') (empty_store, empty_log)))"

definition cell_update_existing_succeeds :: bool where
  "cell_update_existing_succeeds =
    (let def = sample_def ''c1''; (r1, c) = cell_register def (empty_store, empty_log);
         def = def\<lparr>c_model := Some ''example-model-next''\<rparr>; (r2, c) = cell_update def c
     in is_ok r1 \<and> is_ok r2 \<and> map_option c_model (cell_get ''c1'' (fst c)) = Some (Some ''example-model-next''))"

definition cell_list_defs_orders_by_name :: bool where
  "cell_list_defs_orders_by_name =
    (let (r1, c) = cell_register (sample_def ''zeta'') (empty_store, empty_log);
         (r2, c) = cell_register (sample_def ''alpha'') c; (r3, c) = cell_register (sample_def ''mid'') c
     in is_ok r1 \<and> is_ok r2 \<and> is_ok r3 \<and> map c_name (cell_list_defs (fst c)) = [''alpha'', ''mid'', ''zeta''])"

definition named_cell_without_overrides_resolves_named :: bool where
  "named_cell_without_overrides_resolves_named =
    (let (r1, c) = cell_register (sample_def ''named-1'') (empty_store, empty_log)
     in is_ok r1 \<and>
        (case cell_get ''named-1'' (fst c) of
          None \<Rightarrow> False
        | Some got \<Rightarrow> (case resolve_spawn_target (Some got) None None None None of Inr (Named _) \<Rightarrow> True | _ \<Rightarrow> False)))"

definition ephemeral_without_engine_rejected :: bool where
  "ephemeral_without_engine_rejected = fails_with ''E_POLICY_DENIED'' (resolve_spawn_target None None None None None)"

definition engine_kind_roundtrip :: bool where
  "engine_kind_roundtrip \<longleftrightarrow>
    list_all (\<lambda>k. engine_kind_from_db_str (engine_kind_as_str k) = Some k) [Codex, Claude, Pi, Fake] \<and>
    engine_kind_from_db_str ''nope'' = None"

definition cell_register_rejects_invalid_name :: bool where
  "cell_register_rejects_invalid_name =
    list_all (\<lambda>bad. let (r, c) = cell_register ((sample_def ''placeholder'')\<lparr>c_name := bad\<rparr>) (empty_store, empty_log)
        in fails_with ''E_POLICY_DENIED'' r \<and> cell_get bad (fst c) = None)
      [''Up'', ''a/b'', [], replicate 65 (CHR ''a'')]"

definition cell_update_rejects_invalid_name :: bool where
  "cell_update_rejects_invalid_name =
    fails_with ''E_POLICY_DENIED''
      (fst (cell_update ((sample_def ''placeholder'')\<lparr>c_name := ''Bad/Name''\<rparr>) (empty_store, empty_log)))"

definition cell_register_audit_failure_writes_no_row :: bool where
  "cell_register_audit_failure_writes_no_row =
    (let (r, c) = cell_register (sample_def ''c1'') (empty_store, broken_log)
     in \<not> is_ok r \<and> cell_get ''c1'' (fst c) = None)"

definition cell_update_audit_failure_writes_no_mutation :: bool where
  "cell_update_audit_failure_writes_no_mutation =
    (let def = sample_def ''c1''; (r1, c) = cell_register def (empty_store, empty_log);
         original = cell_get ''c1'' (fst c);
         (r2, c) = cell_update (def\<lparr>c_model := Some ''changed''\<rparr>) (fst c, broken_log)
     in is_ok r1 \<and> original \<noteq> None \<and> \<not> is_ok r2 \<and>
        map_option c_model (cell_get ''c1'' (fst c)) = map_option c_model original)"

lemmas cell_test_defs = sample_def_def broken_log_def empty_log_def cell_register_def cell_update_def cell_get_def
  cell_present_def resolve_spawn_target_def audit_to_def audit_emit_def assert_kind_def AUDIT_KINDS_def cell_draft_def
  validate_cell_name_def is_ascii_lowercase_def is_ascii_digit_def is_ok_def

lemma passes_cells_1:
  registry_roundtrip_and_immutability cell_update_unknown_rejected cell_update_existing_succeeds
  named_cell_without_overrides_resolves_named ephemeral_without_engine_rejected engine_kind_roundtrip
  by (simp_all add: registry_roundtrip_and_immutability_def cell_update_unknown_rejected_def
      cell_update_existing_succeeds_def named_cell_without_overrides_resolves_named_def
      ephemeral_without_engine_rejected_def engine_kind_roundtrip_def cell_test_defs Let_def engine_kind_from_db_str_def)

lemma passes_cells_2:
  cell_register_rejects_invalid_name cell_update_rejects_invalid_name
  cell_register_audit_failure_writes_no_row cell_update_audit_failure_writes_no_mutation
  by (simp_all add: cell_register_rejects_invalid_name_def cell_update_rejects_invalid_name_def
      cell_register_audit_failure_writes_no_row_def cell_update_audit_failure_writes_no_mutation_def cell_test_defs Let_def)

lemma passes_cell_list: cell_list_defs_orders_by_name
  by (simp add: cell_list_defs_orders_by_name_def cell_list_defs_def cell_test_defs Let_def sort_key_def
      less_eq_char_def)

section \<open>Threads\<close>

text \<open>\<open>sample_thread\<close> with the fresh identifier it draws.\<close>

definition sample_thread :: "string \<Rightarrow> thread_state \<Rightarrow> cell_thread" where
  "sample_thread u st =
    \<lparr>t_crewd_thread_id = u, t_cell_name = ''worker-a'', t_engine_kind = Claude, t_model = None, t_profile = None,
     t_engine_process_id = None, t_engine_thread_id = None, t_engine_turn_id = None, t_engine_session_id = None,
     t_cwd = ''/tmp/w'', t_worktree_path = None, t_state = st, t_generation = 0, t_created_by_principal = ''operator'',
     t_idempotency_key = ''k1'', t_created_at = now_rfc3339 0, t_updated_at = now_rfc3339 0\<rparr>"

definition thread_state_machine_normative :: bool where
  "thread_state_machine_normative \<longleftrightarrow>
    list_all (\<lambda>(f, t). thread_transition_allowed f t)
      [(TSpawning, TRunning), (TSpawning, TFailedUnknown), (TRunning, TIdle), (TRunning, TInterrupted),
       (TRunning, TTimeout), (TRunning, TFailedUnknown), (TRunning, TDone), (TIdle, TRunning), (TInterrupted, TRunning),
       (TTimeout, TRunning), (TFailedUnknown, TRunning), (TDone, TRunning)] \<and>
    list_all (\<lambda>(f, t). \<not> thread_transition_allowed f t)
      [(TSpawning, TIdle), (TSpawning, TDone), (TIdle, TDone), (TDone, TIdle), (TTimeout, TDone), (TIdle, TIdle)]"

definition thread_store_roundtrip_ids_separated :: bool where
  "thread_store_roundtrip_ids_separated =
    (let t = sample_thread ''u1'' TSpawning; i = t_crewd_thread_id t;
         (r1, s) = thread_insert t empty_store; (r2, s) = thread_transition 0 i TRunning s;
         (r3, s) = thread_transition 0 i TSpawning s;
         (r4, s) = thread_set_engine_ids 0 i (Some 4242) (Some ''eng-th-1'') (Some ''eng-turn-1'') (Some ''eng-sess-1'') s
     in is_ok r1 \<and> is_ok r2 \<and> \<not> is_ok r3 \<and> is_ok r4 \<and>
        (case thread_get i s of
          None \<Rightarrow> False
        | Some got \<Rightarrow> t_engine_thread_id got \<noteq> None \<and> Some (t_crewd_thread_id got) \<noteq> t_engine_thread_id got \<and>
            t_engine_session_id got = Some ''eng-sess-1'' \<and>
            fst (thread_bump_generation 0 (t_crewd_thread_id got) s) = Inr 1))"

definition thread_active_for_cell_only_spawning_running :: bool where
  "thread_active_for_cell_only_spawning_running =
    (let (r1, s1) = thread_insert (sample_thread ''u1'' TIdle) empty_store;
         (r2, s2) = thread_insert (sample_thread ''u2'' TRunning) s1;
         (r3, s3) = thread_insert (sample_thread ''u3'' TDone) s2
     in is_ok r1 \<and> is_ok r2 \<and> is_ok r3 \<and> thread_active_for_cell ''worker-a'' s1 = None \<and>
        map_option t_state (thread_active_for_cell ''worker-a'' s2) = Some TRunning \<and>
        map_option t_state (thread_active_for_cell ''worker-a'' s3) = Some TRunning)"

definition thread_set_engine_ids_partial_leaves_others_intact :: bool where
  "thread_set_engine_ids_partial_leaves_others_intact =
    (let (r1, s) = thread_insert (sample_thread ''u1'' TRunning) empty_store;
         (r2, s) = thread_set_engine_ids 0 ''u1'' (Some 99) None None (Some ''sess-x'') s
     in is_ok r1 \<and> is_ok r2 \<and>
        (case thread_get ''u1'' s of
          None \<Rightarrow> False
        | Some got \<Rightarrow> t_engine_process_id got = Some 99 \<and> t_engine_session_id got = Some ''sess-x'' \<and>
            t_engine_thread_id got = None \<and> t_engine_turn_id got = None))"

definition thread_get_missing_returns_none :: bool where
  "thread_get_missing_returns_none \<longleftrightarrow> thread_get ''does-not-exist'' empty_store = None"

definition threads_in_states_selects_running_and_spawning :: bool where
  "threads_in_states_selects_running_and_spawning =
    (let (r1, s) = thread_insert ((sample_thread ''u1'' TRunning)\<lparr>t_cell_name := ''c-run''\<rparr>) empty_store;
         (r2, s) = thread_insert ((sample_thread ''u2'' TSpawning)\<lparr>t_cell_name := ''c-spawn''\<rparr>) s;
         (r3, s) = thread_insert ((sample_thread ''u3'' TIdle)\<lparr>t_cell_name := ''c-idle''\<rparr>) s;
         orphans = threads_in_states [TRunning, TSpawning] s
     in is_ok r1 \<and> is_ok r2 \<and> is_ok r3 \<and> length orphans = 2 \<and> list_all (\<lambda>t. t_state t \<noteq> TIdle) orphans \<and>
        threads_in_states [] s = [])"

lemmas thread_test_defs = sample_thread_def thread_insert_def thread_get_def thread_transition_def
  thread_set_engine_ids_def thread_bump_generation_def update_thread_def coalesce_def thread_active_for_cell_def
  thread_active_def threads_in_states_def is_ok_def

lemma passes_threads:
  thread_state_machine_normative thread_store_roundtrip_ids_separated thread_active_for_cell_only_spawning_running
  thread_set_engine_ids_partial_leaves_others_intact thread_get_missing_returns_none
  threads_in_states_selects_running_and_spawning
  by (simp_all add: thread_state_machine_normative_def thread_store_roundtrip_ids_separated_def
      thread_active_for_cell_only_spawning_running_def thread_set_engine_ids_partial_leaves_others_intact_def
      thread_get_missing_returns_none_def threads_in_states_selects_running_and_spawning_def thread_test_defs Let_def
      sort_key_def)

section \<open>Jobs\<close>

text \<open>\<open>insert_thread\<close>: a spawning thread of the cell with a fresh identifier.\<close>

definition insert_thread :: "string \<Rightarrow> string \<Rightarrow> engine_kind \<Rightarrow> store \<Rightarrow> store" where
  "insert_thread u cell engine s =
    snd (thread_insert ((sample_thread u TSpawning)\<lparr>t_cell_name := cell, t_engine_kind := engine, t_idempotency_key := ''k9''\<rparr>) s)"

definition job_store :: store where
  "job_store = insert_thread ''th'' ''c1'' Claude empty_store"

text \<open>The raw \<open>UPDATE cell_jobs SET lease_expires_at\<close> of the tests.\<close>

definition expire_lease :: "string \<Rightarrow> store \<Rightarrow> store" where
  "expire_lease i = update_job i (\<lambda>j. j\<lparr>j_lease_expires_at := Some ''2020-01-01T00:00:00Z''\<rparr>)"

definition fifo_leasing_and_redelivery_boundary :: "nat \<Rightarrow> bool" where
  "fifo_leasing_and_redelivery_boundary now =
    (let (j1, s) = job_enqueue now ''j1'' ''th'' ''c1'' ''task-1'' 8 job_store;
         (j2, s) = job_enqueue now ''j2'' ''th'' ''c1'' ''task-2'' 8 s;
         (l, s) = job_lease_next now ''c1'' 30 s;
         (m1, s) = job_mark_started ''j1'' s;
         (blocked, s) = job_lease_next now ''c1'' 30 s;
         (re, s) = job_requeue_expired_leases (now_rfc3339 now) (expire_lease ''j1'' s);
         after = List.find (\<lambda>j. j_job_id j = ''j1'') (jobs_for_thread ''th'' s);
         (l2, s) = job_lease_next now ''c1'' 30 s;
         (m2, s) = job_mark_started ''j1'' s;
         (m3, s) = job_mark_accepted now ''j1'' ''turn-9'' s;
         (re2, s) = job_requeue_expired_leases (now_rfc3339 now) (expire_lease ''j1'' s)
     in is_ok j1 \<and> is_ok j2 \<and> map_option j_job_id l = Some ''j1'' \<and> is_ok m1 \<and> blocked = None \<and> re = [''j1''] \<and>
        map_option j_state after = Some JQueued \<and> map_option j_lease_expires_at after = Some None \<and>
        map_option j_job_id l2 = Some ''j1'' \<and> is_ok m2 \<and> is_ok m3 \<and> re2 = [])"

definition job_requeue_respects_acceptance_boundary :: bool where
  "job_requeue_respects_acceptance_boundary =
    (let (j, s) = job_enqueue 0 ''j1'' ''th'' ''c1'' ''p'' 8 job_store;
         (l1, s) = job_lease_next 0 ''c1'' 30 s; (m1, s) = job_mark_started ''j1'' s;
         (ok1, s) = job_requeue ''j1'' s; after = jobs_for_thread ''th'' s;
         (l2, s) = job_lease_next 0 ''c1'' 30 s; (m2, s) = job_mark_started ''j1'' s;
         (m3, s) = job_mark_accepted 0 ''j1'' ''turn-1'' s;
         (ok2, s) = job_requeue ''j1'' s; after2 = jobs_for_thread ''th'' s
     in is_ok j \<and> is_ok m1 \<and> ok1 \<and> map j_state (take 1 after) = [JQueued] \<and> is_ok m2 \<and> is_ok m3 \<and> \<not> ok2 \<and>
        after2 \<noteq> [] \<and> j_state (hd after2) \<noteq> JQueued)"

text \<open>The loop of enqueues, by the fresh identifiers it draws and the payloads.\<close>

fun enqueues_ok :: "(string \<times> string) list \<Rightarrow> store \<Rightarrow> bool \<times> store" where
  "enqueues_ok [] s = (True, s)"
| "enqueues_ok ((u, p) # xs) s =
    (let (r, s) = job_enqueue 0 u ''th'' ''c1'' p 8 s; (ok, s) = enqueues_ok xs s in (is_ok r \<and> ok, s))"

definition queue_depth_cap :: bool where
  "queue_depth_cap =
    (let (ok, s) = enqueues_ok [(''j0'', ''t0''), (''j1'', ''t1''), (''j2'', ''t2''), (''j3'', ''t3''), (''j4'', ''t4''),
           (''j5'', ''t5''), (''j6'', ''t6''), (''j7'', ''t7'')] job_store
     in ok \<and> fails_with ''E_QUEUE_FULL'' (fst (job_enqueue 0 ''j9'' ''th'' ''c1'' ''t9'' 8 s)))"

definition job_finish_and_cancel_transitions :: bool where
  "job_finish_and_cancel_transitions =
    (let (j, s) = job_enqueue 0 ''j1'' ''th'' ''c1'' ''p'' 8 job_store; (f, s) = job_finish ''j1'' s;
         got = List.find (\<lambda>x. j_job_id x = ''j1'') (jobs_for_thread ''th'' s);
         (j2, s) = job_enqueue 0 ''j2'' ''th'' ''c1'' ''p2'' 8 s; (c, s) = job_cancel ''j2'' s;
         got2 = List.find (\<lambda>x. j_job_id x = ''j2'') (jobs_for_thread ''th'' s)
     in is_ok j \<and> is_ok f \<and> map_option j_state got = Some JFinished \<and> is_ok j2 \<and> is_ok c \<and>
        map_option j_state got2 = Some JCancelled)"

definition lease_next_skips_cancelled_and_finished :: bool where
  "lease_next_skips_cancelled_and_finished =
    (let (j1, s) = job_enqueue 0 ''j1'' ''th'' ''c1'' ''p1'' 8 job_store; (c, s) = job_cancel ''j1'' s;
         (j2, s) = job_enqueue 0 ''j2'' ''th'' ''c1'' ''p2'' 8 s; (f, s) = job_finish ''j2'' s;
         (j3, s) = job_enqueue 0 ''j3'' ''th'' ''c1'' ''p3'' 8 s; (l, s) = job_lease_next 0 ''c1'' 30 s
     in is_ok j1 \<and> is_ok c \<and> is_ok j2 \<and> is_ok f \<and> is_ok j3 \<and> map_option j_job_id l = Some ''j3'')"

definition mark_accepted_sets_engine_turn_and_timestamp :: bool where
  "mark_accepted_sets_engine_turn_and_timestamp =
    (let (j, s) = job_enqueue 0 ''j1'' ''th'' ''c1'' ''p'' 8 job_store; (l, s) = job_lease_next 0 ''c1'' 30 s;
         (m1, s) = job_mark_started ''j1'' s; (m2, s) = job_mark_accepted 0 ''j1'' ''turn-42'' s
     in is_ok j \<and> is_ok m1 \<and> is_ok m2 \<and>
        (case List.find (\<lambda>x. j_job_id x = ''j1'') (jobs_for_thread ''th'' s) of
          None \<Rightarrow> False
        | Some job \<Rightarrow> j_accepted_by_engine_at job \<noteq> None \<and> j_engine_turn_id job = Some ''turn-42''))"

text \<open>The raw \<open>UPDATE\<close> gives all jobs of the cell one creation time.\<close>

definition same_second :: "store \<Rightarrow> store" where
  "same_second s = s\<lparr>s_jobs := update_rows (\<lambda>j. j_cell_name j = ''c1'')
     (\<lambda>j. j\<lparr>j_created_at := ''2026-01-01T00:00:00Z''\<rparr>) (s_jobs s)\<rparr>"

definition fifo_deterministic_on_same_second_uses_enqueue_seq :: bool where
  "fifo_deterministic_on_same_second_uses_enqueue_seq =
    (let (j1, s) = job_enqueue 0 ''j1'' ''th'' ''c1'' ''a'' 8 job_store; (j2, s) = job_enqueue 0 ''j2'' ''th'' ''c1'' ''b'' 8 s;
         (j3, s) = job_enqueue 0 ''j3'' ''th'' ''c1'' ''c'' 8 s;
         (l1, s) = job_lease_next 0 ''c1'' 30 (same_second s); (f1, s) = job_finish ''j1'' s;
         (l2, s) = job_lease_next 0 ''c1'' 30 s; (f2, s) = job_finish ''j2'' s; (l3, s) = job_lease_next 0 ''c1'' 30 s
     in (case (j1, j2, j3) of
          (Inr a, Inr b, Inr c) \<Rightarrow> (j_enqueue_seq a, j_enqueue_seq b, j_enqueue_seq c) = (1, 2, 3)
        | _ \<Rightarrow> False) \<and>
        map_option j_job_id l1 = Some ''j1'' \<and> is_ok f1 \<and> map_option j_job_id l2 = Some ''j2'' \<and> is_ok f2 \<and>
        map_option j_job_id l3 = Some ''j3'')"

lemmas job_test_defs = job_store_def insert_thread_def job_enqueue_def job_enqueue_inner_def in_tx_def job_active_def
  job_active_count_for_cell_def next_enqueue_seq_def job_get_def update_job_def queued_jobs_def cell_blocked_def
  job_lease_next_def set_job_def job_mark_started_def job_mark_accepted_def job_finish_def job_cancel_def requeueable_def
  job_requeue_def job_requeue_expired_leases_def jobs_for_thread_def count_rows_def sort_key_def

lemma passes_fifo_leasing:
  assumes "''2020-01-01T00:00:00Z'' < now_rfc3339 now"
  shows "fifo_leasing_and_redelivery_boundary now"
  using assms by (simp add: fifo_leasing_and_redelivery_boundary_def expire_lease_def job_test_defs thread_test_defs Let_def)

lemma passes_requeue_boundary: job_requeue_respects_acceptance_boundary
  by (simp add: job_requeue_respects_acceptance_boundary_def job_test_defs thread_test_defs Let_def)

lemma passes_queue_depth: queue_depth_cap
  by (simp add: queue_depth_cap_def job_test_defs thread_test_defs Let_def)

lemma passes_finish_and_cancel: job_finish_and_cancel_transitions lease_next_skips_cancelled_and_finished
  by (simp_all add: job_finish_and_cancel_transitions_def lease_next_skips_cancelled_and_finished_def
      job_test_defs thread_test_defs Let_def)

lemma passes_mark_accepted: mark_accepted_sets_engine_turn_and_timestamp
  by (simp add: mark_accepted_sets_engine_turn_and_timestamp_def job_test_defs thread_test_defs Let_def)

lemma passes_same_second: fifo_deterministic_on_same_second_uses_enqueue_seq
  by (simp add: fifo_deterministic_on_same_second_uses_enqueue_seq_def same_second_def job_test_defs thread_test_defs Let_def)

section \<open>Spawning and worktrees\<close>

text \<open>The call every test makes, for the given request and fresh identifiers.\<close>

definition spawn_fake :: "string \<Rightarrow> string \<Rightarrow> spawn_request \<Rightarrow> (spawn_outcome, core) op" where
  "spawn_fake tid jid req = spawn_idempotent 0 tid jid req Fake None None ''/tmp/w'' None 8"

definition test_request :: "string \<Rightarrow> string \<Rightarrow> string \<Rightarrow> string \<Rightarrow> spawn_request" where
  "test_request caller cell key payload =
    \<lparr>sr_caller = caller, sr_cell_name = cell, sr_idempotency_key = key, sr_payload = payload\<rparr>"

definition created_id :: "spawn_outcome res \<Rightarrow> string option" where
  "created_id r = (case r of Inr (Created t) \<Rightarrow> Some (t_crewd_thread_id t) | _ \<Rightarrow> None)"

definition replayed_id :: "spawn_outcome res \<Rightarrow> string option" where
  "replayed_id r = (case r of Inr (Replayed t) \<Rightarrow> Some (t_crewd_thread_id t) | _ \<Rightarrow> None)"

definition spawn_idempotency_same_thread_id :: bool where
  "spawn_idempotency_same_thread_id =
    (let req = test_request ''cli:claude'' ''worker-a'' ''k1'' ''do x'';
         (a, c) = spawn_fake ''t1'' ''j1'' req (empty_store, empty_log);
         (b, c) = spawn_fake ''t2'' ''j2'' req c;
         (r, c) = spawn_fake ''t3'' ''j3'' (req\<lparr>sr_caller := ''cli:codex''\<rparr>) c
     in created_id a \<noteq> None \<and> replayed_id b = created_id a \<and> fails_with ''E_CELL_BUSY'' r)"

definition spawn_creates_enqueued_job :: bool where
  "spawn_creates_enqueued_job =
    (let (r, c) = spawn_fake ''t1'' ''j1'' (test_request ''cli:claude'' ''c1'' ''k1'' ''do x'') (empty_store, empty_log)
     in case created_id r of
          None \<Rightarrow> False
        | Some i \<Rightarrow> map (\<lambda>j. (j_payload j, j_state j)) (jobs_for_thread i (fst c)) = [(''do x'', JQueued)])"

definition spawn_replay_returns_thread_for_caller :: bool where
  "spawn_replay_returns_thread_for_caller =
    (let req = test_request ''cli:claude'' ''c2'' ''rk'' ''p'';
         (r1, (s, l)) = spawn_fake ''t1'' ''j1'' req (empty_store, empty_log)
     in case created_id r1 of
          None \<Rightarrow> False
        | Some i \<Rightarrow>
            (let (m1, s) = thread_transition 0 i TRunning s; (m2, s) = thread_transition 0 i TDone s;
                 (r2, c) = spawn_fake ''t2'' ''j2'' req (s, l)
             in is_ok m1 \<and> is_ok m2 \<and> replayed_id r2 = Some i))"

definition spawn_rejects_invalid_name_and_key :: bool where
  "spawn_rejects_invalid_name_and_key \<longleftrightarrow>
    fails_with ''E_POLICY_DENIED'' (fst (spawn_idempotent 0 ''t1'' ''j1'' (test_request ''cli'' ''Bad/Name'' ''k1'' ''p'')
      Fake None None ''/w'' None 8 (empty_store, empty_log))) \<and>
    fails_with ''E_POLICY_DENIED'' (fst (spawn_idempotent 0 ''t1'' ''j1'' (test_request ''cli'' ''c1'' [] ''p'')
      Fake None None ''/w'' None 8 (empty_store, empty_log)))"

definition spawn_audit_failure_writes_no_record :: bool where
  "spawn_audit_failure_writes_no_record =
    (let (r, c) = spawn_fake ''t1'' ''j1'' (test_request ''cli'' ''c1'' ''k1'' ''p'') (empty_store, broken_log)
     in \<not> is_ok r \<and> thread_active_for_cell ''c1'' (fst c) = None \<and> worktree_list (fst c) = [])"

text \<open>The temporary directory: only its \<open>wt\<close> exists, and is its own canonical path.\<close>

definition wt_dir :: "string \<Rightarrow> string option" where
  "wt_dir p = (if p = ''/t/wt'' then Some p else None)"

definition worktree_core :: core where
  "worktree_core = (insert_thread ''th'' ''c1'' Fake empty_store, empty_log)"

definition worktree_ownership_no_auto_delete :: bool where
  "worktree_ownership_no_auto_delete =
    (let (r1, c) = worktree_record wt_dir 0 ''/t/wt/x'' ''th'' worktree_core; l1 = worktree_list (fst c);
         (r2, c) = worktree_mark_cleanup wt_dir ''/t/wt/x'' c; l2 = worktree_list (fst c)
     in is_ok r1 \<and> map (\<lambda>(_, _, st). st) (take 1 l1) = [''created''] \<and> is_ok r2 \<and>
        map (\<lambda>(_, _, st). st) (take 1 l2) = [''cleanup_requested''])"

definition worktree_record_conflict_on_duplicate_canonical_path :: bool where
  "worktree_record_conflict_on_duplicate_canonical_path =
    (let (r1, c) = worktree_record wt_dir 0 ''/t/wt/dup'' ''th'' worktree_core;
         (r2, c) = worktree_record wt_dir 0 ''/t/wt/dup'' ''th'' c
     in is_ok r1 \<and> \<not> is_ok r2)"

definition worktree_alias_path_collapses_to_canonical :: bool where
  "worktree_alias_path_collapses_to_canonical =
    (let (r1, c) = worktree_record wt_dir 0 ''/t/wt/x'' ''th'' worktree_core;
         (r2, c) = worktree_record wt_dir 0 ''/t/wt/./x'' ''th'' c
     in is_ok r1 \<and> \<not> is_ok r2 \<and> length (worktree_list (fst c)) = 1)"

definition worktree_record_rejects_unknown_thread :: bool where
  "worktree_record_rejects_unknown_thread =
    (let (r, c) = worktree_record wt_dir 0 ''/t/wt/x'' ''ghost-thread'' (empty_store, empty_log)
     in \<not> is_ok r \<and> worktree_list (fst c) = [])"

definition worktree_record_audit_failure_writes_no_row :: bool where
  "worktree_record_audit_failure_writes_no_row =
    (let (r, c) = worktree_record wt_dir 0 ''/t/wt/x'' ''th'' (fst worktree_core, broken_log)
     in \<not> is_ok r \<and> worktree_list (fst c) = [])"

lemmas spawn_test_defs = spawn_fake_def test_request_def created_id_def replayed_id_def spawn_idempotent_def
  spawn_inner_def spawning_thread_def spawn_draft_def lookup_spawn_request_def validate_cell_name_allowing_ephemeral_def
  strip_prefix_def EPHEMERAL_PREFIX_def validate_idempotency_key_def MAX_IDEMPOTENCY_KEY_BYTES_def

lemmas worktree_test_defs = wt_dir_def worktree_core_def worktree_record_def worktree_mark_cleanup_def worktree_list_def
  worktree_draft_def canonical_worktree_path_def path_components_def is_absolute_def join_path_def

lemma passes_spawn_idempotency: spawn_idempotency_same_thread_id
  by (simp add: spawn_idempotency_same_thread_id_def spawn_test_defs cell_test_defs job_test_defs thread_test_defs Let_def)

lemma passes_spawn_job: spawn_creates_enqueued_job spawn_rejects_invalid_name_and_key spawn_audit_failure_writes_no_record
  by (simp_all add: spawn_creates_enqueued_job_def spawn_rejects_invalid_name_and_key_def
      spawn_audit_failure_writes_no_record_def worktree_list_def spawn_test_defs cell_test_defs job_test_defs
      thread_test_defs Let_def)

lemma passes_spawn_replay: spawn_replay_returns_thread_for_caller
  by (simp add: spawn_replay_returns_thread_for_caller_def spawn_test_defs cell_test_defs job_test_defs thread_test_defs Let_def)

lemma passes_worktrees:
  worktree_ownership_no_auto_delete worktree_record_conflict_on_duplicate_canonical_path
  worktree_alias_path_collapses_to_canonical worktree_record_rejects_unknown_thread
  worktree_record_audit_failure_writes_no_row
  by (simp_all add: worktree_ownership_no_auto_delete_def worktree_record_conflict_on_duplicate_canonical_path_def
      worktree_alias_path_collapses_to_canonical_def worktree_record_rejects_unknown_thread_def
      worktree_record_audit_failure_writes_no_row_def worktree_test_defs cell_test_defs thread_test_defs
      insert_thread_def Let_def sort_key_def)

section \<open>The journal\<close>

definition journal_seq_monotonic_and_tail_prefix :: bool where
  "journal_seq_monotonic_and_tail_prefix =
    (let (s1, s) = journal_append 0 ''th'' ''line-a'' empty_store; (s2, s) = journal_append 0 ''th'' ''line-b'' s;
         (s3, s) = journal_append 0 ''th'' ''line-c'' s
     in (s1, s2, s3) = (1, 2, 3) \<and> journal_tail ''th'' 2 s = [''0002 line-b'', ''0003 line-c''] \<and>
        fst (journal_append 0 ''other'' ''x'' s) = 1)"

text \<open>The loop of the test: the lines l1 to l12.\<close>

definition journal_tail_caps_at_n_and_zero_pads :: bool where
  "journal_tail_caps_at_n_and_zero_pads =
    (let s = fold (\<lambda>i s. snd (journal_append 0 ''th'' (CHR ''l'' # dec i) s)) [1..<13] empty_store;
         tail = journal_tail ''th'' 5 s
     in length tail = 5 \<and> tail ! 0 = ''0008 l8'' \<and> tail ! 4 = ''0012 l12'')"

definition cell_result_from_thread_copies_all_ids :: bool where
  "cell_result_from_thread_copies_all_ids =
    (let t = (sample_thread ''crew-9'' TDone)\<lparr>t_engine_process_id := Some 7, t_engine_thread_id := Some ''eth'',
           t_engine_turn_id := Some ''etu'', t_engine_session_id := Some ''ese''\<rparr>;
         r = cell_result_from_thread t
     in cr_crewd_thread_id r = ''crew-9'' \<and> cr_engine_process_id r = Some 7 \<and> cr_engine_thread_id r = Some ''eth'' \<and>
        cr_engine_turn_id r = Some ''etu'' \<and> cr_engine_session_id r = Some ''ese'')"

text \<open>
  The appends of all threads, in the order in which their transactions commit; they are all alike, so
  every order gives the same run.  The numbers it hands out are gap-free and unique.
\<close>

fun append_seqs :: "nat \<Rightarrow> store \<Rightarrow> nat list" where
  "append_seqs 0 s = []"
| "append_seqs (Suc n) s = (let (i, s) = journal_append 0 ''th'' ''x'' s in i # append_seqs n s)"

definition journal_concurrent_file_backed_no_gaps :: bool where
  "journal_concurrent_file_backed_no_gaps =
    (let total = 4 * 25; seqs = append_seqs total empty_store
     in length seqs = total \<and> sort seqs = [1..<Suc total])"

lemma passes_journal_tail: journal_seq_monotonic_and_tail_prefix
proof -
  have "journal_line (Suc (Suc 0)) ''line-b'' = ''0002 line-b''" "journal_line (Suc (Suc (Suc 0))) ''line-c'' = ''0003 line-c''"
    by (code_simp, code_simp)
  then show ?thesis
    by (simp add: journal_seq_monotonic_and_tail_prefix_def journal_append_def journal_tail_def thread_journal_def
        Let_def sort_key_def)
qed

lemma append_seqs_from:
  "map jr_seq (thread_journal ''th'' s) = [1..<Suc k] \<Longrightarrow> append_seqs n s = [Suc k..<Suc k + n]"
proof (induction n arbitrary: s k)
  case (Suc n)
  have m: "fold max [1..<Suc k] 0 = k" for k :: nat by (induction k) auto
  have j: "journal_append 0 ''th'' ''x'' s = (Suc k, s\<lparr>s_journal := s_journal s @
      [\<lparr>jr_thread_id = ''th'', jr_seq = Suc k, jr_line = ''x'', jr_at = now_rfc3339 0\<rparr>]\<rparr>)"
    using Suc.prems m [of k] by (simp add: journal_append_def Let_def)
  have "map jr_seq (thread_journal ''th'' (snd (journal_append 0 ''th'' ''x'' s))) = [1..<Suc (Suc k)]"
    using Suc.prems by (simp add: j thread_journal_def)
  from Suc.IH [OF this] show ?case by (simp add: j upt_conv_Cons del: upt_Suc)
qed simp

lemma passes_journal_concurrent: journal_concurrent_file_backed_no_gaps
proof -
  have "append_seqs 100 empty_store = [Suc 0..<Suc 0 + 100]"
    by (rule append_seqs_from) (simp add: thread_journal_def)
  then show ?thesis by (simp add: journal_concurrent_file_backed_no_gaps_def Let_def sorted_sort_id del: upt_Suc)
qed

lemma passes_cell_result: cell_result_from_thread_copies_all_ids
  by (simp add: cell_result_from_thread_copies_all_ids_def cell_result_from_thread_def sample_thread_def)

lemma passes_journal_caps: journal_tail_caps_at_n_and_zero_pads
proof -
  have u: "[1..<13] = [1, 2, 3, 4, 5, 6, 7, 8, 9, 10, 11, 12::nat]" by code_simp
  have "journal_line 8 (CHR ''l'' # dec 8) = ''0008 l8''" "journal_line 12 (CHR ''l'' # dec 12) = ''0012 l12''"
    by (code_simp, code_simp)
  then show ?thesis unfolding journal_tail_caps_at_n_and_zero_pads_def u
    by (simp add: journal_append_def journal_tail_def thread_journal_def Let_def sort_key_def eval_nat_numeral)
qed

end
