(* ===== verification/EngineTests.thy ===== *)
theory EngineTests
  imports StoreTests Boot
begin

text \<open>
  The unit tests of the daemon (\<open>#[cfg(test)]\<close> in \<open>engines/fake.rs\<close>, \<open>engines/pi.rs\<close>, \<open>engines/codex.rs\<close>,
  \<open>supervisor.rs\<close>, \<open>scheduler.rs\<close>, \<open>config.rs\<close> and \<open>handlers.rs\<close>), each as the check it makes on the
  model, and the proof that it passes.  JSON and TOML texts are given as the values they decode to.
\<close>

section \<open>The in-process fake engine\<close>

definition fake_run :: "string \<Rightarrow> fake_engine \<Rightarrow> engine_event list \<times> fake_engine" where
  "fake_run payload e = fake_poll_events (snd (fake_start_turn payload e))"

definition happy_path_accepted_then_final_in_order :: bool where
  "happy_path_accepted_then_final_in_order \<longleftrightarrow>
    fst (fake_run ''hello'' fake_new) = [engine_event.Accepted ''fake-turn-1'', Final ''done: hello'']"

definition fail_next_emits_failed_and_consumes_flag :: bool where
  "fail_next_emits_failed_and_consumes_flag =
    (let (evs, e) = fake_run ''x'' (with_fail_next fake_new); (evs2, e) = fake_run ''y'' e
     in length evs = 2 \<and> evs ! 1 = Failed ''fake-failure'' \<and> evs2 \<noteq> [] \<and>
        (case last evs2 of Final _ \<Rightarrow> True | _ \<Rightarrow> False))"

definition hang_emits_only_accepted_and_stays_in_flight :: bool where
  "hang_emits_only_accepted_and_stays_in_flight =
    (let (evs, e) = fake_run ''x'' (with_hang fake_new); (r, e) = fake_interrupt e
     in (case evs of [engine_event.Accepted _] \<Rightarrow> True | _ \<Rightarrow> False) \<and> is_ok r \<and> fk_interrupted e)"

definition caps_all_true_except_stream_replay :: bool where
  "caps_all_true_except_stream_replay =
    (let c = engine_caps_of (EFake fake_new)
     in supports_session_resume c \<and> supports_abort c \<and> \<not> supports_stream_replay c \<and> supports_model_override c \<and>
        supports_yolo c)"

definition shutdown_marks_proc_down :: bool where
  "shutdown_marks_proc_down \<longleftrightarrow> fk_proc fake_new = Up \<and> fk_proc (fake_shutdown fake_new) = Down"

definition resume_session_is_ok_for_fake :: bool where
  "resume_session_is_ok_for_fake =
    (let (r, e) = fake_resume_session ''any-sid'' fake_new in is_ok r \<and> fk_last_session e = Some ''any-sid'')"

lemma passes_fake:
  happy_path_accepted_then_final_in_order fail_next_emits_failed_and_consumes_flag
  hang_emits_only_accepted_and_stays_in_flight caps_all_true_except_stream_replay shutdown_marks_proc_down
  resume_session_is_ok_for_fake
  by (simp_all add: happy_path_accepted_then_final_in_order_def fail_next_emits_failed_and_consumes_flag_def
      hang_emits_only_accepted_and_stays_in_flight_def caps_all_true_except_stream_replay_def
      shutdown_marks_proc_down_def resume_session_is_ok_for_fake_def fake_run_def fake_new_def fake_start_turn_def
      fake_poll_events_def with_fail_next_def with_hang_def fake_interrupt_def fake_shutdown_def
      fake_resume_session_def Let_def is_ok_def dec_1_2)

section \<open>The events of pi\<close>

definition prompt_response_success_maps_to_accepted :: bool where
  "prompt_response_success_maps_to_accepted \<longleftrightarrow>
    map_event (JObj [(''id'', JStr ''req_2''), (''type'', JStr ''response''), (''command'', JStr ''prompt''),
      (''success'', JBool True)]) = Some (engine_event.Accepted ''req_2'')"

definition prompt_response_failure_maps_to_failed_with_error :: bool where
  "prompt_response_failure_maps_to_failed_with_error \<longleftrightarrow>
    map_event (JObj [(''id'', JStr ''req_2''), (''type'', JStr ''response''), (''command'', JStr ''prompt''),
      (''success'', JBool False), (''error'', JStr ''No API key found for anthropic.'')]) =
    Some (Failed ''No API key found for anthropic.'')"

definition non_prompt_response_is_ignored :: bool where
  "non_prompt_response_is_ignored =
    list_all (\<lambda>v. map_event v = None)
      [JObj [(''id'', JStr ''req_5''), (''type'', JStr ''response''), (''command'', JStr ''abort''), (''success'', JBool True)],
       JObj [(''id'', JStr ''req_3''), (''type'', JStr ''response''), (''command'', JStr ''get_session_stats''),
         (''success'', JBool True), (''data'', JObj [])],
       JObj [(''type'', JStr ''response''), (''command'', JStr ''parse''), (''success'', JBool False),
         (''error'', JStr (''Failed to parse command: '' @ [CHR 0xE2, CHR 0x80, CHR 0xA6]))]]"

definition message_update_text_delta_maps_to_note :: bool where
  "message_update_text_delta_maps_to_note \<longleftrightarrow>
    map_event (JObj [(''type'', JStr ''message_update''), (''message'', JObj [(''role'', JStr ''assistant'')]),
      (''assistantMessageEvent'', JObj [(''type'', JStr ''text_delta''), (''contentIndex'', JInt 0),
         (''delta'', JStr ''Hello''), (''partial'', JObj [(''role'', JStr ''assistant'')])])]) = Some (Note ''Hello'')"

definition message_update_non_text_delta_is_ignored :: bool where
  "message_update_non_text_delta_is_ignored =
    list_all (\<lambda>v. map_event v = None)
      [JObj [(''type'', JStr ''message_update''), (''assistantMessageEvent'', JObj [(''type'', JStr ''text_end''),
         (''contentIndex'', JInt 0), (''content'', JStr ''Hello''), (''partial'', JObj [(''role'', JStr ''assistant'')])])],
       JObj [(''type'', JStr ''message_update''), (''assistantMessageEvent'', JObj [(''type'', JStr ''thinking_delta''),
         (''contentIndex'', JInt 0), (''delta'', JStr ''hmm''), (''partial'', JObj [(''role'', JStr ''assistant'')])])]]"

definition tool_execution_start_maps_to_note :: bool where
  "tool_execution_start_maps_to_note \<longleftrightarrow>
    map_event (JObj [(''type'', JStr ''tool_execution_start''), (''toolCallId'', JStr ''toolu_01''),
      (''toolName'', JStr ''read''), (''args'', JObj [(''filePath'', JStr ''./package.json'')])]) = Some (Note ''tool: read'')"

definition text_block :: "string \<Rightarrow> json" where
  "text_block t = JObj [(''type'', JStr ''text''), (''text'', JStr t)]"

definition assistant :: "string list \<Rightarrow> string \<Rightarrow> (string \<times> json) list \<Rightarrow> json" where
  "assistant texts stop extra =
    JObj ([(''role'', JStr ''assistant''), (''content'', JArr (map text_block texts)), (''stopReason'', JStr stop)] @ extra)"

definition agent_end :: "bool \<Rightarrow> json list \<Rightarrow> json" where
  "agent_end retry messages =
    JObj [(''type'', JStr ''agent_end''), (''willRetry'', JBool retry), (''messages'', JArr messages)]"

definition agent_end_stop_maps_to_final_with_concatenated_text :: bool where
  "agent_end_stop_maps_to_final_with_concatenated_text \<longleftrightarrow>
    map_event (agent_end False [JObj [(''role'', JStr ''user''), (''content'', JStr ''hi'')],
      assistant [''Hello'', '' world''] ''stop'' []]) = Some (Final ''Hello world'')"

definition agent_end_tooluse_maps_to_final :: bool where
  "agent_end_tooluse_maps_to_final =
    (case map_event (agent_end False [assistant [''done''] ''toolUse'' []]) of Some (Final _) \<Rightarrow> True | _ \<Rightarrow> False)"

definition agent_end_aborted_maps_to_failed :: bool where
  "agent_end_aborted_maps_to_failed \<longleftrightarrow>
    map_event (agent_end False [assistant [''Once upon''] ''aborted'' [(''errorMessage'', JStr ''aborted'')]]) =
    Some (Failed ''aborted'')"

definition agent_end_error_maps_to_failed_with_error_message :: bool where
  "agent_end_error_maps_to_failed_with_error_message \<longleftrightarrow>
    map_event (agent_end False [assistant [[]] ''error'' [(''errorMessage'', JStr ''rate limited'')]]) =
    Some (Failed ''rate limited'')"

definition agent_end_will_retry_is_held :: bool where
  "agent_end_will_retry_is_held \<longleftrightarrow> map_event (agent_end True [assistant [''x''] ''stop'' []]) = None"

definition agent_end_uses_last_assistant_message :: bool where
  "agent_end_uses_last_assistant_message \<longleftrightarrow>
    map_event (agent_end False [assistant [''first''] ''toolUse'' [],
      JObj [(''role'', JStr ''toolResult''), (''content'', JArr [])], assistant [''final answer''] ''stop'' []]) =
    Some (Final ''final answer'')"

definition extension_ui_request_and_error_are_ignored :: bool where
  "extension_ui_request_and_error_are_ignored =
    list_all (\<lambda>v. map_event v = None)
      [JObj [(''type'', JStr ''extension_ui_request''), (''id'', JStr ''ff479978''), (''method'', JStr ''setWidget''),
         (''widgetKey'', JStr ''subagent-async'')],
       JObj [(''type'', JStr ''extension_error''), (''extensionPath'', JStr ''/x/pi-subagents''),
         (''event'', JStr ''session_shutdown''), (''error'', JStr ''stale ctx'')]]"

definition unhandled_event_types_are_ignored :: bool where
  "unhandled_event_types_are_ignored =
    list_all (\<lambda>v. map_event v = None)
      [JObj [(''type'', JStr ''agent_start'')], JObj [(''type'', JStr ''turn_start'')],
       JObj [(''type'', JStr ''message_end''), (''message'', JObj [(''role'', JStr ''assistant'')])],
       JObj [(''type'', JStr ''turn_end''), (''message'', JObj [])],
       JObj [(''type'', JStr ''queue_update''), (''steering'', JArr []), (''followUp'', JArr [])],
       JObj [(''type'', JStr ''compaction_start''), (''reason'', JStr ''manual'')], JObj [(''type'', JStr ''some_new_event'')]]"

definition prompt_request_is_real_shape_no_method_params_mode :: bool where
  "prompt_request_is_real_shape_no_method_params_mode =
    (let v = prompt_request ''req_2'' ''Say hello in one word.''
     in jget ''type'' v = Some (JStr ''prompt'') \<and> jget ''id'' v = Some (JStr ''req_2'') \<and>
        jget ''message'' v = Some (JStr ''Say hello in one word.'') \<and>
        list_all (\<lambda>k. jget k v = None) [''method'', ''params'', ''mode'', ''dir''])"

definition abort_request_is_real_shape_no_params :: bool where
  "abort_request_is_real_shape_no_params =
    (let v = abort_request ''req_5''
     in jget ''type'' v = Some (JStr ''abort'') \<and> jget ''id'' v = Some (JStr ''req_5'') \<and>
        list_all (\<lambda>k. jget k v = None) [''method'', ''params'', ''dir''])"

definition concat_text_content_assembles_blocks_and_handles_string :: bool where
  "concat_text_content_assembles_blocks_and_handles_string \<longleftrightarrow>
    concat_text_content (JObj [(''content'', JArr [text_block ''a'',
      JObj [(''type'', JStr ''thinking''), (''text'', JStr ''x'')], text_block ''b''])]) = ''ab'' \<and>
    concat_text_content (JObj [(''content'', JStr ''raw string'')]) = ''raw string'' \<and>
    concat_text_content (JObj []) = []"

lemmas json_test_defs = jget_def as_str_def as_bool_def as_array_def str_at_def text_blocks_def or_value_def
  text_block_def

lemmas pi_test_defs = map_event_def pi_response_def pi_message_update_def pi_agent_end_def concat_text_content_def
  assistant_def agent_end_def json_test_defs

lemma passes_pi_responses:
  prompt_response_success_maps_to_accepted prompt_response_failure_maps_to_failed_with_error
  non_prompt_response_is_ignored message_update_text_delta_maps_to_note message_update_non_text_delta_is_ignored
  tool_execution_start_maps_to_note
  by (simp_all add: prompt_response_success_maps_to_accepted_def prompt_response_failure_maps_to_failed_with_error_def
      non_prompt_response_is_ignored_def message_update_text_delta_maps_to_note_def
      message_update_non_text_delta_is_ignored_def tool_execution_start_maps_to_note_def pi_test_defs)

lemma passes_pi_agent_end:
  agent_end_stop_maps_to_final_with_concatenated_text agent_end_tooluse_maps_to_final agent_end_aborted_maps_to_failed
  agent_end_error_maps_to_failed_with_error_message agent_end_will_retry_is_held agent_end_uses_last_assistant_message
  by (simp_all add: agent_end_stop_maps_to_final_with_concatenated_text_def agent_end_tooluse_maps_to_final_def
      agent_end_aborted_maps_to_failed_def agent_end_error_maps_to_failed_with_error_message_def
      agent_end_will_retry_is_held_def agent_end_uses_last_assistant_message_def pi_test_defs)

lemma passes_pi_rest:
  extension_ui_request_and_error_are_ignored unhandled_event_types_are_ignored
  prompt_request_is_real_shape_no_method_params_mode abort_request_is_real_shape_no_params
  concat_text_content_assembles_blocks_and_handles_string
  by (simp_all add: extension_ui_request_and_error_are_ignored_def unhandled_event_types_are_ignored_def
      prompt_request_is_real_shape_no_method_params_mode_def abort_request_is_real_shape_no_params_def
      concat_text_content_assembles_blocks_and_handles_string_def prompt_request_def abort_request_def pi_test_defs)

section \<open>Codex\<close>

definition agent_message :: "(string \<times> json) list \<Rightarrow> json" where
  "agent_message kvs = JObj ((''type'', JStr ''agentMessage'') # kvs)"

definition turn_items :: "json list \<Rightarrow> json" where
  "turn_items items = JObj [(''items'', JArr items)]"

definition extract_final_answer_from_v2_agent_message_text_field :: bool where
  "extract_final_answer_from_v2_agent_message_text_field \<longleftrightarrow>
    extract_final_answer (turn_items [agent_message [(''id'', JStr ''i1''), (''text'', JStr ''hello''), (''phase'', JNull)]]) =
    ''hello''"

definition extract_final_answer_takes_last_agent_message :: bool where
  "extract_final_answer_takes_last_agent_message \<longleftrightarrow>
    extract_final_answer (turn_items [agent_message [(''id'', JStr ''i1''), (''text'', JStr ''progress note'')],
      JObj [(''type'', JStr ''commandExecution''), (''id'', JStr ''i2'')],
      agent_message [(''id'', JStr ''i3''), (''text'', JStr ''final report'')]]) = ''final report''"

definition extract_final_answer_from_agent_message :: bool where
  "extract_final_answer_from_agent_message \<longleftrightarrow>
    extract_final_answer (turn_items [agent_message [(''content'', JArr [text_block ''hello''])]]) = ''hello''"

definition extract_final_answer_empty_when_no_agent_message :: bool where
  "extract_final_answer_empty_when_no_agent_message \<longleftrightarrow>
    extract_final_answer (turn_items [JObj [(''type'', JStr ''command_output''), (''text'', JStr ''x'')]]) = []"

definition engine_fails_with :: "string \<Rightarrow> 'a engine_res \<Rightarrow> bool" where
  "engine_fails_with c r = (case r of Inl e \<Rightarrow> code (fst e) = c | Inr _ \<Rightarrow> False)"

definition verify_yolo_rejects_untrusted :: "(string \<Rightarrow> string) \<Rightarrow> bool" where
  "verify_yolo_rejects_untrusted quote =
    engine_fails_with ''E_POLICY_DENIED'' (verify_yolo quote (JObj [(''approvalPolicy'', JStr ''untrusted''),
      (''sandbox'', JObj [(''type'', JStr ''dangerFullAccess'')])]))"

definition verify_yolo_accepts_never_danger :: "(string \<Rightarrow> string) \<Rightarrow> bool" where
  "verify_yolo_accepts_never_danger quote =
    is_ok (verify_yolo quote (JObj [(''approvalPolicy'', JStr ''never''),
      (''sandbox'', JObj [(''type'', JStr ''dangerFullAccess'')])]))"

definition verify_yolo_if_present_ignores_absent_but_catches_downgrade :: "(string \<Rightarrow> string) \<Rightarrow> bool" where
  "verify_yolo_if_present_ignores_absent_but_catches_downgrade quote \<longleftrightarrow>
    is_ok (verify_yolo_if_present quote (JObj [(''turn'', JObj [(''id'', JStr ''t1'')])])) \<and>
    engine_fails_with ''E_POLICY_DENIED'' (verify_yolo_if_present quote (JObj [(''approvalPolicy'', JStr ''untrusted'')]))"

definition response_result_maps_error_object_to_buserror :: bool where
  "response_result_maps_error_object_to_buserror =
    engine_fails_with ''E_ENGINE_DOWN'' (response_result ''turn/start'' (JObj [(''id'', JInt 1),
      (''error'', JObj [(''code'', JInt (- 32000)), (''message'', JStr ''boom'')])]))"

definition opt_out_methods_are_the_four_deltas :: bool where
  "opt_out_methods_are_the_four_deltas \<longleftrightarrow> OPT_OUT_METHODS =
    [''item/agentMessage/delta'', ''item/reasoning/summaryTextDelta'', ''item/reasoning/summaryPartAdded'',
     ''item/reasoning/textDelta'']"

lemma passes_codex_answers:
  extract_final_answer_from_v2_agent_message_text_field extract_final_answer_takes_last_agent_message
  extract_final_answer_from_agent_message extract_final_answer_empty_when_no_agent_message
  opt_out_methods_are_the_four_deltas
  by (simp_all add: extract_final_answer_from_v2_agent_message_text_field_def extract_final_answer_takes_last_agent_message_def
      extract_final_answer_from_agent_message_def extract_final_answer_empty_when_no_agent_message_def
      opt_out_methods_are_the_four_deltas_def extract_final_answer_def turn_items_def agent_message_def json_test_defs
      OPT_OUT_METHODS_def)

lemma passes_codex_policy:
  "verify_yolo_rejects_untrusted quote" "verify_yolo_accepts_never_danger quote"
  "verify_yolo_if_present_ignores_absent_but_catches_downgrade quote" response_result_maps_error_object_to_buserror
  by (simp_all add: verify_yolo_rejects_untrusted_def verify_yolo_accepts_never_danger_def
      verify_yolo_if_present_ignores_absent_but_catches_downgrade_def response_result_maps_error_object_to_buserror_def
      verify_yolo_def verify_yolo_if_present_def response_result_def engine_fails_with_def is_ok_def json_test_defs Let_def)

section \<open>Supervisor\<close>

fun backoffs :: "string list \<Rightarrow> supervisor \<Rightarrow> nat list" where
  "backoffs [] U = []"
| "backoffs (c # cs) U = (let (n, U) = respawn_backoff_secs c U in n # backoffs cs U)"

definition respawn_backoff_grows_and_caps_at_60 :: bool where
  "respawn_backoff_grows_and_caps_at_60 \<longleftrightarrow>
    backoffs (replicate 8 ''c'') supervisor_new = [1, 2, 4, 8, 16, 32, 60, 60]"

definition backoff_is_per_cell_independent :: bool where
  "backoff_is_per_cell_independent \<longleftrightarrow> backoffs [''a'', ''b'', ''a''] supervisor_new = [1, 1, 2]"

text \<open>The events of the log; that its file verifies is shown in \<open>AuditLog\<close>.\<close>

definition stop_records_engine_stopped_in_audit_and_chain_verifies :: "engine_shell \<Rightarrow> bool" where
  "stop_records_engine_stopped_in_audit_and_chain_verifies X =
    (let (r, U) = ensure X ''cell-x'' Fake (default_cfg\<lparr>sc_cwd := ''/tmp'', sc_timeout_secs := 1800\<rparr>) supervisor_new;
         (U, c) = sup_stop ''cell-x'' (U, (empty_store, empty_log))
     in is_ok r \<and> map (\<lambda>d. (dr_kind d, dr_to d)) (al_events (snd c)) = [(''engine_stopped'', Some ''cell-x'')])"

text \<open>While the step is small the backoff is the power of two below the cap.\<close>

lemma respawn_step:
  assumes "or_value 0 (sp_backoff U c) = k" "k < 60"
  shows "respawn_backoff_secs c U = (min 60 (2 ^ k), U\<lparr>sp_backoff := (sp_backoff U)(c \<mapsto> Suc k)\<rparr>)"
proof -
  have "(2::nat) ^ k < 2 ^ 64" using assms(2) by (intro power_strict_increasing) simp_all
  then show ?thesis
    using assms by (simp add: respawn_backoff_secs_def RESPAWN_BACKOFF_CAP_SECS_def checked_shl_or_max_def Let_def)
qed

lemma backoffs_of_one_cell:
  "or_value 0 (sp_backoff U c) = k \<Longrightarrow> k + n < 60 \<Longrightarrow> backoffs (replicate n c) U = map (\<lambda>i. min 60 (2 ^ i)) [k..<k + n]"
proof (induction n arbitrary: U k)
  case (Suc n)
  have "backoffs (replicate n c) (U\<lparr>sp_backoff := (sp_backoff U)(c \<mapsto> Suc k)\<rparr>) = map (\<lambda>i. min 60 (2 ^ i)) [Suc k..<Suc k + n]"
    using Suc.prems(2) by (intro Suc.IH) (simp_all add: or_value_def)
  with respawn_step [OF Suc.prems(1)] Suc.prems(2) show ?case by (simp add: upt_conv_Cons del: upt_Suc)
qed simp

lemma passes_backoff: respawn_backoff_grows_and_caps_at_60 backoff_is_per_cell_independent
proof -
  have "backoffs (replicate 8 ''c'') supervisor_new = map (\<lambda>i. min 60 (2 ^ i)) [0..<0 + 8]"
    by (rule backoffs_of_one_cell) (simp_all add: supervisor_new_def or_value_def)
  also have "\<dots> = [1, 2, 4, 8, 16, 32, 60, 60]" by code_simp
  finally show respawn_backoff_grows_and_caps_at_60
    by (simp only: respawn_backoff_grows_and_caps_at_60_def)
  show backoff_is_per_cell_independent
    by (simp add: backoff_is_per_cell_independent_def respawn_step or_value_def supervisor_new_def)
qed

lemma passes_stop: "stop_records_engine_stopped_in_audit_and_chain_verifies X"
  by (simp add: stop_records_engine_stopped_in_audit_and_chain_verifies_def ensure_def make_adapter_def supervisor_new_def
      put_engine_def sup_stop_def has_engine_def audit_to_def audit_emit_def assert_kind_def AUDIT_KINDS_def
      engine_draft_def empty_log_def is_ok_def Let_def)

section \<open>Scheduler, configuration and handlers\<close>

text \<open>\<open>fixture\<close>: a scheduler with no engine override in the environment.\<close>

definition sched_fixture :: scheduler where
  "sched_fixture = scheduler_new (\<lambda>_. None) (empty_store, empty_log)"

definition profiled_def :: cell_def where
  "profiled_def =
    \<lparr>c_name = ''acme'', c_engine = Claude, c_model = None, c_profile = Some ''acme'', c_cwd = ''/tmp'',
     c_worktree_default = False, c_memory_device = None, c_created_at = now_rfc3339 0\<rparr>"

definition spawn_cfg_carries_keys_env_path_from_builder :: bool where
  "spawn_cfg_carries_keys_env_path_from_builder =
    (let cfg = spawn_cfg_of (with_keys_env_path (Some ''/etc/crewd/keys.env'') sched_fixture) profiled_def
     in sc_keys_env_path cfg = Some ''/etc/crewd/keys.env'' \<and> sc_profile cfg = Some ''acme'')"

definition spawn_cfg_keys_env_path_defaults_to_none :: bool where
  "spawn_cfg_keys_env_path_defaults_to_none \<longleftrightarrow> sc_keys_env_path (spawn_cfg_of sched_fixture profiled_def) = None"

definition spawn_cfg_resolves_profile_def_from_profiles_map :: bool where
  "spawn_cfg_resolves_profile_def_from_profiles_map =
    (let profiles = [''acme'' \<mapsto> \<lparr>pf_base_url = ''https://example/anthropic'', pf_model = ''some-model'',
           pf_api_key_env = ''ACME_KEY''\<rparr>];
         cfg = spawn_cfg_of (with_profiles profiles sched_fixture) profiled_def
     in case sc_profile_def cfg of
          None \<Rightarrow> False
        | Some d \<Rightarrow> pf_base_url d = ''https://example/anthropic'' \<and> pf_model d = ''some-model'' \<and> pf_api_key_env d = ''ACME_KEY'')"

definition spawn_cfg_profile_def_none_when_not_declared :: bool where
  "spawn_cfg_profile_def_none_when_not_declared \<longleftrightarrow> sc_profile_def (spawn_cfg_of sched_fixture profiled_def) = None"

lemma passes_spawn_cfg:
  spawn_cfg_carries_keys_env_path_from_builder spawn_cfg_keys_env_path_defaults_to_none
  spawn_cfg_resolves_profile_def_from_profiles_map spawn_cfg_profile_def_none_when_not_declared
  by (simp_all add: spawn_cfg_carries_keys_env_path_from_builder_def spawn_cfg_keys_env_path_defaults_to_none_def
      spawn_cfg_resolves_profile_def_from_profiles_map_def spawn_cfg_profile_def_none_when_not_declared_def
      spawn_cfg_of_def sched_fixture_def scheduler_new_def profiled_def_def with_keys_env_path_def with_profiles_def
      fake_engine_override_def default_cfg_def Let_def)

text \<open>The configuration files of the tests, as the TOML decoder gives them.\<close>

definition test_toml :: "string option \<Rightarrow> (string \<rightharpoonup> profile_def) option \<Rightarrow> crewd_config option" where
  "test_toml keys profiles =
    (case from_toml (\<lambda>_. Some \<lparr>rw_runtime_dir = ''/tmp/rt'', rw_acl_path = ''/tmp/acl.toml'', rw_lease_secs = None,
        rw_max_attempts = None, rw_backoff_base_secs = None, rw_backoff_cap_secs = None, rw_keys_env_path = keys,
        rw_profiles = profiles\<rparr>) [] of
      Inl _ \<Rightarrow> None | Inr cfg \<Rightarrow> Some cfg)"

definition from_toml_parses_keys_env_path :: bool where
  "from_toml_parses_keys_env_path \<longleftrightarrow>
    map_option cf_keys_env_path (test_toml (Some ''/etc/crewd/keys.env'') None) = Some (Some ''/etc/crewd/keys.env'')"

definition from_toml_keys_env_path_defaults_to_none :: bool where
  "from_toml_keys_env_path_defaults_to_none \<longleftrightarrow> map_option cf_keys_env_path (test_toml None None) = Some None"

definition from_toml_parses_profiles :: bool where
  "from_toml_parses_profiles =
    (case test_toml (Some ''/etc/crewd/keys.env'') (Some [''myprovider'' \<mapsto>
        \<lparr>pf_base_url = ''https://example/anthropic'', pf_model = ''some-model'', pf_api_key_env = ''SOME_KEY_A''\<rparr>]) of
      None \<Rightarrow> False
    | Some cfg \<Rightarrow>
        (case cf_profiles cfg ''myprovider'' of
          None \<Rightarrow> False
        | Some d \<Rightarrow> pf_base_url d = ''https://example/anthropic'' \<and> pf_model d = ''some-model'' \<and> pf_api_key_env d = ''SOME_KEY_A''))"

definition from_toml_profiles_default_empty :: bool where
  "from_toml_profiles_default_empty \<longleftrightarrow> map_option cf_profiles (test_toml None None) = Some Map.empty"

lemma passes_config:
  from_toml_parses_keys_env_path from_toml_keys_env_path_defaults_to_none from_toml_parses_profiles
  from_toml_profiles_default_empty
  by (simp_all add: from_toml_parses_keys_env_path_def from_toml_keys_env_path_defaults_to_none_def
      from_toml_parses_profiles_def from_toml_profiles_default_empty_def test_toml_def from_toml_def or_value_def)

text \<open>Two identifiers of one timestamp whose random digits at the end differ.\<close>

definition two_back_to_back_ephemeral_names_are_distinct :: bool where
  "two_back_to_back_ephemeral_names_are_distinct =
    (let a = ephemeral_cell_name ''0190a1b2-0000-7000-8000-00000000a001'';
         b = ephemeral_cell_name ''0190a1b2-0000-7000-8000-00000000b002''
     in a \<noteq> b \<and>
        list_all (\<lambda>n. (case strip_prefix ''~ephemeral-'' n of None \<Rightarrow> False | Some suffix \<Rightarrow> length suffix = 8) \<and>
          is_ok (validate_cell_name_allowing_ephemeral n)) [a, b])"

definition final_answer_from_journal_tail :: bool where
  "final_answer_from_journal_tail \<longleftrightarrow>
    journal_final_answer [''0001 accepted: t-1'', ''0002 note: lavoro'', ''0003 final: risultato vero''] =
      Some ''risultato vero'' \<and>
    journal_final_answer [''0001 accepted: t-1''] = None \<and> journal_final_answer [] = None"

lemma passes_handlers: two_back_to_back_ephemeral_names_are_distinct final_answer_from_journal_tail
  by (simp_all add: two_back_to_back_ephemeral_names_are_distinct_def final_answer_from_journal_tail_def
      ephemeral_cell_name_def EPHEMERAL_PREFIX_def strip_prefix_def validate_cell_name_allowing_ephemeral_def
      is_ascii_alphanumeric_def is_ascii_lowercase_def is_ascii_digit_def is_ok_def Let_def journal_final_answer_def
      split_once_space_def)

end
