(* ===== verification/Spec2Isabelle.thy ===== *)
theory Spec2Isabelle
  imports Prelude Types Calendar Validators Tickets Acl Quota Canonical AuditLog Schema Store Cells
    Threads Jobs Spawn Journal Wire Config Daemon Handlers Protocol Delivery
    BusInvariant Auth Server System Requests Engines Adapters Codex Supervisor AdapterLaws
    FakeProcess Scheduler Turns TurnInvariant Recovery Completion Boot Serving Client ClientLaws Retries Tasks
    Sections Interleaving Promises Races TestKit
    CoreTests StoreTests EngineTests
begin

text \<open>
  A verification of \<open>crewd\<close>: a daemon that carries messages between the agent cells of one machine
  and runs the coding engines of those cells.  Paths are relative to \<open>crates/\<close>.

  The program.  \<open>crewd-core\<close> holds the vocabulary, the access control list, the quotas, the wait-for
  graph, the hash-chained audit log and the SQLite store with its bus tables (envelopes, deliveries,
  asks, dedupe keys, sequence counters) and its fabric tables (cells, threads, jobs, spawn requests,
  journal).  \<open>crewd\<close> is the daemon: clients connect over a Unix socket, prove a token, and call tools;
  a delivery loop pushes messages to adapters and expires them; a scheduler leases jobs, starts turns
  on engine processes through the supervisor and its adapters, and drains their events.  \<open>crew\<close> is
  the client: operator commands and the MCP shim in front of an agent.  Handlers, delivery loop and
  scheduler share the store, the audit log and a cancel channel.

  The theories, bottom up, and the code each models.

  \<^item> \<open>Prelude\<close>: tables as lists of rows in rowid order with the SQL statements on them, the locale of
    keyed tables, the \<open>?\<close> operator on results and on state, decimals, reachability and invariants
    of step relations.
  \<^item> \<open>Types\<close> (\<open>types.rs\<close>, \<open>error.rs\<close>, \<open>state.rs\<close>, \<open>adapter.rs\<close>), \<open>Calendar\<close> (the order of RFC 3339
    texts), \<open>Validators\<close>, \<open>Tickets\<close>, \<open>Acl\<close>, \<open>Quota\<close>, \<open>Canonical\<close>, \<open>AuditLog\<close> (\<open>audit.rs\<close>): the core
    modules of these names, one group of definitions per function.
  \<^item> \<open>Schema\<close>: the record \<open>store\<close> with one list of rows per table, and the transaction guard.
    \<open>Store\<close>, \<open>Cells\<close>, \<open>Threads\<close>, \<open>Jobs\<close>, \<open>Spawn\<close>, \<open>Journal\<close> (\<open>engine.rs\<close>): the queries and updates of
    the core modules, each a function from the store to a result and a store.
  \<^item> \<open>Wire\<close> (\<open>wire.rs\<close>, the frame reader and the typed parameters), \<open>Config\<close>, \<open>Daemon\<close> (the record
    \<open>daemon\<close>: store and log, access list, quotas, graph, wakers, cancel channel, revocations; audit
    and admission helpers), \<open>Handlers\<close> (every tool and operator call and \<open>dispatch\<close>), \<open>Delivery\<close>
    (\<open>delivery.rs\<close>), \<open>Auth\<close> (\<open>auth.rs\<close>), \<open>Server\<close> (\<open>server.rs\<close>).
  \<^item> \<open>Engines\<close> (\<open>engines/mod.rs\<close>, \<open>child.rs\<close>, \<open>fake.rs\<close>), \<open>Adapters\<close> (\<open>claude.rs\<close>, \<open>pi.rs\<close>), \<open>Codex\<close>,
    \<open>Supervisor\<close>, \<open>Scheduler\<close>: the adapters as records, the adapter trait as a sum type with one
    function per method, the supervisor's maps, the scheduler's turns in flight as an association list
    and every step of a tick.
  \<^item> \<open>Boot\<close> (\<open>crewd/src/main.rs\<close>) with boot recovery, \<open>Serving\<close>: the whole daemon as a step relation.
  \<^item> \<open>Client\<close> (\<open>ops.rs\<close>, \<open>mcp_shim.rs\<close>, \<open>main.rs\<close> of \<open>crew\<close>), \<open>FakeProcess\<close> (the program
    \<open>crewd-fake-engine\<close>, which the claude adapter can drive), \<open>TestKit\<close> (\<open>testkit.rs\<close>: the daemon the
    integration tests start, with its access list and tokens, and the connection they call it through).
  \<^item> \<open>Sections\<close>: the handlers and the delivery tick once more, as programs whose steps are the sections of
    the code's locks; \<open>Interleaving\<close>: any number of such programs in any order.
  \<^item> \<open>Protocol\<close>, \<open>BusInvariant\<close>, \<open>Turns\<close>, \<open>TurnInvariant\<close>, \<open>System\<close>, \<open>Requests\<close>, \<open>Recovery\<close>,
    \<open>Completion\<close>, \<open>Tasks\<close>, \<open>Retries\<close>, \<open>AdapterLaws\<close>, \<open>ClientLaws\<close>,
    \<open>Promises\<close>, \<open>Races\<close>: specifications, refinements, invariants.
  \<^item> \<open>CoreTests\<close>, \<open>StoreTests\<close>, \<open>EngineTests\<close>: the unit tests of the source files, replayed on the model.
\<close>

text \<open>
  What is shown.

  \<^item> Components.  The store's operations keep the keys of its tables.  Every operation on a delivery
    moves it along the state machine, but for two whose moves are stated with it: an inbox pull and a
    recorded failure.  A claim is exclusive while its lease runs, whatever happens in between, and
    afterwards the delivery comes back after at most the due rows ahead of it.  A thread moves along
    one edge of its matrix at a time.  Retries end, queues are first in first out, spawning adds its
    four rows or nothing and is idempotent, quotas bound every window, an await is refused exactly when it closes a cycle,
    canonical texts are equal exactly for equal values, the audit log verifies what was appended and
    shows tampering, tokens implement a database of current credentials, frames do not depend on
    the chunks they come in.
  \<^item> The bus.  \<open>Protocol\<close> specifies what a request may do as small edits of the daemon; \<open>dispatch\<close>
    refines it, on every branch.  \<open>BusInvariant\<close> and \<open>System\<close> prove the invariants on the edits:
    every delivery, answer and key rests on a stored, valid and audited message.
  \<^item> The engines.  \<open>Turns\<close> specifies what a tick may do as small edits of the scheduler, and the whole
    tick refines it, its error exits included; \<open>TurnInvariant\<close> proves that a cell never has two
    turns, that no turn starts unannounced and that an accepted job is not handed out again.
    \<open>Completion\<close> follows a turn to its recorded answer, \<open>Tasks\<close> a task from \<open>cell_spawn\<close> over the tick
    to \<open>cell_result\<close>, \<open>Recovery\<close> what a restart settles and how an acceptance that comes with the
    requeue of its job leads to a second run.
  \<^item> The whole.  \<open>server_step\<close> interleaves handshakes, frames, awaits, delivery phases, ticks, engine
    output, credential changes, revocations, reloads and restarts.  \<open>server_ok\<close> is its invariant, and
    along every run the log only grows, nothing stored is forgotten and an ask is settled once.
  \<^item> Concurrency.  The lock sections of a handler, run in a row, are the handler.  \<open>Interleaving\<close> proves
    rely-guarantee triples for every request: each section is protocol edits by its own cell, and
    what a request has found out stays true whatever other requests, ticks, reloads and the scheduler
    do in between.  \<open>Promises\<close> gives every request an outcome that holds when it ends and from then
    on; \<open>Races\<close> draws the consequences (one recorded reply, one message per key, no answer missed
    once it is stored) and exhibits the schedules that go wrong: a lost wake-up and a cap overrun.
  \<^item> The edges.  After shutdown an adapter stays down and nothing is written to its process, a claude
    child's environment is the allowlist, codex works only under the policy that the answer to its own
    request confirms, the shim never forwards a sender and the shim of a
    worker never a spawn.
  \<^item> The tests.  A start of the test kit on an empty store is an initial state of \<open>server_step\<close>, its
    tokens open sessions and a revocation ends them; its reader agrees with the reader of \<open>crew\<close>.  The
    unit tests of the repository pass on the model: each is a boolean with the assertions of the test
    and a lemma that it holds, a check that the definitions say what the code says.

  How state and time are modelled.  In \<open>dispatch\<close>, \<open>tick\<close> and \<open>server_step\<close> a handler, a phase of the
  delivery loop and a scheduler tick are one step each, and \<open>cell_await\<close>, the one handler that
  suspends, is split into its start, its end and its cancellation.  The code takes its locks section by
  section; \<open>Sections\<close> and the theories on it cover what happens between two sections of a handler or a
  delivery tick.  An event the code appends while it holds another lock is part of that lock's section.
  A scheduler tick is one step there too, any step that leaves the bus tables alone.  Clock values,
  fresh identifiers, random jitter and the iteration order of hash maps are inputs of a step, and
  the properties hold for all of them; \<open>fresh_ids\<close> states that new UUIDs are new.  A restart keeps
  what is on disk (tables, acknowledged audit events, token files) and nothing else, and may come
  after starts that failed half way.

  Parameters stand for code outside the repository: SHA-256, the JSON and TOML parsers and printers,
  the file system, processes and their output, socket reads and peer credentials.  What a property
  needs of them (for instance that parsing gives back what was printed) is a named hypothesis, and
  its witness instantiates it.

  Bounds.  Strings are byte strings.  Unix times are natural numbers, and the order of the daemon's
  timestamps is proved below the year 10000; the saturating and wrapping operations of the code
  (\<open>checked_shl\<close>, \<open>saturating_add\<close>, \<open>as u32\<close>) are written out.  Recursion is structural or has a
  measure, so no fuel is used; the session, delivery and scheduler loops are steps that may happen
  at any time.

  Not modelled.  SQLite failures other than violated constraints, pragmas, indices and file
  permissions; process groups, signals and pids; the tokio runtime and panics; argument parsing by
  clap; log output; the integration tests under \<open>tests/\<close>, and the unit tests of serde derives and of
  \<open>audit.rs\<close> (the chain has its own theorems in \<open>AuditLog\<close>).
\<close>

end
